(* ===== verification/Prelude.thy ===== *)
theory Prelude
  imports Main "HOL-Library.Word" "HOL-Library.Signed_Division" "HOL-Library.Monad_Syntax"
begin

text \<open>
  Shared vocabulary of the development: the machine integers of the C sources, byte buffers
  whose accesses fail (\<open>None\<close>) when they leave the object, the cursor that models a
  \<open>unsigned char**\<close> argument, and the lemmas on them that every component uses.
\<close>

unbundle bit_operations_syntax

section \<open>Machine integers\<close>

type_synonym byte = "8 word"
type_synonym u16 = "16 word"
type_synonym u32 = "32 word"

named_theorems mem_simps \<open>facts on reads and writes of byte buffers\<close>
named_theorems put_simps \<open>operations of the sources as the writing of a byte string\<close>
named_theorems holds_simps \<open>reads of a buffer that holds a known byte string\<close>

lemma bind_Some_map [simp]: "Option.bind x (\<lambda>b. Some (f b)) = map_option f x"
  by (cases x) simp_all

lemma map_option_same [simp]: "map_option (\<lambda>b. b) x = x"
  by (cases x) simp_all

lemma bind_map_out: "Option.bind x (\<lambda>a. map_option f (g a)) = map_option f (Option.bind x g)"
  by (cases x) simp_all

text \<open>A loop whose recursive call stands under a bind may use what was bound before it.\<close>

declare bind_option_cong [fundef_cong]

section \<open>Reading and writing an object in memory\<close>

text \<open>
  A C object is its list of bytes. An access outside it is undefined behaviour, which the
  model makes visible as \<open>None\<close>: a theorem that an operation returns \<open>Some\<close> is a proof
  that it stays inside the object.
\<close>

definition rd :: "byte list \<Rightarrow> nat \<Rightarrow> byte option" where
  "rd buf p = (if p < length buf then Some (buf ! p) else None)"

definition wr :: "byte list \<Rightarrow> nat \<Rightarrow> byte \<Rightarrow> byte list option" where
  "wr buf p c = (if p < length buf then Some (buf[p := c]) else None)"

text \<open>\<open>memcpy(buf + p, xs, length xs)\<close>.\<close>

definition wr_bytes :: "byte list \<Rightarrow> nat \<Rightarrow> byte list \<Rightarrow> byte list option" where
  "wr_bytes buf p xs =
     (if p + length xs \<le> length buf
      then Some (take p buf @ xs @ drop (p + length xs) buf) else None)"

text \<open>\<open>memcpy\<close> reading \<open>n\<close> bytes from a pointer whose object still has the bytes \<open>xs\<close>.\<close>

definition rd_bytes :: "byte list \<Rightarrow> nat \<Rightarrow> byte list option" where
  "rd_bytes xs n = (if n \<le> length xs then Some (take n xs) else None)"

lemma wr_length [mem_simps]: "wr buf p c = Some buf' \<Longrightarrow> length buf' = length buf"
  by (auto simp: wr_def split: if_splits)

lemma wr_bytes_length [mem_simps]: "wr_bytes buf p xs = Some buf' \<Longrightarrow> length buf' = length buf"
  by (auto simp: wr_bytes_def split: if_splits)

lemma wr_bytes_Nil [simp]: "p \<le> length buf \<Longrightarrow> wr_bytes buf p [] = Some buf"
  by (simp add: wr_bytes_def)

lemma wr_eq_wr_bytes: "wr buf p c = wr_bytes buf p [c]"
  by (auto simp: wr_def wr_bytes_def upd_conv_take_nth_drop)

lemma wr_bytes_append:
  "wr_bytes buf p (xs @ ys) =
     Option.bind (wr_bytes buf p xs) (\<lambda>buf'. wr_bytes buf' (p + length xs) ys)"
  by (auto simp: wr_bytes_def add.assoc add.commute add.left_commute)

text \<open>Elements of an array of any type.\<close>

definition nth_opt :: "'a list \<Rightarrow> nat \<Rightarrow> 'a option" where
  "nth_opt xs i = (if i < length xs then Some (xs ! i) else None)"

definition upd_opt :: "'a list \<Rightarrow> nat \<Rightarrow> 'a \<Rightarrow> 'a list option" where
  "upd_opt xs i x = (if i < length xs then Some (xs[i := x]) else None)"

lemma nth_opt_drop: "drop i xs = y # ys \<Longrightarrow> nth_opt xs i = Some y \<and> drop (Suc i) xs = ys"
  by (auto simp: nth_opt_def nth_via_drop drop_Suc drop_tl) (metis drop_all list.distinct(1) not_le)

section \<open>Cursors: a buffer and the position of a pointer into it\<close>

type_synonym cursor = "byte list \<times> nat"

text \<open>Store \<open>xs\<close> at the cursor and move it past them.\<close>

definition put :: "byte list \<Rightarrow> cursor \<Rightarrow> cursor option" where
  "put xs c = (case c of (buf, p) \<Rightarrow>
     map_option (\<lambda>buf'. (buf', p + length xs)) (wr_bytes buf p xs))"

lemma put_append [put_simps]: "Option.bind (put xs c) (put ys) = put (xs @ ys) c"
  by (cases c) (auto simp: put_def wr_bytes_append bind_map_option add.assoc
      split: option.splits Option.bind_splits)

lemma put_bind [put_simps]:
  "Option.bind (put xs c) (\<lambda>c'. Option.bind (put ys c') k) = Option.bind (put (xs @ ys) c) k"
  by (simp add: put_append [symmetric])

lemma put_map [put_simps]:
  "Option.bind (put xs c) (\<lambda>c'. map_option f (put ys c')) = map_option f (put (xs @ ys) c)"
  by (simp add: put_append [symmetric] map_option_bind comp_def)

lemma put_0: "length xs \<le> length buf \<Longrightarrow> put xs (buf, 0) = Some (xs @ drop (length xs) buf, length xs)"
  by (simp add: put_def wr_bytes_def)

lemma put_Some:
  "p + length xs \<le> length buf \<Longrightarrow>
   put xs (buf, p) = Some (take p buf @ xs @ drop (p + length xs) buf, p + length xs)"
  by (simp add: put_def wr_bytes_def)

lemma put_None: "length buf < p + length xs \<Longrightarrow> put xs (buf, p) = None"
  by (simp add: put_def wr_bytes_def)

section \<open>A buffer that holds a byte string\<close>

definition holds :: "byte list \<Rightarrow> nat \<Rightarrow> byte list \<Rightarrow> bool" where
  "holds buf p xs \<longleftrightarrow> p + length xs \<le> length buf \<and> take (length xs) (drop p buf) = xs"

lemma holds_append [holds_simps]:
  "holds buf p (xs @ ys) \<longleftrightarrow> holds buf p xs \<and> holds buf (p + length xs) ys"
proof -
  have "take (length xs + length ys) (drop p buf) = xs @ ys \<longleftrightarrow>
      take (length xs) (drop p buf) = xs \<and> take (length ys) (drop (length xs) (drop p buf)) = ys"
    if "p + (length xs + length ys) \<le> length buf"
    using that by (simp add: take_add append_eq_append_conv)
  then show ?thesis
    by (auto simp: holds_def add.commute add.left_commute)
qed

lemma holds_rd [holds_simps]: "holds buf p [x] \<longleftrightarrow> rd buf p = Some x"
  by (auto simp: holds_def rd_def take_Suc_conv_app_nth hd_drop_conv_nth take_Suc)

lemma holds_Cons [holds_simps]:
  "ys \<noteq> [] \<Longrightarrow> holds buf p (x # ys) \<longleftrightarrow> rd buf p = Some x \<and> holds buf (Suc p) ys"
  using holds_append [of buf p "[x]" ys] by (simp add: holds_rd)

lemma holds_Nil [simp]: "holds buf p [] \<longleftrightarrow> p \<le> length buf"
  by (simp add: holds_def)

lemma holds_put: "put xs (buf, p) = Some (buf', p') \<Longrightarrow> holds buf' p xs"
  by (auto simp: put_def wr_bytes_def holds_def split: if_splits)

lemma holds_take: "holds buf p xs \<Longrightarrow> rd_bytes (drop p buf) (length xs) = Some xs"
  by (auto simp: holds_def rd_bytes_def)

section \<open>Big-endian integers\<close>

definition be16 :: "nat \<Rightarrow> byte list" where
  "be16 n = [word_of_nat (n div 256), word_of_nat (n mod 256)]"

lemma length_be16 [simp]: "length (be16 n) = 2"
  by (simp add: be16_def)

lemma be16_value:
  "n < 65536 \<Longrightarrow> 256 * unat (word_of_nat (n div 256) :: byte) + unat (word_of_nat (n mod 256) :: byte) = n"
  by (simp add: unat_of_nat)

end
