(* ===== verification/Optiga_Util.thy ===== *)
theory Optiga_Util
  imports Prelude
begin

text \<open>
  \<open>lib/optiga/common/Util.c\<close>: the 64-bit counters kept as two 32-bit halves (compare,
  subtract, add, shift and set a bit), the big-endian accessors and the overlapping copy.
  The pointer arguments are taken to be non-null, as the code assumes when
  \<open>ENABLE_NULL_CHECKS\<close> is not defined (no file of the repository defines it).
  A shift by 32 or more of a 32-bit value, undefined in C, is the value \<open>None\<close>.
\<close>

section \<open>The 64-bit counter\<close>

datatype sUint64 = SUint64 (dwHigherByte: u32) (dwLowerByte: u32)

definition GREATER_THAN :: int where "GREATER_THAN = 1"
definition LESSER_THAN :: int where "LESSER_THAN = 2"
definition EQUAL :: int where "EQUAL = 0"
definition UTIL_SUCCESS :: int where "UTIL_SUCCESS = 0"
definition UTIL_ERROR :: int where "UTIL_ERROR = -1"
definition WORD_SIZE :: nat where "WORD_SIZE = 32"
definition MASK_DOUBLE_WORD :: u32 where "MASK_DOUBLE_WORD = 0xFFFFFFFF"

lemmas util_codes = GREATER_THAN_def LESSER_THAN_def EQUAL_def UTIL_SUCCESS_def UTIL_ERROR_def
  WORD_SIZE_def MASK_DOUBLE_WORD_def

definition CompareUint64 :: "sUint64 \<Rightarrow> sUint64 \<Rightarrow> int" where
  "CompareUint64 s1 s2 =
     (if dwHigherByte s1 = dwHigherByte s2 then
        (if dwLowerByte s1 > dwLowerByte s2 then GREATER_THAN
         else if dwLowerByte s1 < dwLowerByte s2 then LESSER_THAN
         else EQUAL)
      else if dwHigherByte s1 > dwHigherByte s2 then GREATER_THAN
      else LESSER_THAN)"

text \<open>The third argument is what \<open>*PpsDifference\<close> holds before the call.\<close>

definition SubtractUint64 :: "sUint64 \<Rightarrow> sUint64 \<Rightarrow> sUint64 \<Rightarrow> int \<times> sUint64" where
  "SubtractUint64 minuend subtrahend diff =
     (let ret = CompareUint64 minuend subtrahend in
      if ret \<noteq> GREATER_THAN \<and> ret \<noteq> EQUAL then (UTIL_ERROR, diff)
      else
        let lo = dwLowerByte minuend - dwLowerByte subtrahend;
            hi = dwHigherByte minuend - dwHigherByte subtrahend;
            hi = (if lo > dwLowerByte minuend then hi - 1 else hi)
        in (UTIL_SUCCESS, SUint64 hi lo))"

definition AddUint64 :: "sUint64 \<Rightarrow> sUint64 \<Rightarrow> int \<times> sUint64" where
  "AddUint64 s1 s2 =
     (let lo = dwLowerByte s1 + dwLowerByte s2;
          hi = dwHigherByte s1 + dwHigherByte s2;
          hi = (if lo < dwLowerByte s1 then hi + 1 else hi)
      in (UTIL_SUCCESS, SUint64 hi lo))"

definition IncrementUint64 :: "sUint64 \<Rightarrow> int \<times> sUint64" where
  "IncrementUint64 s = AddUint64 s (SUint64 0 1)"

text \<open>C shifts of a \<open>uint32_t\<close>.\<close>

definition shl32 :: "u32 \<Rightarrow> nat \<Rightarrow> u32 option" where
  "shl32 x n = (if n < 32 then Some (push_bit n x) else None)"

definition shr32 :: "u32 \<Rightarrow> nat \<Rightarrow> u32 option" where
  "shr32 x n = (if n < 32 then Some (drop_bit n x) else None)"

definition ShiftLeftUint64 :: "sUint64 \<Rightarrow> sUint64 \<Rightarrow> byte \<Rightarrow> byte \<Rightarrow> (int \<times> sUint64) option" where
  "ShiftLeftUint64 w count wsize maxsize =
     (let ret = CompareUint64 count (SUint64 0 (ucast wsize)) in
      if ret = GREATER_THAN \<or> ret = EQUAL then Some (UTIL_SUCCESS, SUint64 0 0)
      else
        let n = unat (dwLowerByte count);
            mask = MASK_DOUBLE_WORD AND dwLowerByte w
        in
          if unat wsize = WORD_SIZE then do {
            hi \<leftarrow> shl32 (dwHigherByte w) n;
            Some (UTIL_SUCCESS, SUint64 hi 0)
          } else if WORD_SIZE \<le> n then do {
            hi \<leftarrow> shl32 (0 OR mask) (n - WORD_SIZE);
            m \<leftarrow> shr32 MASK_DOUBLE_WORD (unat maxsize - unat wsize);
            Some (UTIL_SUCCESS, SUint64 (hi AND m) 0)
          } else do {
            lo \<leftarrow> shl32 (dwLowerByte w) n;
            hi \<leftarrow> shl32 (dwHigherByte w) n;
            carry \<leftarrow> shr32 mask (WORD_SIZE - n);
            m \<leftarrow> shr32 MASK_DOUBLE_WORD (unat maxsize - unat wsize);
            Some (UTIL_SUCCESS, SUint64 ((hi OR carry) AND m) lo)
          })"

definition Utility_SetBitUint64 :: "sUint64 \<Rightarrow> byte \<Rightarrow> byte \<Rightarrow> (int \<times> sUint64) option" where
  "Utility_SetBitUint64 d wsize pos =
     (if pos > wsize then Some (UTIL_ERROR, d)
      else if pos = wsize then
        (if unat wsize = WORD_SIZE then
           Some (UTIL_SUCCESS, SUint64 (dwHigherByte d OR 1) (dwLowerByte d))
         else Some (UTIL_SUCCESS, SUint64 (dwHigherByte d) (dwLowerByte d OR 1)))
      else
        let shift = wsize - pos in
        if unat wsize = WORD_SIZE then do {
          b \<leftarrow> shl32 1 (unat shift - 1);
          Some (UTIL_SUCCESS, SUint64 (dwHigherByte d OR b) (dwLowerByte d))
        } else if WORD_SIZE < unat shift then do {
          b \<leftarrow> shl32 1 (unat (shift - of_nat WORD_SIZE) - 1);
          Some (UTIL_SUCCESS, SUint64 (dwHigherByte d OR b) (dwLowerByte d))
        } else do {
          b \<leftarrow> shl32 1 (unat shift - 1);
          Some (UTIL_SUCCESS, SUint64 (dwHigherByte d) (dwLowerByte d OR b))
        })"

section \<open>Big-endian accessors\<close>

definition Utility_GetUint16 :: "byte list \<Rightarrow> nat \<Rightarrow> u16 option" where
  "Utility_GetUint16 buf p = do {
     b0 \<leftarrow> rd buf p;
     b1 \<leftarrow> rd buf (p + 1);
     Some (push_bit 8 (ucast b0) OR ucast b1)
   }"

definition Utility_SetUint24 :: "byte list \<Rightarrow> nat \<Rightarrow> u32 \<Rightarrow> byte list option" where
  "Utility_SetUint24 buf p v = do {
     buf \<leftarrow> wr buf p (ucast (drop_bit 16 v));
     buf \<leftarrow> wr buf (p + 1) (ucast (drop_bit 8 v));
     wr buf (p + 2) (ucast v)
   }"

definition Utility_GetUint24 :: "byte list \<Rightarrow> nat \<Rightarrow> u32 option" where
  "Utility_GetUint24 buf p = do {
     b0 \<leftarrow> rd buf p;
     b1 \<leftarrow> rd buf (p + 1);
     b2 \<leftarrow> rd buf (p + 2);
     Some ((push_bit 16 (ucast b0) OR push_bit 8 (ucast b1)) OR ucast b2)
   }"

definition Utility_GetUint32 :: "byte list \<Rightarrow> nat \<Rightarrow> u32 option" where
  "Utility_GetUint32 buf p = do {
     b0 \<leftarrow> rd buf p;
     b1 \<leftarrow> rd buf (p + 1);
     b2 \<leftarrow> rd buf (p + 2);
     b3 \<leftarrow> rd buf (p + 3);
     Some (push_bit 24 (ucast b0) OR
       (push_bit 16 (ucast b1) OR push_bit 8 (ucast b2) OR ucast b3))
   }"

definition Utility_SetUint16 :: "byte list \<Rightarrow> nat \<Rightarrow> u16 \<Rightarrow> byte list option" where
  "Utility_SetUint16 buf p v = do {
     buf \<leftarrow> wr buf p (ucast (drop_bit 8 v));
     wr buf (p + 1) (ucast v)
   }"

definition Utility_SetUint32 :: "byte list \<Rightarrow> nat \<Rightarrow> u32 \<Rightarrow> byte list option" where
  "Utility_SetUint32 buf p v = do {
     buf \<leftarrow> wr buf p (ucast (drop_bit 24 v));
     buf \<leftarrow> wr buf (p + 1) (ucast (drop_bit 16 v));
     buf \<leftarrow> wr buf (p + 2) (ucast (drop_bit 8 v));
     wr buf (p + 3) (ucast v)
   }"

section \<open>The overlapping copy\<close>

text \<open>
  Both pointers point into one memory block \<open>mem\<close>; \<open>dst\<close> and \<open>src\<close> are their offsets. The
  two loops of the source are the two recursions.
\<close>

fun memmove_down :: "byte list \<Rightarrow> nat \<Rightarrow> nat \<Rightarrow> nat \<Rightarrow> byte list option" where
  "memmove_down mem dst src 0 = Some mem"
| "memmove_down mem dst src (Suc n) = do {
     x \<leftarrow> rd mem (src + n);
     mem \<leftarrow> wr mem (dst + n) x;
     memmove_down mem dst src n
   }"

function memmove_up :: "byte list \<Rightarrow> nat \<Rightarrow> nat \<Rightarrow> nat \<Rightarrow> nat \<Rightarrow> byte list option" where
  "memmove_up mem dst src len i =
     (if i < len then do {
        x \<leftarrow> rd mem (src + i);
        mem \<leftarrow> wr mem (dst + i) x;
        memmove_up mem dst src len (Suc i)
      } else Some mem)"
  by pat_completeness auto
termination
  by (relation "measure (\<lambda>(mem, dst, src, len, i). len - i)") auto

declare memmove_up.simps [simp del]

definition Utility_Memmove :: "byte list \<Rightarrow> nat \<Rightarrow> nat \<Rightarrow> u16 \<Rightarrow> byte list option" where
  "Utility_Memmove mem dst src len =
     (if dst > src \<and> int dst \<le> int src + int (unat len) - 1
      then memmove_down mem dst src (unat len)
      else memmove_up mem dst src (unat len) 0)"

section \<open>The counters as natural numbers below \<open>2 ^ 64\<close>\<close>

definition u64val :: "sUint64 \<Rightarrow> nat" where
  "u64val x = unat (dwHigherByte x) * 2 ^ 32 + unat (dwLowerByte x)"

lemma unat32_less: "unat (w :: u32) < 4294967296"
  using unsigned_less [of w] by simp

lemma u64val_less: "u64val x < 2 ^ 64"
proof -
  have "unat (dwHigherByte x) * 2 ^ 32 \<le> 4294967295 * 2 ^ 32"
    using unat32_less [of "dwHigherByte x"] by (intro mult_le_mono1) simp
  then show ?thesis
    using unat32_less [of "dwLowerByte x"] by (simp add: u64val_def)
qed

lemma u64val_inject [simp]: "u64val x = u64val y \<longleftrightarrow> x = y"
proof
  assume eq: "u64val x = u64val y"
  have "u64val z div 2 ^ 32 = unat (dwHigherByte z) \<and> u64val z mod 2 ^ 32 = unat (dwLowerByte z)" for z
    using unat32_less [of "dwLowerByte z"] by (simp add: u64val_def)
  with eq have "unat (dwHigherByte x) = unat (dwHigherByte y)" "unat (dwLowerByte x) = unat (dwLowerByte y)"
    by metis+
  then show "x = y"
    by (cases x; cases y) (simp add: word_unat_eq_iff)
qed simp

instantiation sUint64 :: linorder
begin

definition less_eq_sUint64 :: "sUint64 \<Rightarrow> sUint64 \<Rightarrow> bool" where
  "less_eq_sUint64 x y \<longleftrightarrow> u64val x \<le> u64val y"

definition less_sUint64 :: "sUint64 \<Rightarrow> sUint64 \<Rightarrow> bool" where
  "less_sUint64 x y \<longleftrightarrow> u64val x < u64val y"

instance
  by standard (auto simp: less_eq_sUint64_def less_sUint64_def)

end

lemma CompareUint64_val:
  "CompareUint64 x y =
     (if u64val x > u64val y then GREATER_THAN else if u64val x < u64val y then LESSER_THAN else EQUAL)"
proof -
  have "a * 4294967296 + b < c * 4294967296 + d" if "a < c" "b < 4294967296" for a b c d :: nat
    using that by linarith
  then have *: "u64val p < u64val q" if "dwHigherByte p < dwHigherByte q" for p q
    using that unat32_less [of "dwLowerByte p"] by (simp add: u64val_def word_less_nat_alt)
  have **: "u64val p < u64val q \<longleftrightarrow> dwLowerByte p < dwLowerByte q" if "dwHigherByte p = dwHigherByte q" for p q
    using that by (simp add: u64val_def word_less_nat_alt)
  show ?thesis
    using * [of x y] * [of y x] ** [of x y] ** [of y x]
    by (cases "dwHigherByte x" "dwHigherByte y" rule: linorder_cases)
      (auto simp: CompareUint64_def)
qed


definition u64_of :: "nat \<Rightarrow> sUint64" where
  "u64_of n = SUint64 (of_nat (n div 2 ^ 32)) (of_nat n)"

lemma u64val_u64_of: "u64val (u64_of n) = n mod 2 ^ 64"
  using mod_mult2_eq [of n "2 ^ 32" "2 ^ 32"]
  by (simp add: u64val_def u64_of_def unat_of_nat)

lemma u64_of_eqI: "u64val x = n mod 2 ^ 64 \<Longrightarrow> x = u64_of n"
  by (metis u64val_inject u64val_u64_of)

lemma SubtractUint64_val:
  "SubtractUint64 x y d =
     (if u64val y \<le> u64val x then (UTIL_SUCCESS, u64_of (u64val x - u64val y)) else (UTIL_ERROR, d))"
proof (cases "u64val y \<le> u64val x")
  case True
  let ?lo = "dwLowerByte x - dwLowerByte y"
  let ?hi = "dwHigherByte x - dwHigherByte y"
  let ?d = "SUint64 (if dwLowerByte x < ?lo then ?hi - 1 else ?hi) ?lo"
  let ?xl = "unat (dwLowerByte x)" and ?yl = "unat (dwLowerByte y)"
  let ?xh = "unat (dwHigherByte x)" and ?yh = "unat (dwHigherByte y)"
  note lt = unat32_less [of "dwLowerByte x"] unat32_less [of "dwLowerByte y"]
  have "u64val ?d = u64val x - u64val y"
  proof (cases "?yl \<le> ?xl")
    case le: True
    then have lo: "unat ?lo = ?xl - ?yl"
      by (simp add: unat_sub_if')
    moreover from le True lt have "?yh \<le> ?xh"
      by (simp add: u64val_def)
    moreover then have "unat ?hi = ?xh - ?yh"
      by (simp add: unat_sub_if')
    ultimately show ?thesis
      using le by (simp add: u64val_def word_less_nat_alt diff_mult_distrib)
  next
    case gt: False
    then have lo: "unat ?lo = ?xl + 2 ^ 32 - ?yl"
      using lt by (simp add: unat_sub_if')
    with gt lt have "dwLowerByte x < ?lo"
      by (simp add: word_less_nat_alt)
    moreover from gt True lt have hl: "?yh < ?xh"
      by (simp add: u64val_def)
    then have h1: "unat ?hi = ?xh - ?yh" "1 \<le> unat ?hi"
      by (simp_all add: unat_sub_if')
    then have "unat (?hi - 1) = ?xh - ?yh - 1"
      by (simp add: unat_sub_if' del: unat_sub_if_size)
    ultimately show ?thesis
      using gt lo hl lt by (simp add: u64val_def diff_mult_distrib)
  qed
  moreover have "u64val x - u64val y < 2 ^ 64"
    using u64val_less [of x] by simp
  ultimately have "?d = u64_of (u64val x - u64val y)"
    by (intro u64_of_eqI) simp
  with True show ?thesis
    by (auto simp: SubtractUint64_def CompareUint64_val Let_def util_codes)
next
  case False
  then show ?thesis
    by (simp add: SubtractUint64_def CompareUint64_val util_codes)
qed

lemma add_carry:
  fixes a1 a0 b1 b0 B :: nat
  assumes "a0 < B" "b0 < B"
  defines "lo \<equiv> (a0 + b0) mod B"
  shows "(a1 + b1 + (if lo < a0 then 1 else 0)) mod B * B + lo = (a1 * B + a0 + (b1 * B + b0)) mod (B * B)"
proof -
  have lo: "lo = (if a0 + b0 < B then a0 + b0 else a0 + b0 - B)"
    using assms by (simp add: lo_def le_mod_geq)
  let ?h = "a1 + b1 + (if lo < a0 then 1 else 0)"
  have "a1 * B + a0 + (b1 * B + b0) = ?h * B + lo"
    using assms(1,2) by (auto simp: lo algebra_simps)
  moreover have "lo < B"
    using assms by (simp add: lo_def)
  ultimately show ?thesis
    by (simp add: mod_mult2_eq mult.commute)
qed

lemma AddUint64_val: "AddUint64 x y = (UTIL_SUCCESS, u64_of (u64val x + u64val y))"
proof -
  let ?lo = "dwLowerByte x + dwLowerByte y"
  let ?hi = "dwHigherByte x + dwHigherByte y"
  let ?s = "SUint64 (if ?lo < dwLowerByte x then ?hi + 1 else ?hi) ?lo"
  have "u64val ?s = (u64val x + u64val y) mod 2 ^ 64"
    using add_carry [OF unat32_less [of "dwLowerByte x"] unat32_less [of "dwLowerByte y"],
        of "unat (dwHigherByte x)" "unat (dwHigherByte y)"]
    by (simp add: u64val_def word_less_nat_alt unat_word_ariths mod_simps split: if_splits)
  then show ?thesis
    by (simp add: AddUint64_def Let_def u64_of_eqI)
qed

lemma IncrementUint64_val: "IncrementUint64 x = (UTIL_SUCCESS, u64_of (u64val x + 1))"
  by (simp add: IncrementUint64_def AddUint64_val u64val_def)


section \<open>The two halves as a window of flags\<close>

text \<open>
  Flag \<open>i\<close> of a window of \<open>n\<close> flags, counted from the newest: a window of 32 flags lives in
  the higher half only, a larger one starts in the lower half.
\<close>

definition frame_bit :: "nat \<Rightarrow> sUint64 \<Rightarrow> nat \<Rightarrow> bool" where
  "frame_bit n w i =
     (if n = 32 then bit (dwHigherByte w) i
      else if i < 32 then bit (dwLowerByte w) i
      else bit (dwHigherByte w) (i - 32))"

lemma bit_u32_mask [simp]: "bit (MASK_DOUBLE_WORD) i \<longleftrightarrow> i < 32"
proof -
  have "MASK_DOUBLE_WORD = (- 1 :: u32)"
    by (simp add: MASK_DOUBLE_WORD_def)
  show ?thesis
    by (simp only: \<open>MASK_DOUBLE_WORD = - 1\<close>) simp
qed

lemma shift_count_low:
  assumes "u64val c < 64"
  shows "dwHigherByte c = 0" "unat (dwLowerByte c) = u64val c"
proof -
  have "unat (dwHigherByte c) = 0"
    using assms by (simp add: u64val_def)
  then show "dwHigherByte c = 0" "unat (dwLowerByte c) = u64val c"
    by (simp_all add: u64val_def unat_eq_0)
qed

lemma ShiftLeftUint64_frame:
  assumes n: "0 < u64val count" and ws: "32 \<le> unat ws" "unat ws \<le> 64"
  shows "\<exists>w'. ShiftLeftUint64 w count ws 64 = Some (UTIL_SUCCESS, w') \<and>
    (\<forall>i < unat ws. frame_bit (unat ws) w' i \<longleftrightarrow>
       u64val count \<le> i \<and> frame_bit (unat ws) w (i - u64val count))"
proof -
  have uws: "u64val (SUint64 0 (ucast ws)) = unat ws"
    using ws by (simp add: u64val_def unsigned_ucast_eq take_bit_nat_eq_self)
  show ?thesis
  proof (cases "unat ws \<le> u64val count")
    case True
    then show ?thesis
      by (auto simp: ShiftLeftUint64_def CompareUint64_val uws util_codes frame_bit_def)
  next
    case False
    then have lt: "u64val count < unat ws" "u64val count < 64"
      using ws by simp_all
    note c = shift_count_low [OF lt(2)]
    show ?thesis
      using lt n ws
      by (auto simp: ShiftLeftUint64_def CompareUint64_val uws c Let_def shl32_def shr32_def
          frame_bit_def bit_simps util_codes(1-6))
        (simp_all add: add.commute)
  qed
qed

lemma Utility_SetBitUint64_frame:
  assumes ws: "32 \<le> unat ws" "unat ws \<le> 64" and pos: "unat pos \<le> unat ws"
  shows "\<exists>w'. Utility_SetBitUint64 w ws pos = Some (UTIL_SUCCESS, w') \<and>
    (\<forall>i < unat ws. frame_bit (unat ws) w' i \<longleftrightarrow>
       i = (if pos = ws then 0 else unat ws - 1 - unat pos) \<or> frame_bit (unat ws) w i)"
proof (cases "pos = ws")
  case True
  then show ?thesis
    using ws by (auto simp: Utility_SetBitUint64_def frame_bit_def bit_simps util_codes bit_1_iff)
next
  case False
  then have lt: "unat pos < unat ws"
    using pos by (simp add: word_unat_eq_iff)
  have sub: "unat (ws - pos) = unat ws - unat pos"
    using pos by (simp add: unat_sub_if')
  have sub32: "unat (ws - pos - 32) = unat ws - unat pos - 32" if "32 < unat ws - unat pos"
    using that sub by (simp add: unat_sub_if')
  show ?thesis
    using ws lt False
    by (auto simp: Utility_SetBitUint64_def Let_def shl32_def sub sub32 word_less_nat_alt
        frame_bit_def bit_simps util_codes bit_1_iff)
qed


section \<open>Round trips of the accessors\<close>

lemma bit_shift_back [simp]: "bit v (k + (n - k)) = (if k \<le> n then bit v n else bit v (k :: nat))"
  by auto

lemma u16_split: "push_bit 8 (ucast (ucast (drop_bit 8 v) :: byte)) OR ucast (ucast v :: byte) = (v :: u16)"
  by (rule bit_word_eqI) (auto simp: bit_simps)

lemma u32_split:
  "push_bit 24 (ucast (ucast (drop_bit 24 v) :: byte)) OR
     (push_bit 16 (ucast (ucast (drop_bit 16 v) :: byte)) OR
      push_bit 8 (ucast (ucast (drop_bit 8 v) :: byte)) OR ucast (ucast v :: byte)) = (v :: u32)"
  by (rule bit_word_eqI) (auto simp: bit_simps)

lemma u24_split:
  "(push_bit 16 (ucast (ucast (drop_bit 16 v) :: byte)) OR
      push_bit 8 (ucast (ucast (drop_bit 8 v) :: byte))) OR ucast (ucast v :: byte) =
   take_bit 24 (v :: u32)"
  by (rule bit_word_eqI) (auto simp: bit_simps)

lemma SetUint16_GetUint16:
  "p + 2 \<le> length buf \<Longrightarrow> \<exists>buf'. Utility_SetUint16 buf p v = Some buf' \<and> Utility_GetUint16 buf' p = Some v"
  by (simp add: Utility_SetUint16_def Utility_GetUint16_def wr_def rd_def u16_split)

lemma SetUint24_GetUint24:
  "p + 3 \<le> length buf \<Longrightarrow>
   \<exists>buf'. Utility_SetUint24 buf p v = Some buf' \<and> Utility_GetUint24 buf' p = Some (take_bit 24 v)"
  by (simp add: Utility_SetUint24_def Utility_GetUint24_def wr_def rd_def nth_list_update u24_split)

lemma SetUint32_GetUint32:
  "p + 4 \<le> length buf \<Longrightarrow> \<exists>buf'. Utility_SetUint32 buf p v = Some buf' \<and> Utility_GetUint32 buf' p = Some v"
  by (simp add: Utility_SetUint32_def Utility_GetUint32_def wr_def rd_def nth_list_update u32_split)

section \<open>The copy loops\<close>

text \<open>Both directions keep the invariant that what is still to be read is as it was.\<close>

lemma memmove_down_spec:
  assumes "src < dst" "src + n \<le> length mem" "dst + n \<le> length mem"
  shows "memmove_down mem dst src n = Some (take dst mem @ take n (drop src mem) @ drop (dst + n) mem)"
  using assms
proof (induction n arbitrary: mem)
  case 0
  then show ?case by simp
next
  case (Suc n)
  let ?m = "mem[dst + n := mem ! (src + n)]"
  have "memmove_down mem dst src (Suc n) = memmove_down ?m dst src n"
    using Suc.prems by (simp add: rd_def wr_def)
  also have "\<dots> = Some (take dst ?m @ take n (drop src ?m) @ drop (dst + n) ?m)"
    using Suc.prems by (intro Suc.IH) auto
  also have "take n (drop src ?m) = take n (drop src mem)"
    using Suc.prems by (simp add: drop_update_swap)
  also have "drop (dst + n) ?m = mem ! (src + n) # drop (Suc (dst + n)) mem"
    using Suc.prems by (simp add: Cons_nth_drop_Suc [symmetric])
  also have "take n (drop src mem) @ mem ! (src + n) # drop (Suc (dst + n)) mem =
      take (Suc n) (drop src mem) @ drop (dst + Suc n) mem"
    using Suc.prems by (simp add: take_Suc_conv_app_nth)
  finally show ?case
    by simp
qed

lemma memmove_up_spec:
  assumes "dst \<le> src \<or> src + n \<le> dst" "src + n \<le> length mem" "dst + n \<le> length mem" "i \<le> n"
  shows "memmove_up mem dst src n i =
    Some (take (dst + i) mem @ take (n - i) (drop (src + i) mem) @ drop (dst + n) mem)"
  using assms
proof (induction mem dst src n i rule: memmove_up.induct)
  case (1 mem dst src n i)
  show ?case
  proof (cases "i < n")
    case False
    with 1 show ?thesis by (simp add: memmove_up.simps)
  next
    case True
    let ?m = "mem[dst + i := mem ! (src + i)]"
    have "memmove_up mem dst src n i = memmove_up ?m dst src n (Suc i)"
      using "1.prems" True by (simp add: memmove_up.simps [of mem] rd_def wr_def)
    also have "\<dots> = Some (take (dst + Suc i) ?m @ take (n - Suc i) (drop (src + Suc i) ?m) @ drop (dst + n) ?m)"
      using "1.prems" True by (intro "1.IH") (auto simp: rd_def wr_def)
    also have "take (dst + Suc i) ?m = take (dst + i) mem @ [mem ! (src + i)]"
      using "1.prems" True by (simp add: take_Suc_conv_app_nth)
    also have "take (n - Suc i) (drop (src + Suc i) ?m) = take (n - Suc i) (drop (src + Suc i) mem)"
      using "1.prems" True by (cases "dst \<le> src") (simp_all add: drop_update_swap)
    also have "drop (dst + n) ?m = drop (dst + n) mem"
      using True by simp
    also have "take (dst + i) mem @ [mem ! (src + i)] = take (dst + i) mem @ take 1 (drop (src + i) mem)"
      using "1.prems" True by (simp add: take_Suc_conv_app_nth hd_drop_conv_nth take_Suc)
    finally show ?thesis
      using "1.prems" True
      by (simp add: take_Suc_conv_app_nth Cons_nth_drop_Suc [symmetric] take_Cons')
  qed
qed

lemma Utility_Memmove_spec:
  assumes "src + unat len \<le> length mem" "dst + unat len \<le> length mem"
  shows "Utility_Memmove mem dst src len =
    Some (take dst mem @ take (unat len) (drop src mem) @ drop (dst + unat len) mem)"
proof -
  have "int dst \<le> int src + int (unat len) - 1 \<longleftrightarrow> dst < src + unat len"
    by linarith
  then show ?thesis
    using assms memmove_down_spec [of src dst "unat len" mem] memmove_up_spec [of dst src "unat len" mem 0]
    by (simp only: Utility_Memmove_def) (auto simp: not_less)
qed

end
