(* ===== verification/Dtls_Windowing.thy ===== *)
theory Dtls_Windowing
  imports Optiga_Util
begin

text \<open>
  \<open>lib/optiga/dtls/DtlsWindowing.c\<close>: the sliding window that drops replayed DTLS records.
  The model follows \<open>DtlsCheckReplay\<close> branch by branch; the record validation callback is a
  field of the window, as in the code. The abstract specification remembers every sequence
  number accepted so far; the window refines it, and no number is accepted twice.
\<close>

section \<open>Status codes and state\<close>

definition MAX_WINDOW_SIZE :: nat where "MAX_WINDOW_SIZE = 64"

definition OCP_RL_OK :: int where "OCP_RL_OK = sint (0x297D9015 :: u32)"
definition OCP_RL_MALLOC_FAILURE :: int where "OCP_RL_MALLOC_FAILURE = sint (0x8000090C :: u32)"
definition CMD_LIB_DECRYPT_FAILURE :: int where "CMD_LIB_DECRYPT_FAILURE = sint (0x80001009 :: u32)"
definition OCP_RL_WINDOW_IGNORE :: int where "OCP_RL_WINDOW_IGNORE = sint (0x80000A00 :: u32)"
definition OCP_RL_WINDOW_UPDATED :: int where "OCP_RL_WINDOW_UPDATED = sint (0x80000A01 :: u32)"
definition OCP_RL_WINDOW_MOVED :: int where "OCP_RL_WINDOW_MOVED = sint (0x80000A02 :: u32)"

lemmas window_codes = OCP_RL_OK_def OCP_RL_MALLOC_FAILURE_def CMD_LIB_DECRYPT_FAILURE_def
  OCP_RL_WINDOW_IGNORE_def OCP_RL_WINDOW_UPDATED_def OCP_RL_WINDOW_MOVED_def

record 'a sWindow_d =
  sRecvSeqNumber :: sUint64
  sHigherBound :: sUint64
  sLowerBound :: sUint64
  bWindowSize :: byte
  sWindowFrame :: sUint64
  fValidateRecord :: "'a \<Rightarrow> int"
  pValidateArgs :: 'a

section \<open>The check\<close>

text \<open>What a failed validation makes of the status, which starts as \<open>OCP_RL_WINDOW_IGNORE\<close>.\<close>

definition validation_failure :: "int \<Rightarrow> int" where
  "validation_failure ret =
     (if ret = CMD_LIB_DECRYPT_FAILURE \<or> ret = OCP_RL_MALLOC_FAILURE then ret
      else OCP_RL_WINDOW_IGNORE)"

text \<open>The branch for a number above the window: validate, slide, set the newest flag.\<close>

definition slide_window :: "'a sWindow_d \<Rightarrow> (int \<times> 'a sWindow_d) option" where
  "slide_window w =
     (let ret = fValidateRecord w (pValidateArgs w) in
      if ret \<noteq> OCP_RL_OK then Some (validation_failure ret, w)
      else
        let d = snd (SubtractUint64 (sRecvSeqNumber w) (sHigherBound w) (SUint64 0 0)) in
        case ShiftLeftUint64 (sWindowFrame w) d (bWindowSize w) (of_nat MAX_WINDOW_SIZE) of
          None \<Rightarrow> None
        | Some (st, fr) \<Rightarrow>
          (let w = w\<lparr>sWindowFrame := fr\<rparr> in
           if st \<noteq> UTIL_SUCCESS then Some (OCP_RL_WINDOW_IGNORE, w)
           else
             let w = w\<lparr>sHigherBound := sRecvSeqNumber w\<rparr>;
                 (st, low) = SubtractUint64 (sHigherBound w) (SUint64 0 (ucast (bWindowSize w) - 1))
                   (sLowerBound w);
                 w = w\<lparr>sLowerBound := low\<rparr>
             in
             if st \<noteq> UTIL_SUCCESS then Some (OCP_RL_WINDOW_IGNORE, w)
             else
               (case Utility_SetBitUint64 (sWindowFrame w) (bWindowSize w) (bWindowSize w) of
                  None \<Rightarrow> None
                | Some (st, fr) \<Rightarrow>
                    (let w = w\<lparr>sWindowFrame := fr\<rparr> in
                     Some (if st \<noteq> UTIL_SUCCESS then OCP_RL_WINDOW_IGNORE else OCP_RL_WINDOW_MOVED, w)))))"

text \<open>
  The test of the flag of a number inside the window: \<open>Some True\<close> when it is set. The
  shift counts are unsigned 32-bit differences.
\<close>

definition flag_is_set :: "'a sWindow_d \<Rightarrow> sUint64 \<Rightarrow> bool option" where
  "flag_is_set w d =
     (let msb = (\<lambda>x :: u32. x AND 0x80000000 = 0x80000000) in
      if unat (bWindowSize w) = WORD_SIZE then
        map_option msb (shl32 (dwHigherByte (sWindowFrame w)) (unat ((32 - dwLowerByte d) - 1)))
      else if dwHigherByte d = 0 \<and> dwLowerByte d < 32 then
        map_option msb (shl32 (dwLowerByte (sWindowFrame w)) (unat ((32 - dwLowerByte d) - 1)))
      else if dwHigherByte d = 0 \<and> dwLowerByte d \<ge> 32 then
        map_option msb (shl32 (dwHigherByte (sWindowFrame w)) (unat ((64 - dwLowerByte d) - 1)))
      else Some False)"

text \<open>The branch for a number inside the window.\<close>

definition update_window :: "'a sWindow_d \<Rightarrow> (int \<times> 'a sWindow_d) option" where
  "update_window w =
     (let d = snd (SubtractUint64 (sHigherBound w) (sRecvSeqNumber w) (SUint64 0 0)) in
      case flag_is_set w d of
        None \<Rightarrow> None
      | Some True \<Rightarrow> Some (OCP_RL_WINDOW_IGNORE, w)
      | Some False \<Rightarrow>
        (let ret = fValidateRecord w (pValidateArgs w) in
         if ret \<noteq> OCP_RL_OK then Some (validation_failure ret, w)
         else
           let (st, d) = SubtractUint64 (sRecvSeqNumber w) (sLowerBound w) d in
           if st \<noteq> UTIL_SUCCESS then Some (OCP_RL_WINDOW_IGNORE, w)
           else
             (case Utility_SetBitUint64 (sWindowFrame w) (bWindowSize w) (ucast (dwLowerByte d)) of
                None \<Rightarrow> None
              | Some (st, fr) \<Rightarrow>
                (let w = w\<lparr>sWindowFrame := fr\<rparr> in
                 if st \<noteq> UTIL_SUCCESS then Some (OCP_RL_WINDOW_IGNORE, w)
                 else if unat (bWindowSize w) > WORD_SIZE then do {
                   m \<leftarrow> shr32 MASK_DOUBLE_WORD (MAX_WINDOW_SIZE - unat (bWindowSize w));
                   Some (OCP_RL_WINDOW_UPDATED,
                     w\<lparr>sWindowFrame := SUint64 (dwHigherByte fr AND m) (dwLowerByte fr)\<rparr>)
                 } else Some (OCP_RL_WINDOW_UPDATED, w)))))"

definition DtlsCheckReplay :: "'a sWindow_d \<Rightarrow> (int \<times> 'a sWindow_d) option" where
  "DtlsCheckReplay w =
     (if MAX_WINDOW_SIZE < unat (bWindowSize w) \<or> WORD_SIZE > unat (bWindowSize w)
      then Some (OCP_RL_WINDOW_IGNORE, w)
      else if CompareUint64 (sRecvSeqNumber w) (sLowerBound w) = LESSER_THAN
      then Some (OCP_RL_WINDOW_IGNORE, w)
      else if CompareUint64 (sRecvSeqNumber w) (sHigherBound w) = GREATER_THAN
      then slide_window w
      else update_window w)"

section \<open>Abstract specification\<close>

text \<open>
  The abstract state is the highest number of the window and the set of all numbers
  accepted so far. The specification never forgets a number.
\<close>

definition replay_spec :: "nat \<Rightarrow> (nat \<times> nat set) \<Rightarrow> nat \<Rightarrow> int \<Rightarrow> int \<times> (nat \<times> nat set)" where
  "replay_spec n s seq valid =
     (case s of (high, seen) \<Rightarrow>
        if seq + n \<le> high then (OCP_RL_WINDOW_IGNORE, s)
        else if seq \<in> seen then (OCP_RL_WINDOW_IGNORE, s)
        else if valid \<noteq> OCP_RL_OK then (validation_failure valid, s)
        else if high < seq then (OCP_RL_WINDOW_MOVED, (seq, insert seq seen))
        else (OCP_RL_WINDOW_UPDATED, (high, insert seq seen)))"

definition window_rel :: "'a sWindow_d \<Rightarrow> nat \<times> nat set \<Rightarrow> bool" where
  "window_rel w s \<longleftrightarrow>
     (case s of (high, seen) \<Rightarrow>
        32 \<le> unat (bWindowSize w) \<and> unat (bWindowSize w) \<le> 64 \<and>
        u64val (sHigherBound w) = high \<and>
        high = u64val (sLowerBound w) + (unat (bWindowSize w) - 1) \<and>
        (\<forall>i < unat (bWindowSize w). frame_bit (unat (bWindowSize w)) (sWindowFrame w) i \<longleftrightarrow> high - i \<in> seen) \<and>
        (\<forall>q \<in> seen. q \<le> high))"

lemma msb_set_iff: "(x :: u32) AND 0x80000000 = 0x80000000 \<longleftrightarrow> bit x 31"
proof -
  have "bit (2 ^ 31 :: u32) i \<longleftrightarrow> i = 31" for i
    by (simp only: bit_exp_iff possible_bit_word) auto
  moreover have "(2 ^ 31 :: u32) = 0x80000000"
    by simp
  ultimately have *: "bit (0x80000000 :: u32) i \<longleftrightarrow> i = 31" for i
    by metis
  show ?thesis
    by (simp only: bit_eq_iff [of "x AND _"] bit_and_iff * possible_bit_word)
      (auto dest: spec [of _ 31])
qed

text \<open>For a number inside the window the flag tested is the one at its distance from the top.\<close>

lemma flag_is_set_frame:
  assumes ws: "32 \<le> unat (bWindowSize w)" "unat (bWindowSize w) \<le> 64"
    and d: "u64val d < unat (bWindowSize w)"
  shows "flag_is_set w d = Some (frame_bit (unat (bWindowSize w)) (sWindowFrame w) (u64val d))"
proof -
  have d64: "u64val d < 64"
    using d ws by simp
  note dl = shift_count_low [OF d64]
  have s32: "unat (32 - dwLowerByte d - 1) = 31 - u64val d" if "u64val d < 32"
    using that dl(2) by (simp add: unat_sub_if')
  have s64: "unat (64 - dwLowerByte d - 1) = 63 - u64val d"
    using d64 dl(2) by (simp add: unat_sub_if')
  show ?thesis
    using ws d d64 s32 s64
    by (auto simp: flag_is_set_def Let_def shl32_def util_codes dl msb_set_iff frame_bit_def
        bit_simps word_less_nat_alt word_le_nat_alt)
qed

lemma window_size_word: "32 \<le> unat ws \<Longrightarrow> u64val (SUint64 0 (ucast (ws :: byte) - 1)) = unat ws - 1"
  using unsigned_less [of ws, where 'a = nat]
  by (simp add: u64val_def unat_sub_if' unsigned_ucast_eq take_bit_nat_eq_self)

lemma slide_window_refines:
  assumes R: "window_rel w (high, seen)" and gt: "high < u64val (sRecvSeqNumber w)"
  shows "\<exists>w'. slide_window w = Some (fst (replay_spec (unat (bWindowSize w)) (high, seen)
            (u64val (sRecvSeqNumber w)) (fValidateRecord w (pValidateArgs w))), w') \<and>
    window_rel w' (snd (replay_spec (unat (bWindowSize w)) (high, seen)
            (u64val (sRecvSeqNumber w)) (fValidateRecord w (pValidateArgs w)))) \<and>
    bWindowSize w' = bWindowSize w"
proof -
  let ?n = "unat (bWindowSize w)" and ?q = "u64val (sRecvSeqNumber w)"
  let ?d = "u64_of (?q - high)"
  have n: "32 \<le> ?n" "?n \<le> 64" and hi: "u64val (sHigherBound w) = high"
    and lo: "high = u64val (sLowerBound w) + (?n - 1)"
    and fr: "\<And>i. i < ?n \<Longrightarrow> frame_bit ?n (sWindowFrame w) i \<longleftrightarrow> high - i \<in> seen"
    and sn: "\<And>q. q \<in> seen \<Longrightarrow> q \<le> high"
    using R by (auto simp: window_rel_def)
  have notin: "?q \<notin> seen" "\<not> ?q + ?n \<le> high"
    using sn [of ?q] gt by auto
  have dval: "u64val ?d = ?q - high"
    using u64val_less [of "sRecvSeqNumber w"] by (simp add: u64val_u64_of)
  have sub1: "SubtractUint64 (sRecvSeqNumber w) (sHigherBound w) z = (UTIL_SUCCESS, ?d)" for z
    using gt hi by (simp add: SubtractUint64_val)
  obtain f1 where f1: "ShiftLeftUint64 (sWindowFrame w) ?d (bWindowSize w) 64 = Some (UTIL_SUCCESS, f1)"
    "\<And>i. i < ?n \<Longrightarrow> frame_bit ?n f1 i \<longleftrightarrow> ?q - high \<le> i \<and> frame_bit ?n (sWindowFrame w) (i - (?q - high))"
    using ShiftLeftUint64_frame [OF _ n, of ?d "sWindowFrame w"] gt dval by auto
  obtain f2 where f2: "Utility_SetBitUint64 f1 (bWindowSize w) (bWindowSize w) = Some (UTIL_SUCCESS, f2)"
    "\<And>i. i < ?n \<Longrightarrow> frame_bit ?n f2 i \<longleftrightarrow> i = 0 \<or> frame_bit ?n f1 i"
    using Utility_SetBitUint64_frame [OF n, of "bWindowSize w" f1] by auto
  have low: "?n - 1 \<le> ?q"
    using lo gt by simp
  have sub2: "SubtractUint64 (sRecvSeqNumber w) (SUint64 0 (ucast (bWindowSize w) - 1)) z =
      (UTIL_SUCCESS, u64_of (?q - (?n - 1)))" for z
    using low by (simp add: SubtractUint64_val window_size_word [OF n(1)])
  have lowval: "u64val (u64_of (?q - (?n - 1))) = ?q - (?n - 1)"
    using u64val_less [of "sRecvSeqNumber w"] by (simp add: u64val_u64_of)
  have frame: "frame_bit ?n f2 i \<longleftrightarrow> ?q - i \<in> insert ?q seen" if "i < ?n" for i
  proof -
    have "i - (?q - high) < ?n" using that by simp
    then show ?thesis
      using that f2(2) f1(2) fr [of "i - (?q - high)"] gt sn [of "?q - i"] lo by auto
  qed
  show ?thesis
  proof (cases "fValidateRecord w (pValidateArgs w) = OCP_RL_OK")
    case False
    with R notin gt show ?thesis
      by (simp add: slide_window_def replay_spec_def)
  next
    case True
    let ?w = "w\<lparr>sHigherBound := sRecvSeqNumber w, sLowerBound := u64_of (?q - (?n - 1)), sWindowFrame := f2\<rparr>"
    have "slide_window w = Some (OCP_RL_WINDOW_MOVED, ?w)"
      using True by (simp add: slide_window_def sub1 sub2 f1(1) f2(1) Let_def MAX_WINDOW_SIZE_def)
    moreover have "window_rel ?w (?q, insert ?q seen)"
      using n frame low lowval gt by (auto simp: window_rel_def dest: sn)
    ultimately show ?thesis
      using True notin gt by (simp add: replay_spec_def)
  qed
qed

lemma update_window_refines:
  assumes R: "window_rel w (high, seen)"
    and le: "u64val (sRecvSeqNumber w) \<le> high" "u64val (sLowerBound w) \<le> u64val (sRecvSeqNumber w)"
  shows "\<exists>w'. update_window w = Some (fst (replay_spec (unat (bWindowSize w)) (high, seen)
            (u64val (sRecvSeqNumber w)) (fValidateRecord w (pValidateArgs w))), w') \<and>
    window_rel w' (snd (replay_spec (unat (bWindowSize w)) (high, seen)
            (u64val (sRecvSeqNumber w)) (fValidateRecord w (pValidateArgs w)))) \<and>
    bWindowSize w' = bWindowSize w"
proof -
  let ?n = "unat (bWindowSize w)" and ?q = "u64val (sRecvSeqNumber w)"
  let ?d = "u64_of (high - ?q)" and ?p = "?q - u64val (sLowerBound w)"
  have n: "32 \<le> ?n" "?n \<le> 64" and hi: "u64val (sHigherBound w) = high"
    and lo: "high = u64val (sLowerBound w) + (?n - 1)"
    and fr: "\<And>i. i < ?n \<Longrightarrow> frame_bit ?n (sWindowFrame w) i \<longleftrightarrow> high - i \<in> seen"
    and sn: "\<And>q. q \<in> seen \<Longrightarrow> q \<le> high"
    using R by (auto simp: window_rel_def)
  have inside: "\<not> ?q + ?n \<le> high" "\<not> high < ?q" "?p < ?n" "?n - 1 - ?p = high - ?q"
    using lo le n by linarith+
  have dval: "u64val ?d = high - ?q"
    using u64val_less [of "sHigherBound w"] hi by (simp add: u64val_u64_of)
  then have dlt: "u64val ?d < ?n"
    using lo le n by linarith
  have flag: "flag_is_set w ?d = Some (?q \<in> seen)"
    using flag_is_set_frame [OF n dlt] fr [of "high - ?q"] dlt dval le by simp
  have sub1: "SubtractUint64 (sHigherBound w) (sRecvSeqNumber w) z = (UTIL_SUCCESS, ?d)" for z
    using le hi by (simp add: SubtractUint64_val)
  have pval: "u64val (u64_of ?p) = ?p" "?p < 64"
    using inside n by (simp_all add: u64val_u64_of)
  have pos: "unat (ucast (dwLowerByte (u64_of ?p)) :: byte) = ?p"
    using shift_count_low(2) [of "u64_of ?p"] pval by (simp add: unsigned_ucast_eq take_bit_nat_eq_self)
  have ne: "(ucast (dwLowerByte (u64_of ?p)) :: byte) \<noteq> bWindowSize w"
    using pos inside(3) by (metis less_irrefl)
  obtain f where f: "Utility_SetBitUint64 (sWindowFrame w) (bWindowSize w) (ucast (dwLowerByte (u64_of ?p)))
      = Some (UTIL_SUCCESS, f)"
    "\<And>i. i < ?n \<Longrightarrow> frame_bit ?n f i \<longleftrightarrow> i = high - ?q \<or> frame_bit ?n (sWindowFrame w) i"
    using Utility_SetBitUint64_frame [OF n, of "ucast (dwLowerByte (u64_of ?p))" "sWindowFrame w"]
      inside ne unfolding pos by auto
  define m :: u32 where "m = drop_bit (64 - ?n) MASK_DOUBLE_WORD"
  define g where "g = (if 32 < ?n then SUint64 (dwHigherByte f AND m) (dwLowerByte f) else f)"
  have g: "frame_bit ?n g i \<longleftrightarrow> high - i \<in> insert ?q seen" if "i < ?n" for i
    using that f(2) [OF that] fr [OF that] n le lo
    by (auto simp: g_def m_def frame_bit_def bit_simps)
  show ?thesis
  proof (cases "?q \<in> seen \<or> fValidateRecord w (pValidateArgs w) \<noteq> OCP_RL_OK")
    case True
    then have "update_window w = Some (fst (replay_spec ?n (high, seen) ?q
        (fValidateRecord w (pValidateArgs w))), w)"
      using inside by (cases "?q \<in> seen") (simp_all add: update_window_def replay_spec_def sub1 flag)
    with R True inside show ?thesis
      by (auto simp: replay_spec_def)
  next
    case False
    have sub2: "SubtractUint64 (sRecvSeqNumber w) (sLowerBound w) z = (UTIL_SUCCESS, u64_of ?p)" for z
      using le by (simp add: SubtractUint64_val)
    have shr: "shr32 MASK_DOUBLE_WORD (64 - ?n) = Some m" if "32 < ?n"
      using that n by (simp add: shr32_def m_def)
    have "update_window w = Some (OCP_RL_WINDOW_UPDATED, w\<lparr>sWindowFrame := g\<rparr>)"
      using False shr
      by (cases "32 < ?n") (simp_all add: update_window_def sub1 sub2 flag f(1) g_def
          MAX_WINDOW_SIZE_def WORD_SIZE_def)
    moreover have "window_rel (w\<lparr>sWindowFrame := g\<rparr>) (high, insert ?q seen)"
      using n hi lo g le by (auto simp: window_rel_def dest: sn)
    ultimately show ?thesis
      using False inside by (simp add: replay_spec_def)
  qed
qed


lemma DtlsCheckReplay_refined:
  assumes "window_rel w s"
  shows "\<exists>w'. DtlsCheckReplay w = Some (fst (replay_spec (unat (bWindowSize w)) s
            (u64val (sRecvSeqNumber w)) (fValidateRecord w (pValidateArgs w))), w') \<and>
    window_rel w' (snd (replay_spec (unat (bWindowSize w)) s
            (u64val (sRecvSeqNumber w)) (fValidateRecord w (pValidateArgs w)))) \<and>
    bWindowSize w' = bWindowSize w"
proof (cases s)
  case (Pair high seen)
  then have R: "window_rel w (high, seen)"
    using assms by simp
  then have n: "32 \<le> unat (bWindowSize w)" "unat (bWindowSize w) \<le> 64"
    and hi: "u64val (sHigherBound w) = high"
    and lo: "high = u64val (sLowerBound w) + (unat (bWindowSize w) - 1)"
    by (auto simp: window_rel_def)
  consider (below) "u64val (sRecvSeqNumber w) < u64val (sLowerBound w)"
    | (above) "high < u64val (sRecvSeqNumber w)"
    | (inside) "u64val (sLowerBound w) \<le> u64val (sRecvSeqNumber w)" "u64val (sRecvSeqNumber w) \<le> high"
    by linarith
  then show ?thesis
  proof cases
    case below
    then have "u64val (sRecvSeqNumber w) + unat (bWindowSize w) \<le> high"
      using lo n by linarith
    with below show ?thesis
      using R n by (simp add: Pair DtlsCheckReplay_def CompareUint64_val util_codes MAX_WINDOW_SIZE_def replay_spec_def)
  next
    case above
    then have "\<not> u64val (sRecvSeqNumber w) < u64val (sLowerBound w)"
      using lo n by linarith
    with above have "DtlsCheckReplay w = slide_window w"
      using n lo hi by (simp add: DtlsCheckReplay_def CompareUint64_val util_codes MAX_WINDOW_SIZE_def)
    then show ?thesis
      using slide_window_refines [OF R above] by (simp add: Pair)
  next
    case inside
    then have "DtlsCheckReplay w = update_window w"
      using n hi by (simp add: DtlsCheckReplay_def CompareUint64_val util_codes MAX_WINDOW_SIZE_def)
    then show ?thesis
      using update_window_refines [OF R inside(2,1)] by (simp add: Pair)
  qed
qed


section \<open>The records of one epoch\<close>

text \<open>
  \<open>DtlsRecordLayer.c\<close>: the window as \<open>DtlsRL_Init\<close> allocates it, and what the receiving loop
  does with one record: it installs the validation callback and the sequence number, runs the
  check and keeps the record unless the check says to ignore it or failed.
\<close>

definition DEFAULT_WINDOW_SIZE :: byte where "DEFAULT_WINDOW_SIZE = 32"

definition init_window :: "('a \<Rightarrow> int) \<Rightarrow> 'a \<Rightarrow> 'a sWindow_d" where
  "init_window v a =
     \<lparr>sRecvSeqNumber = SUint64 0 0, sHigherBound = SUint64 0 (ucast (DEFAULT_WINDOW_SIZE - 1)),
      sLowerBound = SUint64 0 0, bWindowSize = DEFAULT_WINDOW_SIZE, sWindowFrame = SUint64 0 0,
      fValidateRecord = v, pValidateArgs = a\<rparr>"

definition window_record ::
    "('a \<Rightarrow> int) \<Rightarrow> 'a sWindow_d \<Rightarrow> sUint64 \<times> 'a \<Rightarrow> (bool \<times> 'a sWindow_d) option" where
  "window_record v w r =
     (let w = w\<lparr>fValidateRecord := v, pValidateArgs := snd r\<rparr>;
          w = w\<lparr>sRecvSeqNumber := fst r\<rparr>
      in map_option (\<lambda>(st, w'). (st \<noteq> CMD_LIB_DECRYPT_FAILURE \<and> st \<noteq> OCP_RL_MALLOC_FAILURE \<and>
             st \<noteq> OCP_RL_WINDOW_IGNORE, w')) (DtlsCheckReplay w))"

primrec run_filter ::
    "('w \<Rightarrow> 'r \<Rightarrow> (bool \<times> 'w) option) \<Rightarrow> 'w \<Rightarrow> 'r list \<Rightarrow> ('r list \<times> 'w) option" where
  "run_filter step w [] = Some ([], w)"
| "run_filter step w (r # rs) = do {
     (ok, w) \<leftarrow> step w r;
     (acc, w) \<leftarrow> run_filter step w rs;
     Some (if ok then r # acc else acc, w)
   }"

text \<open>
  The contract of a replay filter: on a state that stands for the set of keys accepted so far
  a step is defined, accepts only new keys and remembers exactly what it accepts.
\<close>

locale replay_filter =
  fixes step :: "'w \<Rightarrow> 'r \<Rightarrow> (bool \<times> 'w) option"
    and key :: "'r \<Rightarrow> nat"
    and rel :: "'w \<Rightarrow> nat set \<Rightarrow> bool"
  assumes step_defined: "rel w S \<Longrightarrow> step w r \<noteq> None"
    and accept_new: "rel w S \<Longrightarrow> step w r = Some (True, w') \<Longrightarrow> key r \<notin> S \<and> rel w' (insert (key r) S)"
    and reject_same: "rel w S \<Longrightarrow> step w r = Some (False, w') \<Longrightarrow> rel w' S"
begin

lemma run_once:
  "rel w S \<Longrightarrow> \<exists>acc w'. run_filter step w rs = Some (acc, w') \<and> distinct (map key acc) \<and>
     set (map key acc) \<inter> S = {} \<and> rel w' (S \<union> set (map key acc)) \<and> set acc \<subseteq> set rs"
proof (induction rs arbitrary: w S)
  case Nil
  then show ?case by simp
next
  case (Cons r rs)
  obtain ok w1 where step: "step w r = Some (ok, w1)"
    using step_defined [OF Cons.prems] by fast
  show ?case
  proof (cases ok)
    case True
    with Cons.prems step have new: "key r \<notin> S" "rel w1 (insert (key r) S)"
      using accept_new by auto
    from Cons.IH [OF new(2)] show ?thesis
      using step True new(1) by auto
  next
    case False
    with Cons.prems step have "rel w1 S"
      using reject_same by auto
    from Cons.IH [OF this] show ?thesis
      using step False by auto
  qed
qed

end

lemma window_codes_distinct [simp]:
  "OCP_RL_WINDOW_MOVED \<noteq> OCP_RL_WINDOW_IGNORE" "OCP_RL_WINDOW_UPDATED \<noteq> OCP_RL_WINDOW_IGNORE"
  "OCP_RL_WINDOW_MOVED \<noteq> CMD_LIB_DECRYPT_FAILURE" "OCP_RL_WINDOW_UPDATED \<noteq> CMD_LIB_DECRYPT_FAILURE"
  "OCP_RL_WINDOW_MOVED \<noteq> OCP_RL_MALLOC_FAILURE" "OCP_RL_WINDOW_UPDATED \<noteq> OCP_RL_MALLOC_FAILURE"
  by (simp_all add: window_codes)

lemma window_rel_cong [simp]:
  "window_rel (w\<lparr>sRecvSeqNumber := x\<rparr>) s = window_rel w s"
  "window_rel (w\<lparr>fValidateRecord := v\<rparr>) s = window_rel w s"
  "window_rel (w\<lparr>pValidateArgs := a\<rparr>) s = window_rel w s"
  by (simp_all add: window_rel_def)

lemma window_record_refines:
  assumes "window_rel w (high, seen)"
  shows "\<exists>ok w'. window_record v w r = Some (ok, w') \<and> bWindowSize w' = bWindowSize w \<and>
    (ok \<longleftrightarrow> v (snd r) = OCP_RL_OK \<and> u64val (fst r) \<notin> seen \<and> high < u64val (fst r) + unat (bWindowSize w)) \<and>
    window_rel w' (if ok then (max high (u64val (fst r)), insert (u64val (fst r)) seen) else (high, seen))"
proof -
  let ?w = "w\<lparr>fValidateRecord := v, pValidateArgs := snd r, sRecvSeqNumber := fst r\<rparr>"
  have "window_rel ?w (high, seen)"
    using assms by simp
  from DtlsCheckReplay_refined [OF this] show ?thesis
    by (auto simp: window_record_def replay_spec_def validation_failure_def max_def split: if_splits)
qed

interpretation dtls_window: replay_filter "window_record v" "\<lambda>r. u64val (fst r)"
    "\<lambda>w S. \<exists>high. window_rel w (high, S)" for v
proof unfold_locales
  fix w :: "'a sWindow_d" and S r w'
  assume "\<exists>high. window_rel w (high, S)"
  then obtain high where R: "window_rel w (high, S)" ..
  note * = window_record_refines [OF R, of v r]
  show "window_record v w r \<noteq> None"
    using * by auto
  show "u64val (fst r) \<notin> S \<and> (\<exists>h. window_rel w' (h, insert (u64val (fst r)) S))"
    if "window_record v w r = Some (True, w')"
    using * that by auto
  show "\<exists>h. window_rel w' (h, S)" if "window_record v w r = Some (False, w')"
    using * that by auto
qed

lemma init_window_rel: "window_rel (init_window v a) (31, {})"
  by (auto simp: window_rel_def init_window_def DEFAULT_WINDOW_SIZE_def u64val_def frame_bit_def)

text \<open>
  C2: the window implements the specification that never forgets: for a window in the
  relation with an abstract state, \<open>DtlsCheckReplay\<close> never shifts out of range, returns exactly
  the status of the specification (ignored, moved, updated, or the validation failure), and
  leaves a window in the relation with the new abstract state.
\<close>
theorem DtlsCheckReplay_refines:
  assumes "window_rel w s"
  shows "\<exists>w'. DtlsCheckReplay w = Some (fst (replay_spec (unat (bWindowSize w)) s
            (u64val (sRecvSeqNumber w)) (fValidateRecord w (pValidateArgs w))), w') \<and>
    window_rel w' (snd (replay_spec (unat (bWindowSize w)) s
            (u64val (sRecvSeqNumber w)) (fValidateRecord w (pValidateArgs w)))) \<and>
    bWindowSize w' = bWindowSize w"
  by (rule DtlsCheckReplay_refined [OF assms])

theorem DtlsCheckReplay_refines_witness:
  "\<exists>w'. DtlsCheckReplay (init_window (\<lambda>_. OCP_RL_OK) ()) = Some (OCP_RL_WINDOW_UPDATED, w') \<and>
     window_rel w' (31, {0}) \<and> bWindowSize w' = 32"
  using DtlsCheckReplay_refines [OF init_window_rel, of "\<lambda>_. OCP_RL_OK" "()"]
  by (simp add: replay_spec_def init_window_def DEFAULT_WINDOW_SIZE_def u64val_def)

text \<open>
  C22: from the window that \<open>DtlsRL_Init\<close> sets up, whatever records arrive in whatever order and
  whatever the validation callback answers, the receiver never leaves its arithmetic and no two
  records it keeps have the same sequence number.
\<close>
theorem window_no_replay:
  "\<exists>acc w'. run_filter (window_record v) (init_window v a) rs = Some (acc, w') \<and>
     distinct (map (\<lambda>r. u64val (fst r)) acc) \<and> set acc \<subseteq> set rs"
proof -
  have "\<exists>high. window_rel (init_window v a) (high, {})"
    using init_window_rel by (rule exI)
  from dtls_window.run_once [OF this, of v rs] show ?thesis
    by (elim exE conjE) (intro exI conjI)
qed

text \<open>
  A valid record is dropped only for a reason: one whose number lies inside or above the
  window and was never accepted is kept.
\<close>
theorem window_keeps_fresh:
  assumes "window_rel w (high, seen)" and "v (snd r) = OCP_RL_OK"
    and "u64val (fst r) \<notin> seen" and "high < u64val (fst r) + unat (bWindowSize w)"
  shows "\<exists>w'. window_record v w r = Some (True, w')"
  using window_record_refines [OF assms(1), of v r] assms(2-4) by auto

theorem window_keeps_fresh_witness:
  "\<exists>w'. window_record (\<lambda>_. OCP_RL_OK) (init_window (\<lambda>_. OCP_RL_OK) ()) (SUint64 0 40, ()) = Some (True, w')"
  by (rule window_keeps_fresh [OF init_window_rel])
    (simp_all add: u64val_def init_window_def DEFAULT_WINDOW_SIZE_def)

end
