(* ===== verification/Mqtt_Packet.thy ===== *)
theory Mqtt_Packet
  imports Prelude
begin

text \<open>
  \<open>lib/MQTT/MQTTPacket/MQTTPacket.c\<close> and \<open>MQTTPacket.h\<close>: the fixed header, the remaining
  length, the primitive readers and writers and \<open>MQTTString\<close>.
  A pointer into a buffer is an offset; a \<open>char*\<close> is the bytes from the pointer to the end of
  its object, a C string the bytes before its terminator. A C \<open>int\<close> is an \<open>int\<close>: every value
  the theorems speak of stays below \<open>2 ^ 29\<close>. Division and remainder truncate as in C.
\<close>

section \<open>Packet types and the header byte\<close>

definition MQTTPACKET_BUFFER_TOO_SHORT :: int where "MQTTPACKET_BUFFER_TOO_SHORT = -2"
definition MQTTPACKET_READ_ERROR :: int where "MQTTPACKET_READ_ERROR = -1"

lemmas mqtt_codes = MQTTPACKET_BUFFER_TOO_SHORT_def MQTTPACKET_READ_ERROR_def

datatype msgTypes = CONNECT | CONNACK | PUBLISH | PUBACK | PUBREC | PUBREL
  | PUBCOMP | SUBSCRIBE | SUBACK | UNSUBSCRIBE | UNSUBACK
  | PINGREQ | PINGRESP | DISCONNECT

primrec msg_code :: "msgTypes \<Rightarrow> byte" where
  "msg_code CONNECT = 1"
| "msg_code CONNACK = 2"
| "msg_code PUBLISH = 3"
| "msg_code PUBACK = 4"
| "msg_code PUBREC = 5"
| "msg_code PUBREL = 6"
| "msg_code PUBCOMP = 7"
| "msg_code SUBSCRIBE = 8"
| "msg_code SUBACK = 9"
| "msg_code UNSUBSCRIBE = 10"
| "msg_code UNSUBACK = 11"
| "msg_code PINGREQ = 12"
| "msg_code PINGRESP = 13"
| "msg_code DISCONNECT = 14"

record MQTTHeader =
  hdr_retain :: "1 word"
  hdr_qos :: "2 word"
  hdr_dup :: "1 word"
  hdr_type :: "4 word"

text \<open>The two members of the union: \<open>byte\<close> from \<open>bits\<close> and back.\<close>

definition header_byte :: "MQTTHeader \<Rightarrow> byte" where
  "header_byte h = ucast (hdr_retain h) OR push_bit 1 (ucast (hdr_qos h)) OR
     push_bit 3 (ucast (hdr_dup h)) OR push_bit 4 (ucast (hdr_type h))"

definition header_bits :: "byte \<Rightarrow> MQTTHeader" where
  "header_bits b = \<lparr>hdr_retain = ucast b, hdr_qos = ucast (drop_bit 1 b),
     hdr_dup = ucast (drop_bit 3 b), hdr_type = ucast (drop_bit 4 b)\<rparr>"

definition header_zero :: MQTTHeader where
  "header_zero = \<lparr>hdr_retain = 0, hdr_qos = 0, hdr_dup = 0, hdr_type = 0\<rparr>"

lemma bit_times_two [simp]: "bit (w * 2 :: byte) n \<longleftrightarrow> 0 < n \<and> n < 8 \<and> bit w (n - 1)"
proof -
  have "w * 2 = push_bit 1 w"
    by simp
  then show ?thesis
    by (simp only: bit_push_bit_iff) (auto simp: possible_bit_word)
qed

lemma header_bits_byte [simp]: "header_bits (header_byte h) = h"
proof -
  have "ucast (header_byte h) = hdr_retain h"
    by (rule bit_word_eqI) (auto simp: header_byte_def bit_simps dest: bit_imp_le_length)
  moreover have "ucast (drop_bit 1 (header_byte h)) = hdr_qos h"
    by (rule bit_word_eqI) (auto simp: header_byte_def bit_simps dest: bit_imp_le_length)
  moreover have "ucast (drop_bit 3 (header_byte h)) = hdr_dup h"
    by (rule bit_word_eqI) (auto simp: header_byte_def bit_simps dest: bit_imp_le_length)
  moreover have "ucast (drop_bit 4 (header_byte h)) = hdr_type h"
    by (rule bit_word_eqI) (auto simp: header_byte_def bit_simps dest: bit_imp_le_length)
  ultimately show ?thesis
    by (simp add: header_bits_def)
qed

lemma msg_code_ucast [simp]: "ucast (ucast (msg_code t) :: 4 word) = msg_code t"
  by (cases t) simp_all

lemma msg_code_inject [simp]: "msg_code t = msg_code t' \<longleftrightarrow> t = t'"
  by (cases t; cases t') simp_all

section \<open>The remaining length\<close>

text \<open>
  The loop of \<open>MQTTPacket_encode\<close>: \<open>rc\<close> counts the bytes written at \<open>buf[p]\<close>, \<open>buf[p + 1]\<close>, ...
\<close>

function encode_loop :: "byte list \<Rightarrow> nat \<Rightarrow> nat \<Rightarrow> int \<Rightarrow> (nat \<times> byte list) option" where
  "encode_loop buf p rc n =
     (let d = word_of_int (n smod 128) :: byte;
          n = n sdiv 128;
          d = (if n > 0 then d OR 0x80 else d)
      in do {
        buf \<leftarrow> wr buf (p + rc) d;
        if n > 0 then encode_loop buf p (rc + 1) n else Some (rc + 1, buf)
      })"
  by pat_completeness auto
termination
proof (relation "measure (\<lambda>(buf, p, rc, n). nat n)", simp)
  fix n l :: int
  assume l: "l = n sdiv 128" "0 < l"
  then have "0 < n"
    by (auto simp: signed_divide_int_def sgn_if split: if_splits)
  then show "((x, p, rc + 1, l), buf, p, rc, n) \<in> measure (\<lambda>(buf, p, rc, n). nat n)"
    for buf p rc and x :: "byte list"
    using l by (simp add: signed_divide_int_def)
qed

declare encode_loop.simps [simp del]

definition MQTTPacket_encode :: "byte list \<Rightarrow> nat \<Rightarrow> int \<Rightarrow> (nat \<times> byte list) option" where
  "MQTTPacket_encode buf p n = encode_loop buf p 0 n"

definition MAX_NO_OF_REMAINING_LENGTH_BYTES :: nat where
  "MAX_NO_OF_REMAINING_LENGTH_BYTES = 4"

text \<open>
  \<open>getcharfn\<close> is a function on the state of the source: it returns the C result, the byte it
  stored and the new state, or \<open>None\<close> when it reads outside its object.
\<close>

function decode_loop ::
    "('s \<Rightarrow> (int \<times> byte \<times> 's) option) \<Rightarrow> 's \<Rightarrow> int \<Rightarrow> nat \<Rightarrow> int \<Rightarrow> (nat \<times> int \<times> 's) option" where
  "decode_loop getcharfn s multiplier len value =
     (if len + 1 > MAX_NO_OF_REMAINING_LENGTH_BYTES then Some (len + 1, value, s)
      else do {
        (rc, c, s) \<leftarrow> getcharfn s;
        if rc \<noteq> 1 then Some (len + 1, value, s)
        else
          let value = value + uint (c AND 127) * multiplier in
          if c AND 128 \<noteq> 0 then decode_loop getcharfn s (multiplier * 128) (len + 1) value
          else Some (len + 1, value, s)
      })"
  by pat_completeness auto
termination
  by (relation "measure (\<lambda>(getcharfn, s, multiplier, len, value). 5 - len)")
    (auto simp: MAX_NO_OF_REMAINING_LENGTH_BYTES_def)

declare decode_loop.simps [simp del]

text \<open>The bytes read, the value and the source after it.\<close>

definition MQTTPacket_decode ::
    "('s \<Rightarrow> (int \<times> byte \<times> 's) option) \<Rightarrow> 's \<Rightarrow> (nat \<times> int \<times> 's) option" where
  "MQTTPacket_decode getcharfn s = decode_loop getcharfn s 1 0 0"

definition MQTTPacket_len :: "int \<Rightarrow> int" where
  "MQTTPacket_len rem_len =
     (let rem_len = rem_len + 1 in
      if rem_len < 128 then rem_len + 1
      else if rem_len < 16384 then rem_len + 2
      else if rem_len < 2097151 then rem_len + 3
      else rem_len + 4)"

text \<open>The static \<open>bufptr\<close> is the cursor; \<open>bufchar\<close> is only called with \<open>count = 1\<close>.\<close>

definition bufchar :: "cursor \<Rightarrow> (int \<times> byte \<times> cursor) option" where
  "bufchar c = map_option (\<lambda>b. (1, b, (fst c, snd c + 1))) (rd (fst c) (snd c))"

definition MQTTPacket_decodeBuf :: "byte list \<Rightarrow> nat \<Rightarrow> (nat \<times> int) option" where
  "MQTTPacket_decodeBuf buf p =
     map_option (\<lambda>(len, value, _). (len, value)) (MQTTPacket_decode bufchar (buf, p))"

section \<open>Primitive readers and writers\<close>

definition readInt :: "byte list \<Rightarrow> nat \<Rightarrow> (int \<times> nat) option" where
  "readInt buf p = do {
     b0 \<leftarrow> rd buf p;
     b1 \<leftarrow> rd buf (p + 1);
     Some (256 * uint b0 + uint b1, p + 2)
   }"

definition readChar :: "byte list \<Rightarrow> nat \<Rightarrow> (byte \<times> nat) option" where
  "readChar buf p = do {
     c \<leftarrow> rd buf p;
     Some (c, p + 1)
   }"

definition writeChar :: "cursor \<Rightarrow> byte \<Rightarrow> cursor option" where
  "writeChar pptr c = do {
     buf \<leftarrow> wr (fst pptr) (snd pptr) c;
     Some (buf, snd pptr + 1)
   }"

definition writeInt :: "cursor \<Rightarrow> int \<Rightarrow> cursor option" where
  "writeInt pptr anInt = do {
     buf \<leftarrow> wr (fst pptr) (snd pptr) (word_of_int (anInt sdiv 256));
     let p = snd pptr + 1;
     buf \<leftarrow> wr buf p (word_of_int (anInt smod 256));
     Some (buf, p + 1)
   }"

text \<open>\<open>ptr += MQTTPacket_encode(ptr, length)\<close>, as every serializer does.\<close>

definition write_rem_len :: "cursor \<Rightarrow> int \<Rightarrow> cursor option" where
  "write_rem_len pptr n = do {
     (rc, buf) \<leftarrow> MQTTPacket_encode (fst pptr) (snd pptr) n;
     Some (buf, snd pptr + rc)
   }"

definition writeCString :: "cursor \<Rightarrow> byte list \<Rightarrow> cursor option" where
  "writeCString pptr string = do {
     let len = length string;
     pptr \<leftarrow> writeInt pptr (int len);
     buf \<leftarrow> wr_bytes (fst pptr) (snd pptr) string;
     Some (buf, snd pptr + len)
   }"

record MQTTLenString =
  ls_len :: int
  ls_data :: "byte list option"

record MQTTString =
  cstring :: "byte list option"
  lenstring :: MQTTLenString

definition MQTTString_initializer :: MQTTString where
  "MQTTString_initializer = \<lparr>cstring = None, lenstring = \<lparr>ls_len = 0, ls_data = None\<rparr>\<rparr>"

text \<open>\<open>ptr\<close> is an offset into the object \<open>buf\<close>.\<close>

definition getLenStringLen :: "byte list \<Rightarrow> nat \<Rightarrow> int option" where
  "getLenStringLen buf ptr = do {
     b0 \<leftarrow> rd buf ptr;
     b1 \<leftarrow> rd buf (ptr + 1);
     Some (256 * uint b0 + uint b1)
   }"

definition writeMQTTString :: "cursor \<Rightarrow> MQTTString \<Rightarrow> cursor option" where
  "writeMQTTString pptr mqttstring =
     (let ls = lenstring mqttstring in
      if ls_len ls > 0 then do {
        pptr \<leftarrow> writeInt pptr (ls_len ls);
        object \<leftarrow> ls_data ls;
        bytes \<leftarrow> rd_bytes object (nat (ls_len ls));
        buf \<leftarrow> wr_bytes (fst pptr) (snd pptr) bytes;
        Some (buf, snd pptr + nat (ls_len ls))
      }
      else case cstring mqttstring of
        Some s \<Rightarrow> writeCString pptr s
      | None \<Rightarrow> writeInt pptr 0)"

text \<open>\<open>enddata\<close> is an offset too; a decoded length may place it beyond the object.\<close>

definition readMQTTLenString :: "MQTTString \<Rightarrow> byte list \<Rightarrow> nat \<Rightarrow> nat \<Rightarrow> (bool \<times> MQTTString \<times> nat) option" where
  "readMQTTLenString m buf p enddata =
     (if int enddata - int p > 1 then do {
        (l, p) \<leftarrow> readInt buf p;
        let m = m\<lparr>lenstring := (lenstring m)\<lparr>ls_len := l\<rparr>\<rparr>;
        if p + nat l \<le> enddata then
          Some (True, m\<lparr>lenstring := (lenstring m)\<lparr>ls_data := Some (drop p buf)\<rparr>, cstring := None\<rparr>, p + nat l)
        else Some (False, m\<lparr>cstring := None\<rparr>, p)
      }
      else Some (False, m\<lparr>cstring := None\<rparr>, p))"

definition MQTTstrlen :: "MQTTString \<Rightarrow> int" where
  "MQTTstrlen m = (case cstring m of Some s \<Rightarrow> int (length s) | None \<Rightarrow> ls_len (lenstring m))"

text \<open>
  \<open>strncmp(aptr, bptr, n) == 0\<close> on bytes up to the terminator; \<open>None\<close> when \<open>aptr\<close> is read
  outside its object.
\<close>

fun strncmp_eq :: "byte list \<Rightarrow> byte list \<Rightarrow> nat \<Rightarrow> bool option" where
  "strncmp_eq a b 0 = Some True"
| "strncmp_eq [] b (Suc n) = None"
| "strncmp_eq (x # a) b (Suc n) =
     (if x \<noteq> (case b of [] \<Rightarrow> 0 | y # _ \<Rightarrow> y) then Some False
      else if x = 0 then Some True
      else strncmp_eq a (tl b) n)"

definition MQTTPacket_equals :: "MQTTString \<Rightarrow> byte list \<Rightarrow> bool option" where
  "MQTTPacket_equals a bptr =
     (let (aptr, alen) = (case cstring a of
            Some s \<Rightarrow> (Some (s @ [0]), int (length s))
          | None \<Rightarrow> (ls_data (lenstring a), ls_len (lenstring a)));
          blen = int (length bptr)
      in if alen = blen then
           (if nat alen = 0 then Some True
            else Option.bind aptr (\<lambda>xs. strncmp_eq xs bptr (nat alen)))
         else Some False)"

text \<open>The readers move their pointer forward.\<close>

lemma readMQTTLenString_advances:
  "readMQTTLenString m buf p enddata = Some (True, m', p') \<Longrightarrow> p + 2 \<le> p' \<and> p' \<le> enddata"
  by (auto simp: readMQTTLenString_def readInt_def Let_def bind_eq_Some_conv split: if_splits)

lemma readChar_advances: "readChar buf p = Some (c, p') \<Longrightarrow> p' = p + 1 \<and> p < length buf"
  by (auto simp: readChar_def rd_def bind_eq_Some_conv split: if_splits)

section \<open>The writers as byte strings\<close>

fun enc_len :: "nat \<Rightarrow> byte list" where
  "enc_len n = (if n < 128 then [word_of_nat n]
     else (word_of_nat (n mod 128) OR 0x80) # enc_len (n div 128))"

declare enc_len.simps [simp del]

lemma enc_len_small: "n < 128 \<Longrightarrow> enc_len n = [word_of_nat n]"
  by (simp add: enc_len.simps [of n])

lemma enc_len_nonempty [simp]: "enc_len n \<noteq> []"
  by (subst enc_len.simps) simp

lemma sdiv_smod_nat:
  "int n sdiv 128 = int (n div 128)" "int n smod 128 = int (n mod 128)"
  "int n sdiv 256 = int (n div 256)" "int n smod 256 = int (n mod 256)"
  by (simp_all add: signed_divide_int_def signed_modulo_int_def zdiv_int zmod_int minus_div_mult_eq_mod
      sgn_if algebra_simps)

lemma encode_loop_put:
  "encode_loop buf p rc (int n) =
     map_option (\<lambda>b. (rc + length (enc_len n), b)) (wr_bytes buf (p + rc) (enc_len n))"
proof (induction n arbitrary: buf rc rule: less_induct)
  case (less n)
  show ?case
  proof (cases "n < 128")
    case True
    then show ?thesis
      by (simp add: encode_loop.simps [of buf] enc_len.simps [of n] sdiv_smod_nat wr_eq_wr_bytes
          split: option.splits Option.bind_splits)
  next
    case False
    then have *: "enc_len n = [word_of_nat (n mod 128) OR 0x80] @ enc_len (n div 128)"
      by (simp add: enc_len.simps [of n])
    have "n div 128 < n" "0 < n div 128"
      using False by simp_all
    then show ?thesis
      unfolding * wr_bytes_append using less.IH [of "n div 128"]
      by (simp add: encode_loop.simps [of buf] sdiv_smod_nat wr_eq_wr_bytes bind_map_option
          map_option_case split: option.splits Option.bind_splits)
  qed
qed

lemma MQTTPacket_encode_put:
  "MQTTPacket_encode buf p (int n) =
     map_option (\<lambda>b. (length (enc_len n), b)) (wr_bytes buf p (enc_len n))"
  by (simp add: MQTTPacket_encode_def encode_loop_put)

lemma write_rem_len_put [put_simps]: "write_rem_len c (int n) = put (enc_len n) c"
  by (cases c) (simp add: write_rem_len_def MQTTPacket_encode_put put_def bind_map_option comp_def)

lemma writeChar_put [put_simps]: "writeChar c x = put [x] c"
  by (cases c) (simp add: writeChar_def wr_eq_wr_bytes put_def split: option.splits)

lemma writeInt_put [put_simps]: "writeInt c (int n) = put (be16 n) c"
  by (cases c) (simp add: writeInt_def sdiv_smod_nat put_def be16_def wr_eq_wr_bytes
      wr_bytes_append [of _ _ "[x]" "[y]" for x y, simplified] bind_map_option
      split: option.splits Option.bind_splits)

lemma writeInt_word_put [put_simps]: "writeInt c (uint (w :: 'a :: len word)) = put (be16 (unat w)) c"
  using writeInt_put [of c "unat w"] by simp

lemma wr_bytes_put:
  "map_option (\<lambda>buf. (buf, snd c + length xs)) (wr_bytes (fst c) (snd c) xs) = put xs c"
  by (cases c) (simp add: put_def split: option.splits)

lemma writeCString_put [put_simps]: "writeCString c s = put (be16 (length s) @ s) c"
  by (simp add: writeCString_def Let_def wr_bytes_put writeInt_put put_append)

text \<open>
  The bytes an \<open>MQTTString\<close> stands for, and when its two members agree on them: either there
  is a C string and the delimited member is unused, or there is none and the length lies
  inside the object.
\<close>

definition str_bytes :: "MQTTString \<Rightarrow> byte list" where
  "str_bytes m = (case cstring m of Some s \<Rightarrow> s
     | None \<Rightarrow> (case ls_data (lenstring m) of Some d \<Rightarrow> take (nat (ls_len (lenstring m))) d | None \<Rightarrow> []))"

definition str_ok :: "MQTTString \<Rightarrow> bool" where
  "str_ok m \<longleftrightarrow> (case cstring m of Some s \<Rightarrow> ls_len (lenstring m) \<le> 0
     | None \<Rightarrow> 0 \<le> ls_len (lenstring m) \<and>
        (case ls_data (lenstring m) of Some d \<Rightarrow> nat (ls_len (lenstring m)) \<le> length d
         | None \<Rightarrow> ls_len (lenstring m) = 0))"

definition enc_str :: "byte list \<Rightarrow> byte list" where
  "enc_str s = be16 (length s) @ s"

lemma length_enc_str [simp]: "length (enc_str s) = length s + 2"
  by (simp add: enc_str_def)

lemma MQTTstrlen_ok: "str_ok m \<Longrightarrow> MQTTstrlen m = int (length (str_bytes m))"
  by (auto simp: str_ok_def MQTTstrlen_def str_bytes_def split: option.splits)

lemma writeMQTTString_put [put_simps]:
  assumes "str_ok m"
  shows "writeMQTTString c m = put (enc_str (str_bytes m)) c"
proof (cases "ls_len (lenstring m) > 0")
  case True
  then obtain d n where d: "cstring m = None" "ls_data (lenstring m) = Some d"
      "ls_len (lenstring m) = int n" "n \<le> length d"
    using assms by (auto simp: str_ok_def split: option.splits dest: zero_less_imp_eq_int)
  have "length (take n d) = n"
    using d by simp
  then show ?thesis
    using True d wr_bytes_put [of _ "take n d"] writeInt_put [of _ n]
    by (simp add: writeMQTTString_def rd_bytes_def put_append str_bytes_def enc_str_def)
next
  case False
  then show ?thesis
    using assms writeInt_put [of c 0]
    by (auto simp: writeMQTTString_def str_ok_def str_bytes_def enc_str_def writeCString_put
        split: option.splits)
qed

section \<open>Reading the remaining length back\<close>

lemma low_digit:
  assumes "n < 128"
  shows "uint ((word_of_nat n :: byte) AND 127) = int n" "(word_of_nat n :: byte) AND 128 = 0"
proof -
  have m: "(127 :: byte) = mask 7"
    by (simp add: mask_eq_exp_minus_1)
  have "unat ((word_of_nat n :: byte) AND 127) = n mod 128"
    unfolding m take_bit_eq_mask [symmetric] unsigned_take_bit_eq
    using assms by (simp add: unat_of_nat take_bit_eq_mod)
  with assms have "unat ((word_of_nat n :: byte) AND 127) = n"
    by simp
  then show "uint ((word_of_nat n :: byte) AND 127) = int n"
    by (simp only: uint_nat)
  have "(word_of_nat n :: byte) AND 127 = word_of_nat n"
    using \<open>unat (word_of_nat n AND 127) = n\<close> assms by (simp add: word_unat_eq_iff unat_of_nat)
  then have "(word_of_nat n :: byte) AND 128 = word_of_nat n AND (127 AND 128)"
    by (metis and.assoc)
  then show "(word_of_nat n :: byte) AND 128 = 0"
    by simp
qed

lemma high_digit:
  assumes "n < 128"
  shows "uint ((word_of_nat n OR 0x80 :: byte) AND 127) = int n" "(word_of_nat n OR 0x80 :: byte) AND 128 \<noteq> 0"
proof -
  have "(word_of_nat n OR 0x80 :: byte) AND 127 = word_of_nat n AND 127"
    by (simp add: bit.conj_disj_distrib2)
  then show "uint ((word_of_nat n OR 0x80 :: byte) AND 127) = int n"
    using low_digit [OF assms] by simp
  show "(word_of_nat n OR 0x80 :: byte) AND 128 \<noteq> 0"
    by (simp add: bit.conj_disj_distrib2 low_digit [OF assms])
qed

text \<open>
  A source of bytes, as \<open>MQTTPacket_decode\<close> uses it: while bytes are pending the function
  returns 1 with the next of them.
\<close>

locale byte_source =
  fixes getcharfn :: "'s \<Rightarrow> (int \<times> byte \<times> 's) option"
    and pending :: "'s \<Rightarrow> byte list"
  assumes next_byte: "pending s = b # bs \<Longrightarrow> \<exists>s'. getcharfn s = Some (1, b, s') \<and> pending s' = bs"
begin

lemma decode_loop_enc:
  assumes "pending s = enc_len n @ rest" "len + length (enc_len n) \<le> 4"
  shows "\<exists>s'. decode_loop getcharfn s m len v = Some (len + length (enc_len n), v + int n * m, s') \<and>
    pending s' = rest"
  using assms
proof (induction n arbitrary: s m len v rule: less_induct)
  case (less n)
  show ?case
  proof (cases "n < 128")
    case True
    then have e: "enc_len n = [word_of_nat n]"
      by (simp add: enc_len.simps [of n])
    with less.prems obtain s' where "getcharfn s = Some (1, word_of_nat n, s')" "pending s' = rest"
      using next_byte [of s "word_of_nat n" rest] by auto
    then show ?thesis
      using less.prems True low_digit [of n]
      by (simp add: decode_loop.simps [of getcharfn s] MAX_NO_OF_REMAINING_LENGTH_BYTES_def e)
  next
    case False
    let ?d = "word_of_nat (n mod 128) OR 0x80 :: byte"
    have e: "enc_len n = ?d # enc_len (n div 128)"
      using False by (simp add: enc_len.simps [of n])
    with less.prems obtain s' where s': "getcharfn s = Some (1, ?d, s')"
        "pending s' = enc_len (n div 128) @ rest"
      using next_byte [of s ?d "enc_len (n div 128) @ rest"] by auto
    have "n div 128 < n" "(len + 1) + length (enc_len (n div 128)) \<le> 4"
      using False less.prems e by auto
    from less.IH [OF this(1) s'(2) this(2), of "m * 128" "v + int (n mod 128) * m"]
    obtain s'' where s'': "decode_loop getcharfn s' (m * 128) (len + 1) (v + int (n mod 128) * m) =
        Some (len + length (enc_len n), v + int (n mod 128) * m + int (n div 128) * (m * 128), s'')"
        "pending s'' = rest"
      by (auto simp: e)
    moreover have "v + int (n mod 128) * m + int (n div 128) * (m * 128) = v + int n * m"
    proof -
      have "int n = int (n mod 128) + int (n div 128) * 128"
        by (metis mod_div_mult_eq of_nat_add of_nat_mult of_nat_numeral)
      moreover have "v + a * m + b * (m * 128) = v + (a + b * 128) * m" for a b :: int
        by (simp add: algebra_simps)
      ultimately show ?thesis
        by simp
    qed
    ultimately show ?thesis
      using s'(1) less.prems(2) e high_digit [of "n mod 128"]
      by (simp add: decode_loop.simps [of getcharfn s] MAX_NO_OF_REMAINING_LENGTH_BYTES_def)
  qed
qed

text \<open>What the encoder wrote is read back, and the source stands after it.\<close>

lemma decode_enc:
  assumes "pending s = enc_len n @ rest" "length (enc_len n) \<le> 4"
  shows "\<exists>s'. MQTTPacket_decode getcharfn s = Some (length (enc_len n), int n, s') \<and> pending s' = rest"
  using decode_loop_enc [of s n rest 0 1 0] assms by (simp add: MQTTPacket_decode_def)

end


interpretation buf_source: byte_source bufchar "\<lambda>(buf, p). drop p buf"
proof
  fix s :: cursor and b bs
  assume "(case s of (buf, p) \<Rightarrow> drop p buf) = b # bs"
  then obtain buf p where s: "s = (buf, p)" "drop p buf = b # bs"
    by (cases s) auto
  then have "p < length buf" "buf ! p = b" "drop (Suc p) buf = bs"
    by (metis drop_eq_Nil leI list.distinct(1), metis nth_via_drop, metis drop_Suc list.sel(3) tl_drop)
  then show "\<exists>s'. bufchar s = Some (1, b, s') \<and> (case s' of (buf, p) \<Rightarrow> drop p buf) = bs"
    by (auto simp: bufchar_def rd_def s)
qed

section \<open>Bounds of the remaining length\<close>

lemma length_enc_len_step:
  "length (enc_len n) = (if n < 128 then 1 else Suc (length (enc_len (n div 128))))"
  by (subst enc_len.simps) simp

lemma length_enc_len:
  assumes "n < 268435456"
  shows "length (enc_len n) =
     (if n < 128 then 1 else if n < 16384 then 2 else if n < 2097152 then 3 else 4)"
proof -
  have 1: "length (enc_len k) = 1" if "k < 128" for k
    using that by (simp add: length_enc_len_step [of k])
  have 2: "length (enc_len k) = 2" if "\<not> k < 128" "k < 16384" for k
    using that 1 [of "k div 128"] by (simp add: length_enc_len_step [of k] less_mult_imp_div_less)
  have 3: "length (enc_len k) = 3" if "\<not> k < 16384" "k < 2097152" for k
    using that 2 [of "k div 128"] by (simp add: length_enc_len_step [of k] less_mult_imp_div_less)
  have 4: "length (enc_len k) = 4" if "\<not> k < 2097152" "k < 268435456" for k
    using that 3 [of "k div 128"] by (simp add: length_enc_len_step [of k] less_mult_imp_div_less)
  show ?thesis
    using 1 [of n] 2 [of n] 3 [of n] 4 [of n] assms by simp
qed

lemma length_enc_len_le: "n < 268435456 \<Longrightarrow> length (enc_len n) \<le> 4"
  by (simp add: length_enc_len)

lemma decodeBuf_holds [holds_simps]:
  assumes "holds buf p (enc_len n)" "n < 268435456"
  shows "MQTTPacket_decodeBuf buf p = Some (length (enc_len n), int n)"
proof -
  have "drop p buf = enc_len n @ drop (length (enc_len n)) (drop p buf)"
    using assms(1) by (metis append_take_drop_id holds_def)
  with buf_source.decode_enc [of "(buf, p)" n] show ?thesis
    using length_enc_len_le [OF assms(2)] by (fastforce simp: MQTTPacket_decodeBuf_def)
qed

text \<open>How every deserializer starts on a packet that begins its buffer.\<close>

lemma packet_open:
  assumes "holds buf 0 (h # enc_len n @ body)" "n < 268435456"
  shows "readChar buf 0 = Some (h, 1)" "MQTTPacket_decodeBuf buf 1 = Some (length (enc_len n), int n)"
    "holds buf (1 + length (enc_len n)) body"
proof -
  have "holds buf 0 [h]" "holds buf 1 (enc_len n)" "holds buf (1 + length (enc_len n)) body"
    using assms(1) holds_append [of buf 0 "[h]" "enc_len n @ body"] holds_append [of buf 1 "enc_len n" body]
    by simp_all
  then show "readChar buf 0 = Some (h, 1)" "MQTTPacket_decodeBuf buf 1 = Some (length (enc_len n), int n)"
    "holds buf (1 + length (enc_len n)) body"
    using decodeBuf_holds [OF _ assms(2)] by (simp_all add: readChar_def holds_rd)
qed

lemma holds_app: "holds (xs @ ys) 0 xs"
  by (simp add: holds_def)

lemma readInt_holds [holds_simps]:
  assumes "holds buf p (be16 n)" "n < 65536"
  shows "readInt buf p = Some (int n, p + 2)"
proof -
  have "uint (word_of_nat (n div 256) :: byte) = int (n div 256)"
    "uint (word_of_nat (n mod 256) :: byte) = int (n mod 256)"
    using assms(2) by (simp_all add: uint_nat unat_of_nat)
  moreover have "256 * int (n div 256) + int (n mod 256) = int n"
    by (metis mult_div_mod_eq of_nat_add of_nat_mult of_nat_numeral)
  ultimately show ?thesis
    using assms(1) by (simp add: be16_def holds_simps readInt_def)
qed

lemma readMQTTLenString_holds [holds_simps]:
  assumes "holds buf p (enc_str s)" "length s < 65536" "p + length s + 2 \<le> enddata"
  shows "readMQTTLenString m buf p enddata =
    Some (True, m\<lparr>cstring := None, lenstring := (lenstring m)\<lparr>ls_len := int (length s),
       ls_data := Some (drop (p + 2) buf)\<rparr>\<rparr>, p + 2 + length s)"
  using assms readInt_holds [of buf p "length s"]
  by (simp add: readMQTTLenString_def enc_str_def holds_append)

lemma str_bytes_read:
  assumes "holds buf p (enc_str s)"
  shows "str_bytes (m\<lparr>cstring := None, lenstring := (lenstring m)\<lparr>ls_len := int (length s),
       ls_data := Some (drop (p + 2) buf)\<rparr>\<rparr>) = s"
proof -
  have "holds buf (p + 2) s"
    using assms by (simp add: enc_str_def holds_append)
  then show ?thesis
    by (simp add: str_bytes_def holds_def)
qed

text \<open>A string a reader set up lies inside its buffer.\<close>

lemma str_ok_read:
  assumes "holds buf p (enc_str s)"
  shows "str_ok (m\<lparr>cstring := None, lenstring := (lenstring m)\<lparr>ls_len := int (length s),
       ls_data := Some (drop (p + 2) buf)\<rparr>\<rparr>)"
proof -
  have "holds buf (p + 2) s"
    using assms by (simp add: enc_str_def holds_append)
  then show ?thesis
    by (auto simp: str_ok_def holds_def)
qed

lemma readMQTTLenString_ex:
  assumes "holds buf p (enc_str s)" "length s < 65536" "p + length s + 2 \<le> enddata"
  obtains m' where "readMQTTLenString m buf p enddata = Some (True, m', p + 2 + length s)"
    "str_bytes m' = s" "str_ok m'"
  using that readMQTTLenString_holds [OF assms] str_bytes_read [OF assms(1)] str_ok_read [OF assms(1)]
  by blast

lemma decode_loop_bounds:
  assumes "decode_loop getcharfn s (128 ^ k) k v = Some (l, v', s')" "k \<le> 4" "0 \<le> v" "v < 128 ^ k"
  shows "k < l \<and> l \<le> 5 \<and> 0 \<le> v' \<and> v' < 128 ^ 4"
  using assms
proof (induction "4 - k" arbitrary: s k v)
  case 0
  then show ?case
    by (simp add: decode_loop.simps [of getcharfn s] MAX_NO_OF_REMAINING_LENGTH_BYTES_def)
next
  case (Suc d)
  then have k: "k < 4" by simp
  have mono: "(128 :: int) ^ k \<le> 128 ^ 4" "(128 :: int) ^ Suc k \<le> 128 ^ 4"
    using k by (intro power_increasing; simp)+
  have digit: "0 \<le> uint (c AND 127) \<and> uint (c AND 127) \<le> 127" for c :: byte
    using word_and_le1 [of c 127] by (simp add: word_le_def)
  have step: "v + uint (c AND 127) * 128 ^ k < 128 ^ Suc k" for c :: byte
  proof -
    have "uint (c AND 127) * 128 ^ k \<le> 127 * 128 ^ k"
      using digit [of c] by (intro mult_right_mono) auto
    then show ?thesis
      unfolding power_Suc using Suc.prems(4) by linarith
  qed
  obtain rc c s1 where get: "getcharfn s = Some (rc, c, s1)"
    using Suc.prems k by (auto simp: decode_loop.simps [of getcharfn s] MAX_NO_OF_REMAINING_LENGTH_BYTES_def
        bind_eq_Some_conv)
  let ?v = "v + uint (c AND 127) * 128 ^ k"
  consider (stop) "rc \<noteq> 1" | (more) "rc = 1" "c AND 128 \<noteq> 0" | (last) "rc = 1" "c AND 128 = 0"
    by blast
  then show ?case
  proof cases
    case stop
    then show ?thesis
      using Suc.prems k get mono
      by (simp add: decode_loop.simps [of getcharfn s] MAX_NO_OF_REMAINING_LENGTH_BYTES_def)
  next
    case more
    then have "decode_loop getcharfn s1 (128 ^ Suc k) (Suc k) ?v = Some (l, v', s')"
      using Suc.prems(1) k get
      by (simp add: decode_loop.simps [of getcharfn s] MAX_NO_OF_REMAINING_LENGTH_BYTES_def mult.commute)
    then have "Suc k < l \<and> l \<le> 5 \<and> 0 \<le> v' \<and> v' < 128 ^ 4"
      using Suc.hyps(1) [of "Suc k" s1 ?v] Suc.hyps(2) k Suc.prems(3) step [of c] digit [of c] by simp
    then show ?thesis by simp
  next
    case last
    then have "l = Suc k" "v' = ?v"
      using Suc.prems(1) k get
      by (simp_all add: decode_loop.simps [of getcharfn s] MAX_NO_OF_REMAINING_LENGTH_BYTES_def)
    then show ?thesis
      using k Suc.prems(3) step [of c] digit [of c] mono by simp
  qed
qed

lemma strncmp_eq_take:
  "0 \<notin> set b \<Longrightarrow> length b = n \<Longrightarrow> n \<le> length a \<Longrightarrow> strncmp_eq a b n = Some (take n a = b)"
  by (induction a b n rule: strncmp_eq.induct) (auto simp: neq_Nil_conv length_Suc_conv split: list.splits)

section \<open>Properties\<close>

text \<open>
  The remaining length survives the wire: every length the protocol allows is written in
  one to four bytes, stays inside a buffer with that much room, touches nothing else, and is
  read back with the same number of bytes.
\<close>
theorem remaining_length_roundtrip:
  assumes "n < 268435456" "p + 4 \<le> length buf"
  shows "\<exists>k buf'. MQTTPacket_encode buf p (int n) = Some (k, buf') \<and> 1 \<le> k \<and> k \<le> 4 \<and>
     length buf' = length buf \<and> take p buf' = take p buf \<and> drop (p + k) buf' = drop (p + k) buf \<and>
     MQTTPacket_decodeBuf buf' p = Some (k, int n)"
proof -
  let ?e = "enc_len n"
  have k: "length ?e \<le> 4" "1 \<le> length ?e"
    using length_enc_len_le [OF assms(1)] by (simp_all add: Suc_le_eq)
  let ?b = "take p buf @ ?e @ drop (p + length ?e) buf"
  have w: "wr_bytes buf p ?e = Some ?b"
    using assms(2) k by (simp add: wr_bytes_def)
  moreover have "holds ?b p ?e"
    using assms(2) k by (simp add: holds_def)
  ultimately show ?thesis
    using assms k decodeBuf_holds [of ?b p n]
    by (intro exI [of _ "length ?e"] exI [of _ ?b]) (simp add: MQTTPacket_encode_put)
qed

theorem remaining_length_roundtrip_witness:
  "\<exists>k buf'. MQTTPacket_encode [0, 0, 0, 0, 7] 1 (int 321) = Some (k, buf') \<and>
     MQTTPacket_decodeBuf buf' 1 = Some (k, int 321)"
  using remaining_length_roundtrip [of 321 1 "[0, 0, 0, 0, 7]"] by auto

text \<open>
  Whatever the source answers, \<open>MQTTPacket_decode\<close> consumes at most four bytes (it reports
  five when the fourth still has its continuation bit), and its value lies in
  \<open>0 .. 268435455\<close>, so the \<open>int\<close> it is computed in does not overflow.
\<close>
theorem MQTTPacket_decode_bounds:
  assumes "MQTTPacket_decode getcharfn s = Some (l, v, s')"
  shows "1 \<le> l \<and> l \<le> 5 \<and> 0 \<le> v \<and> v < 268435456"
  using decode_loop_bounds [of getcharfn s 0 0 l v s'] assms by (simp add: MQTTPacket_decode_def)

theorem MQTTPacket_decode_bounds_witness:
  "\<exists>l v s'. MQTTPacket_decode bufchar ([255, 255, 255, 255, 255], 0) = Some (l, v, s') \<and>
     l = 5 \<and> (1 \<le> l \<and> l \<le> 5 \<and> 0 \<le> v \<and> v < 268435456)"
proof -
  have "MQTTPacket_decode bufchar ([255, 255, 255, 255, 255], 0) =
      Some (5, 268435455, ([255, 255, 255, 255, 255], 4))"
    by code_simp
  from this MQTTPacket_decode_bounds [OF this] show ?thesis
    by simp
qed

text \<open>
  The size estimate \<open>MQTTPacket_len\<close> against the real size of a packet: exact for every
  remaining length except 127, 16383, 2097150 and 2097151, where it asks for one byte more.
\<close>
theorem MQTTPacket_len_exact:
  assumes "n < 268435456"
  shows "MQTTPacket_len (int n) =
    int (1 + length (enc_len n) + n) + (if n \<in> {127, 16383, 2097150, 2097151} then 1 else 0)"
  using assms by (simp add: MQTTPacket_len_def length_enc_len)

theorem MQTTPacket_len_exact_witness:
  "MQTTPacket_len (int 127) = int (1 + length (enc_len 127) + 127) + 1"
  using MQTTPacket_len_exact [of 127] by simp

lemma MQTTPacket_len_enough:
  "n < 268435456 \<Longrightarrow> int (1 + length (enc_len n) + n) \<le> MQTTPacket_len (int n)"
  by (simp add: MQTTPacket_len_def length_enc_len Let_def)

text \<open>
  C18: \<open>MQTTPacket_equals\<close> never reads outside the string and decides whether the string is the
  given C string, also when the delimited string contains a zero byte.
\<close>
theorem MQTTPacket_equals_correct:
  assumes "str_ok a" "0 \<notin> set b"
  shows "MQTTPacket_equals a b = Some (str_bytes a = b)"
proof (cases "cstring a")
  case (Some s)
  then show ?thesis
    using assms strncmp_eq_take [of b "length s" "s @ [0]"]
    by (auto simp: MQTTPacket_equals_def str_bytes_def)
next
  case None
  then show ?thesis
    using assms strncmp_eq_take [of b "length b"]
    by (auto simp: MQTTPacket_equals_def str_bytes_def str_ok_def split: option.splits)
qed

theorem MQTTPacket_equals_correct_witness:
  "MQTTPacket_equals \<lparr>cstring = None, lenstring = \<lparr>ls_len = 3, ls_data = Some [97, 0, 98, 1]\<rparr>\<rparr> [97, 98, 99] =
     Some False"
  using MQTTPacket_equals_correct [of "\<lparr>cstring = None, lenstring = \<lparr>ls_len = 3, ls_data = Some [97, 0, 98, 1]\<rparr>\<rparr>"
      "[97, 98, 99]"]
  by (simp add: str_ok_def str_bytes_def)

end
