(* ===== verification/Mqtt_Read.thy ===== *)
theory Mqtt_Read
  imports Mqtt_Packet
begin

text \<open>
  \<open>MQTTPacket_read\<close> and \<open>MQTTPacket_readnb\<close> of \<open>lib/MQTT/MQTTPacket/MQTTPacket.c\<close>: reading a
  packet from a transport, blocking and non-blocking. The transport function is a parameter:
  given its state and the number of bytes asked for, it returns the C result, the bytes it
  stored at the pointer and the new state. The non-blocking reader is proved to deliver the
  packet however the transport cuts it into pieces.
\<close>

section \<open>The transport\<close>

record 't MQTTTransport =
  trp_getfn :: "'t \<Rightarrow> int \<Rightarrow> int \<times> byte list \<times> 't"
  trp_sck :: 't
  trp_multiplier :: int
  trp_rem_len :: int
  trp_len :: int
  trp_state :: int

section \<open>Blocking read\<close>

text \<open>\<open>getfn(&c, 1)\<close>: using \<open>c\<close> when nothing was stored is reading an unset variable.\<close>

definition getchar_of :: "('t \<Rightarrow> int \<Rightarrow> int \<times> byte list \<times> 't) \<Rightarrow> 't \<Rightarrow> (int \<times> byte \<times> 't) option" where
  "getchar_of getfn t =
     (case getfn t 1 of (rc, bs, t) \<Rightarrow>
        (case bs of [] \<Rightarrow> if rc = 1 then None else Some (rc, 0, t) | c # _ \<Rightarrow> Some (rc, c, t)))"

definition MQTTPacket_read ::
    "byte list \<Rightarrow> int \<Rightarrow> ('t \<Rightarrow> int \<Rightarrow> int \<times> byte list \<times> 't) \<Rightarrow> 't \<Rightarrow> (int \<times> byte list \<times> 't) option" where
  "MQTTPacket_read buf buflen getfn t =
     (case getfn t 1 of (rc, bs, t) \<Rightarrow> do {
        buf \<leftarrow> wr_bytes buf 0 bs;
        if rc \<noteq> 1 then Some (-1, buf, t)
        else do {
          (_, rem_len, t) \<leftarrow> MQTTPacket_decode (getchar_of getfn) t;
          (k, buf) \<leftarrow> MQTTPacket_encode buf 1 rem_len;
          let len = 1 + int k;
          if rem_len + len > buflen then Some (-1, buf, t)
          else do {
            (rc, buf, t) \<leftarrow>
              (if rem_len \<noteq> 0 then
                 (case getfn t rem_len of (rc, bs, t) \<Rightarrow>
                    map_option (\<lambda>buf. (rc, buf, t)) (wr_bytes buf (nat len) bs))
               else Some (rem_len, buf, t));
            if rc \<noteq> rem_len then Some (-1, buf, t)
            else do {
              b \<leftarrow> rd buf 0;
              Some (uint (hdr_type (header_bits b)), buf, t)
            }
          }
        }
      })"

section \<open>Non-blocking read\<close>

function decodenb_loop :: "'t MQTTTransport \<Rightarrow> (int \<times> 't MQTTTransport) option" where
  "decodenb_loop trp =
     (if trp_len trp \<ge> int MAX_NO_OF_REMAINING_LENGTH_BYTES then Some (MQTTPACKET_READ_ERROR, trp)
      else case trp_getfn trp (trp_sck trp) 1 of (frc, bs, t) \<Rightarrow>
        let trp = trp\<lparr>trp_sck := t\<rparr> in
        if frc = -1 then Some (MQTTPACKET_READ_ERROR, trp)
        else if frc = 0 then Some (0, trp)
        else case bs of [] \<Rightarrow> None
          | c # _ \<Rightarrow>
            let trp = trp\<lparr>trp_len := trp_len trp + 1,
                  trp_rem_len := trp_rem_len trp + uint (c AND 127) * trp_multiplier trp,
                  trp_multiplier := trp_multiplier trp * 128\<rparr>
            in if c AND 128 \<noteq> 0 then decodenb_loop trp else Some (trp_len trp, trp))"
  by pat_completeness auto
termination
  by (relation "measure (\<lambda>trp. nat (4 - trp_len trp))") (auto simp: MAX_NO_OF_REMAINING_LENGTH_BYTES_def)

declare decodenb_loop.simps [simp del]

definition MQTTPacket_decodenb :: "'t MQTTTransport \<Rightarrow> (int \<times> 't MQTTTransport) option" where
  "MQTTPacket_decodenb trp =
     decodenb_loop (if trp_len trp = 0 then trp\<lparr>trp_multiplier := 1, trp_rem_len := 0\<rparr> else trp)"

text \<open>The label \<open>exit\<close>.\<close>

definition readnb_exit :: "int \<Rightarrow> byte list \<Rightarrow> 't MQTTTransport \<Rightarrow> int \<times> byte list \<times> 't MQTTTransport" where
  "readnb_exit rc buf trp = (rc, buf, trp\<lparr>trp_state := 0\<rparr>)"

text \<open>The cases of the switch, each falling through to the next.\<close>

definition readnb_case2 :: "byte list \<Rightarrow> 't MQTTTransport \<Rightarrow> (int \<times> byte list \<times> 't MQTTTransport) option" where
  "readnb_case2 buf trp =
     (let finish = (\<lambda>buf trp. map_option (\<lambda>b. readnb_exit (uint (hdr_type (header_bits b))) buf trp) (rd buf 0)) in
      if trp_rem_len trp \<noteq> 0 then
        (case trp_getfn trp (trp_sck trp) (trp_rem_len trp) of (frc, bs, t) \<Rightarrow> do {
           buf \<leftarrow> wr_bytes buf (nat (trp_len trp)) bs;
           let trp = trp\<lparr>trp_sck := t\<rparr>;
           if frc = -1 then Some (readnb_exit (-1) buf trp)
           else if frc = 0 then Some (0, buf, trp)
           else
             let trp = trp\<lparr>trp_rem_len := trp_rem_len trp - frc, trp_len := trp_len trp + frc\<rparr> in
             if trp_rem_len trp \<noteq> 0 then Some (0, buf, trp) else finish buf trp
         })
      else finish buf trp)"

definition readnb_case1 ::
    "byte list \<Rightarrow> int \<Rightarrow> 't MQTTTransport \<Rightarrow> (int \<times> byte list \<times> 't MQTTTransport) option" where
  "readnb_case1 buf buflen trp = do {
     (frc, trp) \<leftarrow> MQTTPacket_decodenb trp;
     if frc = MQTTPACKET_READ_ERROR then Some (readnb_exit (-1) buf trp)
     else if frc = 0 then Some (0, buf, trp)
     else do {
       (k, buf) \<leftarrow> MQTTPacket_encode buf 1 (trp_rem_len trp);
       let trp = trp\<lparr>trp_len := 1 + int k\<rparr>;
       if trp_rem_len trp + trp_len trp > buflen then Some (readnb_exit (-1) buf trp)
       else readnb_case2 buf (trp\<lparr>trp_state := trp_state trp + 1\<rparr>)
     }
   }"

definition readnb_case0 ::
    "byte list \<Rightarrow> int \<Rightarrow> 't MQTTTransport \<Rightarrow> (int \<times> byte list \<times> 't MQTTTransport) option" where
  "readnb_case0 buf buflen trp =
     (case trp_getfn trp (trp_sck trp) 1 of (frc, bs, t) \<Rightarrow> do {
        buf \<leftarrow> wr_bytes buf 0 bs;
        let trp = trp\<lparr>trp_sck := t\<rparr>;
        if frc = -1 then Some (readnb_exit (-1) buf trp)
        else if frc = 0 then Some (0, buf, trp)
        else readnb_case1 buf buflen (trp\<lparr>trp_len := 0, trp_state := trp_state trp + 1\<rparr>)
      })"

definition MQTTPacket_readnb ::
    "byte list \<Rightarrow> int \<Rightarrow> 't MQTTTransport \<Rightarrow> (int \<times> byte list \<times> 't MQTTTransport) option" where
  "MQTTPacket_readnb buf buflen trp =
     (if trp_state trp = 1 then readnb_case1 buf buflen trp
      else if trp_state trp = 2 then readnb_case2 buf trp
      else if trp_state trp = 0 then readnb_case0 buf buflen trp
      else readnb_case0 buf buflen (trp\<lparr>trp_state := 0\<rparr>))"

text \<open>A caller that calls again while the result is 0, at most \<open>k\<close> times.\<close>

primrec poll_readnb ::
    "nat \<Rightarrow> byte list \<Rightarrow> int \<Rightarrow> 't MQTTTransport \<Rightarrow> (int \<times> byte list \<times> 't MQTTTransport) option" where
  "poll_readnb 0 buf buflen trp = Some (0, buf, trp)"
| "poll_readnb (Suc k) buf buflen trp = do {
     (rc, buf, trp) \<leftarrow> MQTTPacket_readnb buf buflen trp;
     if rc = 0 then poll_readnb k buf buflen trp else Some (rc, buf, trp)
   }"

section \<open>A transport that delivers in pieces\<close>

text \<open>
  The documented contract of \<open>getfn\<close> in \<open>MQTTPacket.h\<close> (0 for call again, or the number of
  bytes read): each call hands over a prefix of what is still to come, no longer than asked;
  when it hands over nothing its patience shrinks, so it cannot say \<open>call again\<close> for ever
  while data is pending.
\<close>

definition chunked_source ::
    "('t \<Rightarrow> int \<Rightarrow> int \<times> byte list \<times> 't) \<Rightarrow> ('t \<Rightarrow> byte list) \<Rightarrow> ('t \<Rightarrow> nat) \<Rightarrow> bool" where
  "chunked_source getfn content patience \<longleftrightarrow>
     (\<forall>t n. 0 < n \<longrightarrow> content t \<noteq> [] \<longrightarrow>
        (case getfn t n of (rc, bs, t') \<Rightarrow>
           content t = bs @ content t' \<and> rc = int (length bs) \<and> rc \<le> n \<and>
           (bs = [] \<longrightarrow> patience t' < patience t)))"

lemma chunked_sourceE:
  assumes "chunked_source getfn content patience" "0 < n" "content t \<noteq> []"
  obtains bs t' where "getfn t n = (int (length bs), bs, t')" "content t = bs @ content t'"
    "int (length bs) \<le> n" "bs = [] \<Longrightarrow> patience t' < patience t"
proof -
  obtain rc bs t' where g: "getfn t n = (rc, bs, t')"
    by (cases "getfn t n")
  have "content t = bs @ content t' \<and> rc = int (length bs) \<and> rc \<le> n \<and> (bs = [] \<longrightarrow> patience t' < patience t)"
    using assms(1) [unfolded chunked_source_def, rule_format, OF assms(2,3)] by (simp add: g)
  with g that show thesis
    by blast
qed

text \<open>The measure of a call: bytes to come, then patience.\<close>

definition nb_less :: "('t \<Rightarrow> byte list) \<Rightarrow> ('t \<Rightarrow> nat) \<Rightarrow> 't \<Rightarrow> 't \<Rightarrow> bool" where
  "nb_less content patience t' t \<longleftrightarrow>
     length (content t') < length (content t) \<or>
     length (content t') = length (content t) \<and> patience t' < patience t"

lemma nb_less_trans:
  "nb_less c p t'' t' \<Longrightarrow> nb_less c p t' t \<Longrightarrow> nb_less c p t'' t"
  by (auto simp: nb_less_def)

text \<open>
  The reader between calls, for a packet with header byte \<open>h\<close> and payload \<open>payload\<close> followed
  by \<open>rest\<close>: waiting for the header, inside the remaining length, inside the payload.
\<close>

definition nb_start :: "('t \<Rightarrow> byte list) \<Rightarrow> byte \<Rightarrow> byte list \<Rightarrow> byte list \<Rightarrow> 't MQTTTransport \<Rightarrow> bool" where
  "nb_start content h payload rest trp \<longleftrightarrow>
     trp_state trp = 0 \<and> content (trp_sck trp) = h # enc_len (length payload) @ payload @ rest"

definition nb_digits ::
    "('t \<Rightarrow> byte list) \<Rightarrow> byte list \<Rightarrow> nat \<Rightarrow> int \<Rightarrow> 't MQTTTransport \<Rightarrow> bool" where
  "nb_digits content tail k value trp \<longleftrightarrow>
     (\<exists>j m. trp_len trp = int j \<and> content (trp_sck trp) = enc_len m @ tail \<and>
        j + length (enc_len m) = k \<and> trp_multiplier trp = 128 ^ j \<and>
        trp_rem_len trp + 128 ^ j * int m = value)"

definition nb_length ::
    "('t \<Rightarrow> byte list) \<Rightarrow> byte \<Rightarrow> byte list \<Rightarrow> byte list \<Rightarrow> byte list \<Rightarrow> 't MQTTTransport \<Rightarrow> bool" where
  "nb_length content h payload rest buf trp \<longleftrightarrow>
     trp_state trp = 1 \<and> holds buf 0 [h] \<and>
     (trp_len trp = 0 \<and> content (trp_sck trp) = enc_len (length payload) @ payload @ rest \<or>
      trp_len trp \<noteq> 0 \<and>
      nb_digits content (payload @ rest) (length (enc_len (length payload))) (int (length payload)) trp)"

definition nb_payload ::
    "('t \<Rightarrow> byte list) \<Rightarrow> byte \<Rightarrow> byte list \<Rightarrow> byte list \<Rightarrow> byte list \<Rightarrow> 't MQTTTransport \<Rightarrow> bool" where
  "nb_payload content h payload rest buf trp \<longleftrightarrow>
     trp_state trp = 2 \<and>
     (\<exists>i \<le> length payload. trp_rem_len trp = int (length payload - i) \<and>
        trp_len trp = int (1 + length (enc_len (length payload)) + i) \<and>
        content (trp_sck trp) = drop i payload @ rest \<and>
        holds buf 0 (h # enc_len (length payload) @ take i payload))"

definition nb_inv ::
    "('t \<Rightarrow> byte list) \<Rightarrow> byte \<Rightarrow> byte list \<Rightarrow> byte list \<Rightarrow> byte list \<Rightarrow> 't MQTTTransport \<Rightarrow> bool" where
  "nb_inv content h payload rest buf trp \<longleftrightarrow>
     nb_start content h payload rest trp \<or> nb_length content h payload rest buf trp \<or>
     nb_payload content h payload rest buf trp"

text \<open>The result of a call: the whole packet, or 0, less to come and the invariant again.\<close>

definition nb_done ::
    "('t \<Rightarrow> byte list) \<Rightarrow> byte \<Rightarrow> byte list \<Rightarrow> byte list \<Rightarrow> int \<times> byte list \<times> 't MQTTTransport \<Rightarrow> bool" where
  "nb_done content h payload rest r \<longleftrightarrow>
     (case r of (rc, buf, trp) \<Rightarrow> rc = uint (hdr_type (header_bits h)) \<and> trp_state trp = 0 \<and>
        content (trp_sck trp) = rest \<and> holds buf 0 (h # enc_len (length payload) @ payload))"

definition nb_result ::
    "(('t \<Rightarrow> int \<Rightarrow> int \<times> byte list \<times> 't)) \<Rightarrow> ('t \<Rightarrow> byte list) \<Rightarrow> ('t \<Rightarrow> nat) \<Rightarrow> byte \<Rightarrow> byte list \<Rightarrow> byte list \<Rightarrow>
     nat \<Rightarrow> 't \<Rightarrow> (int \<times> byte list \<times> 't MQTTTransport) option \<Rightarrow> bool" where
  "nb_result getfn content patience h payload rest blen t result \<longleftrightarrow>
     (\<exists>rc buf trp. result = Some (rc, buf, trp) \<and> trp_getfn trp = getfn \<and> length buf = blen \<and>
        (nb_done content h payload rest (rc, buf, trp) \<or>
         rc = 0 \<and> nb_inv content h payload rest buf trp \<and> nb_less content patience (trp_sck trp) t))"

lemma nb_result_step:
  assumes "nb_result g c p h payload rest blen t' r" "nb_less c p t' t"
  shows "nb_result g c p h payload rest blen t r"
  using assms(1) nb_less_trans [OF _ assms(2)] unfolding nb_result_def by (elim ex_forward conj_forward disj_forward)

lemma append_split:
  assumes "xs @ ys = bs @ zs" "length bs \<le> length xs"
  shows "bs = take (length bs) xs \<and> zs = drop (length bs) xs @ ys"
  using assms by (auto simp: append_eq_append_conv2)

lemma holds_extend:
  assumes "holds buf 0 xs" "length xs + length ys \<le> length buf"
  shows "\<exists>buf'. wr_bytes buf (length xs) ys = Some buf' \<and> holds buf' 0 (xs @ ys) \<and> length buf' = length buf"
  using assms by (auto simp: wr_bytes_def holds_def)

lemma holds_prefix: "holds buf p (xs @ ys) \<Longrightarrow> holds buf p xs"
  by (simp add: holds_append)

lemma readnb_case2_result:
  assumes src: "chunked_source g c p" "trp_getfn trp = g"
    and inv: "nb_payload c h payload rest buf trp"
    and fit: "1 + length (enc_len (length payload)) + length payload \<le> length buf"
  shows "nb_result g c p h payload rest (length buf) (trp_sck trp) (readnb_case2 buf trp)"
proof -
  let ?e = "enc_len (length payload)"
  obtain i where i: "i \<le> length payload" "trp_rem_len trp = int (length payload - i)"
      "trp_len trp = int (1 + length ?e + i)" "c (trp_sck trp) = drop i payload @ rest"
      "holds buf 0 (h # ?e @ take i payload)" and st: "trp_state trp = 2"
    using inv unfolding nb_payload_def by blast
  have hd: "rd b 0 = Some h" if "holds b 0 (h # xs)" for b xs
    using that holds_prefix [of b 0 "[h]" xs] by (simp add: holds_rd)
  show ?thesis
  proof (cases "i = length payload")
    case True
    then show ?thesis
      using i st src hd [OF i(5)]
      by (simp add: readnb_case2_def readnb_exit_def nb_result_def nb_done_def)
  next
    case False
    then have pos: "0 < trp_rem_len trp" "c (trp_sck trp) \<noteq> []"
      using i by auto
    obtain bs t' where get: "g (trp_sck trp) (trp_rem_len trp) = (int (length bs), bs, t')"
        "c (trp_sck trp) = bs @ c t'" "int (length bs) \<le> trp_rem_len trp"
        "bs = [] \<Longrightarrow> p t' < p (trp_sck trp)"
      using chunked_sourceE [OF src(1) pos] by blast
    have len: "length bs \<le> length payload - i"
      using get(3) i(2) by simp
    then have bs: "bs = take (length bs) (drop i payload)" "c t' = drop (i + length bs) payload @ rest"
      using append_split [of "drop i payload" rest bs "c t'"] get(2) i(4) len by (auto simp: add.commute)
    then have payload: "take (i + length bs) payload = take i payload @ bs"
      by (metis take_add)
    have tlen: "nat (trp_len trp) = length (h # ?e @ take i payload)"
      unfolding i(3) nat_int using i(1) by simp
    have "length (h # ?e @ take i payload) + length bs \<le> length buf"
      using fit len i(1) by simp
    with holds_extend [OF i(5), of bs]
    obtain buf' where buf': "wr_bytes buf (nat (trp_len trp)) bs = Some buf'"
        "holds buf' 0 (h # ?e @ take (i + length bs) payload)" "length buf' = length buf"
      unfolding payload tlen by auto
    have less: "nb_less c p t' (trp_sck trp)"
      using get(2,4) by (cases "bs = []") (auto simp: nb_less_def)
    show ?thesis
    proof (cases "i + length bs = length payload")
      case True
      then show ?thesis
        using pos src get(1) buf' bs i hd [OF buf'(2)]
        by (auto simp: readnb_case2_def readnb_exit_def nb_result_def nb_done_def Let_def of_nat_diff)
    next
      case False
      let ?trp = "trp\<lparr>trp_sck := t', trp_rem_len := trp_rem_len trp - int (length bs),
          trp_len := trp_len trp + int (length bs)\<rparr>"
      have "readnb_case2 buf trp = Some (0, buf', ?trp)"
        using False pos src get(1) buf' len i by (auto simp: readnb_case2_def Let_def of_nat_diff)
      moreover have "nb_payload c h payload rest buf' ?trp"
        unfolding nb_payload_def using st i len bs(2) buf'(2)
        by (auto intro!: exI [of _ "i + length bs"] simp: of_nat_diff)
      ultimately show ?thesis
        using less src(2) buf'(3) by (auto simp: nb_result_def nb_inv_def)
    qed
  qed
qed


text \<open>Reading the remaining length in pieces.\<close>

lemma decodenb_loop_result:
  assumes src: "chunked_source g c p"
    and "trp_getfn trp = g" "trp_len trp = int j" "c (trp_sck trp) = enc_len m @ tail"
    and "j + length (enc_len m) = k" "k \<le> 4" "trp_multiplier trp = 128 ^ j"
    and "trp_rem_len trp + 128 ^ j * int m = v"
  shows "\<exists>rc trp'. decodenb_loop trp = Some (rc, trp') \<and> trp_getfn trp' = g \<and>
    trp_state trp' = trp_state trp \<and> nb_less c p (trp_sck trp') (trp_sck trp) \<and>
    (rc = int k \<and> c (trp_sck trp') = tail \<and> trp_rem_len trp' = v \<or>
     rc = 0 \<and> nb_digits c tail k v trp' \<and>
       (trp_len trp' = trp_len trp \<longrightarrow> c (trp_sck trp') = c (trp_sck trp)) \<and> trp_len trp \<le> trp_len trp')"
  using assms(2-)
proof (induction m arbitrary: trp j rule: less_induct)
  case (less m)
  have len4: "\<not> int MAX_NO_OF_REMAINING_LENGTH_BYTES \<le> trp_len trp"
    using less.prems(2,4,5) by (cases "enc_len m") (auto simp: MAX_NO_OF_REMAINING_LENGTH_BYTES_def)
  have "c (trp_sck trp) \<noteq> []"
    using less.prems(3) by simp
  then obtain bs t' where get: "g (trp_sck trp) 1 = (int (length bs), bs, t')"
      "c (trp_sck trp) = bs @ c t'" "int (length bs) \<le> 1" "bs = [] \<Longrightarrow> p t' < p (trp_sck trp)"
    using chunked_sourceE [OF src, of 1 "trp_sck trp"] by auto
  have less1: "nb_less c p t' (trp_sck trp)"
    using get(2,4) by (cases "bs = []") (auto simp: nb_less_def)
  show ?case
  proof (cases bs)
    case Nil
    then have "decodenb_loop trp = Some (0, trp\<lparr>trp_sck := t'\<rparr>)"
      using len4 get(1) less.prems(1) by (simp add: decodenb_loop.simps [of trp])
    moreover have "nb_digits c tail k v (trp\<lparr>trp_sck := t'\<rparr>)"
      using less.prems get(2) Nil unfolding nb_digits_def by auto
    ultimately show ?thesis
      using less.prems(1) get(2) less1 Nil by simp
  next
    case (Cons b bs')
    then have bs: "bs = [b]"
      using get(3) by simp
    let ?trp = "trp\<lparr>trp_sck := t', trp_len := trp_len trp + 1,
        trp_rem_len := trp_rem_len trp + uint (b AND 127) * trp_multiplier trp,
        trp_multiplier := trp_multiplier trp * 128\<rparr>"
    have loop: "decodenb_loop trp = (if b AND 128 \<noteq> 0 then decodenb_loop ?trp else Some (trp_len trp + 1, ?trp))"
      using len4 get(1) less.prems(1) bs by (simp add: decodenb_loop.simps [of trp] mqtt_codes)
    show ?thesis
    proof (cases "m < 128")
      case True
      then have "enc_len m = [word_of_nat m]"
        by (simp add: enc_len.simps [of m])
      moreover from this have "b = word_of_nat m" "c t' = tail"
        using get(2) less.prems(3) bs by auto
      ultimately show ?thesis
        using loop low_digit [OF True] less.prems less1 by (auto simp: mult.commute)
    next
      case False
      let ?d = "word_of_nat (m mod 128) OR 0x80 :: byte"
      have e: "enc_len m = ?d # enc_len (m div 128)"
        using False by (simp add: enc_len.simps [of m])
      then have b: "b = ?d" "c t' = enc_len (m div 128) @ tail"
        using get(2) less.prems(3) bs by auto
      have m: "int m = int (m mod 128) + 128 * int (m div 128)"
        by (metis mod_mult_div_eq of_nat_add of_nat_mult of_nat_numeral)
      have digit: "uint (b AND 127) = int (m mod 128)" "b AND 128 \<noteq> 0"
        using high_digit [of "m mod 128"] b by simp_all
      define trp1 where "trp1 = ?trp"
      have val: "trp_rem_len trp1 + 128 ^ Suc j * int (m div 128) = v"
        using less.prems(6,7) digit(1) unfolding m trp1_def by (simp add: algebra_simps)
      have trp1: "trp_getfn trp1 = g" "trp_len trp1 = int (Suc j)" "c (trp_sck trp1) = enc_len (m div 128) @ tail"
        "Suc j + length (enc_len (m div 128)) = k" "trp_multiplier trp1 = 128 ^ Suc j"
        "trp_state trp1 = trp_state trp" "trp_sck trp1 = t'"
        using less.prems b e by (simp_all add: trp1_def)
      have small: "m div 128 < m"
        using False by simp
      from less.IH [OF small trp1(1-4) less.prems(5) trp1(5) val]
      obtain rc trp' where r: "decodenb_loop trp1 = Some (rc, trp')" "trp_getfn trp' = g"
        "trp_state trp' = trp_state trp1" "nb_less c p (trp_sck trp') (trp_sck trp1)"
        "rc = int k \<and> c (trp_sck trp') = tail \<and> trp_rem_len trp' = v \<or>
         rc = 0 \<and> nb_digits c tail k v trp' \<and>
           (trp_len trp' = trp_len trp1 \<longrightarrow> c (trp_sck trp') = c (trp_sck trp1)) \<and> trp_len trp1 \<le> trp_len trp'"
        by blast
      have "decodenb_loop trp = Some (rc, trp')"
        using loop digit(2) r(1) by (simp add: trp1_def)
      moreover have "nb_less c p (trp_sck trp') (trp_sck trp)"
        using nb_less_trans r(4) less1 trp1(7) by simp
      moreover have "trp_len trp' \<noteq> trp_len trp \<and> trp_len trp \<le> trp_len trp'" if "trp_len trp1 \<le> trp_len trp'"
        using that trp1(2) less.prems(2) by simp
      ultimately show ?thesis
        using r(2,3,5) trp1(6) by auto
    qed
  qed
qed

lemma MQTTPacket_decodenb_result:
  assumes src: "chunked_source g c p" "trp_getfn trp = g"
    and inv: "nb_length c h payload rest buf trp" and n: "length payload < 268435456"
  defines "k \<equiv> length (enc_len (length payload))"
  shows "\<exists>rc trp'. MQTTPacket_decodenb trp = Some (rc, trp') \<and> trp_getfn trp' = g \<and>
    trp_state trp' = 1 \<and> nb_less c p (trp_sck trp') (trp_sck trp) \<and>
    (rc = int k \<and> c (trp_sck trp') = payload @ rest \<and> trp_rem_len trp' = int (length payload) \<or>
     rc = 0 \<and> nb_length c h payload rest buf trp')"
proof -
  let ?n = "length payload"
  have k4: "k \<le> 4"
    unfolding k_def by (rule length_enc_len_le [OF n])
  have st: "trp_state trp = 1" "holds buf 0 [h]"
    using inv by (simp_all add: nb_length_def)
  show ?thesis
  proof (cases "trp_len trp = 0")
    case True
    define trp0 where "trp0 = trp\<lparr>trp_multiplier := 1, trp_rem_len := 0\<rparr>"
    have trp0: "trp_getfn trp0 = g" "trp_len trp0 = int 0" "c (trp_sck trp0) = enc_len ?n @ payload @ rest"
      "trp_multiplier trp0 = 128 ^ 0" "trp_rem_len trp0 + 128 ^ 0 * int ?n = int ?n" "0 + length (enc_len ?n) = k"
      using True inv src(2) by (simp_all add: trp0_def nb_length_def k_def)
    have same: "trp_sck trp0 = trp_sck trp" "trp_state trp0 = 1" "MQTTPacket_decodenb trp = decodenb_loop trp0"
      using True st by (simp_all add: trp0_def MQTTPacket_decodenb_def)
    from decodenb_loop_result [OF src(1) trp0(1-3,6) k4 trp0(4,5)]
    show ?thesis
      using same trp0(2,3) st(2) unfolding nb_length_def k_def [symmetric] by (elim ex_forward) auto
  next
    case False
    then obtain j m where d: "trp_len trp = int j" "c (trp_sck trp) = enc_len m @ payload @ rest"
        "j + length (enc_len m) = k" "trp_multiplier trp = 128 ^ j"
        "trp_rem_len trp + 128 ^ j * int m = int ?n"
      using inv unfolding nb_length_def nb_digits_def k_def by blast
    have "MQTTPacket_decodenb trp = decodenb_loop trp"
      using False by (simp add: MQTTPacket_decodenb_def)
    with decodenb_loop_result [OF src d(1-3) k4 d(4,5)] show ?thesis
      using st False d(1) unfolding nb_length_def k_def [symmetric] by (elim ex_forward) auto
  qed
qed

lemma readnb_case1_result:
  assumes src: "chunked_source g c p" "trp_getfn trp = g"
    and inv: "nb_length c h payload rest buf trp" and n: "length payload < 268435456"
    and fit: "1 + length (enc_len (length payload)) + length payload \<le> length buf" "int (length buf) = buflen"
  shows "nb_result g c p h payload rest (length buf) (trp_sck trp) (readnb_case1 buf buflen trp)"
proof -
  let ?e = "enc_len (length payload)"
  obtain rc trp' where r: "MQTTPacket_decodenb trp = Some (rc, trp')" "trp_getfn trp' = g"
      "trp_state trp' = 1" "nb_less c p (trp_sck trp') (trp_sck trp)"
    and alt: "rc = int (length ?e) \<and> c (trp_sck trp') = payload @ rest \<and> trp_rem_len trp' = int (length payload) \<or>
     rc = 0 \<and> nb_length c h payload rest buf trp'"
    using MQTTPacket_decodenb_result [OF src inv n] by blast
  from alt show ?thesis
  proof
    assume "rc = 0 \<and> nb_length c h payload rest buf trp'"
    then show ?thesis
      using r by (simp add: readnb_case1_def mqtt_codes nb_result_def nb_inv_def)
  next
    assume fin: "rc = int (length ?e) \<and> c (trp_sck trp') = payload @ rest \<and> trp_rem_len trp' = int (length payload)"
    have hd: "holds buf 0 [h]"
      using inv by (simp add: nb_length_def)
    obtain buf' where buf': "wr_bytes buf 1 ?e = Some buf'" "holds buf' 0 (h # ?e)" "length buf' = length buf"
      using holds_extend [OF hd, of ?e] fit(1) by auto
    let ?trp = "trp'\<lparr>trp_len := 1 + int (length ?e), trp_state := 2\<rparr>"
    have "readnb_case1 buf buflen trp = readnb_case2 buf' ?trp"
      using r(1,3) fin fit buf'(1) MQTTPacket_encode_put [of buf 1 "length payload"]
      by (simp add: readnb_case1_def mqtt_codes Let_def)
    moreover have "nb_payload c h payload rest buf' ?trp"
      using fin buf'(2) by (auto simp: nb_payload_def intro!: exI [of _ 0])
    ultimately show ?thesis
      using nb_result_step [OF readnb_case2_result [OF src(1), of ?trp h payload rest buf'], of "trp_sck trp"]
        r fit(1) buf'(3) by simp
  qed
qed

lemma readnb_case0_result:
  assumes src: "chunked_source g c p" "trp_getfn trp = g"
    and inv: "nb_start c h payload rest trp" and n: "length payload < 268435456"
    and fit: "1 + length (enc_len (length payload)) + length payload \<le> length buf" "int (length buf) = buflen"
  shows "nb_result g c p h payload rest (length buf) (trp_sck trp) (readnb_case0 buf buflen trp)"
proof -
  have st: "trp_state trp = 0" "c (trp_sck trp) = h # enc_len (length payload) @ payload @ rest"
    using inv by (simp_all add: nb_start_def)
  then obtain bs t' where get: "g (trp_sck trp) 1 = (int (length bs), bs, t')"
      "c (trp_sck trp) = bs @ c t'" "int (length bs) \<le> 1" "bs = [] \<Longrightarrow> p t' < p (trp_sck trp)"
    using chunked_sourceE [OF src(1), of 1 "trp_sck trp"] by auto
  have less: "nb_less c p t' (trp_sck trp)"
    using get(2,4) by (cases "bs = []") (auto simp: nb_less_def)
  show ?thesis
  proof (cases bs)
    case Nil
    then show ?thesis
      using get(1,2) src(2) st less by (simp add: readnb_case0_def nb_result_def nb_inv_def nb_start_def)
  next
    case (Cons b bs')
    then have bs: "bs = [h]" "c t' = enc_len (length payload) @ payload @ rest"
      using get(2,3) st(2) by auto
    obtain buf' where buf': "wr_bytes buf 0 [h] = Some buf'" "holds buf' 0 [h]" "length buf' = length buf"
      using holds_extend [of buf "[]" "[h]"] fit(1) by auto
    let ?trp = "trp\<lparr>trp_sck := t', trp_len := 0, trp_state := 1\<rparr>"
    have "readnb_case0 buf buflen trp = readnb_case1 buf' buflen ?trp"
      using get(1) src(2) bs(1) st(1) buf'(1) by (simp add: readnb_case0_def)
    moreover have "nb_length c h payload rest buf' ?trp"
      using bs(2) buf'(2) by (simp add: nb_length_def)
    ultimately show ?thesis
      using nb_result_step [OF readnb_case1_result [OF src(1), of ?trp h payload rest buf' buflen], of "trp_sck trp"]
        src(2) less n fit buf'(3) by simp
  qed
qed

lemma MQTTPacket_readnb_result:
  assumes src: "chunked_source g c p" "trp_getfn trp = g"
    and inv: "nb_inv c h payload rest buf trp" and n: "length payload < 268435456"
    and fit: "1 + length (enc_len (length payload)) + length payload \<le> length buf" "int (length buf) = buflen"
  shows "nb_result g c p h payload rest (length buf) (trp_sck trp) (MQTTPacket_readnb buf buflen trp)"
  using inv readnb_case0_result [OF src _ n fit] readnb_case1_result [OF src _ n fit]
    readnb_case2_result [OF src _ fit(1)]
  by (auto simp: nb_inv_def nb_start_def nb_length_def nb_payload_def MQTTPacket_readnb_def)

lemma poll_readnb_finishes:
  assumes src: "chunked_source g c p" and ty: "hdr_type (header_bits h) \<noteq> 0"
    and n: "length payload < 268435456"
    and fit: "1 + length (enc_len (length payload)) + length payload \<le> blen" "int blen = buflen"
    and "trp_getfn trp = g" "nb_inv c h payload rest buf trp" "length buf = blen"
  shows "\<exists>k r. poll_readnb k buf buflen trp = Some r \<and> nb_done c h payload rest r"
  using assms(6-)
proof (induction "(length (c (trp_sck trp)), p (trp_sck trp))" arbitrary: trp buf
    rule: wf_induct_rule [OF wf_lex_prod [OF wf_less wf_less]])
  case 1
  have "nb_result g c p h payload rest blen (trp_sck trp) (MQTTPacket_readnb buf buflen trp)"
    using MQTTPacket_readnb_result [OF src 1(2,3) n] fit 1(4) by simp
  then obtain rc buf' trp' where r: "MQTTPacket_readnb buf buflen trp = Some (rc, buf', trp')"
      "trp_getfn trp' = g" "length buf' = blen"
    and alt: "nb_done c h payload rest (rc, buf', trp') \<or>
      rc = 0 \<and> nb_inv c h payload rest buf' trp' \<and> nb_less c p (trp_sck trp') (trp_sck trp)"
    unfolding nb_result_def by blast
  from alt show ?case
  proof
    assume d: "nb_done c h payload rest (rc, buf', trp')"
    then have "rc \<noteq> 0"
      using ty by (simp add: nb_done_def unsigned_eq_0_iff)
    then have "poll_readnb (Suc 0) buf buflen trp = Some (rc, buf', trp')"
      using r(1) by simp
    with d show ?thesis by blast
  next
    assume a: "rc = 0 \<and> nb_inv c h payload rest buf' trp' \<and> nb_less c p (trp_sck trp') (trp_sck trp)"
    then obtain k res where "poll_readnb k buf' buflen trp' = Some res" "nb_done c h payload rest res"
      using 1(1) [of trp' buf'] r(2,3) by (auto simp: nb_less_def)
    then have "poll_readnb (Suc k) buf buflen trp = Some res"
      using r(1) a by simp
    with \<open>nb_done c h payload rest res\<close> show ?thesis by blast
  qed
qed


section \<open>Properties\<close>

text \<open>
  C31: the non-blocking reader delivers the packet however the transport cuts it up: for any
  transport that keeps its contract and has a packet with a valid remaining length at its
  front, enough calls return the packet type with exactly the packet at the front of the
  buffer, leave what follows the packet unread and reset the reader for the next one.
\<close>
theorem MQTTPacket_readnb_any_chunking:
  assumes "chunked_source g content patience" and "hdr_type (header_bits h) \<noteq> 0"
    and "length payload < 268435456"
    and "1 + length (enc_len (length payload)) + length payload \<le> length buf"
    and "trp_getfn trp = g" "trp_state trp = 0"
    and "content (trp_sck trp) = h # enc_len (length payload) @ payload @ rest"
  shows "\<exists>k buf' trp'. poll_readnb k buf (int (length buf)) trp =
       Some (uint (hdr_type (header_bits h)), buf', trp') \<and>
     holds buf' 0 (h # enc_len (length payload) @ payload) \<and>
     content (trp_sck trp') = rest \<and> trp_state trp' = 0"
  using poll_readnb_finishes [OF assms(1-4) refl assms(5), of rest buf] assms(6,7)
  by (fastforce simp: nb_inv_def nb_start_def nb_done_def)

text \<open>A transport with a schedule: how many bytes each call hands over at most.\<close>

definition scheduled :: "byte list \<times> nat list \<Rightarrow> int \<Rightarrow> int \<times> byte list \<times> (byte list \<times> nat list)" where
  "scheduled t n = (case t of (xs, ks) \<Rightarrow>
     (let m = (case ks of [] \<Rightarrow> nat n | k # _ \<Rightarrow> min k (nat n)) in
      (int (length (take m xs)), take m xs, (drop m xs, tl ks))))"

lemma scheduled_source: "chunked_source scheduled fst (\<lambda>t. length (snd t))"
  by (auto simp: chunked_source_def scheduled_def Let_def min_def split: list.splits)

theorem MQTTPacket_readnb_any_chunking_witness:
  "\<exists>k buf' trp'. poll_readnb k [0, 0, 0, 0, 0] (int (length [0, 0, 0, 0, 0 :: byte]))
       \<lparr>trp_getfn = scheduled, trp_sck = ([0x40, 2, 0, 7, 0xD0], [0, 1, 0, 0, 1, 1]),
        trp_multiplier = 0, trp_rem_len = 0, trp_len = 0, trp_state = 0\<rparr> = Some (4, buf', trp') \<and>
     holds buf' 0 [0x40, 2, 0, 7] \<and> fst (trp_sck trp') = [0xD0]"
  using MQTTPacket_readnb_any_chunking [OF scheduled_source, where h = "0x40" and payload = "[0, 7]"
      and buf = "[0, 0, 0, 0, 0]" and rest = "[0xD0]"
      and trp = "\<lparr>trp_getfn = scheduled, trp_sck = ([0x40, 2, 0, 7, 0xD0], [0, 1, 0, 0, 1, 1]),
        trp_multiplier = 0, trp_rem_len = 0, trp_len = 0, trp_state = 0\<rparr>"]
  by (auto simp: header_bits_def enc_len.simps)

text \<open>
  The blocking reader agrees: on a source that answers every request it can meet in full,
  \<open>MQTTPacket_read\<close> returns the packet type, with the packet in the buffer and the rest unread.
\<close>
theorem MQTTPacket_read_packet:
  assumes full: "\<And>t n. 0 < n \<Longrightarrow> nat n \<le> length (content t) \<Longrightarrow>
      \<exists>t'. g t n = (n, take (nat n) (content t), t') \<and> content t' = drop (nat n) (content t)"
    and t: "content t = h # enc_len (length payload) @ payload @ rest"
    and n: "length payload < 268435456"
    and fit: "1 + length (enc_len (length payload)) + length payload \<le> length buf"
  shows "\<exists>buf' t'. MQTTPacket_read buf (int (length buf)) g t = Some (uint (hdr_type (header_bits h)), buf', t') \<and>
     holds buf' 0 (h # enc_len (length payload) @ payload) \<and> content t' = rest"
proof -
  let ?e = "enc_len (length payload)"
  have bs: "byte_source (getchar_of g) content"
  proof
    fix s b bs
    assume c: "content s = b # bs"
    then show "\<exists>s'. getchar_of g s = Some (1, b, s') \<and> content s' = bs"
      using full [of 1 s] by (auto simp: getchar_of_def)
  qed
  obtain t1 where t1: "g t 1 = (1, [h], t1)" "content t1 = ?e @ payload @ rest"
    using full [of 1 t] t by auto
  obtain t2 where t2: "MQTTPacket_decode (getchar_of g) t1 = Some (length ?e, int (length payload), t2)"
      "content t2 = payload @ rest"
    using byte_source.decode_enc [OF bs t1(2) length_enc_len_le [OF n]] by blast
  obtain b1 where b1: "wr_bytes buf 0 [h] = Some b1" "holds b1 0 [h]" "length b1 = length buf"
    using holds_extend [of buf "[]" "[h]"] fit by auto
  obtain b2 where b2: "wr_bytes b1 1 ?e = Some b2" "holds b2 0 (h # ?e)" "length b2 = length buf"
    using holds_extend [OF b1(2), of ?e] b1(3) fit by auto
  obtain b3 where b3: "wr_bytes b2 (1 + length ?e) payload = Some b3" "holds b3 0 (h # ?e @ payload)"
    using holds_extend [OF b2(2), of payload] b2(3) fit by auto
  have hd: "rd b 0 = Some h" if "holds b 0 (h # xs)" for b xs
    using that holds_prefix [of b 0 "[h]" xs] by (simp add: holds_rd)
  show ?thesis
  proof (cases "payload = []")
    case True
    then show ?thesis
      using t1 t2 b1 b2 fit MQTTPacket_encode_put [of b1 1 0] hd [OF b2(2)]
      by (simp add: MQTTPacket_read_def Let_def)
  next
    case False
    then obtain t3 where t3: "g t2 (int (length payload)) = (int (length payload), payload, t3)" "content t3 = rest"
      using full [of "int (length payload)" t2] t2(2) by auto
    show ?thesis
      using False t1 t2 t3 b1 b2 b3 fit MQTTPacket_encode_put [of b1 1 "length payload"] hd [OF b3(2)]
      by (simp add: MQTTPacket_read_def Let_def nat_add_distrib)
  qed
qed

theorem MQTTPacket_read_packet_witness:
  "\<exists>buf' t'. MQTTPacket_read [0, 0, 0, 0] (int (length [0, 0, 0, 0 :: byte])) scheduled ([0x40, 2, 0, 7, 0xD0], []) =
       Some (4, buf', t') \<and> holds buf' 0 [0x40, 2, 0, 7]"
proof -
  let ?c = "\<lambda>t. if snd t = [] then fst t else []"
  have "\<exists>t'. scheduled t n = (n, take (nat n) (?c t), t') \<and> ?c t' = drop (nat n) (?c t)"
    if "0 < n" "nat n \<le> length (?c t)" for t n
    using that by (intro exI [of _ "(drop (nat n) (fst t), [])"])
      (auto simp: scheduled_def Let_def split: if_splits prod.splits)
  from MQTTPacket_read_packet [of ?c scheduled "([0x40, 2, 0, 7, 0xD0], [])" "0x40" "[0, 7]" "[0xD0]" "[0, 0, 0, 0]", OF this]
  show ?thesis
    by (auto simp: header_bits_def enc_len.simps)
qed

end
