(* ===== verification/Mqtt_Publish.thy ===== *)
theory Mqtt_Publish
  imports Mqtt_Packet
begin

text \<open>
  \<open>lib/MQTT/MQTTPacket/MQTTSerializePublish.c\<close> and \<open>MQTTDeserializePublish.c\<close>: PUBLISH and the
  acknowledgements. A serializer returns its C result and the buffer, \<open>None\<close> when it writes
  outside the buffer; a deserializer takes what its output arguments point to and returns its
  result and their new contents.
\<close>

section \<open>Serializers\<close>

definition MQTTSerialize_publishLength :: "int \<Rightarrow> MQTTString \<Rightarrow> int \<Rightarrow> int" where
  "MQTTSerialize_publishLength qos topicName payloadlen =
     (let len = 2 + MQTTstrlen topicName + payloadlen in
      if qos > 0 then len + 2 else len)"

text \<open>\<open>payload\<close> is the object behind the pointer; \<open>memcpy\<close> of a negative length is undefined.\<close>

definition MQTTSerialize_publish ::
    "byte list \<Rightarrow> int \<Rightarrow> byte \<Rightarrow> int \<Rightarrow> byte \<Rightarrow> u16 \<Rightarrow> MQTTString \<Rightarrow> byte list \<Rightarrow> int \<Rightarrow> (int \<times> byte list) option" where
  "MQTTSerialize_publish buf buflen dup qos retained packetid topicName payload payloadlen =
     (let rem_len = MQTTSerialize_publishLength qos topicName payloadlen in
      if MQTTPacket_len rem_len > buflen then Some (MQTTPACKET_BUFFER_TOO_SHORT, buf)
      else do {
        let header = header_zero\<lparr>hdr_type := ucast (msg_code PUBLISH), hdr_dup := ucast dup,
              hdr_qos := word_of_int qos, hdr_retain := ucast retained\<rparr>;
        ptr \<leftarrow> writeChar (buf, 0) (header_byte header);
        ptr \<leftarrow> write_rem_len ptr rem_len;
        ptr \<leftarrow> writeMQTTString ptr topicName;
        ptr \<leftarrow> (if qos > 0 then writeInt ptr (uint packetid) else Some ptr);
        bytes \<leftarrow> (if payloadlen < 0 then None else rd_bytes payload (nat payloadlen));
        buf \<leftarrow> wr_bytes (fst ptr) (snd ptr) bytes;
        Some (int (snd ptr) + payloadlen, buf)
      })"

definition MQTTSerialize_ack :: "byte list \<Rightarrow> int \<Rightarrow> byte \<Rightarrow> byte \<Rightarrow> u16 \<Rightarrow> (int \<times> byte list) option" where
  "MQTTSerialize_ack buf buflen packettype dup packetid =
     (if buflen < 4 then Some (MQTTPACKET_BUFFER_TOO_SHORT, buf)
      else do {
        let header = header_zero\<lparr>hdr_type := ucast packettype, hdr_dup := ucast dup,
              hdr_qos := (if packettype = msg_code PUBREL then 1 else 0)\<rparr>;
        ptr \<leftarrow> writeChar (buf, 0) (header_byte header);
        ptr \<leftarrow> write_rem_len ptr 2;
        ptr \<leftarrow> writeInt ptr (uint packetid);
        Some (int (snd ptr), fst ptr)
      })"

definition MQTTSerialize_puback :: "byte list \<Rightarrow> int \<Rightarrow> u16 \<Rightarrow> (int \<times> byte list) option" where
  "MQTTSerialize_puback buf buflen packetid = MQTTSerialize_ack buf buflen (msg_code PUBACK) 0 packetid"

definition MQTTSerialize_pubrel :: "byte list \<Rightarrow> int \<Rightarrow> byte \<Rightarrow> u16 \<Rightarrow> (int \<times> byte list) option" where
  "MQTTSerialize_pubrel buf buflen dup packetid = MQTTSerialize_ack buf buflen (msg_code PUBREL) dup packetid"

definition MQTTSerialize_pubcomp :: "byte list \<Rightarrow> int \<Rightarrow> u16 \<Rightarrow> (int \<times> byte list) option" where
  "MQTTSerialize_pubcomp buf buflen packetid = MQTTSerialize_ack buf buflen (msg_code PUBCOMP) 0 packetid"

section \<open>Deserializers\<close>

record publish_out =
  pub_dup :: byte
  pub_qos :: int
  pub_retained :: byte
  pub_packetid :: u16
  pub_topicName :: MQTTString
  pub_payload :: "byte list option"
  pub_payloadlen :: int

definition MQTTDeserialize_publish :: "publish_out \<Rightarrow> byte list \<Rightarrow> int \<Rightarrow> (int \<times> publish_out) option" where
  "MQTTDeserialize_publish out buf buflen = do {
     (b, curdata) \<leftarrow> readChar buf 0;
     let header = header_bits b;
     if ucast (hdr_type header) \<noteq> msg_code PUBLISH then Some (0, out)
     else do {
       let out = out\<lparr>pub_dup := ucast (hdr_dup header), pub_qos := uint (hdr_qos header),
             pub_retained := ucast (hdr_retain header)\<rparr>;
       (rc, mylen) \<leftarrow> MQTTPacket_decodeBuf buf curdata;
       let curdata = curdata + rc;
       let enddata = curdata + nat mylen;
       (ok, topic, curdata) \<leftarrow> readMQTTLenString (pub_topicName out) buf curdata enddata;
       let out = out\<lparr>pub_topicName := topic\<rparr>;
       if \<not> ok \<or> int enddata - int curdata < 0 then Some (int rc, out)
       else do {
         (out, curdata) \<leftarrow>
           (if pub_qos out > 0 then do {
              (v, curdata) \<leftarrow> readInt buf curdata;
              Some (out\<lparr>pub_packetid := word_of_int v\<rparr>, curdata)
            } else Some (out, curdata));
         Some (1, out\<lparr>pub_payloadlen := int enddata - int curdata, pub_payload := Some (drop curdata buf)\<rparr>)
       }
     }
   }"

record ack_out =
  ack_packettype :: byte
  ack_dup :: byte
  ack_packetid :: u16

definition MQTTDeserialize_ack :: "ack_out \<Rightarrow> byte list \<Rightarrow> int \<Rightarrow> (int \<times> ack_out) option" where
  "MQTTDeserialize_ack out buf buflen = do {
     (b, curdata) \<leftarrow> readChar buf 0;
     let header = header_bits b;
     let out = out\<lparr>ack_dup := ucast (hdr_dup header), ack_packettype := ucast (hdr_type header)\<rparr>;
     (rc, mylen) \<leftarrow> MQTTPacket_decodeBuf buf curdata;
     let curdata = curdata + rc;
     let enddata = curdata + nat mylen;
     if int enddata - int curdata < 2 then Some (int rc, out)
     else do {
       (v, curdata) \<leftarrow> readInt buf curdata;
       Some (1, out\<lparr>ack_packetid := word_of_int v\<rparr>)
     }
   }"

section \<open>What the serializers write\<close>

definition enc_publish :: "1 word \<Rightarrow> 2 word \<Rightarrow> 1 word \<Rightarrow> u16 \<Rightarrow> byte list \<Rightarrow> byte list \<Rightarrow> byte list" where
  "enc_publish d q r packetid topic payload =
     (let body = enc_str topic @ (if q = 0 then [] else be16 (unat packetid)) @ payload in
      header_byte \<lparr>hdr_retain = r, hdr_qos = q, hdr_dup = d, hdr_type = 3\<rparr> # enc_len (length body) @ body)"

definition enc_ack :: "4 word \<Rightarrow> 2 word \<Rightarrow> 1 word \<Rightarrow> u16 \<Rightarrow> byte list" where
  "enc_ack ty q d packetid =
     header_byte \<lparr>hdr_retain = 0, hdr_qos = q, hdr_dup = d, hdr_type = ty\<rparr> # enc_len 2 @ be16 (unat packetid)"

lemma MQTTSerialize_ack_put:
  assumes "4 \<le> buflen" "int (length buf) = buflen"
  shows "MQTTSerialize_ack buf buflen ty d packetid =
    Some (4, enc_ack (ucast ty) (if ty = msg_code PUBREL then 1 else 0) (ucast d) packetid @ drop 4 buf)"
proof -
  let ?e = "enc_ack (ucast ty) (if ty = msg_code PUBREL then 1 else 0) (ucast d) packetid"
  have "MQTTSerialize_ack buf buflen ty d packetid =
      map_option (\<lambda>ptr. (int (snd ptr), fst ptr)) (put ?e (buf, 0))"
    using assms(1) write_rem_len_put [of _ 2]
    by (simp add: MQTTSerialize_ack_def put_simps enc_ack_def header_zero_def enc_len_small)
  moreover have "length ?e = 4"
    by (simp add: enc_ack_def enc_len_small)
  ultimately show ?thesis
    using assms put_0 [of ?e buf] by simp
qed


definition publish_body :: "2 word \<Rightarrow> u16 \<Rightarrow> byte list \<Rightarrow> byte list \<Rightarrow> byte list" where
  "publish_body q packetid topic payload =
     enc_str topic @ (if q = 0 then [] else be16 (unat packetid)) @ payload"

lemma enc_publish_body:
  "enc_publish d q r packetid topic payload =
     header_byte \<lparr>hdr_retain = r, hdr_qos = q, hdr_dup = d, hdr_type = 3\<rparr> #
     enc_len (length (publish_body q packetid topic payload)) @ publish_body q packetid topic payload"
  by (simp add: enc_publish_def publish_body_def)

lemma qos_word_eq_0: "0 \<le> qos \<Longrightarrow> qos < 4 \<Longrightarrow> (word_of_int qos :: 2 word) = 0 \<longleftrightarrow> qos = 0"
  by (auto simp: word_of_int_eq_0_iff dest: zdvd_imp_le)

lemma uint_gt_0_iff: "0 < uint (w :: 'a :: len word) \<longleftrightarrow> w \<noteq> 0"
  using unsigned_greater_eq [of w, where 'a = int] by (simp add: less_le unsigned_eq_0_iff eq_commute [of 0])

lemma wr_bytes_result:
  "map_option (\<lambda>buf. (int (snd c) + int (length xs), buf)) (wr_bytes (fst c) (snd c) xs) =
   map_option (\<lambda>ptr. (int (snd ptr), fst ptr)) (put xs c)"
  by (cases c) (simp add: put_def option.map_comp comp_def)

lemma MQTTSerialize_publish_put:
  fixes dup retained :: byte
  assumes topic: "str_ok topic" and qos: "0 \<le> qos" "qos < 4"
    and n: "length (publish_body (word_of_int qos) packetid (str_bytes topic) payload) < 268435456"
    and fit: "MQTTPacket_len (int (length (publish_body (word_of_int qos) packetid (str_bytes topic) payload))) \<le> buflen"
      "int (length buf) = buflen"
  defines "e \<equiv> enc_publish (ucast dup) (word_of_int qos) (ucast retained) packetid (str_bytes topic) payload"
  shows "MQTTSerialize_publish buf buflen dup qos retained packetid topic (payload @ extra) (int (length payload)) =
    Some (int (length e), e @ drop (length e) buf)"
proof -
  let ?body = "publish_body (word_of_int qos) packetid (str_bytes topic) payload"
  define N where "N = length ?body"
  have len: "MQTTSerialize_publishLength qos topic (int (length payload)) = int N"
    using qos MQTTstrlen_ok [OF topic]
    by (simp add: MQTTSerialize_publishLength_def publish_body_def Let_def qos_word_eq_0 N_def)
  have e: "e = header_byte \<lparr>hdr_retain = ucast retained, hdr_qos = word_of_int qos, hdr_dup = ucast dup,
      hdr_type = 3\<rparr> # enc_len N @ ?body"
    by (simp add: e_def enc_publish_body N_def)
  have "MQTTSerialize_publish buf buflen dup qos retained packetid topic (payload @ extra) (int (length payload)) =
      map_option (\<lambda>ptr. (int (snd ptr), fst ptr)) (put e (buf, 0))"
    using fit(1) [folded N_def] qos
    by (simp add: MQTTSerialize_publish_def len put_simps topic rd_bytes_def wr_bytes_result
        e header_zero_def publish_body_def qos_word_eq_0)
  moreover have "length e \<le> length buf"
    using MQTTPacket_len_enough [OF n] fit by (simp add: e_def enc_publish_body)
  ultimately show ?thesis
    by (simp add: put_0)
qed


lemma MQTTDeserialize_publish_holds:
  assumes h: "holds buf 0 (enc_publish d q r packetid topic payload)"
    and n: "length (publish_body q packetid topic payload) < 268435456" and t: "length topic < 65536"
  shows "\<exists>m p. MQTTDeserialize_publish out buf buflen = Some (1, out\<lparr>pub_dup := ucast d, pub_qos := uint q,
      pub_retained := ucast r, pub_topicName := m, pub_packetid := (if q = 0 then pub_packetid out else packetid),
      pub_payloadlen := int (length payload), pub_payload := Some (drop p buf)\<rparr>) \<and>
    str_bytes m = topic \<and> str_ok m \<and> holds buf p payload"
proof -
  let ?body = "publish_body q packetid topic payload"
  define N where "N = length ?body"
  define L where "L = length (enc_len N)"
  note start = packet_open [OF h [unfolded enc_publish_body] n, folded N_def, folded L_def]
  have parts: "holds buf (1 + L) (enc_str topic)"
    "holds buf (1 + L + 2 + length topic) ((if q = 0 then [] else be16 (unat packetid)) @ payload)"
    using start(3) by (simp_all add: publish_body_def holds_append add.commute add.left_commute)
  have N: "N = length topic + 2 + (if q = 0 then 0 else 2) + length payload"
    by (simp add: N_def publish_body_def)
  have le: "1 + L + length topic + 2 \<le> 1 + L + N"
    using N by linarith
  obtain m where topic: "readMQTTLenString (pub_topicName out) buf (1 + L) (1 + L + N) =
      Some (True, m, 1 + L + 2 + length topic)" and m: "str_bytes m = topic" "str_ok m"
    by (rule readMQTTLenString_ex [OF parts(1) t le])
  have payload: "int (length payload) = int N - (2 + int (length topic)) - (if q = 0 then 0 else 2)"
    using N by (cases "q = 0") simp_all
  have id: "unat packetid < 65536"
    using unsigned_less [of packetid, where 'a = nat] by simp
  show ?thesis
  proof (cases "q = 0")
    case True
    then show ?thesis
      using start(1,2) topic m parts(2) payload le
      by (intro exI [of _ m] exI [of _ "1 + L + 2 + length topic"])
        (simp add: MQTTDeserialize_publish_def)
  next
    case False
    then have "readInt buf (1 + L + 2 + length topic) = Some (int (unat packetid), 1 + L + 2 + length topic + 2)"
      "holds buf (1 + L + 2 + length topic + 2) payload" "0 < uint q"
      using parts(2) readInt_holds [OF _ id] by (simp_all add: holds_append uint_gt_0_iff)
    then show ?thesis
      using False start(1,2) topic m payload le
      by (intro exI [of _ m] exI [of _ "1 + L + 2 + length topic + 2"])
        (simp add: MQTTDeserialize_publish_def)
  qed
qed


lemma MQTTDeserialize_ack_holds:
  assumes "holds buf 0 (enc_ack ty q d packetid)"
  shows "MQTTDeserialize_ack out buf buflen =
    Some (1, \<lparr>ack_packettype = ucast ty, ack_dup = ucast d, ack_packetid = packetid\<rparr>)"
proof -
  have h: "holds buf 0 (header_byte \<lparr>hdr_retain = 0, hdr_qos = q, hdr_dup = d, hdr_type = ty\<rparr> #
      enc_len 2 @ be16 (unat packetid))"
    using assms by (simp add: enc_ack_def)
  have id: "unat packetid < 65536"
    using unsigned_less [of packetid, where 'a = nat] by simp
  note start = packet_open [OF h, simplified]
  have "readInt buf (Suc (Suc 0)) = Some (int (unat packetid), 4)"
    using readInt_holds [OF _ id, of buf "Suc (Suc 0)"] start(3) by (simp add: enc_len_small)
  then show ?thesis
    using start(1,2) by (cases out) (simp add: MQTTDeserialize_ack_def enc_len_small)
qed

lemma ucast_bit1: "(x :: byte) \<le> 1 \<Longrightarrow> ucast (ucast x :: 1 word) = x"
proof -
  assume "x \<le> 1"
  then have "x = 0 \<or> x = 1"
    by (auto simp: word_le_nat_alt word_unat_eq_iff)
  then show ?thesis
    by auto
qed

section \<open>Properties\<close>

text \<open>
  C33: a PUBLISH survives the wire. For a well-formed topic, a QoS of the protocol and a packet
  that the size check lets through, \<open>MQTTSerialize_publish\<close> stays inside its buffer, touches
  nothing after the packet it reports, and \<open>MQTTDeserialize_publish\<close> recovers the flags, the
  topic, the packet identifier (for QoS above 0 only) and the payload.
\<close>
theorem publish_roundtrip:
  fixes dup retained :: byte
  assumes topic: "str_ok topic" "length (str_bytes topic) < 65536" and qos: "0 \<le> qos" "qos < 4"
    and n: "MQTTSerialize_publishLength qos topic (int (length payload)) < 268435456"
    and fit: "MQTTPacket_len (MQTTSerialize_publishLength qos topic (int (length payload))) \<le> int (length buf)"
    and flags: "dup \<le> 1" "retained \<le> 1"
  shows "\<exists>k buf' m p. MQTTSerialize_publish buf (int (length buf)) dup qos retained packetid topic
        (payload @ extra) (int (length payload)) = Some (int k, buf') \<and>
      k \<le> length buf \<and> length buf' = length buf \<and> drop k buf' = drop k buf \<and>
      MQTTDeserialize_publish out buf' (int k) = Some (1, out\<lparr>pub_dup := dup, pub_qos := qos,
        pub_retained := retained, pub_topicName := m,
        pub_packetid := (if qos = 0 then pub_packetid out else packetid),
        pub_payloadlen := int (length payload), pub_payload := Some (drop p buf')\<rparr>) \<and>
      str_bytes m = str_bytes topic \<and> holds buf' p payload"
proof -
  let ?q = "word_of_int qos :: 2 word"
  let ?e = "enc_publish (ucast dup) ?q (ucast retained) packetid (str_bytes topic) payload"
  have len: "MQTTSerialize_publishLength qos topic (int (length payload)) =
      int (length (publish_body ?q packetid (str_bytes topic) payload))"
    using qos MQTTstrlen_ok [OF topic(1)]
    by (simp add: MQTTSerialize_publishLength_def publish_body_def Let_def qos_word_eq_0)
  have ser: "MQTTSerialize_publish buf (int (length buf)) dup qos retained packetid topic
        (payload @ extra) (int (length payload)) = Some (int (length ?e), ?e @ drop (length ?e) buf)"
    using n fit unfolding len
    by (intro MQTTSerialize_publish_put) (use topic qos in simp_all)
  have le: "length ?e \<le> length buf"
    using MQTTPacket_len_enough [of "length (publish_body ?q packetid (str_bytes topic) payload)"] n fit
    unfolding len by (simp add: enc_publish_body)
  have q: "uint ?q = qos"
    using qos by (simp add: uint_word_of_int)
  have "length (publish_body ?q packetid (str_bytes topic) payload) < 268435456"
    using n unfolding len by simp
  from MQTTDeserialize_publish_holds [OF holds_app this topic(2), where d = "ucast dup" and r = "ucast retained"
      and out = out and buflen = "int (length ?e)" and ys1 = "drop (length ?e) buf"]
  obtain m p where m: "MQTTDeserialize_publish out (?e @ drop (length ?e) buf) (int (length ?e)) =
      Some (1, out\<lparr>pub_dup := ucast (ucast dup :: 1 word), pub_qos := uint ?q,
        pub_retained := ucast (ucast retained :: 1 word), pub_topicName := m,
        pub_packetid := (if ?q = 0 then pub_packetid out else packetid),
        pub_payloadlen := int (length payload), pub_payload := Some (drop p (?e @ drop (length ?e) buf))\<rparr>)"
    "str_bytes m = str_bytes topic" "holds (?e @ drop (length ?e) buf) p payload"
    by blast
  have "MQTTDeserialize_publish out (?e @ drop (length ?e) buf) (int (length ?e)) =
      Some (1, out\<lparr>pub_dup := dup, pub_qos := qos, pub_retained := retained, pub_topicName := m,
        pub_packetid := (if qos = 0 then pub_packetid out else packetid),
        pub_payloadlen := int (length payload), pub_payload := Some (drop p (?e @ drop (length ?e) buf))\<rparr>)"
    unfolding m(1) q ucast_bit1 [OF flags(1)] ucast_bit1 [OF flags(2)] qos_word_eq_0 [OF qos] by (rule refl)
  then show ?thesis
    using ser le m(2,3)
    by (intro exI [of _ "length ?e"] exI [of _ "?e @ drop (length ?e) buf"] exI [of _ m] exI [of _ p]) simp
qed

definition no_publish :: publish_out where
  "no_publish = \<lparr>pub_dup = 0, pub_qos = 0, pub_retained = 0, pub_packetid = 0,
     pub_topicName = MQTTString_initializer, pub_payload = None, pub_payloadlen = 0\<rparr>"

theorem publish_roundtrip_witness:
  "\<exists>k buf' m p. MQTTSerialize_publish (replicate 16 0) (int (length (replicate 16 (0 :: byte)))) 0 1 1 77
        \<lparr>cstring = Some [97, 47, 98], lenstring = \<lparr>ls_len = 0, ls_data = None\<rparr>\<rparr>
        ([1, 2] @ [9]) (int (length [1, 2 :: byte])) = Some (int k, buf') \<and>
      MQTTDeserialize_publish no_publish buf' (int k) = Some (1, no_publish\<lparr>pub_dup := 0, pub_qos := 1,
        pub_retained := 1, pub_topicName := m, pub_packetid := 77,
        pub_payloadlen := 2, pub_payload := Some (drop p buf')\<rparr>) \<and>
      str_bytes m = [97, 47, 98] \<and> holds buf' p [1, 2]"
  using publish_roundtrip [of "\<lparr>cstring = Some [97, 47, 98], lenstring = \<lparr>ls_len = 0, ls_data = None\<rparr>\<rparr>" 1
      "[1, 2]" "replicate 16 0" 0 1 77 "[9]" no_publish]
  by (auto simp: str_ok_def str_bytes_def MQTTSerialize_publishLength_def MQTTstrlen_def MQTTPacket_len_def)


text \<open>
  An acknowledgement of any type survives the wire: four bytes, nothing after them touched,
  type, DUP flag and packet identifier recovered; a buffer of less than four bytes is refused
  and left alone.
\<close>
theorem ack_roundtrip:
  assumes "dup \<le> 1" "t \<in> {PUBACK, PUBREC, PUBREL, PUBCOMP, SUBACK, UNSUBACK}"
  shows "if length buf < 4
    then MQTTSerialize_ack buf (int (length buf)) (msg_code t) dup packetid = Some (MQTTPACKET_BUFFER_TOO_SHORT, buf)
    else \<exists>buf'. MQTTSerialize_ack buf (int (length buf)) (msg_code t) dup packetid = Some (4, buf') \<and>
      length buf' = length buf \<and> drop 4 buf' = drop 4 buf \<and>
      MQTTDeserialize_ack out buf' 4 =
        Some (1, \<lparr>ack_packettype = msg_code t, ack_dup = dup, ack_packetid = packetid\<rparr>)"
proof (cases "length buf < 4")
  case True
  then show ?thesis
    by (simp add: MQTTSerialize_ack_def)
next
  case False
  let ?e = "enc_ack (ucast (msg_code t)) (if t = PUBREL then 1 else 0) (ucast dup) packetid"
  have "MQTTSerialize_ack buf (int (length buf)) (msg_code t) dup packetid = Some (4, ?e @ drop 4 buf)"
    using False MQTTSerialize_ack_put [of "int (length buf)" buf "msg_code t" dup packetid] by (cases t) simp_all
  moreover have "length ?e = 4"
    by (simp add: enc_ack_def enc_len_small)
  ultimately show ?thesis
    using False MQTTDeserialize_ack_holds [OF holds_app] ucast_bit1 [OF assms(1)] by simp
qed

theorem ack_roundtrip_witness:
  "\<exists>buf'. MQTTSerialize_ack [0, 0, 0, 0, 5] (int (length [0, 0, 0, 0, 5 :: byte])) (msg_code PUBREL) 1 513 = Some (4, buf') \<and>
     MQTTDeserialize_ack \<lparr>ack_packettype = 0, ack_dup = 0, ack_packetid = 0\<rparr> buf' 4 =
        Some (1, \<lparr>ack_packettype = msg_code PUBREL, ack_dup = 1, ack_packetid = 513\<rparr>)"
  using ack_roundtrip [of 1 PUBREL "[0, 0, 0, 0, 5]" 513 "\<lparr>ack_packettype = 0, ack_dup = 0, ack_packetid = 0\<rparr>"]
  by auto

end
