(* ===== verification/Mqtt_Subscribe.thy ===== *)
theory Mqtt_Subscribe
  imports Mqtt_Publish
begin

text \<open>
  \<open>lib/MQTT/MQTTPacket/MQTTSubscribeClient.c\<close>, \<open>MQTTSubscribeServer.c\<close>, \<open>MQTTUnsubscribeClient.c\<close>
  and \<open>MQTTUnsubscribeServer.c\<close>. The arrays of the callers are lists of fixed length; an index
  outside them is \<open>None\<close>. The loops over the topic filters count the iterations left.
\<close>

section \<open>SUBSCRIBE\<close>

primrec subscribe_len_loop :: "nat \<Rightarrow> nat \<Rightarrow> MQTTString list \<Rightarrow> int \<Rightarrow> int option" where
  "subscribe_len_loop 0 i topicFilters len = Some len"
| "subscribe_len_loop (Suc n) i topicFilters len = do {
     t \<leftarrow> nth_opt topicFilters i;
     subscribe_len_loop n (i + 1) topicFilters (len + (2 + MQTTstrlen t + 1))
   }"

definition MQTTSerialize_subscribeLength :: "int \<Rightarrow> MQTTString list \<Rightarrow> int option" where
  "MQTTSerialize_subscribeLength count topicFilters = subscribe_len_loop (nat count) 0 topicFilters 2"

primrec subscribe_loop :: "nat \<Rightarrow> nat \<Rightarrow> cursor \<Rightarrow> MQTTString list \<Rightarrow> int list \<Rightarrow> cursor option" where
  "subscribe_loop 0 i ptr topicFilters requestedQoSs = Some ptr"
| "subscribe_loop (Suc n) i ptr topicFilters requestedQoSs = do {
     t \<leftarrow> nth_opt topicFilters i;
     ptr \<leftarrow> writeMQTTString ptr t;
     q \<leftarrow> nth_opt requestedQoSs i;
     ptr \<leftarrow> writeChar ptr (word_of_int q);
     subscribe_loop n (i + 1) ptr topicFilters requestedQoSs
   }"

definition MQTTSerialize_subscribe ::
    "byte list \<Rightarrow> int \<Rightarrow> byte \<Rightarrow> u16 \<Rightarrow> int \<Rightarrow> MQTTString list \<Rightarrow> int list \<Rightarrow> (int \<times> byte list) option" where
  "MQTTSerialize_subscribe buf buflen dup packetid count topicFilters requestedQoSs = do {
     rem_len \<leftarrow> MQTTSerialize_subscribeLength count topicFilters;
     if MQTTPacket_len rem_len > buflen then Some (MQTTPACKET_BUFFER_TOO_SHORT, buf)
     else do {
       let header = header_zero\<lparr>hdr_type := ucast (msg_code SUBSCRIBE), hdr_dup := ucast dup, hdr_qos := 1\<rparr>;
       ptr \<leftarrow> writeChar (buf, 0) (header_byte header);
       ptr \<leftarrow> write_rem_len ptr rem_len;
       ptr \<leftarrow> writeInt ptr (uint packetid);
       ptr \<leftarrow> subscribe_loop (nat count) 0 ptr topicFilters requestedQoSs;
       Some (int (snd ptr), fst ptr)
     }
   }"

record subscribe_out =
  sub_dup :: byte
  sub_packetid :: u16
  sub_count :: nat
  sub_topicFilters :: "MQTTString list"
  sub_requestedQoSs :: "int list"

text \<open>Each turn moves \<open>curdata\<close>, which bounds the loop.\<close>

function subscribe_read_loop ::
    "byte list \<Rightarrow> nat \<Rightarrow> nat \<Rightarrow> int \<Rightarrow> subscribe_out \<Rightarrow> (int \<times> subscribe_out) option" where
  "subscribe_read_loop buf curdata enddata rc out =
     (if curdata < enddata then do {
        t \<leftarrow> nth_opt (sub_topicFilters out) (sub_count out);
        (ok, t, cur) \<leftarrow> readMQTTLenString t buf curdata enddata;
        ts \<leftarrow> upd_opt (sub_topicFilters out) (sub_count out) t;
        let out = out\<lparr>sub_topicFilters := ts\<rparr>;
        if \<not> ok then Some (rc, out)
        else if cur \<ge> enddata then Some (rc, out)
        else do {
          (c, cur) \<leftarrow> readChar buf cur;
          qs \<leftarrow> upd_opt (sub_requestedQoSs out) (sub_count out) (uint c);
          let out = out\<lparr>sub_requestedQoSs := qs\<rparr>;
          subscribe_read_loop buf cur enddata rc (out\<lparr>sub_count := sub_count out + 1\<rparr>)
        }
      } else Some (1, out))"
  by pat_completeness auto
termination
  by (relation "measure (\<lambda>(buf, curdata, enddata, rc, out). enddata - curdata)")
    (auto dest!: readMQTTLenString_advances readChar_advances)

declare subscribe_read_loop.simps [simp del]

definition MQTTDeserialize_subscribe ::
    "subscribe_out \<Rightarrow> int \<Rightarrow> byte list \<Rightarrow> int \<Rightarrow> (int \<times> subscribe_out) option" where
  "MQTTDeserialize_subscribe out maxcount buf buflen = do {
     (b, curdata) \<leftarrow> readChar buf 0;
     let header = header_bits b;
     if ucast (hdr_type header) \<noteq> msg_code SUBSCRIBE then Some (-1, out)
     else do {
       let out = out\<lparr>sub_dup := ucast (hdr_dup header)\<rparr>;
       (rc, mylen) \<leftarrow> MQTTPacket_decodeBuf buf curdata;
       let curdata = curdata + rc;
       let enddata = curdata + nat mylen;
       (v, curdata) \<leftarrow> readInt buf curdata;
       let out = out\<lparr>sub_packetid := word_of_int v, sub_count := 0\<rparr>;
       subscribe_read_loop buf curdata enddata (int rc) out
     }
   }"

section \<open>SUBACK\<close>

primrec suback_loop :: "nat \<Rightarrow> nat \<Rightarrow> cursor \<Rightarrow> int list \<Rightarrow> cursor option" where
  "suback_loop 0 i ptr grantedQoSs = Some ptr"
| "suback_loop (Suc n) i ptr grantedQoSs = do {
     q \<leftarrow> nth_opt grantedQoSs i;
     ptr \<leftarrow> writeChar ptr (word_of_int q);
     suback_loop n (i + 1) ptr grantedQoSs
   }"

definition MQTTSerialize_suback :: "byte list \<Rightarrow> int \<Rightarrow> u16 \<Rightarrow> int \<Rightarrow> int list \<Rightarrow> (int \<times> byte list) option" where
  "MQTTSerialize_suback buf buflen packetid count grantedQoSs =
     (if buflen < 2 + count then Some (MQTTPACKET_BUFFER_TOO_SHORT, buf)
      else do {
        let header = header_zero\<lparr>hdr_type := ucast (msg_code SUBACK)\<rparr>;
        ptr \<leftarrow> writeChar (buf, 0) (header_byte header);
        ptr \<leftarrow> write_rem_len ptr (2 + count);
        ptr \<leftarrow> writeInt ptr (uint packetid);
        ptr \<leftarrow> suback_loop (nat count) 0 ptr grantedQoSs;
        Some (int (snd ptr), fst ptr)
      })"

record suback_out =
  sa_packetid :: u16
  sa_count :: nat
  sa_grantedQoSs :: "int list"

function suback_read_loop ::
    "byte list \<Rightarrow> nat \<Rightarrow> nat \<Rightarrow> int \<Rightarrow> suback_out \<Rightarrow> (int \<times> suback_out) option" where
  "suback_read_loop buf curdata enddata maxcount out =
     (if curdata < enddata then
        if int (sa_count out) > maxcount then Some (-1, out)
        else do {
          (c, curdata) \<leftarrow> readChar buf curdata;
          qs \<leftarrow> upd_opt (sa_grantedQoSs out) (sa_count out) (uint c);
          suback_read_loop buf curdata enddata maxcount
            (out\<lparr>sa_grantedQoSs := qs, sa_count := sa_count out + 1\<rparr>)
        }
      else Some (1, out))"
  by pat_completeness auto
termination
  by (relation "measure (\<lambda>(buf, curdata, enddata, maxcount, out). enddata - curdata)")
    (auto dest!: readChar_advances)

declare suback_read_loop.simps [simp del]

definition MQTTDeserialize_suback ::
    "suback_out \<Rightarrow> int \<Rightarrow> byte list \<Rightarrow> int \<Rightarrow> (int \<times> suback_out) option" where
  "MQTTDeserialize_suback out maxcount buf buflen = do {
     (b, curdata) \<leftarrow> readChar buf 0;
     let header = header_bits b;
     if ucast (hdr_type header) \<noteq> msg_code SUBACK then Some (0, out)
     else do {
       (rc, mylen) \<leftarrow> MQTTPacket_decodeBuf buf curdata;
       let curdata = curdata + rc;
       let enddata = curdata + nat mylen;
       if int enddata - int curdata < 2 then Some (int rc, out)
       else do {
         (v, curdata) \<leftarrow> readInt buf curdata;
         suback_read_loop buf curdata enddata maxcount (out\<lparr>sa_packetid := word_of_int v, sa_count := 0\<rparr>)
       }
     }
   }"

section \<open>UNSUBSCRIBE and UNSUBACK\<close>

primrec unsubscribe_len_loop :: "nat \<Rightarrow> nat \<Rightarrow> MQTTString list \<Rightarrow> int \<Rightarrow> int option" where
  "unsubscribe_len_loop 0 i topicFilters len = Some len"
| "unsubscribe_len_loop (Suc n) i topicFilters len = do {
     t \<leftarrow> nth_opt topicFilters i;
     unsubscribe_len_loop n (i + 1) topicFilters (len + (2 + MQTTstrlen t))
   }"

definition MQTTSerialize_unsubscribeLength :: "int \<Rightarrow> MQTTString list \<Rightarrow> int option" where
  "MQTTSerialize_unsubscribeLength count topicFilters = unsubscribe_len_loop (nat count) 0 topicFilters 2"

primrec unsubscribe_loop :: "nat \<Rightarrow> nat \<Rightarrow> cursor \<Rightarrow> MQTTString list \<Rightarrow> cursor option" where
  "unsubscribe_loop 0 i ptr topicFilters = Some ptr"
| "unsubscribe_loop (Suc n) i ptr topicFilters = do {
     t \<leftarrow> nth_opt topicFilters i;
     ptr \<leftarrow> writeMQTTString ptr t;
     unsubscribe_loop n (i + 1) ptr topicFilters
   }"

definition MQTTSerialize_unsubscribe ::
    "byte list \<Rightarrow> int \<Rightarrow> byte \<Rightarrow> u16 \<Rightarrow> int \<Rightarrow> MQTTString list \<Rightarrow> (int \<times> byte list) option" where
  "MQTTSerialize_unsubscribe buf buflen dup packetid count topicFilters = do {
     rem_len \<leftarrow> MQTTSerialize_unsubscribeLength count topicFilters;
     if MQTTPacket_len rem_len > buflen then Some (MQTTPACKET_BUFFER_TOO_SHORT, buf)
     else do {
       let header = header_zero\<lparr>hdr_type := ucast (msg_code UNSUBSCRIBE), hdr_dup := ucast dup, hdr_qos := 1\<rparr>;
       ptr \<leftarrow> writeChar (buf, 0) (header_byte header);
       ptr \<leftarrow> write_rem_len ptr rem_len;
       ptr \<leftarrow> writeInt ptr (uint packetid);
       ptr \<leftarrow> unsubscribe_loop (nat count) 0 ptr topicFilters;
       Some (int (snd ptr), fst ptr)
     }
   }"

record unsubscribe_out =
  uns_dup :: byte
  uns_packetid :: u16
  uns_count :: nat
  uns_topicFilters :: "MQTTString list"

function unsubscribe_read_loop ::
    "byte list \<Rightarrow> nat \<Rightarrow> nat \<Rightarrow> int \<Rightarrow> unsubscribe_out \<Rightarrow> (int \<times> unsubscribe_out) option" where
  "unsubscribe_read_loop buf curdata enddata rc out =
     (if curdata < enddata then do {
        t \<leftarrow> nth_opt (uns_topicFilters out) (uns_count out);
        (ok, t, cur) \<leftarrow> readMQTTLenString t buf curdata enddata;
        ts \<leftarrow> upd_opt (uns_topicFilters out) (uns_count out) t;
        let out = out\<lparr>uns_topicFilters := ts\<rparr>;
        if \<not> ok then Some (rc, out)
        else unsubscribe_read_loop buf cur enddata rc (out\<lparr>uns_count := uns_count out + 1\<rparr>)
      } else Some (1, out))"
  by pat_completeness auto
termination
  by (relation "measure (\<lambda>(buf, curdata, enddata, rc, out). enddata - curdata)")
    (auto dest!: readMQTTLenString_advances)

declare unsubscribe_read_loop.simps [simp del]

definition MQTTDeserialize_unsubscribe ::
    "unsubscribe_out \<Rightarrow> int \<Rightarrow> byte list \<Rightarrow> int \<Rightarrow> (int \<times> unsubscribe_out) option" where
  "MQTTDeserialize_unsubscribe out maxcount buf len = do {
     (b, curdata) \<leftarrow> readChar buf 0;
     let header = header_bits b;
     if ucast (hdr_type header) \<noteq> msg_code UNSUBSCRIBE then Some (0, out)
     else do {
       let out = out\<lparr>uns_dup := ucast (hdr_dup header)\<rparr>;
       (rc, mylen) \<leftarrow> MQTTPacket_decodeBuf buf curdata;
       let curdata = curdata + rc;
       let enddata = curdata + nat mylen;
       (v, curdata) \<leftarrow> readInt buf curdata;
       let out = out\<lparr>uns_packetid := word_of_int v, uns_count := 0\<rparr>;
       unsubscribe_read_loop buf curdata enddata (int rc) out
     }
   }"

definition MQTTSerialize_unsuback :: "byte list \<Rightarrow> int \<Rightarrow> u16 \<Rightarrow> (int \<times> byte list) option" where
  "MQTTSerialize_unsuback buf buflen packetid =
     (if buflen < 2 then Some (MQTTPACKET_BUFFER_TOO_SHORT, buf)
      else do {
        let header = header_zero\<lparr>hdr_type := ucast (msg_code UNSUBACK)\<rparr>;
        ptr \<leftarrow> writeChar (buf, 0) (header_byte header);
        ptr \<leftarrow> write_rem_len ptr 2;
        ptr \<leftarrow> writeInt ptr (uint packetid);
        Some (int (snd ptr), fst ptr)
      })"

text \<open>The locals \<open>type\<close> and \<open>dup\<close> start at 0.\<close>

definition MQTTDeserialize_unsuback :: "u16 \<Rightarrow> byte list \<Rightarrow> int \<Rightarrow> (int \<times> u16) option" where
  "MQTTDeserialize_unsuback packetid buf buflen = do {
     (rc, ack) \<leftarrow> MQTTDeserialize_ack
       \<lparr>ack_packettype = 0, ack_dup = 0, ack_packetid = packetid\<rparr> buf buflen;
     let rc = (if ack_packettype ack = msg_code UNSUBACK then 1 else rc);
     Some (rc, ack_packetid ack)
   }"

section \<open>Round trips\<close>

definition enc_filters :: "(MQTTString \<times> int) list \<Rightarrow> byte list" where
  "enc_filters items = concat (map (\<lambda>(t, q). enc_str (str_bytes t) @ [word_of_int q]) items)"

lemma enc_filters_simps [simp]:
  "enc_filters [] = []"
  "enc_filters ((t, q) # items) = enc_str (str_bytes t) @ word_of_int q # enc_filters items"
  by (simp_all add: enc_filters_def)

lemma subscribe_len_loop_items:
  "drop i ts = map fst items \<Longrightarrow> \<forall>(t, q) \<in> set items. str_ok t \<Longrightarrow>
   subscribe_len_loop (length items) i ts l = Some (l + int (length (enc_filters items)))"
proof (induction items arbitrary: i l)
  case (Cons item items)
  then show ?case
    using nth_opt_drop [of i ts "fst item"] by (auto simp: MQTTstrlen_ok split: prod.splits)
qed simp

lemma subscribe_loop_items:
  assumes "drop i ts = map fst items" "drop i qs = map snd items" "\<forall>(t, q) \<in> set items. str_ok t"
  shows "Option.bind (put xs c) (\<lambda>ptr. subscribe_loop (length items) i ptr ts qs) =
     put (xs @ enc_filters items) c"
  using assms
proof (induction items arbitrary: i xs)
  case Nil
  then show ?case by simp
next
  case (Cons item items)
  obtain t q where item: "item = (t, q)"
    by fastforce
  have nth: "nth_opt ts i = Some t" "drop (Suc i) ts = map fst items"
    "nth_opt qs i = Some q" "drop (Suc i) qs = map snd items"
    using Cons.prems(1,2) nth_opt_drop [of i ts t "map fst items"] nth_opt_drop [of i qs q "map snd items"]
    by (simp_all add: item)
  have "str_ok t" "\<forall>(t, q) \<in> set items. str_ok t"
    using Cons.prems(3) by (auto simp: item)
  then show ?case
    using Cons.IH [OF nth(2,4), of "xs @ enc_str (str_bytes t) @ [word_of_int q]"] nth(1,3)
    by (simp add: item put_simps)
qed

definition enc_subscribe :: "1 word \<Rightarrow> u16 \<Rightarrow> (MQTTString \<times> int) list \<Rightarrow> byte list" where
  "enc_subscribe d packetid items =
     header_byte \<lparr>hdr_retain = 0, hdr_qos = 1, hdr_dup = d, hdr_type = 8\<rparr> #
     enc_len (2 + length (enc_filters items)) @ be16 (unat packetid) @ enc_filters items"

lemma MQTTSerialize_subscribe_put:
  fixes dup :: byte and packetid :: u16
  assumes ok: "\<forall>(t, q) \<in> set items. str_ok t" and n: "2 + length (enc_filters items) < 268435456"
    and fit: "MQTTPacket_len (int (2 + length (enc_filters items))) \<le> int (length buf)"
  defines "e \<equiv> enc_subscribe (ucast dup) packetid items"
  shows "MQTTSerialize_subscribe buf (int (length buf)) dup packetid (int (length items)) (map fst items) (map snd items) =
    Some (int (length e), e @ drop (length e) buf) \<and> length e \<le> length buf"
proof -
  define N where "N = 2 + length (enc_filters items)"
  have len: "MQTTSerialize_subscribeLength (int (length items)) (map fst items) = Some (int N)"
    using subscribe_len_loop_items [of 0 "map fst items" items 2] ok
    by (simp add: MQTTSerialize_subscribeLength_def N_def)
  have e: "e = header_byte \<lparr>hdr_retain = 0, hdr_qos = 1, hdr_dup = ucast dup, hdr_type = 8\<rparr> #
      enc_len N @ be16 (unat packetid) @ enc_filters items"
    by (simp add: e_def enc_subscribe_def N_def)
  have "MQTTSerialize_subscribe buf (int (length buf)) dup packetid (int (length items)) (map fst items) (map snd items) =
      map_option (\<lambda>ptr. (int (snd ptr), fst ptr)) (put e (buf, 0))"
    using fit [folded N_def] subscribe_loop_items [of 0 "map fst items" items "map snd items", OF _ _ ok]
    by (simp add: MQTTSerialize_subscribe_def len put_simps e header_zero_def bind_map_out)
  moreover have "length e \<le> length buf"
    using MQTTPacket_len_enough [OF n] fit by (simp add: e N_def)
  ultimately show ?thesis
    by (simp add: put_0)
qed

lemma take_Suc_update: "i < length xs \<Longrightarrow> take (Suc i) (xs[i := x]) = take i xs @ [x]"
  by (simp add: take_Suc_conv_app_nth)

lemma subscribe_read_loop_items:
  assumes "holds buf p (enc_filters items)"
    and "\<forall>(t, q) \<in> set items. length (str_bytes t) < 65536 \<and> 0 \<le> q \<and> q < 256"
    and "sub_count out + length items \<le> length (sub_topicFilters out)"
    and "sub_count out + length items \<le> length (sub_requestedQoSs out)"
  shows "\<exists>out'. subscribe_read_loop buf p (p + length (enc_filters items)) rc out = Some (1, out') \<and>
    sub_dup out' = sub_dup out \<and> sub_packetid out' = sub_packetid out \<and>
    sub_count out' = sub_count out + length items \<and>
    map str_bytes (take (sub_count out') (sub_topicFilters out')) =
      map str_bytes (take (sub_count out) (sub_topicFilters out)) @ map (\<lambda>(t, q). str_bytes t) items \<and>
    take (sub_count out') (sub_requestedQoSs out') =
      take (sub_count out) (sub_requestedQoSs out) @ map snd items"
  using assms
proof (induction items arbitrary: p out)
  case Nil
  then show ?case
    by (simp add: subscribe_read_loop.simps [of buf p p])
next
  case (Cons item items)
  obtain t q where item: "item = (t, q)"
    by fastforce
  let ?s = "str_bytes t" and ?e = "enc_filters items" and ?i = "sub_count out"
  let ?p' = "p + 2 + length ?s"
  define enddata where "enddata = p + length (enc_filters (item # items))"
  have ed: "enddata = ?p' + 1 + length ?e"
    by (simp add: enddata_def item)
  have t: "length ?s < 65536" and q: "0 \<le> q" "q < 256"
    using Cons.prems(2) by (simp_all add: item)
  have "holds buf p (enc_str ?s) \<and> holds buf ?p' ([word_of_int q] @ ?e)"
    using Cons.prems(1) by (simp add: item holds_append add.commute add.left_commute)
  then have parts: "holds buf p (enc_str ?s)" "holds buf ?p' [word_of_int q]" "holds buf (?p' + 1) ?e"
    unfolding holds_append by simp_all
  have le: "p + length ?s + 2 \<le> enddata"
    by (simp add: ed)
  obtain m where m: "readMQTTLenString (sub_topicFilters out ! ?i) buf p enddata = Some (True, m, ?p')"
      "str_bytes m = ?s"
    by (rule readMQTTLenString_ex [OF parts(1) t le])
  have c: "readChar buf ?p' = Some (word_of_int q, ?p' + 1)"
    using parts(2) by (simp add: readChar_def holds_rd)
  have uq: "uint (word_of_int q :: byte) = q"
    using q by (simp add: uint_word_of_int)
  have i: "?i < length (sub_topicFilters out)" "?i < length (sub_requestedQoSs out)"
    using Cons.prems(3,4) by simp_all
  define out1 where "out1 = out\<lparr>sub_topicFilters := (sub_topicFilters out)[?i := m],
      sub_requestedQoSs := (sub_requestedQoSs out)[?i := q], sub_count := ?i + 1\<rparr>"
  have step: "subscribe_read_loop buf p enddata rc out = subscribe_read_loop buf (?p' + 1) enddata rc out1"
    using m(1) c i uq by (simp add: subscribe_read_loop.simps [of buf p] nth_opt_def upd_opt_def out1_def ed)
  have fields: "sub_count out1 + length items \<le> length (sub_topicFilters out1)"
    "sub_count out1 + length items \<le> length (sub_requestedQoSs out1)"
    "map str_bytes (take (sub_count out1) (sub_topicFilters out1)) =
      map str_bytes (take ?i (sub_topicFilters out)) @ [?s]"
    "take (sub_count out1) (sub_requestedQoSs out1) = take ?i (sub_requestedQoSs out) @ [q]"
    "sub_count out1 = ?i + 1" "sub_dup out1 = sub_dup out" "sub_packetid out1 = sub_packetid out"
    using Cons.prems(3,4) i m(2) by (simp_all add: out1_def take_Suc_update)
  have ok: "\<forall>(t, q) \<in> set items. length (str_bytes t) < 65536 \<and> 0 \<le> q \<and> q < 256"
    using Cons.prems(2) by simp
  from Cons.IH [OF parts(3) ok fields(1,2)]
  obtain out' where r: "subscribe_read_loop buf (?p' + 1) enddata rc out1 = Some (1, out')"
    "sub_dup out' = sub_dup out" "sub_packetid out' = sub_packetid out"
    "sub_count out' = ?i + 1 + length items"
    "map str_bytes (take (sub_count out') (sub_topicFilters out')) =
      (map str_bytes (take ?i (sub_topicFilters out)) @ [?s]) @ map (\<lambda>(t, q). str_bytes t) items"
    "take (sub_count out') (sub_requestedQoSs out') = (take ?i (sub_requestedQoSs out) @ [q]) @ map snd items"
    unfolding ed fields(3,4,6,7) by (auto simp only: fields(5))
  then show ?case
    unfolding enddata_def [symmetric] step by (intro exI [of _ out']) (simp add: item)
qed

lemma MQTTDeserialize_subscribe_holds:
  assumes h: "holds buf 0 (enc_subscribe d packetid items)" and n: "2 + length (enc_filters items) < 268435456"
    and ok: "\<forall>(t, q) \<in> set items. length (str_bytes t) < 65536 \<and> 0 \<le> q \<and> q < 256"
    and room: "length items \<le> length (sub_topicFilters out)" "length items \<le> length (sub_requestedQoSs out)"
  shows "\<exists>out'. MQTTDeserialize_subscribe out maxcount buf buflen = Some (1, out') \<and>
    sub_dup out' = ucast d \<and> sub_packetid out' = packetid \<and> sub_count out' = length items \<and>
    map str_bytes (take (length items) (sub_topicFilters out')) = map (\<lambda>(t, q). str_bytes t) items \<and>
    take (length items) (sub_requestedQoSs out') = map snd items"
proof -
  define N where "N = 2 + length (enc_filters items)"
  define L where "L = length (enc_len N)"
  have h': "holds buf 0 (header_byte \<lparr>hdr_retain = 0, hdr_qos = 1, hdr_dup = d, hdr_type = 8\<rparr> #
      enc_len N @ be16 (unat packetid) @ enc_filters items)"
    using h by (simp add: enc_subscribe_def N_def)
  note start = packet_open [OF h' n [folded N_def], folded L_def]
  have parts: "holds buf (1 + L) (be16 (unat packetid))" "holds buf (1 + L + 2) (enc_filters items)"
    using start(3) unfolding holds_append by simp_all
  have id: "unat packetid < 65536"
    using unsigned_less [of packetid, where 'a = nat] by simp
  define out1 where "out1 = out\<lparr>sub_dup := ucast d, sub_packetid := packetid, sub_count := 0\<rparr>"
  have "MQTTDeserialize_subscribe out maxcount buf buflen =
      subscribe_read_loop buf (1 + L + 2) (1 + L + N) (int L) out1"
    using start(1,2) readInt_holds [OF parts(1) id] by (simp add: MQTTDeserialize_subscribe_def out1_def)
  moreover have "1 + L + N = 1 + L + 2 + length (enc_filters items)"
    by (simp add: N_def)
  ultimately show ?thesis
    using subscribe_read_loop_items [OF parts(2) ok, of out1 "int L"] room by (auto simp: out1_def)
qed

section \<open>Properties\<close>

text \<open>
  A SUBSCRIBE survives the wire: for well-formed filters with QoS bytes, a packet the size
  check lets through stays inside its buffer and the server side reads back the packet
  identifier and every filter with its QoS, in order, into arrays with room for them.
\<close>
theorem subscribe_roundtrip:
  assumes ok: "\<forall>(t, q) \<in> set items. str_ok t \<and> length (str_bytes t) < 65536 \<and> 0 \<le> q \<and> q < 256"
    and n: "2 + length (enc_filters items) < 268435456" and d: "dup \<le> 1"
    and fit: "MQTTPacket_len (int (2 + length (enc_filters items))) \<le> int (length buf)"
    and room: "length items \<le> length (sub_topicFilters out)" "length items \<le> length (sub_requestedQoSs out)"
  shows "\<exists>k buf' out'. MQTTSerialize_subscribe buf (int (length buf)) dup packetid (int (length items))
        (map fst items) (map snd items) = Some (int k, buf') \<and>
      k \<le> length buf \<and> length buf' = length buf \<and> drop k buf' = drop k buf \<and>
      MQTTDeserialize_subscribe out maxcount buf' (int k) = Some (1, out') \<and>
      sub_dup out' = dup \<and> sub_packetid out' = packetid \<and> sub_count out' = length items \<and>
      map str_bytes (take (length items) (sub_topicFilters out')) = map (\<lambda>(t, q). str_bytes t) items \<and>
      take (length items) (sub_requestedQoSs out') = map snd items"
proof -
  let ?e = "enc_subscribe (ucast dup) packetid items"
  have 1: "\<forall>(t, q) \<in> set items. str_ok t"
    and 2: "\<forall>(t, q) \<in> set items. length (str_bytes t) < 65536 \<and> 0 \<le> q \<and> q < 256"
    using ok by auto
  from MQTTDeserialize_subscribe_holds [OF holds_app n 2 room, where d = "ucast dup" and packetid = packetid
      and ys1 = "drop (length ?e) buf" and maxcount = maxcount and buflen = "int (length ?e)"]
  show ?thesis
    using MQTTSerialize_subscribe_put [OF 1 n fit, of dup packetid] ucast_bit1 [OF d]
    by (intro exI [of _ "length ?e"] exI [of _ "?e @ drop (length ?e) buf"]) auto
qed

theorem subscribe_roundtrip_witness:
  "\<exists>k buf' out'. MQTTSerialize_subscribe (replicate 12 0) (int (length (replicate 12 (0 :: byte)))) 0 9 (int 1)
        [\<lparr>cstring = Some [116], lenstring = \<lparr>ls_len = 0, ls_data = None\<rparr>\<rparr>] [2] = Some (int k, buf') \<and>
      MQTTDeserialize_subscribe \<lparr>sub_dup = 0, sub_packetid = 0, sub_count = 0,
         sub_topicFilters = [MQTTString_initializer], sub_requestedQoSs = [0]\<rparr> 1 buf' (int k) = Some (1, out') \<and>
      sub_packetid out' = 9 \<and> map str_bytes (take 1 (sub_topicFilters out')) = [[116]]"
  using subscribe_roundtrip [of "[(\<lparr>cstring = Some [116], lenstring = \<lparr>ls_len = 0, ls_data = None\<rparr>\<rparr>, 2)]" 0
      "replicate 12 0" "\<lparr>sub_dup = 0, sub_packetid = 0, sub_count = 0,
         sub_topicFilters = [MQTTString_initializer], sub_requestedQoSs = [0]\<rparr>" 9 1]
  by (auto simp: str_ok_def str_bytes_def MQTTPacket_len_def)

lemma suback_loop_put:
  "drop i qs = rs \<Longrightarrow>
   Option.bind (put xs c) (\<lambda>ptr. suback_loop (length rs) i ptr qs) = put (xs @ map word_of_int rs) c"
proof (induction rs arbitrary: i xs)
  case (Cons q rs)
  then show ?case
    using nth_opt_drop [OF Cons.prems] Cons.IH [of "Suc i" "xs @ [word_of_int q]"] by (simp add: put_simps)
qed simp

definition enc_suback :: "u16 \<Rightarrow> int list \<Rightarrow> byte list" where
  "enc_suback packetid qs =
     header_byte \<lparr>hdr_retain = 0, hdr_qos = 0, hdr_dup = 0, hdr_type = 9\<rparr> #
     enc_len (2 + length qs) @ be16 (unat packetid) @ map word_of_int qs"

lemma MQTTSerialize_suback_put:
  "2 + int (length qs) \<le> buflen \<Longrightarrow> MQTTSerialize_suback buf buflen packetid (int (length qs)) qs =
    map_option (\<lambda>ptr. (int (snd ptr), fst ptr)) (put (enc_suback packetid qs) (buf, 0))"
  using write_rem_len_put [of _ "2 + length qs"] suback_loop_put [of 0 qs qs]
  by (simp add: MQTTSerialize_suback_def put_simps enc_suback_def header_zero_def bind_map_out)

lemma suback_read_loop_holds:
  assumes "holds buf p (map word_of_int qs)" "\<forall>q \<in> set qs. 0 \<le> q \<and> q < 256"
    and "sa_count out + length qs \<le> length (sa_grantedQoSs out)"
    and "int (sa_count out + length qs) \<le> maxcount + 1"
  shows "\<exists>out'. suback_read_loop buf p (p + length qs) maxcount out = Some (1, out') \<and>
    sa_packetid out' = sa_packetid out \<and> sa_count out' = sa_count out + length qs \<and>
    take (sa_count out') (sa_grantedQoSs out') = take (sa_count out) (sa_grantedQoSs out) @ qs"
  using assms
proof (induction qs arbitrary: p out)
  case Nil
  then show ?case
    by (simp add: suback_read_loop.simps [of buf p p])
next
  case (Cons q qs)
  let ?out = "out\<lparr>sa_grantedQoSs := (sa_grantedQoSs out)[sa_count out := q], sa_count := sa_count out + 1\<rparr>"
  have parts: "rd buf p = Some (word_of_int q)" "holds buf (Suc p) (map word_of_int qs)"
    using Cons.prems(1) holds_append [of buf p "[word_of_int q]" "map word_of_int qs"] by (simp_all add: holds_rd)
  have uq: "uint (word_of_int q :: byte) = q"
    using Cons.prems(2) by (simp add: uint_word_of_int)
  have "suback_read_loop buf p (p + length (q # qs)) maxcount out =
      suback_read_loop buf (Suc p) (Suc p + length qs) maxcount ?out"
    using Cons.prems parts(1) uq
    by (simp add: suback_read_loop.simps [of buf p] readChar_def upd_opt_def)
  then show ?case
    using Cons.IH [OF parts(2), of ?out] Cons.prems by (auto simp: take_Suc_update)
qed

text \<open>
  A SUBACK survives the wire when its buffer really has room for the packet (four bytes and
  the codes): the client reads back the packet identifier and all granted QoS, in order.
\<close>
theorem suback_roundtrip:
  assumes qs: "\<forall>q \<in> set qs. 0 \<le> q \<and> q < 256" and n: "length qs < 126"
    and fit: "4 + length qs \<le> length buf"
    and room: "length qs \<le> length (sa_grantedQoSs out)" "int (length qs) \<le> maxcount"
  shows "\<exists>buf' out'. MQTTSerialize_suback buf (int (length buf)) packetid (int (length qs)) qs =
        Some (4 + int (length qs), buf') \<and> length buf' = length buf \<and>
      drop (4 + length qs) buf' = drop (4 + length qs) buf \<and>
      MQTTDeserialize_suback out maxcount buf' (4 + int (length qs)) = Some (1, out') \<and>
      sa_packetid out' = packetid \<and> sa_count out' = length qs \<and> take (length qs) (sa_grantedQoSs out') = qs"
proof -
  let ?e = "enc_suback packetid qs"
  have len: "length ?e = 4 + length qs"
    using n by (simp add: enc_suback_def enc_len_small)
  let ?b = "?e @ drop (4 + length qs) buf"
  have ser: "MQTTSerialize_suback buf (int (length buf)) packetid (int (length qs)) qs =
      Some (4 + int (length qs), ?b)"
    using fit put_0 [of ?e buf] by (simp add: MQTTSerialize_suback_put len)
  have "holds ?b 0 ?e"
    by (rule holds_app)
  then have h: "holds ?b 0 (header_byte \<lparr>hdr_retain = 0, hdr_qos = 0, hdr_dup = 0, hdr_type = 9\<rparr> #
      enc_len (2 + length qs) @ be16 (unat packetid) @ map word_of_int qs)"
    by (simp add: enc_suback_def)
  have n': "2 + length qs < 268435456" and e1: "length (enc_len (2 + length qs)) = 1"
    using n by (simp_all add: enc_len_small)
  note start = packet_open [OF h n', unfolded e1]
  have parts: "holds ?b (1 + 1) (be16 (unat packetid))" "holds ?b (1 + 1 + 2) (map word_of_int qs)"
    using start(3) unfolding holds_append by simp_all
  have id: "unat packetid < 65536"
    using unsigned_less [of packetid, where 'a = nat] by simp
  let ?out = "out\<lparr>sa_packetid := packetid, sa_count := 0\<rparr>"
  have "MQTTDeserialize_suback out maxcount ?b (4 + int (length qs)) =
      suback_read_loop ?b (1 + 1 + 2) (1 + 1 + 2 + length qs) maxcount ?out"
    using start(1,2) readInt_holds [OF parts(1) id] by (simp add: MQTTDeserialize_suback_def nat_add_distrib)
  then show ?thesis
    using suback_read_loop_holds [OF parts(2) qs, of ?out maxcount] room ser len fit by auto
qed

theorem suback_roundtrip_witness:
  "\<exists>buf' out'. MQTTSerialize_suback (replicate 6 0) (int (length (replicate 6 (0 :: byte)))) 3 (int (length [1, 128 :: int])) [1, 128] =
        Some (4 + int (length [1, 128 :: int]), buf') \<and>
      MQTTDeserialize_suback \<lparr>sa_packetid = 0, sa_count = 0, sa_grantedQoSs = [0, 0]\<rparr> 2 buf'
        (4 + int (length [1, 128 :: int])) = Some (1, out') \<and> take 2 (sa_grantedQoSs out') = [1, 128]"
  using suback_roundtrip [of "[1, 128]" "replicate 6 0" "\<lparr>sa_packetid = 0, sa_count = 0, sa_grantedQoSs = [0, 0]\<rparr>" 2 3]
  by (auto simp: numeral_2_eq_2)

text \<open>
  The guard of \<open>MQTTSerialize_suback\<close> is two bytes short: in a buffer with room for the
  codes and two or three bytes more it starts the packet and writes outside the buffer.
\<close>
theorem suback_guard_too_weak:
  assumes "length qs < 126" "2 + length qs \<le> length buf" "length buf < 4 + length qs"
  shows "MQTTSerialize_suback buf (int (length buf)) packetid (int (length qs)) qs = None"
  using assms put_None [of buf 0 "enc_suback packetid qs"]
  by (simp add: MQTTSerialize_suback_put) (simp add: enc_suback_def enc_len_small)

theorem suback_guard_too_weak_witness:
  "MQTTSerialize_suback [0, 0, 0] (int (length [0, 0, 0 :: byte])) 7 (int (length [1 :: int])) [1] = None"
  using suback_guard_too_weak [of "[1]" "[0, 0, 0]" 7] by simp

text \<open>
  The client's check of \<open>maxcount\<close> comes one code late: a SUBACK with one code more than the
  array has room for is not refused, the code is stored outside the array.
\<close>
theorem suback_maxcount_off_by_one:
  assumes "length buf = 5 + length (sa_grantedQoSs out)" "length (sa_grantedQoSs out) < 125"
    and "hdr_type (header_bits (buf ! 0)) = 9" "buf ! 1 = word_of_nat (3 + length (sa_grantedQoSs out))"
  shows "MQTTDeserialize_suback out (int (length (sa_grantedQoSs out))) buf (int (length buf)) = None"
proof -
  let ?m = "length (sa_grantedQoSs out)"
  have e: "enc_len (3 + ?m) = [buf ! 1]"
    using assms(2,4) by (simp add: enc_len_small)
  have "holds buf 1 (enc_len (3 + ?m))"
    using assms(1) by (simp add: e holds_rd rd_def)
  then have dec: "MQTTPacket_decodeBuf buf 1 = Some (1, 3 + int ?m)"
    using decodeBuf_holds [of buf 1 "3 + ?m"] assms(2) e by simp
  have loop: "suback_read_loop buf p (5 + ?m) (int ?m) o' = None"
    if "p + length (sa_grantedQoSs o') + 1 = 5 + ?m + sa_count o'" "sa_count o' \<le> length (sa_grantedQoSs o')"
      "length (sa_grantedQoSs o') = ?m" for p o'
    using that
  proof (induction "?m - sa_count o'" arbitrary: p o')
    case 0
    then show ?case
      by (subst suback_read_loop.simps) (auto simp: upd_opt_def bind_eq_None_conv)
  next
    case (Suc d)
    have "suback_read_loop buf (p + 1) (5 + ?m) (int ?m)
        (o'\<lparr>sa_grantedQoSs := (sa_grantedQoSs o')[sa_count o' := x], sa_count := sa_count o' + 1\<rparr>) = None" for x
      using Suc.prems Suc.hyps(2) by (intro Suc.hyps(1)) auto
    then show ?case
      using Suc.prems Suc.hyps(2)
      by (subst suback_read_loop.simps)
        (cases "readChar buf p"; auto simp: upd_opt_def dest!: readChar_advances)
  qed
  have c: "readChar buf 0 = Some (buf ! 0, 1)"
    and i: "readInt buf (1 + 1) = Some (256 * uint (buf ! 2) + uint (buf ! 3), 4)"
    using assms(1) by (simp_all add: readChar_def readInt_def rd_def numeral_2_eq_2 numeral_3_eq_3)
  have e: "1 + 1 + nat (3 + int ?m) = 5 + ?m"
    by simp
  have "MQTTDeserialize_suback out (int ?m) buf (int (length buf)) =
      suback_read_loop buf 4 (5 + ?m) (int ?m)
        (out\<lparr>sa_packetid := word_of_int (256 * uint (buf ! 2) + uint (buf ! 3)), sa_count := 0\<rparr>)"
    unfolding MQTTDeserialize_suback_def c dec bind.bind_lunit prod.case Let_def i e using assms(3) by simp
  also have "\<dots> = None"
    by (rule loop) simp_all
  finally show ?thesis .
qed

theorem suback_maxcount_off_by_one_witness:
  "MQTTDeserialize_suback \<lparr>sa_packetid = 0, sa_count = 0, sa_grantedQoSs = [0]\<rparr> (int (length [0 :: int]))
     [0x90, 4, 0, 1, 0, 1] (int (length [0x90, 4, 0, 1, 0, 1 :: byte])) = None"
  using suback_maxcount_off_by_one [of "[0x90, 4, 0, 1, 0, 1]" "\<lparr>sa_packetid = 0, sa_count = 0, sa_grantedQoSs = [0]\<rparr>"]
  by (simp add: header_bits_def)

text \<open>
  C23: \<open>MQTTDeserialize_unsuback\<close> does not check the packet type: a complete acknowledgement of
  any type is reported as a success (1), with its packet identifier.
\<close>
theorem unsuback_accepts_any_ack:
  assumes "holds buf 0 (enc_ack ty q d packetid)"
  shows "MQTTDeserialize_unsuback out buf buflen = Some (1, packetid)"
  using MQTTDeserialize_ack_holds [OF assms] by (simp add: MQTTDeserialize_unsuback_def Let_def)

theorem unsuback_accepts_any_ack_witness:
  "MQTTDeserialize_unsuback 0 [0x40, 2, 1, 2] 4 = Some (1, 258)"
  by (rule unsuback_accepts_any_ack [of _ 4 0 0])
    (simp add: enc_ack_def header_byte_def enc_len_small be16_def holds_def)

end
