(* ===== verification/Mqtt_Connect.thy ===== *)
theory Mqtt_Connect
  imports Mqtt_Publish
begin

text \<open>
  \<open>lib/MQTT/MQTTPacket/MQTTConnectClient.c\<close> and \<open>MQTTConnectServer.c\<close>: CONNECT, CONNACK and the
  packets without a body.
\<close>

section \<open>Flags and options\<close>

record MQTTConnectFlags =
  cf_unused :: "1 word"
  cf_cleansession :: "1 word"
  cf_will :: "1 word"
  cf_willQoS :: "2 word"
  cf_willRetain :: "1 word"
  cf_password :: "1 word"
  cf_username :: "1 word"

definition connect_flags_all :: "MQTTConnectFlags \<Rightarrow> byte" where
  "connect_flags_all f = ucast (cf_unused f) OR push_bit 1 (ucast (cf_cleansession f)) OR
     push_bit 2 (ucast (cf_will f)) OR push_bit 3 (ucast (cf_willQoS f)) OR
     push_bit 5 (ucast (cf_willRetain f)) OR push_bit 6 (ucast (cf_password f)) OR
     push_bit 7 (ucast (cf_username f))"

definition connect_flags_bits :: "byte \<Rightarrow> MQTTConnectFlags" where
  "connect_flags_bits b = \<lparr>cf_unused = ucast b, cf_cleansession = ucast (drop_bit 1 b),
     cf_will = ucast (drop_bit 2 b), cf_willQoS = ucast (drop_bit 3 b), cf_willRetain = ucast (drop_bit 5 b),
     cf_password = ucast (drop_bit 6 b), cf_username = ucast (drop_bit 7 b)\<rparr>"

lemma connect_flags_bits_all [simp]: "connect_flags_bits (connect_flags_all f) = f"
proof -
  have "ucast (connect_flags_all f) = cf_unused f"
    "ucast (drop_bit 1 (connect_flags_all f)) = cf_cleansession f"
    "ucast (drop_bit 2 (connect_flags_all f)) = cf_will f"
    "ucast (drop_bit 3 (connect_flags_all f)) = cf_willQoS f"
    "ucast (drop_bit 5 (connect_flags_all f)) = cf_willRetain f"
    "ucast (drop_bit 6 (connect_flags_all f)) = cf_password f"
    "ucast (drop_bit 7 (connect_flags_all f)) = cf_username f"
    by (rule bit_word_eqI, auto simp: connect_flags_all_def bit_simps dest: bit_imp_le_length)+
  then show ?thesis
    by (simp add: connect_flags_bits_def)
qed

record MQTTPacket_willOptions =
  will_struct_id :: "byte list"
  will_struct_version :: int
  will_topicName :: MQTTString
  will_message :: MQTTString
  will_retained :: byte
  will_qos :: byte

record MQTTPacket_connectData =
  cd_struct_id :: "byte list"
  cd_struct_version :: int
  cd_MQTTVersion :: byte
  cd_clientID :: MQTTString
  cd_keepAliveInterval :: u16
  cd_cleansession :: byte
  cd_willFlag :: byte
  cd_will :: MQTTPacket_willOptions
  cd_username :: MQTTString
  cd_password :: MQTTString

definition MQTTPacket_connectData_initializer :: MQTTPacket_connectData where
  "MQTTPacket_connectData_initializer =
     \<lparr>cd_struct_id = [0x4D, 0x51, 0x54, 0x43], cd_struct_version = 0, cd_MQTTVersion = 4,
      cd_clientID = MQTTString_initializer, cd_keepAliveInterval = 60, cd_cleansession = 1, cd_willFlag = 0,
      cd_will = \<lparr>will_struct_id = [0x4D, 0x51, 0x54, 0x57], will_struct_version = 0,
        will_topicName = MQTTString_initializer, will_message = MQTTString_initializer,
        will_retained = 0, will_qos = 0\<rparr>,
      cd_username = MQTTString_initializer, cd_password = MQTTString_initializer\<rparr>"

text \<open>\<open>s.cstring || s.lenstring.data\<close>.\<close>

definition str_present :: "MQTTString \<Rightarrow> bool" where
  "str_present m \<longleftrightarrow> cstring m \<noteq> None \<or> ls_data (lenstring m) \<noteq> None"

section \<open>The client side\<close>

definition MQTTSerialize_connectLength :: "MQTTPacket_connectData \<Rightarrow> int" where
  "MQTTSerialize_connectLength options =
     (let len = (if cd_MQTTVersion options = 3 then 12 else if cd_MQTTVersion options = 4 then 10 else 0);
          len = len + (MQTTstrlen (cd_clientID options) + 2);
          len = (if cd_willFlag options \<noteq> 0 then
              len + (MQTTstrlen (will_topicName (cd_will options)) + 2 +
                (MQTTstrlen (will_message (cd_will options)) + 2)) else len);
          len = (if str_present (cd_username options) then len + (MQTTstrlen (cd_username options) + 2) else len);
          len = (if str_present (cd_password options) then len + (MQTTstrlen (cd_password options) + 2) else len)
      in len)"

definition MQTT_name :: "byte list" where "MQTT_name = [0x4D, 0x51, 0x54, 0x54]"
definition MQIsdp_name :: "byte list" where "MQIsdp_name = [0x4D, 0x51, 0x49, 0x73, 0x64, 0x70]"

definition connect_flags_of :: "MQTTPacket_connectData \<Rightarrow> MQTTConnectFlags" where
  "connect_flags_of options =
     (let flags = \<lparr>cf_unused = 0, cf_cleansession = ucast (cd_cleansession options),
            cf_will = (if cd_willFlag options \<noteq> 0 then 1 else 0), cf_willQoS = 0, cf_willRetain = 0,
            cf_password = 0, cf_username = 0\<rparr>;
          flags = (if cf_will flags \<noteq> 0 then flags\<lparr>cf_willQoS := ucast (will_qos (cd_will options)),
            cf_willRetain := ucast (will_retained (cd_will options))\<rparr> else flags);
          flags = (if str_present (cd_username options) then flags\<lparr>cf_username := 1\<rparr> else flags);
          flags = (if str_present (cd_password options) then flags\<lparr>cf_password := 1\<rparr> else flags)
      in flags)"

definition MQTTSerialize_connect :: "byte list \<Rightarrow> int \<Rightarrow> MQTTPacket_connectData \<Rightarrow> (int \<times> byte list) option" where
  "MQTTSerialize_connect buf buflen options =
     (let len = MQTTSerialize_connectLength options in
      if MQTTPacket_len len > buflen then Some (MQTTPACKET_BUFFER_TOO_SHORT, buf)
      else do {
        let header = header_zero\<lparr>hdr_type := ucast (msg_code CONNECT)\<rparr>;
        ptr \<leftarrow> writeChar (buf, 0) (header_byte header);
        ptr \<leftarrow> write_rem_len ptr len;
        ptr \<leftarrow> (if cd_MQTTVersion options = 4
          then do { ptr \<leftarrow> writeCString ptr MQTT_name; writeChar ptr 4 }
          else do { ptr \<leftarrow> writeCString ptr MQIsdp_name; writeChar ptr 3 });
        let flags = connect_flags_of options;
        ptr \<leftarrow> writeChar ptr (connect_flags_all flags);
        ptr \<leftarrow> writeInt ptr (uint (cd_keepAliveInterval options));
        ptr \<leftarrow> writeMQTTString ptr (cd_clientID options);
        ptr \<leftarrow> (if cd_willFlag options \<noteq> 0 then do {
            ptr \<leftarrow> writeMQTTString ptr (will_topicName (cd_will options));
            writeMQTTString ptr (will_message (cd_will options))
          } else Some ptr);
        ptr \<leftarrow> (if cf_username flags \<noteq> 0 then writeMQTTString ptr (cd_username options) else Some ptr);
        ptr \<leftarrow> (if cf_password flags \<noteq> 0 then writeMQTTString ptr (cd_password options) else Some ptr);
        Some (int (snd ptr), fst ptr)
      })"

record connack_out =
  ca_sessionPresent :: byte
  ca_connack_rc :: byte

definition MQTTDeserialize_connack :: "connack_out \<Rightarrow> byte list \<Rightarrow> int \<Rightarrow> (int \<times> connack_out) option" where
  "MQTTDeserialize_connack out buf buflen = do {
     (b, curdata) \<leftarrow> readChar buf 0;
     if ucast (hdr_type (header_bits b)) \<noteq> msg_code CONNACK then Some (0, out)
     else do {
       (rc, mylen) \<leftarrow> MQTTPacket_decodeBuf buf curdata;
       let curdata = curdata + rc;
       let enddata = curdata + nat mylen;
       if int enddata - int curdata < 2 then Some (int rc, out)
       else do {
         (f, curdata) \<leftarrow> readChar buf curdata;
         let out = out\<lparr>ca_sessionPresent := ucast (ucast f :: 1 word)\<rparr>;
         (c, curdata) \<leftarrow> readChar buf curdata;
         Some (1, out\<lparr>ca_connack_rc := c\<rparr>)
       }
     }
   }"

definition MQTTSerialize_zero :: "byte list \<Rightarrow> int \<Rightarrow> byte \<Rightarrow> (int \<times> byte list) option" where
  "MQTTSerialize_zero buf buflen packettype =
     (if buflen < 2 then Some (MQTTPACKET_BUFFER_TOO_SHORT, buf)
      else do {
        let header = header_zero\<lparr>hdr_type := ucast packettype\<rparr>;
        ptr \<leftarrow> writeChar (buf, 0) (header_byte header);
        ptr \<leftarrow> write_rem_len ptr 0;
        Some (int (snd ptr), fst ptr)
      })"

definition MQTTSerialize_disconnect :: "byte list \<Rightarrow> int \<Rightarrow> (int \<times> byte list) option" where
  "MQTTSerialize_disconnect buf buflen = MQTTSerialize_zero buf buflen (msg_code DISCONNECT)"

definition MQTTSerialize_pingreq :: "byte list \<Rightarrow> int \<Rightarrow> (int \<times> byte list) option" where
  "MQTTSerialize_pingreq buf buflen = MQTTSerialize_zero buf buflen (msg_code PINGREQ)"

section \<open>The server side\<close>

text \<open>The name that the server compares with for version 3, as it is spelled there.\<close>

definition checked_name3 :: "byte list" where "checked_name3 = [0x4D, 0x51, 0x49, 0x64, 0x73, 0x70]"

text \<open>\<open>memcmp(data, name, min(n, len)) == 0\<close>.\<close>

definition name_matches :: "MQTTString \<Rightarrow> byte list \<Rightarrow> bool option" where
  "name_matches protocol name =
     (let n = nat (min (int (length name)) (ls_len (lenstring protocol))) in do {
        object \<leftarrow> ls_data (lenstring protocol);
        xs \<leftarrow> rd_bytes object n;
        Some (xs = take n name)
      })"

definition MQTTPacket_checkVersion :: "MQTTString \<Rightarrow> int \<Rightarrow> int option" where
  "MQTTPacket_checkVersion protocol version = do {
     three \<leftarrow> (if version = 3 then name_matches protocol checked_name3 else Some False);
     if three then Some 1
     else do {
       four \<leftarrow> (if version = 4 then name_matches protocol MQTT_name else Some False);
       Some (if four then 1 else 0)
     }
   }"

text \<open>The part of \<open>MQTTDeserialize_connect\<close> after a recognized version: flags, keep-alive interval,
  client identifier, will, user name and password.\<close>

definition connect_read_will ::
    "MQTTPacket_connectData \<Rightarrow> MQTTConnectFlags \<Rightarrow> byte list \<Rightarrow> nat \<Rightarrow> nat \<Rightarrow>
     (bool \<times> MQTTPacket_connectData \<times> nat) option" where
  "connect_read_will d flags buf curdata enddata =
     (if cf_will flags \<noteq> 0 then do {
        let d = d\<lparr>cd_willFlag := 1, cd_will := (cd_will d)\<lparr>will_qos := ucast (cf_willQoS flags),
              will_retained := ucast (cf_willRetain flags)\<rparr>\<rparr>;
        (ok, s, curdata) \<leftarrow> readMQTTLenString (will_topicName (cd_will d)) buf curdata enddata;
        let d = d\<lparr>cd_will := (cd_will d)\<lparr>will_topicName := s\<rparr>\<rparr>;
        if \<not> ok then Some (False, d, curdata)
        else do {
          (ok, s, curdata) \<leftarrow> readMQTTLenString (will_message (cd_will d)) buf curdata enddata;
          Some (ok, d\<lparr>cd_will := (cd_will d)\<lparr>will_message := s\<rparr>\<rparr>, curdata)
        }
      } else Some (True, d, curdata))"

definition connect_read_user ::
    "MQTTPacket_connectData \<Rightarrow> MQTTConnectFlags \<Rightarrow> byte list \<Rightarrow> nat \<Rightarrow> nat \<Rightarrow>
     (int \<times> MQTTPacket_connectData) option" where
  "connect_read_user d flags buf curdata enddata =
     (if cf_username flags \<noteq> 0 then
        if int enddata - int curdata < 3 then Some (0, d)
        else do {
          (ok, s, curdata) \<leftarrow> readMQTTLenString (cd_username d) buf curdata enddata;
          let d = d\<lparr>cd_username := s\<rparr>;
          if \<not> ok then Some (0, d)
          else if cf_password flags \<noteq> 0 then
            if int enddata - int curdata < 3 then Some (0, d)
            else do {
              (ok, s, curdata) \<leftarrow> readMQTTLenString (cd_password d) buf curdata enddata;
              Some (if ok then 1 else 0, d\<lparr>cd_password := s\<rparr>)
            }
          else Some (1, d)
        }
      else if cf_password flags \<noteq> 0 then Some (0, d)
      else Some (1, d))"

definition connect_read_options ::
    "MQTTPacket_connectData \<Rightarrow> byte list \<Rightarrow> nat \<Rightarrow> nat \<Rightarrow> (int \<times> MQTTPacket_connectData) option" where
  "connect_read_options d buf curdata enddata = do {
     (f, curdata) \<leftarrow> readChar buf curdata;
     let flags = connect_flags_bits f;
     let d = d\<lparr>cd_cleansession := ucast (cf_cleansession flags)\<rparr>;
     (k, curdata) \<leftarrow> readInt buf curdata;
     let d = d\<lparr>cd_keepAliveInterval := word_of_int k\<rparr>;
     (ok, s, curdata) \<leftarrow> readMQTTLenString (cd_clientID d) buf curdata enddata;
     let d = d\<lparr>cd_clientID := s\<rparr>;
     if \<not> ok then Some (0, d)
     else do {
       (ok, d, curdata) \<leftarrow> connect_read_will d flags buf curdata enddata;
       if \<not> ok then Some (0, d) else connect_read_user d flags buf curdata enddata
     }
   }"

text \<open>\<open>Protocol\<close> is an unset local; it only receives what \<open>readMQTTLenString\<close> stores.\<close>

definition MQTTDeserialize_connect ::
    "MQTTPacket_connectData \<Rightarrow> byte list \<Rightarrow> int \<Rightarrow> (int \<times> MQTTPacket_connectData) option" where
  "MQTTDeserialize_connect d buf len = do {
     let enddata = nat len;
     (b, curdata) \<leftarrow> readChar buf 0;
     if ucast (hdr_type (header_bits b)) \<noteq> msg_code CONNECT then Some (0, d)
     else do {
       (rc, mylen) \<leftarrow> MQTTPacket_decodeBuf buf curdata;
       let curdata = curdata + rc;
       (ok, protocol, curdata) \<leftarrow> readMQTTLenString MQTTString_initializer buf curdata enddata;
       if \<not> ok \<or> int enddata - int curdata < 0 then Some (0, d)
       else do {
         (v, curdata) \<leftarrow> readChar buf curdata;
         known \<leftarrow> MQTTPacket_checkVersion protocol (uint v);
         if known \<noteq> 0 then connect_read_options d buf curdata enddata else Some (0, d)
       }
     }
   }"

definition MQTTSerialize_connack :: "byte list \<Rightarrow> int \<Rightarrow> byte \<Rightarrow> byte \<Rightarrow> (int \<times> byte list) option" where
  "MQTTSerialize_connack buf buflen connack_rc sessionPresent =
     (if buflen < 2 then Some (MQTTPACKET_BUFFER_TOO_SHORT, buf)
      else do {
        let header = header_zero\<lparr>hdr_type := ucast (msg_code CONNACK)\<rparr>;
        ptr \<leftarrow> writeChar (buf, 0) (header_byte header);
        ptr \<leftarrow> write_rem_len ptr 2;
        ptr \<leftarrow> writeChar ptr (ucast (ucast sessionPresent :: 1 word));
        ptr \<leftarrow> writeChar ptr connack_rc;
        Some (int (snd ptr), fst ptr)
      })"

section \<open>What the client writes\<close>

definition connect_body :: "MQTTPacket_connectData \<Rightarrow> byte list" where
  "connect_body d =
     enc_str (if cd_MQTTVersion d = 4 then MQTT_name else MQIsdp_name) @
     [if cd_MQTTVersion d = 4 then 4 else 3, connect_flags_all (connect_flags_of d)] @
     be16 (unat (cd_keepAliveInterval d)) @ enc_str (str_bytes (cd_clientID d)) @
     (if cd_willFlag d \<noteq> 0 then enc_str (str_bytes (will_topicName (cd_will d))) @
        enc_str (str_bytes (will_message (cd_will d))) else []) @
     (if str_present (cd_username d) then enc_str (str_bytes (cd_username d)) else []) @
     (if str_present (cd_password d) then enc_str (str_bytes (cd_password d)) else [])"

definition connect_strings :: "MQTTPacket_connectData \<Rightarrow> MQTTString set" where
  "connect_strings d = {cd_clientID d, will_topicName (cd_will d), will_message (cd_will d), cd_username d, cd_password d}"

definition enc_connect :: "MQTTPacket_connectData \<Rightarrow> byte list" where
  "enc_connect d = header_byte \<lparr>hdr_retain = 0, hdr_qos = 0, hdr_dup = 0, hdr_type = 1\<rparr> #
     enc_len (length (connect_body d)) @ connect_body d"

lemma connect_flags_of_present [simp]:
  "cf_will (connect_flags_of d) \<noteq> 0 \<longleftrightarrow> cd_willFlag d \<noteq> 0"
  "cf_username (connect_flags_of d) \<noteq> 0 \<longleftrightarrow> str_present (cd_username d)"
  "cf_password (connect_flags_of d) \<noteq> 0 \<longleftrightarrow> str_present (cd_password d)"
  "cf_cleansession (connect_flags_of d) = ucast (cd_cleansession d)"
  "cd_willFlag d \<noteq> 0 \<Longrightarrow> cf_willQoS (connect_flags_of d) = ucast (will_qos (cd_will d))"
  "cd_willFlag d \<noteq> 0 \<Longrightarrow> cf_willRetain (connect_flags_of d) = ucast (will_retained (cd_will d))"
  by (auto simp: connect_flags_of_def Let_def)

lemma connect_names [simp]: "length MQTT_name = 4" "length MQIsdp_name = 6"
  by (simp_all add: MQTT_name_def MQIsdp_name_def)

lemma MQTTSerialize_connectLength_body:
  assumes "\<forall>s \<in> connect_strings d. str_ok s" "cd_MQTTVersion d \<in> {3, 4}"
  shows "MQTTSerialize_connectLength d = int (length (connect_body d))"
  using assms by (auto simp: MQTTSerialize_connectLength_def connect_body_def connect_strings_def
      MQTTstrlen_ok Let_def)

lemma MQTTSerialize_connect_put:
  assumes ok: "\<forall>s \<in> connect_strings d. str_ok s" "cd_MQTTVersion d \<in> {3, 4}"
    and n: "length (connect_body d) < 268435456"
    and fit: "MQTTPacket_len (int (length (connect_body d))) \<le> int (length buf)"
  shows "MQTTSerialize_connect buf (int (length buf)) d =
      Some (int (length (enc_connect d)), enc_connect d @ drop (length (enc_connect d)) buf) \<and>
    length (enc_connect d) \<le> length buf"
proof -
  define N where "N = length (connect_body d)"
  have len: "MQTTSerialize_connectLength d = int N"
    using MQTTSerialize_connectLength_body [OF ok] by (simp add: N_def)
  have e: "enc_connect d = header_byte \<lparr>hdr_retain = 0, hdr_qos = 0, hdr_dup = 0, hdr_type = 1\<rparr> #
      enc_len N @ connect_body d"
    by (simp add: enc_connect_def N_def)
  have strings: "str_ok (cd_clientID d)" "str_ok (will_topicName (cd_will d))" "str_ok (will_message (cd_will d))"
    "str_ok (cd_username d)" "str_ok (cd_password d)"
    using ok(1) by (simp_all add: connect_strings_def)
  have "MQTTSerialize_connect buf (int (length buf)) d =
      map_option (\<lambda>ptr. (int (snd ptr), fst ptr)) (put (enc_connect d) (buf, 0))"
    using fit [folded N_def]
    by (cases "cd_MQTTVersion d = 4"; cases "cd_willFlag d = 0"; cases "str_present (cd_username d)";
        cases "str_present (cd_password d)")
      (simp_all add: MQTTSerialize_connect_def len put_simps strings e connect_body_def header_zero_def enc_str_def)
  moreover have "length (enc_connect d) \<le> length buf"
    using MQTTPacket_len_enough [OF n] fit by (simp add: e N_def)
  ultimately show ?thesis
    by (simp add: put_0)
qed

section \<open>What the server reads\<close>

lemma name_matches_read:
  assumes "holds buf p (enc_str s)"
  shows "name_matches (m\<lparr>cstring := None, lenstring := (lenstring m)\<lparr>ls_len := int (length s),
       ls_data := Some (drop (p + 2) buf)\<rparr>\<rparr>) name = Some (take (length name) s = take (length s) name)"
proof -
  have "holds buf (p + 2) s"
    using assms by (simp add: enc_str_def holds_append)
  then have *: "take (length s) (drop (p + 2) buf) = s" "length s \<le> length (drop (p + 2) buf)"
    by (auto simp: holds_def)
  let ?n = "min (length name) (length s)"
  have "take ?n s = take ?n (take (length s) (drop (p + 2) buf))"
    using *(1) by (rule arg_cong [OF sym])
  also have "\<dots> = take ?n (drop (p + 2) buf)"
    by (simp only: take_take min.right_idem)
  finally have "take ?n (drop (p + 2) buf) = take ?n s" ..
  moreover have "take ?n s = take (length name) s" "take ?n name = take (length s) name"
    by (simp_all add: min_def)
  moreover have "nat (min (int (length name)) (int (length s))) = ?n"
    by simp
  moreover have "?n \<le> length (drop (p + 2) buf)"
    using *(2) by linarith
  moreover define x where "x = m\<lparr>cstring := None, lenstring := (lenstring m)\<lparr>ls_len := int (length s),
       ls_data := Some (drop (p + 2) buf)\<rparr>\<rparr>"
  moreover have "ls_data (lenstring x) = Some (drop (p + 2) buf)" "ls_len (lenstring x) = int (length s)"
    by (simp_all add: x_def)
  ultimately have "name_matches x name = Some (take (length name) s = take (length s) name)"
    by (simp only: name_matches_def rd_bytes_def Let_def bind.bind_lunit if_True)
  then show ?thesis
    by (simp only: x_def)
qed

lemma connect_read_will_holds:
  assumes h: "holds buf p (if cf_will fl \<noteq> 0 then enc_str t @ enc_str m else [])"
    and l: "length t < 65536" "length m < 65536"
    and e: "p + length (if cf_will fl \<noteq> 0 then enc_str t @ enc_str m else []) \<le> enddata"
  shows "\<exists>w f. connect_read_will d fl buf p enddata =
      Some (True, d\<lparr>cd_willFlag := f, cd_will := w\<rparr>,
        p + length (if cf_will fl \<noteq> 0 then enc_str t @ enc_str m else [])) \<and>
    (if cf_will fl \<noteq> 0 then f = 1 \<and> str_bytes (will_topicName w) = t \<and> str_bytes (will_message w) = m \<and>
        will_qos w = ucast (cf_willQoS fl) \<and> will_retained w = ucast (cf_willRetain fl)
     else f = cd_willFlag d \<and> w = cd_will d)"
proof (cases "cf_will fl = 0")
  case True
  then show ?thesis
    by (intro exI [of _ "cd_will d"] exI [of _ "cd_willFlag d"]) (simp add: connect_read_will_def)
next
  case False
  then have h': "holds buf p (enc_str t)" "holds buf (p + 2 + length t) (enc_str m)"
    and e': "p + length t + 2 \<le> enddata" "p + 2 + length t + length m + 2 \<le> enddata"
    using h e by (simp_all add: holds_append add.commute add.left_commute)
  obtain s1 where s1: "readMQTTLenString (will_topicName (cd_will d)) buf p enddata = Some (True, s1, p + 2 + length t)"
    "str_bytes s1 = t"
    by (rule readMQTTLenString_ex [OF h'(1) l(1) e'(1)])
  obtain s2 where s2: "readMQTTLenString (will_message (cd_will d)) buf (p + 2 + length t) enddata =
      Some (True, s2, p + 2 + length t + 2 + length m)" "str_bytes s2 = m"
    by (rule readMQTTLenString_ex [OF h'(2) l(2) e'(2)])
  show ?thesis
    using False s1 s2
    by (intro exI [of _ "(cd_will d)\<lparr>will_qos := ucast (cf_willQoS fl), will_retained := ucast (cf_willRetain fl),
        will_topicName := s1, will_message := s2\<rparr>"] exI [of _ 1])
      (simp add: connect_read_will_def)
qed

lemma connect_read_user_holds:
  assumes h: "holds buf p ((if cf_username fl \<noteq> 0 then enc_str u else []) @ (if cf_password fl \<noteq> 0 then enc_str w else []))"
    and l: "length u < 65536" "length w < 65536"
    and e: "enddata = p + length ((if cf_username fl \<noteq> 0 then enc_str u else []) @ (if cf_password fl \<noteq> 0 then enc_str w else []))"
    and q: "cf_password fl \<noteq> 0 \<longrightarrow> cf_username fl \<noteq> 0 \<and> w \<noteq> []"
      "cf_username fl \<noteq> 0 \<longrightarrow> u \<noteq> [] \<or> cf_password fl \<noteq> 0"
  shows "\<exists>u' w'. connect_read_user d fl buf p enddata = Some (1, d\<lparr>cd_username := u', cd_password := w'\<rparr>) \<and>
    (if cf_username fl \<noteq> 0 then str_bytes u' = u else u' = cd_username d) \<and>
    (if cf_password fl \<noteq> 0 then str_bytes w' = w else w' = cd_password d)"
proof (cases "cf_username fl = 0")
  case True
  then show ?thesis
    using q by (intro exI [of _ "cd_username d"] exI [of _ "cd_password d"]) (simp add: connect_read_user_def)
next
  case user: False
  then have h': "holds buf p (enc_str u)" and e': "p + length u + 2 \<le> enddata"
    using h e by (simp_all add: holds_append)
  obtain s1 where s1: "readMQTTLenString (cd_username d) buf p enddata = Some (True, s1, p + 2 + length u)"
    "str_bytes s1 = u"
    by (rule readMQTTLenString_ex [OF h' l(1) e'])
  show ?thesis
  proof (cases "cf_password fl = 0")
    case True
    have "u \<noteq> []"
      using True user q by simp
    then have "\<not> int enddata - int p < 3"
      using True user e by (cases u) simp_all
    then show ?thesis
      using True user s1
      by (intro exI [of _ s1] exI [of _ "cd_password d"]) (simp add: connect_read_user_def)
  next
    case False
    have h2: "holds buf (p + 2 + length u) (enc_str w)"
      using h user False by (simp add: holds_append add.commute add.left_commute)
    have ed: "enddata = p + 2 + length u + 2 + length w"
      using e user False by simp
    then have e2: "p + 2 + length u + length w + 2 \<le> enddata"
      by simp
    obtain s2 where s2: "readMQTTLenString (cd_password d) buf (p + 2 + length u) enddata =
        Some (True, s2, p + 2 + length u + 2 + length w)" "str_bytes s2 = w"
      by (rule readMQTTLenString_ex [OF h2 l(2) e2])
    have "w \<noteq> []"
      using q False by simp
    then have "\<not> int enddata - int p < 3" "\<not> int enddata - int (p + 2 + length u) < 3"
      using ed by (cases w; simp)+
    then show ?thesis
      using False user s1 s2 by (intro exI [of _ s1] exI [of _ s2]) (simp add: connect_read_user_def)
  qed
qed

text \<open>The way to the version byte, for either protocol level.\<close>

lemma MQTTDeserialize_connect_start:
  assumes h: "holds buf 0 (enc_connect d)" and n: "length (connect_body d) < 268435456"
    and len: "len = int (length (enc_connect d))"
  defines "name \<equiv> (if cd_MQTTVersion d = 4 then MQTT_name else MQIsdp_name)"
    and "k \<equiv> 1 + length (enc_len (length (connect_body d)))"
  shows "\<exists>protocol. (\<forall>nm. name_matches protocol nm = Some (take (length nm) name = take (length name) nm)) \<and>
      (\<forall>d0. MQTTDeserialize_connect d0 buf len = do {
        known \<leftarrow> MQTTPacket_checkVersion protocol (if cd_MQTTVersion d = 4 then 4 else 3);
        if known \<noteq> 0 then connect_read_options d0 buf (k + 2 + length name + 1) (length (enc_connect d))
        else Some (0, d0)
      })" (is ?read)
proof -
  define N where "N = length (connect_body d)"
  define E where "E = length (enc_connect d)"
  have k: "k = 1 + length (enc_len N)"
    by (simp add: k_def N_def)
  have h': "holds buf 0 (header_byte \<lparr>hdr_retain = 0, hdr_qos = 0, hdr_dup = 0, hdr_type = 1\<rparr> #
      enc_len N @ connect_body d)"
    using h by (simp add: enc_connect_def N_def)
  note start = packet_open [OF h' n [folded N_def], folded k]
  let ?vb = "if cd_MQTTVersion d = 4 then 4 else 3 :: byte"
  obtain tail where body: "connect_body d = enc_str name @ [?vb] @ tail"
    by (simp add: connect_body_def name_def)
  have parts: "holds buf k (enc_str name)" "holds buf (k + 2 + length name) [?vb]"
    using start(3) unfolding body holds_append length_enc_str by (simp_all only: add.assoc add.commute add.left_commute)
  have v: "readChar buf (k + 2 + length name) = Some (?vb, k + 2 + length name + 1)"
    using parts(2) by (simp add: holds_rd readChar_def)
  have nl: "length name < 65536"
    by (simp add: name_def)
  have end1: "k + length name + 2 \<le> E"
    by (simp add: E_def enc_connect_def body k_def)
  define m where "m = MQTTString_initializer\<lparr>cstring := None, lenstring := (lenstring MQTTString_initializer)\<lparr>
     ls_len := int (length name), ls_data := Some (drop (k + 2) buf)\<rparr>\<rparr>"
  have p: "readMQTTLenString MQTTString_initializer buf k E = Some (True, m, k + 2 + length name)"
    unfolding m_def by (rule readMQTTLenString_holds [OF parts(1) nl end1])
  have nm: "name_matches m nm = Some (take (length nm) name = take (length name) nm)" for nm
    unfolding m_def by (rule name_matches_read [OF parts(1)])
  have nlen: "nat len = E" and uv: "uint ?vb = (if cd_MQTTVersion d = 4 then 4 else 3)"
    and ty: "(ucast (hdr_type (header_bits (header_byte \<lparr>hdr_retain = 0, hdr_qos = 0, hdr_dup = 0,
      hdr_type = 1\<rparr>))) = msg_code CONNECT) = True"
    and room: "(int E - int (k + 2 + length name) < 0) = False"
    using end1 by (simp_all add: len E_def)
  have "MQTTDeserialize_connect d0 buf len = do {
        known \<leftarrow> MQTTPacket_checkVersion m (if cd_MQTTVersion d = 4 then 4 else 3);
        if known \<noteq> 0 then connect_read_options d0 buf (k + 2 + length name + 1) E
        else Some (0, d0) }" for d0
    by (simp only: MQTTDeserialize_connect_def Let_def nlen start(1,2) bind.bind_lunit prod.case ty
        not_True_eq_False if_False k [symmetric] p v room simp_thms uv)
  with nm show ?read
    unfolding E_def [symmetric] by blast
qed

definition connect_options :: "MQTTPacket_connectData \<Rightarrow> byte list" where
  "connect_options d =
     [connect_flags_all (connect_flags_of d)] @ be16 (unat (cd_keepAliveInterval d)) @
     enc_str (str_bytes (cd_clientID d)) @
     (if cd_willFlag d \<noteq> 0 then enc_str (str_bytes (will_topicName (cd_will d))) @
        enc_str (str_bytes (will_message (cd_will d))) else []) @
     (if str_present (cd_username d) then enc_str (str_bytes (cd_username d)) else []) @
     (if str_present (cd_password d) then enc_str (str_bytes (cd_password d)) else [])"

lemma connect_body_options:
  "connect_body d = enc_str (if cd_MQTTVersion d = 4 then MQTT_name else MQIsdp_name) @
     [if cd_MQTTVersion d = 4 then 4 else 3] @ connect_options d"
  by (simp add: connect_body_def connect_options_def)

text \<open>
  What a reader of the options has to get: every field the packet carries, and the old value
  of every field it does not carry.
\<close>

definition connect_same :: "MQTTPacket_connectData \<Rightarrow> MQTTPacket_connectData \<Rightarrow> MQTTPacket_connectData \<Rightarrow> bool" where
  "connect_same d d0 d' \<longleftrightarrow>
     cd_cleansession d' = cd_cleansession d \<and> cd_keepAliveInterval d' = cd_keepAliveInterval d \<and>
     str_bytes (cd_clientID d') = str_bytes (cd_clientID d) \<and>
     (if cd_willFlag d \<noteq> 0
      then cd_willFlag d' = 1 \<and> will_qos (cd_will d') = will_qos (cd_will d) \<and>
        will_retained (cd_will d') = will_retained (cd_will d) \<and>
        str_bytes (will_topicName (cd_will d')) = str_bytes (will_topicName (cd_will d)) \<and>
        str_bytes (will_message (cd_will d')) = str_bytes (will_message (cd_will d))
      else cd_willFlag d' = cd_willFlag d0 \<and> cd_will d' = cd_will d0) \<and>
     (if str_present (cd_username d) then str_bytes (cd_username d') = str_bytes (cd_username d)
      else cd_username d' = cd_username d0) \<and>
     (if str_present (cd_password d) then str_bytes (cd_password d') = str_bytes (cd_password d)
      else cd_password d' = cd_password d0)"

definition connect_ok :: "MQTTPacket_connectData \<Rightarrow> bool" where
  "connect_ok d \<longleftrightarrow>
     (\<forall>s \<in> connect_strings d. str_ok s \<and> length (str_bytes s) < 65536) \<and>
     cd_cleansession d \<le> 1 \<and> will_retained (cd_will d) \<le> 1 \<and> will_qos (cd_will d) < 4 \<and>
     (str_present (cd_password d) \<longrightarrow> str_present (cd_username d) \<and> str_bytes (cd_password d) \<noteq> []) \<and>
     (str_present (cd_username d) \<longrightarrow> str_bytes (cd_username d) \<noteq> [] \<or> str_present (cd_password d))"

lemma ucast_bit2: "(x :: byte) < 4 \<Longrightarrow> ucast (ucast x :: 2 word) = x"
proof -
  assume "x < 4"
  then have "x = 0 \<or> x = 1 \<or> x = 2 \<or> x = 3"
    by (auto simp: word_less_nat_alt word_unat_eq_iff)
  then show ?thesis
    by auto
qed

lemma connect_read_options_holds:
  assumes ok: "connect_ok d" and h: "holds buf q (connect_options d)"
    and e: "enddata = q + length (connect_options d)"
  shows "\<exists>d'. connect_read_options d0 buf q enddata = Some (1, d') \<and> connect_same d d0 d'"
proof -
  let ?fl = "connect_flags_of d" and ?c = "str_bytes (cd_clientID d)"
  let ?t = "str_bytes (will_topicName (cd_will d))" and ?m = "str_bytes (will_message (cd_will d))"
  let ?u = "str_bytes (cd_username d)" and ?w = "str_bytes (cd_password d)"
  define W where "W = (if cf_will ?fl \<noteq> 0 then enc_str ?t @ enc_str ?m else [])"
  define U where "U = (if cf_username ?fl \<noteq> 0 then enc_str ?u else []) @ (if cf_password ?fl \<noteq> 0 then enc_str ?w else [])"
  have body: "connect_options d = [connect_flags_all ?fl] @ be16 (unat (cd_keepAliveInterval d)) @ enc_str ?c @ W @ U"
    by (simp add: connect_options_def W_def U_def)
  have lens: "length ?c < 65536" "length ?t < 65536" "length ?m < 65536" "length ?u < 65536" "length ?w < 65536"
    using ok by (simp_all add: connect_ok_def connect_strings_def)
  define p where "p = q + 1 + 2 + length ?c + 2"
  have parts: "holds buf q [connect_flags_all ?fl]" "holds buf (q + 1) (be16 (unat (cd_keepAliveInterval d)))"
    "holds buf (q + 1 + 2) (enc_str ?c)" "holds buf p W" "holds buf (p + length W) U"
    using h unfolding body holds_append by (simp_all add: p_def add.commute add.left_commute)
  have ed: "enddata = p + length W + length U"
    unfolding e body by (simp add: p_def)
  have f: "readChar buf q = Some (connect_flags_all ?fl, q + 1)"
    using parts(1) by (simp add: holds_rd readChar_def)
  have id: "unat (cd_keepAliveInterval d) < 65536"
    using unsigned_less [of "cd_keepAliveInterval d", where 'a = nat] by simp
  have k: "readInt buf (q + 1) = Some (int (unat (cd_keepAliveInterval d)), q + 1 + 2)"
    using readInt_holds [OF parts(2) id] by simp
  define d1 where "d1 = d0\<lparr>cd_cleansession := ucast (cf_cleansession ?fl), cd_keepAliveInterval := cd_keepAliveInterval d\<rparr>"
  have le1: "q + 1 + 2 + length ?c + 2 \<le> enddata"
    by (simp add: ed p_def)
  obtain s where s: "readMQTTLenString (cd_clientID d1) buf (q + 1 + 2) enddata = Some (True, s, p)" "str_bytes s = ?c"
    using readMQTTLenString_ex [OF parts(3) lens(1) le1, of "cd_clientID d1"] by (auto simp: p_def)
  define d2 where "d2 = d1\<lparr>cd_clientID := s\<rparr>"
  have le2: "p + length W \<le> enddata"
    by (simp add: ed)
  obtain w f' where w: "connect_read_will d2 ?fl buf p enddata = Some (True, d2\<lparr>cd_willFlag := f', cd_will := w\<rparr>, p + length W)"
    and w': "if cf_will ?fl \<noteq> 0 then f' = 1 \<and> str_bytes (will_topicName w) = ?t \<and> str_bytes (will_message w) = ?m \<and>
        will_qos w = ucast (cf_willQoS ?fl) \<and> will_retained w = ucast (cf_willRetain ?fl)
      else f' = cd_willFlag d2 \<and> w = cd_will d2"
    using connect_read_will_holds [OF parts(4) [unfolded W_def] lens(2,3) le2 [unfolded W_def], of d2, folded W_def] by blast
  have q: "cf_password ?fl \<noteq> 0 \<longrightarrow> cf_username ?fl \<noteq> 0 \<and> ?w \<noteq> []"
    "cf_username ?fl \<noteq> 0 \<longrightarrow> ?u \<noteq> [] \<or> cf_password ?fl \<noteq> 0"
    using ok by (auto simp: connect_ok_def)
  define d3 where "d3 = d2\<lparr>cd_willFlag := f', cd_will := w\<rparr>"
  obtain u' w'' where u: "connect_read_user d3 ?fl buf (p + length W) enddata = Some (1, d3\<lparr>cd_username := u', cd_password := w''\<rparr>)"
    and u': "if cf_username ?fl \<noteq> 0 then str_bytes u' = ?u else u' = cd_username d3"
      "if cf_password ?fl \<noteq> 0 then str_bytes w'' = ?w else w'' = cd_password d3"
    using connect_read_user_holds [OF parts(5) [unfolded U_def] lens(4,5) ed [unfolded U_def] q, of d3] by blast
  have "connect_read_options d0 buf q enddata = Some (1, d3\<lparr>cd_username := u', cd_password := w''\<rparr>)"
    using u w s(1) f k by (simp add: connect_read_options_def d1_def d2_def d3_def)
  moreover have "connect_same d d0 (d3\<lparr>cd_username := u', cd_password := w''\<rparr>)"
    using w' u' s(2) ok ucast_bit1 ucast_bit2
    by (auto simp: connect_same_def d1_def d2_def d3_def connect_ok_def split: if_splits)
  ultimately show ?thesis
    by blast
qed

section \<open>Properties\<close>

text \<open>
  C32: an MQTT 3.1.1 CONNECT survives the wire: for well-formed options that the protocol
  allows (a password only with a user name, no empty last field) and a buffer the size check
  accepts, the client stays inside its buffer, and the server accepts the packet and recovers
  the session flag, the keep-alive interval, the client identifier, the will and the
  credentials, leaving alone what the packet does not carry.
\<close>
theorem connect_roundtrip:
  assumes ok: "connect_ok d" "cd_MQTTVersion d = 4"
    and n: "MQTTSerialize_connectLength d < 268435456"
    and fit: "MQTTPacket_len (MQTTSerialize_connectLength d) \<le> int (length buf)"
  shows "\<exists>k buf' d'. MQTTSerialize_connect buf (int (length buf)) d = Some (int k, buf') \<and>
      k \<le> length buf \<and> length buf' = length buf \<and> drop k buf' = drop k buf \<and>
      MQTTDeserialize_connect d0 buf' (int k) = Some (1, d') \<and> connect_same d d0 d'"
proof -
  let ?e = "enc_connect d"
  have strs: "\<forall>s \<in> connect_strings d. str_ok s" and ver: "cd_MQTTVersion d \<in> {3, 4}"
    using ok by (auto simp: connect_ok_def)
  have len: "MQTTSerialize_connectLength d = int (length (connect_body d))"
    by (rule MQTTSerialize_connectLength_body [OF strs ver])
  have n': "length (connect_body d) < 268435456" and fit': "MQTTPacket_len (int (length (connect_body d))) \<le> int (length buf)"
    using n fit by (simp_all add: len)
  note ser = MQTTSerialize_connect_put [OF strs ver n' fit']
  let ?b = "?e @ drop (length ?e) buf" and ?k = "1 + length (enc_len (length (connect_body d)))"
  obtain protocol where pr: "\<forall>nm. name_matches protocol nm = Some (take (length nm) MQTT_name = take 4 nm)"
    "MQTTDeserialize_connect d0 ?b (int (length ?e)) = do {
        known \<leftarrow> MQTTPacket_checkVersion protocol 4;
        if known \<noteq> 0 then connect_read_options d0 ?b (?k + 2 + 4 + 1) (length ?e) else Some (0, d0) }"
    using MQTTDeserialize_connect_start [OF holds_app n' refl, of "drop (length ?e) buf",
        unfolded ok(2) simp_thms if_True connect_names] by blast
  have "MQTTPacket_checkVersion protocol 4 = Some 1"
    using pr(1) by (simp add: MQTTPacket_checkVersion_def)
  then have de: "MQTTDeserialize_connect d0 ?b (int (length ?e)) = connect_read_options d0 ?b (?k + 2 + 4 + 1) (length ?e)"
    using pr(2) by simp
  have "holds ?b 0 (([header_byte \<lparr>hdr_retain = 0, hdr_qos = 0, hdr_dup = 0, hdr_type = 1\<rparr>] @
      enc_len (length (connect_body d)) @ enc_str MQTT_name @ [4]) @ connect_options d)"
    using holds_app [of ?e "drop (length ?e) buf"] ok(2) by (simp add: enc_connect_def connect_body_options)
  then have "holds ?b (?k + 2 + 4 + 1) (connect_options d)"
    by (subst (asm) holds_append) (simp add: add.commute add.left_commute)
  moreover have "length ?e = ?k + 2 + 4 + 1 + length (connect_options d)"
    using ok(2) by (simp add: enc_connect_def connect_body_options)
  ultimately obtain d' where "connect_read_options d0 ?b (?k + 2 + 4 + 1) (length ?e) = Some (1, d')"
      "connect_same d d0 d'"
    using connect_read_options_holds [OF ok(1)] by blast
  with ser de show ?thesis
    by (intro exI [of _ "length ?e"] exI [of _ ?b] exI [of _ d']) simp
qed

definition sample_connect :: "byte \<Rightarrow> MQTTPacket_connectData" where
  "sample_connect v = MQTTPacket_connectData_initializer\<lparr>cd_MQTTVersion := v,
     cd_clientID := \<lparr>cstring = Some [99], lenstring = \<lparr>ls_len = 0, ls_data = None\<rparr>\<rparr>,
     cd_username := \<lparr>cstring = Some [117], lenstring = \<lparr>ls_len = 0, ls_data = None\<rparr>\<rparr>\<rparr>"

lemma sample_connect_ok:
  "connect_ok (sample_connect v)" "MQTTSerialize_connectLength (sample_connect 4) = 16"
  "MQTTSerialize_connectLength (sample_connect 3) = 18" "cd_MQTTVersion (sample_connect v) = v"
  by (simp_all add: sample_connect_def connect_ok_def connect_strings_def str_ok_def str_bytes_def str_present_def
      MQTTPacket_connectData_initializer_def MQTTString_initializer_def MQTTSerialize_connectLength_def MQTTstrlen_def)

theorem connect_roundtrip_witness:
  "\<exists>k buf' d'. MQTTSerialize_connect (replicate 32 0) (int (length (replicate 32 (0 :: byte)))) (sample_connect 4) = Some (int k, buf') \<and>
     MQTTDeserialize_connect MQTTPacket_connectData_initializer buf' (int k) = Some (1, d') \<and>
     connect_same (sample_connect 4) MQTTPacket_connectData_initializer d'"
  using connect_roundtrip [OF sample_connect_ok(1), of 4 "replicate 32 0" MQTTPacket_connectData_initializer]
  by (auto simp: sample_connect_ok MQTTPacket_len_def)

text \<open>
  The two sides disagree on MQTT 3.1: every MQTT 3.1 CONNECT that the client writes, whatever
  the options, is rejected by the server with nothing read, because the server compares the
  protocol name with a misspelt one.
\<close>
theorem connect_v31_never_accepted:
  assumes "\<forall>s \<in> connect_strings d. str_ok s" "cd_MQTTVersion d = 3"
    and "MQTTSerialize_connectLength d < 268435456"
    and "MQTTPacket_len (MQTTSerialize_connectLength d) \<le> int (length buf)"
  shows "\<exists>k buf'. MQTTSerialize_connect buf (int (length buf)) d = Some (int k, buf') \<and> 0 < k \<and>
      MQTTDeserialize_connect d0 buf' (int k) = Some (0, d0)"
proof -
  let ?e = "enc_connect d"
  have ver: "cd_MQTTVersion d \<in> {3, 4}"
    using assms(2) by simp
  have len: "MQTTSerialize_connectLength d = int (length (connect_body d))"
    by (rule MQTTSerialize_connectLength_body [OF assms(1) ver])
  have n': "length (connect_body d) < 268435456" and fit': "MQTTPacket_len (int (length (connect_body d))) \<le> int (length buf)"
    using assms(3,4) by (simp_all add: len)
  let ?b = "?e @ drop (length ?e) buf"
  have v: "(if cd_MQTTVersion d = 4 then x else y) = y" for x y :: 'z
    using assms(2) by simp
  obtain protocol where pr: "\<forall>nm. name_matches protocol nm = Some (take (length nm) MQIsdp_name = take 6 nm)"
    "MQTTDeserialize_connect d0 ?b (int (length ?e)) = do {
        known \<leftarrow> MQTTPacket_checkVersion protocol 3;
        if known \<noteq> 0 then connect_read_options d0 ?b (1 + length (enc_len (length (connect_body d))) + 2 + 6 + 1) (length ?e)
        else Some (0, d0) }"
    using MQTTDeserialize_connect_start [OF holds_app n' refl, of "drop (length ?e) buf",
        unfolded v connect_names] by blast
  have "MQTTPacket_checkVersion protocol 3 = Some 0"
    using pr(1) by (simp add: MQTTPacket_checkVersion_def checked_name3_def MQIsdp_name_def)
  then have "MQTTDeserialize_connect d0 ?b (int (length ?e)) = Some (0, d0)"
    using pr(2) by simp
  with MQTTSerialize_connect_put [OF assms(1) ver n' fit'] show ?thesis
    by (intro exI [of _ "length ?e"] exI [of _ ?b]) (simp add: enc_connect_def)
qed

theorem connect_v31_never_accepted_witness:
  "\<exists>k buf'. MQTTSerialize_connect (replicate 32 0) (int (length (replicate 32 (0 :: byte)))) (sample_connect 3) = Some (int k, buf') \<and>
     MQTTDeserialize_connect MQTTPacket_connectData_initializer buf' (int k) = Some (0, MQTTPacket_connectData_initializer)"
  using connect_v31_never_accepted [of "sample_connect 3" "replicate 32 0" MQTTPacket_connectData_initializer]
    sample_connect_ok(1) [of 3]
  by (auto simp: sample_connect_ok connect_ok_def MQTTPacket_len_def)

text \<open>
  CONNACK: in a buffer of at least four bytes the packet is written and read back with its
  return code and session flag; in a buffer of two or three bytes the guard of the serializer
  lets it write outside the buffer.
\<close>
theorem connack_roundtrip_or_overflow:
  assumes "2 \<le> length buf" "present \<le> 1"
  shows "if length buf < 4 then MQTTSerialize_connack buf (int (length buf)) code present = None
    else \<exists>buf'. MQTTSerialize_connack buf (int (length buf)) code present = Some (4, buf') \<and>
      drop 4 buf' = drop 4 buf \<and>
      MQTTDeserialize_connack out buf' 4 = Some (1, \<lparr>ca_sessionPresent = present, ca_connack_rc = code\<rparr>)"
proof -
  let ?h = "header_byte \<lparr>hdr_retain = 0, hdr_qos = 0, hdr_dup = 0, hdr_type = 2\<rparr>"
  let ?e = "?h # enc_len 2 @ [present, code]"
  have put: "MQTTSerialize_connack buf (int (length buf)) code present =
      map_option (\<lambda>ptr. (int (snd ptr), fst ptr)) (put ?e (buf, 0))"
    using assms(1) write_rem_len_put [of _ 2]
    by (simp add: MQTTSerialize_connack_def put_simps header_zero_def ucast_bit1 [OF assms(2)])
  show ?thesis
  proof (cases "length buf < 4")
    case True
    then show ?thesis
      by (simp add: put put_None enc_len_small)
  next
    case False
    let ?b = "?e @ drop 4 buf"
    have h: "holds ?b 0 (?h # enc_len 2 @ [present, code])"
      by (rule holds_app)
    note start = packet_open [OF h, simplified]
    have dec: "MQTTPacket_decodeBuf (?h # 2 # present # code # drop 4 buf) (Suc 0) = Some (Suc 0, 2)"
      using start(2) by (simp add: enc_len_small)
    have "MQTTDeserialize_connack out ?b 4 = Some (1, \<lparr>ca_sessionPresent = present, ca_connack_rc = code\<rparr>)"
      using ucast_bit1 [OF assms(2)]
      by (cases out) (simp add: MQTTDeserialize_connack_def dec enc_len_small readChar_def rd_def)
    moreover have len: "length ?e = 4"
      by (simp add: enc_len_small)
    have "put ?e (buf, 0) = Some (?b, 4)"
      by (rule put_0 [of ?e buf, unfolded len]) (use False in simp)
    ultimately show ?thesis
      using False len unfolding put by simp
  qed
qed

theorem connack_roundtrip_or_overflow_witness:
  "MQTTSerialize_connack [0, 0, 0] (int (length [0, 0, 0 :: byte])) 0 1 = None \<and>
   MQTTSerialize_connack [0, 0, 0, 0] 4 5 1 = Some (4, [0x20, 2, 1, 5])"
proof
  show "MQTTSerialize_connack [0, 0, 0] (int (length [0, 0, 0 :: byte])) 0 1 = None"
    using connack_roundtrip_or_overflow [of "[0, 0, 0]" 1 0] by simp
qed code_simp

end
