(* ===== verification/Mqtt_Client.thy ===== *)
theory Mqtt_Client
  imports Mqtt_Read Mqtt_Publish Mqtt_Subscribe Mqtt_Connect
begin

text \<open>
  \<open>lib/MQTT/MQTTClient.h\<close>, instantiated as the application does it
  (\<open>MQTT::Client<MQTTNetwork, Countdown>\<close>, packets of 500 bytes, ten handlers), with
  \<open>MQTTmbed.h\<close> (the countdown timers) and \<open>FP/FP.h\<close> (one optional function pointer). The
  switches have their defaults: \<open>MQTTCLIENT_QOS1\<close> on, \<open>MQTTCLIENT_QOS2\<close> off.

  The network, the clock and the message handlers are parameters: a state \<open>'w\<close> of the
  platform and the functions on it in \<open>mqtt_env\<close>. An operation takes the client and the
  platform and returns its C result with both; \<open>None\<close> is undefined behaviour or a loop that
  does not end. A message handler does not call the client it is called from.
\<close>

section \<open>The platform and the timers\<close>

record ('h, 'w) mqtt_env =
  ipstack_read :: "'w \<Rightarrow> int \<Rightarrow> int \<Rightarrow> int \<times> byte list \<times> 'w"
  ipstack_write :: "'w \<Rightarrow> byte list \<Rightarrow> int \<Rightarrow> int \<times> 'w"
  clock_ms :: "'w \<Rightarrow> nat"
  run_handler :: "'h \<Rightarrow> MQTTString \<Rightarrow> publish_out \<Rightarrow> 'w \<Rightarrow> 'w"

text \<open>A timer that was never started reads 0.\<close>

record Countdown =
  cd_start :: "nat option"
  interval_end_ms :: u32

definition read_ms :: "('h, 'w) mqtt_env \<Rightarrow> 'w \<Rightarrow> Countdown \<Rightarrow> u32" where
  "read_ms env w t = (case cd_start t of None \<Rightarrow> 0 | Some s \<Rightarrow> word_of_nat (clock_ms env w - s))"

definition expired :: "('h, 'w) mqtt_env \<Rightarrow> 'w \<Rightarrow> Countdown \<Rightarrow> bool" where
  "expired env w t \<longleftrightarrow> read_ms env w t \<ge> interval_end_ms t"

definition countdown_ms :: "('h, 'w) mqtt_env \<Rightarrow> 'w \<Rightarrow> u32 \<Rightarrow> Countdown" where
  "countdown_ms env w ms = \<lparr>cd_start = Some (clock_ms env w), interval_end_ms = ms\<rparr>"

definition countdown :: "('h, 'w) mqtt_env \<Rightarrow> 'w \<Rightarrow> u32 \<Rightarrow> Countdown" where
  "countdown env w seconds = countdown_ms env w (seconds * 1000)"

definition left_ms :: "('h, 'w) mqtt_env \<Rightarrow> 'w \<Rightarrow> Countdown \<Rightarrow> int" where
  "left_ms env w t = sint (interval_end_ms t - read_ms env w t)"

section \<open>The client\<close>

definition BUFFER_OVERFLOW :: int where "BUFFER_OVERFLOW = -2"
definition FAILURE :: int where "FAILURE = -1"
definition SUCCESS :: int where "SUCCESS = 0"

lemmas return_codes = BUFFER_OVERFLOW_def FAILURE_def SUCCESS_def

definition MAX_MQTT_PACKET_SIZE :: int where "MAX_MQTT_PACKET_SIZE = 500"
definition MAX_MESSAGE_HANDLERS :: nat where "MAX_MESSAGE_HANDLERS = 10"
definition MAX_PACKET_ID :: int where "MAX_PACKET_ID = 65535"

definition msg_int :: "msgTypes \<Rightarrow> int" where
  "msg_int t = uint (msg_code t)"

record 'h MessageHandlers =
  topicFilter :: "byte list option"
  fp :: "'h option"

record 'h Client =
  command_timeout_ms :: u32
  sendbuf :: "byte list"
  readbuf :: "byte list"
  last_sent :: Countdown
  last_received :: Countdown
  ping_sent :: Countdown
  keepAliveInterval :: u32
  ping_outstanding :: bool
  cleansession :: bool
  packetid :: int
  messageHandlers :: "'h MessageHandlers list"
  defaultMessageHandler :: "'h option"
  isconnected :: bool
  pubbuf :: "byte list"
  inflightLen :: int
  inflightMsgid :: u16
  inflightQoS :: int

text \<open>\<open>ping_sent\<close> is a static variable of \<open>keepalive\<close>; there is one client at a time.\<close>

definition getNext :: "'h Client \<Rightarrow> int \<times> 'h Client" where
  "getNext c =
     (let next = (if packetid c = MAX_PACKET_ID then 1 else packetid c + 1) in (next, c\<lparr>packetid := next\<rparr>))"

definition cleanSession :: "'h Client \<Rightarrow> 'h Client" where
  "cleanSession c =
     c\<lparr>messageHandlers := map (\<lambda>m. m\<lparr>topicFilter := None\<rparr>) (messageHandlers c),
       inflightMsgid := 0, inflightQoS := 0\<rparr>"

definition closeSession :: "'h Client \<Rightarrow> 'h Client" where
  "closeSession c =
     (let c = c\<lparr>ping_outstanding := False, isconnected := False\<rparr> in
      if cleansession c then cleanSession c else c)"

text \<open>The constructor on memory \<open>mem\<close>, whose contents it only partly sets.\<close>

definition Client_init :: "'h Client \<Rightarrow> u32 \<Rightarrow> 'h Client" where
  "Client_init mem timeout =
     closeSession (mem\<lparr>packetid := 0, command_timeout_ms := timeout, cleansession := True,
       messageHandlers := map (\<lambda>m. m\<lparr>fp := None\<rparr>) (messageHandlers mem), defaultMessageHandler := None,
       last_sent := (last_sent mem)\<lparr>cd_start := None\<rparr>, last_received := (last_received mem)\<lparr>cd_start := None\<rparr>\<rparr>)"

definition setDefaultMessageHandler :: "'h option \<Rightarrow> 'h Client \<Rightarrow> 'h Client" where
  "setDefaultMessageHandler mh c = c\<lparr>defaultMessageHandler := mh\<rparr>"

section \<open>Sending and receiving packets\<close>

partial_function (option) send_loop ::
    "('h, 'w) mqtt_env \<Rightarrow> byte list \<Rightarrow> Countdown \<Rightarrow> int \<Rightarrow> int \<Rightarrow> 'w \<Rightarrow> (int \<times> 'w) option" where
  "send_loop env buf timer len sent w =
     (if sent < len then
        (if int (length buf) < len then None
         else case ipstack_write env w (drop (nat sent) (take (nat len) buf)) (left_ms env w timer) of
           (rc, w) \<Rightarrow>
             if rc < 0 then Some (sent, w)
             else if expired env w timer then Some (sent + rc, w)
             else send_loop env buf timer len (sent + rc) w)
      else Some (sent, w))"

definition sendPacket ::
    "('h, 'w) mqtt_env \<Rightarrow> int \<Rightarrow> Countdown \<Rightarrow> 'h Client \<Rightarrow> 'w \<Rightarrow> (int \<times> 'h Client \<times> 'w) option" where
  "sendPacket env len timer c w = do {
     (sent, w) \<leftarrow> send_loop env (sendbuf c) timer len 0 w;
     if sent = len then
       Some (SUCCESS, (if keepAliveInterval c > 0
         then c\<lparr>last_sent := countdown env w (keepAliveInterval c)\<rparr> else c), w)
     else Some (FAILURE, c, w)
   }"

text \<open>The loop of \<open>decodePacket\<close> is the one of \<open>MQTTPacket_decode\<close>, written out a second time.\<close>

definition decodePacket :: "('h, 'w) mqtt_env \<Rightarrow> int \<Rightarrow> 'w \<Rightarrow> (nat \<times> int \<times> 'w) option" where
  "decodePacket env timeout w = decode_loop (getchar_of (\<lambda>w n. ipstack_read env w n timeout)) w 1 0 0"

definition readPacket ::
    "('h, 'w) mqtt_env \<Rightarrow> Countdown \<Rightarrow> 'h Client \<Rightarrow> 'w \<Rightarrow> (int \<times> 'h Client \<times> 'w) option" where
  "readPacket env timer c w =
     (case ipstack_read env w 1 (left_ms env w timer) of (rc, bs, w) \<Rightarrow> do {
        buf \<leftarrow> wr_bytes (readbuf c) 0 bs;
        if rc \<noteq> 1 then Some (rc, c\<lparr>readbuf := buf\<rparr>, w)
        else do {
          (_, rem_len, w) \<leftarrow> decodePacket env (left_ms env w timer) w;
          (k, buf) \<leftarrow> MQTTPacket_encode buf 1 rem_len;
          let len = 1 + int k;
          if rem_len > MAX_MQTT_PACKET_SIZE - len then Some (BUFFER_OVERFLOW, c\<lparr>readbuf := buf\<rparr>, w)
          else do {
            (n, buf, w) \<leftarrow>
              (if rem_len > 0 then
                 (case ipstack_read env w rem_len (left_ms env w timer) of (n, bs, w) \<Rightarrow>
                    map_option (\<lambda>buf. (n, buf, w)) (wr_bytes buf (nat len) bs))
               else Some (rem_len, buf, w));
            let c = c\<lparr>readbuf := buf\<rparr>;
            if n \<noteq> rem_len then Some (rc, c, w)
            else do {
              b \<leftarrow> rd buf 0;
              Some (uint (hdr_type (header_bits b)),
                (if keepAliveInterval c > 0
                 then c\<lparr>last_received := countdown env w (keepAliveInterval c)\<rparr> else c), w)
            }
          }
        }
      })"

section \<open>Matching topics and delivering messages\<close>

text \<open>The inner loop at a \<open>+\<close>: \<open>nextpos\<close> is \<open>curn + 1\<close> throughout.\<close>

function skip_level :: "byte list \<Rightarrow> nat \<Rightarrow> nat \<Rightarrow> nat option" where
  "skip_level name curn_end curn =
     (if curn + 1 < curn_end then do {
        x \<leftarrow> rd name (curn + 1);
        if x \<noteq> 0x2F then skip_level name curn_end (curn + 1) else Some curn
      } else Some curn)"
  by pat_completeness auto
termination
  by (relation "measure (\<lambda>(name, curn_end, curn). curn_end - curn)") auto

declare skip_level.simps [simp del]

text \<open>\<open>curf\<close> is the rest of the tfilter, whose end stands for the terminator.\<close>

fun topic_loop :: "byte list \<Rightarrow> nat \<Rightarrow> byte list \<Rightarrow> nat \<Rightarrow> bool option" where
  "topic_loop name curn_end [] curn = Some (curn = curn_end)"
| "topic_loop name curn_end (f # curf) curn =
     (if curn < curn_end then do {
        x \<leftarrow> rd name curn;
        if x = 0x2F \<and> f \<noteq> 0x2F then Some False
        else if f \<noteq> 0x2B \<and> f \<noteq> 0x23 \<and> f \<noteq> x then Some False
        else do {
          curn \<leftarrow> (if f = 0x2B then skip_level name curn_end curn
            else if f = 0x23 then Some (curn_end - 1) else Some curn);
          topic_loop name curn_end curf (curn + 1)
        }
      } else Some False)"

definition isTopicMatched :: "byte list \<Rightarrow> MQTTString \<Rightarrow> bool option" where
  "isTopicMatched tfilter topicName =
     topic_loop (case ls_data (lenstring topicName) of Some d \<Rightarrow> d | None \<Rightarrow> [])
       (nat (ls_len (lenstring topicName))) tfilter 0"

primrec deliver_loop ::
    "('h, 'w) mqtt_env \<Rightarrow> 'h MessageHandlers list \<Rightarrow> MQTTString \<Rightarrow> publish_out \<Rightarrow> int \<Rightarrow> 'w \<Rightarrow> (int \<times> 'w) option" where
  "deliver_loop env [] topicName message rc w = Some (rc, w)"
| "deliver_loop env (m # ms) topicName message rc w = do {
     hit \<leftarrow> (case topicFilter m of None \<Rightarrow> Some False
       | Some f \<Rightarrow> do {
           eq \<leftarrow> MQTTPacket_equals topicName f;
           if eq then Some True else isTopicMatched f topicName
         });
     case (hit, fp m) of
       (True, Some h) \<Rightarrow> deliver_loop env ms topicName message SUCCESS (run_handler env h topicName message w)
     | _ \<Rightarrow> deliver_loop env ms topicName message rc w
   }"

definition deliverMessage ::
    "('h, 'w) mqtt_env \<Rightarrow> MQTTString \<Rightarrow> publish_out \<Rightarrow> 'h Client \<Rightarrow> 'w \<Rightarrow> (int \<times> 'w) option" where
  "deliverMessage env topicName message c w = do {
     (rc, w) \<leftarrow> deliver_loop env (messageHandlers c) topicName message FAILURE w;
     case (rc = FAILURE, defaultMessageHandler c) of
       (True, Some h) \<Rightarrow> Some (SUCCESS, run_handler env h topicName message w)
     | _ \<Rightarrow> Some (rc, w)
   }"

section \<open>One piece of work\<close>

definition keepalive ::
    "('h, 'w) mqtt_env \<Rightarrow> 'h Client \<Rightarrow> 'w \<Rightarrow> (int \<times> 'h Client \<times> 'w) option" where
  "keepalive env c w =
     (if keepAliveInterval c = 0 then Some (SUCCESS, c, w)
      else if ping_outstanding c then
        Some (if expired env w (ping_sent c) then FAILURE else SUCCESS, c, w)
      else if expired env w (last_sent c) \<or> expired env w (last_received c) then
        (let timer = countdown_ms env w 1000 in do {
           (len, buf) \<leftarrow> MQTTSerialize_pingreq (sendbuf c) MAX_MQTT_PACKET_SIZE;
           let c = c\<lparr>sendbuf := buf\<rparr>;
           if len > 0 then do {
             (rc, c, w) \<leftarrow> sendPacket env len timer c w;
             if rc = SUCCESS then
               Some (rc, c\<lparr>ping_outstanding := True, ping_sent := countdown env w (keepAliveInterval c)\<rparr>, w)
             else Some (rc, c, w)
           } else Some (SUCCESS, c, w)
         })
      else Some (SUCCESS, c, w))"

text \<open>
  The case \<open>PUBLISH\<close> of \<open>cycle\<close>: the result and whether it jumps to \<open>exit\<close>. What C leaves
  unset in \<open>msg\<close> is 0; only the packet id of a QoS 0 message stays so.
\<close>

definition unset_message :: publish_out where
  "unset_message = \<lparr>pub_dup = 0, pub_qos = 0, pub_retained = 0, pub_packetid = 0,
     pub_topicName = MQTTString_initializer, pub_payload = None, pub_payloadlen = 0\<rparr>"

definition cycle_publish ::
    "('h, 'w) mqtt_env \<Rightarrow> Countdown \<Rightarrow> 'h Client \<Rightarrow> 'w \<Rightarrow> (bool \<times> int \<times> 'h Client \<times> 'w) option" where
  "cycle_publish env timer c w = do {
     (ok, msg) \<leftarrow> MQTTDeserialize_publish unset_message (readbuf c) MAX_MQTT_PACKET_SIZE;
     if ok \<noteq> 1 then Some (True, SUCCESS, c, w)
     else do {
       (_, w) \<leftarrow> deliverMessage env (pub_topicName msg) msg c w;
       if pub_qos msg \<noteq> 0 then do {
         (len, buf) \<leftarrow>
           (if pub_qos msg = 1 then
              MQTTSerialize_ack (sendbuf c) MAX_MQTT_PACKET_SIZE (msg_code PUBACK) 0 (pub_packetid msg)
            else if pub_qos msg = 2 then
              MQTTSerialize_ack (sendbuf c) MAX_MQTT_PACKET_SIZE (msg_code PUBREC) 0 (pub_packetid msg)
            else Some (0, sendbuf c));
         let c = c\<lparr>sendbuf := buf\<rparr>;
         (rc, c, w) \<leftarrow> (if len \<le> 0 then Some (FAILURE, c, w) else sendPacket env len timer c w);
         Some (rc = FAILURE, rc, c, w)
       }
       else Some (False, SUCCESS, c, w)
     }
   }"

definition cycle ::
    "('h, 'w) mqtt_env \<Rightarrow> Countdown \<Rightarrow> 'h Client \<Rightarrow> 'w \<Rightarrow> (int \<times> 'h Client \<times> 'w) option" where
  "cycle env timer c w = do {
     (packet_type, c, w) \<leftarrow> readPacket env timer c w;
     (goto_exit, rc, c, w) \<leftarrow>
       (if packet_type = 0 \<or> packet_type = msg_int CONNACK \<or> packet_type = msg_int PUBACK \<or>
           packet_type = msg_int SUBACK then Some (False, SUCCESS, c, w)
        else if packet_type = msg_int PUBLISH then cycle_publish env timer c w
        else if packet_type = msg_int PINGRESP then Some (False, SUCCESS, c\<lparr>ping_outstanding := False\<rparr>, w)
        else Some (True, packet_type, c, w));
     (rc, c, w) \<leftarrow>
       (if goto_exit then Some (rc, c, w)
        else do {
          (krc, c, w) \<leftarrow> keepalive env c w;
          Some (if krc \<noteq> SUCCESS then FAILURE else rc, c, w)
        });
     if rc = SUCCESS then Some (packet_type, c, w)
     else Some (rc, if isconnected c then closeSession c else c, w)
   }"

partial_function (option) waitfor_loop ::
    "('h, 'w) mqtt_env \<Rightarrow> int \<Rightarrow> Countdown \<Rightarrow> int \<Rightarrow> 'h Client \<Rightarrow> 'w \<Rightarrow> (int \<times> 'h Client \<times> 'w) option" where
  "waitfor_loop env packet_type timer rc c w =
     (if expired env w timer then Some (rc, c, w)
      else do {
        (rc, c, w) \<leftarrow> cycle env timer c w;
        if rc \<noteq> packet_type \<and> rc \<ge> 0 then waitfor_loop env packet_type timer rc c w
        else Some (rc, c, w)
      })"

definition waitfor ::
    "('h, 'w) mqtt_env \<Rightarrow> msgTypes \<Rightarrow> Countdown \<Rightarrow> 'h Client \<Rightarrow> 'w \<Rightarrow> (int \<times> 'h Client \<times> 'w) option" where
  "waitfor env packet_type timer c w = waitfor_loop env (msg_int packet_type) timer FAILURE c w"

partial_function (option) yield_loop ::
    "('h, 'w) mqtt_env \<Rightarrow> Countdown \<Rightarrow> 'h Client \<Rightarrow> 'w \<Rightarrow> (int \<times> 'h Client \<times> 'w) option" where
  "yield_loop env timer c w =
     (if expired env w timer then Some (SUCCESS, c, w)
      else do {
        (rc, c, w) \<leftarrow> cycle env timer c w;
        if rc < 0 then Some (FAILURE, c, w) else yield_loop env timer c w
      })"

definition yield ::
    "('h, 'w) mqtt_env \<Rightarrow> u32 \<Rightarrow> 'h Client \<Rightarrow> 'w \<Rightarrow> (int \<times> 'h Client \<times> 'w) option" where
  "yield env timeout_ms c w = yield_loop env (countdown_ms env w timeout_ms) c w"

section \<open>The operations\<close>

text \<open>The private \<open>publish(len, timer, qos)\<close>: send what \<open>sendbuf\<close> holds and wait for the answer.\<close>

definition publish_packet ::
    "('h, 'w) mqtt_env \<Rightarrow> int \<Rightarrow> Countdown \<Rightarrow> int \<Rightarrow> 'h Client \<Rightarrow> 'w \<Rightarrow> (int \<times> 'h Client \<times> 'w) option" where
  "publish_packet env len timer qos c w = do {
     (rc, c, w) \<leftarrow> sendPacket env len timer c w;
     (rc, c, w) \<leftarrow>
       (if rc = SUCCESS \<and> qos = 1 then do {
          (wrc, c, w) \<leftarrow> waitfor env PUBACK timer c w;
          if wrc = msg_int PUBACK then do {
            (ok, ack) \<leftarrow> MQTTDeserialize_ack \<lparr>ack_packettype = 0, ack_dup = 0, ack_packetid = 0\<rparr>
              (readbuf c) MAX_MQTT_PACKET_SIZE;
            if ok \<noteq> 1 then Some (FAILURE, c, w)
            else if inflightMsgid c = ack_packetid ack then Some (rc, c\<lparr>inflightMsgid := 0\<rparr>, w)
            else Some (rc, c, w)
          }
          else Some (FAILURE, c, w)
        }
        else Some (rc, c, w));
     Some (rc, if rc \<noteq> SUCCESS then closeSession c else c, w)
   }"

record connackData =
  cnd_rc :: int
  sessionPresent :: bool

text \<open>\<open>connect(options, data)\<close>; the result carries \<open>data\<close>, which is written when a CONNACK arrives.\<close>

definition connect_answer ::
    "('h, 'w) mqtt_env \<Rightarrow> Countdown \<Rightarrow> connackData \<Rightarrow> 'h Client \<Rightarrow> 'w \<Rightarrow>
     (int \<times> connackData \<times> 'h Client \<times> 'w) option" where
  "connect_answer env timer data c w = do {
     (wrc, c, w) \<leftarrow> waitfor env CONNACK timer c w;
     if wrc = msg_int CONNACK then do {
       (ok, ca) \<leftarrow> MQTTDeserialize_connack \<lparr>ca_sessionPresent = 0, ca_connack_rc = 0\<rparr>
         (readbuf c) MAX_MQTT_PACKET_SIZE;
       let data = \<lparr>cnd_rc = uint (ca_connack_rc ca), sessionPresent = (ca_sessionPresent ca \<noteq> 0)\<rparr>;
       Some (if ok = 1 then cnd_rc data else FAILURE, data, c, w)
     }
     else Some (FAILURE, data, c, w)
   }"

definition connect_exit :: "int \<Rightarrow> 'h Client \<Rightarrow> 'h Client" where
  "connect_exit rc c = (if rc = SUCCESS then c\<lparr>isconnected := True, ping_outstanding := False\<rparr> else c)"

definition connect ::
    "('h, 'w) mqtt_env \<Rightarrow> MQTTPacket_connectData \<Rightarrow> connackData \<Rightarrow> 'h Client \<Rightarrow> 'w \<Rightarrow>
     (int \<times> connackData \<times> 'h Client \<times> 'w) option" where
  "connect env options data c w =
     (let connect_timer = countdown_ms env w (command_timeout_ms c) in
      if isconnected c then Some (FAILURE, data, c, w)
      else do {
        let c = c\<lparr>keepAliveInterval := ucast (cd_keepAliveInterval options),
              cleansession := cd_cleansession options \<noteq> 0\<rparr>;
        (len, buf) \<leftarrow> MQTTSerialize_connect (sendbuf c) MAX_MQTT_PACKET_SIZE options;
        let c = c\<lparr>sendbuf := buf\<rparr>;
        if len \<le> 0 then Some (FAILURE, data, c, w)
        else do {
          (rc, c, w) \<leftarrow> sendPacket env len connect_timer c w;
          if rc \<noteq> SUCCESS then Some (rc, data, c, w)
          else do {
            let c = (if keepAliveInterval c > 0
              then c\<lparr>last_received := countdown env w (keepAliveInterval c)\<rparr> else c);
            (rc, data, c, w) \<leftarrow> connect_answer env connect_timer data c w;
            (rc, c, w) \<leftarrow>
              (if inflightMsgid c > 0 then
                 publish_packet env (inflightLen c) connect_timer (inflightQoS c) (c\<lparr>sendbuf := pubbuf c\<rparr>) w
               else Some (rc, c, w));
            Some (rc, data, connect_exit rc c, w)
          }
        }
      })"

primrec find_slot :: "('h MessageHandlers \<Rightarrow> bool) \<Rightarrow> 'h MessageHandlers list \<Rightarrow> nat option" where
  "find_slot P [] = None"
| "find_slot P (m # ms) = (if P m then Some 0 else map_option Suc (find_slot P ms))"

definition setMessageHandler :: "byte list \<Rightarrow> 'h option \<Rightarrow> 'h Client \<Rightarrow> int \<times> 'h Client" where
  "setMessageHandler tfilter messageHandler c =
     (let existing = find_slot (\<lambda>m. topicFilter m = Some tfilter) (messageHandlers c) in
      case messageHandler of
        None \<Rightarrow>
          (case existing of
             Some i \<Rightarrow> (SUCCESS, c\<lparr>messageHandlers := (messageHandlers c)[i := \<lparr>topicFilter = None, fp = None\<rparr>]\<rparr>)
           | None \<Rightarrow> (FAILURE, c))
      | Some h \<Rightarrow>
          (case (case existing of Some i \<Rightarrow> Some i
                 | None \<Rightarrow> find_slot (\<lambda>m. topicFilter m = None) (messageHandlers c)) of
             Some i \<Rightarrow> (SUCCESS, c\<lparr>messageHandlers := (messageHandlers c)[i := \<lparr>topicFilter = Some tfilter, fp = Some h\<rparr>]\<rparr>)
           | None \<Rightarrow> (FAILURE, c)))"

definition string_topic :: "byte list \<Rightarrow> MQTTString" where
  "string_topic s = \<lparr>cstring = Some s, lenstring = \<lparr>ls_len = 0, ls_data = None\<rparr>\<rparr>"

text \<open>\<open>subscribe\<close> returns \<open>data.grantedQoS\<close> too; \<open>granted\<close> is what the caller's structure held.\<close>

definition subscribe ::
    "('h, 'w) mqtt_env \<Rightarrow> byte list \<Rightarrow> int \<Rightarrow> 'h option \<Rightarrow> int \<Rightarrow> 'h Client \<Rightarrow> 'w \<Rightarrow>
     (int \<times> int \<times> 'h Client \<times> 'w) option" where
  "subscribe env tfilter qos messageHandler granted c w =
     (let timer = countdown_ms env w (command_timeout_ms c);
          topic = string_topic tfilter;
          exit = (\<lambda>rc granted c w. (rc, granted, if rc = FAILURE then closeSession c else c, w))
      in if \<not> isconnected c then Some (exit FAILURE granted c w)
      else do {
        let (id, c) = getNext c;
        (len, buf) \<leftarrow> MQTTSerialize_subscribe (sendbuf c) MAX_MQTT_PACKET_SIZE 0 (word_of_int id) 1 [topic] [qos];
        let c = c\<lparr>sendbuf := buf\<rparr>;
        if len \<le> 0 then Some (exit FAILURE granted c w)
        else do {
          (rc, c, w) \<leftarrow> sendPacket env len timer c w;
          if rc \<noteq> SUCCESS then Some (exit rc granted c w)
          else do {
            (wrc, c, w) \<leftarrow> waitfor env SUBACK timer c w;
            if wrc = msg_int SUBACK then do {
              (ok, sa) \<leftarrow> MQTTDeserialize_suback \<lparr>sa_packetid = 0, sa_count = 0, sa_grantedQoSs = [0]\<rparr> 1
                (readbuf c) MAX_MQTT_PACKET_SIZE;
              let granted = sa_grantedQoSs sa ! 0;
              if ok = 1 \<and> granted \<noteq> 0x80 then
                (case setMessageHandler tfilter messageHandler c of (rc, c) \<Rightarrow> Some (exit rc granted c w))
              else Some (exit rc granted c w)
            }
            else Some (exit FAILURE granted c w)
          }
        }
      })"

definition unsubscribe ::
    "('h, 'w) mqtt_env \<Rightarrow> byte list \<Rightarrow> 'h Client \<Rightarrow> 'w \<Rightarrow> (int \<times> 'h Client \<times> 'w) option" where
  "unsubscribe env tfilter c w =
     (let timer = countdown_ms env w (command_timeout_ms c);
          topic = string_topic tfilter;
          exit = (\<lambda>rc c w. (rc, if rc \<noteq> SUCCESS then closeSession c else c, w))
      in if \<not> isconnected c then Some (exit FAILURE c w)
      else do {
        let (id, c) = getNext c;
        (len, buf) \<leftarrow> MQTTSerialize_unsubscribe (sendbuf c) MAX_MQTT_PACKET_SIZE 0 (word_of_int id) 1 [topic];
        let c = c\<lparr>sendbuf := buf\<rparr>;
        if len \<le> 0 then Some (exit FAILURE c w)
        else do {
          (rc, c, w) \<leftarrow> sendPacket env len timer c w;
          if rc \<noteq> SUCCESS then Some (exit rc c w)
          else do {
            (wrc, c, w) \<leftarrow> waitfor env UNSUBACK timer c w;
            if wrc = msg_int UNSUBACK then do {
              (ok, _) \<leftarrow> MQTTDeserialize_unsuback 0 (readbuf c) MAX_MQTT_PACKET_SIZE;
              Some (exit rc (if ok = 1 then snd (setMessageHandler tfilter None c) else c) w)
            }
            else Some (exit FAILURE c w)
          }
        }
      })"

text \<open>The forms without a result structure; what they write to their local structure is dropped.\<close>

definition connect_plain ::
    "('h, 'w) mqtt_env \<Rightarrow> MQTTPacket_connectData \<Rightarrow> 'h Client \<Rightarrow> 'w \<Rightarrow> (int \<times> 'h Client \<times> 'w) option" where
  "connect_plain env options c w = do {
     (rc, _, c, w) \<leftarrow> connect env options \<lparr>cnd_rc = 0, sessionPresent = False\<rparr> c w;
     Some (rc, c, w)
   }"

definition connect_default :: "('h, 'w) mqtt_env \<Rightarrow> 'h Client \<Rightarrow> 'w \<Rightarrow> (int \<times> 'h Client \<times> 'w) option" where
  "connect_default env c w = connect_plain env MQTTPacket_connectData_initializer c w"

definition subscribe_plain ::
    "('h, 'w) mqtt_env \<Rightarrow> byte list \<Rightarrow> int \<Rightarrow> 'h option \<Rightarrow> 'h Client \<Rightarrow> 'w \<Rightarrow> (int \<times> 'h Client \<times> 'w) option" where
  "subscribe_plain env tfilter qos messageHandler c w = do {
     (rc, _, c, w) \<leftarrow> subscribe env tfilter qos messageHandler 0 c w;
     Some (rc, c, w)
   }"

text \<open>\<open>publish(topicName, payload, payloadlen, id, qos, retained)\<close>; the result carries
  \<open>id\<close>, here \<open>pid\<close>.\<close>

definition publish ::
    "('h, 'w) mqtt_env \<Rightarrow> byte list \<Rightarrow> byte list \<Rightarrow> u32 \<Rightarrow> u16 \<Rightarrow> int \<Rightarrow> bool \<Rightarrow> 'h Client \<Rightarrow> 'w \<Rightarrow>
     (int \<times> u16 \<times> 'h Client \<times> 'w) option" where
  "publish env topicName payload payloadlen pid qos retained c w =
     (let timer = countdown_ms env w (command_timeout_ms c) in
      if \<not> isconnected c then Some (FAILURE, pid, c, w)
      else do {
        let topicString = MQTTString_initializer\<lparr>cstring := Some topicName\<rparr>;
        let (id, c) = (if qos = 1 \<or> qos = 2 then (case getNext c of (n, c) \<Rightarrow> (word_of_int n, c)) else (pid, c));
        (len, buf) \<leftarrow> MQTTSerialize_publish (sendbuf c) MAX_MQTT_PACKET_SIZE 0 qos (of_bool retained) id
          topicString payload (sint payloadlen);
        let c = c\<lparr>sendbuf := buf\<rparr>;
        if len \<le> 0 then Some (FAILURE, id, c, w)
        else do {
          c \<leftarrow> (if \<not> cleansession c then do {
              bytes \<leftarrow> rd_bytes (sendbuf c) (nat len);
              pub \<leftarrow> wr_bytes (pubbuf c) 0 bytes;
              Some (c\<lparr>pubbuf := pub, inflightMsgid := id, inflightLen := len, inflightQoS := qos\<rparr>)
            } else Some c);
          (rc, c, w) \<leftarrow> publish_packet env len timer qos c w;
          Some (rc, id, c, w)
        }
      })"

text \<open>\<open>publish(topicName, message)\<close>, with the dummy identifier 0.\<close>

definition publish_message ::
    "('h, 'w) mqtt_env \<Rightarrow> byte list \<Rightarrow> byte list \<Rightarrow> u32 \<Rightarrow> int \<Rightarrow> bool \<Rightarrow> 'h Client \<Rightarrow> 'w \<Rightarrow>
     (int \<times> 'h Client \<times> 'w) option" where
  "publish_message env topicName payload payloadlen qos retained c w = do {
     (rc, _, c, w) \<leftarrow> publish env topicName payload payloadlen 0 qos retained c w;
     Some (rc, c, w)
   }"

definition disconnect ::
    "('h, 'w) mqtt_env \<Rightarrow> 'h Client \<Rightarrow> 'w \<Rightarrow> (int \<times> 'h Client \<times> 'w) option" where
  "disconnect env c w =
     (let timer = countdown_ms env w (command_timeout_ms c) in do {
        (len, buf) \<leftarrow> MQTTSerialize_disconnect (sendbuf c) MAX_MQTT_PACKET_SIZE;
        let c = c\<lparr>sendbuf := buf\<rparr>;
        (rc, c, w) \<leftarrow> (if len > 0 then sendPacket env len timer c w else Some (FAILURE, c, w));
        Some (rc, closeSession c, w)
      })"

end
