(* ===== verification/Mqtt_Topics.thy ===== *)
theory Mqtt_Topics
  imports Mqtt_Client
begin

text \<open>
  \<open>isTopicMatched\<close> of \<open>lib/MQTT/MQTTClient.h\<close>, which decides which handlers get a message, against
  the rule of the MQTT standard, which compares a filter and a topic level by level.
\<close>

section \<open>The rule of the standard\<close>

primrec levels :: "byte list \<Rightarrow> byte list list" where
  "levels [] = [[]]"
| "levels (x # xs) =
     (if x = 0x2F then [] # levels xs else (x # hd (levels xs)) # tl (levels xs))"

text \<open>\<open>+\<close> stands for one level, \<open>#\<close> at the end for all that follow, also for none.\<close>

fun topic_matches :: "byte list list \<Rightarrow> byte list list \<Rightarrow> bool" where
  "topic_matches [] ns \<longleftrightarrow> ns = []"
| "topic_matches (f # fs) [] \<longleftrightarrow> f = [0x23] \<and> fs = []"
| "topic_matches (f # fs) (n # ns) \<longleftrightarrow>
     f = [0x23] \<and> fs = [] \<or> (f = [0x2B] \<or> f = n) \<and> topic_matches fs ns"

text \<open>A wildcard is a whole level, and \<open>#\<close> is the last one.\<close>

fun wf_filter :: "byte list list \<Rightarrow> bool" where
  "wf_filter [] \<longleftrightarrow> False"
| "wf_filter [f] \<longleftrightarrow> f = [0x23] \<or> f = [0x2B] \<or> 0x23 \<notin> set f \<and> 0x2B \<notin> set f"
| "wf_filter (f # g # fs) \<longleftrightarrow>
     (f = [0x2B] \<or> 0x23 \<notin> set f \<and> 0x2B \<notin> set f) \<and> wf_filter (g # fs)"

section \<open>The loop on lists\<close>

fun topic_match :: "byte list \<Rightarrow> byte list \<Rightarrow> bool" where
  "topic_match [] n \<longleftrightarrow> n = []"
| "topic_match (f # fs) [] \<longleftrightarrow> False"
| "topic_match (f # fs) (x # n) \<longleftrightarrow>
     \<not> (x = 0x2F \<and> f \<noteq> 0x2F) \<and>
     (if f = 0x2B then topic_match fs (dropWhile (\<lambda>x. x \<noteq> 0x2F) n)
      else if f = 0x23 then topic_match fs []
      else f = x \<and> topic_match fs n)"

lemma drop_take_step:
  "n < e \<Longrightarrow> e \<le> length xs \<Longrightarrow> drop n (take e xs) = xs ! n # drop (Suc n) (take e xs)"
  by (metis Cons_nth_drop_Suc length_take min.absorb2 nth_take)

lemma skip_level_correct:
  assumes "e \<le> length name" "n < e"
  shows "\<exists>m. skip_level name e n = Some m \<and> m < e \<and>
    drop (m + 1) (take e name) = dropWhile (\<lambda>x. x \<noteq> 0x2F) (drop (n + 1) (take e name))"
  using assms
proof (induction name e n rule: skip_level.induct)
  case (1 name e n)
  show ?case
  proof (cases "n + 1 < e")
    case True
    let ?d = "drop (n + 1) (take e name)"
    have d: "?d = name ! (n + 1) # drop (n + 2) (take e name)"
      using True "1.prems" by (simp add: drop_take_step)
    have r: "rd name (n + 1) = Some (name ! (n + 1))"
      using True "1.prems" by (simp add: rd_def)
    show ?thesis
    proof (cases "name ! (n + 1) = 0x2F")
      case True
      then show ?thesis
        using r d \<open>n + 1 < e\<close> "1.prems" by (simp add: skip_level.simps [of name e n])
    next
      case False
      then show ?thesis
        using r d \<open>n + 1 < e\<close> "1.prems" "1.IH" [OF True, of "name ! (n + 1)"]
        by (simp add: skip_level.simps [of name e n])
    qed
  next
    case False
    then show ?thesis
      using "1.prems" by (simp add: skip_level.simps [of name e n])
  qed
qed

lemma topic_loop_match:
  assumes "e \<le> length name" "n \<le> e"
  shows "topic_loop name e f n = Some (topic_match f (drop n (take e name)))"
  using assms
proof (induction f arbitrary: n)
  case Nil
  then show ?case
    by (auto simp: min_def)
next
  case (Cons f fs)
  show ?case
  proof (cases "n < e")
    case True
    let ?d = "drop (n + 1) (take e name)"
    have d: "drop n (take e name) = name ! n # ?d" and r: "rd name n = Some (name ! n)"
      using True Cons.prems by (simp_all add: drop_take_step rd_def)
    obtain m where m: "skip_level name e n = Some m" "m < e"
      "drop (m + 1) (take e name) = dropWhile (\<lambda>x. x \<noteq> 0x2F) ?d"
      using skip_level_correct [of e name n] True Cons.prems by blast
    have "topic_loop name e fs (m + 1) = Some (topic_match fs (dropWhile (\<lambda>x. x \<noteq> 0x2F) ?d))"
      using Cons.IH [of "m + 1"] Cons.prems m by simp
    moreover have "topic_loop name e fs (e - 1 + 1) = Some (topic_match fs [])"
      using Cons.IH [of e] Cons.prems True by simp
    moreover have "topic_loop name e fs (n + 1) = Some (topic_match fs ?d)"
      using Cons.IH [of "n + 1"] Cons.prems True by simp
    ultimately show ?thesis
      using True r m(1) by (simp add: d)
  next
    case False
    then show ?thesis
      using Cons.prems by simp
  qed
qed

section \<open>Level by level\<close>

lemma topic_match_literal:
  "0x23 \<notin> set l \<Longrightarrow> 0x2B \<notin> set l \<Longrightarrow> 0x2F \<notin> set l \<Longrightarrow>
   topic_match (l @ fs) n \<longleftrightarrow> (\<exists>ns. n = l @ ns \<and> topic_match fs ns)"
proof (induction l arbitrary: n)
  case (Cons x l)
  then show ?case
    by (cases n) auto
qed simp

lemma topic_match_slash: "topic_match (0x2F # fs) n \<longleftrightarrow> (\<exists>ns. n = 0x2F # ns \<and> topic_match fs ns)"
  by (cases n) auto

primrec joined :: "byte list list \<Rightarrow> byte list" where
  "joined [] = []"
| "joined (l # ls) = (if ls = [] then l else l @ 0x2F # joined ls)"

lemma levels_nonempty [simp]: "levels xs \<noteq> []"
  by (induction xs) auto

lemma joined_levels [simp]: "joined (levels xs) = xs"
proof (induction xs)
  case (Cons x xs)
  then show ?case
    by (cases "levels xs") (auto split: if_splits)
qed simp

lemma levels_no_slash: "l \<in> set (levels xs) \<Longrightarrow> 0x2F \<notin> set l"
proof (induction xs arbitrary: l)
  case (Cons x xs)
  then show ?case
    by (cases "levels xs") (auto split: if_splits)
qed simp

lemma dropWhile_level:
  assumes "0x2F \<notin> set n"
  shows "dropWhile (\<lambda>x. x \<noteq> 0x2F) n = []"
    "dropWhile (\<lambda>x. x \<noteq> 0x2F) (n @ 0x2F # ns) = (0x2F :: byte) # ns"
  using assms by (induction n) auto

lemma append_slash_cancel:
  assumes "0x2F \<notin> set l" "0x2F \<notin> set n"
  shows "l @ 0x2F # xs = n @ (0x2F :: byte) # ys \<longleftrightarrow> l = n \<and> xs = ys"
  using assms
proof (induction l arbitrary: n)
  case Nil
  then show ?case
    by (cases n) auto
next
  case (Cons x l)
  then show ?case
    by (cases n) auto
qed

lemma topic_match_levels:
  assumes "wf_filter F" "N \<noteq> []" "\<And>l. l \<in> set F \<union> set N \<Longrightarrow> 0x2F \<notin> set l" "[] \<notin> set N"
  shows "topic_match (joined F) (joined N) \<longleftrightarrow> topic_matches F N \<and> length F \<noteq> length N + 1"
  using assms
proof (induction F arbitrary: N rule: wf_filter.induct)
  case (2 f)
  obtain n N' where N: "N = n # N'"
    using 2 by (cases N) auto
  have no: "0x2F \<notin> set n"
    by (rule 2) (simp add: N)
  obtain x n' where n: "n = x # n'" "x \<noteq> 0x2F"
    using 2 N no by (cases n) auto
  have slash: "0x2F \<notin> set f" "0x2F \<notin> set n" "0x2F \<notin> set n'"
    using 2(3) [of f] no n by auto
  consider "f = [0x23]" | "f = [0x2B]" | "0x23 \<notin> set f" "0x2B \<notin> set f"
    using 2 by auto
  then show ?case
  proof cases
    case 3
    have "topic_match f (joined N) \<longleftrightarrow> joined N = f"
      using topic_match_literal [of f "[]" "joined N"] 3 slash by auto
    then show ?thesis
      using 3 N slash n by (auto split: if_splits)
  qed (use N n slash dropWhile_level in auto)
next
  case (3 f g fs)
  obtain n N' where N: "N = n # N'"
    using 3 by (cases N) auto
  have no: "0x2F \<notin> set n"
    by (rule "3.prems") (simp add: N)
  obtain x n' where n: "n = x # n'" "x \<noteq> 0x2F"
    using "3.prems" N no by (cases n) auto
  have slash: "0x2F \<notin> set f" "0x2F \<notin> set n" "0x2F \<notin> set n'"
    using "3.prems"(3) [of f] no n by auto
  have IH: "N' \<noteq> [] \<Longrightarrow> topic_match (joined (g # fs)) (joined N') \<longleftrightarrow>
      topic_matches (g # fs) N' \<and> length (g # fs) \<noteq> length N' + 1"
    by (rule "3.IH") (use "3.prems" N in auto)
  consider "f = [0x2B]" | "f \<noteq> [0x2B]" "0x23 \<notin> set f" "0x2B \<notin> set f"
    using "3.prems" by auto
  then show ?case
  proof cases
    case 1
    then show ?thesis
      using N n IH
      by (cases "N' = []") (auto simp: topic_match_slash dropWhile_level [OF slash(3)] simp del: dropWhile_eq_Nil_conv)
  next
    case 2
    have "topic_match (joined (f # g # fs)) (joined N) \<longleftrightarrow>
        (\<exists>ns. joined N = f @ 0x2F # ns \<and> topic_match (joined (g # fs)) ns)"
      using topic_match_literal [of f "0x2F # joined (g # fs)" "joined N"] 2 slash
      by (auto simp: topic_match_slash)
    also have "\<dots> \<longleftrightarrow> N' \<noteq> [] \<and> n = f \<and> topic_match (joined (g # fs)) (joined N')"
      using N slash by (auto simp: append_slash_cancel)
    finally show ?thesis
      using 2 N IH by (cases "N' = []") auto
  qed
qed simp

section \<open>The code and the standard\<close>

text \<open>
  C27: for a well-formed filter and a topic without empty levels \<open>isTopicMatched\<close> says yes exactly when the
  rule of the standard does and the filter does not have one level more than the topic. By that rule such
  a filter matches only when it ends in a \<open>#\<close> that stands for no level, so \<open>a/#\<close> against \<open>a\<close> is the kind
  of case in which the code and the standard differ, and it is the only one.
\<close>

theorem isTopicMatched_standard:
  assumes "ls_data (lenstring topicName) = Some d"
    and "ls_len (lenstring topicName) = int (length name)" "take (length name) d = name"
    and "wf_filter (levels tfilter)" "[] \<notin> set (levels name)"
  shows "isTopicMatched tfilter topicName =
    Some (topic_matches (levels tfilter) (levels name) \<and> length (levels tfilter) \<noteq> length (levels name) + 1)"
proof -
  have "length name \<le> length d"
    using assms(3) by (metis length_take min.cobounded1)
  then have "isTopicMatched tfilter topicName = Some (topic_match tfilter name)"
    using assms(1-3) by (simp add: isTopicMatched_def topic_loop_match)
  moreover have "topic_match tfilter name \<longleftrightarrow>
      topic_matches (levels tfilter) (levels name) \<and> length (levels tfilter) \<noteq> length (levels name) + 1"
    using topic_match_levels [of "levels tfilter" "levels name"] assms(4,5) levels_no_slash by auto
  ultimately show ?thesis
    by simp
qed

theorem isTopicMatched_standard_witness:
  "isTopicMatched [0x61, 0x2F, 0x2B, 0x2F, 0x23]
     \<lparr>cstring = None, lenstring = \<lparr>ls_len = 5, ls_data = Some [0x61, 0x2F, 0x62, 0x2F, 0x63, 0x7B]\<rparr>\<rparr> = Some True"
  by (subst isTopicMatched_standard [of _ "[0x61, 0x2F, 0x62, 0x2F, 0x63, 0x7B]" "[0x61, 0x2F, 0x62, 0x2F, 0x63]"])
    simp_all

text \<open>
  The levels \<open>isTopicMatched\<close> gets wrong: \<open>a/#\<close> does not match \<open>a\<close>, and no wildcard matches an
  empty level, all of which the standard asks for.
\<close>

theorem isTopicMatched_misses:
  "isTopicMatched [0x61, 0x2F, 0x23] \<lparr>cstring = None, lenstring = \<lparr>ls_len = 1, ls_data = Some [0x61]\<rparr>\<rparr> = Some False"
  "topic_matches (levels [0x61, 0x2F, 0x23]) (levels [0x61])"
  "isTopicMatched [0x23] \<lparr>cstring = None, lenstring = \<lparr>ls_len = 2, ls_data = Some [0x2F, 0x61]\<rparr>\<rparr> = Some False"
  "topic_matches (levels [0x23]) (levels [0x2F, 0x61])"
  "isTopicMatched [0x61, 0x2F, 0x2B] \<lparr>cstring = None, lenstring = \<lparr>ls_len = 2, ls_data = Some [0x61, 0x2F]\<rparr>\<rparr> = Some False"
  "topic_matches (levels [0x61, 0x2F, 0x2B]) (levels [0x61, 0x2F])"
  by (simp_all add: isTopicMatched_def rd_def)

end
