(* ===== verification/Mqtt_Session.thy ===== *)
theory Mqtt_Session
  imports Mqtt_Topics
begin

text \<open>
  Sessions of the client of \<open>lib/MQTT/MQTTClient.h\<close> with a broker over a network that delivers: what
  the operations put on the wire, what they make of the answers, and which handlers run.
\<close>

section \<open>A network that delivers\<close>

text \<open>
  \<open>inp\<close> is what the broker has sent and the client has not read yet, \<open>outp\<close> all the client has
  sent, \<open>log\<close> the messages its handlers were given. A read of no more than what is there is
  answered in full, a write is taken in full, and the clock stays between \<open>T0\<close> and \<open>T\<close>.
\<close>

type_synonym 'h delivery = "'h \<times> byte list \<times> byte list"

definition payload_bytes :: "publish_out \<Rightarrow> byte list" where
  "payload_bytes m = (case pub_payload m of Some d \<Rightarrow> take (nat (pub_payloadlen m)) d | None \<Rightarrow> [])"

definition prompt ::
    "('h, 'w) mqtt_env \<Rightarrow> ('w \<Rightarrow> byte list) \<Rightarrow> ('w \<Rightarrow> byte list) \<Rightarrow> ('w \<Rightarrow> 'h delivery list) \<Rightarrow> nat \<Rightarrow> nat \<Rightarrow> bool" where
  "prompt env inp outp log T0 T \<longleftrightarrow>
     (\<forall>w n t. 0 < n \<longrightarrow> n \<le> int (length (inp w)) \<longrightarrow>
        (\<exists>w'. ipstack_read env w n t = (n, take (nat n) (inp w), w') \<and>
           inp w' = drop (nat n) (inp w))) \<and>
     (\<forall>w n t rc bs w'. ipstack_read env w n t = (rc, bs, w') \<longrightarrow> outp w' = outp w \<and> log w' = log w) \<and>
     (\<forall>w bs t. \<exists>w'. ipstack_write env w bs t = (int (length bs), w') \<and>
        inp w' = inp w \<and> outp w' = outp w @ bs \<and> log w' = log w) \<and>
     (\<forall>h topic m w. inp (run_handler env h topic m w) = inp w \<and> outp (run_handler env h topic m w) = outp w \<and>
        log (run_handler env h topic m w) = log w @ [(h, str_bytes topic, payload_bytes m)]) \<and>
     (\<forall>w. T0 \<le> clock_ms env w \<and> clock_ms env w \<le> T)"

lemma prompt_readE:
  assumes "prompt env inp outp log T0 T" "0 < n" "n \<le> int (length (inp w))"
  obtains w' where "ipstack_read env w n t = (n, take (nat n) (inp w), w')"
    "inp w' = drop (nat n) (inp w)" "outp w' = outp w" "log w' = log w"
proof -
  obtain w' where w': "ipstack_read env w n t = (n, take (nat n) (inp w), w')" "inp w' = drop (nat n) (inp w)"
    using assms unfolding prompt_def by blast
  moreover from this have "outp w' = outp w \<and> log w' = log w"
    using assms(1) unfolding prompt_def by blast
  ultimately show thesis
    using that by simp
qed

lemma prompt_read_same:
  "prompt env inp outp log T0 T \<Longrightarrow> ipstack_read env w n t = (rc, bs, w') \<Longrightarrow> outp w' = outp w \<and> log w' = log w"
  unfolding prompt_def by blast

lemma prompt_writeE:
  assumes "prompt env inp outp log T0 T"
  obtains w' where "ipstack_write env w bs t = (int (length bs), w')"
    "inp w' = inp w" "outp w' = outp w @ bs" "log w' = log w"
  using assms unfolding prompt_def by blast

lemma prompt_clock:
  "prompt env inp outp log T0 T \<Longrightarrow> T0 \<le> clock_ms env w \<and> clock_ms env w \<le> T"
  by (simp add: prompt_def)

text \<open>A timer that does not expire before \<open>T\<close>.\<close>

definition alive :: "nat \<Rightarrow> Countdown \<Rightarrow> bool" where
  "alive T t \<longleftrightarrow> (\<exists>s. cd_start t = Some s \<and> T - s < unat (interval_end_ms t))"

lemma alive_not_expired:
  assumes "prompt env inp outp log T0 T" "alive T t"
  shows "\<not> expired env w t"
proof -
  obtain s where s: "cd_start t = Some s" "T - s < unat (interval_end_ms t)"
    using assms(2) by (auto simp: alive_def)
  have "clock_ms env w - s \<le> T - s"
    using prompt_clock [OF assms(1), of w] by (simp add: diff_le_mono)
  moreover have "unat (word_of_nat (clock_ms env w - s) :: u32) \<le> clock_ms env w - s"
    by (simp add: unat_of_nat)
  ultimately have "unat (word_of_nat (clock_ms env w - s) :: u32) < unat (interval_end_ms t)"
    using s(2) by linarith
  then show ?thesis
    using s(1) by (simp add: expired_def read_ms_def word_le_nat_alt not_le)
qed

lemma alive_countdown_ms:
  "prompt env inp outp log T0 T \<Longrightarrow> T - T0 < unat ms \<Longrightarrow> alive T (countdown_ms env w ms)"
  using prompt_clock [of env inp outp log T0 T w] by (auto simp: alive_def countdown_ms_def)

text \<open>Nothing for \<open>keepalive\<close> to do before \<open>T\<close>.\<close>

definition resting :: "nat \<Rightarrow> nat \<Rightarrow> 'h Client \<Rightarrow> bool" where
  "resting T0 T c \<longleftrightarrow> keepAliveInterval c = 0 \<or>
     T - T0 < unat (keepAliveInterval c * 1000) \<and> alive T (last_sent c) \<and> alive T (last_received c) \<and>
     (ping_outstanding c \<longrightarrow> alive T (ping_sent c))"

lemma keepalive_resting:
  assumes "prompt env inp outp log T0 T" "resting T0 T c"
  shows "keepalive env c w = Some (SUCCESS, c, w)"
  using assms alive_not_expired [OF assms(1)] by (auto simp: keepalive_def resting_def)

section \<open>Packets over the network\<close>

lemma send_loop_prompt:
  assumes "prompt env inp outp log T0 T" "0 < n" "n \<le> length buf"
  shows "\<exists>w'. send_loop env buf timer (int n) 0 w = Some (int n, w') \<and>
    inp w' = inp w \<and> outp w' = outp w @ take n buf \<and> log w' = log w"
proof -
  obtain w' where w': "ipstack_write env w (take n buf) (left_ms env w timer) = (int n, w')"
    "inp w' = inp w" "outp w' = outp w @ take n buf" "log w' = log w"
    using prompt_writeE [OF assms(1), of w "take n buf" "left_ms env w timer"] assms(3) by auto
  have "send_loop env buf timer (int n) (int n) w' = Some (int n, w')"
    by (subst send_loop.simps) simp
  then show ?thesis
    using assms w' by (subst send_loop.simps) auto
qed

lemma sendPacket_fresh:
  assumes "prompt env inp outp log T0 T" "0 < n" "n \<le> length (sendbuf c)"
    and "keepAliveInterval c = 0 \<or> T - T0 < unat (keepAliveInterval c * 1000)"
  shows "\<exists>t w'. sendPacket env (int n) timer c w = Some (SUCCESS, c\<lparr>last_sent := t\<rparr>, w') \<and>
    inp w' = inp w \<and> outp w' = outp w @ take n (sendbuf c) \<and> log w' = log w \<and>
    (keepAliveInterval c = 0 \<or> alive T t)"
proof -
  obtain w' where w': "send_loop env (sendbuf c) timer (int n) 0 w = Some (int n, w')"
    "inp w' = inp w" "outp w' = outp w @ take n (sendbuf c)" "log w' = log w"
    using send_loop_prompt [OF assms(1-3)] by blast
  show ?thesis
  proof (cases "keepAliveInterval c = 0")
    case True
    have "c\<lparr>last_sent := last_sent c\<rparr> = c"
      by simp
    then show ?thesis
      using w' True by (intro exI [of _ "last_sent c"] exI [of _ w']) (simp add: sendPacket_def)
  next
    case False
    then have "0 < keepAliveInterval c"
      by (simp add: word_greater_zero_iff)
    moreover have "alive T (countdown env w' (keepAliveInterval c))"
      unfolding countdown_def by (rule alive_countdown_ms [OF assms(1)]) (use False assms(4) in simp)
    ultimately show ?thesis
      using w' False
      by (intro exI [of _ "countdown env w' (keepAliveInterval c)"] exI [of _ w']) (simp add: sendPacket_def)
  qed
qed

lemma sendPacket_prompt:
  assumes "prompt env inp outp log T0 T" "0 < n" "n \<le> length (sendbuf c)" "resting T0 T c"
  shows "\<exists>t w'. sendPacket env (int n) timer c w = Some (SUCCESS, c\<lparr>last_sent := t\<rparr>, w') \<and>
    inp w' = inp w \<and> outp w' = outp w @ take n (sendbuf c) \<and> log w' = log w \<and> resting T0 T (c\<lparr>last_sent := t\<rparr>)"
proof -
  have "keepAliveInterval c = 0 \<or> T - T0 < unat (keepAliveInterval c * 1000)"
    using assms(4) by (auto simp: resting_def)
  then obtain t w' where "sendPacket env (int n) timer c w = Some (SUCCESS, c\<lparr>last_sent := t\<rparr>, w')"
    "inp w' = inp w" "outp w' = outp w @ take n (sendbuf c)" "log w' = log w" "keepAliveInterval c = 0 \<or> alive T t"
    using sendPacket_fresh [OF assms(1-3)] by blast
  moreover from this(5) have "resting T0 T (c\<lparr>last_sent := t\<rparr>)"
    using assms(4) by (auto simp: resting_def)
  ultimately show ?thesis
    by blast
qed

lemma prompt_byte_source:
  assumes "prompt env inp outp log T0 T"
  shows "byte_source (getchar_of (\<lambda>w n. ipstack_read env w n t)) inp"
proof (rule byte_source.intro)
  fix w b bs
  assume i: "inp w = b # bs"
  obtain w' where w': "ipstack_read env w 1 t = (1, take (nat 1) (inp w), w')" "inp w' = drop (nat 1) (inp w)"
    using prompt_readE [OF assms, of 1 w] i by auto
  show "\<exists>w'. getchar_of (\<lambda>w n. ipstack_read env w n t) w = Some (1, b, w') \<and> inp w' = bs"
    using w' i by (auto simp: getchar_of_def)
qed

lemma decode_loop_keeps:
  assumes "decode_loop getcharfn s m len v = Some (l, v', s')" "P s"
    and "\<And>s rc c s'. P s \<Longrightarrow> getcharfn s = Some (rc, c, s') \<Longrightarrow> P s'"
  shows "P s'"
  using assms(1,2)
proof (induction "5 - len" arbitrary: s m len v)
  case 0
  then show ?case
    by (simp add: decode_loop.simps [of getcharfn s] MAX_NO_OF_REMAINING_LENGTH_BYTES_def)
next
  case (Suc d)
  show ?case
  proof (cases "len + 1 > MAX_NO_OF_REMAINING_LENGTH_BYTES")
    case True
    then show ?thesis
      using Suc.prems by (simp add: decode_loop.simps [of getcharfn s])
  next
    case False
    then obtain rc c s1 where g: "getcharfn s = Some (rc, c, s1)"
      using Suc.prems(1) by (auto simp: decode_loop.simps [of getcharfn s] bind_eq_Some_conv)
    have "P s1"
      using assms(3) [OF Suc.prems(2) g] .
    then show ?thesis
      using Suc.prems(1) False g Suc.hyps(1) [of "Suc len" s1 "m * 128" "v + uint (c AND 127) * m"] Suc.hyps(2)
      by (auto simp: decode_loop.simps [of getcharfn s] Let_def split: if_splits)
  qed
qed

lemma decodePacket_prompt:
  assumes "prompt env inp outp log T0 T" "inp w = enc_len n @ rest" "n < 268435456"
  shows "\<exists>w'. decodePacket env t w = Some (length (enc_len n), int n, w') \<and>
    inp w' = rest \<and> outp w' = outp w \<and> log w' = log w"
proof -
  obtain w' where w': "decodePacket env t w = Some (length (enc_len n), int n, w')" "inp w' = rest"
    using byte_source.decode_loop_enc [OF prompt_byte_source [OF assms(1)], of w n rest 0 t 1 0]
      assms(2) length_enc_len_le [OF assms(3)] by (auto simp: decodePacket_def)
  have "outp w' = outp w \<and> log w' = log w"
    by (rule decode_loop_keeps [OF w'(1) [unfolded decodePacket_def]])
      (auto simp: getchar_of_def dest: prompt_read_same [OF assms(1)] split: prod.splits list.splits if_splits)
  with w' show ?thesis
    by blast
qed

text \<open>A packet: its header byte and its body.\<close>

definition packet :: "byte \<Rightarrow> byte list \<Rightarrow> byte list" where
  "packet h body = h # enc_len (length body) @ body"

lemma readPacket_prompt:
  assumes "prompt env inp outp log T0 T" "inp w = packet h body @ rest" "resting T0 T c"
    and "length (readbuf c) = 500" "length (packet h body) \<le> 500"
  shows "\<exists>buf t w'. readPacket env timer c w =
      Some (uint (hdr_type (header_bits h)), c\<lparr>readbuf := buf, last_received := t\<rparr>, w') \<and>
    length buf = 500 \<and> holds buf 0 (packet h body) \<and> inp w' = rest \<and> outp w' = outp w \<and> log w' = log w \<and>
    resting T0 T (c\<lparr>readbuf := buf, last_received := t\<rparr>)"
proof -
  let ?n = "length body" and ?l = "enc_len (length body)"
  have n: "?n < 268435456" "1 + length ?l + ?n \<le> 500"
    using assms(5) by (simp_all add: packet_def)
  obtain w1 where w1: "ipstack_read env w 1 (left_ms env w timer) = (1, take (nat 1) (inp w), w1)"
    "inp w1 = drop (nat 1) (inp w)" "outp w1 = outp w" "log w1 = log w"
    using prompt_readE [OF assms(1), of 1 w] assms(2) by (auto simp: packet_def)
  obtain w2 where w2: "decodePacket env (left_ms env w1 timer) w1 = Some (length ?l, int ?n, w2)"
    "inp w2 = body @ rest" "outp w2 = outp w" "log w2 = log w"
    using decodePacket_prompt [OF assms(1), of w1 ?n "body @ rest"] w1 assms(2) n(1) by (auto simp: packet_def)
  obtain b1 where b1: "wr_bytes (readbuf c) 0 [h] = Some b1"
    using assms(4) by (simp add: wr_bytes_def)
  obtain b2 where b2: "wr_bytes b1 1 ?l = Some b2"
    using n(2) assms(4) wr_bytes_length [OF b1] by (simp add: wr_bytes_def)
  have len2: "length b2 = 500"
    using assms(4) wr_bytes_length [OF b1] wr_bytes_length [OF b2] by simp
  obtain b3 where b3: "wr_bytes b2 (1 + length ?l) body = Some b3"
    using n(2) len2 by (simp add: wr_bytes_def)
  have len3: "length b3 = 500"
    using wr_bytes_length [OF b3] len2 by simp
  have "wr_bytes (readbuf c) 0 (packet h body) = Some b3"
    using b1 b2 b3 wr_bytes_append [of "readbuf c" 0 "[h]" "?l @ body"] wr_bytes_append [of b1 1 ?l body]
    by (simp add: packet_def)
  then have h: "holds b3 0 (packet h body)"
    using holds_put [of "packet h body" "readbuf c" 0 b3] by (simp add: put_def)
  then have rd0: "rd b3 0 = Some h"
    using holds_append [of b3 0 "[h]" "?l @ body"] by (simp add: packet_def holds_rd)
  obtain w3 where w3: "(if int ?n > 0 then (case ipstack_read env w2 (int ?n) (left_ms env w2 timer) of (n, bs, w) \<Rightarrow>
        map_option (\<lambda>buf. (n, buf, w)) (wr_bytes b2 (nat (1 + int (length ?l))) bs))
      else Some (int ?n, b2, w2)) = Some (int ?n, b3, w3)"
    "inp w3 = rest" "outp w3 = outp w" "log w3 = log w"
  proof (cases "body = []")
    case True
    then have "b3 = b2"
      using b3 len2 n(2) by (simp add: wr_bytes_def)
    with True that w2 show thesis
      by simp
  next
    case False
    obtain w3 where "ipstack_read env w2 (int ?n) (left_ms env w2 timer) = (int ?n, take (nat (int ?n)) (inp w2), w3)"
      "inp w3 = drop (nat (int ?n)) (inp w2)" "outp w3 = outp w2" "log w3 = log w2"
      using prompt_readE [OF assms(1), of "int ?n" w2 "left_ms env w2 timer"] False w2 by auto
    with that [of w3] False w2 b3 show thesis
      by (simp add: nat_add_distrib)
  qed
  define t where "t = (if keepAliveInterval c > 0 then countdown env w3 (keepAliveInterval c) else last_received c)"
  have "readPacket env timer c w =
      Some (uint (hdr_type (header_bits h)), c\<lparr>readbuf := b3, last_received := t\<rparr>, w3)"
    using w1 w2 b1 b2 n(2) rd0 assms(2) w3(1)
    by (simp add: readPacket_def packet_def MQTTPacket_encode_put MAX_MQTT_PACKET_SIZE_def t_def)
  moreover have "resting T0 T (c\<lparr>readbuf := b3, last_received := t\<rparr>)"
    using assms(3) alive_countdown_ms [OF assms(1), of "keepAliveInterval c * 1000" w3]
    by (auto simp: resting_def t_def countdown_def word_greater_zero_iff)
  ultimately show ?thesis
    using len3 h w3 by blast
qed

section \<open>Incoming messages\<close>

definition handler_matches :: "'h MessageHandlers \<Rightarrow> byte list \<Rightarrow> bool" where
  "handler_matches m t = (case topicFilter m of None \<Rightarrow> False | Some f \<Rightarrow> f = t \<or> topic_match f t)"

definition targets :: "'h MessageHandlers list \<Rightarrow> byte list \<Rightarrow> 'h list" where
  "targets hs t = List.map_filter (\<lambda>m. if handler_matches m t then fp m else None) hs"

text \<open>Who gets a message on topic \<open>t\<close>: the matching handlers, in the order of the table, or the default one.\<close>

definition receivers :: "'h Client \<Rightarrow> byte list \<Rightarrow> 'h list" where
  "receivers c t =
     (if targets (messageHandlers c) t = [] then (case defaultMessageHandler c of Some h \<Rightarrow> [h] | None \<Rightarrow> [])
      else targets (messageHandlers c) t)"

definition filters_ok :: "'h MessageHandlers list \<Rightarrow> bool" where
  "filters_ok hs \<longleftrightarrow> (\<forall>m \<in> set hs. \<forall>f. topicFilter m = Some f \<longrightarrow> 0 \<notin> set f)"

lemma targets_simps [simp]:
  "targets [] t = []"
  "targets (m # hs) t = (if handler_matches m t then (case fp m of Some h \<Rightarrow> [h] | None \<Rightarrow> []) else []) @ targets hs t"
  by (simp_all add: targets_def List.map_filter_simps split: option.splits)

lemma MQTTPacket_equals_bytes:
  assumes "str_ok m" "cstring m = None" "0 \<notin> set f"
  shows "MQTTPacket_equals m f = Some (str_bytes m = f)"
proof (cases "ls_data (lenstring m)")
  case None
  then show ?thesis
    using assms by (auto simp: MQTTPacket_equals_def str_ok_def str_bytes_def)
next
  case (Some d)
  then have l: "0 \<le> ls_len (lenstring m)" "nat (ls_len (lenstring m)) \<le> length d"
    using assms by (simp_all add: str_ok_def)
  show ?thesis
  proof (cases "ls_len (lenstring m) = int (length f)")
    case True
    then show ?thesis
      using Some assms l strncmp_eq_take [of f "length f" d]
      by (auto simp: MQTTPacket_equals_def str_bytes_def)
  next
    case False
    then have "length (str_bytes m) \<noteq> length f"
      using Some assms l by (auto simp: str_bytes_def)
    then show ?thesis
      using Some assms l False by (auto simp: MQTTPacket_equals_def)
  qed
qed

lemma isTopicMatched_bytes:
  assumes "str_ok m" "cstring m = None"
  shows "isTopicMatched f m = Some (topic_match f (str_bytes m))"
  using assms
  by (cases "ls_data (lenstring m)") (auto simp: isTopicMatched_def str_ok_def str_bytes_def topic_loop_match)

lemma deliver_loop_prompt:
  assumes "prompt env inp outp log T0 T" "str_ok m" "cstring m = None" "filters_ok hs"
  shows "\<exists>w'. deliver_loop env hs m msg rc w = Some (if targets hs (str_bytes m) = [] then rc else SUCCESS, w') \<and>
    inp w' = inp w \<and> outp w' = outp w \<and>
    log w' = log w @ map (\<lambda>h. (h, str_bytes m, payload_bytes msg)) (targets hs (str_bytes m))"
  using assms(4)
proof (induction hs arbitrary: rc w)
  case (Cons x hs)
  have run: "inp (run_handler env h m msg w) = inp w" "outp (run_handler env h m msg w) = outp w"
    "log (run_handler env h m msg w) = log w @ [(h, str_bytes m, payload_bytes msg)]" for h w
    using assms(1) by (simp_all add: prompt_def)
  have ok: "filters_ok hs" "topicFilter x = Some f \<Longrightarrow> 0 \<notin> set f" for f
    using Cons.prems by (simp_all add: filters_ok_def)
  have hit: "(case topicFilter x of None \<Rightarrow> Some False | Some f \<Rightarrow>
      Option.bind (MQTTPacket_equals m f) (\<lambda>eq. if eq then Some True else isTopicMatched f m)) =
      Some (handler_matches x (str_bytes m))"
    using ok(2) assms(2,3)
    by (auto simp: handler_matches_def MQTTPacket_equals_bytes isTopicMatched_bytes split: option.splits)
  show ?case
    using Cons.IH [OF ok(1), of SUCCESS "run_handler env (the (fp x)) m msg w"] Cons.IH [OF ok(1), of rc w]
    by (cases "handler_matches x (str_bytes m)"; cases "fp x") (simp_all add: hit run)
qed simp

lemma deliverMessage_prompt:
  assumes "prompt env inp outp log T0 T" "str_ok m" "cstring m = None" "filters_ok (messageHandlers c)"
  shows "\<exists>rc w'. deliverMessage env m msg c w = Some (rc, w') \<and> inp w' = inp w \<and> outp w' = outp w \<and>
    log w' = log w @ map (\<lambda>h. (h, str_bytes m, payload_bytes msg)) (receivers c (str_bytes m))"
proof -
  obtain w1 where w1: "deliver_loop env (messageHandlers c) m msg FAILURE w =
      Some (if targets (messageHandlers c) (str_bytes m) = [] then FAILURE else SUCCESS, w1)"
    "inp w1 = inp w" "outp w1 = outp w"
    "log w1 = log w @ map (\<lambda>h. (h, str_bytes m, payload_bytes msg)) (targets (messageHandlers c) (str_bytes m))"
    using deliver_loop_prompt [OF assms] by blast
  have run: "inp (run_handler env h m msg w1) = inp w1" "outp (run_handler env h m msg w1) = outp w1"
    "log (run_handler env h m msg w1) = log w1 @ [(h, str_bytes m, payload_bytes msg)]" for h
    using assms(1) by (simp_all add: prompt_def)
  show ?thesis
    using w1 run by (auto simp: deliverMessage_def receivers_def return_codes split: option.splits)
qed

text \<open>What an exchange of packets leaves of the client.\<close>

definition same_session :: "'h Client \<Rightarrow> 'h Client \<Rightarrow> bool" where
  "same_session c c' \<longleftrightarrow> length (sendbuf c') = length (sendbuf c) \<and> length (readbuf c') = length (readbuf c) \<and>
     (\<exists>sb rb ls lr. c' = c\<lparr>sendbuf := sb, readbuf := rb, last_sent := ls, last_received := lr\<rparr>)"

lemma same_sessionD:
  assumes "same_session c c'"
  shows "length (sendbuf c') = length (sendbuf c)" "length (readbuf c') = length (readbuf c)"
    "messageHandlers c' = messageHandlers c" "defaultMessageHandler c' = defaultMessageHandler c"
    "isconnected c' = isconnected c" "inflightMsgid c' = inflightMsgid c" "packetid c' = packetid c"
    "cleansession c' = cleansession c" "pubbuf c' = pubbuf c" "keepAliveInterval c' = keepAliveInterval c"
    "receivers c' t = receivers c t" "command_timeout_ms c' = command_timeout_ms c"
    "inflightLen c' = inflightLen c" "inflightQoS c' = inflightQoS c"
  using assms by (auto simp: same_session_def receivers_def)

lemma same_session_trans: "same_session c c' \<Longrightarrow> same_session c' c'' \<Longrightarrow> same_session c c''"
  by (auto simp: same_session_def) (intro exI, rule refl)

lemma same_session_buffers:
  "length rb = length (readbuf c) \<Longrightarrow> same_session c (c\<lparr>readbuf := rb, last_received := t\<rparr>)"
  "length sb = length (sendbuf c) \<Longrightarrow> same_session c (c\<lparr>sendbuf := sb, last_sent := t\<rparr>)"
  unfolding same_session_def
  by (rule conjI, simp, rule conjI, simp, rule exI [of _ "sendbuf c"], rule exI [of _ rb], rule exI [of _ "last_sent c"],
      rule exI [of _ t], simp)
    (rule conjI, simp, rule conjI, simp, rule exI [of _ sb], rule exI [of _ "readbuf c"], rule exI [of _ t],
      rule exI [of _ "last_received c"], simp)

lemma resting_sendbuf [simp]:
  "resting T0 T (c\<lparr>sendbuf := sb\<rparr>) = resting T0 T c"
  "resting T0 T (c\<lparr>readbuf := sb\<rparr>) = resting T0 T c"
  by (simp_all add: resting_def)

lemma readMQTTLenString_cstring: "readMQTTLenString m buf p e = Some (ok, m', p') \<Longrightarrow> cstring m' = None"
  by (auto simp: readMQTTLenString_def bind_eq_Some_conv Let_def split: if_splits)

lemma MQTTDeserialize_publish_cstring:
  "MQTTDeserialize_publish unset_message buf n = Some (rc, out) \<Longrightarrow> cstring (pub_topicName out) = None"
  by (auto simp: MQTTDeserialize_publish_def bind_eq_Some_conv Let_def unset_message_def MQTTString_initializer_def
      dest!: readMQTTLenString_cstring split: if_splits)

lemma cycle_publish_prompt:
  assumes env: "prompt env inp outp log T0 T" and c: "resting T0 T c" "length (sendbuf c) = 500"
    and h: "holds (readbuf c) 0 (enc_publish d q r pid topic payload)"
    and n: "length (publish_body q pid topic payload) < 268435456" "length topic < 65536"
    and q: "q = 0 \<or> q = 1" and f: "filters_ok (messageHandlers c)"
  shows "\<exists>c' w'. cycle_publish env timer c w = Some (False, SUCCESS, c', w') \<and> same_session c c' \<and> resting T0 T c' \<and>
    inp w' = inp w \<and> outp w' = outp w @ (if q = 0 then [] else enc_ack 4 0 0 pid) \<and>
    log w' = log w @ map (\<lambda>h. (h, topic, payload)) (receivers c topic)"
proof -
  obtain m p where m: "MQTTDeserialize_publish unset_message (readbuf c) MAX_MQTT_PACKET_SIZE =
      Some (1, unset_message\<lparr>pub_dup := ucast d, pub_qos := uint q, pub_retained := ucast r, pub_topicName := m,
        pub_packetid := (if q = 0 then pub_packetid unset_message else pid),
        pub_payloadlen := int (length payload), pub_payload := Some (drop p (readbuf c))\<rparr>)"
    "str_bytes m = topic" "str_ok m" "holds (readbuf c) p payload"
    using MQTTDeserialize_publish_holds [OF h n] by blast
  define msg where "msg = unset_message\<lparr>pub_dup := ucast d, pub_qos := uint q, pub_retained := ucast r, pub_topicName := m,
        pub_packetid := (if q = 0 then pub_packetid unset_message else pid),
        pub_payloadlen := int (length payload), pub_payload := Some (drop p (readbuf c))\<rparr>"
  have msg: "pub_topicName msg = m" "pub_qos msg = uint q" "payload_bytes msg = payload" "q \<noteq> 0 \<Longrightarrow> pub_packetid msg = pid"
    using m(4) by (simp_all add: msg_def payload_bytes_def holds_def)
  have cs: "cstring m = None"
    using MQTTDeserialize_publish_cstring [OF m(1)] by simp
  obtain rc w1 where w1: "deliverMessage env m msg c w = Some (rc, w1)" "inp w1 = inp w" "outp w1 = outp w"
    "log w1 = log w @ map (\<lambda>h. (h, topic, payload)) (receivers c topic)"
    using deliverMessage_prompt [OF env m(3) cs f, of msg w] m(2) msg(3) by auto
  show ?thesis
  proof (cases "q = 0")
    case True
    have "same_session c c"
      unfolding same_session_def by (intro conjI refl exI [of _ "sendbuf c"] exI [of _ "readbuf c"] exI [of _ "last_sent c"]
          exI [of _ "last_received c"]) simp
    then show ?thesis
      using True m(1) w1 msg(1,2) c(1) unfolding msg_def [symmetric]
      by (intro exI [of _ c] exI [of _ w1]) (simp add: cycle_publish_def)
  next
    case False
    then have q1: "q = 1" "uint q = 1"
      using q by auto
    define sb where "sb = enc_ack 4 0 0 pid @ drop 4 (sendbuf c)"
    have ack: "MQTTSerialize_ack (sendbuf c) MAX_MQTT_PACKET_SIZE (msg_code PUBACK) 0 pid = Some (4, sb)"
      using MQTTSerialize_ack_put [of MAX_MQTT_PACKET_SIZE "sendbuf c" "msg_code PUBACK" 0 pid] c(2)
      by (simp add: MAX_MQTT_PACKET_SIZE_def sb_def)
    have len: "length (enc_ack 4 0 0 pid) = 4" "length sb = 500"
      using c(2) by (simp_all add: sb_def enc_ack_def enc_len_small)
    obtain t w2 where w2: "sendPacket env (int 4) timer (c\<lparr>sendbuf := sb\<rparr>) w1 = Some (SUCCESS, c\<lparr>sendbuf := sb, last_sent := t\<rparr>, w2)"
      "inp w2 = inp w1" "outp w2 = outp w1 @ take 4 sb" "log w2 = log w1" "resting T0 T (c\<lparr>sendbuf := sb, last_sent := t\<rparr>)"
      using sendPacket_prompt [OF env, of 4 "c\<lparr>sendbuf := sb\<rparr>" timer w1] c len by auto
    have "take 4 sb = enc_ack 4 0 0 pid"
      using len by (simp add: sb_def)
    then show ?thesis
      using False q1 m(1) w1 w2 msg(1,2) msg(4) [OF False] ack same_session_buffers(2) [of sb c t] c(2) len(2)
      unfolding msg_def [symmetric]
      by (intro exI [of _ "c\<lparr>sendbuf := sb, last_sent := t\<rparr>"] exI [of _ w2])
        (simp add: cycle_publish_def return_codes)
  qed
qed

section \<open>One cycle, and waiting for an answer\<close>

text \<open>A message of the broker: its flags, identifier, topic and payload.\<close>

record message =
  msg_dup :: "1 word"
  msg_qos :: "2 word"
  msg_retain :: "1 word"
  msg_id :: u16
  msg_topic :: "byte list"
  msg_payload :: "byte list"

definition wire :: "message \<Rightarrow> byte list" where
  "wire m = enc_publish (msg_dup m) (msg_qos m) (msg_retain m) (msg_id m) (msg_topic m) (msg_payload m)"

definition message_ok :: "message \<Rightarrow> bool" where
  "message_ok m \<longleftrightarrow> (msg_qos m = 0 \<or> msg_qos m = 1) \<and> length (wire m) \<le> 500"

definition replies :: "message \<Rightarrow> byte list" where
  "replies m = (if msg_qos m = 0 then [] else enc_ack 4 0 0 (msg_id m))"

definition deliveries :: "'h Client \<Rightarrow> message \<Rightarrow> 'h delivery list" where
  "deliveries c m = map (\<lambda>h. (h, msg_topic m, msg_payload m)) (receivers c (msg_topic m))"

definition session_ok :: "nat \<Rightarrow> nat \<Rightarrow> 'h Client \<Rightarrow> bool" where
  "session_ok T0 T c \<longleftrightarrow> resting T0 T c \<and> length (sendbuf c) = 500 \<and> length (readbuf c) = 500 \<and>
     filters_ok (messageHandlers c)"

lemma session_ok_same: "session_ok T0 T c \<Longrightarrow> same_session c c' \<Longrightarrow> resting T0 T c' \<Longrightarrow> session_ok T0 T c'"
  by (simp add: session_ok_def same_sessionD)

lemma deliveries_same: "same_session c c' \<Longrightarrow> deliveries c' m = deliveries c m"
  by (simp add: deliveries_def same_sessionD)

lemma wire_packet:
  "\<exists>h body. wire m = packet h body \<and> hdr_type (header_bits h) = 3 \<and>
     body = publish_body (msg_qos m) (msg_id m) (msg_topic m) (msg_payload m)"
  unfolding wire_def enc_publish_body packet_def [symmetric] by (intro exI conjI, rule refl) simp_all

lemma cycle_message:
  assumes env: "prompt env inp outp log T0 T" and c: "session_ok T0 T c" and m: "message_ok m"
    and inp: "inp w = wire m @ rest"
  shows "\<exists>c' w'. cycle env timer c w = Some (msg_int PUBLISH, c', w') \<and> same_session c c' \<and> session_ok T0 T c' \<and>
    inp w' = rest \<and> outp w' = outp w @ replies m \<and> log w' = log w @ deliveries c m"
proof -
  have c': "resting T0 T c" "length (sendbuf c) = 500" "length (readbuf c) = 500" "filters_ok (messageHandlers c)"
    using c by (simp_all add: session_ok_def)
  obtain h body where h: "wire m = packet h body" "hdr_type (header_bits h) = 3"
    "body = publish_body (msg_qos m) (msg_id m) (msg_topic m) (msg_payload m)"
    using wire_packet [of m] by blast
  have n: "length (packet h body) \<le> 500" "length body < 268435456" "length (msg_topic m) < 65536"
    using m h(1,3) by (simp_all add: message_ok_def packet_def publish_body_def)
  obtain buf t w1 where r: "readPacket env timer c w = Some (3, c\<lparr>readbuf := buf, last_received := t\<rparr>, w1)"
    "length buf = 500" "holds buf 0 (wire m)" "inp w1 = rest" "outp w1 = outp w" "log w1 = log w"
    "resting T0 T (c\<lparr>readbuf := buf, last_received := t\<rparr>)"
    using readPacket_prompt [OF env inp [unfolded h(1)] c'(1,3) n(1), of timer] h(1,2) by auto
  let ?c1 = "c\<lparr>readbuf := buf, last_received := t\<rparr>"
  have s1: "same_session c ?c1"
    by (rule same_session_buffers) (use r c' in simp)
  obtain c2 w2 where p: "cycle_publish env timer ?c1 w1 = Some (False, SUCCESS, c2, w2)" "same_session ?c1 c2"
    "resting T0 T c2" "inp w2 = inp w1"
    "outp w2 = outp w1 @ (if msg_qos m = 0 then [] else enc_ack 4 0 0 (msg_id m))"
    "log w2 = log w1 @ map (\<lambda>h. (h, msg_topic m, msg_payload m)) (receivers ?c1 (msg_topic m))"
    using cycle_publish_prompt [OF env r(7), of "msg_dup m" "msg_qos m" "msg_retain m" "msg_id m" "msg_topic m"
        "msg_payload m" timer w1] r(3) c' m n(2,3) h(3) by (auto simp: wire_def message_ok_def)
  have "cycle env timer c w = Some (msg_int PUBLISH, c2, w2)"
    using r(1) p(1) keepalive_resting [OF env p(3), of w2] by (simp add: cycle_def msg_int_def return_codes)
  moreover have "same_session c c2"
    using same_session_trans [OF s1 p(2)] .
  ultimately show ?thesis
    using p r same_sessionD(11) [OF s1] session_ok_same [OF c _ p(3)]
    by (intro exI [of _ c2] exI [of _ w2]) (simp add: replies_def deliveries_def)
qed

lemma cycle_answer:
  assumes env: "prompt env inp outp log T0 T" and c: "session_ok T0 T c"
    and ty: "ty = CONNACK \<or> ty = PUBACK \<or> ty = SUBACK" "ucast (hdr_type (header_bits h)) = msg_code ty"
    and n: "length (packet h body) \<le> 500" and inp: "inp w = packet h body @ rest"
  shows "\<exists>c' w'. cycle env timer c w = Some (msg_int ty, c', w') \<and> same_session c c' \<and> session_ok T0 T c' \<and>
    holds (readbuf c') 0 (packet h body) \<and> inp w' = rest \<and> outp w' = outp w \<and> log w' = log w"
proof -
  have c': "resting T0 T c" "length (sendbuf c) = 500" "length (readbuf c) = 500" "filters_ok (messageHandlers c)"
    using c by (simp_all add: session_ok_def)
  have t: "uint (hdr_type (header_bits h)) = msg_int ty"
    using ty(2) by (metis msg_int_def unsigned_ucast_eq take_bit_word_eq_self len_bit0 le_add1 mult_2
        uint_up_ucast is_up.rep_eq numeral_le_iff len_num1)
  obtain buf t w1 where r: "readPacket env timer c w = Some (msg_int ty, c\<lparr>readbuf := buf, last_received := t\<rparr>, w1)"
    "length buf = 500" "holds buf 0 (packet h body)" "inp w1 = rest" "outp w1 = outp w" "log w1 = log w"
    "resting T0 T (c\<lparr>readbuf := buf, last_received := t\<rparr>)"
    using readPacket_prompt [OF env inp c'(1,3) n, of timer] t by auto
  let ?c1 = "c\<lparr>readbuf := buf, last_received := t\<rparr>"
  have s1: "same_session c ?c1"
    by (rule same_session_buffers) (use r c' in simp)
  have "cycle env timer c w = Some (msg_int ty, ?c1, w1)"
    using r(1) ty(1) keepalive_resting [OF env r(7), of w1] by (auto simp: cycle_def msg_int_def return_codes)
  then show ?thesis
    using r s1 session_ok_same [OF c s1 r(7)] by (intro exI [of _ ?c1] exI [of _ w1]) simp
qed

text \<open>While the client waits for an answer it serves the messages that come before it.\<close>

lemma waitfor_loop_serves:
  assumes env: "prompt env inp outp log T0 T" and timer: "alive T timer"
    and ty: "ty = CONNACK \<or> ty = PUBACK \<or> ty = SUBACK" "ucast (hdr_type (header_bits h)) = msg_code ty"
    and n: "length (packet h body) \<le> 500"
  shows "session_ok T0 T c \<Longrightarrow> inp w = concat (map wire ms) @ packet h body @ rest \<Longrightarrow> \<forall>m \<in> set ms. message_ok m \<Longrightarrow>
    \<exists>c' w'. waitfor_loop env (msg_int ty) timer rc c w = Some (msg_int ty, c', w') \<and> same_session c c' \<and>
      session_ok T0 T c' \<and> holds (readbuf c') 0 (packet h body) \<and> inp w' = rest \<and>
      outp w' = outp w @ concat (map replies ms) \<and> log w' = log w @ concat (map (deliveries c) ms)"
proof (induction ms arbitrary: rc c w)
  case Nil
  obtain c' w' where "cycle env timer c w = Some (msg_int ty, c', w')" "same_session c c'" "session_ok T0 T c'"
    "holds (readbuf c') 0 (packet h body)" "inp w' = rest" "outp w' = outp w" "log w' = log w"
    using cycle_answer [OF env Nil(1) ty n, of w rest timer] Nil(2) by auto
  then show ?case
    using alive_not_expired [OF env timer, of w] by (subst waitfor_loop.simps) simp
next
  case (Cons m ms)
  have m: "message_ok m" "\<forall>m \<in> set ms. message_ok m" "inp w = wire m @ concat (map wire ms) @ packet h body @ rest"
    using Cons.prems by simp_all
  obtain c1 w1 where 1: "cycle env timer c w = Some (msg_int PUBLISH, c1, w1)" "same_session c c1" "session_ok T0 T c1"
    "inp w1 = concat (map wire ms) @ packet h body @ rest" "outp w1 = outp w @ replies m" "log w1 = log w @ deliveries c m"
    using cycle_message [OF env Cons.prems(1) m(1,3)] by blast
  obtain c2 w2 where 2: "waitfor_loop env (msg_int ty) timer (msg_int PUBLISH) c1 w1 = Some (msg_int ty, c2, w2)"
    "same_session c1 c2" "session_ok T0 T c2" "holds (readbuf c2) 0 (packet h body)" "inp w2 = rest"
    "outp w2 = outp w1 @ concat (map replies ms)" "log w2 = log w1 @ concat (map (deliveries c1) ms)"
    using Cons.IH [OF 1(3,4) m(2)] by blast
  have "msg_int PUBLISH \<noteq> msg_int ty" "0 \<le> msg_int PUBLISH"
    using ty(1) by (auto simp: msg_int_def)
  then have "waitfor_loop env (msg_int ty) timer rc c w = Some (msg_int ty, c2, w2)"
    using 1(1) 2(1) alive_not_expired [OF env timer, of w] by (subst waitfor_loop.simps) simp
  then show ?case
    using 1 2 same_session_trans [OF 1(2) 2(2)] deliveries_same [OF 1(2)]
    by (intro exI [of _ c2] exI [of _ w2]) (simp cong: map_cong)
qed

section \<open>Whole exchanges\<close>

text \<open>Sending what \<open>sendbuf\<close> starts with and waiting for the answer to it.\<close>

lemma send_and_wait:
  assumes env: "prompt env inp outp log T0 T" and timer: "alive T timer"
    and ty: "ty = CONNACK \<or> ty = PUBACK \<or> ty = SUBACK" "ucast (hdr_type (header_bits h)) = msg_code ty"
    and n: "length (packet h body) \<le> 500" and c: "session_ok T0 T c"
    and inp: "inp w = concat (map wire ms) @ packet h body @ rest" "\<forall>m \<in> set ms. message_ok m"
    and k: "0 < k" "k \<le> 500"
  shows "\<exists>t c1 w1 c' w'. sendPacket env (int k) timer c w = Some (SUCCESS, c1, w1) \<and> c1 = c\<lparr>last_sent := t\<rparr> \<and>
    session_ok T0 T c1 \<and> waitfor env ty timer c1 w1 = Some (msg_int ty, c', w') \<and> same_session c c' \<and>
    session_ok T0 T c' \<and> holds (readbuf c') 0 (packet h body) \<and> inp w' = rest \<and>
    outp w' = outp w @ take k (sendbuf c) @ concat (map replies ms) \<and> log w' = log w @ concat (map (deliveries c) ms)"
proof -
  have c': "resting T0 T c" "length (sendbuf c) = 500"
    using c by (simp_all add: session_ok_def)
  obtain t w1 where s: "sendPacket env (int k) timer c w = Some (SUCCESS, c\<lparr>last_sent := t\<rparr>, w1)"
    "inp w1 = inp w" "outp w1 = outp w @ take k (sendbuf c)" "log w1 = log w" "resting T0 T (c\<lparr>last_sent := t\<rparr>)"
    using sendPacket_prompt [OF env, of k c timer w] k c' by auto
  let ?c1 = "c\<lparr>last_sent := t\<rparr>"
  have s1: "same_session c ?c1"
    using same_session_buffers(2) [of "sendbuf c" c t] by simp
  have ok: "session_ok T0 T ?c1"
    using session_ok_same [OF c s1 s(5)] .
  obtain c2 w2 where "waitfor env ty timer ?c1 w1 = Some (msg_int ty, c2, w2)" "same_session ?c1 c2" "session_ok T0 T c2"
    "holds (readbuf c2) 0 (packet h body)" "inp w2 = rest" "outp w2 = outp w1 @ concat (map replies ms)"
    "log w2 = log w1 @ concat (map (deliveries ?c1) ms)"
    using waitfor_loop_serves [OF env timer ty n ok _ inp(2), of w1 rest FAILURE] s(2) inp(1)
    by (auto simp: waitfor_def)
  then show ?thesis
    using s ok same_session_trans [OF s1, of c2] deliveries_same [OF s1]
    by (intro exI [of _ t] exI [of _ ?c1] exI [of _ w1] exI [of _ c2] exI [of _ w2]) (simp cong: map_cong)
qed

lemma enc_ack_packet: "enc_ack ty q d pid = packet (header_byte \<lparr>hdr_retain = 0, hdr_qos = q, hdr_dup = d, hdr_type = ty\<rparr>) (be16 (unat pid))"
  by (simp add: enc_ack_def packet_def)

lemma publish_packet_qos1:
  assumes env: "prompt env inp outp log T0 T" and timer: "alive T timer" and c: "session_ok T0 T c"
    and inp: "inp w = concat (map wire ms) @ enc_ack 4 q d pid @ rest" "\<forall>m \<in> set ms. message_ok m"
    and k: "0 < k" "k \<le> 500"
  shows "\<exists>c1 c' w'. publish_packet env (int k) timer 1 c w = Some (SUCCESS, c', w') \<and> same_session c c1 \<and>
    session_ok T0 T c1 \<and> c' = (if inflightMsgid c = pid then c1\<lparr>inflightMsgid := 0\<rparr> else c1) \<and>
    inp w' = rest \<and> outp w' = outp w @ take k (sendbuf c) @ concat (map replies ms) \<and>
    log w' = log w @ concat (map (deliveries c) ms)"
proof -
  let ?h = "header_byte \<lparr>hdr_retain = 0, hdr_qos = q, hdr_dup = d, hdr_type = 4\<rparr>"
  obtain t c1 w1 c2 w2 where s: "sendPacket env (int k) timer c w = Some (SUCCESS, c1, w1)"
    "waitfor env PUBACK timer c1 w1 = Some (msg_int PUBACK, c2, w2)" "same_session c c2" "session_ok T0 T c2"
    "holds (readbuf c2) 0 (packet ?h (be16 (unat pid)))" "inp w2 = rest"
    "outp w2 = outp w @ take k (sendbuf c) @ concat (map replies ms)" "log w2 = log w @ concat (map (deliveries c) ms)"
    using send_and_wait [OF env timer _ _ _ c inp(1) [unfolded enc_ack_packet] inp(2) k, of PUBACK]
    by (auto simp: packet_def enc_len_small)
  have "MQTTDeserialize_ack \<lparr>ack_packettype = 0, ack_dup = 0, ack_packetid = 0\<rparr> (readbuf c2) MAX_MQTT_PACKET_SIZE =
      Some (1, \<lparr>ack_packettype = ucast (4 :: 4 word), ack_dup = ucast d, ack_packetid = pid\<rparr>)"
    by (rule MQTTDeserialize_ack_holds) (use s(5) in \<open>simp add: enc_ack_packet\<close>)
  then have "publish_packet env (int k) timer 1 c w =
      Some (SUCCESS, if inflightMsgid c = pid then c2\<lparr>inflightMsgid := 0\<rparr> else c2, w2)"
    using s(1,2) same_sessionD(6) [OF s(3)] by (simp add: publish_packet_def)
  then show ?thesis
    using s(3,4,6-8) by blast
qed

end
