(* ===== verification/Mqtt_Handlers.thy ===== *)
theory Mqtt_Handlers
  imports Mqtt_Session
begin

text \<open>
  The table of message handlers of \<open>lib/MQTT/MQTTClient.h\<close>: an array of ten slots that implements a
  finite map from topic filters to handlers.
\<close>

section \<open>Slots\<close>

lemma find_slot_Some:
  "find_slot P hs = Some i \<Longrightarrow> i < length hs \<and> P (hs ! i)"
  by (induction hs arbitrary: i) (auto split: if_splits)

lemma find_slot_None: "find_slot P hs = None \<longleftrightarrow> (\<forall>m \<in> set hs. \<not> P m)"
  by (induction hs) auto

section \<open>The map a table stands for\<close>

definition handler_table :: "'h MessageHandlers list \<Rightarrow> byte list \<Rightarrow> 'h option" where
  "handler_table hs f =
     (case find_slot (\<lambda>m. topicFilter m = Some f) hs of Some i \<Rightarrow> fp (hs ! i) | None \<Rightarrow> None)"

text \<open>No filter has two slots, and a slot in use has a handler.\<close>

definition table_ok :: "'h MessageHandlers list \<Rightarrow> bool" where
  "table_ok hs \<longleftrightarrow> (\<forall>m \<in> set hs. topicFilter m \<noteq> None \<longrightarrow> fp m \<noteq> None) \<and>
     (\<forall>i < length hs. \<forall>j < length hs. topicFilter (hs ! i) = topicFilter (hs ! j) \<longrightarrow>
        topicFilter (hs ! i) \<noteq> None \<longrightarrow> i = j)"

lemma table_ok_fp: "table_ok hs \<Longrightarrow> i < length hs \<Longrightarrow> topicFilter (hs ! i) = Some f \<Longrightarrow> fp (hs ! i) \<noteq> None"
  by (auto simp: table_ok_def dest: nth_mem)

lemma table_ok_inj:
  "table_ok hs \<Longrightarrow> i < length hs \<Longrightarrow> j < length hs \<Longrightarrow> topicFilter (hs ! i) = Some f \<Longrightarrow>
   topicFilter (hs ! j) = Some f \<Longrightarrow> i = j"
  by (auto simp: table_ok_def)

lemma handler_table_slot:
  assumes "table_ok hs" "i < length hs" "topicFilter (hs ! i) = Some f"
  shows "handler_table hs f = fp (hs ! i)" "find_slot (\<lambda>m. topicFilter m = Some f) hs = Some i"
proof -
  have "find_slot (\<lambda>m. topicFilter m = Some f) hs \<noteq> None"
    unfolding find_slot_None using nth_mem [OF assms(2)] assms(3) by blast
  then obtain j where j: "find_slot (\<lambda>m. topicFilter m = Some f) hs = Some j"
    by blast
  then have "j = i"
    using find_slot_Some [OF j] table_ok_inj [OF assms(1) _ assms(2) _ assms(3)] by blast
  with j show "handler_table hs f = fp (hs ! i)" "find_slot (\<lambda>m. topicFilter m = Some f) hs = Some i"
    by (simp_all add: handler_table_def)
qed

lemma handler_table_None:
  assumes "table_ok hs"
  shows "handler_table hs f = None \<longleftrightarrow> (\<forall>i < length hs. topicFilter (hs ! i) \<noteq> Some f)"
proof (cases "find_slot (\<lambda>m. topicFilter m = Some f) hs")
  case None
  then show ?thesis
    using None [unfolded find_slot_None] by (simp add: handler_table_def)
next
  case (Some i)
  then show ?thesis
    using find_slot_Some [OF Some] table_ok_fp [OF assms, of i f] by (auto simp: handler_table_def)
qed

lemma handler_table_update:
  assumes "table_ok hs" "i < length hs" "topicFilter (hs ! i) = None \<or> topicFilter (hs ! i) = Some f"
    and "topicFilter (hs ! i) = None \<Longrightarrow> handler_table hs f = None"
  shows "table_ok (hs[i := \<lparr>topicFilter = Some f, fp = Some h\<rparr>])"
    "handler_table (hs[i := \<lparr>topicFilter = Some f, fp = Some h\<rparr>]) = (handler_table hs)(f \<mapsto> h)"
proof -
  let ?hs = "hs[i := \<lparr>topicFilter = Some f, fp = Some h\<rparr>]"
  have other: "topicFilter (hs ! j) \<noteq> Some f" if "j < length hs" "j \<noteq> i" for j
    using that assms table_ok_inj [OF assms(1) that(1) assms(2), of f] handler_table_None [OF assms(1), of f] by auto
  show ok: "table_ok ?hs"
    unfolding table_ok_def
  proof (intro conjI ballI allI impI)
    fix m
    assume "m \<in> set ?hs" "topicFilter m \<noteq> None"
    then show "fp m \<noteq> None"
      using assms(1) by (auto simp: table_ok_def dest!: set_update_subset_insert [THEN subsetD])
  next
    fix j k
    assume jk: "j < length ?hs" "k < length ?hs" "topicFilter (?hs ! j) = topicFilter (?hs ! k)" "topicFilter (?hs ! j) \<noteq> None"
    then show "j = k"
      using other [of j] other [of k] assms(1) by (cases "j = i"; cases "k = i") (auto simp: table_ok_def)
  qed
  show "handler_table ?hs = (handler_table hs)(f \<mapsto> h)"
  proof
    fix g
    show "handler_table ?hs g = ((handler_table hs)(f \<mapsto> h)) g"
    proof (cases "g = f")
      case True
      then show ?thesis
        using handler_table_slot(1) [OF ok, of i f] assms(2) by simp
    next
      case False
      show ?thesis
      proof (cases "handler_table hs g")
        case None
        then have "handler_table ?hs g = None"
          unfolding handler_table_None [OF ok] using handler_table_None [OF assms(1), of g] False assms(2)
          by (auto simp: nth_list_update)
        then show ?thesis
          using None False by simp
      next
        case (Some x)
        then obtain j where j: "j < length hs" "topicFilter (hs ! j) = Some g"
          using handler_table_None [OF assms(1), of g] by auto
        moreover from this have "j \<noteq> i"
          using assms(3) False by auto
        ultimately show ?thesis
          using handler_table_slot(1) [OF ok, of j g] handler_table_slot(1) [OF assms(1) j] False by simp
      qed
    qed
  qed
qed

lemma handler_table_remove:
  assumes "table_ok hs" "i < length hs" "topicFilter (hs ! i) = Some f"
  shows "table_ok (hs[i := \<lparr>topicFilter = None, fp = None\<rparr>])"
    "handler_table (hs[i := \<lparr>topicFilter = None, fp = None\<rparr>]) = (handler_table hs)(f := None)"
proof -
  let ?hs = "hs[i := \<lparr>topicFilter = None, fp = None\<rparr>]"
  show ok: "table_ok ?hs"
    using assms(1,2) unfolding table_ok_def
    by (auto simp: nth_list_update dest!: set_update_subset_insert [THEN subsetD])
  show "handler_table ?hs = (handler_table hs)(f := None)"
  proof
    fix g
    show "handler_table ?hs g = ((handler_table hs)(f := None)) g"
    proof (cases "handler_table ?hs g")
      case None
      have "handler_table hs g = None" if "g \<noteq> f"
        unfolding handler_table_None [OF assms(1)] using None that assms(2,3)
        by (auto simp: handler_table_None [OF ok] nth_list_update split: if_splits)
      then show ?thesis
        using None by simp
    next
      case (Some x)
      then obtain j where j: "j < length ?hs" "topicFilter (?hs ! j) = Some g"
        using handler_table_None [OF ok, of g] by auto
      then have "j \<noteq> i" "topicFilter (hs ! j) = Some g" "j < length hs"
        using assms(2) by (auto simp: nth_list_update split: if_splits)
      moreover from this have "g \<noteq> f"
        using table_ok_inj [OF assms(1) _ assms(2) _ assms(3), of j] by auto
      ultimately show ?thesis
        using handler_table_slot(1) [OF ok j] handler_table_slot(1) [OF assms(1), of j g] by simp
    qed
  qed
qed

lemma card_handler_table:
  assumes "table_ok hs"
  shows "card (dom (handler_table hs)) = card {i. i < length hs \<and> topicFilter (hs ! i) \<noteq> None}"
proof -
  let ?I = "{i. i < length hs \<and> topicFilter (hs ! i) \<noteq> None}"
  have "dom (handler_table hs) = (\<lambda>i. the (topicFilter (hs ! i))) ` ?I"
  proof (intro equalityI subsetI)
    fix f
    assume "f \<in> dom (handler_table hs)"
    then obtain i where "i < length hs" "topicFilter (hs ! i) = Some f"
      using handler_table_None [OF assms, of f] by (auto simp: dom_def)
    then show "f \<in> (\<lambda>i. the (topicFilter (hs ! i))) ` ?I"
      by force
  next
    fix f
    assume "f \<in> (\<lambda>i. the (topicFilter (hs ! i))) ` ?I"
    then obtain i where "i < length hs" "topicFilter (hs ! i) = Some f"
      by force
    then have "handler_table hs f \<noteq> None"
      unfolding handler_table_None [OF assms] by blast
    then show "f \<in> dom (handler_table hs)"
      by blast
  qed
  moreover have "inj_on (\<lambda>i. the (topicFilter (hs ! i))) ?I"
    using assms by (auto simp: inj_on_def table_ok_def)
  ultimately show ?thesis
    by (simp add: card_image)
qed

lemma free_slot:
  assumes "table_ok hs"
  shows "find_slot (\<lambda>m. topicFilter m = None) hs \<noteq> None \<longleftrightarrow> card (dom (handler_table hs)) < length hs"
proof -
  let ?I = "{i. i < length hs \<and> topicFilter (hs ! i) \<noteq> None}"
  have sub: "?I \<subseteq> {..<length hs}"
    by auto
  have "find_slot (\<lambda>m. topicFilter m = None) hs = None \<longleftrightarrow> (\<forall>i < length hs. topicFilter (hs ! i) \<noteq> None)"
    unfolding find_slot_None all_set_conv_all_nth ..
  also have "\<dots> \<longleftrightarrow> {..<length hs} \<subseteq> ?I"
    unfolding subset_iff by simp
  also have "\<dots> \<longleftrightarrow> ?I = {..<length hs}"
    using sub by (simp only: set_eq_subset simp_thms)
  also have "\<dots> \<longleftrightarrow> card ?I = length hs"
  proof
    show "card ?I = length hs" if "?I = {..<length hs}"
      unfolding that by (rule card_lessThan)
    show "?I = {..<length hs}" if "card ?I = length hs"
      by (rule card_subset_eq [OF finite_lessThan sub]) (simp only: that card_lessThan)
  qed
  also have "\<dots> \<longleftrightarrow> \<not> card ?I < length hs"
    using card_mono [OF finite_lessThan sub] unfolding card_lessThan by linarith
  finally show ?thesis
    using card_handler_table [OF assms] by simp
qed

section \<open>The operation\<close>

lemma setMessageHandler_table:
  assumes "table_ok (messageHandlers c)" "setMessageHandler f mh c = (rc, c')"
  shows "table_ok (messageHandlers c')"
    and "length (messageHandlers c') = length (messageHandlers c)"
    and "rc = SUCCESS \<longleftrightarrow> f \<in> dom (handler_table (messageHandlers c)) \<or>
      mh \<noteq> None \<and> card (dom (handler_table (messageHandlers c))) < length (messageHandlers c)"
    and "rc = SUCCESS \<or> rc = FAILURE"
    and "handler_table (messageHandlers c') =
      (if rc = SUCCESS then (handler_table (messageHandlers c))(f := mh) else handler_table (messageHandlers c))"
    and "c' = c\<lparr>messageHandlers := messageHandlers c'\<rparr>"
proof -
  let ?hs = "messageHandlers c"
  let ?P = "table_ok (messageHandlers c') \<and> length (messageHandlers c') = length ?hs \<and>
    (rc = SUCCESS \<longleftrightarrow> f \<in> dom (handler_table ?hs) \<or> mh \<noteq> None \<and> card (dom (handler_table ?hs)) < length ?hs) \<and>
    (rc = SUCCESS \<or> rc = FAILURE) \<and>
    handler_table (messageHandlers c') = (if rc = SUCCESS then (handler_table ?hs)(f := mh) else handler_table ?hs) \<and>
    c' = c\<lparr>messageHandlers := messageHandlers c'\<rparr>"
  have ?P
  proof (cases "find_slot (\<lambda>m. topicFilter m = Some f) ?hs")
    case (Some i)
    then have i: "i < length ?hs" "topicFilter (?hs ! i) = Some f"
      using find_slot_Some [OF Some] by simp_all
    have "f \<in> dom (handler_table ?hs)"
      using handler_table_slot(1) [OF assms(1) i] table_ok_fp [OF assms(1) i] by (simp add: dom_def)
    then show ?thesis
      using assms(2) Some i handler_table_update [OF assms(1) i(1), of f] handler_table_remove [OF assms(1) i]
      by (cases mh) (auto simp: setMessageHandler_def return_codes)
  next
    case None
    then have none: "handler_table ?hs f = None"
      by (simp add: handler_table_def)
    show ?thesis
    proof (cases "mh")
      case None
      then show ?thesis
        using assms none \<open>find_slot _ _ = None\<close>
        by (auto simp: setMessageHandler_def return_codes dom_def fun_upd_idem_iff)
    next
      case (Some h)
      show ?thesis
      proof (cases "find_slot (\<lambda>m. topicFilter m = None) ?hs")
        case None
        then show ?thesis
          using assms none free_slot [OF assms(1)] Some \<open>find_slot (\<lambda>m. topicFilter m = Some f) _ = None\<close>
          by (auto simp: setMessageHandler_def return_codes dom_def)
      next
        case (Some i)
        then have i: "i < length ?hs" "topicFilter (?hs ! i) = None"
          using find_slot_Some [OF Some] by simp_all
        show ?thesis
          using assms none free_slot [OF assms(1)] Some i \<open>mh = Some h\<close>
            \<open>find_slot (\<lambda>m. topicFilter m = Some f) _ = None\<close> handler_table_update [OF assms(1) i(1), of f h]
          by (auto simp: setMessageHandler_def return_codes)
      qed
    qed
  qed
  then show "table_ok (messageHandlers c')" "length (messageHandlers c') = length (messageHandlers c)"
    "rc = SUCCESS \<longleftrightarrow> f \<in> dom (handler_table (messageHandlers c)) \<or>
      mh \<noteq> None \<and> card (dom (handler_table (messageHandlers c))) < length (messageHandlers c)"
    "rc = SUCCESS \<or> rc = FAILURE"
    "handler_table (messageHandlers c') =
      (if rc = SUCCESS then (handler_table (messageHandlers c))(f := mh) else handler_table (messageHandlers c))"
    "c' = c\<lparr>messageHandlers := messageHandlers c'\<rparr>"
    by blast+
qed

text \<open>
  C26: \<open>setMessageHandler\<close> implements the update of a finite map of at most as many filters as the table has
  slots: setting a handler succeeds if the filter has one already or there is room, removing succeeds if
  there is something to remove, a failure changes nothing, and the table stays well formed.
\<close>

theorem setMessageHandler_refines:
  assumes "table_ok (messageHandlers c)" "setMessageHandler f mh c = (rc, c')"
  shows "table_ok (messageHandlers c') \<and> rc = (if f \<in> dom (handler_table (messageHandlers c)) \<or>
      mh \<noteq> None \<and> card (dom (handler_table (messageHandlers c))) < length (messageHandlers c) then SUCCESS else FAILURE) \<and>
    handler_table (messageHandlers c') =
      (if rc = SUCCESS then (handler_table (messageHandlers c))(f := mh) else handler_table (messageHandlers c)) \<and>
    c' = c\<lparr>messageHandlers := messageHandlers c'\<rparr>"
  using setMessageHandler_table [OF assms] by auto

text \<open>A connected client with a handler \<open>7\<close> for the topic \<open>a\<close>.\<close>

definition stopped :: Countdown where
  "stopped = \<lparr>cd_start = None, interval_end_ms = 0\<rparr>"

definition sample_client :: "nat Client" where
  "sample_client = \<lparr>command_timeout_ms = 30000, sendbuf = replicate 500 0, readbuf = replicate 500 0,
     last_sent = stopped, last_received = stopped, ping_sent = stopped, keepAliveInterval = 0,
     ping_outstanding = False, cleansession = True, packetid = 0,
     messageHandlers = \<lparr>topicFilter = Some [0x61], fp = Some 7\<rparr> # replicate 9 \<lparr>topicFilter = None, fp = None\<rparr>,
     defaultMessageHandler = None, isconnected = True, pubbuf = replicate 500 0, inflightLen = 0,
     inflightMsgid = 0, inflightQoS = 0\<rparr>"

lemma sample_table_ok: "table_ok (messageHandlers sample_client)"
  "handler_table (messageHandlers sample_client) = [[0x61] \<mapsto> 7]"
proof -
  show "table_ok (messageHandlers sample_client)"
    by (auto simp: table_ok_def sample_client_def nth_Cons' split: if_splits)
  have "find_slot (\<lambda>m. topicFilter m = Some f) (replicate 9 \<lparr>topicFilter = None, fp = None\<rparr> :: nat MessageHandlers list) = None" for f
    unfolding find_slot_None by simp
  then show "handler_table (messageHandlers sample_client) = [[0x61] \<mapsto> 7]"
    by (auto simp: fun_eq_iff handler_table_def sample_client_def)
qed

theorem setMessageHandler_refines_witness:
  "\<exists>c'. setMessageHandler [0x62] (Some 5) sample_client = (SUCCESS, c') \<and>
    handler_table (messageHandlers c') = [[0x61] \<mapsto> 7, [0x62] \<mapsto> 5]"
proof -
  obtain rc c' where c': "setMessageHandler [0x62] (Some 5) sample_client = (rc, c')"
    by (cases "setMessageHandler [0x62] (Some 5) sample_client")
  have "length (messageHandlers sample_client) = Suc (Suc 8)"
    by (simp add: sample_client_def)
  then show ?thesis
    using setMessageHandler_refines [OF sample_table_ok(1) c'] c' by (simp add: sample_table_ok)
qed

end
