(* ===== verification/Mqtt_Broker.thy ===== *)
theory Mqtt_Broker
  imports Mqtt_Handlers
begin

text \<open>
  The operations of the client of \<open>lib/MQTT/MQTTClient.h\<close> from call to result: publishing at QoS 1,
  connecting and subscribing, with messages of the broker arriving in between.
\<close>

definition next_id :: "'h Client \<Rightarrow> u16" where
  "next_id c = word_of_int (fst (getNext c))"

lemma getNext_simps: "getNext c = (fst (getNext c), c\<lparr>packetid := fst (getNext c)\<rparr>)"
  by (simp add: getNext_def Let_def)

lemma session_ok_update [simp]:
  "session_ok T0 T (c\<lparr>packetid := i\<rparr>) = session_ok T0 T c"
  "session_ok T0 T (c\<lparr>pubbuf := b, inflightMsgid := i', inflightLen := l, inflightQoS := q\<rparr>) = session_ok T0 T c"
  "session_ok T0 T (c\<lparr>inflightMsgid := i'\<rparr>) = session_ok T0 T c"
  by (simp_all add: session_ok_def resting_def)

lemma session_ok_sendbuf [simp]:
  "length b = 500 \<Longrightarrow> session_ok T0 T c \<Longrightarrow> session_ok T0 T (c\<lparr>sendbuf := b\<rparr>)"
  by (simp add: session_ok_def)

lemma deliveries_update [simp]:
  "deliveries (c\<lparr>packetid := i\<rparr>) = deliveries c" "deliveries (c\<lparr>sendbuf := b\<rparr>) = deliveries c"
  "deliveries (c\<lparr>pubbuf := b, inflightMsgid := i', inflightLen := l, inflightQoS := q\<rparr>) = deliveries c"
  by (simp_all add: fun_eq_iff deliveries_def receivers_def)

text \<open>The packet that \<open>publish\<close> prints into the buffer of the client.\<close>

lemma publish_serialized:
  fixes ident :: u16 and retained :: bool and topic payload :: "byte list"
  assumes c0: "length buf = 500" and m: "str_ok m" "str_bytes m = topic"
    and fit: "MQTTPacket_len (int (length topic + length payload + 4)) \<le> 500"
  defines "e \<equiv> enc_publish 0 1 (of_bool retained) ident topic payload"
  obtains sb where "MQTTSerialize_publish buf MAX_MQTT_PACKET_SIZE 0 1 (of_bool retained) ident m (payload @ extra) (int (length payload)) =
      Some (int (length e), sb)" "length sb = 500" "take (length e) sb = e" "length e \<le> 500" "0 < length e"
    "sint (word_of_nat (length payload) :: u32) = int (length payload)"
proof -
  have body: "length (publish_body 1 ident topic payload) = length topic + length payload + 4"
    by (simp add: publish_body_def)
  have small: "length topic + length payload + 4 < 500"
    using fit by (simp add: MQTTPacket_len_def Let_def split: if_splits)
  then have len: "sint (word_of_nat (length payload) :: u32) = int (length payload)"
    by (simp add: signed_of_nat signed_take_bit_int_eq_self)
  have one: "ucast (of_bool retained :: byte) = (of_bool retained :: 1 word)" "word_of_int 1 = (1 :: 2 word)"
    by simp_all
  define sb where "sb = e @ drop (length e) buf"
  have ser: "MQTTSerialize_publish buf MAX_MQTT_PACKET_SIZE 0 1 (of_bool retained) ident m (payload @ extra)
      (int (length payload)) = Some (int (length e), sb)"
    using MQTTSerialize_publish_put [of m 1 ident payload MAX_MQTT_PACKET_SIZE buf 0 "of_bool retained" extra]
      m body small fit c0 one by (simp add: MAX_MQTT_PACKET_SIZE_def sb_def e_def)
  have "int (1 + length (enc_len (length topic + length payload + 4)) + (length topic + length payload + 4)) \<le> 500"
    using MQTTPacket_len_enough [of "length topic + length payload + 4"] fit small by linarith
  then have e: "length e \<le> 500" "0 < length e"
    by (simp_all add: e_def enc_publish_body body)
  then have "length sb = 500" "take (length e) sb = e"
    using c0 by (simp_all add: sb_def)
  then show thesis
    using ser e len that by blast
qed

text \<open>
  C28: a QoS 1 message is published: the client sends the PUBLISH with the next packet identifier,
  serves every message of the broker that arrives before the acknowledgement (its handlers run, QoS 1
  messages are acknowledged in order), and reports success when the PUBACK arrives.
\<close>

theorem publish_qos1_completes:
  assumes env: "prompt env inp outp log T0 T" and c: "session_ok T0 T c" "isconnected c"
    and time: "T - T0 < unat (command_timeout_ms c)" and pub: "length (pubbuf c) = 500"
    and fit: "MQTTPacket_len (int (length topic + length payload + 4)) \<le> 500"
    and inp: "inp w = concat (map wire ms) @ enc_ack 4 q d (next_id c) @ rest" "\<forall>m \<in> set ms. message_ok m"
  shows "\<exists>c' w'. publish env topic (payload @ extra) (word_of_nat (length payload)) pid 1 retained c w =
      Some (SUCCESS, next_id c, c', w') \<and> isconnected c' \<and> session_ok T0 T c' \<and>
    (\<not> cleansession c \<longrightarrow> inflightMsgid c' = 0) \<and> inp w' = rest \<and>
    outp w' = outp w @ enc_publish 0 1 (of_bool retained) (next_id c) topic payload @ concat (map replies ms) \<and>
    log w' = log w @ concat (map (deliveries c) ms)"
proof -
  define timer where "timer = countdown_ms env w (command_timeout_ms c)"
  have timer: "alive T timer"
    unfolding timer_def by (rule alive_countdown_ms [OF env time])
  define m where "m = MQTTString_initializer\<lparr>cstring := Some topic\<rparr>"
  have m: "str_ok m" "str_bytes m = topic"
    by (simp_all add: m_def str_ok_def str_bytes_def MQTTString_initializer_def)
  let ?id = "next_id c" and ?c0 = "c\<lparr>packetid := fst (getNext c)\<rparr>"
  define r where "r = (of_bool retained :: 1 word)"
  let ?e = "enc_publish 0 1 r ?id topic payload"
  obtain sb where ser: "MQTTSerialize_publish (sendbuf c) MAX_MQTT_PACKET_SIZE 0 1 (of_bool retained) ?id m (payload @ extra)
        (int (length payload)) = Some (int (length ?e), sb)"
      and sb: "length sb = 500" "take (length ?e) sb = ?e" and e: "length ?e \<le> 500" "0 < length ?e"
      and len: "sint (word_of_nat (length payload) :: u32) = int (length payload)"
    using publish_serialized [of "sendbuf c" m topic payload retained ?id extra] c(1) m fit by (auto simp: session_ok_def r_def)
  define pb where "pb = ?e @ drop (length ?e) (pubbuf c)"
  define c1 where "c1 = (if cleansession c then ?c0\<lparr>sendbuf := sb\<rparr>
      else ?c0\<lparr>sendbuf := sb, pubbuf := pb, inflightMsgid := ?id, inflightLen := int (length ?e), inflightQoS := 1\<rparr>)"
  have c1: "session_ok T0 T c1" "deliveries c1 = deliveries c" "sendbuf c1 = sb" "isconnected c1"
    using c sb(1) by (auto simp: c1_def session_ok_def resting_def fun_eq_iff deliveries_def receivers_def)
  obtain c2 c3 w3 where p: "publish_packet env (int (length ?e)) timer 1 c1 w = Some (SUCCESS, c3, w3)"
    "same_session c1 c2" "session_ok T0 T c2" "c3 = (if inflightMsgid c1 = ?id then c2\<lparr>inflightMsgid := 0\<rparr> else c2)"
    "inp w3 = rest" "outp w3 = outp w @ take (length ?e) sb @ concat (map replies ms)"
    "log w3 = log w @ concat (map (deliveries c) ms)"
    using publish_packet_qos1 [OF env timer c1(1) inp e(2,1)] c1(2,3) by auto
  define rb where "rb = (of_bool retained :: byte)"
  have "publish env topic (payload @ extra) (word_of_nat (length payload)) pid 1 retained c w =
      Some (SUCCESS, ?id, c3, w3)"
  proof (cases "cleansession c")
    case True
    then have "c1 = ?c0\<lparr>sendbuf := sb\<rparr>"
      by (simp add: c1_def)
    then show ?thesis
      using True c(2) ser p(1) e(2) unfolding publish_def len timer_def [symmetric] Let_def rb_def [symmetric]
      by (subst getNext_simps) (simp add: next_id_def [symmetric] m_def [symmetric])
  next
    case False
    then have "rd_bytes sb (length ?e) = Some ?e" "wr_bytes (pubbuf c) 0 ?e = Some pb"
      "c1 = ?c0\<lparr>sendbuf := sb, pubbuf := pb, inflightMsgid := ?id, inflightLen := int (length ?e), inflightQoS := 1\<rparr>"
      using sb e pub by (simp_all add: c1_def rd_bytes_def wr_bytes_def pb_def)
    then show ?thesis
      using False c(2) ser p(1) e(2) unfolding publish_def len timer_def [symmetric] Let_def rb_def [symmetric]
      by (subst getNext_simps) (simp add: next_id_def [symmetric] m_def [symmetric])
  qed
  moreover have "isconnected c3 \<and> session_ok T0 T c3 \<and> (\<not> cleansession c \<longrightarrow> inflightMsgid c3 = 0)"
    using p(3,4) c1(4) same_sessionD(5) [OF p(2)] by (auto simp: c1_def)
  ultimately show ?thesis
    using p(5-7) sb(2) unfolding r_def [symmetric] by auto
qed

lemma MQTTDeserialize_connack_holds:
  assumes "holds buf 0 (packet h [fl, code])" "ucast (hdr_type (header_bits h)) = msg_code CONNACK"
  shows "MQTTDeserialize_connack out buf n =
    Some (1, out\<lparr>ca_sessionPresent := ucast (ucast fl :: 1 word), ca_connack_rc := code\<rparr>)"
proof -
  have h: "holds buf 0 (h # enc_len 2 @ [fl, code])"
    using assms(1) by (simp add: packet_def numeral_2_eq_2)
  note o = packet_open [OF h]
  have "readChar buf 0 = Some (h, 1)" "MQTTPacket_decodeBuf buf 1 = Some (1, 2)" "holds buf 2 [fl, code]"
    using o by (simp_all add: enc_len_small numeral_2_eq_2)
  then show ?thesis
    using assms(2) holds_Cons [of "[code]" buf 2 fl]
    by (simp add: MQTTDeserialize_connack_def holds_rd readChar_def eval_nat_numeral)
qed

lemma connect_connack:
  assumes env: "prompt env inp outp log T0 T"
    and c: "\<not> isconnected c" "\<not> ping_outstanding c" "length (sendbuf c) = 500" "length (readbuf c) = 500"
      "filters_ok (messageHandlers c)" "inflightMsgid c = 0"
    and opt: "\<forall>s \<in> connect_strings options. str_ok s" "cd_MQTTVersion options \<in> {3, 4}"
      "MQTTPacket_len (MQTTSerialize_connectLength options) \<le> 500"
    and time: "T - T0 < unat (command_timeout_ms c)"
      "cd_keepAliveInterval options = 0 \<or> T - T0 < 1000 * unat (cd_keepAliveInterval options)"
    and inp: "inp w = concat (map wire ms) @ packet h [fl, code] @ rest" "\<forall>m \<in> set ms. message_ok m"
      "ucast (hdr_type (header_bits h)) = msg_code CONNACK"
  shows "\<exists>c' w'. connect env options data c w =
      Some (uint code, \<lparr>cnd_rc = uint code, sessionPresent = bit fl 0\<rparr>, c', w') \<and>
    (isconnected c' \<longleftrightarrow> code = 0) \<and> inp w' = rest \<and>
    outp w' = outp w @ enc_connect options @ concat (map replies ms) \<and>
    log w' = log w @ concat (map (deliveries c) ms)"
proof -
  define timer where "timer = countdown_ms env w (command_timeout_ms c)"
  have timer: "alive T timer"
    unfolding timer_def by (rule alive_countdown_ms [OF env time(1)])
  let ?e = "enc_connect options" and ?k = "ucast (cd_keepAliveInterval options) :: u32"
  have len: "MQTTSerialize_connectLength options = int (length (connect_body options))"
    using MQTTSerialize_connectLength_body [OF opt(1,2)] .
  have small: "length (connect_body options) < 268435456"
    using opt(3) unfolding len by (simp add: MQTTPacket_len_def Let_def split: if_splits)
  define sb where "sb = ?e @ drop (length ?e) (sendbuf c)"
  have ser: "MQTTSerialize_connect (sendbuf c) MAX_MQTT_PACKET_SIZE options = Some (int (length ?e), sb)"
    and e: "length ?e \<le> 500" "0 < length ?e"
    using MQTTSerialize_connect_put [OF opt(1,2) small, of "sendbuf c"] opt(3) c(3) len
    by (simp_all add: MAX_MQTT_PACKET_SIZE_def sb_def enc_connect_def)
  have sb: "length sb = 500" "take (length ?e) sb = ?e"
    using e c(3) by (simp_all add: sb_def)
  define c1 where "c1 = c\<lparr>keepAliveInterval := ?k, cleansession := cd_cleansession options \<noteq> 0, sendbuf := sb\<rparr>"
  have "unat (cd_keepAliveInterval options) < 65536"
    using unsigned_less [of "cd_keepAliveInterval options", where 'a = nat] by simp
  then have k: "?k = 0 \<or> T - T0 < unat (?k * 1000)" "?k = 0 \<longleftrightarrow> cd_keepAliveInterval options = 0"
    using time(2) by (auto simp: unat_word_ariths unsigned_ucast_eq word_unat_eq_iff take_bit_eq_mod)
  obtain t w1 where s: "sendPacket env (int (length ?e)) timer c1 w = Some (SUCCESS, c1\<lparr>last_sent := t\<rparr>, w1)"
    "inp w1 = inp w" "outp w1 = outp w @ ?e" "log w1 = log w" "?k = 0 \<or> alive T t"
    using sendPacket_fresh [OF env, of "length ?e" c1 timer w] e sb k(1) by (auto simp: c1_def)
  define c2 where "c2 = (if ?k > 0 then c1\<lparr>last_sent := t, last_received := countdown env w1 ?k\<rparr> else c1\<lparr>last_sent := t\<rparr>)"
  have "?k = 0 \<or> alive T (countdown env w1 ?k)"
    using k(1) alive_countdown_ms [OF env, of "?k * 1000" w1] by (auto simp: countdown_def)
  then have ok: "session_ok T0 T c2"
    using s(5) k(1) c sb by (auto simp: c2_def c1_def session_ok_def resting_def word_greater_zero_iff)
  have d: "deliveries c2 = deliveries c" "inflightMsgid c2 = 0" "isconnected c2 = False"
    using c by (simp_all add: c2_def c1_def fun_eq_iff deliveries_def receivers_def)
  have "length (packet h [fl, code]) \<le> 500"
    by (simp add: packet_def enc_len_small)
  then obtain c3 w3 where wf: "waitfor env CONNACK timer c2 w1 = Some (msg_int CONNACK, c3, w3)" "same_session c2 c3"
    "holds (readbuf c3) 0 (packet h [fl, code])" "inp w3 = rest" "outp w3 = outp w1 @ concat (map replies ms)"
    "log w3 = log w1 @ concat (map (deliveries c2) ms)"
    using waitfor_loop_serves [OF env timer _ inp(3) _ ok _ inp(2), of "[fl, code]" w1 rest FAILURE] s(2) inp(1)
    by (auto simp: waitfor_def)
  have "bit (ucast (ucast fl :: 1 word) :: byte) n \<longleftrightarrow> n = 0 \<and> bit fl 0" for n
    by (auto simp: bit_ucast_iff dest: bit_imp_le_length)
  then have "(ucast (ucast fl :: 1 word) :: byte) \<noteq> 0 \<longleftrightarrow> bit fl 0"
    using bit_eq_iff [of "ucast (ucast fl :: 1 word) :: byte" 0] by auto
  then have "connect_answer env timer data c2 w1 =
      Some (uint code, \<lparr>cnd_rc = uint code, sessionPresent = bit fl 0\<rparr>, c3, w3)"
    using wf(1) MQTTDeserialize_connack_holds [OF wf(3) inp(3)] by (simp add: connect_answer_def)
  then have "connect env options data c w =
      Some (uint code, \<lparr>cnd_rc = uint code, sessionPresent = bit fl 0\<rparr>, connect_exit (uint code) c3, w3)"
    using c(1) ser s(1) e(2) same_sessionD(6) [OF wf(2)] d(2)
    unfolding connect_def timer_def [symmetric] Let_def
    by (cases "?k > 0") (simp_all add: c1_def c2_def)
  moreover have "isconnected (connect_exit (uint code) c3) \<longleftrightarrow> code = 0"
    using same_sessionD(5) [OF wf(2)] d(3) by (simp add: connect_exit_def SUCCESS_def unsigned_eq_0_iff)
  ultimately show ?thesis
    using wf(4-6) s(3,4) d(1) by auto
qed

text \<open>
  A client that is not connected sends its CONNECT, serves what arrives before the CONNACK, returns the
  code of the CONNACK, and is connected afterwards if and only if that code is 0.
\<close>

theorem connect_follows_connack:
  assumes env: "prompt env inp outp log T0 T"
    and c: "\<not> isconnected c" "\<not> ping_outstanding c" "length (sendbuf c) = 500" "length (readbuf c) = 500"
      "filters_ok (messageHandlers c)" "inflightMsgid c = 0"
    and opt: "\<forall>s \<in> connect_strings options. str_ok s" "cd_MQTTVersion options \<in> {3, 4}"
      "MQTTPacket_len (MQTTSerialize_connectLength options) \<le> 500"
    and time: "T - T0 < unat (command_timeout_ms c)"
      "cd_keepAliveInterval options = 0 \<or> T - T0 < 1000 * unat (cd_keepAliveInterval options)"
    and inp: "inp w = concat (map wire ms) @ packet h [fl, code] @ rest" "\<forall>m \<in> set ms. message_ok m"
      "ucast (hdr_type (header_bits h)) = msg_code CONNACK"
  shows "\<exists>c' w'. connect env options data c w =
      Some (uint code, \<lparr>cnd_rc = uint code, sessionPresent = bit fl 0\<rparr>, c', w') \<and>
    (isconnected c' \<longleftrightarrow> code = 0) \<and> inp w' = rest \<and>
    outp w' = outp w @ enc_connect options @ concat (map replies ms) \<and>
    log w' = log w @ concat (map (deliveries c) ms)"
  using assms by (rule connect_connack)

lemma MQTTDeserialize_suback_one:
  assumes "holds buf 0 (enc_suback pid [g])" "0 \<le> g" "g < 256"
  shows "\<exists>sa. MQTTDeserialize_suback \<lparr>sa_packetid = 0, sa_count = 0, sa_grantedQoSs = [0]\<rparr> 1 buf n = Some (1, sa) \<and>
    sa_grantedQoSs sa = [g]"
proof -
  have h: "holds buf 0 (header_byte \<lparr>hdr_retain = 0, hdr_qos = 0, hdr_dup = 0, hdr_type = 9\<rparr> #
      enc_len 3 @ be16 (unat pid) @ [word_of_int g])"
    using assms(1) by (simp add: enc_suback_def header_zero_def)
  note o = packet_open [OF h]
  have o': "MQTTPacket_decodeBuf buf (Suc 0) = Some (1, 3)"
    "holds buf 2 (be16 (unat pid))" "holds buf (2 + 2) [word_of_int g]"
    using o(2,3) holds_append [of buf 2 "be16 (unat pid)" "[word_of_int g]"]
    by (simp_all add: enc_len_small numeral_2_eq_2)
  have id: "unat pid < 65536"
    using unsigned_less [of pid, where 'a = nat] by simp
  define out :: suback_out where "out = \<lparr>sa_packetid = pid, sa_count = 0, sa_grantedQoSs = [0]\<rparr>"
  have "rd buf 4 = Some (word_of_int g)" "uint (word_of_int g :: byte) = g"
    using o'(3) assms(2,3) by (simp_all add: holds_rd uint_word_of_int)
  then have "suback_read_loop buf 4 5 1 out = Some (1, out\<lparr>sa_grantedQoSs := [g], sa_count := 1\<rparr>)"
    by (simp add: suback_read_loop.simps [of buf 4] suback_read_loop.simps [of buf 5] readChar_def upd_opt_def out_def)
  moreover have r: "readInt buf (Suc (Suc 0)) = Some (int (unat pid), 4)"
    using readInt_holds [OF o'(2) id] by (simp add: numeral_2_eq_2)
  ultimately have "MQTTDeserialize_suback \<lparr>sa_packetid = 0, sa_count = 0, sa_grantedQoSs = [0]\<rparr> 1 buf n =
      Some (1, out\<lparr>sa_grantedQoSs := [g], sa_count := 1\<rparr>)"
    using o(1) o'(1) r by (simp add: MQTTDeserialize_suback_def out_def)
  then show ?thesis
    by simp
qed

text \<open>What a SUBACK answers: the table of handlers changes when the broker grants the subscription.\<close>

lemma subscribe_suback:
  assumes env: "prompt env inp outp log T0 T" and c: "session_ok T0 T c" "isconnected c"
    and time: "T - T0 < unat (command_timeout_ms c)" and qos: "0 \<le> qos" "qos < 256"
    and fit: "MQTTPacket_len (int (length tfilter + 5)) \<le> 500"
    and inp: "inp w = concat (map wire ms) @ enc_suback (next_id c) [g] @ rest" "\<forall>m \<in> set ms. message_ok m"
    and g: "0 \<le> g" "g < 256"
  shows "\<exists>c1 w'. same_session (c\<lparr>packetid := fst (getNext c)\<rparr>) c1 \<and> session_ok T0 T c1 \<and>
    subscribe env tfilter qos h granted c w =
      (if g = 0x80 then Some (SUCCESS, g, c1, w')
       else case setMessageHandler tfilter h c1 of (rc, c2) \<Rightarrow>
         Some (rc, g, if rc = FAILURE then closeSession c2 else c2, w')) \<and> inp w' = rest \<and>
    outp w' = outp w @ enc_subscribe 0 (next_id c) [(string_topic tfilter, qos)] @ concat (map replies ms) \<and>
    log w' = log w @ concat (map (deliveries c) ms)"
proof -
  define timer where "timer = countdown_ms env w (command_timeout_ms c)"
  have timer: "alive T timer"
    unfolding timer_def by (rule alive_countdown_ms [OF env time])
  let ?m = "string_topic tfilter"
  have m: "str_ok ?m" "str_bytes ?m = tfilter"
    by (simp_all add: string_topic_def str_ok_def str_bytes_def)
  let ?id = "next_id c" and ?c0 = "c\<lparr>packetid := fst (getNext c)\<rparr>"
  let ?e = "enc_subscribe 0 ?id [(?m, qos)]"
  have small: "length tfilter < 500"
    using fit by (simp add: MQTTPacket_len_def Let_def split: if_splits)
  have c0: "length (sendbuf c) = 500"
    using c(1) by (simp add: session_ok_def)
  define sb where "sb = ?e @ drop (length ?e) (sendbuf c)"
  have ser: "MQTTSerialize_subscribe (sendbuf c) MAX_MQTT_PACKET_SIZE 0 ?id 1 [?m] [qos] = Some (int (length ?e), sb)"
    and e: "length ?e \<le> 500" "0 < length ?e"
    using MQTTSerialize_subscribe_put [of "[(?m, qos)]" "sendbuf c" 0 ?id] m small fit c0 add.commute [of "int (length tfilter)" 5]
    by (simp_all add: MAX_MQTT_PACKET_SIZE_def sb_def enc_subscribe_def)
  have sb: "length sb = 500" "take (length ?e) sb = ?e"
    using e c0 by (simp_all add: sb_def)
  let ?c1 = "?c0\<lparr>sendbuf := sb\<rparr>"
  have ok: "session_ok T0 T ?c1"
    using c(1) sb(1) by (simp add: session_ok_def resting_def)
  let ?h = "header_byte \<lparr>hdr_retain = 0, hdr_qos = 0, hdr_dup = 0, hdr_type = 9\<rparr>"
  have sa: "enc_suback ?id [g] = packet ?h (be16 (unat ?id) @ [word_of_int g])"
    by (simp add: enc_suback_def packet_def header_zero_def)
  obtain t c2 w2 c3 w3 where s: "sendPacket env (int (length ?e)) timer ?c1 w = Some (SUCCESS, c2, w2)"
    "waitfor env SUBACK timer c2 w2 = Some (msg_int SUBACK, c3, w3)" "same_session ?c1 c3" "session_ok T0 T c3"
    "holds (readbuf c3) 0 (enc_suback ?id [g])" "inp w3 = rest"
    "outp w3 = outp w @ take (length ?e) sb @ concat (map replies ms)"
    "log w3 = log w @ concat (map (deliveries ?c1) ms)"
    using send_and_wait [OF env timer _ _ _ ok inp(1) [unfolded sa] inp(2) e(2,1), of SUBACK] sa
    by (auto simp: packet_def enc_len_small)
  obtain sar where sar: "MQTTDeserialize_suback \<lparr>sa_packetid = 0, sa_count = 0, sa_grantedQoSs = [0]\<rparr> 1 (readbuf c3)
      MAX_MQTT_PACKET_SIZE = Some (1, sar)" "sa_grantedQoSs sar = [g]"
    using MQTTDeserialize_suback_one [OF s(5) g] by blast
  have "same_session ?c0 c3"
    using s(3) sb(1) c0 unfolding same_session_def by auto
  moreover have "subscribe env tfilter qos h granted c w =
      (if g = 0x80 then Some (SUCCESS, g, c3, w3)
       else case setMessageHandler tfilter h c3 of (rc, c2) \<Rightarrow>
         Some (rc, g, if rc = FAILURE then closeSession c2 else c2, w3))"
    using c(2) ser s(1,2) e(2) sar unfolding subscribe_def timer_def [symmetric] Let_def
    by (subst getNext_simps) (simp add: next_id_def [symmetric] return_codes)
  moreover have "deliveries ?c1 = deliveries c"
    by simp
  ultimately show ?thesis
    using s(4,6-8) sb(2) by (intro exI [of _ c3] exI [of _ w3]) simp
qed

text \<open>
  C29: a subscription the broker grants: the client sends its SUBSCRIBE, serves what arrives before the
  SUBACK, and installs the handler; if there is room for it the call succeeds.
\<close>

theorem subscribe_installs_handler:
  assumes env: "prompt env inp outp log T0 T" and c: "session_ok T0 T c" "isconnected c" "table_ok (messageHandlers c)"
    and time: "T - T0 < unat (command_timeout_ms c)" and qos: "0 \<le> qos" "qos < 256"
    and fit: "MQTTPacket_len (int (length tfilter + 5)) \<le> 500"
    and room: "card (dom (handler_table (messageHandlers c))) < length (messageHandlers c)"
    and inp: "inp w = concat (map wire ms) @ enc_suback (next_id c) [g] @ rest" "\<forall>m \<in> set ms. message_ok m"
    and g: "0 \<le> g" "g < 256" "g \<noteq> 0x80"
  shows "\<exists>c' w'. subscribe env tfilter qos (Some h) granted c w = Some (SUCCESS, g, c', w') \<and> isconnected c' \<and>
    handler_table (messageHandlers c') = (handler_table (messageHandlers c))(tfilter \<mapsto> h) \<and>
    table_ok (messageHandlers c') \<and> inp w' = rest \<and>
    outp w' = outp w @ enc_subscribe 0 (next_id c) [(string_topic tfilter, qos)] @ concat (map replies ms) \<and>
    log w' = log w @ concat (map (deliveries c) ms)"
proof -
  obtain c1 w' where s: "same_session (c\<lparr>packetid := fst (getNext c)\<rparr>) c1"
    "subscribe env tfilter qos (Some h) granted c w =
      (if g = 0x80 then Some (SUCCESS, g, c1, w')
       else case setMessageHandler tfilter (Some h) c1 of (rc, c2) \<Rightarrow>
         Some (rc, g, if rc = FAILURE then closeSession c2 else c2, w'))"
    "inp w' = rest" "outp w' = outp w @ enc_subscribe 0 (next_id c) [(string_topic tfilter, qos)] @ concat (map replies ms)"
    "log w' = log w @ concat (map (deliveries c) ms)"
    using subscribe_suback [OF env c(1,2) time qos fit inp g(1,2), of "Some h" granted] by blast
  have hs: "messageHandlers c1 = messageHandlers c" "isconnected c1"
    using same_sessionD(3,5) [OF s(1)] c(2) by simp_all
  obtain rc c2 where c2: "setMessageHandler tfilter (Some h) c1 = (rc, c2)"
    by (cases "setMessageHandler tfilter (Some h) c1")
  note r = setMessageHandler_table [OF _ c2, unfolded hs, OF c(3)]
  have rc: "rc = SUCCESS"
    using r(3) room by simp
  have "isconnected c2"
    by (subst r(6)) (simp add: hs(2))
  then show ?thesis
    using s(2-5) c2 rc r(1,5) g(3) by (intro exI [of _ c2] exI [of _ w']) (simp add: return_codes)
qed

text \<open>
  A refused subscription is reported as a success: when the broker answers with the failure code 0x80,
  \<open>subscribe\<close> returns \<open>SUCCESS\<close> and installs no handler.
\<close>

theorem subscribe_refusal_reported_as_success:
  assumes env: "prompt env inp outp log T0 T" and c: "session_ok T0 T c" "isconnected c"
    and time: "T - T0 < unat (command_timeout_ms c)" and qos: "0 \<le> qos" "qos < 256"
    and fit: "MQTTPacket_len (int (length tfilter + 5)) \<le> 500"
    and inp: "inp w = enc_suback (next_id c) [0x80] @ rest"
  shows "\<exists>c' w'. subscribe env tfilter qos h granted c w = Some (SUCCESS, 0x80, c', w') \<and>
    messageHandlers c' = messageHandlers c \<and> isconnected c'"
proof -
  have inp': "inp w = concat (map wire []) @ enc_suback (next_id c) [0x80] @ rest"
    using inp by simp
  obtain c1 w' where s: "same_session (c\<lparr>packetid := fst (getNext c)\<rparr>) c1"
    "subscribe env tfilter qos h granted c w =
      (if (0x80 :: int) = 0x80 then Some (SUCCESS, 0x80, c1, w')
       else case setMessageHandler tfilter h c1 of (rc, c2) \<Rightarrow>
         Some (rc, 0x80, if rc = FAILURE then closeSession c2 else c2, w'))"
    using subscribe_suback [OF env c(1,2) time qos fit inp', of h granted] by auto
  then show ?thesis
    using same_sessionD(3,5) [OF s(1)] c(2) by (intro exI [of _ c1] exI [of _ w']) simp
qed

section \<open>A platform that follows a script\<close>

text \<open>What the broker will send, what the client has sent, and the deliveries; the clock stands still.\<close>

type_synonym 'h script = "byte list \<times> byte list \<times> 'h delivery list"

definition script_env :: "('h, 'h script) mqtt_env" where
  "script_env = \<lparr>
     ipstack_read = (\<lambda>(i, out, l) n t. (min n (int (length i)), take (nat n) i, (drop (nat n) i, out, l))),
     ipstack_write = (\<lambda>(i, out, l) bs t. (int (length bs), (i, out @ bs, l))),
     clock_ms = (\<lambda>_. 0),
     run_handler = (\<lambda>h topic m (i, out, l). (i, out, l @ [(h, str_bytes topic, payload_bytes m)]))\<rparr>"

lemma script_prompt: "prompt script_env fst (fst \<circ> snd) (snd \<circ> snd) 0 0"
  by (auto simp: prompt_def script_env_def)

lemma sample_client_ok: "session_ok 0 0 sample_client" "isconnected sample_client"
  "next_id sample_client = 1" "command_timeout_ms sample_client = 30000" "length (pubbuf sample_client) = 500"
  by (simp_all add: sample_client_def session_ok_def resting_def filters_ok_def next_id_def getNext_def MAX_PACKET_ID_def)

definition sample_message :: message where
  "sample_message = \<lparr>msg_dup = 0, msg_qos = 1, msg_retain = 0, msg_id = 9, msg_topic = [0x61], msg_payload = [1, 2]\<rparr>"

lemma targets_unused: "\<forall>m \<in> set hs. topicFilter m = None \<Longrightarrow> targets hs t = []"
  by (induction hs) (auto simp: handler_matches_def)

lemma sample_message_ok: "message_ok sample_message"
  "replies sample_message = enc_ack 4 0 0 9" "deliveries sample_client sample_message = [(7, [0x61], [1, 2])]"
proof -
  have "targets (replicate 9 \<lparr>topicFilter = None, fp = None\<rparr>) t = ([] :: nat list)" for t
    by (rule targets_unused) simp
  then show "deliveries sample_client sample_message = [(7, [0x61], [1, 2])]"
    by (simp add: deliveries_def receivers_def sample_client_def sample_message_def handler_matches_def)
qed (simp_all add: message_ok_def sample_message_def wire_def enc_publish_body publish_body_def enc_len_small
      enc_str_def be16_def replies_def)

theorem publish_qos1_completes_witness:
  "\<exists>c' w'. publish script_env [0x62] ([5] @ []) (word_of_nat (length [5 :: byte])) 0 1 False sample_client
      (wire sample_message @ enc_ack 4 0 0 1, [], []) = Some (SUCCESS, 1, c', w') \<and> isconnected c' \<and>
    fst (snd w') = enc_publish 0 1 0 1 [0x62] [5] @ enc_ack 4 0 0 9 \<and> snd (snd w') = [(7, [0x61], [1, 2])]"
  using publish_qos1_completes [OF script_prompt sample_client_ok(1,2), of "[0x62]" "[5]"
      "(wire sample_message @ enc_ack 4 0 0 1, [], [])" "[sample_message]" 0 0 "[]" "[]" 0 False]
  by (auto simp: sample_client_ok sample_message_ok MQTTPacket_len_def)

definition sample_idle :: "nat Client" where
  "sample_idle = sample_client\<lparr>isconnected := False\<rparr>"

lemma sample_idle_ok: "\<not> isconnected sample_idle" "\<not> ping_outstanding sample_idle" "length (sendbuf sample_idle) = 500"
  "length (readbuf sample_idle) = 500" "filters_ok (messageHandlers sample_idle)" "inflightMsgid sample_idle = 0"
  "command_timeout_ms sample_idle = 30000"
  by (simp_all add: sample_idle_def sample_client_def filters_ok_def)

lemma sample_connect_more: "\<forall>s \<in> connect_strings (sample_connect 4). str_ok s"
  "MQTTPacket_len (MQTTSerialize_connectLength (sample_connect 4)) \<le> 500"
  "cd_keepAliveInterval (sample_connect 4) = 60"
  using sample_connect_ok(1) [of 4]
  by (simp_all add: connect_ok_def sample_connect_ok MQTTPacket_len_def)
    (simp add: sample_connect_def MQTTPacket_connectData_initializer_def)

theorem connect_follows_connack_witness:
  "\<exists>c' w'. connect script_env (sample_connect 4) \<lparr>cnd_rc = 0, sessionPresent = False\<rparr> sample_idle
      (wire sample_message @ packet 0x20 [1, 5], [], []) =
      Some (5, \<lparr>cnd_rc = 5, sessionPresent = True\<rparr>, c', w') \<and> \<not> isconnected c' \<and>
    fst (snd w') = enc_connect (sample_connect 4) @ enc_ack 4 0 0 9"
  using connect_follows_connack [OF script_prompt sample_idle_ok(1-6) sample_connect_more(1) _ sample_connect_more(2),
      of "(wire sample_message @ packet 0x20 [1, 5], [], [])" "[sample_message]" "0x20" 1 5 "[]"
      "\<lparr>cnd_rc = 0, sessionPresent = False\<rparr>"]
  by (auto simp: sample_idle_ok sample_connect_more sample_connect_ok sample_message_ok header_bits_def)

lemma sample_room: "card (dom (handler_table (messageHandlers sample_client))) < length (messageHandlers sample_client)"
  by (simp add: sample_table_ok) (simp add: sample_client_def)

theorem subscribe_installs_handler_witness:
  "\<exists>c' w'. subscribe script_env [0x62] 1 (Some 3) 0 sample_client (enc_suback 1 [1], [], []) = Some (SUCCESS, 1, c', w') \<and>
    handler_table (messageHandlers c') [0x62] = Some 3"
  using subscribe_installs_handler [OF script_prompt sample_client_ok(1,2) sample_table_ok(1) _ _ _ _ sample_room,
      of 1 "[0x62]" "(enc_suback 1 [1], [], [])" "[]" 1 "[]" 3 0]
  by (auto simp: sample_client_ok MQTTPacket_len_def)

theorem subscribe_refusal_reported_as_success_witness:
  "\<exists>c' w'. subscribe script_env [0x62] 1 (Some 3) 0 sample_client (enc_suback 1 [0x80], [], []) =
      Some (SUCCESS, 0x80, c', w') \<and> messageHandlers c' = messageHandlers sample_client"
  using subscribe_refusal_reported_as_success [OF script_prompt sample_client_ok(1,2),
      of 1 "[0x62]" "(enc_suback 1 [0x80], [], [])" "[]" "Some 3" 0]
  by (auto simp: sample_client_ok MQTTPacket_len_def)

end
