(* ===== verification/Mqtt_Faults.thy ===== *)
theory Mqtt_Faults
  imports Mqtt_Broker
begin

text \<open>
  What goes wrong in the client of \<open>lib/MQTT/MQTTClient.h\<close>, and the invariant that no operation breaks.
\<close>

section \<open>Who stays connected\<close>

lemma closeSession_simps [simp]:
  "isconnected (closeSession c) = False" "sendbuf (closeSession c) = sendbuf c" "readbuf (closeSession c) = readbuf c"
  "pubbuf (closeSession c) = pubbuf c" "packetid (closeSession c) = packetid c" "inflightLen (closeSession c) = inflightLen c"
  by (simp_all add: closeSession_def cleanSession_def Let_def)

lemma sendPacket_frame:
  "sendPacket env len timer c w = Some (rc, c', w') \<Longrightarrow> \<exists>t. c' = c\<lparr>last_sent := t\<rparr>"
  by (auto simp: sendPacket_def bind_eq_Some_conv split: if_splits) (metis Client.surjective Client.update_convs(4))+

section \<open>Buffers keep their length\<close>

lemma put_length: "put xs c = Some c' \<Longrightarrow> length (fst c') = length (fst c)"
  by (auto simp: put_def mem_simps split: prod.splits)

lemma encode_loop_length: "encode_loop buf p rc n = Some (k, buf') \<Longrightarrow> length buf' = length buf"
proof (induction buf p rc n rule: encode_loop.induct)
  case (1 buf p rc n)
  show ?case
    using "1.prems" "1.IH" by (subst (asm) encode_loop.simps) (auto simp: Let_def bind_eq_Some_conv mem_simps split: if_splits)
qed

lemma MQTTPacket_encode_length: "MQTTPacket_encode buf p n = Some (k, buf') \<Longrightarrow> length buf' = length buf"
  unfolding MQTTPacket_encode_def by (rule encode_loop_length)

lemma write_length:
  "writeChar c x = Some c' \<Longrightarrow> length (fst c') = length (fst c)"
  "writeInt c n = Some c' \<Longrightarrow> length (fst c') = length (fst c)"
  "write_rem_len c n = Some c' \<Longrightarrow> length (fst c') = length (fst c)"
  "writeCString c s = Some c' \<Longrightarrow> length (fst c') = length (fst c)"
proof -
  show "writeChar c x = Some c' \<Longrightarrow> length (fst c') = length (fst c)"
    unfolding writeChar_put by (rule put_length)
  show "writeInt c n = Some c' \<Longrightarrow> length (fst c') = length (fst c)"
    by (cases c) (auto simp: writeInt_def Let_def bind_eq_Some_conv mem_simps)
  show "write_rem_len c n = Some c' \<Longrightarrow> length (fst c') = length (fst c)"
    by (auto simp: write_rem_len_def bind_eq_Some_conv dest: MQTTPacket_encode_length)
  show "writeCString c s = Some c' \<Longrightarrow> length (fst c') = length (fst c)"
    unfolding writeCString_put by (rule put_length)
qed

lemma writeMQTTString_length: "writeMQTTString c m = Some c' \<Longrightarrow> length (fst c') = length (fst c)"
  by (auto simp: writeMQTTString_def Let_def bind_eq_Some_conv mem_simps dest!: write_length
      split: if_splits option.splits)

lemma subscribe_loop_length: "subscribe_loop n i c ts qs = Some c' \<Longrightarrow> length (fst c') = length (fst c)"
  by (induction n arbitrary: i c) (auto simp: bind_eq_Some_conv dest!: write_length writeMQTTString_length)

lemma unsubscribe_loop_length: "unsubscribe_loop n i c ts = Some c' \<Longrightarrow> length (fst c') = length (fst c)"
  by (induction n arbitrary: i c) (auto simp: bind_eq_Some_conv dest!: writeMQTTString_length)

lemmas lengths = mem_simps write_length writeMQTTString_length subscribe_loop_length unsubscribe_loop_length

lemma MQTTSerialize_zero_length: "MQTTSerialize_zero buf n ty = Some (k, buf') \<Longrightarrow> length buf' = length buf"
  by (auto simp: MQTTSerialize_zero_def bind_eq_Some_conv dest!: lengths split: if_splits)

lemma MQTTSerialize_ack_length: "MQTTSerialize_ack buf n ty d i = Some (k, buf') \<Longrightarrow> length buf' = length buf"
  by (auto simp: MQTTSerialize_ack_def bind_eq_Some_conv dest!: lengths split: if_splits)

lemma MQTTSerialize_publish_length:
  "MQTTSerialize_publish buf n d q r i t pl l = Some (k, buf') \<Longrightarrow> length buf' = length buf"
  by (auto simp: MQTTSerialize_publish_def Let_def bind_eq_Some_conv dest!: lengths split: if_splits)

lemma MQTTSerialize_subscribe_length:
  "MQTTSerialize_subscribe buf n d i cnt ts qs = Some (k, buf') \<Longrightarrow> length buf' = length buf"
  by (auto simp: MQTTSerialize_subscribe_def Let_def bind_eq_Some_conv dest!: lengths split: if_splits)

lemma MQTTSerialize_unsubscribe_length:
  "MQTTSerialize_unsubscribe buf n d i cnt ts = Some (k, buf') \<Longrightarrow> length buf' = length buf"
  by (auto simp: MQTTSerialize_unsubscribe_def Let_def bind_eq_Some_conv dest!: lengths split: if_splits)

text \<open>Chains of writes, one step at a time.\<close>

definition yields :: "('a \<Rightarrow> bool) \<Rightarrow> 'a option \<Rightarrow> bool" where
  "yields P x \<longleftrightarrow> (\<forall>y. x = Some y \<longrightarrow> P y)"

lemma yields_simps [simp]: "yields P None" "yields P (Some y) = P y"
  by (simp_all add: yields_def)

lemma yieldsD: "yields P x \<Longrightarrow> x = Some y \<Longrightarrow> P y"
  by (simp add: yields_def)

lemma yields_bind:
  assumes "yields P x" "\<And>y. P y \<Longrightarrow> yields Q (f y)"
  shows "yields Q (Option.bind x f)"
  using assms by (cases x) simp_all

lemma yields_if: "(b \<Longrightarrow> yields P x) \<Longrightarrow> (\<not> b \<Longrightarrow> yields P y) \<Longrightarrow> yields P (if b then x else y)"
  by simp

abbreviation keeping :: "nat \<Rightarrow> cursor option \<Rightarrow> bool" where
  "keeping n \<equiv> yields (\<lambda>c. length (fst c) = n)"

lemma keeping_write:
  "length (fst c) = n \<Longrightarrow> keeping n (writeChar c x)" "length (fst c) = n \<Longrightarrow> keeping n (writeInt c i)"
  "length (fst c) = n \<Longrightarrow> keeping n (write_rem_len c i)" "length (fst c) = n \<Longrightarrow> keeping n (writeCString c s)"
  "length (fst c) = n \<Longrightarrow> keeping n (writeMQTTString c m)"
  by (auto simp: yields_def dest!: write_length writeMQTTString_length)

lemma MQTTSerialize_connect_length:
  assumes "MQTTSerialize_connect buf n opts = Some (k, buf')"
  shows "length buf' = length buf"
proof -
  have "yields (\<lambda>(k, b). length b = length buf) (MQTTSerialize_connect buf n opts)"
    unfolding MQTTSerialize_connect_def Let_def
    by (intro yields_if yields_bind [where P = "\<lambda>c. length (fst c) = length buf"] keeping_write) (simp_all add: keeping_write yields_bind)
  from yieldsD [OF this assms] show ?thesis
    by simp
qed

section \<open>What the parts of a cycle leave alone\<close>

text \<open>Only buffers, timers and the state of the keep-alive have changed.\<close>

definition touched :: "'h Client \<Rightarrow> 'h Client \<Rightarrow> bool" where
  "touched c c' \<longleftrightarrow> length (sendbuf c') = length (sendbuf c) \<and> length (readbuf c') = length (readbuf c) \<and>
     command_timeout_ms c' = command_timeout_ms c \<and> keepAliveInterval c' = keepAliveInterval c \<and>
     cleansession c' = cleansession c \<and> packetid c' = packetid c \<and> messageHandlers c' = messageHandlers c \<and>
     defaultMessageHandler c' = defaultMessageHandler c \<and> isconnected c' = isconnected c \<and> pubbuf c' = pubbuf c \<and>
     inflightLen c' = inflightLen c \<and> inflightMsgid c' = inflightMsgid c \<and> inflightQoS c' = inflightQoS c"

lemma touched_refl [simp]: "touched c c"
  by (simp add: touched_def)

lemma touched_trans: "touched c c' \<Longrightarrow> touched c' c'' \<Longrightarrow> touched c c''"
  by (simp add: touched_def)

lemma readPacket_touched:
  assumes "readPacket env timer c w = Some (rc, c', w')"
  shows "touched c c'"
proof -
  have same: "touched c (c\<lparr>readbuf := b\<rparr>)" "touched c (c\<lparr>readbuf := b, last_received := t\<rparr>)"
    if "length b = length (readbuf c)" for b t
    by (simp_all add: touched_def that)
  obtain rc1 bs w1 where r1: "ipstack_read env w 1 (left_ms env w timer) = (rc1, bs, w1)"
    by (cases "ipstack_read env w 1 (left_ms env w timer)")
  obtain b1 where b1: "wr_bytes (readbuf c) 0 bs = Some b1"
    using assms by (auto simp: readPacket_def r1 bind_eq_Some_conv)
  have l1: "length b1 = length (readbuf c)"
    using wr_bytes_length [OF b1] .
  show ?thesis
  proof (cases "rc1 = 1")
    case False
    then show ?thesis
      using assms same [OF l1] by (simp add: readPacket_def r1 b1)
  next
    case True
    obtain l n w2 where d: "decodePacket env (left_ms env w1 timer) w1 = Some (l, n, w2)"
      using assms True by (auto simp: readPacket_def r1 bind_eq_Some_conv)
    obtain k b2 where e: "MQTTPacket_encode b1 1 n = Some (k, b2)"
      using assms True by (auto simp: readPacket_def r1 b1 d bind_eq_Some_conv)
    have l2: "length b2 = length (readbuf c)"
      using MQTTPacket_encode_length [OF e] l1 by simp
    let ?body = "if n > 0 then (case ipstack_read env w2 n (left_ms env w2 timer) of (n, bs, w) \<Rightarrow>
        map_option (\<lambda>buf. (n, buf, w)) (wr_bytes b2 (nat (1 + int k)) bs)) else Some (n, b2, w2)"
    show ?thesis
    proof (cases "n > MAX_MQTT_PACKET_SIZE - (1 + int k)")
      case True
      then show ?thesis
        using assms \<open>rc1 = 1\<close> same [OF l2] by (simp add: readPacket_def r1 b1 d e [simplified])
    next
      case False
      obtain n' b3 w3 where f: "?body = Some (n', b3, w3)"
        using assms \<open>rc1 = 1\<close> False by (auto simp: readPacket_def r1 b1 d e [simplified] bind_eq_Some_conv)
      have l3: "length b3 = length (readbuf c)"
        using f l2 by (auto simp: mem_simps split: if_splits prod.splits)
      show ?thesis
        using assms \<open>rc1 = 1\<close> False f same [OF l3]
        by (auto simp: readPacket_def r1 b1 d e [simplified] Let_def bind_eq_Some_conv split: if_splits)
    qed
  qed
qed

lemma sendPacket_touched: "sendPacket env len timer c w = Some (rc, c', w') \<Longrightarrow> touched c c'"
  by (drule sendPacket_frame) (auto simp: touched_def)

lemma touched_sendbuf: "touched (c\<lparr>sendbuf := b\<rparr>) c' \<Longrightarrow> length b = length (sendbuf c) \<Longrightarrow> touched c c'"
  by (auto simp: touched_def)

lemma keepalive_touched: "keepalive env c w = Some (rc, c', w') \<Longrightarrow> touched c c'"
  by (auto simp: keepalive_def Let_def bind_eq_Some_conv MQTTSerialize_pingreq_def split: if_splits
      dest!: sendPacket_touched MQTTSerialize_zero_length) (auto simp: touched_def)

lemma cycle_publish_touched:
  assumes "cycle_publish env timer c w = Some (x, rc, c', w')"
  shows "touched c c'"
proof -
  obtain ok msg where d: "MQTTDeserialize_publish unset_message (readbuf c) MAX_MQTT_PACKET_SIZE = Some (ok, msg)"
    using assms by (auto simp: cycle_publish_def bind_eq_Some_conv)
  show ?thesis
  proof (cases "ok = 1 \<and> pub_qos msg \<noteq> 0")
    case False
    then show ?thesis
      using assms d by (auto simp: cycle_publish_def bind_eq_Some_conv split: if_splits)
  next
    case True
    obtain drc w1 where dm: "deliverMessage env (pub_topicName msg) msg c w = Some (drc, w1)"
      using assms d True by (auto simp: cycle_publish_def bind_eq_Some_conv)
    let ?ack = "if pub_qos msg = 1 then
              MQTTSerialize_ack (sendbuf c) MAX_MQTT_PACKET_SIZE (msg_code PUBACK) 0 (pub_packetid msg)
            else if pub_qos msg = 2 then
              MQTTSerialize_ack (sendbuf c) MAX_MQTT_PACKET_SIZE (msg_code PUBREC) 0 (pub_packetid msg)
            else Some (0, sendbuf c)"
    obtain len buf where a: "?ack = Some (len, buf)"
      using assms d dm True by (auto simp: cycle_publish_def bind_eq_Some_conv)
    have l: "length buf = length (sendbuf c)"
      using a by (auto split: if_splits dest: MQTTSerialize_ack_length)
    have "(if len \<le> 0 then Some (FAILURE, c\<lparr>sendbuf := buf\<rparr>, w1)
        else sendPacket env len timer (c\<lparr>sendbuf := buf\<rparr>) w1) = Some (rc, c', w')"
      using assms True by (auto simp: cycle_publish_def d dm a Let_def bind_eq_Some_conv)
    then have "touched (c\<lparr>sendbuf := buf\<rparr>) c'"
      by (auto split: if_splits dest: sendPacket_touched)
    then show ?thesis
      using touched_sendbuf l by blast
  qed
qed

text \<open>A client that is connected after a cycle got a packet the cycle knows.\<close>

lemma cycle_outcome:
  assumes "cycle env timer c w = Some (rc, c', w')"
  shows "\<exists>c1. touched c c1 \<and> (c' = c1 \<or> c' = closeSession c1) \<and>
    (isconnected c' \<longrightarrow> rc \<in> {0} \<union> msg_int ` {CONNACK, PUBACK, SUBACK, PUBLISH, PINGRESP})"
proof -
  obtain ty c1 w1 where r: "readPacket env timer c w = Some (ty, c1, w1)"
    using assms by (auto simp: cycle_def bind_eq_Some_conv)
  define known where "known = {0} \<union> msg_int ` {CONNACK, PUBACK, SUBACK, PUBLISH, PINGRESP}"
  let ?switch = "(if ty = 0 \<or> ty = msg_int CONNACK \<or> ty = msg_int PUBACK \<or>
           ty = msg_int SUBACK then Some (False, SUCCESS, c1, w1)
        else if ty = msg_int PUBLISH then cycle_publish env timer c1 w1
        else if ty = msg_int PINGRESP then Some (False, SUCCESS, c1\<lparr>ping_outstanding := False\<rparr>, w1)
        else Some (True, ty, c1, w1))"
  obtain ex rc2 c2 w2 where s: "?switch = Some (ex, rc2, c2, w2)"
    using assms by (auto simp: cycle_def r bind_eq_Some_conv)
  have t2: "touched c c2"
    using s readPacket_touched [OF r]
    by (auto split: if_splits dest!: cycle_publish_touched intro: touched_trans) (auto simp: touched_def)
  have k2: "ex \<Longrightarrow> rc2 = SUCCESS \<Longrightarrow> ty \<in> known" "\<not> ex \<Longrightarrow> ty \<in> known"
    using s by (auto simp: known_def SUCCESS_def split: if_splits)
  obtain rc3 c3 w3 where k: "(if ex then Some (rc2, c2, w2)
        else do {
          (krc, c, w) \<leftarrow> keepalive env c2 w2;
          Some (if krc \<noteq> SUCCESS then FAILURE else rc2, c, w)
        }) = Some (rc3, c3, w3)"
    using assms by (auto simp: cycle_def r s bind_eq_Some_conv)
  have t3: "touched c c3"
    using k t2 by (auto simp: bind_eq_Some_conv split: if_splits dest!: keepalive_touched intro: touched_trans)
  have k3: "rc3 = SUCCESS \<Longrightarrow> ty \<in> known"
    using k k2 by (cases ex) auto
  have "(if rc3 = SUCCESS then Some (ty, c3, w3)
      else Some (rc3, if isconnected c3 then closeSession c3 else c3, w3)) = Some (rc, c', w')"
    using assms by (simp add: cycle_def r s k)
  then show ?thesis
    using t3 k3 unfolding known_def by (auto split: if_splits)
qed

lemma waitfor_loop_cycle:
  assumes "waitfor_loop env ty timer rc c w = Some (ty, c', w')" "rc \<noteq> ty"
  shows "\<exists>c0 w0. cycle env timer c0 w0 = Some (ty, c', w')"
proof -
  have "case (ty, c', w') of (r, c', w') \<Rightarrow> r = ty \<longrightarrow> rc \<noteq> ty \<longrightarrow> (\<exists>c0 w0. cycle env timer c0 w0 = Some (ty, c', w'))"
    using assms(1)
    by (rule waitfor_loop.raw_induct [where P = "\<lambda>env ty timer rc c w (r, c', w').
      r = ty \<longrightarrow> rc \<noteq> ty \<longrightarrow> (\<exists>c0 w0. cycle env timer c0 w0 = Some (ty, c', w'))", rotated])
      (auto simp: bind_eq_Some_conv split: if_splits)
  then show ?thesis
    using assms(2) by simp
qed

section \<open>Unsubscribing\<close>

text \<open>
  C40: every call of \<open>unsubscribe\<close> ends the connection: \<open>cycle\<close> has no case for UNSUBACK, so the very
  packet that confirms the request closes the session, while the call reports success.
\<close>

theorem unsubscribe_always_disconnects:
  assumes "unsubscribe env tfilter c w = Some (rc, c', w')"
  shows "\<not> isconnected c'"
proof -
  have closed: "\<not> isconnected c3" if wait: "waitfor env UNSUBACK timer c2 w2 = Some (msg_int UNSUBACK, c3, w3)" for timer c2 w2 c3 w3
  proof -
    have "FAILURE \<noteq> msg_int UNSUBACK"
      by (simp add: msg_int_def FAILURE_def)
    then obtain c0 w0 where "cycle env timer c0 w0 = Some (msg_int UNSUBACK, c3, w3)"
      using waitfor_loop_cycle [OF wait [unfolded waitfor_def]] by blast
    from cycle_outcome [OF this] show ?thesis
      by (auto simp: msg_int_def)
  qed
  have set: "isconnected (snd (setMessageHandler f mh c3)) = isconnected c3" for f mh c3
    by (auto simp: setMessageHandler_def Let_def split: option.splits)
  show ?thesis
    using assms closed
    by (auto simp: unsubscribe_def Let_def bind_eq_Some_conv set return_codes split: if_splits prod.splits)
qed

text \<open>A whole exchange: the call succeeds, the handler is gone, and so is the session.\<close>

lemma unsubscribe_confirmed:
  assumes env: "prompt env inp outp log T0 T" and c: "session_ok T0 T c" "isconnected c"
    and time: "T - T0 < unat (command_timeout_ms c)"
    and ser: "MQTTSerialize_unsubscribe (sendbuf c) MAX_MQTT_PACKET_SIZE 0 (next_id c) 1 [string_topic tfilter] = Some (int k, buf)"
    and k: "0 < k" "k \<le> 500" "length buf = 500"
    and inp: "inp w = enc_ack 11 0 0 (next_id c) @ rest"
  shows "\<exists>c' w'. unsubscribe env tfilter c w = Some (SUCCESS, c', w') \<and> outp w' = outp w @ take k buf"
proof -
  define timer where "timer = countdown_ms env w (command_timeout_ms c)"
  have timer: "alive T timer"
    unfolding timer_def by (rule alive_countdown_ms [OF env time])
  let ?c0 = "c\<lparr>packetid := fst (getNext c), sendbuf := buf\<rparr>"
  have c0: "resting T0 T ?c0" "length (readbuf ?c0) = 500"
    using c by (simp_all add: session_ok_def resting_def)
  obtain t w1 where s: "sendPacket env (int k) timer ?c0 w = Some (SUCCESS, ?c0\<lparr>last_sent := t\<rparr>, w1)"
    "inp w1 = inp w" "outp w1 = outp w @ take k buf" "resting T0 T (?c0\<lparr>last_sent := t\<rparr>)"
    using sendPacket_prompt [OF env k(1) _ c0(1), of timer w] k by auto
  let ?c1 = "?c0\<lparr>last_sent := t\<rparr>" and ?h = "header_byte \<lparr>hdr_retain = 0, hdr_qos = 0, hdr_dup = 0, hdr_type = 11\<rparr>"
  obtain rb t2 w2 where r: "readPacket env timer ?c1 w1 = Some (11, ?c1\<lparr>readbuf := rb, last_received := t2\<rparr>, w2)"
    "holds rb 0 (enc_ack 11 0 0 (next_id c))" "outp w2 = outp w1"
    using readPacket_prompt [OF env inp [unfolded enc_ack_packet, folded s(2)] s(4), of timer] c0(2)
    by (auto simp: packet_def enc_len_small enc_ack_packet)
  let ?c2 = "closeSession (?c1\<lparr>readbuf := rb, last_received := t2\<rparr>)"
  have "cycle env timer ?c1 w1 = Some (11, ?c2, w2)"
    using r(1) c(2) by (simp add: cycle_def msg_int_def SUCCESS_def)
  then have "waitfor env UNSUBACK timer ?c1 w1 = Some (msg_int UNSUBACK, ?c2, w2)"
    using alive_not_expired [OF env timer, of w1]
    by (simp add: waitfor_def waitfor_loop.simps [of env _ timer] msg_int_def)
  moreover have "MQTTDeserialize_unsuback 0 (readbuf ?c2) MAX_MQTT_PACKET_SIZE = Some (1, next_id c)"
    using MQTTDeserialize_ack_holds [OF r(2)] by (simp add: MQTTDeserialize_unsuback_def Let_def)
  ultimately show ?thesis
    using c(2) ser s(1,3) r(3) k(1) unfolding unsubscribe_def timer_def [symmetric] Let_def
    by (subst getNext_simps) (simp add: next_id_def [symmetric] return_codes)
qed

lemma unsubscribe_one:
  assumes "length buf = 500"
  shows "\<exists>b. MQTTSerialize_unsubscribe buf MAX_MQTT_PACKET_SIZE 0 pid 1 [string_topic [0x61]] = Some (int 7, b) \<and> length b = 500"
proof -
  define n where "n = (5 :: nat)"
  have len: "MQTTSerialize_unsubscribeLength 1 [string_topic [0x61]] = Some (int n)"
    by (simp add: MQTTSerialize_unsubscribeLength_def nth_opt_def string_topic_def MQTTstrlen_def n_def)
  have ok: "str_ok (string_topic [0x61])" "length (str_bytes (string_topic [0x61])) = 1"
    by (simp_all add: str_ok_def string_topic_def str_bytes_def)
  have fit: "MQTTPacket_len (int n) \<le> 500" "length (enc_len n) = 1"
    by (simp_all add: n_def MQTTPacket_len_def enc_len_small)
  show ?thesis
    using assms ok fit
    by (simp add: MQTTSerialize_unsubscribe_def len MAX_MQTT_PACKET_SIZE_def nth_opt_def put_simps bind_map_out)
      (simp add: put_0)
qed

theorem unsubscribe_always_disconnects_witness:
  "\<exists>c' w'. unsubscribe script_env [0x61] sample_client (enc_ack 11 0 0 1, [], []) = Some (SUCCESS, c', w') \<and> \<not> isconnected c'"
proof -
  obtain b where b: "MQTTSerialize_unsubscribe (sendbuf sample_client) MAX_MQTT_PACKET_SIZE 0 1 1 [string_topic [0x61]] = Some (int 7, b)"
    "length b = 500"
    using unsubscribe_one [of "sendbuf sample_client"] sample_client_ok(1) by (auto simp: session_ok_def)
  obtain c' w' where "unsubscribe script_env [0x61] sample_client (enc_ack 11 0 0 1, [], []) = Some (SUCCESS, c', w')"
    using unsubscribe_confirmed [OF script_prompt sample_client_ok(1,2), of "[0x61]" 7 b "(enc_ack 11 0 0 1, [], [])" "[]"] b
    by (auto simp: sample_client_ok)
  with unsubscribe_always_disconnects [OF this] show ?thesis
    by blast
qed

section \<open>Messages that break the client\<close>

lemma deliver_loop_null:
  assumes "m \<in> set hs" "topicFilter m = Some f" "f \<noteq> []" "cstring t = None" "ls_data (lenstring t) = None"
    "0 < ls_len (lenstring t)"
  shows "deliver_loop env hs t msg rc w = None"
  using assms(1)
proof (induction hs arbitrary: rc w)
  case (Cons x hs)
  have eq: "topicFilter x = Some g \<Longrightarrow> MQTTPacket_equals t g = (if ls_len (lenstring t) = int (length g) then None else Some False)" for g
    using assms(4-6) by (simp add: MQTTPacket_equals_def)
  have match: "isTopicMatched g t = (if g = [] then Some False else None)" for g
    using assms(5,6) by (cases g) (simp_all add: isTopicMatched_def rd_def)
  show ?case
  proof (cases "topicFilter x")
    case None
    then show ?thesis
      using Cons assms(2) by (cases "m = x") auto
  next
    case (Some g)
    show ?thesis
      using Some Cons eq [OF Some] match [of g] assms(2,3,6) by (cases "g = []") (auto split: option.splits)
  qed
qed simp

text \<open>
  A PUBLISH whose topic is longer than the packet makes the client read through a null pointer:
  \<open>MQTTDeserialize_publish\<close> reports success with a length and no data, and the first handler with a
  filter is matched against it.
\<close>

theorem malformed_publish_reads_null:
  assumes env: "prompt env inp outp log T0 T" and c: "resting T0 T c" "length (readbuf c) = 500"
    and h: "m \<in> set (messageHandlers c)" "topicFilter m = Some f" "f \<noteq> []"
    and inp: "inp w = [0x30, 2, hi, lo] @ rest" "hi \<noteq> 0 \<or> lo \<noteq> 0"
  shows "cycle env timer c w = None"
proof -
  have p: "[0x30, 2, hi, lo] = packet 0x30 [hi, lo]"
    by (simp add: packet_def enc_len_small)
  obtain buf t w1 where r: "readPacket env timer c w = Some (3, c\<lparr>readbuf := buf, last_received := t\<rparr>, w1)"
    "holds buf 0 (packet 0x30 [hi, lo])"
    using readPacket_prompt [OF env inp(1) [unfolded p] c, of timer]
    by (auto simp: packet_def enc_len_small header_bits_def)
  have hb: "holds buf 0 (0x30 # enc_len 2 @ [hi, lo])"
    using r(2) by (simp add: packet_def numeral_2_eq_2)
  note o = packet_open [OF hb]
  have o': "MQTTPacket_decodeBuf buf (Suc 0) = Some (Suc 0, 2)" "rd buf 2 = Some hi" "rd buf 3 = Some lo"
    using o(2,3) by (simp_all add: enc_len_small holds_Cons holds_rd numeral_2_eq_2 numeral_3_eq_3)
  define L where "L = 256 * uint hi + uint lo"
  have L: "0 < L"
    using inp(2) uint_gt_0_iff [of hi] uint_gt_0_iff [of lo] by (auto simp: L_def intro: add_pos_nonneg add_nonneg_pos)
  define top where "top = MQTTString_initializer\<lparr>lenstring := \<lparr>ls_len = L, ls_data = None\<rparr>\<rparr>"
  have "readInt buf 2 = Some (L, 4)"
    using o'(2,3) by (simp add: readInt_def L_def)
  then have rs: "readMQTTLenString MQTTString_initializer buf (Suc (Suc 0)) 4 = Some (False, top, 4)"
    using L by (simp add: readMQTTLenString_def MQTTString_initializer_def top_def numeral_2_eq_2)
  have d: "MQTTDeserialize_publish unset_message buf MAX_MQTT_PACKET_SIZE =
      Some (1, unset_message\<lparr>pub_topicName := top\<rparr>)"
    using o(1) o'(1) rs
    by (simp add: MQTTDeserialize_publish_def header_bits_def unset_message_def)
  have "deliverMessage env top (unset_message\<lparr>pub_topicName := top\<rparr>) (c\<lparr>readbuf := buf, last_received := t\<rparr>) w1 = None"
    using deliver_loop_null [OF h, of top env] L
    by (simp add: deliverMessage_def top_def MQTTString_initializer_def)
  then have "cycle_publish env timer (c\<lparr>readbuf := buf, last_received := t\<rparr>) w1 = None"
    using d by (simp add: cycle_publish_def)
  then show ?thesis
    using r(1) by (simp add: cycle_def msg_int_def)
qed

text \<open>
  A read that returns fewer bytes than asked, which \<open>recv\<close> may do at any time, closes the session, and
  nobody is told: \<open>readPacket\<close> returns the 1 of its first read, \<open>cycle\<close> takes it for a packet type, and
  \<open>yield\<close>, whose success means that the client is still connected, reports success.
\<close>

theorem short_read_closes_silently:
  assumes r: "ipstack_read env w 1 (left_ms env w timer) = (1, [h], w1)"
    "decodePacket env (left_ms env w1 timer) w1 = Some (l, int n, w2)"
    "ipstack_read env w2 (int n) (left_ms env w2 timer) = (k, bs, w3)"
    and n: "0 < n" "1 + length (enc_len n) + n \<le> 500" "k \<noteq> int n" "length bs \<le> n"
    and c: "length (readbuf c) = 500" "isconnected c"
    and t: "\<not> expired env w timer" "expired env w3 timer"
  shows "\<exists>c'. cycle env timer c w = Some (1, c', w3) \<and> yield_loop env timer c w = Some (SUCCESS, c', w3) \<and>
    \<not> isconnected c'"
proof -
  obtain b1 where b1: "wr_bytes (readbuf c) 0 [h] = Some b1" "length b1 = 500"
    using c(1) by (auto simp: wr_bytes_def)
  obtain b2 where b2: "wr_bytes b1 1 (enc_len n) = Some b2" "length b2 = 500"
    using b1(2) n(2) by (auto simp: wr_bytes_def)
  obtain b3 where b3: "wr_bytes b2 (1 + length (enc_len n)) bs = Some b3"
    using b2(2) n(2,4) by (auto simp: wr_bytes_def)
  have "readPacket env timer c w = Some (1, c\<lparr>readbuf := b3\<rparr>, w3)"
    using r b1 b2 b3 n by (simp add: readPacket_def MQTTPacket_encode_put MAX_MQTT_PACKET_SIZE_def nat_add_distrib)
  then have "cycle env timer c w = Some (1, closeSession (c\<lparr>readbuf := b3\<rparr>), w3)"
    using c(2) by (simp add: cycle_def msg_int_def SUCCESS_def)
  then show ?thesis
    using t by (subst yield_loop.simps) (simp add: yield_loop.simps [of env timer _ w3])
qed

text \<open>Two bytes of topic length and nothing behind them; the first byte of a packet and nothing behind it.\<close>

theorem malformed_publish_reads_null_witness:
  "cycle script_env stopped sample_client ([0x30, 2, 0, 5], [], []) = None"
  by (rule malformed_publish_reads_null [OF script_prompt, where m = "\<lparr>topicFilter = Some [0x61], fp = Some 7\<rparr>" and
      f = "[0x61]" and hi = 0 and lo = 5 and rest = "[]"])
    (use sample_client_ok(1) in \<open>simp_all add: session_ok_def sample_client_def\<close>)

definition trickle_env :: "(nat, nat script) mqtt_env" where
  "trickle_env = script_env\<lparr>clock_ms := \<lambda>w. 100 - length (fst w)\<rparr>"

theorem short_read_closes_silently_witness:
  "\<exists>c'. yield_loop trickle_env \<lparr>cd_start = Some 0, interval_end_ms = 100\<rparr> sample_client ([0x30, 5, 1], [], []) =
    Some (SUCCESS, c', [], [], []) \<and> \<not> isconnected c'"
proof -
  let ?t = "\<lparr>cd_start = Some 0, interval_end_ms = 100\<rparr>"
  have r: "ipstack_read trickle_env ([0x30, 5, 1], [], []) 1 (left_ms trickle_env ([0x30, 5, 1], [], []) ?t) = (1, [0x30], [5, 1], [], [])"
    "ipstack_read trickle_env ([1], [], []) (int 5) (left_ms trickle_env ([1], [], []) ?t) = (1, [1], [], [], [])"
    by (simp_all add: trickle_env_def script_env_def)
  have d: "decodePacket trickle_env t ([5, 1], [], []) = Some (1, int 5, [1], [], [])" for t
    by (simp add: decodePacket_def decode_loop.simps [of _ _ 1] MAX_NO_OF_REMAINING_LENGTH_BYTES_def getchar_of_def trickle_env_def script_env_def)
  show ?thesis
    using short_read_closes_silently [OF r(1) d r(2)]
    by (force simp: enc_len_small sample_client_def expired_def read_ms_def trickle_env_def)
qed

section \<open>The invariant of the client\<close>

definition client_ok :: "'h Client \<Rightarrow> bool" where
  "client_ok c \<longleftrightarrow> length (sendbuf c) = 500 \<and> length (readbuf c) = 500 \<and> length (pubbuf c) = 500 \<and>
     length (messageHandlers c) = MAX_MESSAGE_HANDLERS \<and> table_ok (messageHandlers c) \<and>
     0 \<le> packetid c \<and> packetid c \<le> MAX_PACKET_ID \<and>
     (inflightMsgid c \<noteq> 0 \<longrightarrow> 0 < inflightLen c \<and> inflightLen c \<le> 500)"

lemma client_ok_touched: "client_ok c \<Longrightarrow> touched c c' \<Longrightarrow> client_ok c'"
  by (simp add: client_ok_def touched_def)

lemma table_ok_unused: "table_ok (map (\<lambda>m. m\<lparr>topicFilter := None\<rparr>) hs)"
  by (auto simp: table_ok_def)

lemma client_ok_closeSession: "client_ok c \<Longrightarrow> client_ok (closeSession c)"
  by (simp add: client_ok_def closeSession_def cleanSession_def Let_def table_ok_unused)

lemma client_ok_cycle: "client_ok c \<Longrightarrow> cycle env timer c w = Some (rc, c', w') \<Longrightarrow> client_ok c'"
  by (drule cycle_outcome) (auto intro: client_ok_touched client_ok_closeSession)

lemma client_ok_waitfor:
  assumes "waitfor env ty timer c w = Some (r, c', w')" "client_ok c"
  shows "client_ok c'"
proof -
  have "case (r, c', w') of (r, c', w') \<Rightarrow> client_ok c \<longrightarrow> client_ok c'"
    using assms(1) unfolding waitfor_def
    by (rule waitfor_loop.raw_induct [where P = "\<lambda>env ty timer rc c w (r, c', w'). client_ok c \<longrightarrow> client_ok c'", rotated])
      (auto simp: bind_eq_Some_conv split: if_splits dest: client_ok_cycle)
  then show ?thesis
    using assms(2) by simp
qed

lemma client_ok_yield:
  assumes "yield env ms c w = Some (r, c', w')" "client_ok c"
  shows "client_ok c'"
proof -
  have "case (r, c', w') of (r, c', w') \<Rightarrow> client_ok c \<longrightarrow> client_ok c'"
    using assms(1) unfolding yield_def
    by (rule yield_loop.raw_induct [where P = "\<lambda>env timer c w (r, c', w'). client_ok c \<longrightarrow> client_ok c'", rotated])
      (auto simp: bind_eq_Some_conv split: if_splits dest: client_ok_cycle)
  then show ?thesis
    using assms(2) by simp
qed

lemma client_ok_fields [simp]:
  "client_ok (c\<lparr>isconnected := b, ping_outstanding := p\<rparr>) = client_ok c"
  "client_ok (c\<lparr>last_received := t\<rparr>) = client_ok c"
  "client_ok (c\<lparr>keepAliveInterval := i, cleansession := cl\<rparr>) = client_ok c"
  by (simp_all add: client_ok_def)

lemma client_ok_id: "client_ok c \<Longrightarrow> client_ok (c\<lparr>inflightMsgid := 0\<rparr>)"
  by (simp add: client_ok_def)

lemma client_ok_sendbuf: "client_ok c \<Longrightarrow> length b = length (sendbuf c) \<Longrightarrow> client_ok (c\<lparr>sendbuf := b\<rparr>)"
  by (simp add: client_ok_def)

lemma client_ok_getNext: "client_ok c \<Longrightarrow> getNext c = (n, c') \<Longrightarrow> client_ok c'"
  by (auto simp: client_ok_def getNext_def MAX_PACKET_ID_def Let_def)

lemma client_ok_setMessageHandler:
  assumes "client_ok c" "setMessageHandler f mh c = (rc, c')"
  shows "client_ok c'"
proof -
  have t: "table_ok (messageHandlers c)"
    using assms(1) by (simp add: client_ok_def)
  note r = setMessageHandler_table [OF t assms(2)]
  have "c' = c\<lparr>messageHandlers := messageHandlers c'\<rparr>"
    by (rule r(6))
  moreover have "client_ok (c\<lparr>messageHandlers := messageHandlers c'\<rparr>)"
    using assms(1) r(1,2) by (simp add: client_ok_def)
  ultimately show ?thesis
    by simp
qed

lemma client_ok_publish_packet:
  assumes "publish_packet env len timer qos c w = Some (rc, c', w')" "client_ok c"
  shows "client_ok c'"
  using assms
  by (auto simp: publish_packet_def bind_eq_Some_conv split: if_splits
      dest!: sendPacket_touched dest: client_ok_touched client_ok_waitfor
      intro!: client_ok_closeSession client_ok_id)

text \<open>The same as rules on chains of steps.\<close>

abbreviation ok_result :: "int \<times> 'h Client \<times> 'w \<Rightarrow> bool" where
  "ok_result \<equiv> \<lambda>(rc, c, w). client_ok c"

lemma yields_bind_client:
  assumes "yields ok_result x" "\<And>rc c w. client_ok c \<Longrightarrow> yields Q (f rc c w)"
  shows "yields Q (Option.bind x (\<lambda>(rc, c, w). f rc c w))"
  by (rule yields_bind [OF assms(1)]) (auto simp: assms(2))

lemma yields_bind_any:
  fixes x :: "('y \<times> 'z) option"
  assumes "\<And>y z. x = Some (y, z) \<Longrightarrow> yields Q (f y z)"
  shows "yields Q (Option.bind x (\<lambda>(y, z). f y z))"
  using assms by (cases x) auto

lemma yields_bind_state:
  assumes "yields client_ok x" "\<And>c. client_ok c \<Longrightarrow> yields Q (f c)"
  shows "yields Q (Option.bind x f)"
  by (rule yields_bind [OF assms])

lemmas yields_bind_parts = yields_bind_state yields_bind_client
  yields_bind_any [where 'z = "byte list"] yields_bind_any [where 'z = ack_out] yields_bind_any [where 'z = suback_out]
  yields_bind_any [where 'z = connack_out] yields_bind_any [where 'z = u16]

lemma ok_steps:
  "client_ok c \<Longrightarrow> yields ok_result (sendPacket env len timer c w)"
  "client_ok c \<Longrightarrow> yields ok_result (waitfor env ty timer c w)"
  "client_ok c \<Longrightarrow> yields ok_result (publish_packet env len timer qos c w)"
  by (auto simp: yields_def dest: sendPacket_touched client_ok_touched client_ok_waitfor client_ok_publish_packet)

lemma ok_connect_answer:
  "client_ok c \<Longrightarrow> yields (\<lambda>(rc, d, c, w). client_ok c) (connect_answer env timer d c w)"
  unfolding connect_answer_def
  by (intro yields_bind_parts ok_steps yields_if) (auto simp: Let_def)

lemma ok_connect:
  assumes "client_ok c"
  shows "yields (\<lambda>(rc, d, c, w). client_ok c) (connect env options d c w)"
proof -
  define timer where "timer = countdown_ms env w (command_timeout_ms c)"
  define c0 where "c0 = c\<lparr>keepAliveInterval := ucast (cd_keepAliveInterval options), cleansession := cd_cleansession options \<noteq> 0\<rparr>"
  have c0: "client_ok c0"
    using assms by (simp add: c0_def)
  have buf: "client_ok (c0\<lparr>sendbuf := b\<rparr>)" if "MQTTSerialize_connect (sendbuf c0) MAX_MQTT_PACKET_SIZE options = Some (n, b)" for n b
    using c0 MQTTSerialize_connect_length [OF that] by (rule client_ok_sendbuf)
  have resend: "yields ok_result (publish_packet env (inflightLen c1) timer (inflightQoS c1) (c1\<lparr>sendbuf := pubbuf c1\<rparr>) w1)"
    if "client_ok c1" for c1 w1
    by (rule ok_steps, rule client_ok_sendbuf) (use that in \<open>simp_all add: client_ok_def\<close>)
  have rest: "client_ok c1 \<Longrightarrow> yields (\<lambda>(rc, d, c, w). client_ok c) (do {
      (rc, data, c, w) \<leftarrow> connect_answer env timer d c1 w1;
      (rc, c, w) \<leftarrow> (if 0 < inflightMsgid c then
          publish_packet env (inflightLen c) timer (inflightQoS c) (c\<lparr>sendbuf := pubbuf c\<rparr>) w else Some (rc, c, w));
      Some (rc, data, connect_exit rc c, w)
    })" for c1 w1
    by (rule yields_bind [OF ok_connect_answer])
      (auto simp: connect_exit_def split: prod.splits intro!: yields_bind_client [OF resend])
  show ?thesis
    unfolding connect_def Let_def timer_def [symmetric] c0_def [symmetric]
    by (auto simp: assms split: prod.splits dest!: buf intro!: yields_bind_parts ok_steps rest)
qed

lemma ok_exit:
  "client_ok c \<Longrightarrow> client_ok (if b then closeSession c else c)"
  by (simp add: client_ok_closeSession)

lemma ok_subscribe:
  assumes "client_ok c"
  shows "yields (\<lambda>(rc, g, c, w). client_ok c) (subscribe env tfilter qos mh granted c w)"
proof -
  obtain n c0 where c0: "getNext c = (n, c0)" "client_ok c0"
    using client_ok_getNext [OF assms] by (cases "getNext c") auto
  have buf: "client_ok (c0\<lparr>sendbuf := b\<rparr>)"
    if "MQTTSerialize_subscribe (sendbuf c0) MAX_MQTT_PACKET_SIZE 0 (word_of_int n) 1 [string_topic tfilter] [qos] = Some (k, b)" for k b
    using c0(2) MQTTSerialize_subscribe_length [OF that] by (rule client_ok_sendbuf)
  show ?thesis
    unfolding subscribe_def Let_def
    by (auto simp: assms c0 dest!: buf split: prod.splits
        intro!: yields_bind_parts ok_steps client_ok_closeSession)
      (blast intro: client_ok_setMessageHandler)+
qed

lemma ok_unsubscribe:
  assumes "client_ok c"
  shows "yields ok_result (unsubscribe env tfilter c w)"
proof -
  obtain n c0 where c0: "getNext c = (n, c0)" "client_ok c0"
    using client_ok_getNext [OF assms] by (cases "getNext c") auto
  have buf: "client_ok (c0\<lparr>sendbuf := b\<rparr>)"
    if "MQTTSerialize_unsubscribe (sendbuf c0) MAX_MQTT_PACKET_SIZE 0 (word_of_int n) 1 [string_topic tfilter] = Some (k, b)" for k b
    using c0(2) MQTTSerialize_unsubscribe_length [OF that] by (rule client_ok_sendbuf)
  have set: "client_ok c1 \<Longrightarrow> client_ok (snd (setMessageHandler tfilter None c1))" for c1
    by (cases "setMessageHandler tfilter None c1") (auto dest: client_ok_setMessageHandler)
  show ?thesis
    unfolding unsubscribe_def Let_def
    by (auto simp: assms c0 set dest!: buf split: prod.splits
        intro!: yields_bind_parts ok_steps client_ok_closeSession)
qed

lemma ok_publish:
  assumes "client_ok c"
  shows "yields (\<lambda>(rc, i, c, w). client_ok c) (publish env t p l i q r c w)"
proof -
  define idc where "idc = (if q = 1 \<or> q = 2 then (case getNext c of (n, c) \<Rightarrow> (word_of_int n, c)) else (i, c))"
  obtain j c0 where c0: "idc = (j, c0)" "client_ok c0"
    using client_ok_getNext [OF assms, of "fst (getNext c)" "snd (getNext c)"] assms
    by (cases "q = 1 \<or> q = 2") (auto simp: idc_def split_beta)
  have buf: "client_ok (c0\<lparr>sendbuf := b\<rparr>) \<and> length b = 500"
    if "MQTTSerialize_publish (sendbuf c0) MAX_MQTT_PACKET_SIZE 0 q rb j
      (MQTTString_initializer\<lparr>cstring := Some t\<rparr>) p (sint l) = Some (k, b)" for k b rb
    using c0(2) MQTTSerialize_publish_length [OF that] client_ok_sendbuf [of c0 b] by (simp add: client_ok_def)
  have pub: "yields client_ok (if \<not> cleansession c1 then do {
      bytes \<leftarrow> rd_bytes (sendbuf c1) (nat k);
      pub \<leftarrow> wr_bytes (pubbuf c1) 0 bytes;
      Some (c1\<lparr>pubbuf := pub, inflightMsgid := j, inflightLen := k, inflightQoS := q\<rparr>)
    } else Some c1)" if "client_ok c1" "\<not> k \<le> 0" for c1 k
    using that by (auto simp: yields_def client_ok_def rd_bytes_def bind_eq_Some_conv mem_simps split: if_splits)
  show ?thesis
    unfolding publish_def Let_def idc_def [symmetric] c0(1)
    by (auto simp: assms simp del: if_split split: prod.splits dest!: buf intro!: yields_bind_parts yields_if ok_steps pub)
qed

lemma ok_disconnect:
  assumes "client_ok c"
  shows "yields ok_result (disconnect env c w)"
proof -
  have buf: "client_ok (c\<lparr>sendbuf := b\<rparr>)" if "MQTTSerialize_disconnect (sendbuf c) MAX_MQTT_PACKET_SIZE = Some (k, b)" for k b
    using assms MQTTSerialize_zero_length [OF that [unfolded MQTTSerialize_disconnect_def]] by (rule client_ok_sendbuf)
  show ?thesis
    unfolding disconnect_def Let_def
    by (auto simp: client_ok_closeSession split: prod.splits dest!: buf intro!: yields_bind_parts ok_steps)
qed

section \<open>Every sequence of calls\<close>

datatype 'h client_call =
    Call_connect MQTTPacket_connectData
  | Call_publish "byte list" "byte list" u32 int bool
  | Call_subscribe "byte list" int "'h option"
  | Call_unsubscribe "byte list"
  | Call_disconnect
  | Call_yield u32
  | Call_setMessageHandler "byte list" "'h option"
  | Call_setDefaultMessageHandler "'h option"

definition result_state :: "(int \<times> 'h Client \<times> 'w) option \<Rightarrow> ('h Client \<times> 'w) option" where
  "result_state x = map_option snd x"

primrec client_step ::
    "('h, 'w) mqtt_env \<Rightarrow> 'h client_call \<Rightarrow> 'h Client \<times> 'w \<Rightarrow> ('h Client \<times> 'w) option" where
  "client_step env (Call_connect opts) s =
     map_option (\<lambda>(rc, d, s). s) (connect env opts \<lparr>cnd_rc = 0, sessionPresent = False\<rparr> (fst s) (snd s))"
| "client_step env (Call_publish t p l q r) s = result_state (publish_message env t p l q r (fst s) (snd s))"
| "client_step env (Call_subscribe f q mh) s = map_option (\<lambda>(rc, g, s). s) (subscribe env f q mh 0 (fst s) (snd s))"
| "client_step env (Call_unsubscribe f) s = result_state (unsubscribe env f (fst s) (snd s))"
| "client_step env Call_disconnect s = result_state (disconnect env (fst s) (snd s))"
| "client_step env (Call_yield ms) s = result_state (yield env ms (fst s) (snd s))"
| "client_step env (Call_setMessageHandler f mh) s = Some (snd (setMessageHandler f mh (fst s)), snd s)"
| "client_step env (Call_setDefaultMessageHandler mh) s = Some (setDefaultMessageHandler mh (fst s), snd s)"

inductive client_reach :: "('h, 'w) mqtt_env \<Rightarrow> 'h Client \<times> 'w \<Rightarrow> 'h Client \<times> 'w \<Rightarrow> bool" for env s0 where
  start: "client_reach env s0 s0"
| step: "client_reach env s0 s \<Longrightarrow> client_step env call s = Some s' \<Longrightarrow> client_reach env s0 s'"

lemma client_step_ok:
  assumes "client_step env call s = Some s'" "client_ok (fst s)"
  shows "client_ok (fst s')"
proof (cases call)
  case (Call_connect opts)
  then show ?thesis
    using assms ok_connect [OF assms(2), of env opts "\<lparr>cnd_rc = 0, sessionPresent = False\<rparr>" "snd s"]
    by (auto simp: yields_def)
next
  case (Call_publish t p l q r)
  then show ?thesis
    using assms ok_publish [OF assms(2), of env t p l 0 q r "snd s"]
    by (auto simp: yields_def result_state_def publish_message_def bind_eq_Some_conv)
next
  case (Call_subscribe f q mh)
  then show ?thesis
    using assms ok_subscribe [OF assms(2), of env f q mh 0 "snd s"] by (auto simp: yields_def)
next
  case (Call_unsubscribe f)
  then show ?thesis
    using assms ok_unsubscribe [OF assms(2), of env f "snd s"] by (auto simp: yields_def result_state_def)
next
  case Call_disconnect
  then show ?thesis
    using assms ok_disconnect [OF assms(2), of env "snd s"] by (auto simp: yields_def result_state_def)
next
  case (Call_yield ms)
  then show ?thesis
    using assms by (auto simp: result_state_def dest: client_ok_yield)
next
  case (Call_setMessageHandler f mh)
  then show ?thesis
    using assms client_ok_setMessageHandler [OF assms(2)] by (metis client_step.simps(7) fst_conv option.inject prod.collapse)
next
  case (Call_setDefaultMessageHandler mh)
  then show ?thesis
    using assms by (auto simp: client_ok_def setDefaultMessageHandler_def)
qed

text \<open>
  C25: whatever calls are made on a constructed client, whatever the network answers, the client stays well
  formed: its buffers keep their 500 bytes, packet identifiers stay in 16 bits, the table has ten slots with
  no filter twice, and a message kept for resending fits its buffer.
\<close>

theorem client_invariant:
  assumes "length (sendbuf mem) = 500" "length (readbuf mem) = 500" "length (pubbuf mem) = 500"
    and "length (messageHandlers mem) = MAX_MESSAGE_HANDLERS"
    and "client_reach env (Client_init mem timeout, w) (c, w')"
  shows "client_ok c"
proof -
  have init: "client_ok (Client_init mem timeout)"
    using assms(1-4) table_ok_unused [of "map (\<lambda>m. m\<lparr>fp := None\<rparr>) (messageHandlers mem)"]
    by (simp add: Client_init_def closeSession_def cleanSession_def client_ok_def MAX_PACKET_ID_def Let_def comp_def)
  have "client_ok (fst (c, w'))"
    using assms(5)
  proof (induction "(c, w')" arbitrary: c w' rule: client_reach.induct)
    case start
    then show ?case
      using init by simp
  next
    case (step s call c w')
    then show ?case
      using client_step_ok [of env call s "(c, w')"] by (cases s) auto
  qed
  then show ?thesis
    by simp
qed

text \<open>A constructed client that connects, subscribes and is used until the broker confirms an unsubscription.\<close>

definition blank_memory :: "nat Client" where
  "blank_memory = sample_client\<lparr>messageHandlers := replicate 10 \<lparr>topicFilter = Some [], fp = Some 0\<rparr>\<rparr>"

theorem client_invariant_witness:
  "client_ok (snd (setMessageHandler [0x61] (Some 3) (Client_init blank_memory 30000)))"
proof (rule client_invariant [of blank_memory script_env 30000 "([], [], [])" _ "([], [], [])"])
  show "client_reach script_env (Client_init blank_memory 30000, [], [], [])
      (snd (setMessageHandler [0x61] (Some 3) (Client_init blank_memory 30000)), [], [], [])"
    by (rule client_reach.step [OF client_reach.start, where call = "Call_setMessageHandler [0x61] (Some 3)"]) simp
qed (simp_all add: blank_memory_def sample_client_def MAX_MESSAGE_HANDLERS_def)

end
