(* ===== verification/Ifx_Crc.thy ===== *)
theory Ifx_Crc
  imports Prelude
begin

text \<open>
  The CRC of the data link layer (\<open>ifx_i2c_dl_calc_crc\<close> of
  \<open>lib/optiga/comms/ifx_i2c/ifx_i2c_data_link_layer.c\<close>): the shift-and-xor formula of the source is
  the bitwise CRC with the reflected polynomial \<open>0x8408\<close>, and it notices every change of two
  adjacent bytes.
\<close>

section \<open>The code\<close>

text \<open>The casts to \<open>uint16_t\<close> after each shift are the width of the type here.\<close>

definition ifx_i2c_dl_calc_crc_byte :: "u16 \<Rightarrow> byte \<Rightarrow> u16" where
  "ifx_i2c_dl_calc_crc_byte wSeed bByte =
     (let wh1 = (wSeed XOR ucast bByte) AND 0xFF;
          wh2 = wh1 AND 0x0F;
          wh3 = push_bit 4 wh2 XOR wh1;
          wh4 = drop_bit 4 wh3
      in push_bit 3 (push_bit 4 (push_bit 1 wh3 XOR wh4) XOR wh2) XOR wh4 XOR drop_bit 8 wSeed)"

definition ifx_i2c_dl_calc_crc :: "byte list \<Rightarrow> u16 \<Rightarrow> u16 option" where
  "ifx_i2c_dl_calc_crc p_data data_len = do {
     xs \<leftarrow> rd_bytes p_data (unat data_len);
     Some (foldl ifx_i2c_dl_calc_crc_byte 0 xs)
   }"

section \<open>The bitwise reference\<close>

text \<open>One step of the shift register, eight of them for a byte.\<close>

definition crc_bit :: "u16 \<Rightarrow> u16" where
  "crc_bit c = drop_bit 1 c XOR (if bit c 0 then 0x8408 else 0)"

definition crc_ref :: "u16 \<Rightarrow> byte \<Rightarrow> u16" where
  "crc_ref s b = (crc_bit ^^ 8) (s XOR ucast b)"

lemma crc_bit_xor: "crc_bit (a XOR b) = crc_bit a XOR crc_bit b"
  by (rule bit_word_eqI) (auto simp: crc_bit_def bit_simps)

lemma crc_bits_xor: "(crc_bit ^^ n) (a XOR b) = (crc_bit ^^ n) a XOR (crc_bit ^^ n) b"
  by (induction n) (simp_all add: crc_bit_xor)

lemma crc_bits_low_zero: "\<forall>i < n. \<not> bit c i \<Longrightarrow> (crc_bit ^^ n) c = drop_bit n c"
proof (induction n)
  case (Suc n)
  then have "\<not> bit (drop_bit n c) 0"
    by (simp add: bit_simps)
  with Suc show ?case
    by (simp add: crc_bit_def bit_drop_bit_eq)
qed simp

lemma crc_bit_0 [simp]: "crc_bit c = 0 \<longleftrightarrow> c = 0"
proof
  assume z: "crc_bit c = 0"
  have "bit (crc_bit c) 15 \<longleftrightarrow> bit c 0"
    by (auto simp: crc_bit_def bit_simps dest: bit_imp_le_length)
  then have b0: "\<not> bit c 0"
    using z by simp
  have "\<not> bit c n" for n
  proof (cases n)
    case (Suc m)
    have "\<not> bit (crc_bit c) m"
      using z by simp
    then show ?thesis
      using b0 Suc by (simp add: crc_bit_def bit_simps)
  qed (use b0 in simp)
  then show "c = 0"
    by (intro bit_word_eqI) simp
qed (simp add: crc_bit_def)

lemma crc_bits_0 [simp]: "(crc_bit ^^ n) c = 0 \<longleftrightarrow> c = 0"
  by (induction n) simp_all

lemma xor_zero: "a XOR b = 0 \<longleftrightarrow> a = b" for a b :: u16
  by (auto simp: bit_eq_iff bit_xor_iff)

lemma xor_right: "a XOR c = b XOR c \<longleftrightarrow> a = b" for a b c :: u16
  by (auto simp: bit_eq_iff bit_xor_iff)

lemma xor_cancel: "(p XOR a) XOR b = (p XOR a') XOR b' \<Longrightarrow> a XOR a' = b XOR b'" for p a b a' b' :: u16
  by (auto simp: bit_eq_iff bit_xor_iff)

lemma crc_bits_inj: "(crc_bit ^^ n) a = (crc_bit ^^ n) b \<longleftrightarrow> a = b"
proof -
  have "(crc_bit ^^ n) a = (crc_bit ^^ n) b \<longleftrightarrow> (crc_bit ^^ n) (a XOR b) = 0"
    by (simp only: crc_bits_xor xor_zero)
  then show ?thesis
    by (simp add: xor_zero)
qed

section \<open>The formula and the reference agree\<close>

text \<open>Both are linear in the low byte of the register; its 256 values are checked one by one.\<close>

definition crc_low :: "u16 \<Rightarrow> u16" where
  "crc_low x =
     (let wh2 = x AND 0x0F; wh3 = push_bit 4 wh2 XOR x; wh4 = drop_bit 4 wh3
      in push_bit 3 (push_bit 4 (push_bit 1 wh3 XOR wh4) XOR wh2) XOR wh4)"

lemma linear_agree:
  fixes f g :: "u16 \<Rightarrow> u16"
  assumes f: "\<And>a b. f (a XOR b) = f a XOR f b" and g: "\<And>a b. g (a XOR b) = g a XOR g b"
    and basis: "\<And>i. i < n \<Longrightarrow> f (push_bit i 1) = g (push_bit i 1)"
  shows "f (take_bit n x) = g (take_bit n x)"
  using basis
proof (induction n)
  case 0
  have "f 0 = 0" "g 0 = 0"
    using f [of 0 0] g [of 0 0] by simp_all
  then show ?case
    by simp
next
  case (Suc n)
  have split: "take_bit (Suc n) x = take_bit n x XOR (if bit x n then push_bit n 1 else 0)"
    by (rule bit_word_eqI) (auto simp: bit_simps less_Suc_eq)
  have "f 0 = 0" "g 0 = 0"
    using f [of 0 0] g [of 0 0] by simp_all
  then show ?case
    using Suc by (simp add: split f g)
qed

definition crc_half :: "u16 \<Rightarrow> u16" where
  "crc_half x = push_bit 4 (take_bit 4 x) XOR x"

definition crc_mix :: "u16 \<Rightarrow> u16 \<Rightarrow> u16" where
  "crc_mix h l = push_bit 8 h XOR push_bit 7 (drop_bit 4 h) XOR push_bit 3 l XOR drop_bit 4 h"

lemma crc_low_mix: "crc_low x = crc_mix (crc_half x) (take_bit 4 x)"
proof -
  have eq: "(w :: u16) AND 0x0F = take_bit 4 w" for w
    by (simp add: take_bit_eq_mask mask_eq_exp_minus_1)
  have mix: "push_bit 3 (push_bit 4 (push_bit 1 h XOR w) XOR l) XOR w =
      push_bit 8 h XOR push_bit 7 w XOR push_bit 3 l XOR w" for h w l :: u16
    by (simp only: push_bit_xor push_bit_push_bit xor.assoc) (simp add: push_bit_push_bit)
  show ?thesis
    by (simp only: crc_low_def Let_def eq crc_half_def [symmetric] mix crc_mix_def)
qed

lemma crc_low_xor: "crc_low (a XOR b) = crc_low a XOR crc_low b"
proof -
  have "crc_half (a XOR b) = crc_half a XOR crc_half b"
    by (simp only: crc_half_def take_bit_xor push_bit_xor xor.assoc xor.commute xor.left_commute)
  moreover have "crc_mix (g XOR h) (k XOR l) = crc_mix g k XOR crc_mix h l" for g h k l
    by (simp only: crc_mix_def drop_bit_xor push_bit_xor xor.assoc xor.commute xor.left_commute)
  ultimately show ?thesis
    by (simp only: crc_low_mix take_bit_xor)
qed

lemma crc_low_basis:
  assumes "i < 8"
  shows "crc_low (push_bit i 1) = (crc_bit ^^ 8) (push_bit i 1)"
proof -
  have pow: "(crc_bit ^^ 8) x = crc_bit (crc_bit (crc_bit (crc_bit (crc_bit (crc_bit (crc_bit (crc_bit x)))))))" for x
    by (simp add: numeral_eq_Suc)
  have shift: "crc_bit 2 = 1" "crc_bit 4 = 2" "crc_bit 8 = 4" "crc_bit 0x10 = 8" "crc_bit 0x20 = 0x10"
    "crc_bit 0x40 = 0x20" "crc_bit 0x80 = 0x40"
    by (simp_all add: crc_bit_def)
  have feed: "crc_bit 1 = 0x8408" "crc_bit 0x8408 = 0x4204" "crc_bit 0x4204 = 0x2102" "crc_bit 0x2102 = 0x1081"
    "crc_bit 0x1081 = 0x8C48" "crc_bit 0x8C48 = 0x4624" "crc_bit 0x4624 = 0x2312" "crc_bit 0x2312 = 0x1189"
    by (simp_all add: crc_bit_def)
  have low: "crc_low 1 = 0x1189" "crc_low 2 = 0x2312" "crc_low 4 = 0x4624" "crc_low 8 = 0x8C48"
    "crc_low 0x10 = 0x1081" "crc_low 0x20 = 0x2102" "crc_low 0x40 = 0x4204" "crc_low 0x80 = 0x8408"
    by (simp_all add: crc_low_def Let_def)
  have "i = 0 \<or> i = 1 \<or> i = 2 \<or> i = 3 \<or> i = 4 \<or> i = 5 \<or> i = 6 \<or> i = 7"
    using assms by presburger
  then have "push_bit i (1 :: u16) \<in> {1, 2, 4, 8, 0x10, 0x20, 0x40, 0x80}"
    by auto
  then show ?thesis
    unfolding pow by (elim insertE emptyE) (simp_all only: low shift feed)
qed

text \<open>The formula of the source is the bitwise CRC, for every seed and byte.\<close>

lemma calc_crc_byte_low:
  "ifx_i2c_dl_calc_crc_byte s b = crc_low (take_bit 8 (s XOR ucast b)) XOR drop_bit 8 s"
proof -
  have eq: "(w :: u16) AND 0xFF = take_bit 8 w" for w
    by (simp add: take_bit_eq_mask mask_eq_exp_minus_1)
  show ?thesis
    by (simp only: ifx_i2c_dl_calc_crc_byte_def crc_low_def Let_def eq xor.assoc)
qed

lemma calc_crc_byte_ref: "ifx_i2c_dl_calc_crc_byte s b = crc_ref s b"
proof -
  define x where "x = s XOR ucast b"
  have x: "x = take_bit 8 x XOR push_bit 8 (drop_bit 8 x)"
  proof (rule bit_word_eqI)
    fix n
    show "n < LENGTH(16) \<Longrightarrow> bit x n \<longleftrightarrow> bit (take_bit 8 x XOR push_bit 8 (drop_bit 8 x)) n"
      by (cases "n < 8") (auto simp: bit_simps)
  qed
  have dx: "drop_bit 8 x = drop_bit 8 s"
    by (rule bit_word_eqI) (auto simp: x_def bit_simps dest: bit_imp_le_length simp del: drop_bit_xor)
  have "(crc_bit ^^ 8) (push_bit 8 (drop_bit 8 x)) = drop_bit 8 (push_bit 8 (drop_bit 8 x))"
    by (rule crc_bits_low_zero) (simp add: bit_simps)
  also have "\<dots> = drop_bit 8 s"
    by (rule bit_word_eqI) (auto simp: dx bit_simps dest: bit_imp_le_length)
  finally have hi: "(crc_bit ^^ 8) (push_bit 8 (drop_bit 8 x)) = drop_bit 8 s" .
  have "crc_low (take_bit 8 x) = (crc_bit ^^ 8) (take_bit 8 x)"
    by (rule linear_agree) (rule crc_low_xor crc_bits_xor crc_low_basis, assumption?)+
  then have "ifx_i2c_dl_calc_crc_byte s b = (crc_bit ^^ 8) (take_bit 8 x) XOR drop_bit 8 s"
    by (simp add: calc_crc_byte_low x_def)
  also have "\<dots> = (crc_bit ^^ 8) (take_bit 8 x XOR push_bit 8 (drop_bit 8 x))"
    by (simp only: crc_bits_xor hi)
  also have "\<dots> = crc_ref s b"
    by (simp only: x [symmetric]) (simp only: crc_ref_def x_def)
  finally show ?thesis .
qed

section \<open>What the CRC notices\<close>

abbreviation crc_of :: "u16 \<Rightarrow> byte list \<Rightarrow> u16" where
  "crc_of \<equiv> foldl ifx_i2c_dl_calc_crc_byte"

lemma crc_of_seed_inj: "crc_of s xs = crc_of s' xs \<longleftrightarrow> s = s'"
proof (induction xs arbitrary: s s')
  case (Cons x xs)
  have "s XOR ucast x = s' XOR ucast x \<longleftrightarrow> s = s'"
    by (rule xor_right)
  then show ?case
    using Cons by (simp add: calc_crc_byte_ref crc_ref_def crc_bits_inj)
qed simp

lemma crc_low_high_byte:
  assumes hi: "\<And>i. 8 \<le> i \<Longrightarrow> \<not> bit x i" and z: "drop_bit 8 (crc_low x) = 0"
  shows "x = 0"
proof -
  define h where "h = crc_half x"
  have h: "bit h i \<longleftrightarrow> (if i < 4 then bit x i else i < 8 \<and> (bit x i \<noteq> bit x (i - 4)))" for i
    by (cases "8 \<le> i") (use hi [of i] in \<open>auto simp: h_def crc_half_def bit_simps\<close>)
  have low: "crc_low x = crc_mix h (take_bit 4 x)"
    by (simp add: crc_low_mix h_def)
  have c: "bit (crc_low x) (i + 8) \<longleftrightarrow> (bit h i \<noteq> bit h (i + 5))" if "i < 8" for i
    using that by (auto simp: low crc_mix_def bit_simps h add.commute [of 5])
  have z': "\<not> bit (crc_low x) (i + 8)" for i
  proof -
    have "bit (drop_bit 8 (crc_low x)) i \<longleftrightarrow> bit (crc_low x) (i + 8)"
      by (simp add: bit_simps add.commute)
    then show ?thesis
      using z by simp
  qed
  then have e: "bit h i \<longleftrightarrow> bit h (i + 5)" if "i < 8" for i
    using c that by blast
  have h8: "\<not> bit h i" if "8 \<le> i" for i
    using that by (simp add: h)
  have h3: "\<not> bit h i" if "3 \<le> i" for i
    using e [of i] h8 [of i] h8 [of "i + 5"] that by (cases "i < 8") auto
  then have h0: "\<not> bit h i" for i
    using e [of i] h3 [of i] h3 [of "i + 5"] by (cases "i < 3") auto
  have x3: "\<not> bit x i" if "i < 4" for i
    using h0 [of i] h [of i] that by simp
  have "\<not> bit x i" for i
    using h0 [of i] h [of i] x3 [of i] x3 [of "i - 4"] hi [of i] by (cases "i < 8") (auto split: if_splits)
  then show ?thesis
    by (intro bit_word_eqI) simp
qed


lemma crc_of_two_inj:
  assumes "crc_of s [a, b] = crc_of s [a', b']"
  shows "a = a' \<and> b = b'"
proof -
  let ?n = "(crc_bit ^^ 8) :: u16 \<Rightarrow> u16"
  define x where "x = (ucast (a XOR a') :: u16)"
  have ux: "ucast (u XOR v) = (ucast u XOR ucast v :: u16)" for u v :: byte
    by (rule bit_word_eqI) (auto simp: bit_simps)
  have small2: "8 \<le> i \<Longrightarrow> \<not> bit (ucast u :: u16) i" for u :: byte and i
    using bit_imp_le_length [of u i] by (auto simp: bit_simps)
  have small: "take_bit 8 (ucast u) = (ucast u :: u16)" for u :: byte
  proof (rule bit_word_eqI)
    fix i
    show "bit (take_bit 8 (ucast u) :: u16) i \<longleftrightarrow> bit (ucast u :: u16) i"
      using small2 [of i u] by (cases "i < 8") (auto simp: bit_take_bit_iff)
  qed
  have "?n (?n (s XOR ucast a) XOR ucast b) = ?n (?n (s XOR ucast a') XOR ucast b')"
    using assms by (simp add: calc_crc_byte_ref crc_ref_def)
  then have "?n (s XOR ucast a) XOR ucast b = ?n (s XOR ucast a') XOR ucast b'"
    by (simp only: crc_bits_inj)
  then have "(?n s XOR ?n (ucast a)) XOR ucast b = (?n s XOR ?n (ucast a')) XOR ucast b'"
    by (simp only: crc_bits_xor)
  then have "?n (ucast a) XOR ?n (ucast a') = ucast b XOR ucast b'"
    by (rule xor_cancel)
  then have d: "?n x = ucast (b XOR b')"
    by (simp only: x_def ux crc_bits_xor)
  have "?n x = crc_low x"
    using linear_agree [of "crc_low" ?n 8 x] by (simp add: crc_low_xor crc_bits_xor crc_low_basis [simplified] x_def small)
  then have "crc_low x = ucast (b XOR b')"
    using d by simp
  then have hz: "drop_bit 8 (crc_low x) = 0"
  proof (intro bit_word_eqI)
    fix i
    assume "crc_low x = ucast (b XOR b')"
    then have "\<not> bit (crc_low x) (8 + i)"
      using small2 [of "8 + i" "b XOR b'"] by (simp only: le_add1 not_False_eq_True simp_thms)
    then show "bit (drop_bit 8 (crc_low x)) i \<longleftrightarrow> bit 0 i"
      by (simp add: bit_drop_bit_eq)
  qed
  have "\<not> bit x i" if "8 \<le> i" for i
    unfolding x_def by (rule small2 [OF that])
  then have "x = 0"
    using hz by (rule crc_low_high_byte)
  then have "?n x = 0"
    by simp
  with \<open>x = 0\<close> d have "ucast (a XOR a') = (0 :: u16)" "ucast (b XOR b') = (0 :: u16)"
    by (simp_all add: x_def)
  then show ?thesis
    by (auto simp: bit_eq_iff bit_simps ux xor_zero)
qed

lemma calc_crc_noticed:
  assumes "length (xs @ [a, b] @ ys) = unat n" and "(a, b) \<noteq> (a', b')"
  shows "ifx_i2c_dl_calc_crc (xs @ [a, b] @ ys) n \<noteq> ifx_i2c_dl_calc_crc (xs @ [a', b'] @ ys) n"
  using assms crc_of_seed_inj [of _ ys] crc_of_two_inj [of "crc_of 0 xs" a b a' b']
  by (auto simp: ifx_i2c_dl_calc_crc_def rd_bytes_def)

section \<open>Properties\<close>

text \<open>
  C35: the CRC routine of the code, four table-free shift-and-xor steps per byte, computes over
  any message the CRC with the reflected polynomial \<open>0x8408\<close> that a shift register fed bit by bit
  computes; reading past the object is the only way it fails.
\<close>

theorem calc_crc_is_shift_register:
  "ifx_i2c_dl_calc_crc p_data n = map_option (foldl crc_ref 0) (rd_bytes p_data (unat n))"
proof -
  have "ifx_i2c_dl_calc_crc_byte = crc_ref"
    by (intro ext) (rule calc_crc_byte_ref)
  then show ?thesis
    by (simp add: ifx_i2c_dl_calc_crc_def)
qed

text \<open>
  The CRC notices every error burst within two adjacent bytes, at any place of a message of
  any length the layer can have.
\<close>

theorem calc_crc_detects_burst:
  assumes "length (xs @ [a, b] @ ys) = unat n" and "(a, b) \<noteq> (a', b')"
  shows "ifx_i2c_dl_calc_crc (xs @ [a, b] @ ys) n \<noteq> ifx_i2c_dl_calc_crc (xs @ [a', b'] @ ys) n"
  using assms by (rule calc_crc_noticed)

lemma calc_crc_detects_burst_witness:
  "ifx_i2c_dl_calc_crc ([1] @ [2, 3] @ [4]) 4 \<noteq> ifx_i2c_dl_calc_crc ([1] @ [3, 7] @ [4]) 4"
  by (rule calc_crc_detects_burst) simp_all

end
