(* ===== verification/Ifx_Config.thy ===== *)
theory Ifx_Config
  imports Prelude
begin

text \<open>
  \<open>lib/optiga/include/optiga/ifx_i2c/ifx_i2c_config.h\<close>: the context shared by the layers of the
  IFX I2C stack. The stack is driven by events: the PAL reports the end of a bus transfer and
  timers elapse. What the stack asks of the PAL is recorded in \<open>trace\<close>; a call of the handler
  of the layer above, always the last thing a layer does with an event, is left in \<open>pl_up\<close>,
  \<open>dl_up\<close> or \<open>tl_up\<close> for the composition of the layers to deliver. The clock and the answers of
  the PAL that arrive as return values are fields of \<open>env\<close>. States that the code keeps in a
  \<open>uint8_t\<close> are datatypes with the names of its macros.
\<close>

section \<open>Constants\<close>

definition DL_MAX_FRAME_SIZE :: nat where "DL_MAX_FRAME_SIZE = 300"
definition DL_HEADER_SIZE :: nat where "DL_HEADER_SIZE = 5"
definition DL_TRANS_REPEAT :: byte where "DL_TRANS_REPEAT = 3"
definition PL_TRANS_TIMEOUT_MS :: u32 where "PL_TRANS_TIMEOUT_MS = 10"
definition TL_MAX_EXIT_TIMEOUT :: u32 where "TL_MAX_EXIT_TIMEOUT = 6"
definition PL_POLLING_MAX_CNT :: u16 where "PL_POLLING_MAX_CNT = 200"
definition PL_POLLING_INVERVAL_US :: nat where "PL_POLLING_INVERVAL_US = 1000"
definition PL_DATA_POLLING_INVERVAL_US :: nat where "PL_DATA_POLLING_INVERVAL_US = 5000"
definition PL_GUARD_TIME_INTERVAL_US :: nat where "PL_GUARD_TIME_INTERVAL_US = 50"
definition RESET_LOW_TIME_MSEC :: nat where "RESET_LOW_TIME_MSEC = 2000"
definition STARTUP_TIME_MSEC :: nat where "STARTUP_TIME_MSEC = 12000"
definition IFX_I2C_TL_HEADER_OFFSET :: nat where "IFX_I2C_TL_HEADER_OFFSET = 3"

lemmas ifx_consts = DL_MAX_FRAME_SIZE_def DL_HEADER_SIZE_def DL_TRANS_REPEAT_def
  PL_TRANS_TIMEOUT_MS_def TL_MAX_EXIT_TIMEOUT_def PL_POLLING_MAX_CNT_def IFX_I2C_TL_HEADER_OFFSET_def

datatype stack_status = STACK_SUCCESS | STACK_ERROR | STACK_BUSY | STACK_MEM_ERROR | FATAL_ERROR

section \<open>States\<close>

datatype pl_state = PL_STATE_UNINIT | PL_STATE_INIT | PL_STATE_READY | PL_STATE_DATA_AVAILABLE
  | PL_STATE_RXTX | PL_STATE_SOFT_RESET

datatype pl_negotiation = PL_INIT_SET_DATA_REG_LEN | PL_INIT_GET_DATA_REG_LEN | PL_INIT_GET_FREQ_REG
  | PL_INIT_SET_FREQ_REG | PL_INIT_READ_FREQ | PL_INIT_VERIFY_FREQ | PL_INIT_AGREE_FREQ
  | PL_INIT_VERIFY_DATA_REG | PL_INIT_DONE | PL_INIT_SET_FREQ_DEFAULT

text \<open>\<open>request_soft_reset\<close> is a flag that \<open>ifx_i2c_pl_init\<close> turns into a state.\<close>

datatype pl_soft_reset = SOFT_RESET_FALSE | SOFT_RESET_TRUE | SR_GET_STATUS_REG | PL_RESET_WRITE
  | PL_RESET_STARTUP | PL_RESET_INIT

datatype register_action = PL_ACTION_READ_REGISTER | PL_ACTION_WRITE_REGISTER
datatype i2c_cmd = PL_I2C_CMD_WRITE | PL_I2C_CMD_READ
datatype frame_action = PL_ACTION_WRITE_FRAME | PL_ACTION_READ_FRAME

datatype dl_state = DL_STATE_UNINIT | DL_STATE_IDLE | DL_STATE_TX | DL_STATE_RX | DL_STATE_ACK
  | DL_STATE_RESEND | DL_STATE_NACK | DL_STATE_ERROR | DL_STATE_DISCARD | DL_STATE_RX_DF | DL_STATE_RX_CF

datatype tl_state = TL_STATE_UNINIT | TL_STATE_IDLE | TL_STATE_TX | TL_STATE_RX | TL_STATE_CHAINING
  | TL_STATE_ERROR | TL_STATE_CHAINING_ERROR | TL_STATE_RESEND

datatype ifx_state = IFX_I2C_STATE_NONE | IFX_I2C_STATE_UNINIT | IFX_I2C_STATE_IDLE
datatype ifx_status = IFX_I2C_STATUS_NONE | IFX_I2C_STATUS_BUSY | IFX_I2C_STATUS_NOT_BUSY
datatype ifx_reset_state = IFX_I2C_STATE_RESET_PIN_LOW | IFX_I2C_STATE_RESET_PIN_HIGH | IFX_I2C_STATE_RESET_INIT
datatype ifx_reset_type = IFX_I2C_COLD_RESET | IFX_I2C_SOFT_RESET | IFX_I2C_WARM_RESET

text \<open>The frame a transmission refers to is one of the two buffers of the context.\<close>

datatype frame_ref = TxFrame | RxFrame

section \<open>What the stack asks of the platform\<close>

datatype timer_callback = TimerStatusPoll | TimerPalPoll | TimerGuardTime | TimerNegotiation
  | TimerSoftReset | TimerIfxInit

datatype gpio_pin = VddPin | ResetPin

datatype pal_call = PalInit | PalDeinit | PalSetBitrate u16 | PalWrite "byte list" | PalRead u16
  | RegisterTimer timer_callback nat | GpioLow gpio_pin | GpioHigh gpio_pin | PalDelay nat

text \<open>A call of the handler above: event, data pointer and length.\<close>

type_synonym pl_upcall = "stack_status \<times> byte list option \<times> u16"
type_synonym dl_upcall = "byte \<times> byte list option \<times> u16"
type_synonym tl_upcall = "stack_status \<times> byte list option \<times> u16"

section \<open>The context\<close>

record ifx_i2c_pl =
  pl_buffer :: "byte list"
  pl_buffer_tx_len :: u16
  pl_buffer_rx_len :: u16
  pl_register_action :: register_action
  pl_i2c_cmd :: i2c_cmd
  pl_retry_counter :: u16
  pl_frame_action :: frame_action
  pl_frame_state :: pl_state
  pl_p_tx_frame :: frame_ref
  pl_tx_frame_len :: u16
  pl_negotiate_state :: pl_negotiation
  pl_request_soft_reset :: pl_soft_reset

record ifx_i2c_dl =
  dl_state :: dl_state
  dl_tx_seq_nr :: byte
  dl_rx_seq_nr :: byte
  dl_action_rx_only :: bool
  dl_retransmit_counter :: byte
  dl_error :: bool
  dl_resynced :: bool
  dl_data_poll_timeout :: u32
  dl_tx_buffer_size :: u16
  dl_rx_buffer_size :: u16
  dl_frame_start_time :: u32

record ifx_i2c_tl =
  tl_state :: tl_state
  tl_actual_packet :: "byte list"
  tl_total_recv_length :: u16
  tl_actual_packet_length :: u16
  tl_packet_offset :: u16
  tl_max_packet_length :: u16
  tl_recv_packet_buffer :: "byte list"
  tl_recv_packet_buffer_length :: u16
  tl_api_start_time :: u32
  tl_chaining_error_count :: byte
  tl_master_chaining_error_count :: byte
  tl_previous_chaining :: byte
  tl_transmission_completed :: bool
  tl_error_event :: stack_status

record pal_env =
  env_now :: u32
  env_pal_init_ok :: bool
  env_bitrate_ok :: "u16 \<Rightarrow> bool"

record ifx_i2c_context =
  slave_address :: byte
  frequency :: u16
  frame_size :: u16
  pal_slave_address :: byte
  ifx_upper_handler :: bool
  ifx_state :: ifx_state
  ifx_status :: ifx_status
  ifx_reset_state :: ifx_reset_state
  ifx_reset_type :: ifx_reset_type
  do_pal_init :: bool
  tl :: ifx_i2c_tl
  dl :: ifx_i2c_dl
  pl :: ifx_i2c_pl
  tx_frame_buffer :: "byte list"
  rx_frame_buffer :: "byte list"
  trace :: "pal_call list"
  pl_up :: "pl_upcall option"
  dl_up :: "dl_upcall option"
  tl_up :: "tl_upcall option"
  env :: pal_env

definition pal_call :: "pal_call \<Rightarrow> ifx_i2c_context \<Rightarrow> ifx_i2c_context" where
  "pal_call c ctx = ctx\<lparr>trace := trace ctx @ [c]\<rparr>"

definition frame_of :: "frame_ref \<Rightarrow> ifx_i2c_context \<Rightarrow> byte list" where
  "frame_of r ctx = (case r of TxFrame \<Rightarrow> tx_frame_buffer ctx | RxFrame \<Rightarrow> rx_frame_buffer ctx)"

definition set_frame :: "frame_ref \<Rightarrow> byte list \<Rightarrow> ifx_i2c_context \<Rightarrow> ifx_i2c_context" where
  "set_frame r xs ctx = (case r of TxFrame \<Rightarrow> ctx\<lparr>tx_frame_buffer := xs\<rparr>
     | RxFrame \<Rightarrow> ctx\<lparr>rx_frame_buffer := xs\<rparr>)"

text \<open>
  The instance that \<open>lib/optiga/pal/pal_ifx_i2c_config.cpp\<close> defines. The frequency is a macro of the
  build configuration. Members without an initializer are zero in C; a zero that no macro names
  is the first constructor (or \<open>NONE\<close>) here, and every such member is set before it is read.
\<close>

definition ifx_i2c_context_0 :: "u16 \<Rightarrow> pal_env \<Rightarrow> ifx_i2c_context" where
  "ifx_i2c_context_0 freq e =
    \<lparr>slave_address = 0x30, frequency = freq, frame_size = 0x0115, pal_slave_address = 0x30,
     ifx_upper_handler = False, ifx_state = IFX_I2C_STATE_NONE, ifx_status = IFX_I2C_STATUS_NONE,
     ifx_reset_state = IFX_I2C_STATE_RESET_PIN_LOW, ifx_reset_type = IFX_I2C_COLD_RESET, do_pal_init = False,
     tl = \<lparr>tl_state = TL_STATE_UNINIT, tl_actual_packet = [], tl_total_recv_length = 0,
       tl_actual_packet_length = 0, tl_packet_offset = 0, tl_max_packet_length = 0,
       tl_recv_packet_buffer = [], tl_recv_packet_buffer_length = 0, tl_api_start_time = 0,
       tl_chaining_error_count = 0, tl_master_chaining_error_count = 0, tl_previous_chaining = 0,
       tl_transmission_completed = False, tl_error_event = STACK_SUCCESS\<rparr>,
     dl = \<lparr>dl_state = DL_STATE_UNINIT, dl_tx_seq_nr = 0, dl_rx_seq_nr = 0, dl_action_rx_only = False,
       dl_retransmit_counter = 0, dl_error = False, dl_resynced = False, dl_data_poll_timeout = 0,
       dl_tx_buffer_size = 0, dl_rx_buffer_size = 0, dl_frame_start_time = 0\<rparr>,
     pl = \<lparr>pl_buffer = replicate (DL_MAX_FRAME_SIZE + 1) 0, pl_buffer_tx_len = 0, pl_buffer_rx_len = 0,
       pl_register_action = PL_ACTION_READ_REGISTER, pl_i2c_cmd = PL_I2C_CMD_WRITE, pl_retry_counter = 0,
       pl_frame_action = PL_ACTION_WRITE_FRAME, pl_frame_state = PL_STATE_UNINIT, pl_p_tx_frame = TxFrame,
       pl_tx_frame_len = 0, pl_negotiate_state = PL_INIT_SET_DATA_REG_LEN, pl_request_soft_reset = SOFT_RESET_FALSE\<rparr>,
     tx_frame_buffer = replicate DL_MAX_FRAME_SIZE 0, rx_frame_buffer = replicate DL_MAX_FRAME_SIZE 0,
     trace = [], pl_up = None, dl_up = None, tl_up = None, env = e\<rparr>"

text \<open>A platform whose bus accepts every bit rate, for the examples.\<close>

definition calm_platform :: pal_env where
  "calm_platform = \<lparr>env_now = 0, env_pal_init_ok = True, env_bitrate_ok = (\<lambda>_. True)\<rparr>"

section \<open>The contract of a layer\<close>

text \<open>
  What a layer promises to the one above about an operation: under the invariant and the
  condition on its arguments it returns, keeps the invariant, and leaves alone what belongs to the
  layer above (\<open>keeps\<close>). The physical layer provides it to the data link layer and that one to
  the transport layer.
\<close>

locale layer_op =
  fixes op :: "'c \<Rightarrow> ('s \<times> 'c) option" and pre :: bool
    and inv :: "'c \<Rightarrow> bool" and keeps :: "'c \<Rightarrow> 'c \<Rightarrow> bool"
  assumes runs: "inv c \<Longrightarrow> pre \<Longrightarrow> \<exists>s c'. op c = Some (s, c') \<and> inv c' \<and> keeps c c'"
    and keeps_trans: "keeps a b \<Longrightarrow> keeps b c \<Longrightarrow> keeps a c"
begin

lemma not_stuck: "inv c \<Longrightarrow> pre \<Longrightarrow> op c \<noteq> None"
  using runs by fastforce

lemma kept: "op c = Some (s, c') \<Longrightarrow> inv c \<Longrightarrow> pre \<Longrightarrow> inv c' \<and> keeps c c'"
  using runs by fastforce

text \<open>The rule for a client that calls the operation and goes on with \<open>k\<close>.\<close>

lemma followed_by:
  assumes "inv c" "pre" "keeps c0 c"
    and "\<And>s c'. op c = Some (s, c') \<Longrightarrow> inv c' \<Longrightarrow> keeps c c' \<Longrightarrow> keeps c0 c' \<Longrightarrow> R (k (s, c'))"
  shows "R (Option.bind (op c) k)"
proof -
  obtain s c' where "op c = Some (s, c')" "inv c'" "keeps c c'"
    using runs assms(1,2) by blast
  then show ?thesis
    using assms(3,4) keeps_trans by simp
qed

end

end
