(* ===== verification/Ifx_Physical.thy ===== *)
theory Ifx_Physical
  imports Ifx_Config
begin

text \<open>
  \<open>lib/optiga/comms/ifx_i2c/ifx_i2c_physical_layer.c\<close>: register access over I2C with polling and
  guard time, the negotiation of frequency and frame size, soft reset, and the reading and
  writing of frames. A copy that leaves the layer's buffer is \<open>None\<close>.
\<close>

section \<open>Constants\<close>

definition PL_REG_DATA :: byte where "PL_REG_DATA = 0x80"
definition PL_REG_DATA_REG_LEN :: byte where "PL_REG_DATA_REG_LEN = 0x81"
definition PL_REG_I2C_STATE :: byte where "PL_REG_I2C_STATE = 0x82"
definition PL_REG_BASE_ADDR :: byte where "PL_REG_BASE_ADDR = 0x83"
definition PL_REG_MAX_SCL_FREQU :: byte where "PL_REG_MAX_SCL_FREQU = 0x84"
definition PL_REG_SOFT_RESET :: byte where "PL_REG_SOFT_RESET = 0x88"
definition PL_REG_I2C_MODE :: byte where "PL_REG_I2C_MODE = 0x89"
definition PL_REG_LEN_I2C_STATE :: u16 where "PL_REG_LEN_I2C_STATE = 4"
definition PL_REG_LEN_MAX_SCL_FREQU :: u16 where "PL_REG_LEN_MAX_SCL_FREQU = 4"
definition PL_REG_LEN_I2C_MODE :: u16 where "PL_REG_LEN_I2C_MODE = 2"
definition PL_REG_LEN_DATA_REG_LEN :: u16 where "PL_REG_LEN_DATA_REG_LEN = 2"
definition PL_REG_LEN_SOFT_RESET :: u16 where "PL_REG_LEN_SOFT_RESET = 2"
definition PL_REG_I2C_STATE_RESPONSE_READY :: byte where "PL_REG_I2C_STATE_RESPONSE_READY = 0x40"
definition PL_REG_I2C_STATE_SOFT_RESET :: byte where "PL_REG_I2C_STATE_SOFT_RESET = 0x08"
definition PL_REG_I2C_MODE_PERSISTANT :: byte where "PL_REG_I2C_MODE_PERSISTANT = 0x80"
definition PL_REG_I2C_MODE_SM_FM :: byte where "PL_REG_I2C_MODE_SM_FM = 0x03"
definition PL_REG_I2C_MODE_FM_PLUS :: byte where "PL_REG_I2C_MODE_FM_PLUS = 0x04"
definition PL_SM_FM_MAX_FREQUENCY :: u16 where "PL_SM_FM_MAX_FREQUENCY = 0x190"
definition PL_DEFAULT_FREQUENCY :: u16 where "PL_DEFAULT_FREQUENCY = 0x64"
definition PL_REG_BASE_ADDR_PERSISTANT :: byte where "PL_REG_BASE_ADDR_PERSISTANT = 0x80"
definition PL_REG_BASE_ADDR_VOLATILE :: byte where "PL_REG_BASE_ADDR_VOLATILE = 0"
definition PL_REG_I2C_BASE_ADDRESS_MASK :: byte where "PL_REG_I2C_BASE_ADDRESS_MASK = 0x7F"

datatype pal_event = PAL_I2C_EVENT_SUCCESS | PAL_I2C_EVENT_ERROR | PAL_I2C_EVENT_BUSY

section \<open>Helpers on the layer's part of the context\<close>

definition pl_set :: "(ifx_i2c_pl \<Rightarrow> ifx_i2c_pl) \<Rightarrow> ifx_i2c_context \<Rightarrow> ifx_i2c_context" where
  "pl_set f ctx = ctx\<lparr>pl := f (pl ctx)\<rparr>"

definition set_pl_state :: "pl_state \<Rightarrow> ifx_i2c_context \<Rightarrow> ifx_i2c_context" where
  "set_pl_state s = pl_set (\<lambda>p. p\<lparr>pl_frame_state := s\<rparr>)"

definition set_negotiate_state :: "pl_negotiation \<Rightarrow> ifx_i2c_context \<Rightarrow> ifx_i2c_context" where
  "set_negotiate_state s = pl_set (\<lambda>p. p\<lparr>pl_negotiate_state := s\<rparr>)"

text \<open>\<open>p_ctx->pl.upper_layer_event_handler(p_ctx, event, data, len)\<close>.\<close>

definition pl_upcall :: "stack_status \<Rightarrow> byte list option \<Rightarrow> u16 \<Rightarrow> ifx_i2c_context \<Rightarrow> ifx_i2c_context" where
  "pl_upcall event p_data data_len ctx = ctx\<lparr>pl_up := Some (event, p_data, data_len)\<rparr>"

definition be16_at :: "byte list \<Rightarrow> nat \<Rightarrow> u16 option" where
  "be16_at buf i = do {
     hi \<leftarrow> rd buf i;
     lo \<leftarrow> rd buf (i + 1);
     Some (push_bit 8 (ucast hi) OR ucast lo)
   }"

section \<open>Register access\<close>

definition ifx_i2c_pl_read_register :: "ifx_i2c_context \<Rightarrow> byte \<Rightarrow> u16 \<Rightarrow> ifx_i2c_context option" where
  "ifx_i2c_pl_read_register ctx reg_addr reg_len = do {
     buf \<leftarrow> wr (pl_buffer (pl ctx)) 0 reg_addr;
     let ctx = pl_set (\<lambda>p. p\<lparr>pl_buffer := buf, pl_buffer_tx_len := 1, pl_buffer_rx_len := reg_len,
           pl_register_action := PL_ACTION_READ_REGISTER, pl_retry_counter := PL_POLLING_MAX_CNT,
           pl_i2c_cmd := PL_I2C_CMD_WRITE\<rparr>) ctx;
     Some (pal_call (PalWrite (take 1 buf)) ctx)
   }"

text \<open>\<open>p_content\<close> is the object the content pointer points to.\<close>

definition ifx_i2c_pl_write_register ::
    "ifx_i2c_context \<Rightarrow> byte \<Rightarrow> u16 \<Rightarrow> byte list \<Rightarrow> ifx_i2c_context option" where
  "ifx_i2c_pl_write_register ctx reg_addr reg_len p_content = do {
     buf \<leftarrow> wr (pl_buffer (pl ctx)) 0 reg_addr;
     content \<leftarrow> rd_bytes p_content (unat reg_len);
     buf \<leftarrow> wr_bytes buf 1 content;
     let ctx = pl_set (\<lambda>p. p\<lparr>pl_buffer := buf, pl_buffer_tx_len := 1 + reg_len,
           pl_register_action := PL_ACTION_WRITE_REGISTER, pl_retry_counter := PL_POLLING_MAX_CNT,
           pl_i2c_cmd := PL_I2C_CMD_WRITE\<rparr>) ctx;
     Some (pal_call (PalWrite (take (unat (1 + reg_len)) buf)) ctx)
   }"

definition ifx_i2c_pl_status_poll_callback :: "ifx_i2c_context \<Rightarrow> ifx_i2c_context option" where
  "ifx_i2c_pl_status_poll_callback ctx =
     ifx_i2c_pl_read_register ctx PL_REG_I2C_STATE PL_REG_LEN_I2C_STATE"

section \<open>Negotiation\<close>

text \<open>
  The retry counter is decremented in either case of the test (\<open>retry_counter--\<close>), so it wraps
  around when it is 0.
\<close>

definition ifx_i2c_pl_set_bit_rate :: "ifx_i2c_context \<Rightarrow> u16 \<Rightarrow> stack_status \<times> ifx_i2c_context" where
  "ifx_i2c_pl_set_bit_rate ctx bitrate =
     (let ctx = pal_call (PalSetBitrate bitrate) ctx in
      if env_bitrate_ok (env ctx) bitrate then (STACK_SUCCESS, ctx)
      else
        let n = pl_retry_counter (pl ctx);
            ctx = pl_set (\<lambda>p. p\<lparr>pl_retry_counter := n - 1\<rparr>) ctx
        in if n \<noteq> 0 then (STACK_BUSY, pal_call (RegisterTimer TimerNegotiation PL_POLLING_INVERVAL_US) ctx)
           else (STACK_ERROR, ctx))"

text \<open>
  One round of the loop: the event, the context and \<open>continue_negotiation\<close>. The data pointer and
  length handed up are always null.
\<close>

definition negotiate_set_default :: "ifx_i2c_context \<Rightarrow> stack_status \<times> ifx_i2c_context \<times> bool" where
  "negotiate_set_default ctx =
     (case ifx_i2c_pl_set_bit_rate ctx PL_DEFAULT_FREQUENCY of (event, ctx) \<Rightarrow>
        if event = STACK_SUCCESS then (event, set_negotiate_state PL_INIT_GET_FREQ_REG ctx, True)
        else if event = STACK_ERROR then (event, set_negotiate_state PL_INIT_DONE ctx, False)
        else (event, ctx, False))"

definition negotiate_set_mode :: "ifx_i2c_context \<Rightarrow> (ifx_i2c_context \<times> bool) option" where
  "negotiate_set_mode ctx = do {
     slave_frequency \<leftarrow> be16_at (pl_buffer (pl ctx)) 2;
     if frequency ctx > PL_SM_FM_MAX_FREQUENCY \<and> slave_frequency \<le> PL_SM_FM_MAX_FREQUENCY then do {
       let ctx = set_negotiate_state PL_INIT_READ_FREQ ctx;
       ctx \<leftarrow> ifx_i2c_pl_write_register ctx PL_REG_I2C_MODE PL_REG_LEN_I2C_MODE
         [PL_REG_I2C_MODE_PERSISTANT, PL_REG_I2C_MODE_FM_PLUS];
       Some (ctx, False)
     } else if frequency ctx \<le> PL_SM_FM_MAX_FREQUENCY \<and> slave_frequency > PL_SM_FM_MAX_FREQUENCY then do {
       let ctx = set_negotiate_state PL_INIT_READ_FREQ ctx;
       ctx \<leftarrow> ifx_i2c_pl_write_register ctx PL_REG_I2C_MODE PL_REG_LEN_I2C_MODE
         [PL_REG_I2C_MODE_PERSISTANT, PL_REG_I2C_MODE_SM_FM];
       Some (ctx, False)
     } else Some (set_negotiate_state PL_INIT_VERIFY_FREQ ctx, True)
   }"

definition negotiate_verify_freq :: "ifx_i2c_context \<Rightarrow> (ifx_i2c_context \<times> bool) option" where
  "negotiate_verify_freq ctx = do {
     slave_frequency \<leftarrow> be16_at (pl_buffer (pl ctx)) 2;
     if frequency ctx > slave_frequency then Some (set_negotiate_state PL_INIT_DONE ctx, True)
     else Some (set_negotiate_state PL_INIT_AGREE_FREQ ctx, True)
   }"

definition negotiate_agree :: "ifx_i2c_context \<Rightarrow> stack_status \<times> ifx_i2c_context \<times> bool" where
  "negotiate_agree ctx =
     (case ifx_i2c_pl_set_bit_rate ctx (frequency ctx) of (event, ctx) \<Rightarrow>
        if event = STACK_SUCCESS then (event, set_negotiate_state PL_INIT_SET_DATA_REG_LEN ctx, True)
        else if event = STACK_ERROR then (event, set_negotiate_state PL_INIT_DONE ctx, False)
        else (event, ctx, False))"

definition negotiate_verify_len :: "stack_status \<Rightarrow> ifx_i2c_context \<Rightarrow> (stack_status \<times> ifx_i2c_context) option" where
  "negotiate_verify_len event ctx = do {
     let ctx = set_negotiate_state PL_INIT_DONE ctx;
     slave_frame_len \<leftarrow> be16_at (pl_buffer (pl ctx)) 0;
     if frame_size ctx \<ge> slave_frame_len then Some (STACK_SUCCESS, ctx\<lparr>frame_size := slave_frame_len\<rparr>)
     else Some (event, ctx)
   }"

definition negotiate_done :: "stack_status \<Rightarrow> ifx_i2c_context \<Rightarrow> ifx_i2c_context" where
  "negotiate_done event ctx =
     pl_upcall event None 0
       (if event = STACK_SUCCESS then set_pl_state PL_STATE_READY ctx else set_pl_state PL_STATE_UNINIT ctx)"

definition negotiation_round ::
    "byte list \<Rightarrow> stack_status \<Rightarrow> ifx_i2c_context \<Rightarrow> (stack_status \<times> ifx_i2c_context \<times> bool) option" where
  "negotiation_round max_frame_size event ctx =
     (case pl_negotiate_state (pl ctx) of
        PL_INIT_SET_FREQ_DEFAULT \<Rightarrow> Some (negotiate_set_default ctx)
      | PL_INIT_GET_FREQ_REG \<Rightarrow> do {
          ctx \<leftarrow> ifx_i2c_pl_read_register (set_negotiate_state PL_INIT_SET_FREQ_REG ctx)
            PL_REG_MAX_SCL_FREQU PL_REG_LEN_MAX_SCL_FREQU;
          Some (event, ctx, False) }
      | PL_INIT_SET_FREQ_REG \<Rightarrow> do { (ctx, go) \<leftarrow> negotiate_set_mode ctx; Some (event, ctx, go) }
      | PL_INIT_READ_FREQ \<Rightarrow> do {
          ctx \<leftarrow> ifx_i2c_pl_read_register (set_negotiate_state PL_INIT_VERIFY_FREQ ctx)
            PL_REG_MAX_SCL_FREQU PL_REG_LEN_MAX_SCL_FREQU;
          Some (event, ctx, False) }
      | PL_INIT_VERIFY_FREQ \<Rightarrow> do { (ctx, go) \<leftarrow> negotiate_verify_freq ctx; Some (event, ctx, go) }
      | PL_INIT_AGREE_FREQ \<Rightarrow> Some (negotiate_agree ctx)
      | PL_INIT_SET_DATA_REG_LEN \<Rightarrow> do {
          ctx \<leftarrow> ifx_i2c_pl_write_register (set_negotiate_state PL_INIT_GET_DATA_REG_LEN ctx)
            PL_REG_DATA_REG_LEN 2 max_frame_size;
          Some (event, ctx, False) }
      | PL_INIT_GET_DATA_REG_LEN \<Rightarrow> do {
          ctx \<leftarrow> ifx_i2c_pl_read_register (set_negotiate_state PL_INIT_VERIFY_DATA_REG ctx)
            PL_REG_DATA_REG_LEN PL_REG_LEN_DATA_REG_LEN;
          Some (event, ctx, False) }
      | PL_INIT_VERIFY_DATA_REG \<Rightarrow> do { (event, ctx) \<leftarrow> negotiate_verify_len event ctx; Some (event, ctx, True) }
      | PL_INIT_DONE \<Rightarrow> Some (event, negotiate_done event ctx, False))"

text \<open>Every round that continues moves on to a state closer to the end.\<close>

fun negotiation_rank :: "pl_negotiation \<Rightarrow> nat" where
  "negotiation_rank PL_INIT_SET_FREQ_DEFAULT = 9"
| "negotiation_rank PL_INIT_GET_FREQ_REG = 8"
| "negotiation_rank PL_INIT_SET_FREQ_REG = 7"
| "negotiation_rank PL_INIT_READ_FREQ = 6"
| "negotiation_rank PL_INIT_VERIFY_FREQ = 5"
| "negotiation_rank PL_INIT_AGREE_FREQ = 4"
| "negotiation_rank PL_INIT_SET_DATA_REG_LEN = 3"
| "negotiation_rank PL_INIT_GET_DATA_REG_LEN = 2"
| "negotiation_rank PL_INIT_VERIFY_DATA_REG = 1"
| "negotiation_rank PL_INIT_DONE = 0"

lemma pl_set_simps [simp]:
  "pl (pl_set f ctx) = f (pl ctx)" "pl (set_pl_state s ctx) = (pl ctx)\<lparr>pl_frame_state := s\<rparr>"
  "pl (set_negotiate_state n ctx) = (pl ctx)\<lparr>pl_negotiate_state := n\<rparr>"
  "pl (pal_call c ctx) = pl ctx" "pl (pl_upcall e d l ctx) = pl ctx"
  by (simp_all add: pl_set_def set_pl_state_def set_negotiate_state_def pal_call_def pl_upcall_def)

lemma negotiation_round_rank:
  "negotiation_round mfs event ctx = Some (event', ctx', True) \<Longrightarrow>
   negotiation_rank (pl_negotiate_state (pl ctx')) < negotiation_rank (pl_negotiate_state (pl ctx))"
  by (auto simp: negotiation_round_def negotiate_set_default_def negotiate_set_mode_def negotiate_verify_freq_def
      negotiate_agree_def negotiate_verify_len_def Let_def bind_eq_Some_conv split: pl_negotiation.splits if_splits prod.splits)

function negotiation_loop ::
    "byte list \<Rightarrow> stack_status \<Rightarrow> ifx_i2c_context \<Rightarrow> ifx_i2c_context option" where
  "negotiation_loop max_frame_size event ctx = do {
     (event', ctx', go) \<leftarrow> negotiation_round max_frame_size event ctx;
     if go then negotiation_loop max_frame_size event' ctx' else Some ctx'
   }"
  by pat_completeness auto
termination
  by (relation "measure (\<lambda>(mfs, event, ctx). negotiation_rank (pl_negotiate_state (pl ctx)))")
    (auto dest: negotiation_round_rank)

declare negotiation_loop.simps [simp del]

definition ifx_i2c_pl_negotiation_event_handler :: "ifx_i2c_context \<Rightarrow> ifx_i2c_context option" where
  "ifx_i2c_pl_negotiation_event_handler ctx =
     negotiation_loop [ucast (drop_bit 8 (frame_size ctx)), ucast (frame_size ctx)] STACK_ERROR ctx"

section \<open>Frames\<close>

text \<open>The branch of \<open>ifx_i2c_pl_frame_event_handler\<close> for a failed transfer.\<close>

definition pl_frame_failed :: "ifx_i2c_context \<Rightarrow> stack_status \<Rightarrow> ifx_i2c_context" where
  "pl_frame_failed ctx event = pl_upcall event None 0 (set_pl_state PL_STATE_READY ctx)"

text \<open>
  The two calls that \<open>ifx_i2c_pl_soft_reset\<close> makes of the frame handler always take the failure
  branch and the negotiation branch of it.
\<close>

definition ifx_i2c_pl_soft_reset :: "ifx_i2c_context \<Rightarrow> ifx_i2c_context option" where
  "ifx_i2c_pl_soft_reset ctx =
     (case pl_request_soft_reset (pl ctx) of
        SR_GET_STATUS_REG \<Rightarrow>
          ifx_i2c_pl_read_register (pl_set (\<lambda>p. p\<lparr>pl_request_soft_reset := PL_RESET_WRITE\<rparr>) ctx)
            PL_REG_I2C_STATE PL_REG_LEN_I2C_STATE
      | PL_RESET_WRITE \<Rightarrow> do {
          b \<leftarrow> rd (pl_buffer (pl ctx)) 0;
          buf \<leftarrow> wr (pl_buffer (pl ctx)) 0 (b AND PL_REG_I2C_STATE_SOFT_RESET);
          let ctx = pl_set (\<lambda>p. p\<lparr>pl_buffer := buf\<rparr>) ctx;
          if b AND PL_REG_I2C_STATE_SOFT_RESET = PL_REG_I2C_STATE_SOFT_RESET then
            ifx_i2c_pl_write_register (pl_set (\<lambda>p. p\<lparr>pl_request_soft_reset := PL_RESET_STARTUP\<rparr>) ctx)
              PL_REG_SOFT_RESET PL_REG_LEN_SOFT_RESET [0, 0]
          else Some (pl_frame_failed (set_pl_state PL_STATE_UNINIT ctx) STACK_ERROR)
        }
      | PL_RESET_STARTUP \<Rightarrow>
          Some (pal_call (RegisterTimer TimerSoftReset STARTUP_TIME_MSEC)
            (pl_set (\<lambda>p. p\<lparr>pl_request_soft_reset := PL_RESET_INIT\<rparr>) ctx))
      | PL_RESET_INIT \<Rightarrow> ifx_i2c_pl_negotiation_event_handler (set_pl_state PL_STATE_INIT ctx)
      | _ \<Rightarrow> Some ctx)"

text \<open>Poll the status register again later, or give up when the time of the data link layer is over.\<close>

definition pl_poll_again :: "ifx_i2c_context \<Rightarrow> ifx_i2c_context" where
  "pl_poll_again ctx =
     (if env_now (env ctx) - dl_frame_start_time (dl ctx) < dl_data_poll_timeout (dl ctx)
      then pal_call (RegisterTimer TimerStatusPoll PL_DATA_POLLING_INVERVAL_US) ctx
      else pl_upcall STACK_ERROR None 0 (set_pl_state PL_STATE_READY ctx))"

definition pl_data_available :: "ifx_i2c_context \<Rightarrow> ifx_i2c_context option" where
  "pl_data_available ctx = do {
     st \<leftarrow> rd (pl_buffer (pl ctx)) 0;
     if pl_frame_action (pl ctx) = PL_ACTION_READ_FRAME \<and> st AND PL_REG_I2C_STATE_RESPONSE_READY \<noteq> 0 then do {
       size \<leftarrow> be16_at (pl_buffer (pl ctx)) 2;
       if size > 0 \<and> size \<le> frame_size ctx then
         ifx_i2c_pl_read_register (set_pl_state PL_STATE_RXTX ctx) PL_REG_DATA size
       else Some (pl_poll_again ctx)
     } else if pl_frame_action (pl ctx) = PL_ACTION_WRITE_FRAME then
       ifx_i2c_pl_write_register (set_pl_state PL_STATE_RXTX ctx) PL_REG_DATA (pl_tx_frame_len (pl ctx))
         (frame_of (pl_p_tx_frame (pl ctx)) ctx)
     else Some (pl_poll_again ctx)
   }"

definition ifx_i2c_pl_frame_event_handler :: "ifx_i2c_context \<Rightarrow> stack_status \<Rightarrow> ifx_i2c_context option" where
  "ifx_i2c_pl_frame_event_handler ctx event =
     (if event \<noteq> STACK_SUCCESS then Some (pl_frame_failed ctx event)
      else case pl_frame_state (pl ctx) of
        PL_STATE_SOFT_RESET \<Rightarrow> ifx_i2c_pl_soft_reset ctx
      | PL_STATE_INIT \<Rightarrow> ifx_i2c_pl_negotiation_event_handler ctx
      | PL_STATE_READY \<Rightarrow>
          ifx_i2c_pl_read_register (set_pl_state PL_STATE_DATA_AVAILABLE ctx) PL_REG_I2C_STATE PL_REG_LEN_I2C_STATE
      | PL_STATE_DATA_AVAILABLE \<Rightarrow> pl_data_available ctx
      | PL_STATE_RXTX \<Rightarrow>
          (let ctx = set_pl_state PL_STATE_READY ctx in
           Some (pl_upcall STACK_SUCCESS (Some (pl_buffer (pl ctx))) (pl_buffer_rx_len (pl ctx)) ctx))
      | PL_STATE_UNINIT \<Rightarrow> Some ctx)"

section \<open>Events of the PAL\<close>

definition ifx_i2c_pal_poll_callback :: "ifx_i2c_context \<Rightarrow> ifx_i2c_context option" where
  "ifx_i2c_pal_poll_callback ctx =
     (case pl_i2c_cmd (pl ctx) of
        PL_I2C_CMD_WRITE \<Rightarrow> do {
          xs \<leftarrow> rd_bytes (pl_buffer (pl ctx)) (unat (pl_buffer_tx_len (pl ctx)));
          Some (pal_call (PalWrite xs) ctx)
        }
      | PL_I2C_CMD_READ \<Rightarrow> Some (pal_call (PalRead (pl_buffer_rx_len (pl ctx))) ctx))"

definition ifx_i2c_pl_guard_time_callback :: "ifx_i2c_context \<Rightarrow> ifx_i2c_context option" where
  "ifx_i2c_pl_guard_time_callback ctx =
     (case pl_register_action (pl ctx) of
        PL_ACTION_READ_REGISTER \<Rightarrow>
          (case pl_i2c_cmd (pl ctx) of
             PL_I2C_CMD_WRITE \<Rightarrow>
               (let ctx = pl_set (\<lambda>p. p\<lparr>pl_i2c_cmd := PL_I2C_CMD_READ\<rparr>) ctx in
                Some (pal_call (PalRead (pl_buffer_rx_len (pl ctx))) ctx))
           | PL_I2C_CMD_READ \<Rightarrow> ifx_i2c_pl_frame_event_handler ctx STACK_SUCCESS)
      | PL_ACTION_WRITE_REGISTER \<Rightarrow> ifx_i2c_pl_frame_event_handler ctx STACK_SUCCESS)"

definition ifx_i2c_pl_pal_event_handler :: "ifx_i2c_context \<Rightarrow> pal_event \<Rightarrow> ifx_i2c_context option" where
  "ifx_i2c_pl_pal_event_handler ctx event =
     (if event = PAL_I2C_EVENT_SUCCESS then
        Some (pal_call (RegisterTimer TimerGuardTime PL_GUARD_TIME_INTERVAL_US) ctx)
      else
        let n = pl_retry_counter (pl ctx);
            ctx = pl_set (\<lambda>p. p\<lparr>pl_retry_counter := n - 1\<rparr>) ctx
        in if n \<noteq> 0 then Some (pal_call (RegisterTimer TimerPalPoll PL_POLLING_INVERVAL_US) ctx)
           else ifx_i2c_pl_frame_event_handler ctx FATAL_ERROR)"

text \<open>
  A finished bus read has stored its bytes in the layer's buffer before the event arrives.
\<close>

definition pal_read_done :: "byte list \<Rightarrow> ifx_i2c_context \<Rightarrow> ifx_i2c_context option" where
  "pal_read_done bs ctx = do {
     buf \<leftarrow> wr_bytes (pl_buffer (pl ctx)) 0 bs;
     Some (pl_set (\<lambda>p. p\<lparr>pl_buffer := buf\<rparr>) ctx)
   }"

section \<open>Interface of the layer\<close>

definition ifx_i2c_pl_init :: "ifx_i2c_context \<Rightarrow> (stack_status \<times> ifx_i2c_context) option" where
  "ifx_i2c_pl_init ctx =
     (let ctx = pl_set (\<lambda>p. p\<lparr>pl_frame_state := PL_STATE_UNINIT,
            pl_negotiate_state := PL_INIT_SET_FREQ_DEFAULT, pl_retry_counter := PL_POLLING_MAX_CNT\<rparr>) ctx;
          ctx = ctx\<lparr>pal_slave_address := slave_address ctx\<rparr>;
          ctx = (if do_pal_init ctx then pal_call PalInit ctx else ctx)
      in if do_pal_init ctx \<and> \<not> env_pal_init_ok (env ctx) then Some (STACK_ERROR, ctx)
         else do {
           let ctx = (if pl_request_soft_reset (pl ctx) = SOFT_RESET_TRUE
             then pl_set (\<lambda>p. p\<lparr>pl_request_soft_reset := SR_GET_STATUS_REG, pl_frame_state := PL_STATE_SOFT_RESET\<rparr>) ctx
             else set_pl_state PL_STATE_INIT ctx);
           ctx \<leftarrow> ifx_i2c_pl_frame_event_handler ctx STACK_SUCCESS;
           Some (STACK_SUCCESS, ctx)
         })"

definition ifx_i2c_pl_send_frame ::
    "ifx_i2c_context \<Rightarrow> frame_ref \<Rightarrow> u16 \<Rightarrow> (stack_status \<times> ifx_i2c_context) option" where
  "ifx_i2c_pl_send_frame ctx p_frame frame_len =
     (if pl_frame_state (pl ctx) \<noteq> PL_STATE_INIT \<and> pl_frame_state (pl ctx) \<noteq> PL_STATE_READY
      then Some (STACK_ERROR, ctx)
      else do {
        let ctx = pl_set (\<lambda>p. p\<lparr>pl_frame_action := PL_ACTION_WRITE_FRAME, pl_p_tx_frame := p_frame,
              pl_tx_frame_len := frame_len\<rparr>) ctx;
        ctx \<leftarrow> ifx_i2c_pl_frame_event_handler ctx STACK_SUCCESS;
        Some (STACK_SUCCESS, ctx)
      })"

definition ifx_i2c_pl_receive_frame :: "ifx_i2c_context \<Rightarrow> (stack_status \<times> ifx_i2c_context) option" where
  "ifx_i2c_pl_receive_frame ctx =
     (if pl_frame_state (pl ctx) \<noteq> PL_STATE_INIT \<and> pl_frame_state (pl ctx) \<noteq> PL_STATE_READY
      then Some (STACK_ERROR, ctx)
      else do {
        let ctx = pl_set (\<lambda>p. p\<lparr>pl_frame_action := PL_ACTION_READ_FRAME\<rparr>) ctx;
        ctx \<leftarrow> ifx_i2c_pl_frame_event_handler ctx STACK_SUCCESS;
        Some (STACK_SUCCESS, ctx)
      })"

text \<open>
  \<open>ifx_i2c_pl_write_slave_address\<close> spins until the event of each of its writes; \<open>events\<close> are
  these events in order (\<open>None\<close>: one never comes). The loop ends because the counter does.
\<close>

fun slave_address_loop ::
    "pal_event list \<Rightarrow> ifx_i2c_context \<Rightarrow> pal_event option \<Rightarrow> nat \<Rightarrow> (pal_event option \<times> ifx_i2c_context) option" where
  "slave_address_loop events ctx last_event 0 = Some (last_event, ctx)"
| "slave_address_loop [] ctx last_event (Suc n) = None"
| "slave_address_loop (e # events) ctx last_event (Suc n) =
     (case rd_bytes (pl_buffer (pl ctx)) (unat (pl_buffer_tx_len (pl ctx))) of
        None \<Rightarrow> None
      | Some xs \<Rightarrow>
          let ctx = pal_call (PalWrite xs) ctx in
          if e = PAL_I2C_EVENT_SUCCESS then Some (Some e, ctx)
          else
            let ctx = pl_set (\<lambda>p. p\<lparr>pl_retry_counter := pl_retry_counter p - 1\<rparr>) ctx;
                ctx = pal_call (PalDelay PL_POLLING_INVERVAL_US) ctx
            in slave_address_loop events ctx (Some e) n)"

definition ifx_i2c_pl_write_slave_address ::
    "ifx_i2c_context \<Rightarrow> pal_event list \<Rightarrow> byte \<Rightarrow> byte \<Rightarrow> (stack_status \<times> ifx_i2c_context) option" where
  "ifx_i2c_pl_write_slave_address ctx events addr persistent = do {
     buf \<leftarrow> wr (pl_buffer (pl ctx)) 0 PL_REG_BASE_ADDR;
     buf \<leftarrow> wr buf 1 (if persistent \<noteq> PL_REG_BASE_ADDR_VOLATILE then PL_REG_BASE_ADDR_PERSISTANT
       else PL_REG_BASE_ADDR_VOLATILE);
     buf \<leftarrow> wr buf 2 (addr AND PL_REG_I2C_BASE_ADDRESS_MASK);
     let ctx = pl_set (\<lambda>p. p\<lparr>pl_buffer := buf, pl_buffer_tx_len := 3, pl_retry_counter := PL_POLLING_MAX_CNT\<rparr>) ctx;
     (e, ctx) \<leftarrow> slave_address_loop events ctx None (unat PL_POLLING_MAX_CNT);
     a \<leftarrow> rd (pl_buffer (pl ctx)) 2;
     if e = Some PAL_I2C_EVENT_SUCCESS then
       let ctx = ctx\<lparr>pal_slave_address := a\<rparr>;
           ctx = (if persistent \<noteq> PL_REG_BASE_ADDR_VOLATILE then ctx\<lparr>slave_address := a\<rparr> else ctx)
       in Some (STACK_SUCCESS, ctx)
     else Some (STACK_ERROR, ctx)
   }"

section \<open>What the layer keeps\<close>

text \<open>
  The sizes that keep the layer inside its buffers (also those of an event that waits for the
  layer above), and the part of the context that belongs to
  the layers above: no operation of the layer changes it, except that the negotiation may lower
  the frame size.
\<close>

definition pl_event_ok :: "byte list option \<Rightarrow> u16 \<Rightarrow> bool" where
  "pl_event_ok p_data data_len \<longleftrightarrow>
     (case p_data of None \<Rightarrow> data_len = 0
      | Some xs \<Rightarrow> unat data_len \<le> DL_MAX_FRAME_SIZE \<and> unat data_len \<le> length xs)"

definition pl_up_ok :: "pl_upcall option \<Rightarrow> bool" where
  "pl_up_ok u \<longleftrightarrow> (case u of None \<Rightarrow> True | Some (event, p_data, data_len) \<Rightarrow> pl_event_ok p_data data_len)"

lemma pl_event_ok_None [simp]: "pl_event_ok None 0"
  by (simp add: pl_event_ok_def)

definition pl_ok :: "ifx_i2c_context \<Rightarrow> bool" where
  "pl_ok ctx \<longleftrightarrow>
     length (pl_buffer (pl ctx)) = DL_MAX_FRAME_SIZE + 1 \<and>
     length (tx_frame_buffer ctx) = DL_MAX_FRAME_SIZE \<and> length (rx_frame_buffer ctx) = DL_MAX_FRAME_SIZE \<and>
     unat (pl_tx_frame_len (pl ctx)) \<le> DL_MAX_FRAME_SIZE \<and>
     unat (pl_buffer_rx_len (pl ctx)) \<le> DL_MAX_FRAME_SIZE \<and>
     unat (pl_buffer_tx_len (pl ctx)) \<le> DL_MAX_FRAME_SIZE + 1 \<and>
     unat (frame_size ctx) \<le> DL_MAX_FRAME_SIZE \<and> pl_up_ok (pl_up ctx)"

definition same_above :: "ifx_i2c_context \<Rightarrow> ifx_i2c_context \<Rightarrow> bool" where
  "same_above ctx ctx' \<longleftrightarrow>
     dl ctx' = dl ctx \<and> tl ctx' = tl ctx \<and> env ctx' = env ctx \<and>
     tx_frame_buffer ctx' = tx_frame_buffer ctx \<and> rx_frame_buffer ctx' = rx_frame_buffer ctx \<and>
     dl_up ctx' = dl_up ctx \<and> tl_up ctx' = tl_up ctx \<and>
     ifx_upper_handler ctx' = ifx_upper_handler ctx \<and> ifx_state ctx' = ifx_state ctx \<and>
     ifx_status ctx' = ifx_status ctx \<and> frame_size ctx' \<le> frame_size ctx"

definition pl_goes :: "ifx_i2c_context \<Rightarrow> ifx_i2c_context option \<Rightarrow> bool" where
  "pl_goes ctx r \<longleftrightarrow> (\<exists>ctx'. r = Some ctx' \<and> pl_ok ctx' \<and> same_above ctx ctx')"

lemma same_above_refl [simp]: "same_above ctx ctx"
  by (simp add: same_above_def)

lemma same_above_trans: "same_above a b \<Longrightarrow> same_above b c \<Longrightarrow> same_above a c"
  by (auto simp: same_above_def intro: order_trans)

lemma pl_goes_trans: "pl_goes a r \<Longrightarrow> same_above c a \<Longrightarrow> pl_goes c r"
  by (auto simp: pl_goes_def intro: same_above_trans)

lemma pl_goes_Some [simp]: "pl_goes ctx (Some ctx') \<longleftrightarrow> pl_ok ctx' \<and> same_above ctx ctx'"
  by (simp add: pl_goes_def)

lemma same_above_ops [simp]:
  "same_above c (set_pl_state s ctx) \<longleftrightarrow> same_above c ctx"
  "same_above c (set_negotiate_state n ctx) \<longleftrightarrow> same_above c ctx"
  "same_above c (pal_call x ctx) \<longleftrightarrow> same_above c ctx"
  "same_above c (pl_set f ctx) \<longleftrightarrow> same_above c ctx"
  "same_above c (pl_upcall e d l ctx) \<longleftrightarrow> same_above c ctx"
  by (simp_all add: same_above_def set_pl_state_def set_negotiate_state_def pal_call_def pl_set_def pl_upcall_def)

lemma pl_ok_ops [simp]:
  "pl_ok (set_pl_state s ctx) \<longleftrightarrow> pl_ok ctx"
  "pl_ok (set_negotiate_state n ctx) \<longleftrightarrow> pl_ok ctx"
  "pl_ok (pal_call x ctx) \<longleftrightarrow> pl_ok ctx"
  "pl_ok ctx \<Longrightarrow> pl_event_ok d l \<Longrightarrow> pl_ok (pl_upcall e d l ctx)"
  by (simp_all add: pl_ok_def set_pl_state_def set_negotiate_state_def pal_call_def pl_set_def pl_upcall_def pl_up_ok_def)

lemma pl_ok_set:
  "pl_ok ctx \<Longrightarrow> length (pl_buffer (f (pl ctx))) = length (pl_buffer (pl ctx)) \<Longrightarrow>
   unat (pl_tx_frame_len (f (pl ctx))) \<le> DL_MAX_FRAME_SIZE \<Longrightarrow>
   unat (pl_buffer_rx_len (f (pl ctx))) \<le> DL_MAX_FRAME_SIZE \<Longrightarrow>
   unat (pl_buffer_tx_len (f (pl ctx))) \<le> 301 \<Longrightarrow> pl_ok (pl_set f ctx)"
  by (simp add: pl_ok_def pl_set_def DL_MAX_FRAME_SIZE_def)

lemma wr_total [simp]: "p < length buf \<Longrightarrow> wr buf p c = Some (buf[p := c])"
  by (simp add: wr_def)

lemma pl_ok_lengths:
  assumes "pl_ok ctx"
  shows "length (pl_buffer (pl ctx)) = 301" "unat (pl_tx_frame_len (pl ctx)) \<le> DL_MAX_FRAME_SIZE"
    "unat (pl_buffer_rx_len (pl ctx)) \<le> DL_MAX_FRAME_SIZE" "unat (frame_size ctx) \<le> DL_MAX_FRAME_SIZE"
    "length (frame_of r ctx) = 300" "unat (pl_buffer_tx_len (pl ctx)) \<le> 301"
  using assms by (auto simp: pl_ok_def frame_of_def DL_MAX_FRAME_SIZE_def split: frame_ref.split)

lemma read_register_goes:
  assumes "pl_ok ctx" "unat n \<le> DL_MAX_FRAME_SIZE" "same_above c ctx"
  shows "pl_goes c (ifx_i2c_pl_read_register ctx a n)"
  using assms pl_ok_lengths(1,2) [OF assms(1)]
  by (auto simp: ifx_i2c_pl_read_register_def intro!: pl_ok_set)

lemma write_register_goes:
  assumes "pl_ok ctx" "unat n \<le> length xs" "unat n \<le> DL_MAX_FRAME_SIZE" "same_above c ctx"
  shows "pl_goes c (ifx_i2c_pl_write_register ctx a n xs)"
proof -
  have "length ((pl_buffer (pl ctx))[0 := a]) = 301"
    using pl_ok_lengths(1) [OF assms(1)] by simp
  moreover have "length (take (unat n) xs) = unat n" "unat (1 + n) \<le> 301"
    using assms(2,3) by (simp_all add: DL_MAX_FRAME_SIZE_def unat_word_ariths)
  ultimately show ?thesis
    using assms pl_ok_lengths(1-3) [OF assms(1)]
    by (auto simp: ifx_i2c_pl_write_register_def rd_bytes_def wr_bytes_def DL_MAX_FRAME_SIZE_def
        intro!: pl_ok_set)
qed

lemma be16_at_total: "i + 1 < length buf \<Longrightarrow> \<exists>v. be16_at buf i = Some v"
  by (simp add: be16_at_def rd_def)

lemma set_bit_rate_goes:
  assumes "ifx_i2c_pl_set_bit_rate ctx r = (ev, ctx')" "pl_ok ctx" "same_above c ctx"
  shows "pl_ok ctx' \<and> same_above c ctx'"
  using assms by (auto simp: ifx_i2c_pl_set_bit_rate_def Let_def pl_ok_lengths split: if_splits intro!: pl_ok_set)

lemma frame_size_goes:
  assumes "l \<le> frame_size ctx" "pl_ok ctx" "same_above c ctx"
  shows "pl_ok (ctx\<lparr>frame_size := l\<rparr>)" "same_above c (ctx\<lparr>frame_size := l\<rparr>)"
  using assms by (auto simp: pl_ok_def same_above_def word_le_nat_alt)

lemma frame_size_set_negotiate_state [simp]: "frame_size (set_negotiate_state s ctx) = frame_size ctx"
  by (simp add: set_negotiate_state_def pl_set_def)

lemma negotiation_round_goes:
  assumes ok: "pl_ok ctx" and "length mfs = 2" "same_above c ctx"
  shows "\<exists>ev ctx' go. negotiation_round mfs event ctx = Some (ev, ctx', go) \<and> pl_ok ctx' \<and> same_above c ctx'"
proof -
  have len: "length (pl_buffer (pl ctx)) = 301"
    by (rule pl_ok_lengths(1) [OF ok])
  obtain f where f: "be16_at (pl_buffer (pl ctx)) 2 = Some f"
    using be16_at_total [of 2 "pl_buffer (pl ctx)"] len by auto
  obtain l where l: "be16_at (pl_buffer (pl ctx)) 0 = Some l"
    using be16_at_total [of 0 "pl_buffer (pl ctx)"] len by auto
  have rr: "\<exists>ctx'. ifx_i2c_pl_read_register (set_negotiate_state s ctx) a n = Some ctx' \<and> pl_ok ctx' \<and> same_above c ctx'"
    if "n = 4 \<or> n = 2" for s a n
    using read_register_goes [of "set_negotiate_state s ctx" n c a] assms that by (auto simp: pl_goes_def DL_MAX_FRAME_SIZE_def)
  have ww: "\<exists>ctx'. ifx_i2c_pl_write_register (set_negotiate_state s ctx) a 2 [x, y] = Some ctx' \<and> pl_ok ctx' \<and> same_above c ctx'" for s a x y
    using write_register_goes [of "set_negotiate_state s ctx" 2 "[x, y]" c a] assms by (auto simp: pl_goes_def DL_MAX_FRAME_SIZE_def)
  have wm: "\<exists>ctx'. ifx_i2c_pl_write_register (set_negotiate_state s ctx) a 2 mfs = Some ctx' \<and> pl_ok ctx' \<and> same_above c ctx'" for s a
    using write_register_goes [of "set_negotiate_state s ctx" 2 mfs c a] assms by (auto simp: pl_goes_def DL_MAX_FRAME_SIZE_def)
  have [simp]: "Ex Not" "\<exists>b. b"
    by blast+
  note lens = PL_REG_LEN_MAX_SCL_FREQU_def PL_REG_LEN_I2C_MODE_def PL_REG_LEN_DATA_REG_LEN_def
  show ?thesis
  proof (cases "pl_negotiate_state (pl ctx)")
    case PL_INIT_SET_FREQ_REG
    obtain c1 where c1: "ifx_i2c_pl_write_register (set_negotiate_state PL_INIT_READ_FREQ ctx) PL_REG_I2C_MODE 2
        [PL_REG_I2C_MODE_PERSISTANT, PL_REG_I2C_MODE_FM_PLUS] = Some c1" "pl_ok c1 \<and> same_above c c1"
      using ww by blast
    obtain c2 where c2: "ifx_i2c_pl_write_register (set_negotiate_state PL_INIT_READ_FREQ ctx) PL_REG_I2C_MODE 2
        [PL_REG_I2C_MODE_PERSISTANT, PL_REG_I2C_MODE_SM_FM] = Some c2" "pl_ok c2 \<and> same_above c c2"
      using ww by blast
    show ?thesis
      using assms f c1 c2 PL_INIT_SET_FREQ_REG
      by (auto simp: negotiation_round_def negotiate_set_mode_def lens)
  next
    case PL_INIT_VERIFY_DATA_REG
    then show ?thesis
      using assms l frame_size_goes [of l "set_negotiate_state PL_INIT_DONE ctx" c]
      by (auto simp: negotiation_round_def negotiate_verify_len_def Let_def)
  next
    case PL_INIT_VERIFY_FREQ
    then show ?thesis
      using assms f by (auto simp: negotiation_round_def negotiate_verify_freq_def)
  next
    case PL_INIT_SET_FREQ_DEFAULT
    then show ?thesis
      using assms set_bit_rate_goes [of ctx _ _ _ c]
      by (auto simp: negotiation_round_def negotiate_set_default_def split: prod.split)
  next
    case PL_INIT_AGREE_FREQ
    then show ?thesis
      using assms set_bit_rate_goes [of ctx _ _ _ c]
      by (auto simp: negotiation_round_def negotiate_agree_def split: prod.split)
  qed (use assms rr ww wm in \<open>auto simp: negotiation_round_def lens negotiate_done_def\<close>)
qed

lemma negotiation_loop_goes:
  "pl_ok ctx \<Longrightarrow> length mfs = 2 \<Longrightarrow> same_above c ctx \<Longrightarrow> pl_goes c (negotiation_loop mfs event ctx)"
proof (induction mfs event ctx rule: negotiation_loop.induct)
  case (1 mfs event ctx)
  obtain ev ctx' go where r: "negotiation_round mfs event ctx = Some (ev, ctx', go)" "pl_ok ctx'" "same_above c ctx'"
    using negotiation_round_goes [OF 1(2-4)] by blast
  show ?case
    using r 1 by (subst negotiation_loop.simps) (auto)
qed

lemma negotiation_goes:
  "pl_ok ctx \<Longrightarrow> same_above c ctx \<Longrightarrow> pl_goes c (ifx_i2c_pl_negotiation_event_handler ctx)"
  by (simp add: ifx_i2c_pl_negotiation_event_handler_def negotiation_loop_goes)


lemma soft_reset_goes:
  assumes ok: "pl_ok ctx" and ab: "same_above c ctx"
  shows "pl_goes c (ifx_i2c_pl_soft_reset ctx)"
proof -
  have len: "length (pl_buffer (pl ctx)) = 301"
    by (rule pl_ok_lengths(1) [OF ok])
  have set: "pl_ok (pl_set (\<lambda>p. p\<lparr>pl_request_soft_reset := s\<rparr>) ctx')" if "pl_ok ctx'" for s ctx'
    using that by (auto intro!: pl_ok_set simp: pl_ok_lengths)
  have buf: "pl_ok (pl_set (\<lambda>p. p\<lparr>pl_buffer := (pl_buffer (pl ctx))[0 := b]\<rparr>) ctx)" for b
    using ok by (auto intro!: pl_ok_set simp: pl_ok_lengths)
  have wr: "pl_goes c (ifx_i2c_pl_write_register (pl_set (\<lambda>p. p\<lparr>pl_request_soft_reset := s\<rparr>)
      (pl_set (\<lambda>p. p\<lparr>pl_buffer := (pl_buffer (pl ctx))[0 := b]\<rparr>) ctx)) PL_REG_SOFT_RESET PL_REG_LEN_SOFT_RESET [0, 0])" for s b
    using set [OF buf [of b]] ab by (intro write_register_goes) (auto simp: PL_REG_LEN_SOFT_RESET_def DL_MAX_FRAME_SIZE_def)
  show ?thesis
    using assms len set buf wr
    by (auto simp: ifx_i2c_pl_soft_reset_def rd_def Let_def pl_frame_failed_def PL_REG_LEN_I2C_STATE_def DL_MAX_FRAME_SIZE_def
        split: pl_soft_reset.split intro!: read_register_goes negotiation_goes)
qed

lemma pl_poll_again_goes: "pl_ok ctx \<Longrightarrow> same_above c ctx \<Longrightarrow> pl_ok (pl_poll_again ctx) \<and> same_above c (pl_poll_again ctx)"
  by (simp add: pl_poll_again_def)

lemma data_available_goes:
  assumes ok: "pl_ok ctx" and ab: "same_above c ctx"
  shows "pl_goes c (pl_data_available ctx)"
proof -
  have len: "length (pl_buffer (pl ctx)) = 301"
    by (rule pl_ok_lengths(1) [OF ok])
  obtain f where f: "be16_at (pl_buffer (pl ctx)) 2 = Some f"
    using be16_at_total [of 2 "pl_buffer (pl ctx)"] len by auto
  have r: "f \<le> frame_size ctx \<Longrightarrow> pl_goes c (ifx_i2c_pl_read_register (set_pl_state PL_STATE_RXTX ctx) PL_REG_DATA f)"
    using assms pl_ok_lengths(4) [OF ok] by (intro read_register_goes) (auto simp: word_le_nat_alt)
  have w: "pl_goes c (ifx_i2c_pl_write_register (set_pl_state PL_STATE_RXTX ctx) PL_REG_DATA (pl_tx_frame_len (pl ctx))
      (frame_of (pl_p_tx_frame (pl ctx)) ctx))"
    using assms pl_ok_lengths(2,5) [OF ok] by (intro write_register_goes) (auto simp: DL_MAX_FRAME_SIZE_def)
  show ?thesis
    using assms len f r w
    by (simp add: pl_data_available_def rd_def pl_poll_again_goes)
qed

lemma pl_buffer_event_ok: "pl_ok ctx \<Longrightarrow> pl_event_ok (Some (pl_buffer (pl ctx))) (pl_buffer_rx_len (pl ctx))"
  by (simp add: pl_event_ok_def pl_ok_def)

lemma frame_event_handler_goes:
  "pl_ok ctx \<Longrightarrow> same_above c ctx \<Longrightarrow> pl_goes c (ifx_i2c_pl_frame_event_handler ctx event)"
  by (auto simp: pl_buffer_event_ok ifx_i2c_pl_frame_event_handler_def pl_frame_failed_def soft_reset_goes negotiation_goes data_available_goes
      PL_REG_LEN_I2C_STATE_def DL_MAX_FRAME_SIZE_def Let_def split: pl_state.split intro!: read_register_goes)

text \<open>Every event that the platform can deliver: the layer survives it.\<close>

lemma pal_event_goes:
  assumes "pl_ok ctx"
  shows "pl_goes ctx (ifx_i2c_pl_pal_event_handler ctx event)"
    "pl_goes ctx (ifx_i2c_pl_guard_time_callback ctx)"
    "pl_goes ctx (ifx_i2c_pl_status_poll_callback ctx)"
    "pl_goes ctx (ifx_i2c_pal_poll_callback ctx)"
    "length bs \<le> unat (pl_buffer_rx_len (pl ctx)) \<Longrightarrow> pl_goes ctx (pal_read_done bs ctx)"
proof -
  have retry: "pl_ok (pl_set (\<lambda>p. p\<lparr>pl_retry_counter := n\<rparr>) ctx)" "pl_ok (pl_set (\<lambda>p. p\<lparr>pl_i2c_cmd := cmd\<rparr>) ctx)" for n cmd
    using assms by (auto intro!: pl_ok_set simp: pl_ok_lengths)
  show "pl_goes ctx (ifx_i2c_pl_pal_event_handler ctx event)"
    using assms retry by (simp add: ifx_i2c_pl_pal_event_handler_def Let_def frame_event_handler_goes)
  show "pl_goes ctx (ifx_i2c_pl_guard_time_callback ctx)"
    using assms retry
    by (auto simp: ifx_i2c_pl_guard_time_callback_def Let_def frame_event_handler_goes split: register_action.split i2c_cmd.split)
  show "pl_goes ctx (ifx_i2c_pl_status_poll_callback ctx)"
    using assms by (auto simp: ifx_i2c_pl_status_poll_callback_def PL_REG_LEN_I2C_STATE_def DL_MAX_FRAME_SIZE_def intro!: read_register_goes)
  show "pl_goes ctx (ifx_i2c_pal_poll_callback ctx)"
    using assms pl_ok_lengths(1,6) [OF assms]
    by (auto simp: ifx_i2c_pal_poll_callback_def rd_bytes_def DL_MAX_FRAME_SIZE_def split: i2c_cmd.split)
  show "pl_goes ctx (pal_read_done bs ctx)" if "length bs \<le> unat (pl_buffer_rx_len (pl ctx))"
    using assms that pl_ok_lengths(1-3) [OF assms]
    by (auto simp: pal_read_done_def wr_bytes_def DL_MAX_FRAME_SIZE_def pl_ok_lengths intro!: pl_ok_set)
qed


lemma send_frame_goes:
  assumes "pl_ok ctx" "unat n \<le> DL_MAX_FRAME_SIZE"
  shows "\<exists>st ctx'. ifx_i2c_pl_send_frame ctx r n = Some (st, ctx') \<and> pl_ok ctx' \<and> same_above ctx ctx'"
proof -
  define ctx1 where "ctx1 = pl_set (\<lambda>p. p\<lparr>pl_frame_action := PL_ACTION_WRITE_FRAME, pl_p_tx_frame := r, pl_tx_frame_len := n\<rparr>) ctx"
  have "pl_ok ctx1" "same_above ctx ctx1"
    using assms by (auto simp: ctx1_def pl_ok_lengths intro!: pl_ok_set)
  then have "pl_goes ctx (ifx_i2c_pl_frame_event_handler ctx1 STACK_SUCCESS)"
    by (rule frame_event_handler_goes)
  then show ?thesis
    using assms by (auto simp: ifx_i2c_pl_send_frame_def ctx1_def pl_goes_def)
qed

lemma receive_frame_goes:
  assumes "pl_ok ctx"
  shows "\<exists>st ctx'. ifx_i2c_pl_receive_frame ctx = Some (st, ctx') \<and> pl_ok ctx' \<and> same_above ctx ctx'"
proof -
  define ctx1 where "ctx1 = pl_set (\<lambda>p. p\<lparr>pl_frame_action := PL_ACTION_READ_FRAME\<rparr>) ctx"
  have "pl_ok ctx1" "same_above ctx ctx1"
    using assms by (auto simp: ctx1_def pl_ok_lengths intro!: pl_ok_set)
  then have "pl_goes ctx (ifx_i2c_pl_frame_event_handler ctx1 STACK_SUCCESS)"
    by (rule frame_event_handler_goes)
  then show ?thesis
    using assms by (auto simp: ifx_i2c_pl_receive_frame_def ctx1_def pl_goes_def)
qed

text \<open>The contract for the data link layer.\<close>

interpretation pl_send: layer_op "\<lambda>ctx. ifx_i2c_pl_send_frame ctx r n" "unat n \<le> DL_MAX_FRAME_SIZE" pl_ok same_above
  for r n
  by unfold_locales (auto intro: send_frame_goes same_above_trans)

interpretation pl_receive: layer_op ifx_i2c_pl_receive_frame True pl_ok same_above
  by unfold_locales (auto intro: receive_frame_goes same_above_trans)

section \<open>Whole transactions\<close>

text \<open>
  The events of a platform on which every transfer succeeds: a register write, and a register
  read that returns \<open>bs\<close>.
\<close>

definition bus_write_done :: "ifx_i2c_context \<Rightarrow> ifx_i2c_context option" where
  "bus_write_done ctx = do {
     ctx \<leftarrow> ifx_i2c_pl_pal_event_handler ctx PAL_I2C_EVENT_SUCCESS;
     ifx_i2c_pl_guard_time_callback ctx
   }"

definition bus_read_done :: "byte list \<Rightarrow> ifx_i2c_context \<Rightarrow> ifx_i2c_context option" where
  "bus_read_done bs ctx = do {
     ctx \<leftarrow> bus_write_done ctx;
     ctx \<leftarrow> pal_read_done bs ctx;
     bus_write_done ctx
   }"

text \<open>A status register that announces a response of \<open>n\<close> bytes.\<close>

definition status_ready :: "byte \<Rightarrow> byte \<Rightarrow> u16 \<Rightarrow> byte list" where
  "status_ready st r n = [st OR PL_REG_I2C_STATE_RESPONSE_READY, r, ucast (drop_bit 8 n), ucast n]"

lemma be16_split [simp]: "push_bit 8 (ucast (ucast (drop_bit 8 n) :: byte)) OR ucast (ucast n :: byte) = (n :: u16)"
  by (rule bit_word_eqI) (auto simp: bit_simps dest: bit_imp_le_length)

lemma be16_at_status [simp]: "be16_at (a # b # ucast (drop_bit 8 n) # ucast n # xs) 2 = Some n"
  by (simp add: be16_at_def rd_def)

lemma response_ready_or: "(st OR PL_REG_I2C_STATE_RESPONSE_READY) AND PL_REG_I2C_STATE_RESPONSE_READY \<noteq> 0"
proof
  assume "(st OR PL_REG_I2C_STATE_RESPONSE_READY) AND PL_REG_I2C_STATE_RESPONSE_READY = 0"
  then have "bit ((st OR PL_REG_I2C_STATE_RESPONSE_READY) AND PL_REG_I2C_STATE_RESPONSE_READY) 6 = bit (0 :: byte) 6"
    by simp
  then show False
    by (simp add: PL_REG_I2C_STATE_RESPONSE_READY_def bit_simps)
qed

lemma bus_read_done_eq:
  assumes "pl_register_action (pl ctx) = PL_ACTION_READ_REGISTER" "pl_i2c_cmd (pl ctx) = PL_I2C_CMD_WRITE"
    "length bs \<le> length (pl_buffer (pl ctx))"
  shows "bus_read_done bs ctx =
    ifx_i2c_pl_frame_event_handler ((pl_set (\<lambda>p. p\<lparr>pl_i2c_cmd := PL_I2C_CMD_READ,
      pl_buffer := bs @ drop (length bs) (pl_buffer p)\<rparr>) ctx)
      \<lparr>trace := trace ctx @ [RegisterTimer TimerGuardTime PL_GUARD_TIME_INTERVAL_US, PalRead (pl_buffer_rx_len (pl ctx)),
         RegisterTimer TimerGuardTime PL_GUARD_TIME_INTERVAL_US]\<rparr>) STACK_SUCCESS"
  using assms
  by (simp add: bus_read_done_def bus_write_done_def ifx_i2c_pl_pal_event_handler_def ifx_i2c_pl_guard_time_callback_def
      pal_call_def pl_set_def pal_read_done_def wr_bytes_def)

lemma bus_write_done_eq:
  assumes "pl_register_action (pl ctx) = PL_ACTION_WRITE_REGISTER"
  shows "bus_write_done ctx = ifx_i2c_pl_frame_event_handler
    (ctx\<lparr>trace := trace ctx @ [RegisterTimer TimerGuardTime PL_GUARD_TIME_INTERVAL_US]\<rparr>) STACK_SUCCESS"
  using assms
  by (simp add: bus_write_done_def ifx_i2c_pl_pal_event_handler_def ifx_i2c_pl_guard_time_callback_def pal_call_def)

text \<open>
  C36: from the ready state, a request for a frame that the device answers with a status of
  \<open>n\<close> ready bytes (no more than the negotiated frame size) and these bytes hands exactly them to
  the layer above with their length, and leaves the layer ready.
\<close>

theorem pl_receive_delivers:
  assumes ok: "pl_ok ctx" and ready: "pl_frame_state (pl ctx) = PL_STATE_READY"
    and n: "length bs = unat n" "0 < n" "n \<le> frame_size ctx"
  shows "\<exists>ctx' buf.
    do { (st, c) \<leftarrow> ifx_i2c_pl_receive_frame ctx; c \<leftarrow> bus_read_done (status_ready st0 r n) c; bus_read_done bs c } = Some ctx' \<and>
    pl_up ctx' = Some (STACK_SUCCESS, Some buf, n) \<and> take (unat n) buf = bs \<and>
    pl_frame_state (pl ctx') = PL_STATE_READY"
proof -
  have len: "length (pl_buffer (pl ctx)) = 301" and fs: "unat (frame_size ctx) \<le> 300"
    using pl_ok_lengths(1,4) [OF ok] by (auto simp: DL_MAX_FRAME_SIZE_def)
  have n': "unat n \<le> 300"
    using n(3) fs by (simp add: word_le_nat_alt)
  show ?thesis
    using ready n len n' response_ready_or [of st0]
    by (simp add: ifx_i2c_pl_receive_frame_def ifx_i2c_pl_frame_event_handler_def ifx_i2c_pl_read_register_def
        bus_read_done_eq pl_data_available_def rd_def status_ready_def pl_set_def set_pl_state_def pal_call_def
        pl_upcall_def)
qed

text \<open>
  From the ready state, a frame given to the layer is on the bus after one status read:
  the data register is written with exactly the first \<open>n\<close> bytes of the frame buffer, success is
  reported upwards and the layer is ready again.
\<close>

theorem pl_send_writes_frame:
  assumes ok: "pl_ok ctx" and ready: "pl_frame_state (pl ctx) = PL_STATE_READY"
    and n: "unat n \<le> DL_MAX_FRAME_SIZE" and s: "length status = 4"
  shows "\<exists>ctx' buf.
    do { (st, c) \<leftarrow> ifx_i2c_pl_send_frame ctx fr n; c \<leftarrow> bus_read_done status c; bus_write_done c } = Some ctx' \<and>
    PalWrite (PL_REG_DATA # take (unat n) (frame_of fr ctx)) \<in> set (trace ctx') \<and>
    pl_up ctx' = Some (STACK_SUCCESS, Some buf, pl_buffer_rx_len (pl ctx')) \<and>
    pl_frame_state (pl ctx') = PL_STATE_READY"
proof -
  have len: "length (pl_buffer (pl ctx)) = 301" and fl: "length (frame_of fr ctx) = 300"
    using pl_ok_lengths(1,5) [OF ok] by auto
  obtain s0 s1 s2 s3 where st: "status = [s0, s1, s2, s3]"
    using s by (auto simp: numeral_eq_Suc length_Suc_conv)
  have n': "unat n \<le> 300" "unat (1 + n) = Suc (unat n)"
    using n by (auto simp: DL_MAX_FRAME_SIZE_def unat_word_ariths)
  have fr: "frame_of fr (ctx\<lparr>pl := p, trace := tr\<rparr>) = frame_of fr ctx" for p tr
    by (simp add: frame_of_def split: frame_ref.split)
  show ?thesis
    using ready n' len fl
    by (simp add: ifx_i2c_pl_send_frame_def ifx_i2c_pl_frame_event_handler_def ifx_i2c_pl_read_register_def
        ifx_i2c_pl_write_register_def bus_write_done_eq rd_bytes_def wr_bytes_def
        bus_read_done_eq pl_data_available_def rd_def st pl_set_def set_pl_state_def pal_call_def
        pl_upcall_def fr be16_at_def take_Cons' min_def)
qed


text \<open>An idle layer, for the examples.\<close>

definition ready_context :: "ifx_i2c_context" where
  "ready_context = set_pl_state PL_STATE_READY (ifx_i2c_context_0 400 calm_platform)"

lemma ready_context_ok: "pl_ok ready_context" "pl_frame_state (pl ready_context) = PL_STATE_READY"
  "frame_size ready_context = 0x115"
  by (simp_all add: ready_context_def ifx_i2c_context_0_def pl_ok_def pl_up_ok_def set_pl_state_def pl_set_def DL_MAX_FRAME_SIZE_def)

lemma pl_receive_delivers_witness:
  "\<exists>ctx' buf.
    do { (st, c) \<leftarrow> ifx_i2c_pl_receive_frame ready_context; c \<leftarrow> bus_read_done (status_ready 0 0 3) c;
         bus_read_done [7, 8, 9] c } = Some ctx' \<and>
    pl_up ctx' = Some (STACK_SUCCESS, Some buf, 3) \<and> take (unat (3 :: u16)) buf = [7, 8, 9] \<and>
    pl_frame_state (pl ctx') = PL_STATE_READY"
  by (rule pl_receive_delivers) (simp_all add: ready_context_ok word_le_nat_alt)

lemma pl_send_writes_frame_witness:
  "\<exists>ctx' buf.
    do { (st, c) \<leftarrow> ifx_i2c_pl_send_frame ready_context TxFrame 5; c \<leftarrow> bus_read_done [0x48, 0, 0, 5] c;
         bus_write_done c } = Some ctx' \<and>
    PalWrite (PL_REG_DATA # take (unat (5 :: u16)) (frame_of TxFrame ready_context)) \<in> set (trace ctx') \<and>
    pl_up ctx' = Some (STACK_SUCCESS, Some buf, pl_buffer_rx_len (pl ctx')) \<and>
    pl_frame_state (pl ctx') = PL_STATE_READY"
  by (rule pl_send_writes_frame) (simp_all add: ready_context_ok DL_MAX_FRAME_SIZE_def)


section \<open>Safety and the end of the negotiation\<close>

text \<open>
  No event of the platform makes the layer leave its buffers: whatever the event and the
  bytes read (no more than were asked for), the handler returns, the sizes stay within bounds, the
  state of the layers above is untouched and the frame size never grows.
\<close>

theorem pl_events_safe:
  assumes "pl_ok ctx" and "length bs \<le> unat (pl_buffer_rx_len (pl ctx))"
  shows "pl_goes ctx (ifx_i2c_pl_pal_event_handler ctx event) \<and>
    pl_goes ctx (ifx_i2c_pl_guard_time_callback ctx) \<and>
    pl_goes ctx (ifx_i2c_pl_status_poll_callback ctx) \<and>
    pl_goes ctx (ifx_i2c_pl_negotiation_event_handler ctx) \<and>
    pl_goes ctx (ifx_i2c_pl_soft_reset ctx) \<and>
    pl_goes ctx (pal_read_done bs ctx)"
  using assms by (simp add: pal_event_goes negotiation_goes soft_reset_goes)

lemma pl_events_safe_witness:
  "pl_goes ready_context (ifx_i2c_pl_pal_event_handler ready_context PAL_I2C_EVENT_ERROR) \<and>
    pl_goes ready_context (ifx_i2c_pl_guard_time_callback ready_context) \<and>
    pl_goes ready_context (ifx_i2c_pl_status_poll_callback ready_context) \<and>
    pl_goes ready_context (ifx_i2c_pl_negotiation_event_handler ready_context) \<and>
    pl_goes ready_context (ifx_i2c_pl_soft_reset ready_context) \<and>
    pl_goes ready_context (pal_read_done [] ready_context)"
  by (rule pl_events_safe) (simp_all add: ready_context_ok)

text \<open>The timer of the negotiation elapses \<open>n\<close> times.\<close>

primrec fire_negotiation :: "nat \<Rightarrow> ifx_i2c_context \<Rightarrow> ifx_i2c_context option" where
  "fire_negotiation 0 ctx = Some ctx"
| "fire_negotiation (Suc n) ctx = do {
     ctx \<leftarrow> ifx_i2c_pl_negotiation_event_handler ctx;
     fire_negotiation n ctx
   }"

text \<open>
  A bus that never accepts the default bit rate: the handler is retried until the counter is
  used up, and the last failure neither starts a timer nor calls the layer above. Nothing will
  ever happen again, although the negotiation is marked as done.
\<close>

theorem pl_bit_rate_failure_silent:
  assumes "\<not> env_bitrate_ok (env ctx) PL_DEFAULT_FREQUENCY"
    and "pl_negotiate_state (pl ctx) = PL_INIT_SET_FREQ_DEFAULT"
  shows "\<exists>ctx'. fire_negotiation (Suc (unat (pl_retry_counter (pl ctx)))) ctx = Some ctx' \<and>
    pl_negotiate_state (pl ctx') = PL_INIT_DONE \<and> pl_frame_state (pl ctx') = pl_frame_state (pl ctx) \<and>
    pl_up ctx' = pl_up ctx \<and> last (trace ctx') = PalSetBitrate PL_DEFAULT_FREQUENCY"
  using assms
proof (induction "unat (pl_retry_counter (pl ctx))" arbitrary: ctx)
  case 0
  then have z: "pl_retry_counter (pl ctx) = 0"
    by (simp add: unat_eq_0)
  show ?case
    using 0(2,3) z
    by (simp add: ifx_i2c_pl_negotiation_event_handler_def negotiation_loop.simps [of _ _ ctx] negotiation_round_def
        negotiate_set_default_def ifx_i2c_pl_set_bit_rate_def Let_def pal_call_def pl_set_def set_negotiate_state_def)
next
  case (Suc n)
  define ctx1 where "ctx1 = snd (ifx_i2c_pl_set_bit_rate ctx PL_DEFAULT_FREQUENCY)"
  have nz: "pl_retry_counter (pl ctx) \<noteq> 0"
    using Suc(2) by auto
  have step: "ifx_i2c_pl_negotiation_event_handler ctx = Some ctx1"
    using Suc(3,4) nz
    by (simp add: ifx_i2c_pl_negotiation_event_handler_def negotiation_loop.simps [of _ _ ctx] negotiation_round_def
        negotiate_set_default_def ifx_i2c_pl_set_bit_rate_def Let_def ctx1_def pal_call_def)
  have c1: "env ctx1 = env ctx" "pl_negotiate_state (pl ctx1) = PL_INIT_SET_FREQ_DEFAULT"
    "pl_frame_state (pl ctx1) = pl_frame_state (pl ctx)" "pl_up ctx1 = pl_up ctx"
    "pl_retry_counter (pl ctx1) = pl_retry_counter (pl ctx) - 1"
    using Suc(3,4) nz by (simp_all add: ctx1_def ifx_i2c_pl_set_bit_rate_def Let_def pal_call_def pl_set_def)
  have n: "n = unat (pl_retry_counter (pl ctx1))"
    using Suc(2) nz c1(5) by (metis diff_Suc_1 unat_minus_one)
  show ?case
    using Suc(1) [OF n] Suc(3) c1 step unfolding Suc(2) [symmetric] n [symmetric] by simp
qed

lemma pl_bit_rate_failure_silent_witness:
  "\<exists>ctx'. fire_negotiation (Suc (unat (0 :: u16)))
      (pl_set (\<lambda>p. p\<lparr>pl_negotiate_state := PL_INIT_SET_FREQ_DEFAULT\<rparr>)
        (ifx_i2c_context_0 400 (calm_platform\<lparr>env_bitrate_ok := \<lambda>_. False\<rparr>))) = Some ctx' \<and>
    pl_negotiate_state (pl ctx') = PL_INIT_DONE \<and> pl_frame_state (pl ctx') = PL_STATE_UNINIT \<and>
    pl_up ctx' = None \<and> last (trace ctx') = PalSetBitrate PL_DEFAULT_FREQUENCY"
  using pl_bit_rate_failure_silent [of "pl_set (\<lambda>p. p\<lparr>pl_negotiate_state := PL_INIT_SET_FREQ_DEFAULT\<rparr>)
        (ifx_i2c_context_0 400 (calm_platform\<lparr>env_bitrate_ok := \<lambda>_. False\<rparr>))"]
  by (simp add: pl_set_def ifx_i2c_context_0_def calm_platform_def)

end
