(* ===== verification/Ifx_DataLink.thy ===== *)
theory Ifx_DataLink
  imports Ifx_Physical Ifx_Crc
begin

text \<open>
  \<open>lib/optiga/comms/ifx_i2c/ifx_i2c_data_link_layer.c\<close>: frames with a control byte, a length and
  a CRC over the physical layer; sequence numbers, acknowledgements, retransmission and
  re-synchronisation. The handler \<open>ifx_i2c_pl_event_handler\<close> is a loop over the states of the
  layer; each case of its \<open>switch\<close> is a definition.
\<close>

section \<open>Constants\<close>

definition DL_FCTR_FTYPE_MASK :: byte where "DL_FCTR_FTYPE_MASK = 0x80"
definition DL_FCTR_SEQCTR_MASK :: byte where "DL_FCTR_SEQCTR_MASK = 0x60"
definition DL_FCTR_FRNR_MASK :: byte where "DL_FCTR_FRNR_MASK = 0x0C"
definition DL_FCTR_ACKNR_MASK :: byte where "DL_FCTR_ACKNR_MASK = 0x03"
definition DL_FCTR_VALUE_CONTROL_FRAME :: byte where "DL_FCTR_VALUE_CONTROL_FRAME = 1"
definition DL_FCTR_SEQCTR_VALUE_ACK :: byte where "DL_FCTR_SEQCTR_VALUE_ACK = 0"
definition DL_FCTR_SEQCTR_VALUE_NACK :: byte where "DL_FCTR_SEQCTR_VALUE_NACK = 1"
definition DL_FCTR_SEQCTR_VALUE_RESYNC :: byte where "DL_FCTR_SEQCTR_VALUE_RESYNC = 2"
definition DL_FCTR_SEQCTR_VALUE_RFU :: byte where "DL_FCTR_SEQCTR_VALUE_RFU = 3"
definition DL_MAX_FRAME_NUM :: byte where "DL_MAX_FRAME_NUM = 3"
definition DL_CONTROL_FRAME_LENGTH :: u16 where "DL_CONTROL_FRAME_LENGTH = 5"
definition IFX_I2C_DL_EVENT_ERROR :: byte where "IFX_I2C_DL_EVENT_ERROR = 1"
definition IFX_I2C_DL_EVENT_TX_SUCCESS :: byte where "IFX_I2C_DL_EVENT_TX_SUCCESS = 2"
definition IFX_I2C_DL_EVENT_RX_SUCCESS :: byte where "IFX_I2C_DL_EVENT_RX_SUCCESS = 4"

lemmas dl_consts = DL_FCTR_FTYPE_MASK_def DL_FCTR_SEQCTR_MASK_def DL_FCTR_FRNR_MASK_def DL_FCTR_ACKNR_MASK_def
  DL_FCTR_VALUE_CONTROL_FRAME_def DL_FCTR_SEQCTR_VALUE_ACK_def DL_FCTR_SEQCTR_VALUE_NACK_def
  DL_FCTR_SEQCTR_VALUE_RESYNC_def DL_FCTR_SEQCTR_VALUE_RFU_def DL_MAX_FRAME_NUM_def DL_CONTROL_FRAME_LENGTH_def
  IFX_I2C_DL_EVENT_ERROR_def IFX_I2C_DL_EVENT_TX_SUCCESS_def IFX_I2C_DL_EVENT_RX_SUCCESS_def

section \<open>Sending\<close>

definition dl_set :: "(ifx_i2c_dl \<Rightarrow> ifx_i2c_dl) \<Rightarrow> ifx_i2c_context \<Rightarrow> ifx_i2c_context" where
  "dl_set f ctx = ctx\<lparr>dl := f (dl ctx)\<rparr>"

definition set_dl_state :: "dl_state \<Rightarrow> ifx_i2c_context \<Rightarrow> ifx_i2c_context" where
  "set_dl_state s = dl_set (\<lambda>d. d\<lparr>dl_state := s\<rparr>)"

definition dl_upcall :: "byte \<Rightarrow> byte list option \<Rightarrow> u16 \<Rightarrow> ifx_i2c_context \<Rightarrow> ifx_i2c_context" where
  "dl_upcall event p_data data_len ctx = ctx\<lparr>dl_up := Some (event, p_data, data_len)\<rparr>"

text \<open>The buffer that is used and the control byte; the sequence number moves on for a new data frame.\<close>

definition dl_frame_control :: "ifx_i2c_context \<Rightarrow> u16 \<Rightarrow> byte \<Rightarrow> bool \<Rightarrow> frame_ref \<times> byte \<times> ifx_i2c_context" where
  "dl_frame_control ctx frame_len seqctr_value resend =
     (let ack_nr = (ucast (dl_rx_seq_nr (dl ctx)) :: u16);
          ack_nr = (if seqctr_value = DL_FCTR_SEQCTR_VALUE_NACK then (ack_nr + 1) AND ucast DL_MAX_FRAME_NUM else ack_nr);
          (ack_nr, buffer) = (if seqctr_value = DL_FCTR_SEQCTR_VALUE_RESYNC then (0, RxFrame) else (ack_nr, TxFrame));
          fctr = ucast ack_nr OR push_bit 5 seqctr_value
      in if frame_len \<noteq> 0 then
           let ctx = (if \<not> resend \<or> dl_resynced (dl ctx)
                 then dl_set (\<lambda>d. d\<lparr>dl_tx_seq_nr := (dl_tx_seq_nr d + 1) AND DL_MAX_FRAME_NUM\<rparr>) ctx else ctx)
           in (buffer, fctr OR push_bit 2 (dl_tx_seq_nr (dl ctx)), dl_set (\<lambda>d. d\<lparr>dl_resynced := False\<rparr>) ctx)
         else (buffer, fctr OR DL_FCTR_FTYPE_MASK, ctx))"

definition ifx_i2c_dl_send_frame_internal ::
    "ifx_i2c_context \<Rightarrow> u16 \<Rightarrow> byte \<Rightarrow> bool \<Rightarrow> (stack_status \<times> ifx_i2c_context) option" where
  "ifx_i2c_dl_send_frame_internal ctx frame_len seqctr_value resend =
     (case dl_frame_control ctx frame_len seqctr_value resend of (buffer, fctr, ctx) \<Rightarrow> do {
        buf \<leftarrow> wr (frame_of buffer ctx) 0 fctr;
        buf \<leftarrow> wr buf 1 (ucast (drop_bit 8 frame_len));
        buf \<leftarrow> wr buf 2 (ucast frame_len);
        crc \<leftarrow> ifx_i2c_dl_calc_crc buf (3 + frame_len);
        buf \<leftarrow> wr buf (3 + unat frame_len) (ucast (drop_bit 8 crc));
        buf \<leftarrow> wr buf (4 + unat frame_len) (ucast crc);
        ifx_i2c_pl_send_frame (set_frame buffer buf ctx) buffer (5 + frame_len)
      })"

definition ifx_i2c_dl_send_frame :: "ifx_i2c_context \<Rightarrow> u16 \<Rightarrow> (stack_status \<times> ifx_i2c_context) option" where
  "ifx_i2c_dl_send_frame ctx frame_len =
     (if dl_state (dl ctx) \<noteq> DL_STATE_IDLE \<or> frame_len = 0 then Some (STACK_ERROR, ctx)
      else ifx_i2c_dl_send_frame_internal
        (dl_set (\<lambda>d. d\<lparr>dl_state := DL_STATE_TX, dl_retransmit_counter := 0, dl_action_rx_only := False,
           dl_tx_buffer_size := frame_len, dl_data_poll_timeout := PL_TRANS_TIMEOUT_MS\<rparr>) ctx)
        frame_len DL_FCTR_SEQCTR_VALUE_ACK False)"

definition ifx_i2c_dl_receive_frame :: "ifx_i2c_context \<Rightarrow> (stack_status \<times> ifx_i2c_context) option" where
  "ifx_i2c_dl_receive_frame ctx =
     (if dl_state (dl ctx) \<noteq> DL_STATE_IDLE then Some (STACK_ERROR, ctx)
      else ifx_i2c_pl_receive_frame
        (dl_set (\<lambda>d. d\<lparr>dl_state := DL_STATE_RX, dl_retransmit_counter := 0, dl_action_rx_only := True,
           dl_frame_start_time := env_now (env ctx), dl_data_poll_timeout := TL_MAX_EXIT_TIMEOUT * 1000\<rparr>) ctx))"

definition ifx_i2c_dl_resync :: "ifx_i2c_context \<Rightarrow> (stack_status \<times> ifx_i2c_context) option" where
  "ifx_i2c_dl_resync ctx =
     ifx_i2c_dl_send_frame_internal
       (dl_set (\<lambda>d. d\<lparr>dl_tx_seq_nr := DL_MAX_FRAME_NUM, dl_rx_seq_nr := DL_MAX_FRAME_NUM, dl_resynced := True,
          dl_state := DL_STATE_RESEND\<rparr>) ctx)
       0 DL_FCTR_SEQCTR_VALUE_RESYNC False"

definition ifx_i2c_dl_resend_frame :: "ifx_i2c_context \<Rightarrow> byte \<Rightarrow> ifx_i2c_context option" where
  "ifx_i2c_dl_resend_frame ctx seqctr_value =
     (if env_now (env ctx) - tl_api_start_time (tl ctx) < TL_MAX_EXIT_TIMEOUT * 1000 then do {
        (status, ctx) \<leftarrow>
          (if dl_retransmit_counter (dl ctx) = DL_TRANS_REPEAT
           then ifx_i2c_dl_resync (dl_set (\<lambda>d. d\<lparr>dl_retransmit_counter := 0\<rparr>) ctx)
           else ifx_i2c_dl_send_frame_internal
             (dl_set (\<lambda>d. d\<lparr>dl_retransmit_counter := dl_retransmit_counter d + 1, dl_state := DL_STATE_TX\<rparr>) ctx)
             (dl_tx_buffer_size (dl ctx)) seqctr_value True);
        Some (if status \<noteq> STACK_SUCCESS then set_dl_state DL_STATE_NACK ctx else ctx)
      } else Some (set_dl_state DL_STATE_ERROR ctx))"

section \<open>The state machine\<close>

text \<open>
  The local variables of the handler that keep their value from one round of the loop to the
  next, and the event it was called with.
\<close>

record dl_locals =
  lv_seqctr :: byte
  lv_fr_nr :: byte
  lv_ack_nr :: byte
  lv_packet_len :: u16
  lv_crc_received :: u16
  lv_crc_calculated :: u16

definition dl_locals_init :: dl_locals where
  "dl_locals_init = \<lparr>lv_seqctr = 0, lv_fr_nr = 0, lv_ack_nr = 0, lv_packet_len = 0, lv_crc_received = 0,
     lv_crc_calculated = 0\<rparr>"

text \<open>Each case: the new context and \<open>continue_state_machine\<close>.\<close>

type_synonym dl_round = "(ifx_i2c_context \<times> bool) option"

definition dl_case_idle :: "stack_status \<Rightarrow> ifx_i2c_context \<Rightarrow> dl_round" where
  "dl_case_idle event ctx =
     Some (dl_upcall (if event \<noteq> STACK_SUCCESS then IFX_I2C_DL_EVENT_ERROR else IFX_I2C_DL_EVENT_TX_SUCCESS) None 0 ctx,
       False)"

definition dl_case_tx :: "stack_status \<Rightarrow> ifx_i2c_context \<Rightarrow> dl_round" where
  "dl_case_tx event ctx =
     (if event = STACK_ERROR then Some (set_dl_state DL_STATE_RESEND ctx, True)
      else do {
        let ctx = dl_set (\<lambda>d. d\<lparr>dl_frame_start_time := env_now (env ctx), dl_state := DL_STATE_RX\<rparr>) ctx;
        (status, ctx) \<leftarrow> ifx_i2c_pl_receive_frame ctx;
        if status \<noteq> STACK_SUCCESS then Some (set_dl_state DL_STATE_NACK ctx, True) else Some (ctx, False)
      })"

text \<open>The fields of a received frame; \<open>data_len\<close> is at least \<open>DL_HEADER_SIZE\<close>.\<close>

definition dl_parse :: "byte list \<Rightarrow> u16 \<Rightarrow> (byte \<times> dl_locals) option" where
  "dl_parse p_data data_len = do {
     fctr \<leftarrow> rd p_data 0;
     packet_len \<leftarrow> be16_at p_data 1;
     crc_received \<leftarrow> be16_at p_data (unat data_len - 2);
     crc_calculated \<leftarrow> ifx_i2c_dl_calc_crc p_data (data_len - 2);
     Some (drop_bit 7 (fctr AND DL_FCTR_FTYPE_MASK),
       \<lparr>lv_seqctr = drop_bit 5 (fctr AND DL_FCTR_SEQCTR_MASK),
        lv_fr_nr = drop_bit 2 (fctr AND DL_FCTR_FRNR_MASK),
        lv_ack_nr = fctr AND DL_FCTR_ACKNR_MASK,
        lv_packet_len = packet_len, lv_crc_received = crc_received, lv_crc_calculated = crc_calculated\<rparr>)
   }"

definition dl_case_rx :: "stack_status \<Rightarrow> byte list option \<Rightarrow> u16 \<Rightarrow> dl_locals \<Rightarrow> ifx_i2c_context
    \<Rightarrow> (dl_locals \<times> ifx_i2c_context \<times> bool) option" where
  "dl_case_rx event p_data data_len lv ctx =
     (if event = STACK_ERROR then Some (lv, set_dl_state DL_STATE_RESEND ctx, True)
      else if unat data_len < DL_HEADER_SIZE then Some (lv, set_dl_state DL_STATE_NACK ctx, True)
      else do {
        data \<leftarrow> p_data;
        (ftype, lv) \<leftarrow> dl_parse data data_len;
        Some (lv, set_dl_state (if ftype = DL_FCTR_VALUE_CONTROL_FRAME then DL_STATE_RX_CF else DL_STATE_RX_DF) ctx, True)
      })"

text \<open>The end of the case for data frames: the frame is the expected one.\<close>

definition dl_accept_frame :: "byte list option \<Rightarrow> u16 \<Rightarrow> ifx_i2c_context \<Rightarrow> dl_round" where
  "dl_accept_frame p_data data_len ctx = do {
     let ctx = dl_set (\<lambda>d. d\<lparr>dl_rx_seq_nr := (dl_rx_seq_nr d + 1) AND DL_MAX_FRAME_NUM\<rparr>) ctx;
     data \<leftarrow> p_data;
     xs \<leftarrow> rd_bytes data (unat data_len);
     buf \<leftarrow> wr_bytes (rx_frame_buffer ctx) 0 xs;
     let ctx = dl_set (\<lambda>d. d\<lparr>dl_rx_buffer_size := data_len, dl_retransmit_counter := 0, dl_state := DL_STATE_ACK\<rparr>)
       (ctx\<lparr>rx_frame_buffer := buf\<rparr>);
     (_, ctx) \<leftarrow> ifx_i2c_dl_send_frame_internal ctx 0 DL_FCTR_SEQCTR_VALUE_ACK False;
     Some (ctx, False)
   }"

definition dl_case_rx_df :: "byte list option \<Rightarrow> u16 \<Rightarrow> dl_locals \<Rightarrow> ifx_i2c_context \<Rightarrow> dl_round" where
  "dl_case_rx_df p_data data_len lv ctx =
     (if lv_crc_received lv \<noteq> lv_crc_calculated lv \<or> lv_packet_len lv = 0 \<or>
         unat data_len \<noteq> DL_HEADER_SIZE + unat (lv_packet_len lv) \<or>
         lv_seqctr lv = DL_FCTR_SEQCTR_VALUE_RFU \<or> lv_seqctr lv = DL_FCTR_SEQCTR_VALUE_RESYNC
      then Some (set_dl_state DL_STATE_NACK ctx, True)
      else if lv_fr_nr lv \<noteq> (dl_rx_seq_nr (dl ctx) + 1) AND DL_MAX_FRAME_NUM then do {
        (_, ctx) \<leftarrow> ifx_i2c_dl_send_frame_internal (set_dl_state DL_STATE_DISCARD ctx) 0 DL_FCTR_SEQCTR_VALUE_ACK False;
        Some (ctx, False)
      }
      else if lv_ack_nr lv \<noteq> dl_tx_seq_nr (dl ctx) then Some (set_dl_state DL_STATE_DISCARD ctx, True)
      else if lv_seqctr lv = DL_FCTR_SEQCTR_VALUE_NACK then Some (set_dl_state DL_STATE_RESEND ctx, True)
      else dl_accept_frame p_data data_len ctx)"

definition dl_case_rx_cf :: "u16 \<Rightarrow> dl_locals \<Rightarrow> ifx_i2c_context \<Rightarrow> dl_round" where
  "dl_case_rx_cf data_len lv ctx =
     (if dl_action_rx_only (dl ctx) \<noteq> (lv_seqctr lv = DL_FCTR_SEQCTR_VALUE_RESYNC)
      then Some (set_dl_state DL_STATE_DISCARD ctx, True)
      else if lv_crc_received lv \<noteq> lv_crc_calculated lv then Some (set_dl_state DL_STATE_RESEND ctx, True)
      else if data_len > DL_CONTROL_FRAME_LENGTH \<or> lv_packet_len lv \<noteq> 0 then Some (set_dl_state DL_STATE_DISCARD ctx, True)
      else if lv_seqctr lv = DL_FCTR_SEQCTR_VALUE_RESYNC then
        Some (dl_set (\<lambda>d. d\<lparr>dl_state := DL_STATE_DISCARD, dl_resynced := True, dl_tx_seq_nr := DL_MAX_FRAME_NUM,
          dl_rx_seq_nr := DL_MAX_FRAME_NUM\<rparr>) ctx, True)
      else if lv_fr_nr lv \<noteq> 0 \<or> lv_seqctr lv = DL_FCTR_SEQCTR_VALUE_RFU \<or> lv_ack_nr lv \<noteq> dl_tx_seq_nr (dl ctx)
      then Some (set_dl_state DL_STATE_DISCARD ctx, True)
      else if lv_seqctr lv = DL_FCTR_SEQCTR_VALUE_NACK then Some (set_dl_state DL_STATE_RESEND ctx, True)
      else Some (dl_upcall IFX_I2C_DL_EVENT_TX_SUCCESS None 0 (set_dl_state DL_STATE_IDLE ctx), False))"

definition dl_case_discard :: "ifx_i2c_context \<Rightarrow> dl_round" where
  "dl_case_discard ctx = do {
     (_, ctx) \<leftarrow> ifx_i2c_pl_receive_frame (set_dl_state DL_STATE_RX ctx);
     Some (ctx, False)
   }"

definition dl_case_ack :: "stack_status \<Rightarrow> ifx_i2c_context \<Rightarrow> dl_round" where
  "dl_case_ack event ctx =
     (if event = STACK_ERROR then Some (set_dl_state DL_STATE_RESEND ctx, True)
      else
        let ctx = set_dl_state DL_STATE_IDLE ctx
        in Some (dl_upcall
             (if dl_action_rx_only (dl ctx) then IFX_I2C_DL_EVENT_RX_SUCCESS
              else IFX_I2C_DL_EVENT_TX_SUCCESS OR IFX_I2C_DL_EVENT_RX_SUCCESS)
             (Some (drop 3 (rx_frame_buffer ctx))) (dl_rx_buffer_size (dl ctx) - 5) ctx, False))"

definition dl_case_nack :: "ifx_i2c_context \<Rightarrow> dl_round" where
  "dl_case_nack ctx = do {
     (_, ctx) \<leftarrow> ifx_i2c_dl_send_frame_internal (set_dl_state DL_STATE_TX ctx) 0 DL_FCTR_SEQCTR_VALUE_NACK False;
     Some (ctx, False)
   }"

definition dl_case_resend :: "ifx_i2c_context \<Rightarrow> dl_round" where
  "dl_case_resend ctx = do {
     ctx \<leftarrow> ifx_i2c_dl_resend_frame ctx DL_FCTR_SEQCTR_VALUE_ACK;
     Some (ctx, dl_state (dl ctx) = DL_STATE_ERROR)
   }"

definition dl_case_error :: "ifx_i2c_context \<Rightarrow> dl_round" where
  "dl_case_error ctx = do {
     let ctx = (if \<not> dl_resynced (dl ctx) then dl_set (\<lambda>d. d\<lparr>dl_error := True\<rparr>) ctx else ctx);
     if \<not> dl_error (dl ctx) then Some (dl_upcall IFX_I2C_DL_EVENT_ERROR None 0 (set_dl_state DL_STATE_IDLE ctx), False)
     else do {
       (_, ctx) \<leftarrow> ifx_i2c_dl_resync ctx;
       Some (dl_set (\<lambda>d. d\<lparr>dl_state := DL_STATE_ERROR, dl_error := False\<rparr>) ctx, False)
     }
   }"

definition dl_case_default :: "ifx_i2c_context \<Rightarrow> dl_round" where
  "dl_case_default ctx = Some (dl_upcall IFX_I2C_DL_EVENT_ERROR None 0 (set_dl_state DL_STATE_IDLE ctx), False)"

text \<open>One round of the loop.\<close>

definition dl_handler_round :: "stack_status \<Rightarrow> byte list option \<Rightarrow> u16 \<Rightarrow> dl_locals \<Rightarrow> ifx_i2c_context
    \<Rightarrow> (dl_locals \<times> ifx_i2c_context \<times> bool) option" where
  "dl_handler_round event p_data data_len lv ctx =
     (let ctx = (if event = FATAL_ERROR \<and> dl_state (dl ctx) \<noteq> DL_STATE_IDLE then set_dl_state DL_STATE_ERROR ctx else ctx);
          keep = map_option (\<lambda>r. (lv, r))
      in case dl_state (dl ctx) of
           DL_STATE_IDLE \<Rightarrow> keep (dl_case_idle event ctx)
         | DL_STATE_TX \<Rightarrow> keep (dl_case_tx event ctx)
         | DL_STATE_RX \<Rightarrow> dl_case_rx event p_data data_len lv ctx
         | DL_STATE_RX_DF \<Rightarrow> keep (dl_case_rx_df p_data data_len lv ctx)
         | DL_STATE_RX_CF \<Rightarrow> keep (dl_case_rx_cf data_len lv ctx)
         | DL_STATE_DISCARD \<Rightarrow> keep (dl_case_discard ctx)
         | DL_STATE_ACK \<Rightarrow> keep (dl_case_ack event ctx)
         | DL_STATE_NACK \<Rightarrow> keep (dl_case_nack ctx)
         | DL_STATE_RESEND \<Rightarrow> keep (dl_case_resend ctx)
         | DL_STATE_ERROR \<Rightarrow> keep (dl_case_error ctx)
         | DL_STATE_UNINIT \<Rightarrow> keep (dl_case_default ctx))"

text \<open>A round that continues leaves a state nearer to one of the states that stop.\<close>

fun dl_rank :: "dl_state \<Rightarrow> nat" where
  "dl_rank DL_STATE_RX = 4"
| "dl_rank DL_STATE_RX_DF = 3"
| "dl_rank DL_STATE_RX_CF = 3"
| "dl_rank DL_STATE_TX = 3"
| "dl_rank DL_STATE_ACK = 3"
| "dl_rank DL_STATE_RESEND = 2"
| "dl_rank DL_STATE_NACK = 1"
| "dl_rank DL_STATE_DISCARD = 1"
| "dl_rank DL_STATE_ERROR = 1"
| "dl_rank DL_STATE_IDLE = 0"
| "dl_rank DL_STATE_UNINIT = 0"

lemma dl_set_simps [simp]:
  "dl (dl_set f ctx) = f (dl ctx)" "dl (set_dl_state s ctx) = (dl ctx)\<lparr>dl_state := s\<rparr>"
  "dl (dl_upcall e d l ctx) = dl ctx"
  by (simp_all add: dl_set_def set_dl_state_def dl_upcall_def)

lemmas dl_cases = dl_accept_frame_def dl_case_idle_def dl_case_tx_def dl_case_rx_def dl_case_rx_df_def dl_case_rx_cf_def
  dl_case_discard_def dl_case_ack_def dl_case_nack_def dl_case_resend_def dl_case_error_def dl_case_default_def


lemma dl_handler_round_rank:
  "dl_handler_round event p_data data_len lv ctx = Some (lv', ctx', True) \<Longrightarrow>
   dl_rank (dl_state (dl ctx')) < dl_rank (dl_state (dl ctx))"
  by (auto simp: dl_handler_round_def dl_cases Let_def bind_eq_Some_conv
      split: dl_state.splits if_splits prod.splits)

function dl_handler_loop :: "stack_status \<Rightarrow> byte list option \<Rightarrow> u16 \<Rightarrow> dl_locals \<Rightarrow> ifx_i2c_context
    \<Rightarrow> ifx_i2c_context option" where
  "dl_handler_loop event p_data data_len lv ctx = do {
     (lv', ctx', continue) \<leftarrow> dl_handler_round event p_data data_len lv ctx;
     if continue then dl_handler_loop event p_data data_len lv' ctx' else Some ctx'
   }"
  by pat_completeness auto
termination
  by (relation "measure (\<lambda>(event, p_data, data_len, lv, ctx). dl_rank (dl_state (dl ctx)))")
    (auto dest: dl_handler_round_rank)

declare dl_handler_loop.simps [simp del]

definition ifx_i2c_pl_event_handler :: "ifx_i2c_context \<Rightarrow> stack_status \<Rightarrow> byte list option \<Rightarrow> u16
    \<Rightarrow> ifx_i2c_context option" where
  "ifx_i2c_pl_event_handler ctx event p_data data_len = dl_handler_loop event p_data data_len dl_locals_init ctx"

definition ifx_i2c_dl_init :: "ifx_i2c_context \<Rightarrow> (stack_status \<times> ifx_i2c_context) option" where
  "ifx_i2c_dl_init ctx = do {
     (status, ctx) \<leftarrow> ifx_i2c_pl_init (set_dl_state DL_STATE_UNINIT ctx);
     if status \<noteq> STACK_SUCCESS then Some (STACK_ERROR, ctx)
     else Some (STACK_SUCCESS, dl_set (\<lambda>d. d\<lparr>dl_state := DL_STATE_IDLE, dl_tx_seq_nr := DL_MAX_FRAME_NUM,
       dl_rx_seq_nr := DL_MAX_FRAME_NUM, dl_resynced := False, dl_error := False\<rparr>) ctx)
   }"

section \<open>Frames as byte strings\<close>

text \<open>A frame: control byte, length, payload and the CRC over all of them, its higher byte first.\<close>

definition dl_frame :: "byte \<Rightarrow> byte list \<Rightarrow> byte list" where
  "dl_frame fctr payload =
     (let n = (word_of_nat (length payload) :: u16);
          msg = [fctr, ucast (drop_bit 8 n), ucast n] @ payload;
          crc = crc_of 0 msg
      in msg @ [ucast (drop_bit 8 crc), ucast crc])"

lemma length_dl_frame [simp]: "length (dl_frame fctr payload) = length payload + 5"
  by (simp add: dl_frame_def Let_def)

lemma update_two: "n + 2 \<le> length xs \<Longrightarrow> xs[n := x, Suc n := y] = take n xs @ [x, y] @ drop (n + 2) xs"
proof (induction xs arbitrary: n)
  case (Cons a xs)
  then show ?case
    by (cases n; cases xs) auto
qed simp

lemma frame_written:
  assumes len: "length buf = 300" and n: "unat n \<le> 295"
  shows "do {
        buf \<leftarrow> wr buf 0 fctr;
        buf \<leftarrow> wr buf 1 (ucast (drop_bit 8 n));
        buf \<leftarrow> wr buf 2 (ucast n);
        crc \<leftarrow> ifx_i2c_dl_calc_crc buf (3 + n);
        buf \<leftarrow> wr buf (3 + unat n) (ucast (drop_bit 8 crc));
        buf \<leftarrow> wr buf (4 + unat n) (ucast crc);
        k buf
      } = k (dl_frame fctr (take (unat n) (drop 3 buf)) @ drop (unat n + 5) buf)"
proof -
  obtain a b c buf' where buf: "buf = a # b # c # buf'" and buf': "length buf' = 297"
  proof -
    have "length buf = Suc (Suc (Suc 297))"
      using len by simp
    then show ?thesis
      using that by (auto simp only: length_Suc_conv)
  qed
  define hi lo where "hi = (ucast (drop_bit 8 n) :: byte)" and "lo = (ucast n :: byte)"
  have u3: "unat (3 + n) = 3 + unat n"
    using n by (simp add: unat_word_ariths)
  define crc where "crc = crc_of 0 (fctr # hi # lo # take (unat n) buf')"
  have crc: "ifx_i2c_dl_calc_crc (fctr # hi # lo # buf') (3 + n) = Some crc"
    using n buf' u3 by (simp add: ifx_i2c_dl_calc_crc_def rd_bytes_def crc_def numeral_3_eq_3)
  have w: "(word_of_nat (min 297 (unat n)) :: u16) = n"
    using n by (simp add: min_def)
  have "do {
        buf \<leftarrow> wr buf 0 fctr;
        buf \<leftarrow> wr buf 1 hi;
        buf \<leftarrow> wr buf 2 lo;
        crc \<leftarrow> ifx_i2c_dl_calc_crc buf (3 + n);
        buf \<leftarrow> wr buf (3 + unat n) (ucast (drop_bit 8 crc));
        buf \<leftarrow> wr buf (4 + unat n) (ucast crc);
        k buf
      } = k ((fctr # hi # lo # buf')[3 + unat n := ucast (drop_bit 8 crc), 4 + unat n := ucast crc])"
    using n buf' crc by (simp add: buf numeral_2_eq_2)
  moreover have "drop (unat n + 5) buf = drop (Suc (Suc (unat n))) buf'" "drop 3 buf = buf'"
    by (simp_all add: buf numeral_eq_Suc)
  ultimately show ?thesis
    using n buf' by (simp add: update_two dl_frame_def Let_def w crc_def hi_def lo_def)
qed


section \<open>What the layer keeps\<close>

text \<open>
  The part of the context above this layer. The transmit buffer is not in it: the layer writes
  header and CRC around the payload.
\<close>

definition keeps_tl :: "ifx_i2c_context \<Rightarrow> ifx_i2c_context \<Rightarrow> bool" where
  "keeps_tl ctx ctx' \<longleftrightarrow>
     tl ctx' = tl ctx \<and> env ctx' = env ctx \<and> tl_up ctx' = tl_up ctx \<and>
     ifx_upper_handler ctx' = ifx_upper_handler ctx \<and> ifx_state ctx' = ifx_state ctx \<and>
     ifx_status ctx' = ifx_status ctx \<and> frame_size ctx' \<le> frame_size ctx"

text \<open>A data frame stands at the start of the buffer, \<open>n\<close> bytes long in all.\<close>

definition frame_accepted :: "byte list \<Rightarrow> nat \<Rightarrow> bool" where
  "frame_accepted buf n \<longleftrightarrow> (\<exists>fctr payload. payload \<noteq> [] \<and> bit fctr 7 = False \<and>
     n = length payload + 5 \<and> take n buf = dl_frame fctr payload)"

text \<open>What an event for the layer above carries.\<close>

definition dl_event_ok :: "byte list option \<Rightarrow> u16 \<Rightarrow> bool" where
  "dl_event_ok p_data data_len \<longleftrightarrow>
     (case p_data of None \<Rightarrow> data_len = 0
      | Some xs \<Rightarrow> 0 < unat data_len \<and> unat data_len \<le> 295 \<and> unat data_len \<le> length xs)"

definition dl_up_ok :: "dl_upcall option \<Rightarrow> bool" where
  "dl_up_ok u \<longleftrightarrow> (case u of None \<Rightarrow> True | Some (event, p_data, data_len) \<Rightarrow> dl_event_ok p_data data_len)"

definition dl_core :: "ifx_i2c_dl \<Rightarrow> bool" where
  "dl_core d \<longleftrightarrow> dl_tx_seq_nr d \<le> 3 \<and> dl_rx_seq_nr d \<le> 3 \<and> dl_retransmit_counter d \<le> DL_TRANS_REPEAT \<and>
     unat (dl_tx_buffer_size d) \<le> 295 \<and> unat (dl_rx_buffer_size d) \<le> DL_MAX_FRAME_SIZE"

definition dl_ok :: "ifx_i2c_context \<Rightarrow> bool" where
  "dl_ok ctx \<longleftrightarrow> pl_ok ctx \<and> dl_core (dl ctx) \<and> dl_up_ok (dl_up ctx) \<and>
     (dl_state (dl ctx) = DL_STATE_ACK \<longrightarrow> frame_accepted (rx_frame_buffer ctx) (unat (dl_rx_buffer_size (dl ctx))))"

text \<open>
  Only the acknowledgement of a frame hands data up; everything else leaves a pending event alone
  or replaces it by one without data.
\<close>

definition keeps_quiet :: "ifx_i2c_context \<Rightarrow> ifx_i2c_context \<Rightarrow> bool" where
  "keeps_quiet ctx ctx' \<longleftrightarrow> keeps_tl ctx ctx' \<and> (dl_up ctx' = dl_up ctx \<or> (\<exists>e. dl_up ctx' = Some (e, None, 0)))"

lemma keeps_tl_refl [simp]: "keeps_tl ctx ctx"
  by (simp add: keeps_tl_def)

lemma keeps_quiet_refl [simp]: "keeps_quiet ctx ctx"
  by (simp add: keeps_quiet_def)

lemma keeps_tl_trans: "keeps_tl a b \<Longrightarrow> keeps_tl b c \<Longrightarrow> keeps_tl a c"
  by (auto simp: keeps_tl_def intro: order_trans)

lemma keeps_quiet_trans: "keeps_quiet a b \<Longrightarrow> keeps_quiet b c \<Longrightarrow> keeps_quiet a c"
  by (auto simp: keeps_quiet_def intro: keeps_tl_trans)

lemma keeps_quiet_keeps: "keeps_quiet a b \<Longrightarrow> keeps_tl a b"
  by (simp add: keeps_quiet_def)

lemma same_above_keeps_quiet: "same_above ctx ctx' \<Longrightarrow> keeps_quiet ctx ctx'"
  by (simp add: same_above_def keeps_tl_def keeps_quiet_def)

lemma keeps_quiet_ops [simp]:
  "keeps_quiet c (dl_set f ctx) \<longleftrightarrow> keeps_quiet c ctx" "keeps_quiet c (set_dl_state s ctx) \<longleftrightarrow> keeps_quiet c ctx"
  "keeps_quiet c (set_frame r xs ctx) \<longleftrightarrow> keeps_quiet c ctx"
  "keeps_quiet c (ctx\<lparr>rx_frame_buffer := xs\<rparr>) \<longleftrightarrow> keeps_quiet c ctx"
  "keeps_quiet c ctx \<Longrightarrow> keeps_quiet c (dl_upcall e None 0 ctx)"
  by (simp_all add: keeps_quiet_def keeps_tl_def dl_set_def set_dl_state_def dl_upcall_def set_frame_def split: frame_ref.split)

lemma pl_ok_dl_ops [simp]:
  "pl_ok (dl_set f ctx) \<longleftrightarrow> pl_ok ctx" "pl_ok (set_dl_state s ctx) \<longleftrightarrow> pl_ok ctx"
  "pl_ok (dl_upcall e d l ctx) \<longleftrightarrow> pl_ok ctx"
  by (simp_all add: pl_ok_def dl_set_def set_dl_state_def dl_upcall_def)

lemma frame_of_dl_set [simp]: "frame_of r (dl_set f ctx) = frame_of r ctx" "frame_of r (set_dl_state s ctx) = frame_of r ctx"
  by (simp_all add: frame_of_def dl_set_def set_dl_state_def split: frame_ref.split)

lemma pl_ok_set_frame: "pl_ok ctx \<Longrightarrow> length xs = 300 \<Longrightarrow> pl_ok (set_frame r xs ctx)"
  by (simp add: pl_ok_def set_frame_def DL_MAX_FRAME_SIZE_def split: frame_ref.split)

lemma dl_frame_control_ctx:
  assumes "dl_frame_control ctx n s r = (b, fctr, ctx1)"
  shows "\<exists>f. ctx1 = dl_set f ctx" "b = (if s = DL_FCTR_SEQCTR_VALUE_RESYNC then RxFrame else TxFrame)"
proof -
  have id: "dl_set (\<lambda>d. d) ctx = ctx" "dl_set f (dl_set g ctx) = dl_set (\<lambda>d. f (g d)) ctx" for f g
    by (simp_all add: dl_set_def)
  show "\<exists>f. ctx1 = dl_set f ctx" "b = (if s = DL_FCTR_SEQCTR_VALUE_RESYNC then RxFrame else TxFrame)"
    using assms id(1) [symmetric] by (auto simp: dl_frame_control_def Let_def id(2) split: if_splits prod.splits)
qed

lemma send_internal_eq:
  assumes ok: "pl_ok ctx" and n: "unat n \<le> 295" and c: "dl_frame_control ctx n s r = (b, fctr, ctx1)"
  shows "ifx_i2c_dl_send_frame_internal ctx n s r =
    ifx_i2c_pl_send_frame (set_frame b (dl_frame fctr (take (unat n) (drop 3 (frame_of b ctx))) @ drop (unat n + 5) (frame_of b ctx)) ctx1)
      b (5 + n)"
proof -
  obtain f where f: "ctx1 = dl_set f ctx"
    using dl_frame_control_ctx(1) [OF c] by blast
  have len: "length (frame_of b ctx1) = 300"
    using pl_ok_lengths(5) [OF ok] by (simp add: f)
  show ?thesis
    unfolding ifx_i2c_dl_send_frame_internal_def c prod.case frame_written [OF len n] by (simp add: f)
qed


lemma and_3_le [simp]: "w AND DL_MAX_FRAME_NUM \<le> 3"
  using word_and_le1 [of w 3] by (simp add: DL_MAX_FRAME_NUM_def)

text \<open>Sending a frame: what it does to the part of the layer.\<close>

lemma dl_frame_control_empty: "dl_frame_control ctx 0 s r = (b, fctr, ctx1) \<Longrightarrow> ctx1 = ctx"
  by (auto simp: dl_frame_control_def Let_def split: if_splits prod.splits)

lemma dl_frame_control_dl:
  assumes "dl_frame_control ctx n s r = (b, fctr, ctx1)"
  shows "\<exists>q y. dl ctx1 = (dl ctx)\<lparr>dl_tx_seq_nr := q, dl_resynced := y\<rparr> \<and> (dl_tx_seq_nr (dl ctx) \<le> 3 \<longrightarrow> q \<le> 3)"
proof (cases "n = 0")
  case True
  then have "dl ctx1 = (dl ctx)\<lparr>dl_tx_seq_nr := dl_tx_seq_nr (dl ctx), dl_resynced := dl_resynced (dl ctx)\<rparr>"
    using dl_frame_control_empty [OF assms [unfolded True]] by simp
  then show ?thesis
    by blast
next
  case False
  define q where "q = (if \<not> r \<or> dl_resynced (dl ctx) then (dl_tx_seq_nr (dl ctx) + 1) AND DL_MAX_FRAME_NUM
    else dl_tx_seq_nr (dl ctx))"
  have "dl ctx1 = (dl ctx)\<lparr>dl_tx_seq_nr := q, dl_resynced := False\<rparr>"
    using assms False by (auto simp: dl_frame_control_def Let_def q_def split: if_splits prod.splits)
  moreover have "dl_tx_seq_nr (dl ctx) \<le> 3 \<longrightarrow> q \<le> 3"
    by (simp add: q_def)
  ultimately show ?thesis
    by blast
qed

text \<open>What a send leaves: only the sequence number and the resync flag can change.\<close>

definition dl_sent :: "ifx_i2c_context \<Rightarrow> byte \<Rightarrow> ifx_i2c_context \<Rightarrow> bool" where
  "dl_sent ctx s ctx' \<longleftrightarrow> pl_ok ctx' \<and> keeps_quiet ctx ctx' \<and> dl_up ctx' = dl_up ctx \<and>
     (s \<noteq> DL_FCTR_SEQCTR_VALUE_RESYNC \<longrightarrow> rx_frame_buffer ctx' = rx_frame_buffer ctx) \<and>
     (\<exists>q y. dl ctx' = (dl ctx)\<lparr>dl_tx_seq_nr := q, dl_resynced := y\<rparr> \<and> (dl_tx_seq_nr (dl ctx) \<le> 3 \<longrightarrow> q \<le> 3))"

lemma send_internal_runs:
  assumes ok: "pl_ok ctx" and n: "unat n \<le> 295"
  shows "\<exists>st ctx'. ifx_i2c_dl_send_frame_internal ctx n s r = Some (st, ctx') \<and> dl_sent ctx s ctx'"
proof -
  obtain b fctr ctx1 where c: "dl_frame_control ctx n s r = (b, fctr, ctx1)"
    by (metis prod_cases3)
  define xs where "xs = dl_frame fctr (take (unat n) (drop 3 (frame_of b ctx))) @ drop (unat n + 5) (frame_of b ctx)"
  have xs: "length xs = 300"
    using n pl_ok_lengths(5) [OF ok, of b] by (simp add: xs_def)
  obtain f where f: "ctx1 = dl_set f ctx"
    using dl_frame_control_ctx(1) [OF c] by blast
  have u: "unat (5 + n) \<le> DL_MAX_FRAME_SIZE"
    using n by (simp add: DL_MAX_FRAME_SIZE_def unat_word_ariths)
  have "pl_ok (set_frame b xs ctx1)"
    using ok xs by (simp add: f pl_ok_set_frame)
  then obtain st ctx' where r: "ifx_i2c_pl_send_frame (set_frame b xs ctx1) b (5 + n) = Some (st, ctx')"
      and ok': "pl_ok ctx'" and ab: "same_above (set_frame b xs ctx1) ctx'"
    using pl_send.runs u by blast
  have "keeps_quiet ctx (set_frame b xs ctx1)"
    by (simp add: f)
  then have "keeps_quiet ctx ctx'"
    using same_above_keeps_quiet [OF ab] by (rule keeps_quiet_trans)
  moreover have "dl ctx' = dl ctx1" "dl_up ctx' = dl_up ctx"
    using ab by (auto simp: same_above_def f set_frame_def dl_set_def split: frame_ref.splits)
  moreover have "s \<noteq> DL_FCTR_SEQCTR_VALUE_RESYNC \<longrightarrow> rx_frame_buffer ctx' = rx_frame_buffer ctx"
    using ab dl_frame_control_ctx(2) [OF c] by (auto simp: same_above_def f set_frame_def dl_set_def)
  ultimately have "dl_sent ctx s ctx'"
    using ok' dl_frame_control_dl(1) [OF c] by (simp add: dl_sent_def)
  then show ?thesis
    using send_internal_eq [OF ok n c] r by (simp add: xs_def)
qed


lemma dl_sent_ok:
  assumes "dl_sent ctx s ctx'" "dl_core (dl ctx)" "dl_up_ok (dl_up ctx)"
    "dl_state (dl ctx) = DL_STATE_ACK \<Longrightarrow> s \<noteq> DL_FCTR_SEQCTR_VALUE_RESYNC \<and>
       frame_accepted (rx_frame_buffer ctx) (unat (dl_rx_buffer_size (dl ctx)))"
  shows "dl_ok ctx'" "keeps_quiet ctx ctx'" "dl_state (dl ctx') = dl_state (dl ctx)"
    "dl_retransmit_counter (dl ctx') = dl_retransmit_counter (dl ctx)" "dl_rx_seq_nr (dl ctx') = dl_rx_seq_nr (dl ctx)"
    "dl_up ctx' = dl_up ctx"
  using assms by (auto simp: dl_sent_def dl_ok_def dl_core_def)

section \<open>A frame that passes the checks\<close>

lemma be16_at_Some:
  "be16_at buf i = Some v \<Longrightarrow> Suc i < length buf \<and> ucast (drop_bit 8 v) = buf ! i \<and> ucast v = buf ! Suc i"
  by (auto simp: be16_at_def rd_def bind_eq_Some_conv split: if_splits)
    (rule bit_word_eqI, auto simp: bit_simps dest: bit_imp_le_length)+

lemma three_bytes: "3 \<le> length xs \<Longrightarrow> \<exists>a b c r. xs = a # b # c # r"
  by (auto simp: numeral_3_eq_3 Suc_le_length_iff)

lemma parsed_frame:
  assumes parse: "dl_parse data n = Some (ft, lv)" and crc: "lv_crc_received lv = lv_crc_calculated lv"
    and n: "unat n = 5 + unat (lv_packet_len lv)" "unat n \<le> length data"
  shows "take (unat n) data = dl_frame (data ! 0) (take (unat (lv_packet_len lv)) (drop 3 data))"
proof -
  define m where "m = unat (lv_packet_len lv)"
  have len: "be16_at data 1 = Some (lv_packet_len lv)" and cr: "be16_at data (unat n - 2) = Some (lv_crc_received lv)"
    and cc: "ifx_i2c_dl_calc_crc data (n - 2) = Some (lv_crc_calculated lv)"
    using parse by (auto simp: dl_parse_def bind_eq_Some_conv)
  have n5: "5 \<le> unat n" "unat n = 5 + m"
    using n by (simp_all add: m_def)
  obtain a b c rest where d: "data = a # b # c # rest"
    using three_bytes [of data] n n5 by auto
  have rest: "m + 2 \<le> length rest"
    using n n5 by (simp add: d)
  have bc: "b = ucast (drop_bit 8 (lv_packet_len lv))" "c = ucast (lv_packet_len lv)"
    using be16_at_Some [OF len] by (simp_all add: d)
  have n2: "unat (n - 2) = 3 + m"
    using n5 by (simp add: unat_sub_if' split: if_splits)
  have "lv_crc_calculated lv = crc_of 0 (take (3 + m) data)"
    using cc n2 rest by (auto simp: ifx_i2c_dl_calc_crc_def rd_bytes_def split: if_splits)
  also have "take (3 + m) data = a # b # c # take m rest"
    by (simp add: d numeral_3_eq_3)
  finally have calc: "lv_crc_calculated lv = crc_of 0 (a # b # c # take m rest)" .
  have "ucast (drop_bit 8 (lv_crc_calculated lv)) = data ! (3 + m)" "ucast (lv_crc_calculated lv) = data ! (4 + m)"
    using be16_at_Some [OF cr] n5 crc by simp_all
  then have tail: "rest ! m = ucast (drop_bit 8 (lv_crc_calculated lv))" "rest ! Suc m = ucast (lv_crc_calculated lv)"
    by (simp_all add: d numeral_eq_Suc)
  have "take (m + 2) rest = take m rest @ [rest ! m, rest ! Suc m]"
    using rest by (simp add: take_Suc_conv_app_nth)
  then have "take (unat n) data = a # b # c # take m rest @ [rest ! m, rest ! Suc m]"
    using n5 by (simp add: d numeral_eq_Suc)
  moreover have "(word_of_nat (length (take m rest)) :: u16) = lv_packet_len lv"
    using rest by (simp add: m_def min_def)
  ultimately show ?thesis
    by (simp add: dl_frame_def Let_def d bc calc tail m_def [symmetric] numeral_3_eq_3)
qed


section \<open>The handler is safe\<close>

definition case_goes :: "ifx_i2c_context \<Rightarrow> dl_round \<Rightarrow> bool" where
  "case_goes c r \<longleftrightarrow> (\<exists>ctx' go. r = Some (ctx', go) \<and> dl_ok ctx' \<and> keeps_quiet c ctx' \<and>
     dl_state (dl ctx') \<notin> {DL_STATE_RX_DF, DL_STATE_RX_CF})"

lemma case_goes_Some [simp]: "case_goes c (Some (ctx', go)) \<longleftrightarrow>
    dl_ok ctx' \<and> keeps_quiet c ctx' \<and> dl_state (dl ctx') \<notin> {DL_STATE_RX_DF, DL_STATE_RX_CF}"
  by (auto simp: case_goes_def)

lemma dl_ok_state:
  "dl_ok ctx \<Longrightarrow> s \<noteq> DL_STATE_ACK \<Longrightarrow> dl_ok (set_dl_state s ctx)"
  by (auto simp: dl_ok_def dl_core_def set_dl_state_def dl_set_def pl_ok_def)

lemma dl_ok_set:
  "dl_ok ctx \<Longrightarrow> dl_core (f (dl ctx)) \<Longrightarrow> dl_state (f (dl ctx)) \<noteq> DL_STATE_ACK \<Longrightarrow> dl_ok (dl_set f ctx)"
  by (auto simp: dl_ok_def dl_set_def pl_ok_def)

lemma dl_ok_same_above: "dl_ok ctx \<Longrightarrow> pl_ok ctx' \<Longrightarrow> same_above ctx ctx' \<Longrightarrow> dl_ok ctx'"
  by (auto simp: dl_ok_def same_above_def)

lemma dl_ok_parts: "dl_ok ctx \<Longrightarrow> pl_ok ctx \<and> dl_core (dl ctx) \<and> dl_up_ok (dl_up ctx)"
  by (simp add: dl_ok_def)

text \<open>Sending from a state that is not the acknowledgement of a frame.\<close>

lemma case_goes_send:
  assumes "dl_ok ctx" "keeps_quiet c ctx" "unat n \<le> 295" "dl_state (dl ctx) \<notin> {DL_STATE_ACK, DL_STATE_RX_DF, DL_STATE_RX_CF}"
    and "\<And>st ctx'. dl_sent ctx s ctx' \<Longrightarrow> dl_ok ctx' \<Longrightarrow> keeps_quiet c ctx' \<Longrightarrow>
        dl_state (dl ctx') = dl_state (dl ctx) \<Longrightarrow> R (k (st, ctx'))"
  shows "R (Option.bind (ifx_i2c_dl_send_frame_internal ctx n s r) k)"
proof -
  obtain st ctx' where r: "ifx_i2c_dl_send_frame_internal ctx n s r = Some (st, ctx')" and sent: "dl_sent ctx s ctx'"
    using send_internal_runs assms(1,3) dl_ok_parts by blast
  have "dl_ok ctx'" "keeps_quiet ctx ctx'" "dl_state (dl ctx') = dl_state (dl ctx)"
    using dl_sent_ok [OF sent] dl_ok_parts [OF assms(1)] assms(4) by auto
  then show ?thesis
    using r assms(2,5) sent by (auto intro: keeps_quiet_trans)
qed

lemma case_goes_receive:
  assumes "dl_ok ctx" "keeps_quiet c ctx" "dl_state (dl ctx) = DL_STATE_RX"
    and "\<And>st ctx'. dl_ok ctx' \<Longrightarrow> keeps_quiet c ctx' \<Longrightarrow> dl_state (dl ctx') = DL_STATE_RX \<Longrightarrow> R (k (st, ctx'))"
  shows "R (Option.bind (ifx_i2c_pl_receive_frame ctx) k)"
proof -
  have "pl_ok ctx"
    using assms(1) dl_ok_parts by blast
  then obtain st ctx' where r: "ifx_i2c_pl_receive_frame ctx = Some (st, ctx')" and ok: "pl_ok ctx'" and ab: "same_above ctx ctx'"
    using pl_receive.runs by blast
  have "dl_state (dl ctx') = DL_STATE_RX"
    using ab assms(3) by (simp add: same_above_def)
  then show ?thesis
    using r assms(4) [OF dl_ok_same_above [OF assms(1) ok ab] keeps_quiet_trans [OF assms(2) same_above_keeps_quiet [OF ab]]] by simp
qed

lemma idle_case: "dl_ok ctx \<Longrightarrow> keeps_quiet c ctx \<Longrightarrow> dl_state (dl ctx) = DL_STATE_IDLE \<Longrightarrow> case_goes c (dl_case_idle event ctx)"
  by (auto simp: case_goes_def dl_case_idle_def dl_ok_def dl_up_ok_def dl_event_ok_def dl_upcall_def pl_ok_def keeps_quiet_def keeps_tl_def)

lemma tx_case:
  assumes ok: "dl_ok ctx" and k: "keeps_quiet c ctx"
  shows "case_goes c (dl_case_tx event ctx)"
proof (cases "event = STACK_ERROR")
  case False
  define ctx1 where "ctx1 = dl_set (\<lambda>d. d\<lparr>dl_frame_start_time := env_now (env ctx), dl_state := DL_STATE_RX\<rparr>) ctx"
  have "dl_ok ctx1" "keeps_quiet c ctx1" "dl_state (dl ctx1) = DL_STATE_RX"
    using ok k dl_ok_parts [OF ok] by (auto simp: ctx1_def dl_core_def intro!: dl_ok_set)
  then have "case_goes c (do { (status, ctx) \<leftarrow> ifx_i2c_pl_receive_frame ctx1;
      if status \<noteq> STACK_SUCCESS then Some (set_dl_state DL_STATE_NACK ctx, True) else Some (ctx, False) })"
    by (rule case_goes_receive) (simp add: dl_ok_state)
  then show ?thesis
    using False by (simp add: dl_case_tx_def ctx1_def)
qed (use assms in \<open>simp add: dl_case_tx_def dl_ok_state\<close>)

lemma discard_case: "dl_ok ctx \<Longrightarrow> keeps_quiet c ctx \<Longrightarrow> case_goes c (dl_case_discard ctx)"
  unfolding dl_case_discard_def
  by (rule case_goes_receive) (auto simp: dl_ok_state)

lemma nack_case: "dl_ok ctx \<Longrightarrow> keeps_quiet c ctx \<Longrightarrow> case_goes c (dl_case_nack ctx)"
  unfolding dl_case_nack_def
  by (rule case_goes_send) (auto simp: dl_ok_state)


lemma core_simps:
  "dl_core d \<Longrightarrow> dl_core (d\<lparr>dl_tx_seq_nr := DL_MAX_FRAME_NUM, dl_rx_seq_nr := DL_MAX_FRAME_NUM, dl_resynced := r, dl_state := s\<rparr>)"
  "dl_core d \<Longrightarrow> dl_core (d\<lparr>dl_state := s, dl_resynced := r, dl_tx_seq_nr := DL_MAX_FRAME_NUM, dl_rx_seq_nr := DL_MAX_FRAME_NUM\<rparr>)"
  "dl_core d \<Longrightarrow> dl_core (d\<lparr>dl_error := e\<rparr>)"
  "dl_core d \<Longrightarrow> dl_core (d\<lparr>dl_state := s, dl_error := e\<rparr>)"
  "dl_core d \<Longrightarrow> dl_core (d\<lparr>dl_retransmit_counter := 0\<rparr>)"
  by (simp_all add: dl_core_def DL_MAX_FRAME_NUM_def)

lemma resync_runs:
  assumes ok: "dl_ok ctx" and k: "keeps_quiet c ctx"
    and R: "\<And>st ctx'. dl_ok ctx' \<Longrightarrow> keeps_quiet c ctx' \<Longrightarrow> dl_state (dl ctx') = DL_STATE_RESEND \<Longrightarrow> R (f (st, ctx'))"
  shows "R (Option.bind (ifx_i2c_dl_resync ctx) f)"
  unfolding ifx_i2c_dl_resync_def
proof (rule case_goes_send)
  show "dl_ok (dl_set (\<lambda>d. d\<lparr>dl_tx_seq_nr := DL_MAX_FRAME_NUM, dl_rx_seq_nr := DL_MAX_FRAME_NUM, dl_resynced := True,
          dl_state := DL_STATE_RESEND\<rparr>) ctx)"
    using ok dl_ok_parts by (intro dl_ok_set) (auto intro: core_simps)
qed (use k R in auto)

lemma resend_case:
  assumes ok: "dl_ok ctx" and k: "keeps_quiet c ctx"
  shows "case_goes c (dl_case_resend ctx)"
proof (cases "env_now (env ctx) - tl_api_start_time (tl ctx) < TL_MAX_EXIT_TIMEOUT * 1000")
  case True
  define fin where "fin = (\<lambda>(st, ctx). Some (if st \<noteq> STACK_SUCCESS then set_dl_state DL_STATE_NACK ctx else ctx))"
  have fin: "case_goes c (Option.bind (fin (st, ctx')) (\<lambda>ctx. Some (ctx, dl_state (dl ctx) = DL_STATE_ERROR)))"
    if "dl_ok ctx'" "keeps_quiet c ctx'" "dl_state (dl ctx') \<notin> {DL_STATE_RX_DF, DL_STATE_RX_CF}" for st ctx'
    using that by (simp add: fin_def dl_ok_state)
  show ?thesis
  proof (cases "dl_retransmit_counter (dl ctx) = DL_TRANS_REPEAT")
    case rep: True
    define ctx1 where "ctx1 = dl_set (\<lambda>d. d\<lparr>dl_retransmit_counter := 0\<rparr>) ctx"
    have "dl_ok ctx1" "keeps_quiet c ctx1"
      using ok k by (simp_all add: ctx1_def) (auto simp: dl_ok_def dl_set_def pl_ok_def dl_core_def)
    then have "case_goes c (Option.bind (ifx_i2c_dl_resync ctx1)
        (\<lambda>r. Option.bind (fin r) (\<lambda>ctx. Some (ctx, dl_state (dl ctx) = DL_STATE_ERROR))))"
      by (rule resync_runs) (rule fin, auto)
    then show ?thesis
      using True rep by (simp add: dl_case_resend_def ifx_i2c_dl_resend_frame_def ctx1_def fin_def bind_map_out)
  next
    case rep: False
    define ctx1 where "ctx1 = dl_set (\<lambda>d. d\<lparr>dl_retransmit_counter := dl_retransmit_counter d + 1, dl_state := DL_STATE_TX\<rparr>) ctx"
    have "dl_retransmit_counter (dl ctx) < DL_TRANS_REPEAT"
      using rep ok by (simp add: dl_ok_def dl_core_def order_less_le)
    then have "dl_retransmit_counter (dl ctx) + 1 \<le> DL_TRANS_REPEAT"
      by (rule inc_le)
    then have ok1: "dl_ok ctx1" "keeps_quiet c ctx1" "dl_state (dl ctx1) = DL_STATE_TX"
      using ok k by (simp_all add: ctx1_def) (auto simp: dl_ok_def dl_set_def pl_ok_def dl_core_def)
    have size: "unat (dl_tx_buffer_size (dl ctx)) \<le> 295"
      using ok by (simp add: dl_ok_def dl_core_def)
    have "case_goes c (Option.bind (ifx_i2c_dl_send_frame_internal ctx1 (dl_tx_buffer_size (dl ctx)) DL_FCTR_SEQCTR_VALUE_ACK True)
        (\<lambda>r. Option.bind (fin r) (\<lambda>ctx. Some (ctx, dl_state (dl ctx) = DL_STATE_ERROR))))"
    proof (rule case_goes_send)
      fix st ctx'
      assume "dl_ok ctx'" "keeps_quiet c ctx'" "dl_state (dl ctx') = dl_state (dl ctx1)"
      then show "case_goes c (Option.bind (fin (st, ctx')) (\<lambda>ctx. Some (ctx, dl_state (dl ctx) = DL_STATE_ERROR)))"
        using ok1(3) by (intro fin) simp_all
    qed (use ok1 size in simp_all)
    then show ?thesis
      using True rep by (simp add: dl_case_resend_def ifx_i2c_dl_resend_frame_def ctx1_def fin_def bind_map_out)
  qed
qed (use assms in \<open>simp add: dl_case_resend_def ifx_i2c_dl_resend_frame_def dl_ok_state\<close>)


lemma error_case:
  assumes ok: "dl_ok ctx" and k: "keeps_quiet c ctx" and st: "dl_state (dl ctx) = DL_STATE_ERROR"
  shows "case_goes c (dl_case_error ctx)"
proof -
  define ctx1 where "ctx1 = (if \<not> dl_resynced (dl ctx) then dl_set (\<lambda>d. d\<lparr>dl_error := True\<rparr>) ctx else ctx)"
  have ok1: "dl_ok ctx1" "keeps_quiet c ctx1"
    using ok k st dl_ok_parts [OF ok] by (auto simp: ctx1_def core_simps intro!: dl_ok_set)
  show ?thesis
  proof (cases "dl_error (dl ctx1)")
    case True
    have "case_goes c (Option.bind (ifx_i2c_dl_resync ctx1)
        (\<lambda>(_, ctx). Some (dl_set (\<lambda>d. d\<lparr>dl_state := DL_STATE_ERROR, dl_error := False\<rparr>) ctx, False)))"
      using ok1
    proof (rule resync_runs)
      fix st ctx'
      assume "dl_ok ctx'" "keeps_quiet c ctx'"
      then show "case_goes c (case (st, ctx') of (_, ctx) \<Rightarrow>
          Some (dl_set (\<lambda>d. d\<lparr>dl_state := DL_STATE_ERROR, dl_error := False\<rparr>) ctx, False))"
        using dl_ok_parts [of ctx'] by (auto simp: core_simps intro!: dl_ok_set)
    qed
    then show ?thesis
      using True by (simp add: dl_case_error_def ctx1_def)
  next
    case False
    have "dl_ok (dl_upcall IFX_I2C_DL_EVENT_ERROR None 0 (set_dl_state DL_STATE_IDLE ctx1))"
      using dl_ok_state [OF ok1(1), of DL_STATE_IDLE]
      by (simp add: dl_ok_def dl_up_ok_def dl_event_ok_def dl_upcall_def pl_ok_def)
    then show ?thesis
      using False ok1 by (simp add: dl_case_error_def ctx1_def)
  qed
qed

lemma dl_upcall_ok:
  "dl_ok ctx \<Longrightarrow> dl_event_ok p n \<Longrightarrow> dl_ok (dl_upcall e p n ctx)"
  by (simp add: dl_ok_def dl_up_ok_def dl_upcall_def pl_ok_def)

lemma dl_event_ok_None [simp]: "dl_event_ok None 0"
  by (simp add: dl_event_ok_def)

lemma default_case: "dl_ok ctx \<Longrightarrow> keeps_quiet c ctx \<Longrightarrow> case_goes c (dl_case_default ctx)"
  by (simp add: dl_case_default_def dl_upcall_ok dl_ok_state)

text \<open>The payload of an accepted frame is what the layer above gets.\<close>

lemma accepted_payload:
  assumes "frame_accepted buf (unat n)" and "unat n \<le> DL_MAX_FRAME_SIZE" "length buf = 300"
  shows "\<exists>fctr payload. take (unat n) buf = dl_frame fctr payload \<and> unat (n - 5) = length payload \<and>
    take (unat (n - 5)) (drop 3 buf) = payload \<and> dl_event_ok (Some (drop 3 buf)) (n - 5)"
proof -
  obtain fctr payload where p: "payload \<noteq> []" "unat n = length payload + 5" "take (unat n) buf = dl_frame fctr payload"
    using assms by (auto simp: frame_accepted_def)
  have n5: "unat (n - 5) = length payload"
    using p(2) by (simp add: unat_sub_if' split: if_splits)
  have "take (unat (n - 5)) (drop 3 buf) = take (length payload) (drop 3 (take (unat n) buf))"
    using n5 p(2) by (simp add: drop_take)
  also have "\<dots> = payload"
    by (simp add: p(3) dl_frame_def Let_def numeral_3_eq_3)
  finally show ?thesis
    using p n5 assms(2,3) by (auto simp: dl_event_ok_def DL_MAX_FRAME_SIZE_def)
qed

lemma dl_up_dl_upcall [simp]: "dl_up (dl_upcall e p n ctx) = Some (e, p, n)"
  by (simp add: dl_upcall_def)

lemma ack_case:
  assumes ok: "dl_ok ctx" and k: "keeps_tl c ctx" and st: "dl_state (dl ctx) = DL_STATE_ACK" and ev: "event \<noteq> STACK_ERROR"
  shows "\<exists>ctx' e. dl_case_ack event ctx = Some (ctx', False) \<and> dl_ok ctx' \<and> keeps_tl c ctx' \<and>
    dl_state (dl ctx') = DL_STATE_IDLE \<and> e AND IFX_I2C_DL_EVENT_RX_SUCCESS \<noteq> 0 \<and>
    dl_up ctx' = Some (e, Some (drop 3 (rx_frame_buffer ctx)), dl_rx_buffer_size (dl ctx) - 5)"
proof -
  have "dl_event_ok (Some (drop 3 (rx_frame_buffer ctx))) (dl_rx_buffer_size (dl ctx) - 5)"
    using accepted_payload ok st by (fastforce simp: dl_ok_def pl_ok_def dl_core_def DL_MAX_FRAME_SIZE_def)
  moreover have "rx_frame_buffer (set_dl_state DL_STATE_IDLE ctx) = rx_frame_buffer ctx"
    by (simp add: set_dl_state_def dl_set_def)
  moreover have "keeps_tl c (set_dl_state DL_STATE_IDLE ctx)" "keeps_tl c (dl_upcall e p n ctx') \<longleftrightarrow> keeps_tl c ctx'" for e p n ctx'
    using k by (simp_all add: keeps_tl_def set_dl_state_def dl_set_def dl_upcall_def)
  ultimately show ?thesis
    using ok ev by (auto simp: dl_case_ack_def Let_def dl_upcall_ok dl_ok_state dl_consts)
qed

lemma rx_cf_case:
  assumes ok: "dl_ok ctx" and k: "keeps_quiet c ctx"
  shows "case_goes c (dl_case_rx_cf n lv ctx)"
proof -
  have "dl_ok (dl_set (\<lambda>d. d\<lparr>dl_state := DL_STATE_DISCARD, dl_resynced := True, dl_tx_seq_nr := DL_MAX_FRAME_NUM,
          dl_rx_seq_nr := DL_MAX_FRAME_NUM\<rparr>) ctx)"
    using ok dl_ok_parts by (intro dl_ok_set) (auto simp: core_simps)
  then show ?thesis
    using assms by (simp add: dl_case_rx_cf_def dl_ok_state dl_upcall_ok)
qed


text \<open>In the state \<open>DL_STATE_RX_DF\<close> the locals are the fields of the received data frame.\<close>

definition lv_of_data_frame :: "byte list option \<Rightarrow> u16 \<Rightarrow> dl_locals \<Rightarrow> bool" where
  "lv_of_data_frame p_data n lv \<longleftrightarrow> (\<exists>data ft. p_data = Some data \<and> dl_parse data n = Some (ft, lv) \<and>
     ft \<noteq> DL_FCTR_VALUE_CONTROL_FRAME)"

lemma dl_parse_total:
  assumes "5 \<le> unat n" "unat n \<le> length data"
  shows "\<exists>ft lv. dl_parse data n = Some (ft, lv)"
proof -
  obtain v where v: "be16_at data 1 = Some v"
    using be16_at_total [of 1 data] assms by auto
  obtain w where w: "be16_at data (unat n - 2) = Some w"
  proof -
    have "unat n - 2 + 1 < length data"
      using assms by arith
    then show ?thesis
      using be16_at_total that by blast
  qed
  have "unat (n - 2) \<le> length data"
    using assms by (simp add: unat_sub_if' split: if_splits)
  then show ?thesis
    using v w assms by (auto simp: dl_parse_def ifx_i2c_dl_calc_crc_def rd_bytes_def rd_def)
qed

lemma rx_case:
  assumes ok: "dl_ok ctx" and k: "keeps_quiet c ctx" and ev: "pl_event_ok p_data n"
  shows "\<exists>lv' ctx' go. dl_case_rx event p_data n lv ctx = Some (lv', ctx', go) \<and> dl_ok ctx' \<and> keeps_quiet c ctx' \<and>
    (dl_state (dl ctx') = DL_STATE_RX_DF \<longrightarrow> lv_of_data_frame p_data n lv' \<and> go) \<and>
    (dl_state (dl ctx') = DL_STATE_RX_CF \<longrightarrow> go)"
proof (cases "event = STACK_ERROR \<or> unat n < DL_HEADER_SIZE")
  case True
  then show ?thesis
    using ok k by (auto simp: dl_case_rx_def dl_ok_state)
next
  case False
  then have n5: "5 \<le> unat n"
    by (simp add: DL_HEADER_SIZE_def)
  then obtain data where d: "p_data = Some data" "unat n \<le> length data"
    using ev by (cases p_data) (auto simp: pl_event_ok_def)
  obtain ft lv' where p: "dl_parse data n = Some (ft, lv')"
    using dl_parse_total [OF n5 d(2)] by blast
  have "dl_case_rx event p_data n lv ctx =
      Some (lv', set_dl_state (if ft = DL_FCTR_VALUE_CONTROL_FRAME then DL_STATE_RX_CF else DL_STATE_RX_DF) ctx, True)"
    using False p by (simp add: dl_case_rx_def d(1))
  then show ?thesis
    using ok k p d(1) by (auto simp: dl_ok_state lv_of_data_frame_def split: if_splits)
qed

lemma parsed_type:
  "dl_parse data n = Some (ft, lv) \<Longrightarrow> ft \<noteq> DL_FCTR_VALUE_CONTROL_FRAME \<Longrightarrow> \<not> bit (data ! 0) 7"
proof -
  assume p: "dl_parse data n = Some (ft, lv)" and ft: "ft \<noteq> DL_FCTR_VALUE_CONTROL_FRAME"
  have "ft = drop_bit 7 (data ! 0 AND DL_FCTR_FTYPE_MASK)"
    using p by (auto simp: dl_parse_def bind_eq_Some_conv rd_def split: if_splits)
  moreover have "drop_bit 7 (w AND DL_FCTR_FTYPE_MASK) = of_bool (bit w 7)" for w :: byte
  proof (rule bit_word_eqI)
    fix i
    have m: "bit DL_FCTR_FTYPE_MASK j \<longleftrightarrow> j = 7" for j
      using bit_exp_iff [where 'a = "8 word", of 7 j] by (auto simp: DL_FCTR_FTYPE_MASK_def)
    show "bit (drop_bit 7 (w AND DL_FCTR_FTYPE_MASK)) i \<longleftrightarrow> bit (of_bool (bit w 7)) i"
      by (auto simp: bit_drop_bit_eq bit_and_iff m bit_of_bool_iff)
  qed
  ultimately show "\<not> bit (data ! 0) 7"
    using ft by (cases "bit (data ! 0) 7") (simp_all add: DL_FCTR_VALUE_CONTROL_FRAME_def)
qed


lemma rx_df_case:
  assumes ok: "dl_ok ctx" and k: "keeps_quiet c ctx" and st: "dl_state (dl ctx) = DL_STATE_RX_DF"
    and lv: "lv_of_data_frame p_data n lv" and ev: "pl_event_ok p_data n"
  shows "case_goes c (dl_case_rx_df p_data n lv ctx)"
proof -
  obtain data ft where d: "p_data = Some data" and p: "dl_parse data n = Some (ft, lv)"
      and ft: "ft \<noteq> DL_FCTR_VALUE_CONTROL_FRAME"
    using lv by (auto simp: lv_of_data_frame_def)
  have len: "unat n \<le> length data" "unat n \<le> DL_MAX_FRAME_SIZE"
    using ev d by (simp_all add: pl_event_ok_def)
  define good where "good \<longleftrightarrow> lv_crc_received lv = lv_crc_calculated lv \<and> lv_packet_len lv \<noteq> 0 \<and>
    unat n = DL_HEADER_SIZE + unat (lv_packet_len lv)"
  define xs where "xs = take (unat n) data"
  have lxs: "length xs = unat n" "rd_bytes data (unat n) = Some xs"
    using len by (auto simp: xs_def rd_bytes_def)
  define buf where "buf = xs @ drop (unat n) (rx_frame_buffer ctx)"
  have rxl: "length (rx_frame_buffer ctx) = 300"
    using ok by (simp add: dl_ok_def pl_ok_def DL_MAX_FRAME_SIZE_def)
  have wr: "wr_bytes (rx_frame_buffer ctx) 0 xs = Some buf"
    using len rxl lxs(1) by (simp add: wr_bytes_def buf_def DL_MAX_FRAME_SIZE_def)
  have acc: "frame_accepted buf (unat n)" if "good"
  proof -
    let ?payload = "take (unat (lv_packet_len lv)) (drop 3 data)"
    have n: "unat n = 5 + unat (lv_packet_len lv)" "lv_packet_len lv \<noteq> 0"
      using that by (simp_all add: good_def DL_HEADER_SIZE_def)
    have pos: "0 < unat (lv_packet_len lv)"
      using n(2) by (simp add: unat_gt_0)
    have lp: "length ?payload = unat (lv_packet_len lv)"
      using n(1) len(1) by simp
    have "take (unat n) buf = dl_frame (data ! 0) ?payload"
      using parsed_frame [OF p _ n(1) len(1)] that lxs(1) by (simp add: good_def buf_def xs_def [symmetric])
    moreover have "?payload \<noteq> []"
      using lp pos by (metis length_greater_0_conv)
    ultimately show ?thesis
      using lp n(1) parsed_type [OF p ft] unfolding frame_accepted_def by (metis add.commute)
  qed
  define ctx1 where "ctx1 = dl_set (\<lambda>d. d\<lparr>dl_rx_buffer_size := n, dl_retransmit_counter := 0, dl_state := DL_STATE_ACK\<rparr>)
      ((dl_set (\<lambda>d. d\<lparr>dl_rx_seq_nr := (dl_rx_seq_nr d + 1) AND DL_MAX_FRAME_NUM\<rparr>) ctx)\<lparr>rx_frame_buffer := buf\<rparr>)"
  have lb: "length buf = DL_MAX_FRAME_SIZE"
    using len rxl lxs(1) by (simp add: buf_def DL_MAX_FRAME_SIZE_def)
  have ctx1: "dl_ok ctx1" "keeps_quiet c ctx1" "dl_state (dl ctx1) = DL_STATE_ACK" if good
    using ok k len lb acc [OF that] by (auto simp: ctx1_def dl_ok_def dl_core_def dl_set_def pl_ok_def keeps_quiet_def keeps_tl_def)
  have ack: "case_goes c (dl_accept_frame p_data n ctx)" if g: good
  proof -
    obtain s ctx2 where r: "ifx_i2c_dl_send_frame_internal ctx1 0 DL_FCTR_SEQCTR_VALUE_ACK False = Some (s, ctx2)"
        and sent: "dl_sent ctx1 DL_FCTR_SEQCTR_VALUE_ACK ctx2"
      using send_internal_runs [of ctx1 0 DL_FCTR_SEQCTR_VALUE_ACK False] dl_ok_parts [OF ctx1(1) [OF g]] by auto
    have "dl_ok ctx2" "keeps_quiet ctx1 ctx2" "dl_state (dl ctx2) = DL_STATE_ACK"
      using dl_sent_ok [OF sent] ctx1 [OF g] by (auto simp: dl_ok_def dl_consts)
    moreover have "dl_accept_frame p_data n ctx =
        (do { (_, ctx) \<leftarrow> ifx_i2c_dl_send_frame_internal ctx1 0 DL_FCTR_SEQCTR_VALUE_ACK False; Some (ctx, False) })"
      by (simp add: dl_accept_frame_def d lxs(2) wr dl_set_def ctx1_def)
    ultimately show ?thesis
      using r ctx1(2) [OF g] keeps_quiet_trans by simp
  qed
  have dup: "case_goes c (do {
        (_, ctx) \<leftarrow> ifx_i2c_dl_send_frame_internal (set_dl_state DL_STATE_DISCARD ctx) 0 DL_FCTR_SEQCTR_VALUE_ACK False;
        Some (ctx, False) })"
    by (rule case_goes_send) (use ok k in \<open>auto simp: dl_ok_state\<close>)
  show ?thesis
    using ok k ack dup by (auto simp: dl_case_rx_df_def good_def dl_ok_state)
qed


lemma handler_round_goes:
  assumes ok: "dl_ok ctx" and k: "keeps_quiet c ctx" and ev: "pl_event_ok p_data n"
    and lv: "dl_state (dl ctx) = DL_STATE_RX_DF \<Longrightarrow> lv_of_data_frame p_data n lv"
    and na: "dl_state (dl ctx) = DL_STATE_ACK \<Longrightarrow> event = FATAL_ERROR \<or> event = STACK_ERROR"
  shows "\<exists>lv' ctx' go. dl_handler_round event p_data n lv ctx = Some (lv', ctx', go) \<and> dl_ok ctx' \<and> keeps_quiet c ctx' \<and>
    (dl_state (dl ctx') = DL_STATE_RX_DF \<longrightarrow> lv_of_data_frame p_data n lv' \<and> go) \<and>
    (dl_state (dl ctx') = DL_STATE_RX_CF \<longrightarrow> go) \<and> (go \<longrightarrow> dl_state (dl ctx') \<noteq> DL_STATE_ACK)"
proof -
  define ctx1 where "ctx1 = (if event = FATAL_ERROR \<and> dl_state (dl ctx) \<noteq> DL_STATE_IDLE then set_dl_state DL_STATE_ERROR ctx else ctx)"
  have ok1: "dl_ok ctx1" "keeps_quiet c ctx1"
    using ok k by (auto simp: ctx1_def dl_ok_state)
  have lv1: "dl_state (dl ctx1) = DL_STATE_RX_DF \<Longrightarrow> lv_of_data_frame p_data n lv"
    using lv by (auto simp: ctx1_def split: if_splits)
  have na1: "dl_state (dl ctx1) = DL_STATE_ACK \<Longrightarrow> event = STACK_ERROR"
    using na by (auto simp: ctx1_def split: if_splits)
  have stop: "go \<Longrightarrow> dl_state (dl ctx') \<noteq> DL_STATE_ACK"
    if "dl_handler_round event p_data n lv ctx = Some (lv', ctx', go)" for lv' ctx' go
    using that by (auto simp: dl_handler_round_def dl_cases Let_def bind_eq_Some_conv split: dl_state.splits if_splits prod.splits)
  have keep: ?thesis if "case_goes c r"
      "dl_handler_round event p_data n lv ctx = map_option (\<lambda>r. (lv, r)) r" for r
    using that stop by (auto simp: case_goes_def)
  note round = dl_handler_round_def ctx1_def [symmetric] Let_def
  show ?thesis
  proof (cases "dl_state (dl ctx1)")
    case DL_STATE_RX
    then show ?thesis
      using rx_case [OF ok1 ev, of event lv] stop by (auto simp: round)
  next
    case DL_STATE_RX_DF
    then show ?thesis
      using rx_df_case [OF ok1 DL_STATE_RX_DF lv1 ev] by (intro keep) (simp_all add: round)
  next
    case DL_STATE_ACK
    then have e: "event = STACK_ERROR"
      by (rule na1)
    then have "ctx1 = ctx"
      by (simp add: ctx1_def)
    then show ?thesis
      using ok1 DL_STATE_ACK e by (intro keep [of "Some (set_dl_state DL_STATE_RESEND ctx, True)"])
        (simp_all add: dl_handler_round_def dl_case_ack_def dl_ok_state)
  qed (rule keep, (use ok1 in \<open>simp_all add: round idle_case tx_case rx_cf_case discard_case nack_case
    resend_case error_case default_case\<close>)[2])+
qed

lemma handler_loop_goes:
  "dl_ok ctx \<Longrightarrow> keeps_quiet c ctx \<Longrightarrow> pl_event_ok p_data n \<Longrightarrow>
   (dl_state (dl ctx) = DL_STATE_RX_DF \<Longrightarrow> lv_of_data_frame p_data n lv) \<Longrightarrow>
   (dl_state (dl ctx) = DL_STATE_ACK \<Longrightarrow> event = FATAL_ERROR \<or> event = STACK_ERROR) \<Longrightarrow>
   \<exists>ctx'. dl_handler_loop event p_data n lv ctx = Some ctx' \<and> dl_ok ctx' \<and> keeps_quiet c ctx' \<and>
     dl_state (dl ctx') \<notin> {DL_STATE_RX_DF, DL_STATE_RX_CF}"
proof (induction event p_data n lv ctx rule: dl_handler_loop.induct)
  case (1 event p_data n lv ctx)
  obtain lv' ctx' go where r: "dl_handler_round event p_data n lv ctx = Some (lv', ctx', go)" "dl_ok ctx'" "keeps_quiet c ctx'"
      "dl_state (dl ctx') = DL_STATE_RX_DF \<longrightarrow> lv_of_data_frame p_data n lv' \<and> go" "dl_state (dl ctx') = DL_STATE_RX_CF \<longrightarrow> go"
      "go \<longrightarrow> dl_state (dl ctx') \<noteq> DL_STATE_ACK"
    using handler_round_goes [OF 1(2-6)] by blast
  show ?case
    using r 1 by (subst dl_handler_loop.simps) auto
qed

text \<open>The handler called with an event of the physical layer, in any state it can be in between events.\<close>

definition dl_resting :: "ifx_i2c_context \<Rightarrow> bool" where
  "dl_resting ctx \<longleftrightarrow> dl_state (dl ctx) \<notin> {DL_STATE_RX_DF, DL_STATE_RX_CF}"

lemma handler_quiet:
  assumes "dl_ok ctx" "pl_event_ok p_data n" "dl_resting ctx"
    "dl_state (dl ctx) = DL_STATE_ACK \<Longrightarrow> event = FATAL_ERROR \<or> event = STACK_ERROR"
  shows "\<exists>ctx'. ifx_i2c_pl_event_handler ctx event p_data n = Some ctx' \<and> dl_ok ctx' \<and> keeps_quiet ctx ctx' \<and> dl_resting ctx'"
  using handler_loop_goes [of ctx ctx p_data n dl_locals_init event] assms
  by (simp add: ifx_i2c_pl_event_handler_def dl_resting_def)

lemma handler_delivers:
  assumes ok: "dl_ok ctx" and st: "dl_state (dl ctx) = DL_STATE_ACK" and ev: "event \<noteq> STACK_ERROR" "event \<noteq> FATAL_ERROR"
  shows "\<exists>ctx' e. ifx_i2c_pl_event_handler ctx event p_data n = Some ctx' \<and> dl_ok ctx' \<and> keeps_tl ctx ctx' \<and>
    dl_state (dl ctx') = DL_STATE_IDLE \<and> e AND IFX_I2C_DL_EVENT_RX_SUCCESS \<noteq> 0 \<and>
    dl_up ctx' = Some (e, Some (drop 3 (rx_frame_buffer ctx)), dl_rx_buffer_size (dl ctx) - 5)"
  using ack_case [OF ok keeps_tl_refl st ev(1)] ev st
  by (auto simp: ifx_i2c_pl_event_handler_def dl_handler_loop.simps [of _ _ _ _ ctx] dl_handler_round_def)


section \<open>The contract for the transport layer\<close>

lemma dl_send_goes:
  assumes ok: "dl_ok ctx" "dl_resting ctx" and n: "unat n \<le> 295"
  shows "\<exists>st ctx'. ifx_i2c_dl_send_frame ctx n = Some (st, ctx') \<and> (dl_ok ctx' \<and> dl_resting ctx') \<and> keeps_quiet ctx ctx'"
proof (cases "dl_state (dl ctx) \<noteq> DL_STATE_IDLE \<or> n = 0")
  case False
  define ctx1 where "ctx1 = dl_set (\<lambda>d. d\<lparr>dl_state := DL_STATE_TX, dl_retransmit_counter := 0, dl_action_rx_only := False,
           dl_tx_buffer_size := n, dl_data_poll_timeout := PL_TRANS_TIMEOUT_MS\<rparr>) ctx"
  have ok1: "dl_ok ctx1" "keeps_quiet ctx ctx1" "dl_state (dl ctx1) = DL_STATE_TX"
    using ok n dl_ok_parts [OF ok(1)] by (auto simp: ctx1_def dl_core_def intro!: dl_ok_set)
  obtain st ctx' where r: "ifx_i2c_dl_send_frame_internal ctx1 n DL_FCTR_SEQCTR_VALUE_ACK False = Some (st, ctx')"
      and sent: "dl_sent ctx1 DL_FCTR_SEQCTR_VALUE_ACK ctx'"
    using send_internal_runs [of ctx1 n DL_FCTR_SEQCTR_VALUE_ACK False] dl_ok_parts [OF ok1(1)] n by blast
  have s: "dl_ok ctx'" "keeps_quiet ctx1 ctx'" "dl_state (dl ctx') = DL_STATE_TX"
    using dl_sent_ok [OF sent] ok1 dl_ok_parts [OF ok1(1)] by auto
  then show ?thesis
    using r False keeps_quiet_trans [OF ok1(2) s(2)]
    by (simp add: ifx_i2c_dl_send_frame_def ctx1_def dl_resting_def)
qed (use ok in \<open>auto simp: ifx_i2c_dl_send_frame_def\<close>)

lemma dl_receive_goes:
  assumes ok: "dl_ok ctx" "dl_resting ctx"
  shows "\<exists>st ctx'. ifx_i2c_dl_receive_frame ctx = Some (st, ctx') \<and> (dl_ok ctx' \<and> dl_resting ctx') \<and> keeps_quiet ctx ctx'"
proof (cases "dl_state (dl ctx) \<noteq> DL_STATE_IDLE")
  case False
  define ctx1 where "ctx1 = dl_set (\<lambda>d. d\<lparr>dl_state := DL_STATE_RX, dl_retransmit_counter := 0, dl_action_rx_only := True,
           dl_frame_start_time := env_now (env ctx), dl_data_poll_timeout := TL_MAX_EXIT_TIMEOUT * 1000\<rparr>) ctx"
  have ok1: "dl_ok ctx1" "keeps_quiet ctx ctx1" "dl_state (dl ctx1) = DL_STATE_RX"
    using ok dl_ok_parts [OF ok(1)] by (auto simp: ctx1_def dl_core_def intro!: dl_ok_set)
  have "pl_ok ctx1"
    using ok1(1) dl_ok_parts by blast
  then obtain st ctx' where r: "ifx_i2c_pl_receive_frame ctx1 = Some (st, ctx')" and pl: "pl_ok ctx'" and ab: "same_above ctx1 ctx'"
    using pl_receive.runs by blast
  have "dl_ok ctx'" "dl_state (dl ctx') = DL_STATE_RX"
    using dl_ok_same_above [OF ok1(1) pl ab] ab ok1(3) by (auto simp: same_above_def)
  then show ?thesis
    using r False keeps_quiet_trans [OF ok1(2) same_above_keeps_quiet [OF ab]]
    by (simp add: ifx_i2c_dl_receive_frame_def ctx1_def dl_resting_def)
qed (use ok in \<open>auto simp: ifx_i2c_dl_receive_frame_def\<close>)

interpretation dl_send: layer_op "\<lambda>ctx. ifx_i2c_dl_send_frame ctx n" "unat n \<le> 295" "\<lambda>ctx. dl_ok ctx \<and> dl_resting ctx" keeps_quiet
  for n
  by unfold_locales (use dl_send_goes in blast, rule keeps_quiet_trans)

interpretation dl_receive: layer_op ifx_i2c_dl_receive_frame True "\<lambda>ctx. dl_ok ctx \<and> dl_resting ctx" keeps_quiet
  by unfold_locales (use dl_receive_goes in blast, rule keeps_quiet_trans)

section \<open>Frames on the wire\<close>

lemma parse_dl_frame:
  assumes f: "take (unat n) data = dl_frame fctr payload" and len: "unat n = length payload + 5" "unat n \<le> length data"
  shows "\<exists>c. dl_parse data n = Some (drop_bit 7 (fctr AND DL_FCTR_FTYPE_MASK),
      \<lparr>lv_seqctr = drop_bit 5 (fctr AND DL_FCTR_SEQCTR_MASK), lv_fr_nr = drop_bit 2 (fctr AND DL_FCTR_FRNR_MASK),
       lv_ack_nr = fctr AND DL_FCTR_ACKNR_MASK, lv_packet_len = word_of_nat (length payload),
       lv_crc_received = c, lv_crc_calculated = c\<rparr>)"
proof -
  define m where "m = length payload"
  define l where "l = (word_of_nat m :: u16)"
  define hd where "hd = [fctr, ucast (drop_bit 8 l), ucast l] @ payload"
  define c where "c = crc_of 0 hd"
  have lhd: "length hd = 3 + m"
    by (simp add: hd_def m_def)
  have d: "data = hd @ [ucast (drop_bit 8 c), ucast c] @ drop (unat n) data"
    using append_take_drop_id [of "unat n" data] f by (simp add: dl_frame_def Let_def hd_def c_def l_def m_def)
  have um: "unat n = m + 5"
    using len by (simp add: m_def)
  have n2: "unat (n - 2) = 3 + m"
    using um by (simp add: unat_sub_if' split: if_splits)
  have "rd data 0 = Some fctr"
    by (subst d) (simp add: rd_def hd_def)
  moreover have "be16_at data 1 = Some l"
    by (subst d) (simp add: be16_at_def rd_def hd_def)
  moreover have "be16_at data (unat n - 2) = Some c"
  proof -
    have "rd data (unat n - 2) = Some (ucast (drop_bit 8 c))" "rd data (unat n - 2 + 1) = Some (ucast c)"
      by (subst d, simp add: rd_def um lhd nth_append)+
    then show ?thesis
      by (simp add: be16_at_def)
  qed
  moreover have "ifx_i2c_dl_calc_crc data (n - 2) = Some c"
    unfolding ifx_i2c_dl_calc_crc_def n2
    by (subst d) (simp add: rd_bytes_def lhd c_def)
  ultimately show ?thesis
    by (simp add: dl_parse_def l_def m_def)
qed

end
