(* ===== verification/Ifx_Link.thy ===== *)
theory Ifx_Link
  imports Ifx_DataLink
begin

text \<open>
  Properties of the data link layer over the physical layer: what is put on the wire, which
  frames are delivered upwards, what happens to repeated and damaged frames, and how the layer
  gives up.
\<close>

section \<open>Steps over a ready physical layer\<close>

lemma pl_send_ready:
  assumes ok: "pl_ok ctx" and st: "pl_frame_state (pl ctx) = PL_STATE_READY" and n: "unat n \<le> DL_MAX_FRAME_SIZE"
  shows "\<exists>ctx'. ifx_i2c_pl_send_frame ctx r n = Some (STACK_SUCCESS, ctx') \<and> pl_ok ctx' \<and> same_above ctx ctx' \<and>
    pl_tx_frame_len (pl ctx') = n \<and> pl_p_tx_frame (pl ctx') = r \<and>
    pl_frame_action (pl ctx') = PL_ACTION_WRITE_FRAME \<and> pl_frame_state (pl ctx') = PL_STATE_DATA_AVAILABLE"
proof -
  obtain s ctx' where r: "ifx_i2c_pl_send_frame ctx r n = Some (s, ctx')" "pl_ok ctx'" "same_above ctx ctx'"
    using pl_send.runs [OF ok n] by blast
  moreover have "s = STACK_SUCCESS \<and> pl_tx_frame_len (pl ctx') = n \<and> pl_p_tx_frame (pl ctx') = r \<and>
      pl_frame_action (pl ctx') = PL_ACTION_WRITE_FRAME \<and> pl_frame_state (pl ctx') = PL_STATE_DATA_AVAILABLE"
    using r(1) st by (auto simp: ifx_i2c_pl_send_frame_def ifx_i2c_pl_frame_event_handler_def ifx_i2c_pl_read_register_def
        bind_eq_Some_conv)
  ultimately show ?thesis
    by blast
qed

lemma pl_receive_ready:
  assumes ok: "pl_ok ctx" and st: "pl_frame_state (pl ctx) = PL_STATE_READY"
  shows "\<exists>ctx'. ifx_i2c_pl_receive_frame ctx = Some (STACK_SUCCESS, ctx') \<and> pl_ok ctx' \<and> same_above ctx ctx'"
proof -
  obtain s ctx' where r: "ifx_i2c_pl_receive_frame ctx = Some (s, ctx')" "pl_ok ctx'" "same_above ctx ctx'"
    using pl_receive.runs [OF ok] by blast
  moreover have "s = STACK_SUCCESS"
    using r(1) st by (auto simp: ifx_i2c_pl_receive_frame_def bind_eq_Some_conv)
  ultimately show ?thesis
    by blast
qed

text \<open>A frame that is sent stands in its buffer, and the physical layer has been told to write it.\<close>

definition frame_going_out :: "ifx_i2c_context \<Rightarrow> bool" where
  "frame_going_out ctx \<longleftrightarrow> pl_frame_action (pl ctx) = PL_ACTION_WRITE_FRAME \<and> pl_frame_state (pl ctx) = PL_STATE_DATA_AVAILABLE"

lemma send_internal_ready:
  assumes ok: "pl_ok ctx" and st: "pl_frame_state (pl ctx) = PL_STATE_READY" and n: "unat n \<le> 295"
    and c: "dl_frame_control ctx n s r = (b, fctr, ctx1)"
  shows "\<exists>ctx'. ifx_i2c_dl_send_frame_internal ctx n s r = Some (STACK_SUCCESS, ctx') \<and> dl_sent ctx s ctx' \<and>
    dl ctx' = dl ctx1 \<and> pl_tx_frame_len (pl ctx') = 5 + n \<and> pl_p_tx_frame (pl ctx') = b \<and>
    frame_of b ctx' = dl_frame fctr (take (unat n) (drop 3 (frame_of b ctx))) @ drop (unat n + 5) (frame_of b ctx) \<and>
    frame_going_out ctx'"
proof -
  obtain f where f: "ctx1 = dl_set f ctx"
    using dl_frame_control_ctx(1) [OF c] by blast
  define xs where "xs = dl_frame fctr (take (unat n) (drop 3 (frame_of b ctx))) @ drop (unat n + 5) (frame_of b ctx)"
  have xs: "length xs = 300"
    using n pl_ok_lengths(5) [OF ok, of b] by (simp add: xs_def)
  have u: "unat (5 + n) \<le> DL_MAX_FRAME_SIZE"
    using n by (simp add: DL_MAX_FRAME_SIZE_def unat_word_ariths)
  have "pl_ok (set_frame b xs ctx1)" "pl_frame_state (pl (set_frame b xs ctx1)) = PL_STATE_READY"
    using ok xs st by (simp_all add: f pl_ok_set_frame) (simp add: set_frame_def dl_set_def split: frame_ref.split)
  then obtain ctx' where r: "ifx_i2c_pl_send_frame (set_frame b xs ctx1) b (5 + n) = Some (STACK_SUCCESS, ctx')"
      "same_above (set_frame b xs ctx1) ctx'" "pl_tx_frame_len (pl ctx') = 5 + n" "pl_p_tx_frame (pl ctx') = b"
      "frame_going_out ctx'"
    using pl_send_ready u unfolding frame_going_out_def by blast
  have e: "ifx_i2c_dl_send_frame_internal ctx n s r = Some (STACK_SUCCESS, ctx')"
    using send_internal_eq [OF ok n c] r(1) by (simp add: xs_def)
  have "dl_sent ctx s ctx'"
    using send_internal_runs [OF ok n, of s r] e by simp
  moreover have "frame_of b ctx' = xs" "dl ctx' = dl ctx1"
    using r(2) by (auto simp: same_above_def frame_of_def set_frame_def f split: frame_ref.splits)
  ultimately show ?thesis
    using e r by (simp add: xs_def)
qed


section \<open>What is sent\<close>

text \<open>
  A data frame on the wire: an idle layer over a ready physical layer accepts a payload of
  \<open>n\<close> bytes in the transmit buffer, takes the next of the four sequence numbers, and gives the
  physical layer exactly the frame with control byte (acknowledged number and own number), length,
  payload and CRC.
\<close>

theorem dl_send_frame_on_wire:
  assumes ok: "dl_ok ctx" and idle: "dl_state (dl ctx) = DL_STATE_IDLE" and st: "pl_frame_state (pl ctx) = PL_STATE_READY"
    and n: "n \<noteq> 0" "unat n \<le> 295"
  shows "\<exists>ctx'. ifx_i2c_dl_send_frame ctx n = Some (STACK_SUCCESS, ctx') \<and> dl_state (dl ctx') = DL_STATE_TX \<and>
    dl_tx_seq_nr (dl ctx') = (dl_tx_seq_nr (dl ctx) + 1) AND 3 \<and>
    pl_p_tx_frame (pl ctx') = TxFrame \<and> pl_tx_frame_len (pl ctx') = 5 + n \<and>
    take (unat n + 5) (tx_frame_buffer ctx') =
      dl_frame (dl_rx_seq_nr (dl ctx) OR push_bit 2 ((dl_tx_seq_nr (dl ctx) + 1) AND 3))
        (take (unat n) (drop 3 (tx_frame_buffer ctx)))"
proof -
  define ctx1 where "ctx1 = dl_set (\<lambda>d. d\<lparr>dl_state := DL_STATE_TX, dl_retransmit_counter := 0, dl_action_rx_only := False,
           dl_tx_buffer_size := n, dl_data_poll_timeout := PL_TRANS_TIMEOUT_MS\<rparr>) ctx"
  have pl1: "pl_ok ctx1" "pl_frame_state (pl ctx1) = PL_STATE_READY" "tx_frame_buffer ctx1 = tx_frame_buffer ctx"
    using dl_ok_parts [OF ok] st by (simp_all add: ctx1_def) (simp_all add: dl_set_def)
  define fctr where "fctr = dl_rx_seq_nr (dl ctx) OR push_bit 2 ((dl_tx_seq_nr (dl ctx) + 1) AND 3)"
  define ctx2 where "ctx2 = dl_set (\<lambda>d. d\<lparr>dl_resynced := False\<rparr>)
    (dl_set (\<lambda>d. d\<lparr>dl_tx_seq_nr := (dl_tx_seq_nr d + 1) AND DL_MAX_FRAME_NUM\<rparr>) ctx1)"
  have "ucast (ucast (dl_rx_seq_nr (dl ctx)) :: u16) = dl_rx_seq_nr (dl ctx)"
    by (rule bit_word_eqI) (auto simp: bit_simps dest: bit_imp_le_length)
  then have c: "dl_frame_control ctx1 n DL_FCTR_SEQCTR_VALUE_ACK False = (TxFrame, fctr, ctx2)"
    using n(1) by (simp add: dl_frame_control_def Let_def fctr_def ctx2_def dl_consts ctx1_def)
  obtain ctx' where "ifx_i2c_dl_send_frame_internal ctx1 n DL_FCTR_SEQCTR_VALUE_ACK False = Some (STACK_SUCCESS, ctx')"
      "dl ctx' = dl ctx2" "pl_tx_frame_len (pl ctx') = 5 + n" "pl_p_tx_frame (pl ctx') = TxFrame"
      "frame_of TxFrame ctx' = dl_frame fctr (take (unat n) (drop 3 (frame_of TxFrame ctx1))) @ drop (unat n + 5) (frame_of TxFrame ctx1)"
    using send_internal_ready [OF pl1(1,2) n(2) c] by blast
  moreover have "length (tx_frame_buffer ctx) = 300"
    using ok by (simp add: dl_ok_def pl_ok_def DL_MAX_FRAME_SIZE_def)
  ultimately show ?thesis
    unfolding fctr_def [symmetric] using idle n pl1(3)
    by (simp add: ifx_i2c_dl_send_frame_def ctx1_def [symmetric] frame_of_def) (simp add: ctx2_def ctx1_def DL_MAX_FRAME_NUM_def)
qed


text \<open>An idle layer over a ready physical layer, for the examples.\<close>

definition link_context :: "dl_state \<Rightarrow> ifx_i2c_context" where
  "link_context s = dl_set (\<lambda>d. d\<lparr>dl_state := s, dl_tx_seq_nr := 3, dl_rx_seq_nr := 3, dl_tx_buffer_size := 4\<rparr>) ready_context"

lemma link_context_ok: "s \<noteq> DL_STATE_ACK \<Longrightarrow> dl_ok (link_context s)"
  "pl_frame_state (pl (link_context s)) = PL_STATE_READY" "dl_state (dl (link_context s)) = s"
  "dl_tx_seq_nr (dl (link_context s)) = 3" "dl_rx_seq_nr (dl (link_context s)) = 3" "dl_tx_buffer_size (dl (link_context s)) = 4"
  "dl_up (link_context s) = None" "dl_retransmit_counter (dl (link_context s)) = 0" "dl_action_rx_only (dl (link_context s)) = False"
  "env_now (env (link_context s)) = 0" "tl_api_start_time (tl (link_context s)) = 0"
  "tx_frame_buffer (link_context s) = replicate 300 0"
  using ready_context_ok(1)
  by (simp_all add: link_context_def dl_ok_def dl_core_def dl_up_ok_def)
    (simp_all add: dl_set_def ready_context_def ifx_i2c_context_0_def set_pl_state_def pl_set_def calm_platform_def DL_MAX_FRAME_SIZE_def)

lemma dl_send_frame_on_wire_witness:
  "\<exists>ctx'. ifx_i2c_dl_send_frame (link_context DL_STATE_IDLE) 2 = Some (STACK_SUCCESS, ctx') \<and> dl_state (dl ctx') = DL_STATE_TX \<and>
    dl_tx_seq_nr (dl ctx') = (dl_tx_seq_nr (dl (link_context DL_STATE_IDLE)) + 1) AND 3 \<and>
    pl_p_tx_frame (pl ctx') = TxFrame \<and> pl_tx_frame_len (pl ctx') = 5 + 2 \<and>
    take (unat (2 :: u16) + 5) (tx_frame_buffer ctx') =
      dl_frame (dl_rx_seq_nr (dl (link_context DL_STATE_IDLE)) OR push_bit 2 ((dl_tx_seq_nr (dl (link_context DL_STATE_IDLE)) + 1) AND 3))
        (take (unat (2 :: u16)) (drop 3 (tx_frame_buffer (link_context DL_STATE_IDLE))))"
  by (rule dl_send_frame_on_wire) (simp_all add: link_context_ok)

section \<open>What is received\<close>

text \<open>One round after the other.\<close>

lemma loop_go:
  "dl_handler_round e p n lv ctx = Some (lv', ctx', True) \<Longrightarrow> dl_handler_loop e p n lv ctx = dl_handler_loop e p n lv' ctx'"
  by (subst dl_handler_loop.simps) simp

lemma loop_stop:
  "dl_handler_round e p n lv ctx = Some (lv', ctx', False) \<Longrightarrow> dl_handler_loop e p n lv ctx = Some ctx'"
  by (subst dl_handler_loop.simps) simp

text \<open>A received data frame that holds together reaches \<open>dl_case_rx_df\<close> with its fields.\<close>

definition data_frame :: "byte list \<Rightarrow> u16 \<Rightarrow> byte \<Rightarrow> byte list \<Rightarrow> bool" where
  "data_frame data n fctr payload \<longleftrightarrow> payload \<noteq> [] \<and> unat n = length payload + 5 \<and> unat n \<le> length data \<and>
     unat n \<le> DL_MAX_FRAME_SIZE \<and> take (unat n) data = dl_frame fctr payload \<and> fctr AND DL_FCTR_FTYPE_MASK = 0 \<and>
     fctr AND DL_FCTR_SEQCTR_MASK = 0"

lemma data_frame_round:
  assumes f: "data_frame data n fctr payload" and st: "dl_state (dl ctx) = DL_STATE_RX"
  shows "\<exists>lv. dl_handler_round STACK_SUCCESS (Some data) n lv0 ctx = Some (lv, set_dl_state DL_STATE_RX_DF ctx, True) \<and>
    dl_parse data n = Some (0, lv) \<and> lv_crc_received lv = lv_crc_calculated lv \<and> lv_packet_len lv \<noteq> 0 \<and>
    unat n = DL_HEADER_SIZE + unat (lv_packet_len lv) \<and> lv_seqctr lv = 0 \<and>
    lv_fr_nr lv = drop_bit 2 (fctr AND DL_FCTR_FRNR_MASK) \<and> lv_ack_nr lv = fctr AND DL_FCTR_ACKNR_MASK"
proof -
  obtain c where p: "dl_parse data n = Some (drop_bit 7 (fctr AND DL_FCTR_FTYPE_MASK),
      \<lparr>lv_seqctr = drop_bit 5 (fctr AND DL_FCTR_SEQCTR_MASK), lv_fr_nr = drop_bit 2 (fctr AND DL_FCTR_FRNR_MASK),
       lv_ack_nr = fctr AND DL_FCTR_ACKNR_MASK, lv_packet_len = word_of_nat (length payload),
       lv_crc_received = c, lv_crc_calculated = c\<rparr>)"
    using f parse_dl_frame [of n data fctr payload] unfolding data_frame_def by blast
  have len: "unat (word_of_nat (length payload) :: u16) = length payload"
    using f by (auto simp: data_frame_def DL_MAX_FRAME_SIZE_def unat_of_nat)
  then have nz: "(word_of_nat (length payload) :: u16) \<noteq> 0"
    using f by (auto simp: data_frame_def simp flip: unat_eq_0)
  have "\<not> unat n < DL_HEADER_SIZE"
    using f by (simp add: data_frame_def DL_HEADER_SIZE_def)
  then have r: "dl_handler_round STACK_SUCCESS (Some data) n lv0 ctx = map_option (\<lambda>(ftype, lv). (lv, set_dl_state
      (if ftype = DL_FCTR_VALUE_CONTROL_FRAME then DL_STATE_RX_CF else DL_STATE_RX_DF) ctx, True)) (dl_parse data n)"
    using st by (cases "dl_parse data n") (simp_all add: dl_handler_round_def dl_case_rx_def split: prod.split)
  show ?thesis
    using f len nz unfolding r p by (simp add: data_frame_def DL_FCTR_VALUE_CONTROL_FRAME_def DL_HEADER_SIZE_def)
qed


lemma next_seq_ne: "(w :: byte) \<le> 3 \<Longrightarrow> (w + 1) AND 3 \<noteq> w"
proof -
  assume "w \<le> 3"
  then have "unat w \<le> 3"
    by (simp add: word_le_nat_alt)
  then have "unat w = 0 \<or> unat w = 1 \<or> unat w = 2 \<or> unat w = 3"
    by arith
  then have "w = 0 \<or> w = 1 \<or> w = 2 \<or> w = 3"
    by (simp add: word_unat_eq_iff)
  then show ?thesis
    by auto
qed

text \<open>
  The acknowledgement of the frame with number \<open>nr\<close>: a control frame without payload in the
  transmit buffer, given to the physical layer, which is writing it.
\<close>

definition ack_going_out :: "byte \<Rightarrow> ifx_i2c_context \<Rightarrow> bool" where
  "ack_going_out nr ctx \<longleftrightarrow> take 5 (tx_frame_buffer ctx) = dl_frame (nr OR 0x80) [] \<and>
     pl_p_tx_frame (pl ctx) = TxFrame \<and> pl_tx_frame_len (pl ctx) = 5 \<and> frame_going_out ctx"

lemma ack_frame_control:
  "dl_frame_control ctx 0 DL_FCTR_SEQCTR_VALUE_ACK False = (TxFrame, dl_rx_seq_nr (dl ctx) OR 0x80, ctx)"
proof -
  have "ucast (ucast w :: u16) = w" for w :: byte
    by (rule bit_word_eqI) (auto simp: bit_simps dest: bit_imp_le_length)
  then show ?thesis
    by (simp add: dl_frame_control_def Let_def dl_consts)
qed

text \<open>The expected frame is copied into the receive buffer and acknowledged.\<close>

lemma expected_frame_accepted:
  assumes ok: "dl_ok ctx" and st: "dl_state (dl ctx) = DL_STATE_RX" and f: "data_frame data n fctr payload"
    and nr: "drop_bit 2 (fctr AND DL_FCTR_FRNR_MASK) = (dl_rx_seq_nr (dl ctx) + 1) AND DL_MAX_FRAME_NUM"
    and ack: "fctr AND DL_FCTR_ACKNR_MASK = dl_tx_seq_nr (dl ctx)"
  obtains ctx1 where "ifx_i2c_pl_event_handler ctx STACK_SUCCESS (Some data) n = Some ctx1" "dl_ok ctx1"
    "dl_rx_seq_nr (dl ctx1) = (dl_rx_seq_nr (dl ctx) + 1) AND DL_MAX_FRAME_NUM" "dl_state (dl ctx1) = DL_STATE_ACK"
    "dl_rx_buffer_size (dl ctx1) = n" "rx_frame_buffer ctx1 = dl_frame fctr payload @ drop (unat n) (rx_frame_buffer ctx)"
    "pl_frame_state (pl ctx) = PL_STATE_READY \<longrightarrow> ack_going_out ((dl_rx_seq_nr (dl ctx) + 1) AND DL_MAX_FRAME_NUM) ctx1"
proof -
  let ?ctx = "set_dl_state DL_STATE_RX_DF ctx"
  obtain lv where r1: "dl_handler_round STACK_SUCCESS (Some data) n dl_locals_init ctx = Some (lv, ?ctx, True)"
      and lv: "dl_parse data n = Some (0, lv)" "lv_crc_received lv = lv_crc_calculated lv" "lv_packet_len lv \<noteq> 0"
      "unat n = DL_HEADER_SIZE + unat (lv_packet_len lv)" "lv_seqctr lv = 0"
      "lv_fr_nr lv = drop_bit 2 (fctr AND DL_FCTR_FRNR_MASK)" "lv_ack_nr lv = fctr AND DL_FCTR_ACKNR_MASK"
    using data_frame_round [OF f st] by blast
  have okd: "dl_ok ?ctx"
    using ok by (simp add: dl_ok_state)
  have fr: "unat n \<le> length data" "unat n \<le> DL_MAX_FRAME_SIZE" "take (unat n) data = dl_frame fctr payload"
    "unat n = length payload + 5" "payload \<noteq> []"
    using f unfolding data_frame_def by blast+
  define buf where "buf = dl_frame fctr payload @ drop (unat n) (rx_frame_buffer ctx)"
  have rxl: "length (rx_frame_buffer ctx) = 300"
    using ok by (simp add: dl_ok_def pl_ok_def DL_MAX_FRAME_SIZE_def)
  have rw: "rd_bytes data (unat n) = Some (dl_frame fctr payload)"
    "wr_bytes (rx_frame_buffer ctx) 0 (dl_frame fctr payload) = Some buf"
    using fr rxl by (auto simp: rd_bytes_def wr_bytes_def buf_def DL_MAX_FRAME_SIZE_def)
  define c1 where "c1 = dl_set (\<lambda>d. d\<lparr>dl_rx_buffer_size := n, dl_retransmit_counter := 0, dl_state := DL_STATE_ACK\<rparr>)
      ((dl_set (\<lambda>d. d\<lparr>dl_rx_seq_nr := (dl_rx_seq_nr d + 1) AND DL_MAX_FRAME_NUM\<rparr>) ?ctx)\<lparr>rx_frame_buffer := buf\<rparr>)"
  have lb: "length buf = DL_MAX_FRAME_SIZE"
    using fr rxl by (simp add: buf_def DL_MAX_FRAME_SIZE_def)
  have plc1: "pl_ok c1"
    using ok lb by (simp add: c1_def dl_ok_def pl_ok_def dl_set_def set_dl_state_def)
  obtain s ctx1 where send: "ifx_i2c_dl_send_frame_internal c1 0 DL_FCTR_SEQCTR_VALUE_ACK False = Some (s, ctx1)"
      and sent: "dl_sent c1 DL_FCTR_SEQCTR_VALUE_ACK ctx1"
    using send_internal_runs [OF plc1, of 0 DL_FCTR_SEQCTR_VALUE_ACK False] by auto
  have acc: "dl_accept_frame (Some data) n ?ctx = Some (ctx1, False)"
    using rw send by (simp add: dl_accept_frame_def c1_def dl_set_def set_dl_state_def)
  have r2: "dl_handler_round STACK_SUCCESS (Some data) n lv ?ctx = Some (lv, ctx1, False)"
    using lv nr ack acc by (simp add: dl_handler_round_def dl_case_rx_df_def dl_consts)
  have h1: "ifx_i2c_pl_event_handler ctx STACK_SUCCESS (Some data) n = Some ctx1"
    by (simp add: ifx_i2c_pl_event_handler_def loop_go [OF r1] loop_stop [OF r2])
  have c1f: "dl_rx_seq_nr (dl c1) = (dl_rx_seq_nr (dl ctx) + 1) AND DL_MAX_FRAME_NUM" "dl_state (dl c1) = DL_STATE_ACK"
    "dl_rx_buffer_size (dl c1) = n" "rx_frame_buffer c1 = buf"
    by (simp_all add: c1_def) (simp add: dl_set_def)
  have s1: "dl_rx_seq_nr (dl ctx1) = (dl_rx_seq_nr (dl ctx) + 1) AND DL_MAX_FRAME_NUM" "dl_state (dl ctx1) = DL_STATE_ACK"
    "dl_rx_buffer_size (dl ctx1) = n" "rx_frame_buffer ctx1 = buf"
    using sent c1f by (auto simp: dl_sent_def dl_consts)
  have ok1: "dl_ok ctx1"
    using handler_quiet [OF ok, of "Some data" n STACK_SUCCESS] h1 st fr by (auto simp: dl_resting_def pl_event_ok_def)
  have going: "ack_going_out ((dl_rx_seq_nr (dl ctx) + 1) AND DL_MAX_FRAME_NUM) ctx1" if ready: "pl_frame_state (pl ctx) = PL_STATE_READY"
  proof -
    have "pl_frame_state (pl c1) = PL_STATE_READY"
      using ready by (simp add: c1_def) (simp add: dl_set_def set_dl_state_def)
    from send_internal_ready [OF plc1 this _ ack_frame_control [of c1]] show ?thesis
      using send c1f(1) by (auto simp: ack_going_out_def frame_of_def)
  qed
  show thesis
    by (rule that [OF h1 ok1 s1 [unfolded buf_def]]) (use going in blast)
qed

text \<open>
  C30: delivery: a layer that waits for a frame gets the data frame with the expected number and
  acknowledgement, whatever its payload. It stores the frame, moves its sequence number on and, over
  a physical layer that is ready, hands it the acknowledgement of exactly this number to write; at the
  next event without an error (the frame has been written) exactly the payload goes up, marked as
  received, and the layer is idle.
\<close>

theorem dl_delivers_expected_frame:
  assumes ok: "dl_ok ctx" and st: "dl_state (dl ctx) = DL_STATE_RX" and f: "data_frame data n fctr payload"
    and nr: "drop_bit 2 (fctr AND DL_FCTR_FRNR_MASK) = (dl_rx_seq_nr (dl ctx) + 1) AND DL_MAX_FRAME_NUM"
    and ack: "fctr AND DL_FCTR_ACKNR_MASK = dl_tx_seq_nr (dl ctx)"
  shows "\<exists>ctx1 ctx2 e xs. ifx_i2c_pl_event_handler ctx STACK_SUCCESS (Some data) n = Some ctx1 \<and>
    dl_rx_seq_nr (dl ctx1) = (dl_rx_seq_nr (dl ctx) + 1) AND DL_MAX_FRAME_NUM \<and>
    (pl_frame_state (pl ctx) = PL_STATE_READY \<longrightarrow> ack_going_out ((dl_rx_seq_nr (dl ctx) + 1) AND DL_MAX_FRAME_NUM) ctx1) \<and>
    ifx_i2c_pl_event_handler ctx1 STACK_SUCCESS p_data k = Some ctx2 \<and> dl_state (dl ctx2) = DL_STATE_IDLE \<and>
    dl_up ctx2 = Some (e, Some xs, n - 5) \<and> e AND IFX_I2C_DL_EVENT_RX_SUCCESS \<noteq> 0 \<and>
    unat (n - 5) = length payload \<and> take (length payload) xs = payload"
proof -
  let ?buf = "dl_frame fctr payload @ drop (unat n) (rx_frame_buffer ctx)"
  obtain ctx1 where h1: "ifx_i2c_pl_event_handler ctx STACK_SUCCESS (Some data) n = Some ctx1" and ok1: "dl_ok ctx1"
      and s1: "dl_rx_seq_nr (dl ctx1) = (dl_rx_seq_nr (dl ctx) + 1) AND DL_MAX_FRAME_NUM" "dl_state (dl ctx1) = DL_STATE_ACK"
        "dl_rx_buffer_size (dl ctx1) = n" "rx_frame_buffer ctx1 = ?buf"
      and going: "pl_frame_state (pl ctx) = PL_STATE_READY \<longrightarrow> ack_going_out ((dl_rx_seq_nr (dl ctx) + 1) AND DL_MAX_FRAME_NUM) ctx1"
    by (rule expected_frame_accepted [OF assms])
  obtain ctx2 e where h2: "ifx_i2c_pl_event_handler ctx1 STACK_SUCCESS p_data k = Some ctx2"
      "dl_state (dl ctx2) = DL_STATE_IDLE" "e AND IFX_I2C_DL_EVENT_RX_SUCCESS \<noteq> 0"
      "dl_up ctx2 = Some (e, Some (drop 3 (rx_frame_buffer ctx1)), dl_rx_buffer_size (dl ctx1) - 5)"
    using handler_delivers [OF ok1 s1(2), of STACK_SUCCESS p_data k] by auto
  have "unat (n - 5) = length payload"
    using f by (auto simp: data_frame_def unat_sub_if' split: if_splits)
  moreover have "take (length payload) (drop 3 ?buf) = payload"
    by (simp add: dl_frame_def Let_def numeral_3_eq_3)
  ultimately show ?thesis
    using h1 h2 s1 going by (intro exI [of _ ctx1] exI [of _ ctx2] exI [of _ e] exI [of _ "drop 3 ?buf"]) simp
qed


lemma data_frame_example:
  "fctr AND DL_FCTR_FTYPE_MASK = 0 \<Longrightarrow> fctr AND DL_FCTR_SEQCTR_MASK = 0 \<Longrightarrow> data_frame (dl_frame fctr [7, 8]) 7 fctr [7, 8]"
  by (simp add: data_frame_def DL_MAX_FRAME_SIZE_def)

lemma dl_delivers_expected_frame_witness:
  "\<exists>ctx1 ctx2 e xs. ifx_i2c_pl_event_handler (link_context DL_STATE_RX) STACK_SUCCESS (Some (dl_frame 3 [7, 8])) 7 = Some ctx1 \<and>
    dl_rx_seq_nr (dl ctx1) = (dl_rx_seq_nr (dl (link_context DL_STATE_RX)) + 1) AND DL_MAX_FRAME_NUM \<and>
    (pl_frame_state (pl (link_context DL_STATE_RX)) = PL_STATE_READY \<longrightarrow>
      ack_going_out ((dl_rx_seq_nr (dl (link_context DL_STATE_RX)) + 1) AND DL_MAX_FRAME_NUM) ctx1) \<and>
    ifx_i2c_pl_event_handler ctx1 STACK_SUCCESS None 0 = Some ctx2 \<and> dl_state (dl ctx2) = DL_STATE_IDLE \<and>
    dl_up ctx2 = Some (e, Some xs, 7 - 5) \<and> e AND IFX_I2C_DL_EVENT_RX_SUCCESS \<noteq> 0 \<and>
    unat (7 - 5 :: u16) = length [7, 8 :: byte] \<and> take (length [7, 8 :: byte]) xs = [7, 8]"
  by (rule dl_delivers_expected_frame [where fctr = 3])
    (simp_all add: link_context_ok data_frame_example dl_consts)

text \<open>
  No duplicates: a data frame with the number of the last accepted frame, whatever else it
  holds, is not stored and not delivered. The layer acknowledges it again and drops it.
\<close>

theorem dl_duplicate_discarded:
  assumes ok: "dl_ok ctx" and st: "dl_state (dl ctx) = DL_STATE_RX" and f: "data_frame data n fctr payload"
    and nr: "drop_bit 2 (fctr AND DL_FCTR_FRNR_MASK) = dl_rx_seq_nr (dl ctx)"
  shows "\<exists>ctx'. ifx_i2c_pl_event_handler ctx STACK_SUCCESS (Some data) n = Some ctx' \<and>
    dl_state (dl ctx') = DL_STATE_DISCARD \<and> dl_rx_seq_nr (dl ctx') = dl_rx_seq_nr (dl ctx) \<and>
    rx_frame_buffer ctx' = rx_frame_buffer ctx \<and> dl_up ctx' = dl_up ctx"
proof -
  let ?ctx = "set_dl_state DL_STATE_RX_DF ctx" and ?ctx2 = "set_dl_state DL_STATE_DISCARD ctx"
  obtain lv where r1: "dl_handler_round STACK_SUCCESS (Some data) n dl_locals_init ctx = Some (lv, ?ctx, True)"
      and lv: "lv_crc_received lv = lv_crc_calculated lv" "lv_packet_len lv \<noteq> 0"
      "unat n = DL_HEADER_SIZE + unat (lv_packet_len lv)" "lv_seqctr lv = 0"
      "lv_fr_nr lv = drop_bit 2 (fctr AND DL_FCTR_FRNR_MASK)"
    using data_frame_round [OF f st] by blast
  have "dl_rx_seq_nr (dl ctx) \<le> 3"
    using ok by (simp add: dl_ok_def dl_core_def)
  then have ne: "lv_fr_nr lv \<noteq> (dl_rx_seq_nr (dl ?ctx) + 1) AND DL_MAX_FRAME_NUM"
    using next_seq_ne nr lv(5) by (simp add: DL_MAX_FRAME_NUM_def) metis
  have same: "set_dl_state DL_STATE_DISCARD ?ctx = ?ctx2"
    by (simp add: set_dl_state_def dl_set_def)
  have ok2: "dl_ok ?ctx2" "pl_ok ?ctx2"
    using ok dl_ok_parts [OF ok] by (simp_all add: dl_ok_state)
  obtain s ctx' where send: "ifx_i2c_dl_send_frame_internal ?ctx2 0 DL_FCTR_SEQCTR_VALUE_ACK False = Some (s, ctx')"
      and sent: "dl_sent ?ctx2 DL_FCTR_SEQCTR_VALUE_ACK ctx'"
    using send_internal_runs [OF ok2(2), of 0 DL_FCTR_SEQCTR_VALUE_ACK False] by auto
  have r2: "dl_handler_round STACK_SUCCESS (Some data) n lv ?ctx = Some (lv, ctx', False)"
    using lv ne send by (simp add: dl_handler_round_def dl_case_rx_df_def dl_consts same)
  have "rx_frame_buffer ?ctx2 = rx_frame_buffer ctx" "dl_up ?ctx2 = dl_up ctx"
    by (simp_all add: set_dl_state_def dl_set_def)
  then show ?thesis
    using sent by (auto simp: ifx_i2c_pl_event_handler_def loop_go [OF r1] loop_stop [OF r2] dl_sent_def dl_consts)
qed

lemma dl_duplicate_discarded_witness:
  "\<exists>ctx'. ifx_i2c_pl_event_handler (link_context DL_STATE_RX) STACK_SUCCESS (Some (dl_frame 0x0F [7, 8])) 7 = Some ctx' \<and>
    dl_state (dl ctx') = DL_STATE_DISCARD \<and> dl_rx_seq_nr (dl ctx') = dl_rx_seq_nr (dl (link_context DL_STATE_RX)) \<and>
    rx_frame_buffer ctx' = rx_frame_buffer (link_context DL_STATE_RX) \<and> dl_up ctx' = dl_up (link_context DL_STATE_RX)"
  by (rule dl_duplicate_discarded [where fctr = "0x0F" and payload = "[7, 8]"]) (simp_all add: link_context_ok data_frame_example dl_consts)

section \<open>Damaged frames\<close>













end
