(* ===== verification/Ifx_Recovery.thy ===== *)
theory Ifx_Recovery
  imports Ifx_Link
begin

text \<open>
  How the data link layer (\<open>ifx_i2c_data_link_layer.c\<close>) recovers: the frame it asks to be
  repeated, the frame it repeats itself, and how it gives up when the exit timeout has passed.
\<close>

section \<open>Retransmission\<close>

text \<open>
  While the exit timeout has not passed, a failed transmission is repeated from the buffer as the
  buffer is now.
\<close>

definition in_time :: "ifx_i2c_context \<Rightarrow> bool" where
  "in_time ctx \<longleftrightarrow> env_now (env ctx) - tl_api_start_time (tl ctx) < TL_MAX_EXIT_TIMEOUT * 1000"

lemma dl_up_set [simp]: "dl_up (dl_set f ctx) = dl_up ctx" "dl_up (set_dl_state s ctx) = dl_up ctx"
  "env (dl_set f ctx) = env ctx" "env (set_dl_state s ctx) = env ctx"
  "tl (dl_set f ctx) = tl ctx" "tl (set_dl_state s ctx) = tl ctx"
  "pl (dl_set f ctx) = pl ctx" "pl (set_dl_state s ctx) = pl ctx"
  by (simp_all add: dl_set_def set_dl_state_def)

lemma resend_from_buffer:
  assumes ok: "dl_ok ctx" and st: "dl_state (dl ctx) = DL_STATE_TX" and ready: "pl_frame_state (pl ctx) = PL_STATE_READY"
    and t: "in_time ctx" and r: "dl_retransmit_counter (dl ctx) < DL_TRANS_REPEAT" and n: "dl_tx_buffer_size (dl ctx) = n"
  shows "\<exists>ctx' fctr. ifx_i2c_pl_event_handler ctx STACK_ERROR None 0 = Some ctx' \<and> dl_state (dl ctx') = DL_STATE_TX \<and>
    dl_retransmit_counter (dl ctx') = dl_retransmit_counter (dl ctx) + 1 \<and>
    pl_p_tx_frame (pl ctx') = TxFrame \<and> pl_tx_frame_len (pl ctx') = 5 + n \<and>
    take (unat n + 5) (tx_frame_buffer ctx') = dl_frame fctr (take (unat n) (drop 3 (tx_frame_buffer ctx)))"
proof -
  define ctx1 where "ctx1 = dl_set (\<lambda>d. d\<lparr>dl_retransmit_counter := dl_retransmit_counter d + 1, dl_state := DL_STATE_TX\<rparr>)
    (set_dl_state DL_STATE_RESEND ctx)"
  have pl1: "pl_ok ctx1" "pl_frame_state (pl ctx1) = PL_STATE_READY"
    using dl_ok_parts [OF ok] ready by (simp_all add: ctx1_def)
  have n2: "unat n \<le> 295"
    using dl_ok_parts [OF ok] n by (simp add: dl_core_def)
  obtain b fctr ctx2 where c: "dl_frame_control ctx1 n DL_FCTR_SEQCTR_VALUE_ACK True = (b, fctr, ctx2)"
    by (metis prod_cases3)
  have b: "b = TxFrame"
    using dl_frame_control_ctx(2) [OF c] by (simp add: dl_consts)
  obtain ctx' where s: "ifx_i2c_dl_send_frame_internal ctx1 n DL_FCTR_SEQCTR_VALUE_ACK True = Some (STACK_SUCCESS, ctx')"
      "dl_sent ctx1 DL_FCTR_SEQCTR_VALUE_ACK ctx'" "pl_tx_frame_len (pl ctx') = 5 + n" "pl_p_tx_frame (pl ctx') = b"
      "frame_of b ctx' = dl_frame fctr (take (unat n) (drop 3 (frame_of b ctx1))) @ drop (unat n + 5) (frame_of b ctx1)"
    using send_internal_ready [OF pl1 n2 c] by blast
  have kept: "dl_state (dl ctx') = DL_STATE_TX" "dl_retransmit_counter (dl ctx') = dl_retransmit_counter (dl ctx) + 1"
    using s(2) by (auto simp: dl_sent_def ctx1_def)
  have resend: "ifx_i2c_dl_resend_frame (set_dl_state DL_STATE_RESEND ctx) DL_FCTR_SEQCTR_VALUE_ACK = Some ctx'"
    using s(1) t r n by (auto simp: ifx_i2c_dl_resend_frame_def ctx1_def in_time_def)
  have r1: "dl_handler_round STACK_ERROR None 0 dl_locals_init ctx = Some (dl_locals_init, set_dl_state DL_STATE_RESEND ctx, True)"
    using st by (simp add: dl_handler_round_def dl_case_tx_def)
  have r2: "dl_handler_round STACK_ERROR None 0 dl_locals_init (set_dl_state DL_STATE_RESEND ctx) = Some (dl_locals_init, ctx', False)"
    using resend kept by (simp add: dl_handler_round_def dl_case_resend_def)
  have "length (tx_frame_buffer ctx) = 300"
    using ok by (simp add: dl_ok_def pl_ok_def DL_MAX_FRAME_SIZE_def)
  then have "take (unat n + 5) (tx_frame_buffer ctx') = dl_frame fctr (take (unat n) (drop 3 (tx_frame_buffer ctx)))"
    using s(5) n2 b by (simp add: frame_of_def ctx1_def dl_set_def set_dl_state_def)
  then show ?thesis
    using loop_go [OF r1] loop_stop [OF r2] kept s(3,4) b by (auto simp: ifx_i2c_pl_event_handler_def)
qed

section \<open>Asking for a frame again\<close>

text \<open>The control byte of a negative acknowledgement.\<close>

definition nack_control :: "ifx_i2c_dl \<Rightarrow> byte" where
  "nack_control d = (((dl_rx_seq_nr d + 1) AND 3) OR 0x20) OR 0x80"

lemma nack_frame_control:
  "dl_frame_control ctx 0 DL_FCTR_SEQCTR_VALUE_NACK False = (TxFrame, nack_control (dl ctx), ctx)"
proof -
  have "ucast ((ucast w + 1) AND (3 :: u16)) = (w + 1) AND 3" for w :: byte
  proof -
    have "ucast (ucast w + 1 :: u16) = w + 1"
      using unsigned_less [of w, where 'a = nat]
      by (simp add: word_unat_eq_iff unsigned_ucast_eq unat_word_ariths take_bit_eq_mod mod_mod_cancel)
    then show ?thesis
      using unsigned_and_eq [of "ucast w + 1 :: u16" 3, where 'a = "8 word"] by simp
  qed
  then show ?thesis
    by (simp add: dl_frame_control_def Let_def dl_consts nack_control_def)
qed

lemma short_frame_nacked:
  assumes ok: "dl_ok ctx" and st: "dl_state (dl ctx) = DL_STATE_RX" and ready: "pl_frame_state (pl ctx) = PL_STATE_READY"
    and ev: "event \<noteq> STACK_ERROR" "event \<noteq> FATAL_ERROR" "unat n < DL_HEADER_SIZE"
  shows "\<exists>ctx'. ifx_i2c_pl_event_handler ctx event p_data n = Some ctx' \<and> dl ctx' = (dl ctx)\<lparr>dl_state := DL_STATE_TX\<rparr> \<and>
    tx_frame_buffer ctx' = dl_frame (nack_control (dl ctx)) [] @ drop 5 (tx_frame_buffer ctx)"
proof -
  define ctx1 where "ctx1 = set_dl_state DL_STATE_TX (set_dl_state DL_STATE_NACK ctx)"
  have pl1: "pl_ok ctx1" "pl_frame_state (pl ctx1) = PL_STATE_READY"
    using dl_ok_parts [OF ok] ready by (simp_all add: ctx1_def)
  obtain ctx' where s: "ifx_i2c_dl_send_frame_internal ctx1 0 DL_FCTR_SEQCTR_VALUE_NACK False = Some (STACK_SUCCESS, ctx')"
      "dl ctx' = dl ctx1"
      "frame_of TxFrame ctx' = dl_frame (nack_control (dl ctx1)) (take (unat (0::u16)) (drop 3 (frame_of TxFrame ctx1))) @
         drop (unat (0::u16) + 5) (frame_of TxFrame ctx1)"
    using send_internal_ready [OF pl1 _ nack_frame_control] by auto
  have r1: "dl_handler_round event p_data n dl_locals_init ctx = Some (dl_locals_init, set_dl_state DL_STATE_NACK ctx, True)"
    using st ev by (simp add: dl_handler_round_def dl_case_rx_def)
  have r2: "dl_handler_round event p_data n dl_locals_init (set_dl_state DL_STATE_NACK ctx) = Some (dl_locals_init, ctx', False)"
    using s(1) ev by (simp add: dl_handler_round_def dl_case_nack_def ctx1_def)
  have "tx_frame_buffer ctx' = dl_frame (nack_control (dl ctx)) [] @ drop 5 (tx_frame_buffer ctx)"
    using s(3) by (simp add: frame_of_def ctx1_def nack_control_def) (simp add: dl_set_def set_dl_state_def)
  then show ?thesis
    using loop_go [OF r1] loop_stop [OF r2] s(2) by (simp add: ifx_i2c_pl_event_handler_def ctx1_def)
qed

text \<open>
  A negative acknowledgement damages the frame that is kept for retransmission. When the answer
  to a data frame is too short, the layer asks for it again with a control frame built in the
  transmit buffer: its CRC lands on the first two payload bytes. If that transmission fails, whatever
  the physical layer did in between, the layer repeats the data frame with a valid CRC over the
  damaged payload: the first two bytes of the command are the CRC of the control frame.
\<close>

theorem dl_nack_damages_retransmission:
  assumes ok: "dl_ok ctx" "dl_state (dl ctx) = DL_STATE_RX" "pl_frame_state (pl ctx) = PL_STATE_READY"
    and r: "dl_retransmit_counter (dl ctx) < DL_TRANS_REPEAT" and n: "dl_tx_buffer_size (dl ctx) = n" "2 \<le> unat n"
    and ev: "event \<noteq> STACK_ERROR" "event \<noteq> FATAL_ERROR" "unat k < DL_HEADER_SIZE"
  shows "\<exists>ctx1. ifx_i2c_pl_event_handler ctx event p_data k = Some ctx1 \<and>
    (\<forall>ctx2. dl_ok ctx2 \<and> same_above ctx1 ctx2 \<and> pl_frame_state (pl ctx2) = PL_STATE_READY \<and> in_time ctx2 \<longrightarrow>
      (\<exists>ctx3 fctr. ifx_i2c_pl_event_handler ctx2 STACK_ERROR None 0 = Some ctx3 \<and>
        pl_p_tx_frame (pl ctx3) = TxFrame \<and> pl_tx_frame_len (pl ctx3) = 5 + n \<and>
        take (unat n + 5) (tx_frame_buffer ctx3) =
          dl_frame fctr (drop 3 (dl_frame (nack_control (dl ctx)) []) @
            drop 2 (take (unat n) (drop 3 (tx_frame_buffer ctx))))))"
proof -
  obtain ctx1 where c1: "ifx_i2c_pl_event_handler ctx event p_data k = Some ctx1"
      "dl ctx1 = (dl ctx)\<lparr>dl_state := DL_STATE_TX\<rparr>"
      "tx_frame_buffer ctx1 = dl_frame (nack_control (dl ctx)) [] @ drop 5 (tx_frame_buffer ctx)"
    using short_frame_nacked [OF ok ev] by blast
  let ?nack = "dl_frame (nack_control (dl ctx)) []"
  have "drop 3 (tx_frame_buffer ctx1) = drop 3 ?nack @ drop 5 (tx_frame_buffer ctx)"
    by (simp add: c1(3))
  moreover have "drop 2 (take (unat n) (drop 3 (tx_frame_buffer ctx))) = take (unat n - 2) (drop 5 (tx_frame_buffer ctx))"
    by (simp add: drop_take)
  ultimately have cut: "take (unat n) (drop 3 (tx_frame_buffer ctx1)) =
      drop 3 ?nack @ drop 2 (take (unat n) (drop 3 (tx_frame_buffer ctx)))"
    using n(2) by simp
  have "\<exists>ctx3 fctr. ifx_i2c_pl_event_handler ctx2 STACK_ERROR None 0 = Some ctx3 \<and>
        pl_p_tx_frame (pl ctx3) = TxFrame \<and> pl_tx_frame_len (pl ctx3) = 5 + n \<and>
        take (unat n + 5) (tx_frame_buffer ctx3) =
          dl_frame fctr (drop 3 ?nack @ drop 2 (take (unat n) (drop 3 (tx_frame_buffer ctx))))"
    if "dl_ok ctx2 \<and> same_above ctx1 ctx2 \<and> pl_frame_state (pl ctx2) = PL_STATE_READY \<and> in_time ctx2" for ctx2
  proof -
    have d: "dl ctx2 = (dl ctx)\<lparr>dl_state := DL_STATE_TX\<rparr>" "tx_frame_buffer ctx2 = tx_frame_buffer ctx1"
      using that c1(2) by (auto simp: same_above_def)
    show ?thesis
      using resend_from_buffer [of ctx2 n] that d r n(1) cut by auto
  qed
  then show ?thesis
    using c1(1) by blast
qed

lemma dl_nack_damages_retransmission_witness:
  "\<exists>ctx1. ifx_i2c_pl_event_handler (link_context DL_STATE_RX) STACK_SUCCESS (Some []) 0 = Some ctx1 \<and>
    (\<forall>ctx2. dl_ok ctx2 \<and> same_above ctx1 ctx2 \<and> pl_frame_state (pl ctx2) = PL_STATE_READY \<and> in_time ctx2 \<longrightarrow>
      (\<exists>ctx3 fctr. ifx_i2c_pl_event_handler ctx2 STACK_ERROR None 0 = Some ctx3 \<and>
        pl_p_tx_frame (pl ctx3) = TxFrame \<and> pl_tx_frame_len (pl ctx3) = 5 + 4 \<and>
        take (unat (4 :: u16) + 5) (tx_frame_buffer ctx3) =
          dl_frame fctr (drop 3 (dl_frame (nack_control (dl (link_context DL_STATE_RX))) []) @
            drop 2 (take (unat (4 :: u16)) (drop 3 (tx_frame_buffer (link_context DL_STATE_RX)))))))"
  by (rule dl_nack_damages_retransmission)
    (simp_all add: link_context_ok DL_TRANS_REPEAT_def DL_HEADER_SIZE_def)

section \<open>Giving up\<close>

text \<open>A transfer that began six seconds ago, for the example.\<close>

definition late_context :: ifx_i2c_context where
  "late_context = (link_context DL_STATE_TX)\<lparr>env := calm_platform\<lparr>env_now := 6000\<rparr>\<rparr>"

lemma late_context_ok: "dl_ok late_context" "dl_state (dl late_context) = DL_STATE_TX"
  "pl_frame_state (pl late_context) = PL_STATE_READY" "\<not> in_time late_context" "\<not> dl_resynced (dl late_context)"
  "\<not> dl_error (dl late_context)"
  using link_context_ok(1) [of DL_STATE_TX]
  by (simp_all add: late_context_def link_context_ok dl_ok_def pl_ok_def in_time_def TL_MAX_EXIT_TIMEOUT_def)
    (simp_all add: link_context_def ready_context_def ifx_i2c_context_0_def set_pl_state_def pl_set_def dl_set_def)

text \<open>After a resynchronisation the next event, whatever it is, reports the error.\<close>

lemma error_reported_next:
  assumes "dl_state (dl ctx) = DL_STATE_ERROR" "dl_resynced (dl ctx)" "\<not> dl_error (dl ctx)"
  shows "\<exists>ctx'. ifx_i2c_pl_event_handler ctx e p m = Some ctx' \<and>
    dl_state (dl ctx') = DL_STATE_IDLE \<and> dl_up ctx' = Some (IFX_I2C_DL_EVENT_ERROR, None, 0)"
proof -
  define ctxe where "ctxe = (if e = FATAL_ERROR then set_dl_state DL_STATE_ERROR ctx else ctx)"
  have "dl_handler_round e p m dl_locals_init ctx = Some (dl_locals_init,
      dl_upcall IFX_I2C_DL_EVENT_ERROR None 0 (set_dl_state DL_STATE_IDLE ctxe), False)"
    using assms by (cases "e = FATAL_ERROR") (simp_all add: dl_handler_round_def dl_case_error_def Let_def ctxe_def)
  then show ?thesis
    by (auto simp: ifx_i2c_pl_event_handler_def loop_stop)
qed

text \<open>Sending a control frame leaves the frame kept for retransmission alone when it is built in the other buffer.\<close>

lemma send_internal_keeps:
  assumes ok: "pl_ok ctx" and c: "dl_frame_control ctx 0 seqctr False = (RxFrame, fctr, ctx)"
    and s: "ifx_i2c_dl_send_frame_internal ctx 0 seqctr False = Some (st, ctx')"
  shows "dl ctx' = dl ctx" "tx_frame_buffer ctx' = tx_frame_buffer ctx"
proof -
  obtain xs where "ifx_i2c_pl_send_frame (set_frame RxFrame xs ctx) RxFrame 5 = Some (st, ctx')" "length xs = 300"
    using s send_internal_eq [OF ok _ c] pl_ok_lengths(5) [OF ok, of RxFrame] by simp
  then have "same_above (set_frame RxFrame xs ctx) ctx'"
    using pl_send.kept [of "set_frame RxFrame xs ctx" RxFrame 5] ok by (simp add: pl_ok_set_frame DL_MAX_FRAME_SIZE_def)
  then show "dl ctx' = dl ctx" "tx_frame_buffer ctx' = tx_frame_buffer ctx"
    by (simp_all add: same_above_def set_frame_def)
qed

text \<open>
  C38: when the exit timeout has passed, a failed transfer is not repeated, and at the latest the second
  event reports the error. A layer that has not resynchronised since its last data frame goes to rest
  in the error state without telling the layer above, and the next event of any kind makes it idle
  and reports the error; over a physical layer that is ready it has sent one resynchronisation
  frame (from the receive buffer, so the command survives). A layer that has already
  resynchronised reports the error at once and sends nothing (\<open>dl_error\<close>, set only within a round
  of the handler, is clear between two events).
\<close>

theorem dl_gives_up:
  assumes ok: "dl_ok ctx" and st: "dl_state (dl ctx) = DL_STATE_TX \<or> dl_state (dl ctx) = DL_STATE_RX"
    and late: "\<not> in_time ctx" and clear: "\<not> dl_error (dl ctx)"
  shows "\<exists>ctx1. ifx_i2c_pl_event_handler ctx STACK_ERROR p_data n = Some ctx1 \<and>
    (if dl_resynced (dl ctx)
     then dl_state (dl ctx1) = DL_STATE_IDLE \<and> dl_up ctx1 = Some (IFX_I2C_DL_EVENT_ERROR, None, 0) \<and>
       pl ctx1 = pl ctx \<and> trace ctx1 = trace ctx
     else dl_state (dl ctx1) = DL_STATE_ERROR \<and> dl_up ctx1 = dl_up ctx \<and>
       (pl_frame_state (pl ctx) = PL_STATE_READY \<longrightarrow> tx_frame_buffer ctx1 = tx_frame_buffer ctx \<and>
         pl_p_tx_frame (pl ctx1) = RxFrame \<and> pl_tx_frame_len (pl ctx1) = 5 \<and> frame_going_out ctx1 \<and>
         take 5 (rx_frame_buffer ctx1) = dl_frame 0xC0 []) \<and>
       (\<forall>ctx2 e p m. dl ctx2 = dl ctx1 \<longrightarrow> (\<exists>ctx3. ifx_i2c_pl_event_handler ctx2 e p m = Some ctx3 \<and>
          dl_state (dl ctx3) = DL_STATE_IDLE \<and> dl_up ctx3 = Some (IFX_I2C_DL_EVENT_ERROR, None, 0))))"
proof -
  let ?re = "set_dl_state DL_STATE_RESEND ctx" and ?er = "set_dl_state DL_STATE_ERROR (set_dl_state DL_STATE_RESEND ctx)"
  have r1: "dl_handler_round STACK_ERROR p_data n dl_locals_init ctx = Some (dl_locals_init, ?re, True)"
    using st by (auto simp: dl_handler_round_def dl_case_tx_def dl_case_rx_def)
  have r2: "dl_handler_round STACK_ERROR p_data n dl_locals_init ?re = Some (dl_locals_init, ?er, True)"
    using late by (simp add: dl_handler_round_def dl_case_resend_def ifx_i2c_dl_resend_frame_def in_time_def)
  note h = ifx_i2c_pl_event_handler_def loop_go [OF r1] loop_go [OF r2]
  show ?thesis
  proof (cases "dl_resynced (dl ctx)")
    case True
    have "dl_handler_round STACK_ERROR p_data n dl_locals_init ?er =
        Some (dl_locals_init, dl_upcall IFX_I2C_DL_EVENT_ERROR None 0 (set_dl_state DL_STATE_IDLE ?er), False)"
      using True clear by (simp add: dl_handler_round_def dl_case_error_def Let_def)
    then show ?thesis
      using True by (simp add: h loop_stop) (simp add: set_dl_state_def dl_set_def dl_upcall_def)
  next
    case rs: False
    define ctx0 where "ctx0 = dl_set (\<lambda>d. d\<lparr>dl_tx_seq_nr := DL_MAX_FRAME_NUM, dl_rx_seq_nr := DL_MAX_FRAME_NUM, dl_resynced := True,
        dl_state := DL_STATE_RESEND\<rparr>) (dl_set (\<lambda>d. d\<lparr>dl_error := True\<rparr>) ?er)"
    have pl0: "pl_ok ctx0" "pl_frame_state (pl ctx0) = pl_frame_state (pl ctx)"
      using dl_ok_parts [OF ok] by (simp_all add: ctx0_def)
    have c: "dl_frame_control ctx0 0 DL_FCTR_SEQCTR_VALUE_RESYNC False = (RxFrame, 0xC0, ctx0)"
      by (simp add: dl_frame_control_def dl_consts)
    obtain s ctx' where s: "ifx_i2c_dl_send_frame_internal ctx0 0 DL_FCTR_SEQCTR_VALUE_RESYNC False = Some (s, ctx')"
        "dl_sent ctx0 DL_FCTR_SEQCTR_VALUE_RESYNC ctx'"
      using send_internal_runs [OF pl0(1), of 0 DL_FCTR_SEQCTR_VALUE_RESYNC False] by auto
    define ctx1 where "ctx1 = dl_set (\<lambda>d. d\<lparr>dl_state := DL_STATE_ERROR, dl_error := False\<rparr>) ctx'"
    have "dl_handler_round STACK_ERROR p_data n dl_locals_init ?er = Some (dl_locals_init, ctx1, False)"
      using rs s(1) by (simp add: dl_handler_round_def dl_case_error_def ifx_i2c_dl_resync_def Let_def ctx0_def [symmetric] ctx1_def)
    then have h1: "ifx_i2c_pl_event_handler ctx STACK_ERROR p_data n = Some ctx1"
      by (simp add: h loop_stop)
    have "dl ctx' = dl ctx0"
      by (rule send_internal_keeps(1) [OF pl0(1) c s(1)])
    then have d: "dl_state (dl ctx1) = DL_STATE_ERROR" "dl_resynced (dl ctx1)" "\<not> dl_error (dl ctx1)" "dl_up ctx1 = dl_up ctx"
      using s(2) by (simp_all add: ctx1_def ctx0_def dl_sent_def)
    have "tx_frame_buffer ctx1 = tx_frame_buffer ctx \<and> pl_p_tx_frame (pl ctx1) = RxFrame \<and> pl_tx_frame_len (pl ctx1) = 5 \<and>
        frame_going_out ctx1 \<and> take 5 (rx_frame_buffer ctx1) = dl_frame 0xC0 []" if ready: "pl_frame_state (pl ctx) = PL_STATE_READY"
    proof -
      have s': "s = STACK_SUCCESS" "pl_tx_frame_len (pl ctx') = 5" "pl_p_tx_frame (pl ctx') = RxFrame" "frame_going_out ctx'"
          "take 5 (frame_of RxFrame ctx') = dl_frame 0xC0 []"
        using send_internal_ready [OF pl0(1) _ _ c] pl0(2) ready s(1) by auto
      moreover have "tx_frame_buffer ctx' = tx_frame_buffer ctx0"
        by (rule send_internal_keeps(2) [OF pl0(1) c s(1)])
      ultimately show ?thesis
        by (simp add: ctx1_def frame_of_def frame_going_out_def) (simp add: ctx0_def dl_set_def set_dl_state_def)
    qed
    then show ?thesis
      using h1 rs d error_reported_next by auto
  qed
qed

lemma dl_gives_up_witness:
  "\<exists>ctx1. ifx_i2c_pl_event_handler late_context STACK_ERROR None 0 = Some ctx1 \<and>
    (if dl_resynced (dl late_context)
     then dl_state (dl ctx1) = DL_STATE_IDLE \<and> dl_up ctx1 = Some (IFX_I2C_DL_EVENT_ERROR, None, 0) \<and>
       pl ctx1 = pl late_context \<and> trace ctx1 = trace late_context
     else dl_state (dl ctx1) = DL_STATE_ERROR \<and> dl_up ctx1 = dl_up late_context \<and>
       (pl_frame_state (pl late_context) = PL_STATE_READY \<longrightarrow> tx_frame_buffer ctx1 = tx_frame_buffer late_context \<and>
         pl_p_tx_frame (pl ctx1) = RxFrame \<and> pl_tx_frame_len (pl ctx1) = 5 \<and> frame_going_out ctx1 \<and>
         take 5 (rx_frame_buffer ctx1) = dl_frame 0xC0 []) \<and>
       (\<forall>ctx2 e p m. dl ctx2 = dl ctx1 \<longrightarrow> (\<exists>ctx3. ifx_i2c_pl_event_handler ctx2 e p m = Some ctx3 \<and>
          dl_state (dl ctx3) = DL_STATE_IDLE \<and> dl_up ctx3 = Some (IFX_I2C_DL_EVENT_ERROR, None, 0))))"
  by (rule dl_gives_up) (simp_all add: late_context_ok)

end
