(* ===== verification/Ifx_Transport.thy ===== *)
theory Ifx_Transport
  imports Ifx_Link
begin

text \<open>
  \<open>lib/optiga/comms/ifx_i2c/ifx_i2c_transport_layer.c\<close>: packets larger than a frame are cut into
  fragments with a chaining code and put together again; one repetition is allowed on a chaining
  error. The handler \<open>ifx_i2c_dl_event_handler\<close> is a loop over the states of the layer; each case
  of its \<open>switch\<close> is a definition.
\<close>

section \<open>Constants\<close>

definition TL_HEADER_SIZE :: nat where "TL_HEADER_SIZE = 1"
definition TL_CHAINING_NO :: byte where "TL_CHAINING_NO = 0"
definition TL_CHAINING_FIRST :: byte where "TL_CHAINING_FIRST = 1"
definition TL_CHAINING_INTERMEDIATE :: byte where "TL_CHAINING_INTERMEDIATE = 2"
definition TL_CHAINING_LAST :: byte where "TL_CHAINING_LAST = 4"
definition TL_CHAINING_ERROR :: byte where "TL_CHAINING_ERROR = 7"
definition TL_PCTR_CHANNEL_MASK :: byte where "TL_PCTR_CHANNEL_MASK = 0xF8"
definition TL_PCTR_CHAIN_MASK :: byte where "TL_PCTR_CHAIN_MASK = 0x07"

definition pctr_states_table :: "(byte \<times> byte) list" where
  "pctr_states_table =
    [(TL_CHAINING_NO, TL_CHAINING_LAST), (TL_CHAINING_NO, TL_CHAINING_LAST),
     (TL_CHAINING_FIRST, TL_CHAINING_INTERMEDIATE), (0xFF, 0xFF), (TL_CHAINING_FIRST, TL_CHAINING_INTERMEDIATE)]"

lemmas tl_consts = TL_HEADER_SIZE_def TL_CHAINING_NO_def TL_CHAINING_FIRST_def TL_CHAINING_INTERMEDIATE_def
  TL_CHAINING_LAST_def TL_CHAINING_ERROR_def TL_PCTR_CHANNEL_MASK_def TL_PCTR_CHAIN_MASK_def

section \<open>Sending fragments\<close>

definition tl_set :: "(ifx_i2c_tl \<Rightarrow> ifx_i2c_tl) \<Rightarrow> ifx_i2c_context \<Rightarrow> ifx_i2c_context" where
  "tl_set f ctx = ctx\<lparr>tl := f (tl ctx)\<rparr>"

definition set_tl_state :: "tl_state \<Rightarrow> ifx_i2c_context \<Rightarrow> ifx_i2c_context" where
  "set_tl_state s = tl_set (\<lambda>t. t\<lparr>tl_state := s\<rparr>)"

definition tl_upcall :: "stack_status \<Rightarrow> byte list option \<Rightarrow> u16 \<Rightarrow> ifx_i2c_context \<Rightarrow> ifx_i2c_context" where
  "tl_upcall event p_data data_len ctx = ctx\<lparr>tl_up := Some (event, p_data, data_len)\<rparr>"

text \<open>The lengths are compared after promotion to \<open>int\<close>; \<open>remaining_data\<close> is a \<open>uint16_t\<close>.\<close>

definition ifx_i2c_tl_calculate_pctr :: "ifx_i2c_tl \<Rightarrow> byte" where
  "ifx_i2c_tl_calculate_pctr t =
     (let fragment_size = tl_max_packet_length t;
          remaining_data = tl_actual_packet_length t - tl_packet_offset t
      in if tl_packet_offset t = 0 \<and> remaining_data \<le> fragment_size then TL_CHAINING_NO
         else if tl_packet_offset t = 0 \<and> remaining_data > fragment_size then TL_CHAINING_FIRST
         else if tl_packet_offset t \<noteq> 0 \<and> remaining_data > fragment_size then TL_CHAINING_INTERMEDIATE
         else TL_CHAINING_LAST)"

definition ifx_i2c_tl_send_next_fragment :: "ifx_i2c_context \<Rightarrow> (stack_status \<times> ifx_i2c_context) option" where
  "ifx_i2c_tl_send_next_fragment ctx = do {
     let t = tl ctx;
     let pctr = ifx_i2c_tl_calculate_pctr t;
     let tl_fragment_size =
       (if uint (tl_actual_packet_length t) - uint (tl_packet_offset t) < uint (tl_max_packet_length t)
        then tl_actual_packet_length t - tl_packet_offset t else tl_max_packet_length t);
     buf \<leftarrow> wr (tx_frame_buffer ctx) IFX_I2C_TL_HEADER_OFFSET pctr;
     xs \<leftarrow> rd_bytes (drop (unat (tl_packet_offset t)) (tl_actual_packet t)) (unat tl_fragment_size);
     buf \<leftarrow> wr_bytes buf (IFX_I2C_TL_HEADER_OFFSET + 1) xs;
     ifx_i2c_dl_send_frame
       (tl_set (\<lambda>t. t\<lparr>tl_packet_offset := tl_packet_offset t + tl_fragment_size\<rparr>) (ctx\<lparr>tx_frame_buffer := buf\<rparr>))
       (tl_fragment_size + 1)
   }"

text \<open>What a request puts into the state of the layer before the first fragment.\<close>

definition tl_request :: "byte list \<Rightarrow> u16 \<Rightarrow> byte list \<Rightarrow> u16 \<Rightarrow> ifx_i2c_context \<Rightarrow> ifx_i2c_context" where
  "tl_request packet packet_len p_recv_packet recv_packet_len ctx = tl_set (\<lambda>t. t\<lparr>tl_state := TL_STATE_TX,
     tl_api_start_time := env_now (env ctx), tl_actual_packet := packet, tl_actual_packet_length := packet_len,
     tl_packet_offset := 0, tl_recv_packet_buffer := p_recv_packet, tl_recv_packet_buffer_length := recv_packet_len,
     tl_total_recv_length := 0, tl_chaining_error_count := 0, tl_master_chaining_error_count := 0,
     tl_transmission_completed := False, tl_error_event := STACK_ERROR\<rparr>) ctx"

definition ifx_i2c_tl_transceive :: "ifx_i2c_context \<Rightarrow> byte list option \<Rightarrow> u16 \<Rightarrow> byte list \<Rightarrow> u16
    \<Rightarrow> (stack_status \<times> ifx_i2c_context) option" where
  "ifx_i2c_tl_transceive ctx p_packet packet_len p_recv_packet recv_packet_len =
     (case p_packet of None \<Rightarrow> Some (STACK_ERROR, ctx)
      | Some packet \<Rightarrow>
          if packet_len = 0 \<or> tl_state (tl ctx) \<noteq> TL_STATE_IDLE then Some (STACK_ERROR, ctx)
          else ifx_i2c_tl_send_next_fragment (tl_request packet packet_len p_recv_packet recv_packet_len ctx))"

definition ifx_i2c_tl_resend_packets :: "ifx_i2c_context \<Rightarrow> (stack_status \<times> ifx_i2c_context) option" where
  "ifx_i2c_tl_resend_packets ctx =
     (if tl_state (tl ctx) \<noteq> TL_STATE_IDLE then Some (STACK_ERROR, ctx)
      else ifx_i2c_tl_send_next_fragment
        (tl_set (\<lambda>t. t\<lparr>tl_packet_offset := 0, tl_total_recv_length := 0, tl_state := TL_STATE_TX\<rparr>) ctx))"

definition ifx_i2c_tl_send_chaining_error :: "ifx_i2c_context \<Rightarrow> (stack_status \<times> ifx_i2c_context) option" where
  "ifx_i2c_tl_send_chaining_error ctx = do {
     buf \<leftarrow> wr (tx_frame_buffer ctx) IFX_I2C_TL_HEADER_OFFSET 0x07;
     ifx_i2c_dl_send_frame (tl_set (\<lambda>t. t\<lparr>tl_total_recv_length := 0\<rparr>) (ctx\<lparr>tx_frame_buffer := buf\<rparr>)) 1
   }"

text \<open>The table has five rows; the code \<open>TL_CHAINING_ERROR\<close>, which passes the test, is no index of it.\<close>

definition ifx_i2c_tl_check_chaining_error :: "byte \<Rightarrow> byte \<Rightarrow> stack_status option" where
  "ifx_i2c_tl_check_chaining_error current previous =
     (if current = TL_CHAINING_ERROR \<or> current = TL_CHAINING_NO \<or> current = TL_CHAINING_LAST \<or>
         current = TL_CHAINING_INTERMEDIATE \<or> current = TL_CHAINING_FIRST
      then do {
        (s0, s1) \<leftarrow> nth_opt pctr_states_table (unat current);
        Some (if s0 = previous \<or> s1 = previous then STACK_SUCCESS else STACK_ERROR)
      } else Some STACK_ERROR)"

section \<open>The state machine\<close>

text \<open>Each case: the new context and whether the loop goes on.\<close>

type_synonym tl_round = "(ifx_i2c_context \<times> bool) option"

definition event_has :: "byte \<Rightarrow> byte \<Rightarrow> bool" where
  "event_has event flag \<longleftrightarrow> event AND flag \<noteq> 0"

definition tl_case_idle :: "ifx_i2c_context \<Rightarrow> tl_round" where
  "tl_case_idle ctx = Some (tl_upcall STACK_SUCCESS None 0 ctx, False)"

definition tl_case_tx :: "byte \<Rightarrow> byte \<Rightarrow> u16 \<Rightarrow> ifx_i2c_context \<Rightarrow> tl_round" where
  "tl_case_tx event chaining data_len ctx =
     (if event_has event IFX_I2C_DL_EVENT_TX_SUCCESS then
        if tl_packet_offset (tl ctx) < tl_actual_packet_length (tl ctx) then
          if chaining = TL_CHAINING_ERROR then Some (set_tl_state TL_STATE_RESEND ctx, True)
          else if data_len \<noteq> 0 then Some (set_tl_state TL_STATE_ERROR ctx, True)
          else do {
            (_, ctx) \<leftarrow> ifx_i2c_tl_send_next_fragment ctx;
            Some (ctx, False)
          }
        else do {
          let ctx = tl_set (\<lambda>t. t\<lparr>tl_state := TL_STATE_RX, tl_total_recv_length := 0,
            tl_previous_chaining := TL_CHAINING_NO, tl_transmission_completed := True\<rparr>) ctx;
          if \<not> event_has event IFX_I2C_DL_EVENT_RX_SUCCESS then do {
            (status, ctx) \<leftarrow> ifx_i2c_dl_receive_frame ctx;
            Some (if status \<noteq> STACK_SUCCESS then set_tl_state TL_STATE_ERROR ctx else ctx, False)
          } else Some (ctx, True)
        }
      else Some (set_tl_state TL_STATE_ERROR ctx, True))"

text \<open>\<open>memcpy\<close> of the payload of a fragment into the buffer of the caller, and the count.\<close>

definition tl_copy_payload :: "byte list \<Rightarrow> u16 \<Rightarrow> ifx_i2c_context \<Rightarrow> ifx_i2c_context option" where
  "tl_copy_payload p_data data_len ctx = do {
     xs \<leftarrow> rd_bytes (drop 1 p_data) (unat (data_len - 1));
     buf \<leftarrow> wr_bytes (tl_recv_packet_buffer (tl ctx)) (unat (tl_total_recv_length (tl ctx))) xs;
     Some (tl_set (\<lambda>t. t\<lparr>tl_recv_packet_buffer := buf, tl_total_recv_length := tl_total_recv_length t + (data_len - 1)\<rparr>) ctx)
   }"

definition tl_case_rx :: "byte \<Rightarrow> byte list option \<Rightarrow> byte \<Rightarrow> u16 \<Rightarrow> ifx_i2c_context \<Rightarrow> tl_round" where
  "tl_case_rx event p_data chaining data_len ctx =
     (if event_has event IFX_I2C_DL_EVENT_RX_SUCCESS then
        if unat data_len < TL_HEADER_SIZE then Some (set_tl_state TL_STATE_ERROR ctx, True)
        else if tl_error_event (tl ctx) = STACK_MEM_ERROR then
          if chaining = TL_CHAINING_LAST then Some (set_tl_state TL_STATE_ERROR ctx, True)
          else do {
            (status, ctx) \<leftarrow> ifx_i2c_dl_receive_frame ctx;
            if status \<noteq> STACK_SUCCESS then Some (set_tl_state TL_STATE_ERROR ctx, True)
            else Some (set_tl_state TL_STATE_RX ctx, False)
          }
        else do {
          status \<leftarrow> ifx_i2c_tl_check_chaining_error chaining (tl_previous_chaining (tl ctx));
          if status \<noteq> STACK_SUCCESS then Some (set_tl_state TL_STATE_RESEND ctx, True)
          else do {
            let ctx = tl_set (\<lambda>t. t\<lparr>tl_previous_chaining := chaining\<rparr>) ctx;
            case p_data of
              None \<Rightarrow> Some (set_tl_state TL_STATE_ERROR ctx, True)
            | Some data \<Rightarrow>
                if chaining = TL_CHAINING_NO \<or> chaining = TL_CHAINING_LAST then do {
                  ctx \<leftarrow> tl_copy_payload data data_len ctx;
                  let ctx = tl_set (\<lambda>t. t\<lparr>tl_state := TL_STATE_IDLE,
                    tl_recv_packet_buffer_length := tl_total_recv_length t\<rparr>) ctx;
                  Some (tl_upcall STACK_SUCCESS (Some (tl_recv_packet_buffer (tl ctx)))
                    (tl_recv_packet_buffer_length (tl ctx)) ctx, False)
                } else Some (set_tl_state TL_STATE_CHAINING ctx, True)
          }
        }
      else Some (set_tl_state TL_STATE_ERROR ctx, True))"

definition tl_case_chaining :: "byte list option \<Rightarrow> byte \<Rightarrow> u16 \<Rightarrow> ifx_i2c_context \<Rightarrow> tl_round" where
  "tl_case_chaining p_data pctr data_len ctx =
     (if uint data_len \<noteq> uint (tl_max_packet_length (tl ctx)) + 1 then Some (set_tl_state TL_STATE_CHAINING_ERROR ctx, True)
      else if uint (tl_total_recv_length (tl ctx)) + uint data_len - 1 > uint (tl_recv_packet_buffer_length (tl ctx))
      then Some (tl_set (\<lambda>t. t\<lparr>tl_error_event := STACK_MEM_ERROR, tl_state := TL_STATE_RX\<rparr>) ctx, True)
      else case p_data of
        None \<Rightarrow> Some (set_tl_state TL_STATE_ERROR ctx, True)
      | Some data \<Rightarrow> do {
          ctx \<leftarrow> tl_copy_payload data data_len ctx;
          (status, ctx) \<leftarrow> ifx_i2c_dl_receive_frame
            (tl_set (\<lambda>t. t\<lparr>tl_previous_chaining := pctr, tl_state := TL_STATE_RX\<rparr>) ctx);
          Some (if status \<noteq> STACK_SUCCESS then set_tl_state TL_STATE_ERROR ctx else ctx, False)
        })"

definition tl_case_resend :: "u16 \<Rightarrow> ifx_i2c_context \<Rightarrow> tl_round" where
  "tl_case_resend data_len ctx =
     (if data_len > 1 \<and> tl_transmission_completed (tl ctx) then Some (set_tl_state TL_STATE_CHAINING_ERROR ctx, True)
      else
        let count = tl_chaining_error_count (tl ctx);
            ctx = tl_set (\<lambda>t. t\<lparr>tl_chaining_error_count := tl_chaining_error_count t + 1\<rparr>) ctx
        in if count = 0 then do {
             (status, ctx) \<leftarrow> ifx_i2c_tl_resend_packets (set_tl_state TL_STATE_IDLE ctx);
             if status \<noteq> STACK_SUCCESS then Some (set_tl_state TL_STATE_ERROR ctx, True) else Some (ctx, False)
           } else Some (set_tl_state TL_STATE_ERROR ctx, True))"

definition tl_case_chaining_error :: "ifx_i2c_context \<Rightarrow> tl_round" where
  "tl_case_chaining_error ctx =
     (let count = tl_master_chaining_error_count (tl ctx);
          ctx = tl_set (\<lambda>t. t\<lparr>tl_state := TL_STATE_TX,
            tl_master_chaining_error_count := tl_master_chaining_error_count t + 1\<rparr>) ctx
      in if count = 0 then do {
           (status, ctx) \<leftarrow> ifx_i2c_tl_send_chaining_error ctx;
           if status \<noteq> STACK_SUCCESS then Some (set_tl_state TL_STATE_ERROR ctx, True) else Some (ctx, False)
         } else Some (set_tl_state TL_STATE_ERROR ctx, True))"

definition tl_case_error :: "byte \<Rightarrow> u16 \<Rightarrow> ifx_i2c_context \<Rightarrow> tl_round" where
  "tl_case_error event data_len ctx =
     (let ctx = (if event_has event IFX_I2C_DL_EVENT_ERROR \<or> data_len \<noteq> 0 then set_tl_state TL_STATE_IDLE ctx else ctx)
      in Some (tl_upcall (tl_error_event (tl ctx)) None 0 ctx, False))"

definition tl_case_default :: "ifx_i2c_context \<Rightarrow> tl_round" where
  "tl_case_default ctx = Some (tl_upcall (tl_error_event (tl ctx)) None 0 (set_tl_state TL_STATE_IDLE ctx), False)"

text \<open>The control byte of the received fragment, 0 when the event carries none.\<close>

definition tl_pctr :: "byte list option \<Rightarrow> byte option" where
  "tl_pctr p_data = (case p_data of None \<Rightarrow> Some 0 | Some data \<Rightarrow> rd data 0)"

definition tl_handler_round :: "byte \<Rightarrow> byte list option \<Rightarrow> u16 \<Rightarrow> ifx_i2c_context \<Rightarrow> tl_round" where
  "tl_handler_round event p_data data_len ctx = do {
     pctr \<leftarrow> tl_pctr p_data;
     let chaining = pctr AND TL_PCTR_CHAIN_MASK;
     let ctx = (if event_has event IFX_I2C_DL_EVENT_ERROR \<or> pctr AND TL_PCTR_CHANNEL_MASK \<noteq> 0
       then tl_set (\<lambda>t. t\<lparr>tl_state := TL_STATE_ERROR, tl_error_event := STACK_ERROR\<rparr>) ctx else ctx);
     case tl_state (tl ctx) of
       TL_STATE_IDLE \<Rightarrow> tl_case_idle ctx
     | TL_STATE_TX \<Rightarrow> tl_case_tx event chaining data_len ctx
     | TL_STATE_RX \<Rightarrow> tl_case_rx event p_data chaining data_len ctx
     | TL_STATE_CHAINING \<Rightarrow> tl_case_chaining p_data pctr data_len ctx
     | TL_STATE_RESEND \<Rightarrow> tl_case_resend data_len ctx
     | TL_STATE_CHAINING_ERROR \<Rightarrow> tl_case_chaining_error ctx
     | TL_STATE_ERROR \<Rightarrow> tl_case_error event data_len ctx
     | TL_STATE_UNINIT \<Rightarrow> tl_case_default ctx
   }"

text \<open>
  A round that goes on leaves a state of a smaller rank: a buffer that is too small sends the
  state back to \<open>TL_STATE_RX\<close>, but with the memory error noted.
\<close>

definition tl_rank :: "ifx_i2c_tl \<Rightarrow> nat" where
  "tl_rank t = (case tl_state t of
       TL_STATE_TX \<Rightarrow> 7 | TL_STATE_RX \<Rightarrow> (if tl_error_event t = STACK_MEM_ERROR then 2 else 6)
     | TL_STATE_CHAINING \<Rightarrow> 5 | TL_STATE_RESEND \<Rightarrow> 4 | TL_STATE_CHAINING_ERROR \<Rightarrow> 3
     | _ \<Rightarrow> 0)"

lemma tl_set_simps [simp]:
  "tl (tl_set f ctx) = f (tl ctx)" "tl (set_tl_state s ctx) = (tl ctx)\<lparr>tl_state := s\<rparr>"
  "tl (tl_upcall e d l ctx) = tl ctx"
  "dl (tl_set f ctx) = dl ctx" "dl (set_tl_state s ctx) = dl ctx" "dl (tl_upcall e d l ctx) = dl ctx"
  "pl (tl_set f ctx) = pl ctx" "pl (set_tl_state s ctx) = pl ctx" "pl (tl_upcall e d l ctx) = pl ctx"
  "env (tl_set f ctx) = env ctx" "env (set_tl_state s ctx) = env ctx" "env (tl_upcall e d l ctx) = env ctx"
  "tx_frame_buffer (tl_set f ctx) = tx_frame_buffer ctx" "tx_frame_buffer (set_tl_state s ctx) = tx_frame_buffer ctx"
  "tl_up (tl_upcall e d l ctx) = Some (e, d, l)" "tl_up (tl_set f ctx) = tl_up ctx" "tl_up (set_tl_state s ctx) = tl_up ctx"
  by (simp_all add: tl_set_def set_tl_state_def tl_upcall_def)

lemmas tl_cases = tl_case_idle_def tl_case_tx_def tl_case_rx_def tl_case_chaining_def tl_case_resend_def
  tl_case_chaining_error_def tl_case_error_def tl_case_default_def

lemma tl_case_ranks:
  "tl_case_tx event c n ctx = Some (ctx', True) \<Longrightarrow> tl_rank (tl ctx') < 7"
  "tl_case_rx event p c n ctx = Some (ctx', True) \<Longrightarrow> tl_state (tl ctx) = TL_STATE_RX \<Longrightarrow> tl_rank (tl ctx') < tl_rank (tl ctx)"
  "tl_case_chaining p c n ctx = Some (ctx', True) \<Longrightarrow> tl_rank (tl ctx') < 5"
  "tl_case_resend n ctx = Some (ctx', True) \<Longrightarrow> tl_rank (tl ctx') < 4"
  "tl_case_chaining_error ctx = Some (ctx', True) \<Longrightarrow> tl_rank (tl ctx') < 3"
  subgoal by (auto simp: tl_case_tx_def Let_def bind_eq_Some_conv tl_rank_def split: if_splits)
  subgoal by (auto simp: tl_case_rx_def Let_def bind_eq_Some_conv tl_rank_def split: if_splits option.splits)
  subgoal by (auto simp: tl_case_chaining_def Let_def bind_eq_Some_conv tl_rank_def split: if_splits option.splits)
  subgoal by (auto simp: tl_case_resend_def Let_def bind_eq_Some_conv tl_rank_def split: if_splits)
  subgoal by (auto simp: tl_case_chaining_error_def Let_def bind_eq_Some_conv tl_rank_def split: if_splits)
  done

lemma tl_handler_round_rank:
  assumes r: "tl_handler_round event p_data data_len ctx = Some (ctx', True)"
  shows "tl_rank (tl ctx') < tl_rank (tl ctx)"
proof -
  obtain pctr where p: "tl_pctr p_data = Some pctr"
    using r by (auto simp: tl_handler_round_def bind_eq_Some_conv)
  define ctx1 where "ctx1 = (if event_has event IFX_I2C_DL_EVENT_ERROR \<or> pctr AND TL_PCTR_CHANNEL_MASK \<noteq> 0
       then tl_set (\<lambda>t. t\<lparr>tl_state := TL_STATE_ERROR, tl_error_event := STACK_ERROR\<rparr>) ctx else ctx)"
  have "tl_rank (tl ctx1) \<le> tl_rank (tl ctx)"
    by (simp add: ctx1_def tl_rank_def)
  then have below: "tl_rank (tl ctx') < k \<Longrightarrow> k = tl_rank (tl ctx1) \<Longrightarrow> ?thesis" for k
    by simp
  note round = tl_handler_round_def p ctx1_def [symmetric]
  show ?thesis
  proof (cases "tl_state (tl ctx1)")
    case TL_STATE_TX
    then show ?thesis
      using r tl_case_ranks(1) by (intro below [of 7]) (auto simp: round, simp add: tl_rank_def)
  next
    case TL_STATE_RX
    then show ?thesis
      using r tl_case_ranks(2) by (intro below [OF _ refl]) (auto simp: round)
  next
    case TL_STATE_CHAINING
    then show ?thesis
      using r tl_case_ranks(3) by (intro below [of 5]) (auto simp: round, simp add: tl_rank_def)
  next
    case TL_STATE_RESEND
    then show ?thesis
      using r tl_case_ranks(4) by (intro below [of 4]) (auto simp: round, simp add: tl_rank_def)
  next
    case TL_STATE_CHAINING_ERROR
    then show ?thesis
      using r tl_case_ranks(5) by (intro below [of 3]) (auto simp: round, simp add: tl_rank_def)
  qed (use r in \<open>simp_all add: round tl_case_idle_def tl_case_error_def tl_case_default_def Let_def\<close>)
qed

function tl_handler_loop :: "byte \<Rightarrow> byte list option \<Rightarrow> u16 \<Rightarrow> ifx_i2c_context \<Rightarrow> ifx_i2c_context option" where
  "tl_handler_loop event p_data data_len ctx = do {
     (ctx', continue) \<leftarrow> tl_handler_round event p_data data_len ctx;
     if continue then tl_handler_loop event p_data data_len ctx' else Some ctx'
   }"
  by pat_completeness auto
termination
  by (relation "measure (\<lambda>(event, p_data, data_len, ctx). tl_rank (tl ctx))") (auto dest: tl_handler_round_rank)

declare tl_handler_loop.simps [simp del]

definition ifx_i2c_dl_event_handler :: "ifx_i2c_context \<Rightarrow> byte \<Rightarrow> byte list option \<Rightarrow> u16 \<Rightarrow> ifx_i2c_context option" where
  "ifx_i2c_dl_event_handler ctx event p_data data_len = tl_handler_loop event p_data data_len ctx"

definition ifx_i2c_tl_init :: "ifx_i2c_context \<Rightarrow> (stack_status \<times> ifx_i2c_context) option" where
  "ifx_i2c_tl_init ctx = do {
     (status, ctx) \<leftarrow> ifx_i2c_dl_init (set_tl_state TL_STATE_UNINIT ctx);
     if status \<noteq> STACK_SUCCESS then Some (STACK_ERROR, ctx)
     else Some (STACK_SUCCESS, tl_set (\<lambda>t. t\<lparr>tl_state := TL_STATE_IDLE,
       tl_max_packet_length := frame_size ctx - word_of_nat (DL_HEADER_SIZE + TL_HEADER_SIZE)\<rparr>) ctx)
   }"

section \<open>What the layer keeps\<close>

definition keeps_ifx :: "ifx_i2c_context \<Rightarrow> ifx_i2c_context \<Rightarrow> bool" where
  "keeps_ifx ctx ctx' \<longleftrightarrow> env ctx' = env ctx \<and> ifx_upper_handler ctx' = ifx_upper_handler ctx \<and>
     ifx_state ctx' = ifx_state ctx \<and> ifx_status ctx' = ifx_status ctx"

text \<open>The offsets stay inside the packet and the receive buffer; a fragment fits a frame.\<close>

definition tl_core :: "ifx_i2c_tl \<Rightarrow> bool" where
  "tl_core t \<longleftrightarrow> unat (tl_max_packet_length t) \<le> 294 \<and>
     tl_packet_offset t \<le> tl_actual_packet_length t \<and> unat (tl_actual_packet_length t) \<le> length (tl_actual_packet t) \<and>
     unat (tl_total_recv_length t) \<le> length (tl_recv_packet_buffer t) \<and>
     unat (tl_recv_packet_buffer_length t) \<le> length (tl_recv_packet_buffer t) \<and> length (tl_recv_packet_buffer t) < 65536"

definition tl_up_ok :: "tl_upcall option \<Rightarrow> bool" where
  "tl_up_ok u \<longleftrightarrow> (case u of None \<Rightarrow> True
     | Some (event, p_data, data_len) \<Rightarrow> (case p_data of None \<Rightarrow> data_len = 0 | Some xs \<Rightarrow> unat data_len \<le> length xs))"

definition tl_ok :: "ifx_i2c_context \<Rightarrow> bool" where
  "tl_ok ctx \<longleftrightarrow> dl_ok ctx \<and> dl_resting ctx \<and> tl_core (tl ctx) \<and> tl_up_ok (tl_up ctx)"

lemma keeps_ifx_refl [simp]: "keeps_ifx ctx ctx"
  by (simp add: keeps_ifx_def)

lemma keeps_ifx_trans: "keeps_ifx a b \<Longrightarrow> keeps_ifx b c \<Longrightarrow> keeps_ifx a c"
  by (simp add: keeps_ifx_def)

lemma keeps_ifx_ops [simp]:
  "keeps_ifx c (tl_set f ctx) \<longleftrightarrow> keeps_ifx c ctx" "keeps_ifx c (set_tl_state s ctx) \<longleftrightarrow> keeps_ifx c ctx"
  "keeps_ifx c (tl_upcall e d l ctx) \<longleftrightarrow> keeps_ifx c ctx" "keeps_ifx c (ctx\<lparr>tx_frame_buffer := xs\<rparr>) \<longleftrightarrow> keeps_ifx c ctx"
  by (simp_all add: keeps_ifx_def tl_set_def set_tl_state_def tl_upcall_def)

lemma dl_parts_tl_ops [simp]:
  "dl_ok (tl_set f ctx) \<longleftrightarrow> dl_ok ctx" "dl_ok (set_tl_state s ctx) \<longleftrightarrow> dl_ok ctx" "dl_ok (tl_upcall e d l ctx) \<longleftrightarrow> dl_ok ctx"
  "dl_resting (tl_set f ctx) \<longleftrightarrow> dl_resting ctx" "dl_resting (set_tl_state s ctx) \<longleftrightarrow> dl_resting ctx"
  "dl_resting (tl_upcall e d l ctx) \<longleftrightarrow> dl_resting ctx" "dl_resting (ctx\<lparr>tx_frame_buffer := xs\<rparr>) \<longleftrightarrow> dl_resting ctx"
  by (simp_all add: dl_ok_def pl_ok_def dl_resting_def tl_set_def set_tl_state_def tl_upcall_def)

lemma tl_ok_set: "tl_ok ctx \<Longrightarrow> tl_core (f (tl ctx)) \<Longrightarrow> tl_ok (tl_set f ctx)"
  by (simp add: tl_ok_def)

lemma tl_core_state [simp]:
  "tl_core (t\<lparr>tl_state := s\<rparr>) \<longleftrightarrow> tl_core t" "tl_core (t\<lparr>tl_error_event := e\<rparr>) \<longleftrightarrow> tl_core t"
  "tl_core (t\<lparr>tl_previous_chaining := q\<rparr>) \<longleftrightarrow> tl_core t" "tl_core (t\<lparr>tl_chaining_error_count := k\<rparr>) \<longleftrightarrow> tl_core t"
  "tl_core (t\<lparr>tl_master_chaining_error_count := k\<rparr>) \<longleftrightarrow> tl_core t" "tl_core (t\<lparr>tl_transmission_completed := b\<rparr>) \<longleftrightarrow> tl_core t"
  "tl_core t \<Longrightarrow> tl_core (t\<lparr>tl_total_recv_length := 0\<rparr>)" "tl_core t \<Longrightarrow> tl_core (t\<lparr>tl_packet_offset := 0\<rparr>)"
  by (simp_all add: tl_core_def)

lemma tl_ok_state [simp]: "tl_ok (set_tl_state s ctx) \<longleftrightarrow> tl_ok ctx"
  by (simp add: tl_ok_def)

lemma tl_ok_upcall: "tl_ok ctx \<Longrightarrow> tl_up_ok (Some (e, d, l)) \<Longrightarrow> tl_ok (tl_upcall e d l ctx)"
  by (simp add: tl_ok_def)

lemma tl_ok_frame: "tl_ok ctx \<Longrightarrow> length xs = 300 \<Longrightarrow> tl_ok (ctx\<lparr>tx_frame_buffer := xs\<rparr>)"
  by (simp add: tl_ok_def dl_ok_def pl_ok_def DL_MAX_FRAME_SIZE_def)

lemma tl_ok_quiet: "tl_ok c \<Longrightarrow> dl_ok c' \<Longrightarrow> dl_resting c' \<Longrightarrow> keeps_quiet c c' \<Longrightarrow> tl_ok c' \<and> keeps_ifx c c' \<and> tl c' = tl c"
  by (auto simp: tl_ok_def keeps_quiet_def keeps_tl_def keeps_ifx_def)

lemma tl_ok_length: "tl_ok ctx \<Longrightarrow> length (tx_frame_buffer ctx) = 300"
  by (simp add: tl_ok_def dl_ok_def pl_ok_def DL_MAX_FRAME_SIZE_def)

text \<open>A request to the data link layer, in the middle of an operation of this one.\<close>

lemma then_dl_send:
  assumes "tl_ok ctx" "keeps_ifx c ctx" "unat n \<le> 295"
    and "\<And>st ctx'. tl_ok ctx' \<Longrightarrow> keeps_ifx c ctx' \<Longrightarrow> tl ctx' = tl ctx \<Longrightarrow> R (k (st, ctx'))"
  shows "R (Option.bind (ifx_i2c_dl_send_frame ctx n) k)"
proof (rule dl_send.followed_by)
  show "dl_ok ctx \<and> dl_resting ctx" "unat n \<le> 295" "keeps_quiet ctx ctx"
    using assms(1,3) by (simp_all add: tl_ok_def)
next
  fix st c'
  assume "dl_ok c' \<and> dl_resting c'" "keeps_quiet ctx c'"
  then show "R (k (st, c'))"
    using tl_ok_quiet [OF assms(1)] keeps_ifx_trans [OF assms(2)] assms(4) by blast
qed

lemma then_dl_receive:
  assumes "tl_ok ctx" "keeps_ifx c ctx"
    and "\<And>st ctx'. tl_ok ctx' \<Longrightarrow> keeps_ifx c ctx' \<Longrightarrow> tl ctx' = tl ctx \<Longrightarrow> R (k (st, ctx'))"
  shows "R (Option.bind (ifx_i2c_dl_receive_frame ctx) k)"
proof (rule dl_receive.followed_by)
  show "dl_ok ctx \<and> dl_resting ctx" "True" "keeps_quiet ctx ctx"
    using assms(1) by (simp_all add: tl_ok_def)
next
  fix st c'
  assume "dl_ok c' \<and> dl_resting c'" "keeps_quiet ctx c'"
  then show "R (k (st, c'))"
    using tl_ok_quiet [OF assms(1)] keeps_ifx_trans [OF assms(2)] assms(3) by blast
qed

section \<open>The next fragment\<close>

text \<open>The fragment at an offset: its control byte and its bytes.\<close>

definition fragment_len :: "ifx_i2c_tl \<Rightarrow> nat" where
  "fragment_len t = min (unat (tl_max_packet_length t)) (unat (tl_actual_packet_length t) - unat (tl_packet_offset t))"

definition fragment_at :: "ifx_i2c_tl \<Rightarrow> byte list" where
  "fragment_at t = ifx_i2c_tl_calculate_pctr t # take (fragment_len t) (drop (unat (tl_packet_offset t)) (tl_actual_packet t))"

lemma wr_append: "length xs = n \<Longrightarrow> n < length buf \<Longrightarrow> wr (xs @ drop n buf) n c = Some (xs @ c # drop (Suc n) buf)"
  by (simp add: wr_def list_update_append upd_conv_take_nth_drop)

lemma send_next_fragment_eq:
  assumes ok: "tl_ok ctx"
  shows "ifx_i2c_tl_send_next_fragment ctx =
      ifx_i2c_dl_send_frame (tl_set (\<lambda>t. t\<lparr>tl_packet_offset := tl_packet_offset t + word_of_nat (fragment_len (tl ctx))\<rparr>)
          (ctx\<lparr>tx_frame_buffer := take 3 (tx_frame_buffer ctx) @ fragment_at (tl ctx) @ drop (4 + fragment_len (tl ctx)) (tx_frame_buffer ctx)\<rparr>))
        (word_of_nat (fragment_len (tl ctx)) + 1)"
    and "length (fragment_at (tl ctx)) = fragment_len (tl ctx) + 1" "fragment_len (tl ctx) \<le> 294"
    "unat (tl_packet_offset (tl ctx)) + fragment_len (tl ctx) \<le> unat (tl_actual_packet_length (tl ctx))"
proof -
  let ?t = "tl ctx" and ?buf = "tx_frame_buffer ctx"
  define k where "k = fragment_len ?t"
  have core: "unat (tl_max_packet_length ?t) \<le> 294" "unat (tl_packet_offset ?t) \<le> unat (tl_actual_packet_length ?t)"
      "unat (tl_actual_packet_length ?t) \<le> length (tl_actual_packet ?t)"
    using ok by (simp_all add: tl_ok_def tl_core_def word_le_nat_alt)
  have k: "k \<le> 294" "unat (tl_packet_offset ?t) + k \<le> unat (tl_actual_packet_length ?t)"
    using core by (simp_all add: k_def fragment_len_def)
  have len: "length ?buf = 300"
    by (rule tl_ok_length [OF ok])
  define size where "size = (if uint (tl_actual_packet_length ?t) - uint (tl_packet_offset ?t) < uint (tl_max_packet_length ?t)
        then tl_actual_packet_length ?t - tl_packet_offset ?t else tl_max_packet_length ?t)"
  have less: "uint (tl_actual_packet_length ?t) - uint (tl_packet_offset ?t) < uint (tl_max_packet_length ?t) \<longleftrightarrow>
      unat (tl_actual_packet_length ?t) - unat (tl_packet_offset ?t) < unat (tl_max_packet_length ?t)"
    unfolding uint_nat using core(2) by linarith
  have "unat (tl_actual_packet_length ?t - tl_packet_offset ?t) = unat (tl_actual_packet_length ?t) - unat (tl_packet_offset ?t)"
    using core(2) by (simp add: unat_sub_if')
  then have "unat size = k"
    unfolding size_def less k_def fragment_len_def by simp
  then have size: "size = word_of_nat k"
    by (metis of_nat_unat ucast_id)
  have u: "unat (word_of_nat k :: u16) = k"
    using k(1) by (simp add: unat_of_nat)
  define xs where "xs = take k (drop (unat (tl_packet_offset ?t)) (tl_actual_packet ?t))"
  have xs: "rd_bytes (drop (unat (tl_packet_offset ?t)) (tl_actual_packet ?t)) k = Some xs" "length xs = k"
    using k core by (simp_all add: rd_bytes_def xs_def)
  have "wr ?buf 3 p = Some (take 3 ?buf @ p # drop 4 ?buf)" for p
    using len by (simp add: wr_def upd_conv_take_nth_drop)
  moreover have "wr_bytes (take 3 ?buf @ p # drop 4 ?buf) 4 xs = Some (take 3 ?buf @ (p # xs) @ drop (4 + k) ?buf)" for p
    using len xs(2) k(1) by (simp add: wr_bytes_def add.commute)
  ultimately show "ifx_i2c_tl_send_next_fragment ctx =
      ifx_i2c_dl_send_frame (tl_set (\<lambda>t. t\<lparr>tl_packet_offset := tl_packet_offset t + word_of_nat (fragment_len (tl ctx))\<rparr>)
          (ctx\<lparr>tx_frame_buffer := take 3 (tx_frame_buffer ctx) @ fragment_at (tl ctx) @ drop (4 + fragment_len (tl ctx)) (tx_frame_buffer ctx)\<rparr>))
        (word_of_nat (fragment_len (tl ctx)) + 1)"
    unfolding ifx_i2c_tl_send_next_fragment_def Let_def size_def [symmetric] size u IFX_I2C_TL_HEADER_OFFSET_def xs(1)
    by (simp add: k_def [symmetric] fragment_at_def xs_def [symmetric])
  show "length (fragment_at (tl ctx)) = fragment_len (tl ctx) + 1" "fragment_len (tl ctx) \<le> 294"
    "unat (tl_packet_offset (tl ctx)) + fragment_len (tl ctx) \<le> unat (tl_actual_packet_length (tl ctx))"
    using k xs(2) by (simp_all add: k_def [symmetric] fragment_at_def xs_def [symmetric])
qed

section \<open>Every step stays inside its buffers\<close>

definition tl_goes :: "ifx_i2c_context \<Rightarrow> (stack_status \<times> ifx_i2c_context) option \<Rightarrow> bool" where
  "tl_goes c r \<longleftrightarrow> (\<exists>st ctx'. r = Some (st, ctx') \<and> tl_ok ctx' \<and> keeps_ifx c ctx')"

lemma tl_goes_dl_send: "tl_ok ctx \<Longrightarrow> keeps_ifx c ctx \<Longrightarrow> unat n \<le> 295 \<Longrightarrow> tl_goes c (ifx_i2c_dl_send_frame ctx n)"
  using then_dl_send [of ctx c n "tl_goes c" Some] by (simp add: tl_goes_def)

text \<open>The context with the next fragment in its frame buffer.\<close>

definition with_fragment :: "ifx_i2c_context \<Rightarrow> ifx_i2c_context" where
  "with_fragment ctx = tl_set (\<lambda>t. t\<lparr>tl_packet_offset := tl_packet_offset t + word_of_nat (fragment_len (tl ctx))\<rparr>)
    (ctx\<lparr>tx_frame_buffer := take 3 (tx_frame_buffer ctx) @ fragment_at (tl ctx) @ drop (4 + fragment_len (tl ctx)) (tx_frame_buffer ctx)\<rparr>)"

lemma with_fragment:
  assumes ok: "tl_ok ctx"
  shows "ifx_i2c_tl_send_next_fragment ctx = ifx_i2c_dl_send_frame (with_fragment ctx) (word_of_nat (fragment_len (tl ctx) + 1))"
    and "tl_ok (with_fragment ctx)" "keeps_ifx c (with_fragment ctx) \<longleftrightarrow> keeps_ifx c ctx"
    and "unat (word_of_nat (fragment_len (tl ctx) + 1) :: u16) = fragment_len (tl ctx) + 1" "fragment_len (tl ctx) \<le> 294"
    and "unat (tl_packet_offset (tl ctx) + word_of_nat (fragment_len (tl ctx))) = unat (tl_packet_offset (tl ctx)) + fragment_len (tl ctx)"
proof -
  let ?k = "fragment_len (tl ctx)"
  have k: "?k \<le> 294" "unat (tl_packet_offset (tl ctx)) + ?k \<le> unat (tl_actual_packet_length (tl ctx))"
    by (rule send_next_fragment_eq [OF ok])+
  have "unat (tl_actual_packet_length (tl ctx)) < 65536"
    using unsigned_less [of "tl_actual_packet_length (tl ctx)", where 'a = nat] by simp
  then show u: "unat (tl_packet_offset (tl ctx) + word_of_nat ?k) = unat (tl_packet_offset (tl ctx)) + ?k"
    using k by (simp add: unat_word_ariths unat_of_nat)
  then have "tl_packet_offset (tl ctx) + word_of_nat ?k \<le> tl_actual_packet_length (tl ctx)"
    using k(2) by (simp add: word_le_nat_alt)
  then show "tl_ok (with_fragment ctx)"
    unfolding with_fragment_def using ok send_next_fragment_eq(2,3) [OF ok] tl_ok_length [OF ok]
    by (intro tl_ok_set tl_ok_frame [OF ok]) (auto simp: tl_core_def tl_ok_def)
  show "ifx_i2c_tl_send_next_fragment ctx = ifx_i2c_dl_send_frame (with_fragment ctx) (word_of_nat (?k + 1))"
    unfolding with_fragment_def using send_next_fragment_eq(1) [OF ok] by (simp add: add.commute [of 1])
  show "unat (word_of_nat (?k + 1) :: u16) = ?k + 1" "?k \<le> 294"
    using k(1) by (simp_all add: unat_of_nat unat_word_ariths)
qed (simp add: with_fragment_def)

lemma send_next_fragment_goes: "tl_ok ctx \<Longrightarrow> keeps_ifx c ctx \<Longrightarrow> tl_goes c (ifx_i2c_tl_send_next_fragment ctx)"
  using with_fragment [of ctx] by (simp add: tl_goes_dl_send)

text \<open>A packet and a receive buffer that the caller may pass.\<close>

definition transceive_args :: "byte list option \<Rightarrow> u16 \<Rightarrow> byte list \<Rightarrow> u16 \<Rightarrow> bool" where
  "transceive_args p_packet packet_len p_recv recv_len \<longleftrightarrow>
     (case p_packet of None \<Rightarrow> True | Some packet \<Rightarrow> unat packet_len \<le> length packet) \<and>
     unat recv_len \<le> length p_recv \<and> length p_recv < 65536"

lemma tl_request_ok:
  assumes "tl_ok ctx" "transceive_args (Some packet) n r m"
  shows "tl_ok (tl_request packet n r m ctx)" "keeps_ifx c (tl_request packet n r m ctx) \<longleftrightarrow> keeps_ifx c ctx"
    "dl (tl_request packet n r m ctx) = dl ctx" "pl (tl_request packet n r m ctx) = pl ctx"
  using assms by (auto simp: tl_request_def tl_ok_def tl_core_def transceive_args_def)

lemma transceive_goes:
  assumes ok: "tl_ok ctx" and k: "keeps_ifx c ctx" and args: "transceive_args p n r m"
  shows "tl_goes c (ifx_i2c_tl_transceive ctx p n r m)"
  using ok k tl_request_ok(1,2) [OF ok] args
  by (auto simp: ifx_i2c_tl_transceive_def tl_goes_def [of c "Some _"] split: option.split intro: send_next_fragment_goes)

interpretation tl_fragment: layer_op ifx_i2c_tl_send_next_fragment True tl_ok keeps_ifx
  by unfold_locales (use send_next_fragment_goes in \<open>auto simp: tl_goes_def\<close>, rule keeps_ifx_trans)

interpretation tl_transceive: layer_op "\<lambda>ctx. ifx_i2c_tl_transceive ctx p n r m" "transceive_args p n r m" tl_ok keeps_ifx
  for p n r m
  by unfold_locales (use transceive_goes in \<open>auto simp: tl_goes_def\<close>, rule keeps_ifx_trans)

text \<open>
  What the handler relies on and does not check: the chaining error code is answered only while
  fragments are sent, and an only or last fragment fits the rest of the receive buffer.
\<close>

definition tl_fits :: "byte list option \<Rightarrow> u16 \<Rightarrow> ifx_i2c_tl \<Rightarrow> bool" where
  "tl_fits p_data n t \<longleftrightarrow>
     (case p_data of None \<Rightarrow> True
      | Some data \<Rightarrow> tl_state t \<in> {TL_STATE_TX, TL_STATE_RX, TL_STATE_CHAINING} \<longrightarrow>
          (data ! 0 AND TL_PCTR_CHAIN_MASK = TL_CHAINING_ERROR \<longrightarrow>
             tl_state t = TL_STATE_TX \<and> tl_packet_offset t < tl_actual_packet_length t) \<and>
          (data ! 0 AND TL_PCTR_CHAIN_MASK \<in> {TL_CHAINING_NO, TL_CHAINING_LAST} \<longrightarrow>
             unat (tl_total_recv_length t) + unat n \<le> length (tl_recv_packet_buffer t) + 1))"

definition tl_case_goes :: "byte list option \<Rightarrow> u16 \<Rightarrow> ifx_i2c_context \<Rightarrow> tl_round \<Rightarrow> bool" where
  "tl_case_goes p n c r \<longleftrightarrow>
     (\<exists>ctx' go. r = Some (ctx', go) \<and> tl_ok ctx' \<and> keeps_ifx c ctx' \<and> (go \<longrightarrow> tl_fits p n (tl ctx')))"

lemma tl_case_goes_Some [simp]:
  "tl_case_goes p n c (Some (ctx', go)) \<longleftrightarrow> tl_ok ctx' \<and> keeps_ifx c ctx' \<and> (go \<longrightarrow> tl_fits p n (tl ctx'))"
  by (simp add: tl_case_goes_def)

lemma tl_fits_state [simp]: "s \<notin> {TL_STATE_RX, TL_STATE_CHAINING, TL_STATE_TX} \<Longrightarrow> tl_fits p n (t\<lparr>tl_state := s\<rparr>)"
  by (auto simp: tl_fits_def split: option.splits)

lemma tl_fits_other [simp]:
  "tl_fits p n (t\<lparr>tl_previous_chaining := q\<rparr>) \<longleftrightarrow> tl_fits p n t" "tl_fits p n (t\<lparr>tl_error_event := e\<rparr>) \<longleftrightarrow> tl_fits p n t"
  "tl_fits p n (t\<lparr>tl_chaining_error_count := k\<rparr>) \<longleftrightarrow> tl_fits p n t"
  "tl_fits p n (t\<lparr>tl_master_chaining_error_count := k\<rparr>) \<longleftrightarrow> tl_fits p n t"
  by (simp_all add: tl_fits_def split: option.split)

lemma dl_event_ok_Some: "dl_event_ok (Some data) n \<Longrightarrow> 0 < unat n \<and> unat n \<le> 295 \<and> unat n \<le> length data"
  by (simp add: dl_event_ok_def)

lemma tl_tx_case:
  assumes ok: "tl_ok ctx" and k: "keeps_ifx c ctx" and st: "tl_state (tl ctx) = TL_STATE_TX" and f: "tl_fits p n (tl ctx)"
    and ch: "\<And>data. p = Some data \<Longrightarrow> ch = data ! 0 AND TL_PCTR_CHAIN_MASK"
  shows "tl_case_goes p n c (tl_case_tx e ch n ctx)"
proof -
  have err: "tl_case_goes p n c (Some (set_tl_state s ctx, True))" if "s \<in> {TL_STATE_ERROR, TL_STATE_RESEND}" for s
    using that ok k by auto
  show ?thesis
  proof (cases "event_has e IFX_I2C_DL_EVENT_TX_SUCCESS")
    case True
    show ?thesis
    proof (cases "tl_packet_offset (tl ctx) < tl_actual_packet_length (tl ctx)")
      case sending: True
      have "tl_case_goes p n c (do { (_, ctx) \<leftarrow> ifx_i2c_tl_send_next_fragment ctx; Some (ctx, False) })"
        using send_next_fragment_goes [OF ok k] by (auto simp: tl_goes_def)
      then show ?thesis
        using True sending err by (auto simp: tl_case_tx_def)
    next
      case False
      define ctx1 where "ctx1 = tl_set (\<lambda>t. t\<lparr>tl_state := TL_STATE_RX, tl_total_recv_length := 0,
            tl_previous_chaining := TL_CHAINING_NO, tl_transmission_completed := True\<rparr>) ctx"
      have ok1: "tl_ok ctx1" "keeps_ifx c ctx1"
        using ok k by (auto simp: ctx1_def tl_ok_def tl_core_def)
      have f1: "tl_fits p n (tl ctx1)"
        using f False st by (auto simp: tl_fits_def ctx1_def split: option.splits)
      have "tl_case_goes p n c (do { (status, ctx) \<leftarrow> ifx_i2c_dl_receive_frame ctx1;
            Some (if status \<noteq> STACK_SUCCESS then set_tl_state TL_STATE_ERROR ctx else ctx, False) })"
        by (rule then_dl_receive [OF ok1]) auto
      then show ?thesis
        using True False ok1 f1 by (simp add: tl_case_tx_def Let_def ctx1_def [symmetric])
    qed
  qed (use err [of TL_STATE_ERROR] in \<open>simp add: tl_case_tx_def\<close>)
qed

lemma copy_payload:
  assumes ok: "tl_ok ctx" and data: "0 < unat n" "unat n \<le> length data"
    and room: "unat (tl_total_recv_length (tl ctx)) + unat n \<le> length (tl_recv_packet_buffer (tl ctx)) + 1"
  shows "\<exists>buf ctx'. tl_copy_payload data n ctx = Some ctx' \<and> tl_ok ctx' \<and> keeps_ifx ctx ctx' \<and> length buf = length (tl_recv_packet_buffer (tl ctx)) \<and>
    ctx' = tl_set (\<lambda>t. t\<lparr>tl_recv_packet_buffer := buf, tl_total_recv_length := tl_total_recv_length t + (n - 1)\<rparr>) ctx \<and>
    unat (tl_total_recv_length (tl ctx')) = unat (tl_total_recv_length (tl ctx)) + (unat n - 1) \<and>
    take (unat (tl_total_recv_length (tl ctx'))) buf =
      take (unat (tl_total_recv_length (tl ctx))) (tl_recv_packet_buffer (tl ctx)) @ take (unat n - 1) (drop 1 data)"
proof -
  let ?t = "tl ctx"
  define m where "m = unat n - 1"
  have m: "unat (n - 1) = m"
    using data(1) by (simp add: m_def unat_sub_if' split: if_splits)
  define xs where "xs = take m (drop 1 data)"
  have xs: "rd_bytes (drop 1 data) m = Some xs" "length xs = m"
    using data by (auto simp: rd_bytes_def xs_def m_def)
  have fit: "unat (tl_total_recv_length ?t) + m \<le> length (tl_recv_packet_buffer ?t)" and short: "length (tl_recv_packet_buffer ?t) < 65536"
    using room data(1) ok by (auto simp: m_def tl_ok_def tl_core_def)
  define buf where "buf = take (unat (tl_total_recv_length ?t)) (tl_recv_packet_buffer ?t) @ xs @
      drop (unat (tl_total_recv_length ?t) + m) (tl_recv_packet_buffer ?t)"
  have w: "wr_bytes (tl_recv_packet_buffer ?t) (unat (tl_total_recv_length ?t)) xs = Some buf"
    using fit by (simp add: wr_bytes_def buf_def xs(2))
  have len: "length buf = length (tl_recv_packet_buffer ?t)"
    using wr_bytes_length [OF w] .
  define ctx' where "ctx' = tl_set (\<lambda>t. t\<lparr>tl_recv_packet_buffer := buf, tl_total_recv_length := tl_total_recv_length t + (n - 1)\<rparr>) ctx"
  have tot: "unat (tl_total_recv_length ?t + (n - 1)) = unat (tl_total_recv_length ?t) + m"
    using fit short by (subst unat_word_ariths(1)) (simp add: m)
  have "tl_ok ctx'"
    using ok len tot fit by (simp add: ctx'_def tl_ok_def tl_core_def)
  moreover have "tl_copy_payload data n ctx = Some ctx'"
    by (simp add: tl_copy_payload_def m xs(1)[simplified] w ctx'_def)
  moreover have "take (unat (tl_total_recv_length (tl ctx'))) buf = take (unat (tl_total_recv_length ?t)) (tl_recv_packet_buffer ?t) @ xs"
    using fit xs(2) by (simp add: ctx'_def tot buf_def)
  ultimately show ?thesis
    using len tot by (intro exI [of _ buf] exI [of _ ctx']) (simp add: ctx'_def m_def xs_def)
qed

lemma check_chaining_total: "c \<noteq> TL_CHAINING_ERROR \<Longrightarrow> \<exists>s. ifx_i2c_tl_check_chaining_error c q = Some s"
  by (auto simp: ifx_i2c_tl_check_chaining_error_def pctr_states_table_def nth_opt_def tl_consts)

lemma tl_rx_case:
  assumes ok: "tl_ok ctx" and k: "keeps_ifx c ctx" and st: "tl_state (tl ctx) = TL_STATE_RX" and f: "tl_fits p n (tl ctx)"
    and ev: "dl_event_ok p n" and ch: "ch = (case p of None \<Rightarrow> 0 | Some data \<Rightarrow> data ! 0) AND TL_PCTR_CHAIN_MASK"
  shows "tl_case_goes p n c (tl_case_rx e p ch n ctx)"
proof -
  have err: "tl_case_goes p n c (Some (set_tl_state s ctx, True))" if "s \<in> {TL_STATE_ERROR, TL_STATE_RESEND}" for s
    using that ok k by auto
  show ?thesis
  proof (cases "event_has e IFX_I2C_DL_EVENT_RX_SUCCESS \<and> TL_HEADER_SIZE \<le> unat n")
    case True
    show ?thesis
    proof (cases "tl_error_event (tl ctx) = STACK_MEM_ERROR")
      case mem: True
      have "tl_case_goes p n c (do { (status, ctx) \<leftarrow> ifx_i2c_dl_receive_frame ctx;
            if status \<noteq> STACK_SUCCESS then Some (set_tl_state TL_STATE_ERROR ctx, True)
            else Some (set_tl_state TL_STATE_RX ctx, False) })"
        by (rule then_dl_receive [OF ok k]) (use f in \<open>auto simp: tl_fits_state\<close>)
      then show ?thesis
        using True mem err [of TL_STATE_ERROR] by (simp add: tl_case_rx_def)
    next
      case nomem: False
      have "ch \<noteq> TL_CHAINING_ERROR"
        using f st by (cases p) (auto simp: ch tl_fits_def tl_consts)
      then obtain s where s: "ifx_i2c_tl_check_chaining_error ch (tl_previous_chaining (tl ctx)) = Some s"
        using check_chaining_total by blast
      define ctx1 where "ctx1 = tl_set (\<lambda>t. t\<lparr>tl_previous_chaining := ch\<rparr>) ctx"
      have ok1: "tl_ok ctx1" "keeps_ifx c ctx1" "tl_fits p n (tl ctx1)"
        using ok k f by (auto simp: ctx1_def tl_ok_def)
      show ?thesis
      proof (cases p)
        case None
        then show ?thesis
          using True nomem s err ok1 by (auto simp: tl_case_rx_def Let_def ctx1_def [symmetric])
      next
        case (Some data)
        show ?thesis
        proof (cases "ch = TL_CHAINING_NO \<or> ch = TL_CHAINING_LAST")
          case last: True
          have d: "0 < unat n" "unat n \<le> length data"
            using dl_event_ok_Some ev Some by auto
          have room: "unat (tl_total_recv_length (tl ctx1)) + unat n \<le> length (tl_recv_packet_buffer (tl ctx1)) + 1"
            using ok1(3) last st by (auto simp: tl_fits_def Some ch ctx1_def)
          obtain ctx2 where c2: "tl_copy_payload data n ctx1 = Some ctx2" "tl_ok ctx2" "keeps_ifx ctx1 ctx2"
            using copy_payload [OF ok1(1) d room] by blast
          have "tl_ok (tl_set (\<lambda>t. t\<lparr>tl_state := TL_STATE_IDLE, tl_recv_packet_buffer_length := tl_total_recv_length t\<rparr>) ctx2)"
            using c2(2) by (simp add: tl_ok_def tl_core_def)
          then have "tl_ok (tl_upcall STACK_SUCCESS (Some (tl_recv_packet_buffer (tl ctx2))) (tl_total_recv_length (tl ctx2))
              (tl_set (\<lambda>t. t\<lparr>tl_state := TL_STATE_IDLE, tl_recv_packet_buffer_length := tl_total_recv_length t\<rparr>) ctx2))"
            by (rule tl_ok_upcall) (use c2(2) in \<open>simp add: tl_up_ok_def tl_ok_def tl_core_def\<close>)
          then show ?thesis
            using True nomem s err [of TL_STATE_RESEND] last Some c2(1) keeps_ifx_trans [OF ok1(2) c2(3)]
            by (simp add: tl_case_rx_def Let_def ctx1_def [symmetric])
        next
          case False
          have "tl_fits p n ((tl ctx1)\<lparr>tl_state := TL_STATE_CHAINING\<rparr>)"
            using ok1(3) st by (simp add: ctx1_def tl_fits_def split: option.splits)
          then show ?thesis
            using True nomem s err [of TL_STATE_RESEND] Some False ok1 by (simp add: tl_case_rx_def Let_def ctx1_def [symmetric])
        qed
      qed
    qed
  qed (use err [of TL_STATE_ERROR] in \<open>auto simp: tl_case_rx_def not_le\<close>)
qed

lemma tl_chaining_case:
  assumes ok: "tl_ok ctx" and k: "keeps_ifx c ctx" and st: "tl_state (tl ctx) = TL_STATE_CHAINING" and f: "tl_fits p n (tl ctx)"
    and ev: "dl_event_ok p n"
  shows "tl_case_goes p n c (tl_case_chaining p pctr n ctx)"
proof (cases "uint n \<noteq> uint (tl_max_packet_length (tl ctx)) + 1 \<or>
    uint (tl_total_recv_length (tl ctx)) + uint n - 1 > uint (tl_recv_packet_buffer_length (tl ctx)) \<or> p = None")
  case True
  have "tl_fits p n ((tl ctx)\<lparr>tl_error_event := STACK_MEM_ERROR, tl_state := TL_STATE_RX\<rparr>)"
    using f st by (simp add: tl_fits_def split: option.splits)
  then show ?thesis
    using True ok k f by (auto simp: tl_case_chaining_def tl_fits_state tl_ok_def)
next
  case False
  then obtain data where p: "p = Some data"
    by auto
  have d: "0 < unat n" "unat n \<le> length data"
    using dl_event_ok_Some ev p by auto
  have "unat (tl_total_recv_length (tl ctx)) + unat n \<le> unat (tl_recv_packet_buffer_length (tl ctx)) + 1"
    using False unfolding uint_nat by linarith
  then have room: "unat (tl_total_recv_length (tl ctx)) + unat n \<le> length (tl_recv_packet_buffer (tl ctx)) + 1"
    using ok by (simp add: tl_ok_def tl_core_def)
  obtain ctx1 where c1: "tl_copy_payload data n ctx = Some ctx1" "tl_ok ctx1" "keeps_ifx ctx ctx1"
    using copy_payload [OF ok d room] by blast
  have "tl_case_goes p n c (do { (status, ctx) \<leftarrow> ifx_i2c_dl_receive_frame
            (tl_set (\<lambda>t. t\<lparr>tl_previous_chaining := pctr, tl_state := TL_STATE_RX\<rparr>) ctx1);
          Some (if status \<noteq> STACK_SUCCESS then set_tl_state TL_STATE_ERROR ctx else ctx, False) })"
    by (rule then_dl_receive [where c = c]) (use c1 keeps_ifx_trans [OF k c1(3)] in \<open>auto simp: tl_ok_def intro: keeps_ifx_trans\<close>)
  then show ?thesis
    using False p c1(1) by (simp add: tl_case_chaining_def)
qed

lemma tl_resend_case:
  assumes ok: "tl_ok ctx" and k: "keeps_ifx c ctx" and st: "tl_state (tl ctx) = TL_STATE_RESEND" and f: "tl_fits p n (tl ctx)"
  shows "tl_case_goes p n c (tl_case_resend n ctx)"
proof -
  define ctx1 where "ctx1 = tl_set (\<lambda>t. t\<lparr>tl_chaining_error_count := tl_chaining_error_count t + 1\<rparr>) ctx"
  have ok1: "tl_ok ctx1" "keeps_ifx c ctx1" "tl_fits p n (tl ctx1)"
    using ok k f by (auto simp: ctx1_def tl_ok_def)
  define ctx2 where "ctx2 = tl_set (\<lambda>t. t\<lparr>tl_packet_offset := 0, tl_total_recv_length := 0, tl_state := TL_STATE_TX\<rparr>)
    (set_tl_state TL_STATE_IDLE ctx1)"
  have ok2: "tl_ok ctx2" "keeps_ifx c ctx2"
    using ok1 by (auto simp: ctx2_def tl_ok_def)
  obtain s ctx3 where c3: "ifx_i2c_tl_send_next_fragment ctx2 = Some (s, ctx3)" "tl_ok ctx3" "keeps_ifx c ctx3" "keeps_ifx ctx2 ctx3"
    using send_next_fragment_goes [OF ok2] send_next_fragment_goes [OF ok2(1) keeps_ifx_refl] by (auto simp: tl_goes_def)
  have r: "ifx_i2c_tl_resend_packets (set_tl_state TL_STATE_IDLE ctx1) = Some (s, ctx3)"
    using c3(1) by (simp add: ifx_i2c_tl_resend_packets_def ctx2_def)
  then show ?thesis
    using ok k f ok1 c3 r by (auto simp: tl_case_resend_def Let_def ctx1_def [symmetric])
qed

lemma tl_chaining_error_case:
  assumes ok: "tl_ok ctx" and k: "keeps_ifx c ctx"
  shows "tl_case_goes p n c (tl_case_chaining_error ctx)"
proof -
  define ctx1 where "ctx1 = tl_set (\<lambda>t. t\<lparr>tl_state := TL_STATE_TX,
            tl_master_chaining_error_count := tl_master_chaining_error_count t + 1\<rparr>) ctx"
  have ok1: "tl_ok ctx1" "keeps_ifx c ctx1"
    using ok k by (auto simp: ctx1_def tl_ok_def)
  define ctx2 where "ctx2 = ctx1\<lparr>tx_frame_buffer := (tx_frame_buffer ctx1)[3 := 7]\<rparr>"
  have "tl_ok ctx2"
    unfolding ctx2_def by (rule tl_ok_frame [OF ok1(1)]) (simp add: tl_ok_length [OF ok1(1)])
  then have ok2: "tl_ok (tl_set (\<lambda>t. t\<lparr>tl_total_recv_length := 0\<rparr>) ctx2)" "keeps_ifx c ctx2"
    using ok1(2) by (auto simp: tl_ok_def ctx2_def)
  have "ifx_i2c_tl_send_chaining_error ctx1 = ifx_i2c_dl_send_frame (tl_set (\<lambda>t. t\<lparr>tl_total_recv_length := 0\<rparr>) ctx2) 1"
    by (simp add: ifx_i2c_tl_send_chaining_error_def IFX_I2C_TL_HEADER_OFFSET_def tl_ok_length [OF ok1(1)] ctx2_def)
  then have "tl_goes c (ifx_i2c_tl_send_chaining_error ctx1)"
    using tl_goes_dl_send [OF ok2(1)] ok2(2) by simp
  then show ?thesis
    using ok1 by (auto simp: tl_case_chaining_error_def Let_def ctx1_def [symmetric] tl_goes_def)
qed

lemma tl_round_goes:
  assumes ok: "tl_ok ctx" and k: "keeps_ifx c ctx" and f: "tl_fits p n (tl ctx)" and ev: "dl_event_ok p n"
  shows "tl_case_goes p n c (tl_handler_round e p n ctx)"
proof -
  define pctr where "pctr = (case p of None \<Rightarrow> 0 | Some data \<Rightarrow> data ! 0)"
  have p: "tl_pctr p = Some pctr"
    using dl_event_ok_Some ev by (cases p) (fastforce simp: tl_pctr_def rd_def pctr_def)+
  define ctx1 where "ctx1 = (if event_has e IFX_I2C_DL_EVENT_ERROR \<or> pctr AND TL_PCTR_CHANNEL_MASK \<noteq> 0
       then tl_set (\<lambda>t. t\<lparr>tl_state := TL_STATE_ERROR, tl_error_event := STACK_ERROR\<rparr>) ctx else ctx)"
  have ok1: "tl_ok ctx1" "keeps_ifx c ctx1"
    using ok k by (auto simp: ctx1_def tl_ok_def)
  have f1: "tl_fits p n (tl ctx1)"
    using f by (auto simp: ctx1_def tl_fits_def split: option.splits)
  note round = tl_handler_round_def p ctx1_def [symmetric]
  have up: "tl_ok (tl_upcall e' None 0 ctx')" if "tl_ok ctx'" for e' ctx'
    using that by (auto simp: tl_up_ok_def intro: tl_ok_upcall)
  show ?thesis
  proof (cases "tl_state (tl ctx1)")
    case TL_STATE_TX
    have "pctr AND TL_PCTR_CHAIN_MASK = data ! 0 AND TL_PCTR_CHAIN_MASK" if "p = Some data" for data
      using that by (simp add: pctr_def)
    then show ?thesis
      using tl_tx_case [OF ok1 TL_STATE_TX f1, of "pctr AND TL_PCTR_CHAIN_MASK" e] TL_STATE_TX by (simp add: round)
  next
    case TL_STATE_RX
    have "tl_case_goes p n c (tl_case_rx e p (pctr AND TL_PCTR_CHAIN_MASK) n ctx1)"
      by (rule tl_rx_case [OF ok1 TL_STATE_RX f1 ev]) (simp add: pctr_def)
    then show ?thesis
      using TL_STATE_RX by (simp add: round)
  next
    case TL_STATE_CHAINING
    then show ?thesis
      using tl_chaining_case [OF ok1 TL_STATE_CHAINING f1 ev] by (simp add: round)
  next
    case TL_STATE_RESEND
    then show ?thesis
      using tl_resend_case [OF ok1 TL_STATE_RESEND f1] by (simp add: round)
  next
    case TL_STATE_CHAINING_ERROR
    then show ?thesis
      using tl_chaining_error_case [OF ok1] by (simp add: round)
  qed (use ok1 in \<open>auto simp: round tl_case_idle_def tl_case_error_def tl_case_default_def Let_def up\<close>)
qed

lemma tl_loop_goes:
  "tl_ok ctx \<Longrightarrow> keeps_ifx c ctx \<Longrightarrow> tl_fits p n (tl ctx) \<Longrightarrow> dl_event_ok p n \<Longrightarrow>
   \<exists>ctx'. tl_handler_loop e p n ctx = Some ctx' \<and> tl_ok ctx' \<and> keeps_ifx c ctx'"
proof (induction e p n ctx rule: tl_handler_loop.induct)
  case (1 e p n ctx)
  obtain ctx' go where r: "tl_handler_round e p n ctx = Some (ctx', go)" "tl_ok ctx'" "keeps_ifx c ctx'"
      "go \<longrightarrow> tl_fits p n (tl ctx')"
    using tl_round_goes [OF 1(2-5), of e] unfolding tl_case_goes_def by blast
  show ?case
    using r 1(1) [of "(ctx', go)" ctx' go] 1(5) by (subst tl_handler_loop.simps) auto
qed

lemma tl_handler_goes:
  assumes "tl_ok ctx" "tl_fits p n (tl ctx)" "dl_event_ok p n"
  shows "\<exists>ctx'. ifx_i2c_dl_event_handler ctx e p n = Some ctx' \<and> tl_ok ctx' \<and> keeps_ifx ctx ctx'"
  using tl_loop_goes [OF assms(1) keeps_ifx_refl assms(2,3)] by (simp add: ifx_i2c_dl_event_handler_def)

section \<open>Receive buffers with room to spare\<close>

text \<open>
  While a response is under way it is inside the announced length of the receive buffer, and the
  object behind it holds one fragment more. This is enough for every fragment that a frame can carry:
  the chained ones are compared with the announced length, the last one is not.
\<close>

definition tl_roomy :: "ifx_i2c_tl \<Rightarrow> bool" where
  "tl_roomy t \<longleftrightarrow> tl_state t \<in> {TL_STATE_UNINIT, TL_STATE_IDLE, TL_STATE_ERROR} \<or>
     unat (tl_total_recv_length t) \<le> unat (tl_recv_packet_buffer_length t) \<and>
     unat (tl_recv_packet_buffer_length t) + 294 \<le> length (tl_recv_packet_buffer t)"

definition keeps_room :: "tl_round \<Rightarrow> bool" where
  "keeps_room r \<longleftrightarrow> (\<forall>ctx' go. r = Some (ctx', go) \<longrightarrow> tl_roomy (tl ctx'))"

lemma keeps_room_Some [simp]: "keeps_room (Some (ctx', go)) \<longleftrightarrow> tl_roomy (tl ctx')" "keeps_room None"
  by (simp_all add: keeps_room_def)

lemma keeps_room_bind: "(\<And>x. r = Some x \<Longrightarrow> keeps_room (k x)) \<Longrightarrow> keeps_room (Option.bind r k)"
  by (cases r) simp_all

lemma tl_roomy_state [simp]:
  "s \<in> {TL_STATE_UNINIT, TL_STATE_IDLE, TL_STATE_ERROR} \<Longrightarrow> tl_roomy (t\<lparr>tl_state := s\<rparr>)"
  "tl_roomy (t\<lparr>tl_error_event := e\<rparr>) \<longleftrightarrow> tl_roomy t" "tl_roomy (t\<lparr>tl_previous_chaining := q\<rparr>) \<longleftrightarrow> tl_roomy t"
  by (auto simp: tl_roomy_def)

lemma tl_roomy_goes_on: "tl_roomy t \<Longrightarrow> tl_state t \<notin> {TL_STATE_UNINIT, TL_STATE_IDLE, TL_STATE_ERROR} \<Longrightarrow> tl_roomy (t\<lparr>tl_state := s\<rparr>)"
  by (auto simp: tl_roomy_def)

lemma roomy_send_next:
  "tl_ok ctx \<Longrightarrow> tl_roomy (tl ctx) \<Longrightarrow> (\<And>st ctx'. tl_roomy (tl ctx') \<Longrightarrow> keeps_room (k (st, ctx'))) \<Longrightarrow>
   keeps_room (Option.bind (ifx_i2c_tl_send_next_fragment ctx) k)"
  unfolding with_fragment(1)
  by (rule then_dl_send [where c = "with_fragment ctx"])
    (use with_fragment [of ctx] in \<open>auto simp: tl_roomy_def with_fragment_def\<close>)

lemma roomy_receive:
  "tl_ok ctx \<Longrightarrow> (\<And>st ctx'. tl ctx' = tl ctx \<Longrightarrow> keeps_room (k (st, ctx'))) \<Longrightarrow>
   keeps_room (Option.bind (ifx_i2c_dl_receive_frame ctx) k)"
  by (rule then_dl_receive [where c = ctx]) auto

text \<open>With such a buffer only the chaining error code, received when nothing is sent, is left.\<close>

definition chaining_code_ok :: "byte list option \<Rightarrow> ifx_i2c_tl \<Rightarrow> bool" where
  "chaining_code_ok p_data t \<longleftrightarrow>
     (case p_data of None \<Rightarrow> True
      | Some data \<Rightarrow> data ! 0 AND TL_PCTR_CHAIN_MASK = TL_CHAINING_ERROR \<longrightarrow>
          tl_state t \<notin> {TL_STATE_RX, TL_STATE_CHAINING} \<and>
          (tl_state t = TL_STATE_TX \<longrightarrow> tl_packet_offset t < tl_actual_packet_length t))"

lemma roomy_fits: "tl_roomy t \<Longrightarrow> chaining_code_ok p t \<Longrightarrow> dl_event_ok p n \<Longrightarrow> tl_fits p n t"
  by (auto simp: tl_fits_def tl_roomy_def chaining_code_ok_def dl_event_ok_def split: option.splits)

lemma roomy_tx:
  assumes ok: "tl_ok ctx" "tl_roomy (tl ctx)" and st: "tl_state (tl ctx) = TL_STATE_TX"
  shows "keeps_room (tl_case_tx e ch n ctx)"
proof -
  define ctx1 where "ctx1 = tl_set (\<lambda>t. t\<lparr>tl_state := TL_STATE_RX, tl_total_recv_length := 0,
            tl_previous_chaining := TL_CHAINING_NO, tl_transmission_completed := True\<rparr>) ctx"
  have ok1: "tl_ok ctx1" "tl_roomy (tl ctx1)"
    using ok st by (auto simp: ctx1_def tl_ok_def tl_core_def tl_roomy_def)
  have "keeps_room (Option.bind (ifx_i2c_tl_send_next_fragment ctx) (\<lambda>(_, ctx). Some (ctx, False)))"
    by (rule roomy_send_next [OF ok]) simp
  moreover have "keeps_room (Option.bind (ifx_i2c_dl_receive_frame ctx1)
      (\<lambda>(status, ctx). Some (if status \<noteq> STACK_SUCCESS then set_tl_state TL_STATE_ERROR ctx else ctx, False)))"
    by (rule roomy_receive [OF ok1(1)]) (use ok1(2) in simp)
  moreover have "tl_roomy ((tl ctx)\<lparr>tl_state := s\<rparr>)" for s
    using ok(2) st by (intro tl_roomy_goes_on) auto
  ultimately show ?thesis
    using ok1(2) by (simp add: tl_case_tx_def Let_def ctx1_def [symmetric])
qed

lemma roomy_rx:
  assumes ok: "tl_ok ctx" "tl_roomy (tl ctx)" and st: "tl_state (tl ctx) = TL_STATE_RX"
  shows "keeps_room (tl_case_rx e p ch n ctx)"
proof -
  have go: "tl_roomy ((tl ctx)\<lparr>tl_state := s\<rparr>)" "tl_roomy ((tl ctx)\<lparr>tl_previous_chaining := q, tl_state := s\<rparr>)" for s q
    using ok(2) st by (auto intro!: tl_roomy_goes_on)
  have "keeps_room (do {
            (status, ctx) \<leftarrow> ifx_i2c_dl_receive_frame ctx;
            if status \<noteq> STACK_SUCCESS then Some (set_tl_state TL_STATE_ERROR ctx, True)
            else Some (set_tl_state TL_STATE_RX ctx, False)
          })"
    by (rule roomy_receive [OF ok(1)]) (use go in auto)
  moreover have "keeps_room (Option.bind (tl_copy_payload data n c) (\<lambda>ctx.
      let ctx = tl_set (\<lambda>t. t\<lparr>tl_state := TL_STATE_IDLE, tl_recv_packet_buffer_length := tl_total_recv_length t\<rparr>) ctx
      in Some (tl_upcall STACK_SUCCESS (Some (tl_recv_packet_buffer (tl ctx))) (tl_recv_packet_buffer_length (tl ctx)) ctx, False)))" for data c
    by (rule keeps_room_bind) (simp add: tl_roomy_def)
  ultimately show ?thesis
    using go by (auto simp: tl_case_rx_def Let_def split: option.split intro!: keeps_room_bind)
qed

lemma roomy_chaining:
  assumes ok: "tl_ok ctx" "tl_roomy (tl ctx)" and st: "tl_state (tl ctx) = TL_STATE_CHAINING" and ev: "dl_event_ok p n"
  shows "keeps_room (tl_case_chaining p ch n ctx)"
proof (cases "uint n \<noteq> uint (tl_max_packet_length (tl ctx)) + 1 \<or>
    uint (tl_total_recv_length (tl ctx)) + uint n - 1 > uint (tl_recv_packet_buffer_length (tl ctx)) \<or> p = None")
  case True
  have go: "tl_roomy ((tl ctx)\<lparr>tl_state := s\<rparr>)" "tl_roomy ((tl ctx)\<lparr>tl_error_event := q, tl_state := s\<rparr>)" for s q
    using ok(2) st by (auto intro!: tl_roomy_goes_on)
  show ?thesis
    using True go by (auto simp: tl_case_chaining_def)
next
  case False
  then obtain data where p: "p = Some data"
    by auto
  have d: "0 < unat n" "unat n \<le> length data"
    using dl_event_ok_Some ev p by auto
  have tot: "unat (tl_total_recv_length (tl ctx)) + unat n \<le> unat (tl_recv_packet_buffer_length (tl ctx)) + 1"
    using False unfolding uint_nat by linarith
  then have room: "unat (tl_total_recv_length (tl ctx)) + unat n \<le> length (tl_recv_packet_buffer (tl ctx)) + 1"
    using ok(1) by (simp add: tl_ok_def tl_core_def)
  obtain buf ctx1 where c1: "tl_copy_payload data n ctx = Some ctx1" "tl_ok ctx1" "length buf = length (tl_recv_packet_buffer (tl ctx))"
      "ctx1 = tl_set (\<lambda>t. t\<lparr>tl_recv_packet_buffer := buf, tl_total_recv_length := tl_total_recv_length t + (n - 1)\<rparr>) ctx"
      "unat (tl_total_recv_length (tl ctx1)) = unat (tl_total_recv_length (tl ctx)) + (unat n - 1)"
    using copy_payload [OF ok(1) d room] by blast
  define ctx2 where "ctx2 = tl_set (\<lambda>t. t\<lparr>tl_previous_chaining := ch, tl_state := TL_STATE_RX\<rparr>) ctx1"
  have c2: "tl_ok ctx2" "tl_roomy (tl ctx2)"
    using c1 ok(2) st tot d(1) by (auto simp: ctx2_def tl_ok_def tl_roomy_def)
  have "keeps_room (do { (status, ctx) \<leftarrow> ifx_i2c_dl_receive_frame ctx2;
          Some (if status \<noteq> STACK_SUCCESS then set_tl_state TL_STATE_ERROR ctx else ctx, False) })"
    by (rule roomy_receive [OF c2(1)]) (use c2(2) in simp)
  then show ?thesis
    using False p c1(1) by (simp add: tl_case_chaining_def ctx2_def)
qed

lemma roomy_resend:
  assumes ok: "tl_ok ctx" "tl_roomy (tl ctx)" and st: "tl_state (tl ctx) = TL_STATE_RESEND"
  shows "keeps_room (tl_case_resend n ctx)"
proof -
  define ctx1 where "ctx1 = tl_set (\<lambda>t. t\<lparr>tl_chaining_error_count := tl_chaining_error_count t + 1\<rparr>) ctx"
  define ctx2 where "ctx2 = tl_set (\<lambda>t. t\<lparr>tl_packet_offset := 0, tl_total_recv_length := 0, tl_state := TL_STATE_TX\<rparr>)
    (set_tl_state TL_STATE_IDLE ctx1)"
  have ok2: "tl_ok ctx2" "tl_roomy (tl ctx2)"
    using ok st by (auto simp: ctx2_def ctx1_def tl_ok_def tl_roomy_def)
  have "keeps_room (do { (status, ctx) \<leftarrow> ifx_i2c_tl_send_next_fragment ctx2;
             if status \<noteq> STACK_SUCCESS then Some (set_tl_state TL_STATE_ERROR ctx, True) else Some (ctx, False) })"
    by (rule roomy_send_next [OF ok2]) simp
  moreover have "tl_roomy ((tl ctx)\<lparr>tl_state := s\<rparr>)" for s
    using ok(2) st by (intro tl_roomy_goes_on) auto
  ultimately show ?thesis
    by (simp add: tl_case_resend_def Let_def ctx1_def [symmetric] ifx_i2c_tl_resend_packets_def ctx2_def)
qed

lemma roomy_chaining_error:
  assumes ok: "tl_ok ctx" "tl_roomy (tl ctx)" and st: "tl_state (tl ctx) = TL_STATE_CHAINING_ERROR"
  shows "keeps_room (tl_case_chaining_error ctx)"
proof -
  define ctx1 where "ctx1 = tl_set (\<lambda>t. t\<lparr>tl_state := TL_STATE_TX,
            tl_master_chaining_error_count := tl_master_chaining_error_count t + 1\<rparr>) ctx"
  define ctx2 where "ctx2 = tl_set (\<lambda>t. t\<lparr>tl_total_recv_length := 0\<rparr>) (ctx1\<lparr>tx_frame_buffer := (tx_frame_buffer ctx1)[3 := 7]\<rparr>)"
  have ok1: "tl_ok ctx1"
    using ok by (simp add: ctx1_def tl_ok_def)
  have "tl_ok (ctx1\<lparr>tx_frame_buffer := (tx_frame_buffer ctx1)[3 := 7]\<rparr>)"
    by (rule tl_ok_frame [OF ok1]) (simp add: tl_ok_length [OF ok1])
  then have ok2: "tl_ok ctx2" "tl_roomy (tl ctx2)"
    using ok(2) st by (auto simp: ctx2_def ctx1_def tl_ok_def tl_roomy_def)
  have "keeps_room (do { (status, ctx) \<leftarrow> ifx_i2c_dl_send_frame ctx2 1;
           if status \<noteq> STACK_SUCCESS then Some (set_tl_state TL_STATE_ERROR ctx, True) else Some (ctx, False) })"
    by (rule then_dl_send [OF ok2(1) keeps_ifx_refl]) (use ok2(2) in auto)
  moreover have "ifx_i2c_tl_send_chaining_error ctx1 = ifx_i2c_dl_send_frame ctx2 1"
    by (simp add: ifx_i2c_tl_send_chaining_error_def IFX_I2C_TL_HEADER_OFFSET_def tl_ok_length [OF ok1] ctx2_def)
  ultimately show ?thesis
    by (simp add: tl_case_chaining_error_def Let_def ctx1_def [symmetric])
qed

lemma roomy_round:
  assumes ok: "tl_ok ctx" "tl_roomy (tl ctx)" and ev: "dl_event_ok p n"
  shows "keeps_room (tl_handler_round e p n ctx)"
proof (cases "tl_pctr p")
  case (Some pctr)
  define ctx1 where "ctx1 = (if event_has e IFX_I2C_DL_EVENT_ERROR \<or> pctr AND TL_PCTR_CHANNEL_MASK \<noteq> 0
       then tl_set (\<lambda>t. t\<lparr>tl_state := TL_STATE_ERROR, tl_error_event := STACK_ERROR\<rparr>) ctx else ctx)"
  have ok1: "tl_ok ctx1" "tl_roomy (tl ctx1)"
    using ok by (auto simp: ctx1_def tl_ok_def)
  note round = tl_handler_round_def Some ctx1_def [symmetric]
  show ?thesis
    by (cases "tl_state (tl ctx1)")
      (use ok1 roomy_tx [OF ok1] roomy_rx [OF ok1] roomy_chaining [OF ok1 _ ev] roomy_resend [OF ok1] roomy_chaining_error [OF ok1]
        in \<open>simp_all add: round tl_case_idle_def tl_case_error_def tl_case_default_def Let_def\<close>)
qed (simp add: tl_handler_round_def)

lemma roomy_loop:
  "tl_ok ctx \<Longrightarrow> tl_roomy (tl ctx) \<Longrightarrow> tl_fits p n (tl ctx) \<Longrightarrow> dl_event_ok p n \<Longrightarrow> tl_handler_loop e p n ctx = Some ctx' \<Longrightarrow>
   tl_roomy (tl ctx')"
proof (induction e p n ctx rule: tl_handler_loop.induct)
  case (1 e p n ctx)
  obtain ctx1 go where r: "tl_handler_round e p n ctx = Some (ctx1, go)" "tl_ok ctx1" "go \<longrightarrow> tl_fits p n (tl ctx1)"
    using tl_round_goes [OF 1(2) keeps_ifx_refl 1(4,5), of e] unfolding tl_case_goes_def by blast
  have "tl_roomy (tl ctx1)"
    using roomy_round [OF 1(2,3,5), of e] r(1) by simp
  then show ?case
    using r 1(1) [of "(ctx1, go)" ctx1 go] 1(5,6) by (subst (asm) tl_handler_loop.simps) (auto split: if_splits)
qed

end
