(* ===== verification/Ifx_Fragments.thy ===== *)
theory Ifx_Fragments
  imports Ifx_Transport
begin

text \<open>
  Properties of the transport layer: the fragments of a packet, their way through the layer in
  both directions, the errors it answers, and the two it does not.
\<close>

section \<open>The fragments of a packet\<close>

text \<open>A packet cut into pieces of at most \<open>m\<close> bytes, each with the code of its position.\<close>

fun fragments_from :: "bool \<Rightarrow> nat \<Rightarrow> byte list \<Rightarrow> byte list list" where
  "fragments_from first m xs =
     (if m = 0 \<or> length xs \<le> m then [(if first then TL_CHAINING_NO else TL_CHAINING_LAST) # xs]
      else ((if first then TL_CHAINING_FIRST else TL_CHAINING_INTERMEDIATE) # take m xs) #
        fragments_from False m (drop m xs))"

declare fragments_from.simps [simp del]

abbreviation fragments :: "nat \<Rightarrow> byte list \<Rightarrow> byte list list" where
  "fragments \<equiv> fragments_from True"

lemma fragments_short: "length xs \<le> m \<Longrightarrow> fragments_from first m xs = [(if first then TL_CHAINING_NO else TL_CHAINING_LAST) # xs]"
  by (simp add: fragments_from.simps)

lemma fragments_long: "0 < m \<Longrightarrow> m < length xs \<Longrightarrow> fragments_from first m xs =
    ((if first then TL_CHAINING_FIRST else TL_CHAINING_INTERMEDIATE) # take m xs) # fragments_from False m (drop m xs)"
  by (subst fragments_from.simps) simp

lemma fragments_not_Nil [simp]: "fragments_from first m xs \<noteq> []"
  by (simp add: fragments_from.simps)

lemma fragments_reassemble: "concat (map (drop 1) (fragments_from first m xs)) = xs"
  by (induction first m xs rule: fragments_from.induct) (subst fragments_from.simps, simp)

section \<open>Between two events\<close>

text \<open>
  What the layers below do between two events for this one is left open: they end idle and ready,
  and leave the state of this layer and the answer it has given alone.
\<close>

definition tl_settled :: "ifx_i2c_context \<Rightarrow> ifx_i2c_context \<Rightarrow> bool" where
  "tl_settled ctx ctx' \<longleftrightarrow> tl ctx' = tl ctx \<and> tl_up ctx' = tl_up ctx \<and> tl_ok ctx' \<and>
     dl_state (dl ctx') = DL_STATE_IDLE \<and> pl_frame_state (pl ctx') = PL_STATE_READY"

text \<open>The plainest such layers, for the examples.\<close>

definition settle :: "ifx_i2c_context \<Rightarrow> ifx_i2c_context" where
  "settle ctx = set_dl_state DL_STATE_IDLE (set_pl_state PL_STATE_READY ctx)"

lemma settle_settles: "tl_ok ctx \<Longrightarrow> tl_settled ctx (settle ctx)"
  by (simp add: tl_settled_def settle_def tl_ok_def dl_ok_def dl_resting_def)
    (simp add: set_dl_state_def dl_set_def set_pl_state_def pl_set_def pl_ok_def dl_core_def)

text \<open>The payload of the frame the layers below have been given.\<close>

definition sent_payload :: "ifx_i2c_context \<Rightarrow> byte list" where
  "sent_payload ctx = take (unat (pl_tx_frame_len (pl ctx)) - 5) (drop 3 (frame_of (pl_p_tx_frame (pl ctx)) ctx))"

lemma dl_send_payload:
  assumes ok: "tl_ok ctx" and idle: "dl_state (dl ctx) = DL_STATE_IDLE" "pl_frame_state (pl ctx) = PL_STATE_READY"
    and n: "0 < n" "n \<le> 295"
  shows "\<exists>ctx'. ifx_i2c_dl_send_frame ctx (word_of_nat n) = Some (STACK_SUCCESS, ctx') \<and> tl_ok ctx' \<and> keeps_ifx ctx ctx' \<and>
    tl ctx' = tl ctx \<and> tl_up ctx' = tl_up ctx \<and> sent_payload ctx' = take n (drop 3 (tx_frame_buffer ctx))"
proof -
  let ?n = "word_of_nat n :: u16"
  have u: "unat ?n = n" "?n \<noteq> 0" "unat (5 + ?n) = n + 5"
    using n by (auto simp: unat_of_nat unat_word_ariths word_unat_eq_iff)
  have dl: "dl_ok ctx" "dl_resting ctx"
    using ok by (simp_all add: tl_ok_def)
  obtain ctx' fctr where r: "ifx_i2c_dl_send_frame ctx ?n = Some (STACK_SUCCESS, ctx')"
      "pl_p_tx_frame (pl ctx') = TxFrame" "pl_tx_frame_len (pl ctx') = 5 + ?n"
      "take (n + 5) (tx_frame_buffer ctx') = dl_frame fctr (take n (drop 3 (tx_frame_buffer ctx)))"
    using dl_send_frame_on_wire [OF dl(1) idle u(2)] u n(2) by auto
  have kept: "dl_ok ctx' \<and> dl_resting ctx'" "keeps_quiet ctx ctx'"
    using dl_send.kept [OF r(1)] dl u n by auto
  have "take n (drop 3 (tx_frame_buffer ctx')) = take n (drop 3 (take (n + 5) (tx_frame_buffer ctx')))"
    by (simp add: drop_take)
  also have "\<dots> = take n (drop 3 (tx_frame_buffer ctx))"
    unfolding r(4) using n tl_ok_length [OF ok] by (simp add: dl_frame_def Let_def)
  finally have "sent_payload ctx' = take n (drop 3 (tx_frame_buffer ctx))"
    using r(2,3) u(3) by (simp add: sent_payload_def frame_of_def)
  then show ?thesis
    using r(1) tl_ok_quiet [OF ok _ _ kept(2)] kept by (auto simp: keeps_quiet_def keeps_tl_def)
qed

lemma send_next_payload:
  assumes ok: "tl_ok ctx" and idle: "dl_state (dl ctx) = DL_STATE_IDLE" "pl_frame_state (pl ctx) = PL_STATE_READY"
  shows "\<exists>ctx'. ifx_i2c_tl_send_next_fragment ctx = Some (STACK_SUCCESS, ctx') \<and> tl_ok ctx' \<and> keeps_ifx ctx ctx' \<and>
    tl ctx' = (tl ctx)\<lparr>tl_packet_offset := tl_packet_offset (tl ctx) + word_of_nat (fragment_len (tl ctx))\<rparr> \<and>
    tl_up ctx' = tl_up ctx \<and> sent_payload ctx' = fragment_at (tl ctx)"
proof -
  let ?k = "fragment_len (tl ctx)"
  have "drop 3 (tx_frame_buffer (with_fragment ctx)) = fragment_at (tl ctx) @ drop (4 + ?k) (tx_frame_buffer ctx)"
    using tl_ok_length [OF ok] by (simp add: with_fragment_def)
  then have "take (?k + 1) (drop 3 (tx_frame_buffer (with_fragment ctx))) = fragment_at (tl ctx)"
    using send_next_fragment_eq(2) [OF ok] by simp
  moreover have "keeps_ifx ctx c \<longleftrightarrow> keeps_ifx (with_fragment ctx) c" for c
    by (simp add: with_fragment_def keeps_ifx_def tl_set_def)
  moreover have "dl (with_fragment ctx) = dl ctx" "pl (with_fragment ctx) = pl ctx" "tl_up (with_fragment ctx) = tl_up ctx"
    "tl (with_fragment ctx) = (tl ctx)\<lparr>tl_packet_offset := tl_packet_offset (tl ctx) + word_of_nat ?k\<rparr>"
    by (simp_all add: with_fragment_def)
  ultimately show ?thesis
    using dl_send_payload [of "with_fragment ctx" "?k + 1"] with_fragment [OF ok] idle by simp
qed

lemma transceive_accepted:
  assumes ok: "tl_ok ctx" "tl_state (tl ctx) = TL_STATE_IDLE" "dl_state (dl ctx) = DL_STATE_IDLE" "pl_frame_state (pl ctx) = PL_STATE_READY"
    and args: "n \<noteq> 0" "transceive_args (Some packet) n r m"
  shows "\<exists>ctx1. ifx_i2c_tl_transceive ctx (Some packet) n r m = Some (STACK_SUCCESS, ctx1)"
  using send_next_payload [of "tl_request packet n r m ctx"] tl_request_ok [OF ok(1) args(2)] ok(2-4) args(1)
  by (auto simp: ifx_i2c_tl_transceive_def)

section \<open>Sending a packet\<close>

text \<open>What is still to be sent.\<close>

definition rest_of :: "ifx_i2c_tl \<Rightarrow> byte list" where
  "rest_of t = drop (unat (tl_packet_offset t)) (take (unat (tl_actual_packet_length t)) (tl_actual_packet t))"

lemma fragment_code:
  assumes "tl_core t"
  shows "ifx_i2c_tl_calculate_pctr t =
    (if length (rest_of t) \<le> unat (tl_max_packet_length t)
     then if tl_packet_offset t = 0 then TL_CHAINING_NO else TL_CHAINING_LAST
     else if tl_packet_offset t = 0 then TL_CHAINING_FIRST else TL_CHAINING_INTERMEDIATE)"
proof -
  have "length (rest_of t) = unat (tl_actual_packet_length t - tl_packet_offset t)"
    using assms by (auto simp: tl_core_def rest_of_def unat_sub_if' word_le_nat_alt)
  then show ?thesis
    by (auto simp: ifx_i2c_tl_calculate_pctr_def Let_def word_le_nat_alt word_less_nat_alt)
qed

lemma fragment_bytes:
  assumes "tl_core t"
  shows "fragment_at t = ifx_i2c_tl_calculate_pctr t # take (unat (tl_max_packet_length t)) (rest_of t)"
    and "fragment_len t = min (unat (tl_max_packet_length t)) (length (rest_of t))"
  using assms by (auto simp: fragment_at_def fragment_len_def rest_of_def tl_core_def min_def take_drop word_le_nat_alt)

text \<open>The head of the fragments of the rest, and the rest after it.\<close>

lemma fragment_at_next:
  assumes core: "tl_core t" and m: "0 < unat (tl_max_packet_length t)"
    and t': "unat (tl_packet_offset t') = unat (tl_packet_offset t) + fragment_len t" "tl_actual_packet t' = tl_actual_packet t"
      "tl_actual_packet_length t' = tl_actual_packet_length t"
  shows "fragments_from (tl_packet_offset t = 0) (unat (tl_max_packet_length t)) (rest_of t) =
    fragment_at t # (if rest_of t' = [] then [] else fragments_from False (unat (tl_max_packet_length t)) (rest_of t'))"
    and "rest_of t' = drop (unat (tl_max_packet_length t)) (rest_of t)"
proof -
  have r: "rest_of t' = drop (fragment_len t) (rest_of t)"
    by (simp add: rest_of_def t' add.commute)
  then show rest: "rest_of t' = drop (unat (tl_max_packet_length t)) (rest_of t)"
    by (simp add: fragment_bytes(2) [OF core] min_def)
  show "fragments_from (tl_packet_offset t = 0) (unat (tl_max_packet_length t)) (rest_of t) =
    fragment_at t # (if rest_of t' = [] then [] else fragments_from False (unat (tl_max_packet_length t)) (rest_of t'))"
    using m by (cases "length (rest_of t) \<le> unat (tl_max_packet_length t)")
      (simp_all add: rest fragment_bytes(1) [OF core] fragment_code [OF core] fragments_short fragments_long)
qed

text \<open>The layers below acknowledge \<open>n\<close> frames, one after the other; what was sent after each.\<close>

primrec run_tx :: "(ifx_i2c_context \<Rightarrow> ifx_i2c_context) \<Rightarrow> nat \<Rightarrow> ifx_i2c_context \<Rightarrow> (byte list list \<times> ifx_i2c_context) option" where
  "run_tx link 0 ctx = Some ([], ctx)"
| "run_tx link (Suc n) ctx = do {
     ctx \<leftarrow> ifx_i2c_dl_event_handler (link ctx) IFX_I2C_DL_EVENT_TX_SUCCESS None 0;
     (fs, ctx') \<leftarrow> run_tx link n ctx;
     Some (sent_payload ctx # fs, ctx')
   }"

lemma tl_loop_stop: "tl_handler_round e p n ctx = Some (ctx', False) \<Longrightarrow> tl_handler_loop e p n ctx = Some ctx'"
  by (subst tl_handler_loop.simps) simp

lemma tl_loop_go: "tl_handler_round e p n ctx = Some (ctx', True) \<Longrightarrow> tl_handler_loop e p n ctx = tl_handler_loop e p n ctx'"
  by (subst tl_handler_loop.simps) simp

lemma event_flags [simp]:
  "event_has IFX_I2C_DL_EVENT_TX_SUCCESS IFX_I2C_DL_EVENT_TX_SUCCESS" "\<not> event_has IFX_I2C_DL_EVENT_TX_SUCCESS IFX_I2C_DL_EVENT_ERROR"
  "\<not> event_has IFX_I2C_DL_EVENT_TX_SUCCESS IFX_I2C_DL_EVENT_RX_SUCCESS"
  "event_has IFX_I2C_DL_EVENT_RX_SUCCESS IFX_I2C_DL_EVENT_RX_SUCCESS" "\<not> event_has IFX_I2C_DL_EVENT_RX_SUCCESS IFX_I2C_DL_EVENT_ERROR"
  "\<not> event_has IFX_I2C_DL_EVENT_RX_SUCCESS IFX_I2C_DL_EVENT_TX_SUCCESS"
  "event_has IFX_I2C_DL_EVENT_ERROR IFX_I2C_DL_EVENT_ERROR"
  by (simp_all add: event_has_def dl_consts)

lemma acked_sends_next:
  assumes ok: "tl_settled ctx c" and st: "tl_state (tl ctx) = TL_STATE_TX" and o: "tl_packet_offset (tl ctx) < tl_actual_packet_length (tl ctx)"
  shows "\<exists>ctx'. ifx_i2c_dl_event_handler c IFX_I2C_DL_EVENT_TX_SUCCESS None 0 = Some ctx' \<and> tl_ok ctx' \<and> tl_up ctx' = tl_up ctx \<and>
    tl ctx' = (tl ctx)\<lparr>tl_packet_offset := tl_packet_offset (tl ctx) + word_of_nat (fragment_len (tl ctx))\<rparr> \<and>
    sent_payload ctx' = fragment_at (tl ctx)"
proof -
  have c: "tl c = tl ctx" "tl_up c = tl_up ctx" "tl_ok c"
    using ok by (simp_all add: tl_settled_def)
  obtain ctx' where s: "ifx_i2c_tl_send_next_fragment c = Some (STACK_SUCCESS, ctx')" "tl_ok ctx'" "tl_up ctx' = tl_up c"
      "tl ctx' = (tl c)\<lparr>tl_packet_offset := tl_packet_offset (tl c) + word_of_nat (fragment_len (tl c))\<rparr>"
      "sent_payload ctx' = fragment_at (tl c)"
    using send_next_payload [of c] ok by (auto simp: tl_settled_def)
  have "tl_handler_round IFX_I2C_DL_EVENT_TX_SUCCESS None 0 c = Some (ctx', False)"
    using c st o s(1) by (simp add: tl_handler_round_def tl_pctr_def tl_case_tx_def tl_consts)
  then show ?thesis
    using s c by (simp add: ifx_i2c_dl_event_handler_def tl_loop_stop)
qed

lemma run_tx_rest:
  assumes link: "\<And>c. tl_ok c \<Longrightarrow> tl_settled c (link c)"
  shows "tl_ok ctx \<Longrightarrow> tl_state (tl ctx) = TL_STATE_TX \<Longrightarrow> 0 < unat (tl_max_packet_length (tl ctx)) \<Longrightarrow> tl_packet_offset (tl ctx) \<noteq> 0 \<Longrightarrow>
    fs = (if rest_of (tl ctx) = [] then [] else fragments_from False (unat (tl_max_packet_length (tl ctx))) (rest_of (tl ctx))) \<Longrightarrow>
    \<exists>ctx'. run_tx link (length fs) ctx = Some (fs, ctx') \<and> tl_ok ctx' \<and> rest_of (tl ctx') = [] \<and> tl_state (tl ctx') = TL_STATE_TX"
proof (induction "length (rest_of (tl ctx))" arbitrary: ctx fs rule: less_induct)
  case less
  let ?t = "tl ctx" and ?m = "unat (tl_max_packet_length (tl ctx))"
  show ?case
  proof (cases "rest_of ?t = []")
    case True
    then show ?thesis
      using less.prems by simp
  next
    case False
    have core: "tl_core ?t"
      using less.prems(1) by (simp add: tl_ok_def)
    have o: "tl_packet_offset ?t < tl_actual_packet_length ?t"
      using False by (auto simp: rest_of_def word_less_nat_alt)
    obtain ctx1 where h: "ifx_i2c_dl_event_handler (link ctx) IFX_I2C_DL_EVENT_TX_SUCCESS None 0 = Some ctx1" "tl_ok ctx1"
        "tl ctx1 = ?t\<lparr>tl_packet_offset := tl_packet_offset ?t + word_of_nat (fragment_len ?t)\<rparr>" "sent_payload ctx1 = fragment_at ?t"
      using acked_sends_next [OF link [OF less.prems(1)] less.prems(2) o] by blast
    have off: "unat (tl_packet_offset (tl ctx1)) = unat (tl_packet_offset ?t) + fragment_len ?t"
      using with_fragment(6) [OF less.prems(1)] h(3) by simp
    have next_fragment: "fs = fragment_at ?t # (if rest_of (tl ctx1) = [] then [] else fragments_from False ?m (rest_of (tl ctx1)))"
        and shorter: "rest_of (tl ctx1) = drop ?m (rest_of ?t)"
      using fragment_at_next [OF core less.prems(3) off] less.prems(4,5) False h(3) by simp_all
    define gs where "gs = (if rest_of (tl ctx1) = [] then [] else fragments_from False ?m (rest_of (tl ctx1)))"
    have "tl_packet_offset (tl ctx1) \<noteq> 0"
      using off less.prems(4) by (metis add_is_0 unat_eq_zero)
    moreover have "tl_max_packet_length (tl ctx1) = tl_max_packet_length ?t" "tl_state (tl ctx1) = TL_STATE_TX"
      using less.prems(2) by (simp_all add: h(3))
    moreover have "length (rest_of (tl ctx1)) < length (rest_of ?t)"
      using less.prems(3) False by (simp add: shorter)
    ultimately obtain ctx' where "run_tx link (length gs) ctx1 = Some (gs, ctx')" "tl_ok ctx'" "rest_of (tl ctx') = []"
        "tl_state (tl ctx') = TL_STATE_TX"
      using less.hyps [of ctx1 gs] h(2) less.prems(3) by (metis gs_def)
    moreover have "fs = fragment_at ?t # gs"
      using next_fragment by (simp only: gs_def)
    ultimately show ?thesis
      using h(1,4) by simp
  qed
qed

text \<open>
  C23: sending a packet of any length: whatever the layers below do between two acknowledgements (as
  long as they come back idle and ready), the frames that are put on the wire carry exactly the
  fragments of the packet with the codes none, first, intermediate and last, and after as many
  acknowledgements as there are further fragments the packet is used up.
\<close>

theorem tl_sends_fragments:
  assumes link: "\<And>c. tl_ok c \<Longrightarrow> tl_settled c (link c)"
    and ok: "tl_ok ctx" "tl_state (tl ctx) = TL_STATE_IDLE" "dl_state (dl ctx) = DL_STATE_IDLE" "pl_frame_state (pl ctx) = PL_STATE_READY"
    and m: "unat (tl_max_packet_length (tl ctx)) = m" "0 < m"
    and args: "packet_len \<noteq> 0" "transceive_args (Some packet) packet_len recv recv_len"
  shows "\<exists>ctx1 ctx2 f fs. ifx_i2c_tl_transceive ctx (Some packet) packet_len recv recv_len = Some (STACK_SUCCESS, ctx1) \<and>
    sent_payload ctx1 = f \<and> run_tx link (length fs) ctx1 = Some (fs, ctx2) \<and>
    f # fs = fragments m (take (unat packet_len) packet) \<and> tl_state (tl ctx2) = TL_STATE_TX \<and> rest_of (tl ctx2) = []"
proof -
  define ctx0 where "ctx0 = tl_request packet packet_len recv recv_len ctx"
  have ok0: "tl_ok ctx0" "dl_state (dl ctx0) = DL_STATE_IDLE" "pl_frame_state (pl ctx0) = PL_STATE_READY"
    using ok tl_request_ok [OF ok(1) args(2)] by (simp_all add: ctx0_def)
  then have core: "tl_core (tl ctx0)" and m0: "0 < unat (tl_max_packet_length (tl ctx0))"
    using m by (simp_all add: tl_ok_def) (simp add: ctx0_def tl_request_def)
  have first: "tl_packet_offset (tl ctx0) = 0" "rest_of (tl ctx0) = take (unat packet_len) packet"
    by (simp_all add: ctx0_def tl_request_def rest_of_def)
  obtain ctx1 where s: "ifx_i2c_tl_send_next_fragment ctx0 = Some (STACK_SUCCESS, ctx1)" "tl_ok ctx1"
      "tl ctx1 = (tl ctx0)\<lparr>tl_packet_offset := tl_packet_offset (tl ctx0) + word_of_nat (fragment_len (tl ctx0))\<rparr>"
      "sent_payload ctx1 = fragment_at (tl ctx0)"
    using send_next_payload [OF ok0] by blast
  have tr: "ifx_i2c_tl_transceive ctx (Some packet) packet_len recv recv_len = Some (STACK_SUCCESS, ctx1)"
    using s(1) ok(2) args(1) by (simp add: ifx_i2c_tl_transceive_def ctx0_def)
  have off: "unat (tl_packet_offset (tl ctx1)) = unat (tl_packet_offset (tl ctx0)) + fragment_len (tl ctx0)"
    using with_fragment(6) [OF ok0(1)] s(3) by simp
  define fs where "fs = (if rest_of (tl ctx1) = [] then [] else fragments_from False m (rest_of (tl ctx1)))"
  have cons: "fragments m (take (unat packet_len) packet) = fragment_at (tl ctx0) # fs"
    using fragment_at_next(1) [OF core m0 off] s(3) first m(1) by (simp add: fs_def ctx0_def tl_request_def)
  have "take (unat packet_len) packet \<noteq> []"
    using args by (auto simp: transceive_args_def unat_eq_zero)
  then have "fragment_len (tl ctx0) \<noteq> 0"
    using m m0 first(2) by (simp add: fragment_bytes(2) [OF core])
  then have off1: "tl_packet_offset (tl ctx1) \<noteq> 0"
    using off by (metis add_is_0 unat_eq_zero)
  have max1: "tl_max_packet_length (tl ctx1) = tl_max_packet_length (tl ctx)" and st1: "tl_state (tl ctx1) = TL_STATE_TX"
    by (simp_all add: s(3)) (simp_all add: ctx0_def tl_request_def)
  have m1: "0 < unat (tl_max_packet_length (tl ctx1))"
      "fs = (if rest_of (tl ctx1) = [] then [] else fragments_from False (unat (tl_max_packet_length (tl ctx1))) (rest_of (tl ctx1)))"
    unfolding max1 m(1) fs_def by (rule m(2), rule refl)
  obtain ctx2 where "run_tx link (length fs) ctx1 = Some (fs, ctx2)" "rest_of (tl ctx2) = []" "tl_state (tl ctx2) = TL_STATE_TX"
    using run_tx_rest [OF link s(2) st1 m1(1) off1 m1(2)] by blast
  then show ?thesis
    using tr s(4) cons
    by (intro exI [of _ ctx1] exI [of _ ctx2] exI [of _ "fragment_at (tl ctx0)"] exI [of _ fs]) simp
qed

text \<open>A transport layer with two-byte fragments over an idle link, for the examples.\<close>

definition transport_context :: "tl_state \<Rightarrow> ifx_i2c_context" where
  "transport_context s = tl_set (\<lambda>t. t\<lparr>tl_state := s, tl_max_packet_length := 2, tl_recv_packet_buffer := replicate 8 0,
     tl_recv_packet_buffer_length := 8, tl_error_event := STACK_ERROR\<rparr>) (link_context DL_STATE_IDLE)"

lemma transport_context_tl: "tl (transport_context s) =
    \<lparr>tl_state = s, tl_actual_packet = [], tl_total_recv_length = 0, tl_actual_packet_length = 0, tl_packet_offset = 0,
     tl_max_packet_length = 2, tl_recv_packet_buffer = replicate 8 0, tl_recv_packet_buffer_length = 8, tl_api_start_time = 0,
     tl_chaining_error_count = 0, tl_master_chaining_error_count = 0, tl_previous_chaining = 0,
     tl_transmission_completed = False, tl_error_event = STACK_ERROR\<rparr>"
  by (simp add: transport_context_def link_context_def ready_context_def ifx_i2c_context_0_def)
    (simp add: tl_set_def dl_set_def set_pl_state_def pl_set_def)

lemma transport_context_ok: "tl_ok (transport_context s)" "dl_state (dl (transport_context s)) = DL_STATE_IDLE"
  "pl_frame_state (pl (transport_context s)) = PL_STATE_READY" "tl_up (transport_context s) = None"
proof -
  have up: "tl_up (transport_context s) = None"
    by (simp add: transport_context_def link_context_def ready_context_def ifx_i2c_context_0_def)
      (simp add: dl_set_def set_pl_state_def pl_set_def)
  have "tl_core (tl (transport_context s))"
    by (simp add: transport_context_tl tl_core_def)
  then show "tl_ok (transport_context s)"
    by (simp add: tl_ok_def tl_up_ok_def up) (simp add: transport_context_def link_context_ok dl_resting_def)
qed (simp_all add: transport_context_def link_context_ok, simp add: link_context_def ready_context_def ifx_i2c_context_0_def
    dl_set_def set_pl_state_def pl_set_def)

lemma tl_sends_fragments_witness:
  "\<exists>ctx1 ctx2 f fs. ifx_i2c_tl_transceive (transport_context TL_STATE_IDLE) (Some [1, 2, 3, 4, 5]) 5 [] 0 = Some (STACK_SUCCESS, ctx1) \<and>
    sent_payload ctx1 = f \<and> run_tx settle (length fs) ctx1 = Some (fs, ctx2) \<and>
    f # fs = fragments 2 (take (unat (5 :: u16)) [1, 2, 3, 4, 5]) \<and> tl_state (tl ctx2) = TL_STATE_TX \<and> rest_of (tl ctx2) = []"
  by (rule tl_sends_fragments) (simp_all add: settle_settles transport_context_ok transport_context_tl transceive_args_def)

section \<open>Receiving a packet\<close>

text \<open>The layers below hand up one fragment after the other.\<close>

primrec run_rx :: "(ifx_i2c_context \<Rightarrow> ifx_i2c_context) \<Rightarrow> byte list list \<Rightarrow> ifx_i2c_context \<Rightarrow> ifx_i2c_context option" where
  "run_rx link [] ctx = Some ctx"
| "run_rx link (f # fs) ctx = do {
     ctx \<leftarrow> ifx_i2c_dl_event_handler (link ctx) IFX_I2C_DL_EVENT_RX_SUCCESS (Some f) (word_of_nat (length f));
     run_rx link fs ctx
   }"

text \<open>What a fragment may follow: the table of the code, for the codes of fragments.\<close>

lemma check_chaining_table:
  "ifx_i2c_tl_check_chaining_error TL_CHAINING_NO q = Some (if q = TL_CHAINING_NO \<or> q = TL_CHAINING_LAST then STACK_SUCCESS else STACK_ERROR)"
  "ifx_i2c_tl_check_chaining_error TL_CHAINING_FIRST q = Some (if q = TL_CHAINING_NO \<or> q = TL_CHAINING_LAST then STACK_SUCCESS else STACK_ERROR)"
  "ifx_i2c_tl_check_chaining_error TL_CHAINING_INTERMEDIATE q =
     Some (if q = TL_CHAINING_FIRST \<or> q = TL_CHAINING_INTERMEDIATE then STACK_SUCCESS else STACK_ERROR)"
  "ifx_i2c_tl_check_chaining_error TL_CHAINING_LAST q =
     Some (if q = TL_CHAINING_FIRST \<or> q = TL_CHAINING_INTERMEDIATE then STACK_SUCCESS else STACK_ERROR)"
  by (auto simp: ifx_i2c_tl_check_chaining_error_def pctr_states_table_def nth_opt_def tl_consts)

definition follows :: "bool \<Rightarrow> byte \<Rightarrow> bool" where
  "follows first q \<longleftrightarrow> (if first then q = TL_CHAINING_NO \<or> q = TL_CHAINING_LAST
     else q = TL_CHAINING_FIRST \<or> q = TL_CHAINING_INTERMEDIATE)"

text \<open>A layer that waits for fragments and has \<open>got\<close> in its buffer so far.\<close>

definition receiving :: "bool \<Rightarrow> byte list \<Rightarrow> ifx_i2c_context \<Rightarrow> bool" where
  "receiving first got ctx \<longleftrightarrow> tl_ok ctx \<and> tl_state (tl ctx) = TL_STATE_RX \<and> tl_error_event (tl ctx) \<noteq> STACK_MEM_ERROR \<and>
     follows first (tl_previous_chaining (tl ctx)) \<and> unat (tl_total_recv_length (tl ctx)) = length got \<and>
     take (length got) (tl_recv_packet_buffer (tl ctx)) = got"

lemma receiving_settled: "receiving first got ctx \<Longrightarrow> tl_settled ctx c \<Longrightarrow> receiving first got c"
  by (simp add: receiving_def tl_settled_def)

lemma dl_receive_ready:
  assumes "tl_ok ctx" "dl_state (dl ctx) = DL_STATE_IDLE" "pl_frame_state (pl ctx) = PL_STATE_READY"
  shows "\<exists>ctx'. ifx_i2c_dl_receive_frame ctx = Some (STACK_SUCCESS, ctx') \<and> tl_ok ctx' \<and> keeps_ifx ctx ctx' \<and> tl ctx' = tl ctx \<and>
    tl_up ctx' = tl_up ctx"
proof -
  have dl: "dl_ok ctx" "dl_resting ctx"
    using assms(1) by (simp_all add: tl_ok_def)
  define ctx1 where "ctx1 = dl_set (\<lambda>d. d\<lparr>dl_state := DL_STATE_RX, dl_retransmit_counter := 0, dl_action_rx_only := True,
           dl_frame_start_time := env_now (env ctx), dl_data_poll_timeout := TL_MAX_EXIT_TIMEOUT * 1000\<rparr>) ctx"
  have "pl_ok ctx1" "pl_frame_state (pl ctx1) = PL_STATE_READY"
    using dl_ok_parts [OF dl(1)] assms(3) by (simp_all add: ctx1_def dl_set_def pl_ok_def)
  then obtain ctx' where r: "ifx_i2c_dl_receive_frame ctx = Some (STACK_SUCCESS, ctx')"
    using pl_receive_ready [of ctx1] assms(2) by (auto simp: ifx_i2c_dl_receive_frame_def ctx1_def)
  have "dl_ok ctx' \<and> dl_resting ctx'" "keeps_quiet ctx ctx'"
    using dl_receive.kept [OF r] dl by auto
  moreover from this have "tl_up ctx' = tl_up ctx"
    by (simp add: keeps_quiet_def keeps_tl_def)
  ultimately show ?thesis
    using r tl_ok_quiet [OF assms(1), of ctx'] by blast
qed

lemma code_masks:
  "TL_CHAINING_NO AND TL_PCTR_CHAIN_MASK = TL_CHAINING_NO" "TL_CHAINING_FIRST AND TL_PCTR_CHAIN_MASK = TL_CHAINING_FIRST"
  "TL_CHAINING_INTERMEDIATE AND TL_PCTR_CHAIN_MASK = TL_CHAINING_INTERMEDIATE" "TL_CHAINING_LAST AND TL_PCTR_CHAIN_MASK = TL_CHAINING_LAST"
  "TL_CHAINING_NO AND TL_PCTR_CHANNEL_MASK = 0" "TL_CHAINING_FIRST AND TL_PCTR_CHANNEL_MASK = 0"
  "TL_CHAINING_INTERMEDIATE AND TL_PCTR_CHANNEL_MASK = 0" "TL_CHAINING_LAST AND TL_PCTR_CHANNEL_MASK = 0"
  by (simp_all add: tl_consts)

text \<open>The only or the last fragment completes the packet.\<close>

lemma rx_last:
  assumes rc: "receiving first got ctx" and se: "tl_settled ctx c"
    and len: "length xs \<le> 294" "length got + length xs \<le> length (tl_recv_packet_buffer (tl ctx))"
    and code: "code = (if first then TL_CHAINING_NO else TL_CHAINING_LAST)"
  shows "\<exists>ctx' buf. ifx_i2c_dl_event_handler c IFX_I2C_DL_EVENT_RX_SUCCESS (Some (code # xs)) (word_of_nat (length (code # xs))) = Some ctx' \<and>
    tl_ok ctx' \<and> tl_state (tl ctx') = TL_STATE_IDLE \<and>
    tl_up ctx' = Some (STACK_SUCCESS, Some buf, word_of_nat (length (got @ xs))) \<and> take (length (got @ xs)) buf = got @ xs"
proof -
  let ?n = "word_of_nat (length (code # xs)) :: u16"
  have n: "unat ?n = length xs + 1"
    using len(1) by (simp add: unat_of_nat unat_word_ariths)
  have r: "tl_ok c" "tl_state (tl c) = TL_STATE_RX" "tl_error_event (tl c) \<noteq> STACK_MEM_ERROR" "follows first (tl_previous_chaining (tl c))"
      "unat (tl_total_recv_length (tl c)) = length got" "take (length got) (tl_recv_packet_buffer (tl c)) = got"
    using receiving_settled [OF rc se] by (auto simp: receiving_def)
  define c1 where "c1 = tl_set (\<lambda>t. t\<lparr>tl_previous_chaining := code\<rparr>) c"
  have ok1: "tl_ok c1" and tl1: "tl c1 = (tl c)\<lparr>tl_previous_chaining := code\<rparr>"
    using r(1) by (auto simp: c1_def tl_ok_def)
  have room: "unat (tl_total_recv_length (tl c1)) + unat ?n \<le> length (tl_recv_packet_buffer (tl c1)) + 1"
    using len(2) se r(5) n by (simp add: tl1 tl_settled_def)
  obtain buf c2 where c2: "tl_copy_payload (code # xs) ?n c1 = Some c2" "tl_ok c2"
      "c2 = tl_set (\<lambda>t. t\<lparr>tl_recv_packet_buffer := buf, tl_total_recv_length := tl_total_recv_length t + (?n - 1)\<rparr>) c1"
      "unat (tl_total_recv_length (tl c2)) = unat (tl_total_recv_length (tl c1)) + (unat ?n - 1)"
      "take (unat (tl_total_recv_length (tl c2))) buf =
        take (unat (tl_total_recv_length (tl c1))) (tl_recv_packet_buffer (tl c1)) @ take (unat ?n - 1) (drop 1 (code # xs))"
    using copy_payload [OF ok1, of ?n "code # xs"] room n by auto
  have tot: "unat (tl_total_recv_length (tl c2)) = length (got @ xs)" "tl_recv_packet_buffer (tl c2) = buf"
    using c2(4) r(5) n by (simp_all add: tl1) (simp add: c2(3))
  have got: "take (length (got @ xs)) buf = got @ xs"
    using c2(5) r(5,6) n tot(1) by (simp add: tl1)
  define c3 where "c3 = tl_set (\<lambda>t. t\<lparr>tl_state := TL_STATE_IDLE, tl_recv_packet_buffer_length := tl_total_recv_length t\<rparr>) c2"
  have ok3: "tl_ok c3" "tl_core (tl c3)"
    using c2(2) by (auto simp: c3_def tl_ok_def tl_core_def)
  define c4 where "c4 = tl_upcall STACK_SUCCESS (Some buf) (tl_total_recv_length (tl c2)) c3"
  have "length buf = length (tl_recv_packet_buffer (tl c3))"
    by (simp add: c3_def tot(2))
  then have ok4: "tl_ok c4"
    using ok3 tot by (auto simp: c4_def tl_up_ok_def c3_def tl_core_def intro!: tl_ok_upcall)
  have mask: "code AND TL_PCTR_CHAIN_MASK = code" "code AND TL_PCTR_CHANNEL_MASK = 0" "code = TL_CHAINING_NO \<or> code = TL_CHAINING_LAST"
    by (simp_all add: code code_masks)
  have check: "ifx_i2c_tl_check_chaining_error code (tl_previous_chaining (tl c)) = Some STACK_SUCCESS"
    using r(4) by (simp add: code check_chaining_table follows_def)
  have "tl_case_rx IFX_I2C_DL_EVENT_RX_SUCCESS (Some (code # xs)) code ?n c = Some (c4, False)"
    using r(3) n mask(3) check c2(1) tot(2)
    by (simp add: tl_case_rx_def TL_HEADER_SIZE_def Let_def c1_def [symmetric] c4_def c3_def)
  then have "tl_handler_round IFX_I2C_DL_EVENT_RX_SUCCESS (Some (code # xs)) ?n c = Some (c4, False)"
    using r(2) mask by (simp add: tl_handler_round_def tl_pctr_def rd_def)
  then have h: "ifx_i2c_dl_event_handler c IFX_I2C_DL_EVENT_RX_SUCCESS (Some (code # xs)) ?n = Some c4"
    by (simp add: ifx_i2c_dl_event_handler_def tl_loop_stop)
  have "tl_total_recv_length (tl c2) = word_of_nat (length (got @ xs))"
    using tot(1) by (metis of_nat_unat ucast_id)
  then show ?thesis
    using h ok4 got by (intro exI [of _ c4] exI [of _ buf]) (simp add: c4_def c3_def)
qed

text \<open>The first round for a fragment that is not the last.\<close>

lemma rx_chained:
  assumes rc: "receiving first got c" and code: "code = (if first then TL_CHAINING_FIRST else TL_CHAINING_INTERMEDIATE)"
    and n: "unat n = length xs + 1"
  shows "tl_handler_round IFX_I2C_DL_EVENT_RX_SUCCESS (Some (code # xs)) n c =
      Some (tl_set (\<lambda>t. t\<lparr>tl_previous_chaining := code, tl_state := TL_STATE_CHAINING\<rparr>) c, True)"
    and "tl_handler_round IFX_I2C_DL_EVENT_RX_SUCCESS (Some (code # xs)) n (tl_set (\<lambda>t. t\<lparr>tl_previous_chaining := code, tl_state := TL_STATE_CHAINING\<rparr>) c) =
      tl_case_chaining (Some (code # xs)) code n (tl_set (\<lambda>t. t\<lparr>tl_previous_chaining := code, tl_state := TL_STATE_CHAINING\<rparr>) c)"
proof -
  have mask: "code AND TL_PCTR_CHAIN_MASK = code" "code AND TL_PCTR_CHANNEL_MASK = 0" "\<not> (code = TL_CHAINING_NO \<or> code = TL_CHAINING_LAST)"
    by (simp_all add: code code_masks) (simp_all add: tl_consts)
  have check: "ifx_i2c_tl_check_chaining_error code (tl_previous_chaining (tl c)) = Some STACK_SUCCESS"
    using rc by (simp add: receiving_def code check_chaining_table follows_def)
  have "set_tl_state TL_STATE_CHAINING (tl_set (\<lambda>t. t\<lparr>tl_previous_chaining := code\<rparr>) c) =
      tl_set (\<lambda>t. t\<lparr>tl_previous_chaining := code, tl_state := TL_STATE_CHAINING\<rparr>) c"
    by (simp add: set_tl_state_def tl_set_def)
  then show "tl_handler_round IFX_I2C_DL_EVENT_RX_SUCCESS (Some (code # xs)) n c =
      Some (tl_set (\<lambda>t. t\<lparr>tl_previous_chaining := code, tl_state := TL_STATE_CHAINING\<rparr>) c, True)"
    using rc mask check n by (simp add: receiving_def tl_handler_round_def tl_pctr_def rd_def tl_case_rx_def TL_HEADER_SIZE_def)
  show "tl_handler_round IFX_I2C_DL_EVENT_RX_SUCCESS (Some (code # xs)) n (tl_set (\<lambda>t. t\<lparr>tl_previous_chaining := code, tl_state := TL_STATE_CHAINING\<rparr>) c) =
      tl_case_chaining (Some (code # xs)) code n (tl_set (\<lambda>t. t\<lparr>tl_previous_chaining := code, tl_state := TL_STATE_CHAINING\<rparr>) c)"
    using mask by (simp add: tl_handler_round_def tl_pctr_def rd_def)
qed

lemma rx_more:
  assumes rc: "receiving first got ctx" and se: "tl_settled ctx c"
    and len: "length xs = unat (tl_max_packet_length (tl ctx))" "length got + length xs \<le> unat (tl_recv_packet_buffer_length (tl ctx))"
    and code: "code = (if first then TL_CHAINING_FIRST else TL_CHAINING_INTERMEDIATE)"
  shows "\<exists>ctx'. ifx_i2c_dl_event_handler c IFX_I2C_DL_EVENT_RX_SUCCESS (Some (code # xs)) (word_of_nat (length (code # xs))) = Some ctx' \<and>
    receiving False (got @ xs) ctx' \<and> tl_up ctx' = tl_up ctx \<and> tl_max_packet_length (tl ctx') = tl_max_packet_length (tl ctx) \<and>
    tl_recv_packet_buffer_length (tl ctx') = tl_recv_packet_buffer_length (tl ctx) \<and>
    length (tl_recv_packet_buffer (tl ctx')) = length (tl_recv_packet_buffer (tl ctx))"
proof -
  let ?n = "word_of_nat (length (code # xs)) :: u16"
  have rc': "receiving first got c"
    by (rule receiving_settled [OF rc se])
  then have r: "tl_ok c" "unat (tl_total_recv_length (tl c)) = length got" "take (length got) (tl_recv_packet_buffer (tl c)) = got"
      "tl_error_event (tl c) \<noteq> STACK_MEM_ERROR"
    by (auto simp: receiving_def)
  have t: "tl c = tl ctx" "tl_up c = tl_up ctx"
    using se by (simp_all add: tl_settled_def)
  have core: "unat (tl_max_packet_length (tl c)) \<le> 294" "unat (tl_recv_packet_buffer_length (tl c)) \<le> length (tl_recv_packet_buffer (tl c))"
    using r(1) by (simp_all add: tl_ok_def tl_core_def)
  have n: "unat ?n = length xs + 1"
    using len(1) core(1) t(1) by (simp add: unat_of_nat unat_word_ariths)
  define c1 where "c1 = tl_set (\<lambda>t. t\<lparr>tl_previous_chaining := code, tl_state := TL_STATE_CHAINING\<rparr>) c"
  have ok1: "tl_ok c1" and tl1: "tl c1 = (tl c)\<lparr>tl_previous_chaining := code, tl_state := TL_STATE_CHAINING\<rparr>" and up1: "tl_up c1 = tl_up c"
    using r(1) by (auto simp: c1_def tl_ok_def)
  have room: "unat (tl_total_recv_length (tl c1)) + unat ?n \<le> length (tl_recv_packet_buffer (tl c1)) + 1"
    using len(2) r(2) n core(2) t(1) by (simp add: tl1)
  obtain buf c2 where c2: "tl_copy_payload (code # xs) ?n c1 = Some c2" "tl_ok c2" "length buf = length (tl_recv_packet_buffer (tl c1))"
      "c2 = tl_set (\<lambda>t. t\<lparr>tl_recv_packet_buffer := buf, tl_total_recv_length := tl_total_recv_length t + (?n - 1)\<rparr>) c1"
      "unat (tl_total_recv_length (tl c2)) = unat (tl_total_recv_length (tl c1)) + (unat ?n - 1)"
      "take (unat (tl_total_recv_length (tl c2))) buf =
        take (unat (tl_total_recv_length (tl c1))) (tl_recv_packet_buffer (tl c1)) @ take (unat ?n - 1) (drop 1 (code # xs))"
    using copy_payload [OF ok1, of ?n "code # xs"] room n by auto
  have tot: "unat (tl_total_recv_length (tl c2)) = length (got @ xs)" "tl_recv_packet_buffer (tl c2) = buf"
    using c2(5) r(2) n by (simp_all add: tl1) (simp add: c2(4))
  have got: "take (length (got @ xs)) buf = got @ xs"
    using c2(6) r(2,3) n tot(1) by (simp add: tl1)
  define c3 where "c3 = tl_set (\<lambda>t. t\<lparr>tl_previous_chaining := code, tl_state := TL_STATE_RX\<rparr>) c2"
  have "tl_ok c3" "dl_state (dl c3) = DL_STATE_IDLE" "pl_frame_state (pl c3) = PL_STATE_READY"
    using c2(2) se by (simp add: c3_def tl_ok_def) (use se in \<open>simp_all add: c3_def c2(4) c1_def tl_settled_def\<close>)
  then obtain c4 where c4: "ifx_i2c_dl_receive_frame c3 = Some (STACK_SUCCESS, c4)" "tl_ok c4" "tl c4 = tl c3" "tl_up c4 = tl_up c3"
    using dl_receive_ready by blast
  have "tl_case_chaining (Some (code # xs)) code ?n c1 = Some (c4, False)"
  proof -
    have full: "uint ?n = uint (tl_max_packet_length (tl c1)) + 1"
      unfolding uint_nat n using len(1) t(1) by (simp add: tl1)
    have same: "tl_total_recv_length (tl c1) = tl_total_recv_length (tl c)"
        "tl_recv_packet_buffer_length (tl c1) = tl_recv_packet_buffer_length (tl ctx)"
      by (simp_all add: tl1 t(1))
    have "uint (tl_total_recv_length (tl c1)) + uint ?n - 1 \<le> uint (tl_recv_packet_buffer_length (tl c1))"
      unfolding same uint_nat n r(2) using len(2) by linarith
    then have "\<not> uint (tl_total_recv_length (tl c1)) + uint ?n - 1 > uint (tl_recv_packet_buffer_length (tl c1))"
      by (rule leD)
    then show ?thesis
      using c2(1) c4(1) full unfolding tl_case_chaining_def c3_def [symmetric] by (simp only: full simp_thms if_False option.case) (simp add: c3_def)
  qed
  then have "tl_handler_loop IFX_I2C_DL_EVENT_RX_SUCCESS (Some (code # xs)) ?n c = Some c4"
    using tl_loop_go [OF rx_chained(1) [OF rc' code n]] tl_loop_stop rx_chained(2) [OF rc' code n] by (simp only: c1_def)
  moreover have "receiving False (got @ xs) c4"
    using c4 tot got r(4) unfolding receiving_def c4(3) by (simp add: c3_def c2(4) tl1 follows_def code)
  ultimately show ?thesis
    using c4 t up1 c2(3) by (simp add: ifx_i2c_dl_event_handler_def) (simp add: c3_def c2(4) tl1)
qed

lemma run_rx_fragments:
  assumes link: "\<And>c. tl_ok c \<Longrightarrow> tl_settled c (link c)"
  shows "receiving first got ctx \<Longrightarrow> 0 < m \<Longrightarrow> unat (tl_max_packet_length (tl ctx)) = m \<Longrightarrow>
    length got + length xs \<le> unat (tl_recv_packet_buffer_length (tl ctx)) \<Longrightarrow>
    \<exists>ctx' buf. run_rx link (fragments_from first m xs) ctx = Some ctx' \<and> tl_ok ctx' \<and> tl_state (tl ctx') = TL_STATE_IDLE \<and>
      tl_up ctx' = Some (STACK_SUCCESS, Some buf, word_of_nat (length (got @ xs))) \<and> take (length (got @ xs)) buf = got @ xs"
proof (induction first m xs arbitrary: got ctx rule: fragments_from.induct)
  case (1 first m xs)
  have ok: "tl_ok ctx"
    using 1(2) by (simp add: receiving_def)
  have se: "tl_settled ctx (link ctx)"
    by (rule link [OF ok])
  have m: "m \<le> 294" and buf: "unat (tl_recv_packet_buffer_length (tl ctx)) \<le> length (tl_recv_packet_buffer (tl ctx))"
    using ok 1(4) by (simp_all add: tl_ok_def tl_core_def)
  show ?case
  proof (cases "length xs \<le> m")
    case True
    then have len: "length xs \<le> 294" "length got + length xs \<le> length (tl_recv_packet_buffer (tl ctx))"
      using 1(5) m buf by simp_all
    show ?thesis
      using rx_last [OF 1(2) se len refl] by (force simp: fragments_short [OF True])
  next
    case False
    let ?code = "if first then TL_CHAINING_FIRST else TL_CHAINING_INTERMEDIATE"
    have len: "length (take m xs) = unat (tl_max_packet_length (tl ctx))"
        "length got + length (take m xs) \<le> unat (tl_recv_packet_buffer_length (tl ctx))"
      using 1(4,5) False by simp_all
    obtain ctx1 where h: "ifx_i2c_dl_event_handler (link ctx) IFX_I2C_DL_EVENT_RX_SUCCESS (Some (?code # take m xs))
          (word_of_nat (length (?code # take m xs))) = Some ctx1" "receiving False (got @ take m xs) ctx1"
        "tl_max_packet_length (tl ctx1) = tl_max_packet_length (tl ctx)"
        "tl_recv_packet_buffer_length (tl ctx1) = tl_recv_packet_buffer_length (tl ctx)"
      using rx_more [OF 1(2) se len refl] by blast
    have cond: "\<not> (m = 0 \<or> length xs \<le> m)"
      using 1(3) False by simp
    have "length (got @ take m xs) + length (drop m xs) \<le> unat (tl_recv_packet_buffer_length (tl ctx1))"
      using 1(5) False by (simp add: h(4))
    from 1(1) [OF cond h(2) 1(3) _ this] show ?thesis
      using h(1,3) 1(3,4) False by (simp add: fragments_long)
  qed
qed

text \<open>
  C24: receiving a packet of any length: the fragments of a packet that fits the buffer of the caller,
  handed up one by one, are put together to exactly this packet, which is delivered with its
  length while the layer returns to idle.
\<close>

theorem tl_reassembles:
  assumes link: "\<And>c. tl_ok c \<Longrightarrow> tl_settled c (link c)"
    and ok: "tl_ok ctx" "tl_state (tl ctx) = TL_STATE_RX" "tl_error_event (tl ctx) \<noteq> STACK_MEM_ERROR"
      "tl_previous_chaining (tl ctx) = TL_CHAINING_NO" "tl_total_recv_length (tl ctx) = 0"
    and m: "unat (tl_max_packet_length (tl ctx)) = m" "0 < m"
    and fits: "length packet \<le> unat (tl_recv_packet_buffer_length (tl ctx))"
  shows "\<exists>ctx' buf. run_rx link (fragments m packet) ctx = Some ctx' \<and> tl_state (tl ctx') = TL_STATE_IDLE \<and>
    tl_up ctx' = Some (STACK_SUCCESS, Some buf, word_of_nat (length packet)) \<and> take (length packet) buf = packet"
proof -
  have "receiving True [] ctx"
    using ok by (simp add: receiving_def follows_def)
  from run_rx_fragments [OF link this m(2) m(1), of packet] fits show ?thesis
    by auto
qed

lemma tl_reassembles_witness:
  "\<exists>ctx' buf. run_rx settle (fragments 2 [1, 2, 3, 4, 5]) (transport_context TL_STATE_RX) = Some ctx' \<and> tl_state (tl ctx') = TL_STATE_IDLE \<and>
    tl_up ctx' = Some (STACK_SUCCESS, Some buf, word_of_nat (length [1, 2, 3, 4, 5 :: byte])) \<and>
    take (length [1, 2, 3, 4, 5 :: byte]) buf = [1, 2, 3, 4, 5]"
  by (rule tl_reassembles) (simp_all add: settle_settles transport_context_ok transport_context_tl TL_CHAINING_NO_def)

section \<open>Packets that do not fit\<close>

text \<open>With the memory error noted, fragments are received and dropped; the last one ends the packet.\<close>

lemma rx_dropped:
  assumes ok: "tl_ok ctx" "tl_state (tl ctx) = TL_STATE_RX" "tl_error_event (tl ctx) = STACK_MEM_ERROR" and se: "tl_settled ctx c"
    and n: "0 < unat n"
  shows "code = TL_CHAINING_FIRST \<or> code = TL_CHAINING_INTERMEDIATE \<Longrightarrow>
      \<exists>ctx'. tl_handler_loop IFX_I2C_DL_EVENT_RX_SUCCESS (Some (code # xs)) n c = Some ctx' \<and> tl_ok ctx' \<and> tl ctx' = tl ctx \<and> tl_up ctx' = tl_up ctx"
    and "\<exists>ctx'. tl_handler_loop IFX_I2C_DL_EVENT_RX_SUCCESS (Some (TL_CHAINING_LAST # xs)) n c = Some ctx' \<and> tl_state (tl ctx') = TL_STATE_IDLE \<and>
      tl_recv_packet_buffer (tl ctx') = tl_recv_packet_buffer (tl ctx) \<and> tl_up ctx' = Some (STACK_MEM_ERROR, None, 0)"
proof -
  have t: "tl c = tl ctx" "tl_up c = tl_up ctx"
    using se by (simp_all add: tl_settled_def)
  have n': "\<not> unat n < TL_HEADER_SIZE" "n \<noteq> 0"
    using n by (auto simp: TL_HEADER_SIZE_def)
  show "\<exists>ctx'. tl_handler_loop IFX_I2C_DL_EVENT_RX_SUCCESS (Some (code # xs)) n c = Some ctx' \<and> tl_ok ctx' \<and> tl ctx' = tl ctx \<and> tl_up ctx' = tl_up ctx"
    if code: "code = TL_CHAINING_FIRST \<or> code = TL_CHAINING_INTERMEDIATE"
  proof -
    obtain c1 where c1: "ifx_i2c_dl_receive_frame c = Some (STACK_SUCCESS, c1)" "tl_ok c1" "tl c1 = tl c" "tl_up c1 = tl_up c"
      using dl_receive_ready [of c] se by (auto simp: tl_settled_def)
    have mask: "code AND TL_PCTR_CHAIN_MASK \<noteq> TL_CHAINING_LAST" "code AND TL_PCTR_CHANNEL_MASK = 0"
      using code by (auto simp: code_masks) (auto simp: tl_consts)
    have "tl_handler_round IFX_I2C_DL_EVENT_RX_SUCCESS (Some (code # xs)) n c = Some (set_tl_state TL_STATE_RX c1, False)"
      using mask ok(2,3) t n' c1(1) by (simp add: tl_handler_round_def tl_pctr_def rd_def tl_case_rx_def)
    moreover have "tl (set_tl_state TL_STATE_RX c1) = tl ctx"
      using c1(3) t ok(2) by simp
    ultimately show ?thesis
      using c1(2,4) t tl_loop_stop by (intro exI [of _ "set_tl_state TL_STATE_RX c1"]) simp
  qed
  have mask: "TL_CHAINING_LAST AND TL_PCTR_CHAIN_MASK = TL_CHAINING_LAST" "TL_CHAINING_LAST AND TL_PCTR_CHANNEL_MASK = 0"
    by (simp_all add: code_masks)
  have "tl_handler_round IFX_I2C_DL_EVENT_RX_SUCCESS (Some (TL_CHAINING_LAST # xs)) n c = Some (set_tl_state TL_STATE_ERROR c, True)"
    using mask ok(2,3) t n' by (simp add: tl_handler_round_def tl_pctr_def rd_def tl_case_rx_def)
  moreover have "tl_handler_round IFX_I2C_DL_EVENT_RX_SUCCESS (Some (TL_CHAINING_LAST # xs)) n (set_tl_state TL_STATE_ERROR c) =
      Some (tl_upcall STACK_MEM_ERROR None 0 (set_tl_state TL_STATE_IDLE (set_tl_state TL_STATE_ERROR c)), False)"
    using mask ok(3) t n' by (simp add: tl_handler_round_def tl_pctr_def rd_def tl_case_error_def)
  ultimately show "\<exists>ctx'. tl_handler_loop IFX_I2C_DL_EVENT_RX_SUCCESS (Some (TL_CHAINING_LAST # xs)) n c = Some ctx' \<and> tl_state (tl ctx') = TL_STATE_IDLE \<and>
      tl_recv_packet_buffer (tl ctx') = tl_recv_packet_buffer (tl ctx) \<and> tl_up ctx' = Some (STACK_MEM_ERROR, None, 0)"
    using tl_loop_go tl_loop_stop t by force
qed

lemma fragment_size:
  "length xs \<le> 294 \<Longrightarrow> unat (word_of_nat (length (code # xs)) :: u16) = length xs + 1"
  by (simp add: unat_of_nat unat_word_ariths)

lemma run_rx_dropped:
  assumes link: "\<And>c. tl_ok c \<Longrightarrow> tl_settled c (link c)"
  shows "\<not> first \<Longrightarrow> tl_ok ctx \<Longrightarrow> tl_state (tl ctx) = TL_STATE_RX \<Longrightarrow> tl_error_event (tl ctx) = STACK_MEM_ERROR \<Longrightarrow> 0 < m \<Longrightarrow> m \<le> 294 \<Longrightarrow>
    \<exists>ctx'. run_rx link (fragments_from first m xs) ctx = Some ctx' \<and> tl_state (tl ctx') = TL_STATE_IDLE \<and>
      tl_recv_packet_buffer (tl ctx') = tl_recv_packet_buffer (tl ctx) \<and> tl_up ctx' = Some (STACK_MEM_ERROR, None, 0)"
proof (induction first m xs arbitrary: ctx rule: fragments_from.induct)
  case (1 first m xs)
  note dropped = rx_dropped [OF 1(3-5) link [OF 1(3)]]
  show ?case
  proof (cases "length xs \<le> m")
    case True
    then have "0 < unat (word_of_nat (length (TL_CHAINING_LAST # xs)) :: u16)"
      using 1(7) by (simp only: fragment_size le_trans)
    from dropped(2) [OF this, of xs] show ?thesis
      using 1(2) by (auto simp: fragments_short [OF True] ifx_i2c_dl_event_handler_def)
  next
    case False
    have "0 < unat (word_of_nat (length (TL_CHAINING_INTERMEDIATE # take m xs)) :: u16)"
      using 1(7) by (subst fragment_size) simp_all
    from dropped(1) [OF this, of TL_CHAINING_INTERMEDIATE "take m xs"] obtain ctx1
      where h: "tl_handler_loop IFX_I2C_DL_EVENT_RX_SUCCESS (Some (TL_CHAINING_INTERMEDIATE # take m xs))
          (word_of_nat (length (TL_CHAINING_INTERMEDIATE # take m xs))) (link ctx) = Some ctx1" "tl_ok ctx1" "tl ctx1 = tl ctx"
      by auto
    from 1(1) [of ctx1] show ?thesis
      using h 1(2,4-7) False by (simp add: fragments_long ifx_i2c_dl_event_handler_def)
  qed
qed

text \<open>
  A packet with a chained fragment that exceeds the buffer of the caller is received to its end
  and dropped: nothing is written behind what was there, the memory error is reported when the last
  fragment arrives, and the layer is idle again.
\<close>

theorem tl_memory_error_reported:
  assumes link: "\<And>c. tl_ok c \<Longrightarrow> tl_settled c (link c)"
    and rc: "receiving first got ctx" and m: "unat (tl_max_packet_length (tl ctx)) = m" "0 < m" "m < length xs"
    and big: "unat (tl_recv_packet_buffer_length (tl ctx)) < length got + m"
  shows "\<exists>ctx'. run_rx link (fragments_from first m xs) ctx = Some ctx' \<and> tl_state (tl ctx') = TL_STATE_IDLE \<and>
      tl_recv_packet_buffer (tl ctx') = tl_recv_packet_buffer (tl ctx) \<and> tl_up ctx' = Some (STACK_MEM_ERROR, None, 0)"
proof -
  let ?code = "if first then TL_CHAINING_FIRST else TL_CHAINING_INTERMEDIATE" and ?c = "link ctx"
  let ?n = "word_of_nat (length (?code # take m xs)) :: u16"
  have ok: "tl_ok ctx"
    using rc by (simp add: receiving_def)
  have se: "tl_settled ctx ?c"
    by (rule link [OF ok])
  have rc': "receiving first got ?c" and t: "tl ?c = tl ctx"
    using receiving_settled [OF rc se] se by (simp_all add: tl_settled_def)
  have m294: "m \<le> 294"
    using ok m(1) by (simp add: tl_ok_def tl_core_def)
  have n: "unat ?n = length (take m xs) + 1"
    by (rule fragment_size) (use m294 in simp)
  then have n1: "unat ?n = m + 1"
    using m(3) by simp
  define c1 where "c1 = tl_set (\<lambda>t. t\<lparr>tl_previous_chaining := ?code, tl_state := TL_STATE_CHAINING\<rparr>) ?c"
  define c2 where "c2 = tl_set (\<lambda>t. t\<lparr>tl_error_event := STACK_MEM_ERROR, tl_state := TL_STATE_RX\<rparr>) c1"
  have c2: "tl_ok c2" "tl_state (tl c2) = TL_STATE_RX" "tl_error_event (tl c2) = STACK_MEM_ERROR"
      "tl_recv_packet_buffer (tl c2) = tl_recv_packet_buffer (tl ctx)" "tl_settled c2 c2"
    using rc' t se by (simp_all add: c2_def c1_def receiving_def tl_ok_def tl_settled_def)
  have same: "tl_max_packet_length (tl c1) = tl_max_packet_length (tl ctx)" "tl_total_recv_length (tl c1) = tl_total_recv_length (tl ctx)"
      "tl_recv_packet_buffer_length (tl c1) = tl_recv_packet_buffer_length (tl ctx)"
    by (simp_all add: c1_def t)
  have tot: "unat (tl_total_recv_length (tl ctx)) = length got"
    using rc by (simp add: receiving_def)
  have full: "uint ?n = uint (tl_max_packet_length (tl c1)) + 1"
    unfolding uint_nat n1 same m(1) by simp
  have over: "uint (tl_total_recv_length (tl c1)) + uint ?n - 1 > uint (tl_recv_packet_buffer_length (tl c1))"
    unfolding same uint_nat n1 tot using big by linarith
  have "tl_case_chaining (Some (?code # take m xs)) ?code ?n c1 = Some (c2, True)"
    unfolding tl_case_chaining_def c2_def using full over by (simp only: if_True if_False simp_thms)
  then have "tl_handler_loop IFX_I2C_DL_EVENT_RX_SUCCESS (Some (?code # take m xs)) ?n ?c =
      tl_handler_loop IFX_I2C_DL_EVENT_RX_SUCCESS (Some (?code # take m xs)) ?n c2"
    using tl_loop_go [OF rx_chained(1) [OF rc' refl n]] tl_loop_go rx_chained(2) [OF rc' refl n] by (simp only: c1_def)
  moreover have pos: "0 < unat ?n"
    unfolding n1 by simp
  have "?code = TL_CHAINING_FIRST \<or> ?code = TL_CHAINING_INTERMEDIATE"
    by simp
  then obtain c3 where c3: "tl_handler_loop IFX_I2C_DL_EVENT_RX_SUCCESS (Some (?code # take m xs)) ?n c2 = Some c3" "tl_ok c3" "tl c3 = tl c2"
    using rx_dropped(1) [OF c2(1-3,5) pos, of ?code "take m xs"] by blast
  ultimately have h: "ifx_i2c_dl_event_handler ?c IFX_I2C_DL_EVENT_RX_SUCCESS (Some (?code # take m xs)) ?n = Some c3"
    by (simp only: ifx_i2c_dl_event_handler_def)
  have "\<exists>ctx'. run_rx link (fragments_from False m (drop m xs)) c3 = Some ctx' \<and> tl_state (tl ctx') = TL_STATE_IDLE \<and>
      tl_recv_packet_buffer (tl ctx') = tl_recv_packet_buffer (tl c3) \<and> tl_up ctx' = Some (STACK_MEM_ERROR, None, 0)"
    by (rule run_rx_dropped [where link = link, OF link]) (use c2 c3 m m294 in simp_all)
  then show ?thesis
    using h c2(4) c3(3) m(2,3) by (simp add: fragments_long)
qed

text \<open>The example layer with a buffer of three bytes.\<close>

definition narrow_context :: ifx_i2c_context where
  "narrow_context = tl_set (\<lambda>t. t\<lparr>tl_recv_packet_buffer := replicate 3 0, tl_recv_packet_buffer_length := 3\<rparr>) (transport_context TL_STATE_RX)"

lemma narrow_context_tl: "tl narrow_context =
    (tl (transport_context TL_STATE_RX))\<lparr>tl_recv_packet_buffer := replicate 3 0, tl_recv_packet_buffer_length := 3\<rparr>"
  by (simp add: narrow_context_def)

lemma narrow_context_ok: "tl_ok narrow_context"
  unfolding narrow_context_def
  by (rule tl_ok_set [OF transport_context_ok(1)]) (simp add: transport_context_tl tl_core_def)

lemma tl_memory_error_reported_witness:
  "\<exists>ctx'. run_rx settle (fragments_from False 2 [3, 4, 5, 6, 7])
        (tl_set (\<lambda>t. t\<lparr>tl_previous_chaining := 1, tl_total_recv_length := 2\<rparr>) narrow_context) = Some ctx' \<and>
      tl_state (tl ctx') = TL_STATE_IDLE \<and>
      tl_recv_packet_buffer (tl ctx') =
        tl_recv_packet_buffer (tl (tl_set (\<lambda>t. t\<lparr>tl_previous_chaining := 1, tl_total_recv_length := 2\<rparr>) narrow_context)) \<and>
      tl_up ctx' = Some (STACK_MEM_ERROR, None, 0)"
proof (rule tl_memory_error_reported [where got = "replicate 2 0"])
  have "tl_ok (tl_set (\<lambda>t. t\<lparr>tl_previous_chaining := 1, tl_total_recv_length := 2\<rparr>) narrow_context)"
    by (rule tl_ok_set [OF narrow_context_ok]) (simp add: narrow_context_tl transport_context_tl tl_core_def)
  then show "receiving False (replicate 2 0) (tl_set (\<lambda>t. t\<lparr>tl_previous_chaining := 1, tl_total_recv_length := 2\<rparr>) narrow_context)"
    by (simp add: receiving_def narrow_context_tl transport_context_tl follows_def TL_CHAINING_FIRST_def)
qed (simp_all add: settle_settles narrow_context_tl transport_context_tl)

text \<open>
  The check of the buffer is missing for the fragment that ends a packet. An only fragment (or a
  last one) longer than the rest of the buffer of the caller is copied over its end: the handler
  leaves the object, although the caller has passed its length.
\<close>

theorem tl_last_fragment_overflows:
  assumes rc: "receiving first got ctx" and big: "length (tl_recv_packet_buffer (tl ctx)) < length got + length xs"
    and len: "length xs \<le> 294" and code: "code = (if first then TL_CHAINING_NO else TL_CHAINING_LAST)"
  shows "ifx_i2c_dl_event_handler ctx IFX_I2C_DL_EVENT_RX_SUCCESS (Some (code # xs)) (word_of_nat (length (code # xs))) = None"
proof -
  let ?n = "word_of_nat (length (code # xs)) :: u16"
  have n: "unat ?n = length xs + 1" "unat (?n - 1) = length xs"
    using fragment_size [OF len, of code] len by (simp_all add: unat_of_nat)
  have mask: "code AND TL_PCTR_CHAIN_MASK = code" "code AND TL_PCTR_CHANNEL_MASK = 0" "code = TL_CHAINING_NO \<or> code = TL_CHAINING_LAST"
    by (simp_all add: code code_masks)
  have check: "ifx_i2c_tl_check_chaining_error code (tl_previous_chaining (tl ctx)) = Some STACK_SUCCESS"
    using rc by (simp add: receiving_def code check_chaining_table follows_def)
  have "tl_copy_payload (code # xs) ?n (tl_set (\<lambda>t. t\<lparr>tl_previous_chaining := code\<rparr>) ctx) = None"
    using rc big n(2) by (simp add: tl_copy_payload_def rd_bytes_def wr_bytes_def receiving_def)
  then have "tl_case_rx IFX_I2C_DL_EVENT_RX_SUCCESS (Some (code # xs)) code ?n ctx = None"
    using rc mask(3) check n(1) by (simp add: tl_case_rx_def receiving_def TL_HEADER_SIZE_def Let_def)
  then have "tl_handler_round IFX_I2C_DL_EVENT_RX_SUCCESS (Some (code # xs)) ?n ctx = None"
    using rc mask by (simp add: tl_handler_round_def tl_pctr_def rd_def receiving_def)
  then show ?thesis
    by (simp add: ifx_i2c_dl_event_handler_def tl_handler_loop.simps)
qed

lemma tl_last_fragment_overflows_witness:
  "ifx_i2c_dl_event_handler narrow_context IFX_I2C_DL_EVENT_RX_SUCCESS (Some (TL_CHAINING_NO # [1, 2, 3, 4]))
    (word_of_nat (length (TL_CHAINING_NO # [1, 2, 3, 4]))) = None"
  by (rule tl_last_fragment_overflows [where first = True and got = "[]"])
    (simp_all add: receiving_def narrow_context_ok narrow_context_tl transport_context_tl follows_def TL_CHAINING_NO_def)

text \<open>
  The chaining error code (7) in a frame received in place of a response passes the test of the
  code and is used as an index of a table with five rows: the handler reads outside of it.
\<close>

theorem tl_chaining_code_out_of_bounds:
  assumes "tl_state (tl ctx) = TL_STATE_RX" "tl_error_event (tl ctx) \<noteq> STACK_MEM_ERROR" "0 < unat n"
  shows "ifx_i2c_dl_event_handler ctx IFX_I2C_DL_EVENT_RX_SUCCESS (Some (TL_CHAINING_ERROR # xs)) n = None"
proof -
  have "TL_CHAINING_ERROR AND TL_PCTR_CHAIN_MASK = TL_CHAINING_ERROR" "TL_CHAINING_ERROR AND TL_PCTR_CHANNEL_MASK = 0"
    by (simp_all add: tl_consts)
  moreover have "ifx_i2c_tl_check_chaining_error TL_CHAINING_ERROR q = None" for q
    by (simp add: ifx_i2c_tl_check_chaining_error_def pctr_states_table_def nth_opt_def tl_consts)
  ultimately have "tl_handler_round IFX_I2C_DL_EVENT_RX_SUCCESS (Some (TL_CHAINING_ERROR # xs)) n ctx = None"
    using assms by (simp add: tl_handler_round_def tl_pctr_def rd_def tl_case_rx_def TL_HEADER_SIZE_def)
  then show ?thesis
    by (simp add: ifx_i2c_dl_event_handler_def tl_handler_loop.simps)
qed

lemma tl_chaining_code_out_of_bounds_witness:
  "ifx_i2c_dl_event_handler (transport_context TL_STATE_RX) IFX_I2C_DL_EVENT_RX_SUCCESS (Some (TL_CHAINING_ERROR # [])) 1 = None"
  by (rule tl_chaining_code_out_of_bounds) (simp_all add: transport_context_tl)

section \<open>Safety and bounded repetition\<close>

text \<open>
  Apart from these two cases the handler is safe: for every event the data link layer can
  deliver, in every state of the layer, it returns, stays inside all buffers, keeps the invariant of
  the whole stack below it and leaves the state of the layer above alone.
\<close>

theorem tl_handler_safe:
  assumes "tl_ok ctx" "dl_event_ok p_data n" "tl_fits p_data n (tl ctx)"
  shows "\<exists>ctx'. ifx_i2c_dl_event_handler ctx event p_data n = Some ctx' \<and> tl_ok ctx' \<and> keeps_ifx ctx ctx'"
  using assms by (intro tl_handler_goes)

lemma tl_handler_safe_witness:
  "\<exists>ctx'. ifx_i2c_dl_event_handler (transport_context TL_STATE_RX) IFX_I2C_DL_EVENT_ERROR (Some [0, 1, 2]) 3 = Some ctx' \<and> tl_ok ctx' \<and>
    keeps_ifx (transport_context TL_STATE_RX) ctx'"
  by (rule tl_handler_safe) (simp_all add: transport_context_ok transport_context_tl dl_event_ok_def tl_fits_def tl_consts)

text \<open>
  A chaining error reported by the slave while fragments are sent makes the layer start over with
  the first fragment, once: at the second report it gives up, is idle and reports the error.
\<close>

theorem tl_resends_once:
  assumes ok: "tl_ok ctx" "tl_state (tl ctx) = TL_STATE_TX" "dl_state (dl ctx) = DL_STATE_IDLE" "pl_frame_state (pl ctx) = PL_STATE_READY"
    and o: "tl_packet_offset (tl ctx) < tl_actual_packet_length (tl ctx)" and tc: "\<not> tl_transmission_completed (tl ctx)"
    and ev: "event_has event IFX_I2C_DL_EVENT_TX_SUCCESS" "\<not> event_has event IFX_I2C_DL_EVENT_ERROR" and n: "n \<noteq> 0"
  shows "\<exists>ctx'. ifx_i2c_dl_event_handler ctx event (Some (TL_CHAINING_ERROR # xs)) n = Some ctx' \<and>
    (if tl_chaining_error_count (tl ctx) = 0
     then sent_payload ctx' = fragment_at ((tl ctx)\<lparr>tl_packet_offset := 0\<rparr>) \<and> tl_state (tl ctx') = TL_STATE_TX \<and>
       tl_chaining_error_count (tl ctx') = 1 \<and> tl_up ctx' = tl_up ctx
     else tl_state (tl ctx') = TL_STATE_IDLE \<and> tl_up ctx' = Some (tl_error_event (tl ctx), None, 0))"
proof -
  let ?d = "Some (TL_CHAINING_ERROR # xs)"
  have mask: "TL_CHAINING_ERROR AND TL_PCTR_CHAIN_MASK = TL_CHAINING_ERROR" "TL_CHAINING_ERROR AND TL_PCTR_CHANNEL_MASK = 0"
    by (simp_all add: tl_consts)
  note round = tl_handler_round_def tl_pctr_def rd_def mask
  define c1 where "c1 = set_tl_state TL_STATE_RESEND ctx"
  have r1: "tl_handler_round event ?d n ctx = Some (c1, True)"
    using ok(2) o ev by (simp add: round tl_case_tx_def c1_def)
  have f1: "tl_state (tl c1) = TL_STATE_RESEND" "tl_chaining_error_count (tl c1) = tl_chaining_error_count (tl ctx)"
      "\<not> tl_transmission_completed (tl c1)"
    using tc by (simp_all add: c1_def)
  define c2 where "c2 = tl_set (\<lambda>t. t\<lparr>tl_chaining_error_count := tl_chaining_error_count t + 1\<rparr>) c1"
  show ?thesis
  proof (cases "tl_chaining_error_count (tl ctx) = 0")
    case True
    define c3 where "c3 = tl_set (\<lambda>t. t\<lparr>tl_packet_offset := 0, tl_total_recv_length := 0, tl_state := TL_STATE_TX\<rparr>) (set_tl_state TL_STATE_IDLE c2)"
    have c3: "tl_ok c3" "dl_state (dl c3) = DL_STATE_IDLE" "pl_frame_state (pl c3) = PL_STATE_READY" "tl_up c3 = tl_up ctx"
      using ok by (simp_all add: c3_def c2_def c1_def tl_ok_def)
    have tl3: "tl c3 = (tl ctx)\<lparr>tl_chaining_error_count := 1, tl_packet_offset := 0, tl_total_recv_length := 0, tl_state := TL_STATE_TX\<rparr>"
      using True by (simp add: c3_def c2_def c1_def)
    obtain c4 where c4: "ifx_i2c_tl_send_next_fragment c3 = Some (STACK_SUCCESS, c4)" "tl_up c4 = tl_up c3"
        "tl c4 = (tl c3)\<lparr>tl_packet_offset := tl_packet_offset (tl c3) + word_of_nat (fragment_len (tl c3))\<rparr>"
        "sent_payload c4 = fragment_at (tl c3)"
      using send_next_payload [OF c3(1-3)] by blast
    have "ifx_i2c_tl_resend_packets (set_tl_state TL_STATE_IDLE c2) = Some (STACK_SUCCESS, c4)"
      using c4(1) by (simp add: ifx_i2c_tl_resend_packets_def c3_def)
    then have r2: "tl_handler_round event ?d n c1 = Some (c4, False)"
      using True f1 ev(2) by (simp add: round tl_case_resend_def Let_def c2_def [symmetric])
    have "fragment_at (tl c3) = fragment_at ((tl ctx)\<lparr>tl_packet_offset := 0\<rparr>)"
      by (simp add: tl3 fragment_at_def fragment_len_def ifx_i2c_tl_calculate_pctr_def Let_def)
    then show ?thesis
      using tl_loop_go [OF r1] tl_loop_stop [OF r2] True c4(2-4) c3(4) by (simp add: ifx_i2c_dl_event_handler_def) (simp add: tl3)
  next
    case False
    define c3 where "c3 = set_tl_state TL_STATE_ERROR c2"
    have r2: "tl_handler_round event ?d n c1 = Some (c3, True)"
      using False f1 ev(2) by (simp add: round tl_case_resend_def Let_def c2_def [symmetric] c3_def)
    have r3: "tl_handler_round event ?d n c3 = Some (tl_upcall (tl_error_event (tl ctx)) None 0 (set_tl_state TL_STATE_IDLE c3), False)"
      using n ev(2) by (simp add: round tl_case_error_def c3_def c2_def c1_def)
    show ?thesis
      using tl_loop_go [OF r1] tl_loop_go [OF r2] tl_loop_stop [OF r3] False by (simp add: ifx_i2c_dl_event_handler_def)
  qed
qed

text \<open>The example layer in the middle of sending five bytes.\<close>

definition sending_context :: ifx_i2c_context where
  "sending_context = tl_set (\<lambda>t. t\<lparr>tl_actual_packet := [1, 2, 3, 4, 5], tl_actual_packet_length := 5, tl_packet_offset := 2\<rparr>)
     (transport_context TL_STATE_TX)"

lemma sending_context_ok: "tl_ok sending_context"
  unfolding sending_context_def
  by (rule tl_ok_set [OF transport_context_ok(1)]) (simp add: transport_context_tl tl_core_def)

lemma tl_resends_once_witness:
  "\<exists>ctx'. ifx_i2c_dl_event_handler sending_context 6 (Some (TL_CHAINING_ERROR # [])) 1 = Some ctx' \<and>
    (if tl_chaining_error_count (tl sending_context) = 0
     then sent_payload ctx' = fragment_at ((tl sending_context)\<lparr>tl_packet_offset := 0\<rparr>) \<and> tl_state (tl ctx') = TL_STATE_TX \<and>
       tl_chaining_error_count (tl ctx') = 1 \<and> tl_up ctx' = tl_up sending_context
     else tl_state (tl ctx') = TL_STATE_IDLE \<and> tl_up ctx' = Some (tl_error_event (tl sending_context), None, 0))"
  by (rule tl_resends_once [OF sending_context_ok])
    (simp_all add: sending_context_def transport_context_ok transport_context_tl event_has_def dl_consts)

text \<open>
  An event without data and without the error flag that the layer does not expect while it waits
  for a response is reported upwards, but the layer stays in its error state: from then on every
  request is refused.
\<close>

theorem tl_error_state_sticks:
  assumes st: "tl_state (tl ctx) = TL_STATE_RX" and ev: "\<not> event_has event IFX_I2C_DL_EVENT_ERROR" "\<not> event_has event IFX_I2C_DL_EVENT_RX_SUCCESS"
  shows "\<exists>ctx'. ifx_i2c_dl_event_handler ctx event None 0 = Some ctx' \<and> tl_up ctx' = Some (tl_error_event (tl ctx), None, 0) \<and>
    (\<forall>ctx2 p n r m. tl ctx2 = tl ctx' \<longrightarrow> ifx_i2c_tl_transceive ctx2 p n r m = Some (STACK_ERROR, ctx2))"
proof -
  define c1 where "c1 = set_tl_state TL_STATE_ERROR ctx"
  have r1: "tl_handler_round event None 0 ctx = Some (c1, True)"
    using st ev by (simp add: tl_handler_round_def tl_pctr_def tl_case_rx_def c1_def)
  have r2: "tl_handler_round event None 0 c1 = Some (tl_upcall (tl_error_event (tl ctx)) None 0 c1, False)"
    using ev by (simp add: tl_handler_round_def tl_pctr_def tl_case_error_def c1_def)
  have "ifx_i2c_tl_transceive ctx2 p n r m = Some (STACK_ERROR, ctx2)" if "tl ctx2 = tl c1" for ctx2 p n r m
    using that by (simp add: ifx_i2c_tl_transceive_def c1_def split: option.split)
  then show ?thesis
    using tl_loop_go [OF r1] tl_loop_stop [OF r2] by (simp add: ifx_i2c_dl_event_handler_def)
qed

lemma tl_error_state_sticks_witness:
  "\<exists>ctx'. ifx_i2c_dl_event_handler (transport_context TL_STATE_RX) IFX_I2C_DL_EVENT_TX_SUCCESS None 0 = Some ctx' \<and>
    tl_up ctx' = Some (tl_error_event (tl (transport_context TL_STATE_RX)), None, 0) \<and>
    (\<forall>ctx2 p n r m. tl ctx2 = tl ctx' \<longrightarrow> ifx_i2c_tl_transceive ctx2 p n r m = Some (STACK_ERROR, ctx2))"
  by (rule tl_error_state_sticks) (simp_all add: transport_context_tl)

end
