(* ===== verification/Ifx_Stack.thy ===== *)
theory Ifx_Stack
  imports Ifx_Fragments
begin

text \<open>
  \<open>lib/optiga/comms/ifx_i2c/ifx_i2c.c\<close> and \<open>lib/optiga/comms/optiga_comms.c\<close>: the interface of the
  stack, its reset sequence, and the one-command-at-a-time gate in front of it. The handler of the
  application, which the last layer calls, is a parameter \<open>upper\<close> that may do anything with the
  gate (\<open>None\<close>: it does not return). Pointers to contexts are not NULL here.
\<close>

section \<open>\<open>ifx_i2c.c\<close>\<close>

definition ifx_i2c_init :: "ifx_i2c_context \<Rightarrow> (stack_status \<times> ifx_i2c_context) option" where
  "ifx_i2c_init ctx =
     (if ifx_reset_type ctx = IFX_I2C_WARM_RESET \<or> ifx_reset_type ctx = IFX_I2C_COLD_RESET then
        case ifx_reset_state ctx of
          IFX_I2C_STATE_RESET_PIN_LOW \<Rightarrow>
            (let ctx = (if ifx_reset_type ctx = IFX_I2C_COLD_RESET then pal_call (GpioLow VddPin) ctx else ctx);
                 ctx = pal_call (GpioLow ResetPin) ctx;
                 ctx = ctx\<lparr>ifx_reset_state := IFX_I2C_STATE_RESET_PIN_HIGH\<rparr>
             in Some (STACK_SUCCESS, pal_call (RegisterTimer TimerIfxInit RESET_LOW_TIME_MSEC) ctx))
        | IFX_I2C_STATE_RESET_PIN_HIGH \<Rightarrow>
            (let ctx = (if ifx_reset_type ctx = IFX_I2C_COLD_RESET then pal_call (GpioHigh VddPin) ctx else ctx);
                 ctx = pal_call (GpioHigh ResetPin) ctx;
                 ctx = ctx\<lparr>ifx_reset_state := IFX_I2C_STATE_RESET_INIT\<rparr>
             in Some (STACK_SUCCESS, pal_call (RegisterTimer TimerIfxInit STARTUP_TIME_MSEC) ctx))
        | IFX_I2C_STATE_RESET_INIT \<Rightarrow> ifx_i2c_tl_init ctx
      else ifx_i2c_tl_init (pl_set (\<lambda>p. p\<lparr>pl_request_soft_reset := SOFT_RESET_TRUE\<rparr>) ctx))"

definition ifx_i2c_open :: "ifx_i2c_context \<Rightarrow> (stack_status \<times> ifx_i2c_context) option" where
  "ifx_i2c_open ctx =
     (if ifx_status ctx \<noteq> IFX_I2C_STATUS_BUSY then do {
        (api_status, ctx) \<leftarrow> ifx_i2c_init (ctx\<lparr>ifx_reset_type := IFX_I2C_COLD_RESET,
          ifx_reset_state := IFX_I2C_STATE_RESET_PIN_LOW, do_pal_init := True, ifx_state := IFX_I2C_STATE_UNINIT\<rparr>);
        Some (api_status, if api_status = STACK_SUCCESS then ctx\<lparr>ifx_status := IFX_I2C_STATUS_BUSY\<rparr> else ctx)
      } else Some (STACK_ERROR, ctx))"

definition ifx_i2c_reset :: "ifx_i2c_context \<Rightarrow> ifx_reset_type \<Rightarrow> (stack_status \<times> ifx_i2c_context) option" where
  "ifx_i2c_reset ctx reset_type =
     (if ifx_state ctx = IFX_I2C_STATE_IDLE \<and> ifx_status ctx \<noteq> IFX_I2C_STATUS_BUSY then do {
        (api_status, ctx) \<leftarrow> ifx_i2c_init (ctx\<lparr>ifx_reset_type := reset_type,
          ifx_reset_state := IFX_I2C_STATE_RESET_PIN_LOW, do_pal_init := False\<rparr>);
        Some (api_status, if api_status = STACK_SUCCESS then ctx\<lparr>ifx_status := IFX_I2C_STATUS_BUSY\<rparr> else ctx)
      } else Some (STACK_ERROR, ctx))"

definition ifx_i2c_transceive :: "ifx_i2c_context \<Rightarrow> byte list option \<Rightarrow> u16 \<Rightarrow> byte list \<Rightarrow> u16
    \<Rightarrow> (stack_status \<times> ifx_i2c_context) option" where
  "ifx_i2c_transceive ctx p_data data_length p_rx_buffer rx_buffer_len =
     (if ifx_state ctx = IFX_I2C_STATE_IDLE \<and> ifx_status ctx \<noteq> IFX_I2C_STATUS_BUSY then do {
        (api_status, ctx) \<leftarrow> ifx_i2c_tl_transceive ctx p_data data_length p_rx_buffer rx_buffer_len;
        Some (api_status, if api_status = STACK_SUCCESS then ctx\<lparr>ifx_status := IFX_I2C_STATUS_BUSY\<rparr> else ctx)
      } else Some (STACK_ERROR, ctx))"

text \<open>The events of the synchronous write are an argument, as in the physical layer.\<close>

definition ifx_i2c_set_slave_address :: "ifx_i2c_context \<Rightarrow> pal_event list \<Rightarrow> byte \<Rightarrow> byte
    \<Rightarrow> (stack_status \<times> ifx_i2c_context) option" where
  "ifx_i2c_set_slave_address ctx events addr persistent =
     (if ifx_state ctx = IFX_I2C_STATE_IDLE then ifx_i2c_pl_write_slave_address ctx events addr persistent
      else Some (STACK_ERROR, ctx))"

section \<open>\<open>optiga_comms.c\<close>\<close>

datatype comms_state = OPTIGA_COMMS_FREE | OPTIGA_COMMS_INUSE

record optiga_comms =
  comms_state :: comms_state
  comms_ctx :: ifx_i2c_context

type_synonym app_handler = "stack_status \<Rightarrow> optiga_comms \<Rightarrow> optiga_comms option"

definition set_ctx :: "ifx_i2c_context \<Rightarrow> optiga_comms \<Rightarrow> optiga_comms" where
  "set_ctx ctx c = c\<lparr>comms_ctx := ctx\<rparr>"

definition check_optiga_comms_state :: "optiga_comms \<Rightarrow> stack_status \<times> optiga_comms" where
  "check_optiga_comms_state c =
     (if comms_state c \<noteq> OPTIGA_COMMS_INUSE then (STACK_SUCCESS, c\<lparr>comms_state := OPTIGA_COMMS_INUSE\<rparr>) else (STACK_ERROR, c))"

definition ifx_i2c_event_handler :: "app_handler \<Rightarrow> stack_status \<Rightarrow> optiga_comms \<Rightarrow> optiga_comms option" where
  "ifx_i2c_event_handler upper event c = do {
     c \<leftarrow> upper event c;
     Some (c\<lparr>comms_state := OPTIGA_COMMS_FREE\<rparr>)
   }"

text \<open>The handler of \<open>ifx_i2c.c\<close> for the transport layer: it calls the one above when that is set.\<close>

definition ifx_i2c_tl_event_handler :: "app_handler \<Rightarrow> optiga_comms \<Rightarrow> stack_status \<Rightarrow> byte list option \<Rightarrow> u16 \<Rightarrow> optiga_comms option" where
  "ifx_i2c_tl_event_handler upper c event p_data data_len = do {
     c \<leftarrow> (if ifx_upper_handler (comms_ctx c) then ifx_i2c_event_handler upper event c else Some c);
     let ctx = (comms_ctx c)\<lparr>ifx_status := IFX_I2C_STATUS_NOT_BUSY\<rparr>;
     let ctx = (if ifx_state ctx = IFX_I2C_STATE_UNINIT \<and> event = STACK_SUCCESS then ctx\<lparr>ifx_state := IFX_I2C_STATE_IDLE\<rparr> else ctx);
     Some (set_ctx ctx c)
   }"

definition ifx_i2c_close :: "app_handler \<Rightarrow> optiga_comms \<Rightarrow> (stack_status \<times> optiga_comms) option" where
  "ifx_i2c_close upper c =
     (if ifx_status (comms_ctx c) \<noteq> IFX_I2C_STATUS_BUSY then do {
        let ctx = pal_call (GpioLow ResetPin) (pal_call (GpioLow VddPin) (pal_call PalDeinit (comms_ctx c)));
        c \<leftarrow> ifx_i2c_tl_event_handler upper (set_ctx ctx c) STACK_SUCCESS None 0;
        Some (STACK_SUCCESS, set_ctx ((comms_ctx c)\<lparr>ifx_state := IFX_I2C_STATE_UNINIT, ifx_status := IFX_I2C_STATUS_NOT_BUSY\<rparr>) c)
      } else Some (STACK_ERROR, c))"

text \<open>
  The four operations have the same shape: the gate, the registration of the handler, the operation
  below, and the gate opened again when it fails.
\<close>

definition comms_call :: "(optiga_comms \<Rightarrow> (stack_status \<times> optiga_comms) option) \<Rightarrow> optiga_comms \<Rightarrow> (stack_status \<times> optiga_comms) option" where
  "comms_call op c =
     (case check_optiga_comms_state c of (status, c) \<Rightarrow>
        if status = STACK_SUCCESS then do {
          (status, c) \<leftarrow> op (set_ctx ((comms_ctx c)\<lparr>ifx_upper_handler := True\<rparr>) c);
          Some (status, if status \<noteq> STACK_SUCCESS then c\<lparr>comms_state := OPTIGA_COMMS_FREE\<rparr> else c)
        } else Some (STACK_ERROR, c))"

text \<open>An operation of \<open>ifx_i2c.c\<close> on its context.\<close>

definition on_ctx :: "(ifx_i2c_context \<Rightarrow> (stack_status \<times> ifx_i2c_context) option) \<Rightarrow> optiga_comms \<Rightarrow> (stack_status \<times> optiga_comms) option" where
  "on_ctx op c = map_option (\<lambda>(status, ctx). (status, set_ctx ctx c)) (op (comms_ctx c))"

definition optiga_comms_open :: "optiga_comms \<Rightarrow> (stack_status \<times> optiga_comms) option" where
  "optiga_comms_open = comms_call (on_ctx ifx_i2c_open)"

definition optiga_comms_reset :: "ifx_reset_type \<Rightarrow> optiga_comms \<Rightarrow> (stack_status \<times> optiga_comms) option" where
  "optiga_comms_reset reset_type = comms_call (on_ctx (\<lambda>ctx. ifx_i2c_reset ctx reset_type))"

definition optiga_comms_transceive :: "byte list option \<Rightarrow> u16 \<Rightarrow> byte list \<Rightarrow> u16 \<Rightarrow> optiga_comms \<Rightarrow> (stack_status \<times> optiga_comms) option" where
  "optiga_comms_transceive p_data data_length p_buffer buffer_len =
     comms_call (on_ctx (\<lambda>ctx. ifx_i2c_transceive ctx p_data data_length p_buffer buffer_len))"

definition optiga_comms_close :: "app_handler \<Rightarrow> optiga_comms \<Rightarrow> (stack_status \<times> optiga_comms) option" where
  "optiga_comms_close upper = comms_call (ifx_i2c_close upper)"

section \<open>The layers composed\<close>

text \<open>
  What can happen to the stack: the end of a bus transfer (with the bytes read), a timer, the
  delivery of a pending call of the layer above, the passing of time, a call of the application.
  In the code a layer calls the one above directly; here the delivery is an event of its own, so
  what holds for every sequence of events holds for that order too.
\<close>

datatype stack_event = BusRead "byte list" | BusEvent pal_event | Timer timer_callback
  | DeliverPl | DeliverDl | DeliverTl | Clock u32
  | CallOpen | CallReset ifx_reset_type | CallTransceive "byte list option" u16 "byte list" u16 | CallClose

definition timer_fires :: "timer_callback \<Rightarrow> ifx_i2c_context \<Rightarrow> ifx_i2c_context option" where
  "timer_fires t ctx =
     (case t of
        TimerStatusPoll \<Rightarrow> ifx_i2c_pl_status_poll_callback ctx
      | TimerPalPoll \<Rightarrow> ifx_i2c_pal_poll_callback ctx
      | TimerGuardTime \<Rightarrow> ifx_i2c_pl_guard_time_callback ctx
      | TimerNegotiation \<Rightarrow> ifx_i2c_pl_negotiation_event_handler ctx
      | TimerSoftReset \<Rightarrow> ifx_i2c_pl_soft_reset ctx
      | TimerIfxInit \<Rightarrow> map_option snd (ifx_i2c_init ctx))"

definition stack_step :: "app_handler \<Rightarrow> stack_event \<Rightarrow> optiga_comms \<Rightarrow> optiga_comms option" where
  "stack_step upper ev c =
     (let ctx = comms_ctx c; back = map_option (\<lambda>ctx. set_ctx ctx c)
      in case ev of
        BusRead bs \<Rightarrow> back (do {
            ctx \<leftarrow> pal_read_done (take (unat (pl_buffer_rx_len (pl ctx))) bs) ctx;
            ifx_i2c_pl_pal_event_handler ctx PAL_I2C_EVENT_SUCCESS
          })
      | BusEvent e \<Rightarrow> back (ifx_i2c_pl_pal_event_handler ctx e)
      | Timer t \<Rightarrow> back (timer_fires t ctx)
      | DeliverPl \<Rightarrow> (case pl_up ctx of None \<Rightarrow> Some c
          | Some (e, p, n) \<Rightarrow> back (ifx_i2c_pl_event_handler (ctx\<lparr>pl_up := None\<rparr>) e p n))
      | DeliverDl \<Rightarrow> (case dl_up ctx of None \<Rightarrow> Some c
          | Some (e, p, n) \<Rightarrow> back (ifx_i2c_dl_event_handler (ctx\<lparr>dl_up := None\<rparr>) e p n))
      | DeliverTl \<Rightarrow> (case tl_up ctx of None \<Rightarrow> Some c
          | Some (e, p, n) \<Rightarrow> ifx_i2c_tl_event_handler upper (set_ctx (ctx\<lparr>tl_up := None\<rparr>) c) e p n)
      | Clock t \<Rightarrow> Some (set_ctx (ctx\<lparr>env := (env ctx)\<lparr>env_now := t\<rparr>\<rparr>) c)
      | CallOpen \<Rightarrow> map_option snd (optiga_comms_open c)
      | CallReset t \<Rightarrow> map_option snd (optiga_comms_reset t c)
      | CallTransceive p n r m \<Rightarrow> map_option snd (optiga_comms_transceive p n r m c)
      | CallClose \<Rightarrow> map_option snd (optiga_comms_close upper c))"

section \<open>Initialisation\<close>

lemma frame_size_ops [simp]:
  "frame_size (pl_set f ctx) = frame_size ctx" "frame_size (set_pl_state s ctx) = frame_size ctx"
  "frame_size (pal_call x ctx) = frame_size ctx" "frame_size (dl_set g ctx) = frame_size ctx" "frame_size (set_dl_state ds ctx) = frame_size ctx"
  "frame_size (tl_set h ctx) = frame_size ctx" "frame_size (set_tl_state ts ctx) = frame_size ctx"
  by (simp_all add: pl_set_def set_pl_state_def pal_call_def dl_set_def set_dl_state_def tl_set_def set_tl_state_def)

lemma other_parts [simp]:
  "slave_address (pl_set f ctx) = slave_address ctx" "do_pal_init (pl_set f ctx) = do_pal_init ctx" "env (pl_set f ctx) = env ctx"
  "do_pal_init (pal_call x ctx) = do_pal_init ctx" "env (pal_call x ctx) = env ctx"
  by (simp_all add: pl_set_def pal_call_def)

lemma read_register_size: "ifx_i2c_pl_read_register ctx a n = Some ctx' \<Longrightarrow> frame_size ctx' = frame_size ctx"
  by (auto simp: ifx_i2c_pl_read_register_def bind_eq_Some_conv)

text \<open>The first call of the negotiation ends with a request to the bus or a timer: the frame size is not touched.\<close>

lemma negotiation_starts:
  assumes st: "pl_negotiate_state (pl ctx) = PL_INIT_SET_FREQ_DEFAULT" and r: "negotiation_loop mfs ev ctx = Some ctx'"
  shows "frame_size ctx' = frame_size ctx"
proof -
  obtain e1 c1 go where s: "negotiate_set_default ctx = (e1, c1, go)"
    by (metis prod_cases3)
  have c1: "frame_size c1 = frame_size ctx" "go \<Longrightarrow> pl_negotiate_state (pl c1) = PL_INIT_GET_FREQ_REG"
    using s by (auto simp: negotiate_set_default_def ifx_i2c_pl_set_bit_rate_def Let_def split: prod.splits if_splits)
  have l: "negotiation_loop mfs ev ctx = (if go then negotiation_loop mfs e1 c1 else Some c1)"
    by (subst negotiation_loop.simps) (simp add: negotiation_round_def st s)
  show ?thesis
  proof (cases go)
    case True
    then obtain c2 where "ifx_i2c_pl_read_register (set_negotiate_state PL_INIT_SET_FREQ_REG c1) PL_REG_MAX_SCL_FREQU PL_REG_LEN_MAX_SCL_FREQU = Some c2"
        "ctx' = c2"
      using r l c1(2) by (subst (asm) negotiation_loop.simps) (auto simp: negotiation_round_def bind_eq_Some_conv)
    then show ?thesis
      using c1(1) read_register_size by fastforce
  qed (use r l c1(1) in simp)
qed

lemma pl_init_goes:
  assumes ok: "pl_ok ctx"
  shows "\<exists>s ctx'. ifx_i2c_pl_init ctx = Some (s, ctx') \<and> pl_ok ctx' \<and> same_above ctx ctx' \<and> frame_size ctx' = frame_size ctx"
proof -
  define c0 where "c0 = (pl_set (\<lambda>p. p\<lparr>pl_frame_state := PL_STATE_UNINIT,
            pl_negotiate_state := PL_INIT_SET_FREQ_DEFAULT, pl_retry_counter := PL_POLLING_MAX_CNT\<rparr>) ctx)\<lparr>pal_slave_address := slave_address ctx\<rparr>"
  define c1 where "c1 = (if do_pal_init ctx then pal_call PalInit c0 else c0)"
  have keep: "pl_ok (x\<lparr>pal_slave_address := a\<rparr>) \<longleftrightarrow> pl_ok x" "same_above y (x\<lparr>pal_slave_address := a\<rparr>) \<longleftrightarrow> same_above y x" for x y a
    by (simp_all add: pl_ok_def same_above_def)
  have c1: "pl_ok c1" "same_above ctx c1" "frame_size c1 = frame_size ctx"
      "pl_negotiate_state (pl c1) = PL_INIT_SET_FREQ_DEFAULT"
    using ok by (auto simp: c1_def c0_def keep pl_ok_lengths intro!: pl_ok_set)
  define soft where "soft = (pl_request_soft_reset (pl c1) = SOFT_RESET_TRUE)"
  define c2 where "c2 = (if soft then pl_set (\<lambda>p. p\<lparr>pl_request_soft_reset := SR_GET_STATUS_REG, pl_frame_state := PL_STATE_SOFT_RESET\<rparr>) c1
             else set_pl_state PL_STATE_INIT c1)"
  have c2: "pl_ok c2" "same_above ctx c2" "frame_size c2 = frame_size ctx"
    using c1 by (auto simp: c2_def pl_ok_lengths intro!: pl_ok_set)
  obtain c3 where c3: "ifx_i2c_pl_frame_event_handler c2 STACK_SUCCESS = Some c3" "pl_ok c3" "same_above ctx c3"
    using frame_event_handler_goes [OF c2(1,2), of STACK_SUCCESS] by (auto simp: pl_goes_def)
  have size: "frame_size c3 = frame_size ctx"
  proof (cases soft)
    case True
    then have "ifx_i2c_pl_read_register (pl_set (\<lambda>p. p\<lparr>pl_request_soft_reset := PL_RESET_WRITE\<rparr>) c2) PL_REG_I2C_STATE PL_REG_LEN_I2C_STATE = Some c3"
      using c3(1) by (simp add: ifx_i2c_pl_frame_event_handler_def c2_def ifx_i2c_pl_soft_reset_def)
    then show ?thesis
      using read_register_size c2(3) by fastforce
  next
    case False
    then have "pl_negotiate_state (pl c2) = PL_INIT_SET_FREQ_DEFAULT" "pl_frame_state (pl c2) = PL_STATE_INIT"
      using c1(4) by (simp_all add: c2_def)
    then show ?thesis
      using c3(1) negotiation_starts c2(3) by (simp add: ifx_i2c_pl_frame_event_handler_def ifx_i2c_pl_negotiation_event_handler_def)
  qed
  have "ifx_i2c_pl_init ctx = (if do_pal_init ctx \<and> \<not> env_pal_init_ok (env ctx) then Some (STACK_ERROR, c1) else Some (STACK_SUCCESS, c3))"
    using c3(1) unfolding c2_def soft_def c1_def c0_def
    by (cases "do_pal_init ctx"; cases "pl_request_soft_reset (pl ctx) = SOFT_RESET_TRUE"; simp add: ifx_i2c_pl_init_def Let_def)
  then show ?thesis
    using c1 c3(2,3) size by auto
qed

lemma dl_init_goes:
  assumes ok: "dl_ok ctx"
  shows "\<exists>s ctx'. ifx_i2c_dl_init ctx = Some (s, ctx') \<and> dl_ok ctx' \<and> dl_resting ctx' \<and> keeps_quiet ctx ctx' \<and> frame_size ctx' = frame_size ctx"
proof -
  have ok0: "dl_ok (set_dl_state DL_STATE_UNINIT ctx)"
    by (rule dl_ok_state [OF ok]) simp
  then obtain s c1 where c1: "ifx_i2c_pl_init (set_dl_state DL_STATE_UNINIT ctx) = Some (s, c1)" "pl_ok c1"
      "same_above (set_dl_state DL_STATE_UNINIT ctx) c1" "frame_size c1 = frame_size ctx"
    using pl_init_goes [of "set_dl_state DL_STATE_UNINIT ctx"] dl_ok_parts [OF ok] by auto
  have ok1: "dl_ok c1" "dl_state (dl c1) = DL_STATE_UNINIT"
    using dl_ok_same_above [OF ok0 c1(2,3)] c1(3) by (auto simp: same_above_def)
  have k: "keeps_quiet ctx c1"
    using keeps_quiet_trans [OF _ same_above_keeps_quiet [OF c1(3)], of ctx] by simp
  have "dl_ok (dl_set (\<lambda>d. d\<lparr>dl_state := DL_STATE_IDLE, dl_tx_seq_nr := DL_MAX_FRAME_NUM,
       dl_rx_seq_nr := DL_MAX_FRAME_NUM, dl_resynced := False, dl_error := False\<rparr>) c1)"
    using ok1 dl_ok_parts [OF ok1(1)] by (intro dl_ok_set) (auto simp: dl_core_def DL_MAX_FRAME_NUM_def)
  then show ?thesis
    using c1(1,4) ok1 k by (auto simp: ifx_i2c_dl_init_def dl_resting_def)
qed

lemma tl_init_goes:
  assumes ok: "tl_ok ctx" and size: "6 \<le> unat (frame_size ctx)"
  shows "\<exists>s ctx'. ifx_i2c_tl_init ctx = Some (s, ctx') \<and> tl_ok ctx' \<and> keeps_ifx ctx ctx'"
proof -
  have "dl_ok (set_tl_state TL_STATE_UNINIT ctx)"
    using ok by (simp add: tl_ok_def)
  then obtain s c1 where c1: "ifx_i2c_dl_init (set_tl_state TL_STATE_UNINIT ctx) = Some (s, c1)" "dl_ok c1" "dl_resting c1"
      "keeps_quiet (set_tl_state TL_STATE_UNINIT ctx) c1" "frame_size c1 = frame_size ctx"
    using dl_init_goes [of "set_tl_state TL_STATE_UNINIT ctx"] by auto
  have ok1: "tl_ok c1" "keeps_ifx ctx c1"
    using tl_ok_quiet [OF _ c1(2-4)] ok keeps_ifx_trans [of ctx "set_tl_state TL_STATE_UNINIT ctx" c1] by simp_all
  have "unat (frame_size c1) \<le> 300"
    using c1(2) by (simp add: dl_ok_def pl_ok_def DL_MAX_FRAME_SIZE_def)
  moreover have "unat (frame_size c1 - 6) = unat (frame_size c1) - 6"
    using size c1(5) by (simp add: unat_sub_if' split: if_splits)
  ultimately have "tl_ok (tl_set (\<lambda>t. t\<lparr>tl_state := TL_STATE_IDLE,
       tl_max_packet_length := frame_size c1 - word_of_nat (DL_HEADER_SIZE + TL_HEADER_SIZE)\<rparr>) c1)"
    using ok1(1) by (simp add: tl_ok_def tl_core_def DL_HEADER_SIZE_def TL_HEADER_SIZE_def)
  then show ?thesis
    using c1(1) ok1 by (auto simp: ifx_i2c_tl_init_def)
qed

section \<open>The whole stack stays inside its buffers\<close>

definition stack_ok :: "optiga_comms \<Rightarrow> bool" where
  "stack_ok c \<longleftrightarrow> tl_ok (comms_ctx c)"

text \<open>The command under way, if any, has a receive buffer with room for one fragment more than it announced.\<close>

definition stack_roomy :: "optiga_comms \<Rightarrow> bool" where
  "stack_roomy c \<longleftrightarrow> tl_roomy (tl (comms_ctx c))"

definition roomy_call :: "stack_event \<Rightarrow> bool" where
  "roomy_call ev \<longleftrightarrow> (case ev of CallTransceive p n r m \<Rightarrow> unat m + 294 \<le> length r | _ \<Rightarrow> True)"

text \<open>
  What the code relies on without a check: a command names objects of the caller; an initialisation finds
  a frame size that holds the headers; the slave sends its chaining error code only while fragments
  are sent; and when the receive buffer has no such room to spare, the last or only fragment of a
  response fits into it. Nothing is asked of any other event.
\<close>

definition last_fragment_fits :: "byte list option \<Rightarrow> u16 \<Rightarrow> ifx_i2c_tl \<Rightarrow> bool" where
  "last_fragment_fits p_data n t \<longleftrightarrow>
     (case p_data of None \<Rightarrow> True
      | Some data \<Rightarrow> data ! 0 AND TL_PCTR_CHAIN_MASK \<in> {TL_CHAINING_NO, TL_CHAINING_LAST} \<longrightarrow>
          unat (tl_total_recv_length t) + unat n \<le> length (tl_recv_packet_buffer t) + 1)"

definition stack_event_ok :: "stack_event \<Rightarrow> optiga_comms \<Rightarrow> bool" where
  "stack_event_ok ev c =
     (let t = tl (comms_ctx c)
      in case ev of
        DeliverDl \<Rightarrow> (case dl_up (comms_ctx c) of None \<Rightarrow> True
          | Some (e, p, n) \<Rightarrow> chaining_code_ok p t \<and> (stack_roomy c \<or> last_fragment_fits p n t))
      | Timer TimerIfxInit \<Rightarrow> 6 \<le> unat (frame_size (comms_ctx c))
      | CallOpen \<Rightarrow> 6 \<le> unat (frame_size (comms_ctx c))
      | CallReset t \<Rightarrow> 6 \<le> unat (frame_size (comms_ctx c))
      | CallTransceive p n r m \<Rightarrow> transceive_args p n r m
      | _ \<Rightarrow> True)"

text \<open>An event on the context: it returns, keeps the invariant, the room and what belongs to the interface.\<close>

definition ctx_goes :: "ifx_i2c_context \<Rightarrow> ifx_i2c_context option \<Rightarrow> bool" where
  "ctx_goes ctx r \<longleftrightarrow> (\<exists>ctx'. r = Some ctx' \<and> tl_ok ctx' \<and> keeps_ifx ctx ctx' \<and> (tl_roomy (tl ctx) \<longrightarrow> tl_roomy (tl ctx')))"

lemma stack_ok_set [simp]: "stack_ok (set_ctx ctx c) \<longleftrightarrow> tl_ok ctx" "stack_ok (c\<lparr>comms_state := s\<rparr>) \<longleftrightarrow> stack_ok c"
  "stack_roomy (set_ctx ctx c) \<longleftrightarrow> tl_roomy (tl ctx)" "stack_roomy (c\<lparr>comms_state := s\<rparr>) \<longleftrightarrow> stack_roomy c"
  "comms_ctx (set_ctx ctx c) = ctx" "comms_state (set_ctx ctx c) = comms_state c"
  by (simp_all add: stack_ok_def stack_roomy_def set_ctx_def)

lemma tl_ok_fields [simp]:
  "tl_ok (ctx\<lparr>ifx_status := st\<rparr>) \<longleftrightarrow> tl_ok ctx" "tl_ok (ctx\<lparr>ifx_state := se\<rparr>) \<longleftrightarrow> tl_ok ctx"
  "tl_ok (ctx\<lparr>ifx_reset_type := rt\<rparr>) \<longleftrightarrow> tl_ok ctx" "tl_ok (ctx\<lparr>ifx_reset_state := rs\<rparr>) \<longleftrightarrow> tl_ok ctx"
  "tl_ok (ctx\<lparr>do_pal_init := b\<rparr>) \<longleftrightarrow> tl_ok ctx" "tl_ok (ctx\<lparr>ifx_upper_handler := b\<rparr>) \<longleftrightarrow> tl_ok ctx"
  "tl_ok (ctx\<lparr>env := v\<rparr>) \<longleftrightarrow> tl_ok ctx" "tl_ok (pal_call x ctx) \<longleftrightarrow> tl_ok ctx" "tl (pal_call x ctx) = tl ctx"
  by (simp_all add: tl_ok_def dl_ok_def dl_resting_def pl_ok_def pal_call_def)

lemma tl_ok_delivered [simp]:
  "tl_ok ctx \<Longrightarrow> tl_ok (ctx\<lparr>pl_up := None\<rparr>)" "tl_ok ctx \<Longrightarrow> tl_ok (ctx\<lparr>dl_up := None\<rparr>)" "tl_ok ctx \<Longrightarrow> tl_ok (ctx\<lparr>tl_up := None\<rparr>)"
  by (simp_all add: tl_ok_def dl_ok_def dl_resting_def pl_ok_def pl_up_ok_def dl_up_ok_def tl_up_ok_def)

lemma ctx_goes_from [simp]:
  "ctx_goes (ctx\<lparr>pl_up := u\<rparr>) r \<longleftrightarrow> ctx_goes ctx r" "ctx_goes (ctx\<lparr>dl_up := v\<rparr>) r \<longleftrightarrow> ctx_goes ctx r"
  by (simp_all add: ctx_goes_def keeps_ifx_def)

lemma tl_ok_keeps: "tl_ok c \<Longrightarrow> dl_ok c' \<Longrightarrow> dl_resting c' \<Longrightarrow> keeps_tl c c' \<Longrightarrow> tl_ok c' \<and> keeps_ifx c c' \<and> tl c' = tl c"
  by (simp add: tl_ok_def keeps_tl_def keeps_ifx_def)

lemma tl_ok_pl: "tl_ok ctx \<Longrightarrow> pl_ok ctx"
  by (simp add: tl_ok_def dl_ok_def)

lemma pl_step_goes:
  assumes ok: "tl_ok ctx" and r: "pl_goes ctx r"
  shows "ctx_goes ctx r"
proof -
  obtain ctx' where c: "r = Some ctx'" "pl_ok ctx'" "same_above ctx ctx'"
    using r by (auto simp: pl_goes_def)
  have "dl_ok ctx'"
    using dl_ok_same_above [OF _ c(2,3)] ok by (simp add: tl_ok_def)
  moreover have "dl_resting ctx'"
    using ok c(3) by (simp add: tl_ok_def dl_resting_def same_above_def)
  ultimately show ?thesis
    using tl_ok_keeps [OF ok _ _ keeps_quiet_keeps [OF same_above_keeps_quiet [OF c(3)]]] c(1) by (simp add: ctx_goes_def)
qed

lemma dl_step_goes:
  assumes ok: "tl_ok ctx" and ev: "pl_event_ok p n"
  shows "ctx_goes ctx (ifx_i2c_pl_event_handler ctx e p n)"
proof -
  have dl: "dl_ok ctx" "dl_resting ctx"
    using ok by (simp_all add: tl_ok_def)
  show ?thesis
  proof (cases "dl_state (dl ctx) = DL_STATE_ACK \<and> e \<noteq> STACK_ERROR \<and> e \<noteq> FATAL_ERROR")
    case True
    then obtain ctx' where "ifx_i2c_pl_event_handler ctx e p n = Some ctx'" "dl_ok ctx'" "keeps_tl ctx ctx'" "dl_state (dl ctx') = DL_STATE_IDLE"
      using handler_delivers [OF dl(1)] by blast
    then show ?thesis
      using tl_ok_keeps [OF ok] by (simp add: ctx_goes_def dl_resting_def)
  next
    case False
    then obtain ctx' where "ifx_i2c_pl_event_handler ctx e p n = Some ctx'" "dl_ok ctx'" "keeps_quiet ctx ctx'" "dl_resting ctx'"
      using handler_quiet [OF dl(1) ev dl(2), of e] by blast
    then show ?thesis
      using tl_ok_keeps [OF ok _ _ keeps_quiet_keeps] by (simp add: ctx_goes_def)
  qed
qed

lemma tl_init_roomy: "ifx_i2c_tl_init ctx = Some (s, ctx') \<Longrightarrow> tl_ok ctx \<Longrightarrow> tl_roomy (tl ctx')"
proof -
  assume r: "ifx_i2c_tl_init ctx = Some (s, ctx')" and ok: "tl_ok ctx"
  obtain s1 c1 where "ifx_i2c_dl_init (set_tl_state TL_STATE_UNINIT ctx) = Some (s1, c1)" "keeps_quiet (set_tl_state TL_STATE_UNINIT ctx) c1"
    using dl_init_goes [of "set_tl_state TL_STATE_UNINIT ctx"] ok by (auto simp: tl_ok_def)
  then show ?thesis
    using r by (auto simp: ifx_i2c_tl_init_def keeps_quiet_def keeps_tl_def tl_roomy_def split: if_splits)
qed

lemma keeps_ifx_parts [simp]:
  "keeps_ifx c (pal_call x ctx) \<longleftrightarrow> keeps_ifx c ctx" "keeps_ifx c (pl_set f ctx) \<longleftrightarrow> keeps_ifx c ctx"
  "keeps_ifx c (ctx\<lparr>ifx_reset_state := rs\<rparr>) \<longleftrightarrow> keeps_ifx c ctx"
  by (simp_all add: keeps_ifx_def pal_call_def pl_set_def)

lemma init_goes:
  assumes ok: "tl_ok ctx" and size: "6 \<le> unat (frame_size ctx)"
  shows "\<exists>s ctx'. ifx_i2c_init ctx = Some (s, ctx') \<and> tl_ok ctx' \<and> keeps_ifx ctx ctx' \<and> (tl_roomy (tl ctx) \<longrightarrow> tl_roomy (tl ctx'))"
proof -
  let ?soft = "pl_set (\<lambda>p. p\<lparr>pl_request_soft_reset := SOFT_RESET_TRUE\<rparr>) ctx"
  have soft: "tl_ok ?soft" "keeps_ifx ctx ?soft"
    using ok by (simp_all add: tl_ok_def dl_ok_def dl_resting_def pl_ok_def pl_set_def keeps_ifx_def)
  have init: "\<exists>s ctx'. ifx_i2c_tl_init c = Some (s, ctx') \<and> tl_ok ctx' \<and> keeps_ifx ctx ctx' \<and> tl_roomy (tl ctx')"
    if "tl_ok c" "6 \<le> unat (frame_size c)" "keeps_ifx ctx c" for c
    using tl_init_goes [OF that(1,2)] tl_init_roomy [OF _ that(1)] keeps_ifx_trans [OF that(3)] by blast
  have "\<exists>s ctx'. ifx_i2c_tl_init ctx = Some (s, ctx') \<and> tl_ok ctx' \<and> keeps_ifx ctx ctx' \<and> tl_roomy (tl ctx')"
    "\<exists>s ctx'. ifx_i2c_tl_init ?soft = Some (s, ctx') \<and> tl_ok ctx' \<and> keeps_ifx ctx ctx' \<and> tl_roomy (tl ctx')"
    using init [OF ok size] init [OF soft(1)] soft(2) size by simp_all
  then show ?thesis
    using ok by (auto simp: ifx_i2c_init_def Let_def split: ifx_reset_state.split)
qed

text \<open>An operation that returns and keeps the invariant, through the gate; \<open>b\<close>: it also keeps the room.\<close>

definition comms_goes :: "bool \<Rightarrow> optiga_comms \<Rightarrow> (stack_status \<times> optiga_comms) option \<Rightarrow> bool" where
  "comms_goes b c r \<longleftrightarrow> (\<exists>s c'. r = Some (s, c') \<and> stack_ok c' \<and> (b \<and> stack_roomy c \<longrightarrow> stack_roomy c'))"

lemma comms_call_goes:
  assumes "stack_ok c" and op: "\<And>c. stack_ok c \<Longrightarrow> P c \<Longrightarrow> comms_goes b c (op c)"
    and P: "\<And>c'. comms_ctx c' = (comms_ctx c)\<lparr>ifx_upper_handler := True\<rparr> \<Longrightarrow> P c'"
  shows "comms_goes b c (comms_call op c)"
proof (cases "comms_state c = OPTIGA_COMMS_INUSE")
  case False
  define c1 where "c1 = set_ctx ((comms_ctx c)\<lparr>ifx_upper_handler := True\<rparr>) (c\<lparr>comms_state := OPTIGA_COMMS_INUSE\<rparr>)"
  have c1: "stack_ok c1" "P c1" "stack_roomy c1 \<longleftrightarrow> stack_roomy c"
    using assms(1) P by (simp_all add: c1_def) (simp_all add: stack_ok_def stack_roomy_def)
  then obtain s c' where "op c1 = Some (s, c')" "stack_ok c'" "b \<and> stack_roomy c1 \<longrightarrow> stack_roomy c'"
    using op [of c1] unfolding comms_goes_def by blast
  then show ?thesis
    using False c1(3) by (simp add: comms_call_def check_optiga_comms_state_def c1_def [symmetric] comms_goes_def)
qed (use assms(1) in \<open>simp add: comms_call_def check_optiga_comms_state_def comms_goes_def\<close>)

definition api_goes :: "bool \<Rightarrow> ifx_i2c_context \<Rightarrow> (stack_status \<times> ifx_i2c_context) option \<Rightarrow> bool" where
  "api_goes b ctx r \<longleftrightarrow> (\<exists>s ctx'. r = Some (s, ctx') \<and> tl_ok ctx' \<and> (b \<and> tl_roomy (tl ctx) \<longrightarrow> tl_roomy (tl ctx')))"

lemma on_ctx_goes: "api_goes b (comms_ctx c) (op (comms_ctx c)) \<Longrightarrow> comms_goes b c (on_ctx op c)"
  by (auto simp: on_ctx_def comms_goes_def api_goes_def) (auto simp: stack_roomy_def)

lemma transceive_roomy:
  assumes ok: "tl_ok ctx" and args: "transceive_args p n r m" and room: "unat m + 294 \<le> length r" "tl_roomy (tl ctx)"
    and t: "ifx_i2c_tl_transceive ctx p n r m = Some (s, ctx')"
  shows "tl_roomy (tl ctx')"
proof (cases "p = None \<or> n = 0 \<or> tl_state (tl ctx) \<noteq> TL_STATE_IDLE")
  case False
  then obtain packet where p: "p = Some packet"
    by auto
  let ?c = "tl_request packet n r m ctx"
  have c: "tl_ok ?c"
    using tl_request_ok(1) [OF ok] args p by simp
  have "keeps_room (Option.bind (ifx_i2c_tl_send_next_fragment ?c) (\<lambda>(s, ctx). Some (ctx, False)))"
    by (rule roomy_send_next [OF c]) (use room(1) in \<open>auto simp: tl_request_def tl_roomy_def\<close>)
  then show ?thesis
    using t False p by (simp add: ifx_i2c_tl_transceive_def)
qed (use t room(2) in \<open>auto simp: ifx_i2c_tl_transceive_def split: option.splits\<close>)

lemma ifx_api_goes:
  assumes ok: "tl_ok ctx"
  shows "6 \<le> unat (frame_size ctx) \<Longrightarrow> api_goes b ctx (ifx_i2c_open ctx)"
    and "6 \<le> unat (frame_size ctx) \<Longrightarrow> api_goes b ctx (ifx_i2c_reset ctx t)"
    and "transceive_args p n r m \<Longrightarrow> api_goes (unat m + 294 \<le> length r) ctx (ifx_i2c_transceive ctx p n r m)"
proof -
  show "api_goes b ctx (ifx_i2c_open ctx)" if "6 \<le> unat (frame_size ctx)"
    using init_goes [of "ctx\<lparr>ifx_reset_type := IFX_I2C_COLD_RESET,
          ifx_reset_state := IFX_I2C_STATE_RESET_PIN_LOW, do_pal_init := True, ifx_state := IFX_I2C_STATE_UNINIT\<rparr>"] ok that
    by (auto simp: ifx_i2c_open_def api_goes_def)
  show "api_goes b ctx (ifx_i2c_reset ctx t)" if "6 \<le> unat (frame_size ctx)"
    using init_goes [of "ctx\<lparr>ifx_reset_type := t, ifx_reset_state := IFX_I2C_STATE_RESET_PIN_LOW, do_pal_init := False\<rparr>"] ok that
    by (auto simp: ifx_i2c_reset_def api_goes_def)
  show "api_goes (unat m + 294 \<le> length r) ctx (ifx_i2c_transceive ctx p n r m)" if args: "transceive_args p n r m"
  proof -
    obtain s ctx' where t: "ifx_i2c_tl_transceive ctx p n r m = Some (s, ctx')" "tl_ok ctx'"
      using transceive_goes [OF ok keeps_ifx_refl args] by (auto simp: tl_goes_def)
    show ?thesis
      using t transceive_roomy [OF ok args _ _ t(1)] ok by (simp add: ifx_i2c_transceive_def api_goes_def)
  qed
qed

text \<open>What is asked of the application's handler: it returns and does not spoil the stack.\<close>

definition app_ok :: "app_handler \<Rightarrow> bool" where
  "app_ok upper \<longleftrightarrow> (\<forall>e c. stack_ok c \<longrightarrow> (\<exists>c'. upper e c = Some c' \<and> stack_ok c' \<and> (stack_roomy c \<longrightarrow> stack_roomy c')))"

definition step_goes :: "bool \<Rightarrow> optiga_comms \<Rightarrow> optiga_comms option \<Rightarrow> bool" where
  "step_goes b c r \<longleftrightarrow> (\<exists>c'. r = Some c' \<and> stack_ok c' \<and> (b \<and> stack_roomy c \<longrightarrow> stack_roomy c'))"

lemma tl_event_goes:
  assumes upper: "app_ok upper" and ok: "stack_ok c"
  shows "step_goes b c (ifx_i2c_tl_event_handler upper c e p n)"
proof -
  obtain c1 where "upper e c = Some c1" "stack_ok c1" "stack_roomy c \<longrightarrow> stack_roomy c1"
    using upper ok unfolding app_ok_def by blast
  then show ?thesis
    using ok by (cases "ifx_upper_handler (comms_ctx c)")
      (simp_all add: ifx_i2c_tl_event_handler_def ifx_i2c_event_handler_def Let_def stack_ok_def stack_roomy_def step_goes_def)
qed

lemma close_goes:
  assumes upper: "app_ok upper" and ok: "stack_ok c"
  shows "comms_goes b c (ifx_i2c_close upper c)"
proof -
  define c1 where "c1 = set_ctx (pal_call (GpioLow ResetPin) (pal_call (GpioLow VddPin) (pal_call PalDeinit (comms_ctx c)))) c"
  have c1: "stack_ok c1" "stack_roomy c1 \<longleftrightarrow> stack_roomy c"
    using ok by (simp_all add: c1_def) (simp_all add: stack_ok_def stack_roomy_def)
  then obtain c2 where c2: "ifx_i2c_tl_event_handler upper c1 STACK_SUCCESS None 0 = Some c2" "stack_ok c2"
      "stack_roomy c1 \<longrightarrow> stack_roomy c2"
    using tl_event_goes [OF upper c1(1), of True STACK_SUCCESS None 0] unfolding step_goes_def by blast
  then show ?thesis
    using ok c1(2) by (simp add: ifx_i2c_close_def Let_def c1_def [symmetric] comms_goes_def) (simp add: stack_ok_def stack_roomy_def)
qed

lemma timer_goes:
  assumes ok: "tl_ok ctx" and t: "t = TimerIfxInit \<Longrightarrow> 6 \<le> unat (frame_size ctx)"
  shows "ctx_goes ctx (timer_fires t ctx)"
proof (cases t)
  case TimerIfxInit
  then show ?thesis
    using init_goes [OF ok] t by (auto simp: timer_fires_def ctx_goes_def)
qed (use pl_step_goes [OF ok] pal_event_goes(2-4) [OF tl_ok_pl [OF ok]] negotiation_goes [OF tl_ok_pl [OF ok] same_above_refl]
    soft_reset_goes [OF tl_ok_pl [OF ok] same_above_refl] in \<open>simp_all add: timer_fires_def\<close>)

lemma back_goes: "ctx_goes (comms_ctx c) r \<Longrightarrow> step_goes b c (map_option (\<lambda>ctx. set_ctx ctx c) r)"
  by (auto simp: ctx_goes_def step_goes_def) (simp add: stack_roomy_def)

lemma call_goes: "comms_goes b c r \<Longrightarrow> step_goes b c (map_option snd r)"
  by (auto simp: comms_goes_def step_goes_def)

lemma bus_read_goes:
  assumes tl: "tl_ok ctx"
  shows "ctx_goes ctx (Option.bind (pal_read_done (take (unat (pl_buffer_rx_len (pl ctx))) bs) ctx)
    (\<lambda>ctx. ifx_i2c_pl_pal_event_handler ctx PAL_I2C_EVENT_SUCCESS))"
proof -
  have "pl_goes ctx (pal_read_done (take (unat (pl_buffer_rx_len (pl ctx))) bs) ctx)"
    by (rule pal_event_goes(5) [OF tl_ok_pl [OF tl]]) simp
  then obtain ctx1 where c1: "pal_read_done (take (unat (pl_buffer_rx_len (pl ctx))) bs) ctx = Some ctx1" "pl_ok ctx1" "same_above ctx ctx1"
    by (auto simp: pl_goes_def)
  then have "ctx_goes ctx (ifx_i2c_pl_pal_event_handler ctx1 PAL_I2C_EVENT_SUCCESS)"
    using pl_goes_trans [OF pal_event_goes(1)] by (intro pl_step_goes [OF tl]) blast
  then show ?thesis
    by (simp add: c1(1))
qed

lemma deliver_dl_goes:
  assumes tl: "tl_ok ctx" and up: "dl_up ctx = Some (e, p, n)"
    and code: "chaining_code_ok p (tl ctx)" and fits: "tl_roomy (tl ctx) \<or> last_fragment_fits p n (tl ctx)"
  shows "ctx_goes ctx (ifx_i2c_dl_event_handler (ctx\<lparr>dl_up := None\<rparr>) e p n)"
proof -
  let ?c = "ctx\<lparr>dl_up := None\<rparr>"
  have ev: "dl_event_ok p n"
    using tl up by (simp add: tl_ok_def dl_ok_def dl_up_ok_def)
  have f: "tl_fits p n (tl ?c)"
  proof (cases "tl_roomy (tl ctx)")
    case False
    then show ?thesis
      using code fits by (auto simp: tl_fits_def chaining_code_ok_def last_fragment_fits_def split: option.splits)
  qed (use roomy_fits code ev in simp)
  have ok: "tl_ok ?c"
    using tl by simp
  obtain ctx' where c': "ifx_i2c_dl_event_handler ?c e p n = Some ctx'" "tl_ok ctx'" "keeps_ifx ?c ctx'"
    using tl_handler_goes [OF ok f ev] by blast
  moreover have "tl_roomy (tl ctx) \<longrightarrow> tl_roomy (tl ctx')"
    using roomy_loop [OF ok _ f ev] c'(1) by (simp add: ifx_i2c_dl_event_handler_def)
  ultimately show ?thesis
    by (simp add: ctx_goes_def keeps_ifx_def)
qed

text \<open>The calls of the application.\<close>

lemma comms_open_goes: "stack_ok c \<Longrightarrow> stack_event_ok CallOpen c \<Longrightarrow> comms_goes b c (optiga_comms_open c)"
  unfolding optiga_comms_open_def
  by (rule comms_call_goes [where P = "\<lambda>c. 6 \<le> unat (frame_size (comms_ctx c))"])
    (auto simp: stack_ok_def stack_event_ok_def intro!: on_ctx_goes ifx_api_goes)

lemma comms_reset_goes: "stack_ok c \<Longrightarrow> stack_event_ok (CallReset t) c \<Longrightarrow> comms_goes b c (optiga_comms_reset t c)"
  unfolding optiga_comms_reset_def
  by (rule comms_call_goes [where P = "\<lambda>c. 6 \<le> unat (frame_size (comms_ctx c))"])
    (auto simp: stack_ok_def stack_event_ok_def intro!: on_ctx_goes ifx_api_goes)

lemma comms_transceive_goes:
  "stack_ok c \<Longrightarrow> stack_event_ok (CallTransceive p n r m) c \<Longrightarrow>
   comms_goes (roomy_call (CallTransceive p n r m)) c (optiga_comms_transceive p n r m c)"
  unfolding optiga_comms_transceive_def roomy_call_def stack_event.case
  by (rule comms_call_goes [where P = "\<lambda>c. True"])
    (auto simp: stack_ok_def stack_event_ok_def intro!: on_ctx_goes ifx_api_goes)

lemma comms_close_goes: "stack_ok c \<Longrightarrow> app_ok upper \<Longrightarrow> comms_goes b c (optiga_comms_close upper c)"
  unfolding optiga_comms_close_def
  by (rule comms_call_goes [where P = "\<lambda>c. True"]) (use close_goes in auto)

text \<open>The events that work on the context alone.\<close>

lemma ctx_event_goes:
  assumes ok: "stack_ok c" and ev: "stack_event_ok ev c"
    and e: "ev \<in> {DeliverPl, DeliverDl} \<or> (\<exists>bs. ev = BusRead bs) \<or> (\<exists>x. ev = BusEvent x) \<or> (\<exists>t. ev = Timer t)"
  shows "\<exists>r. stack_step upper ev c = map_option (\<lambda>ctx. set_ctx ctx c) r \<and> ctx_goes (comms_ctx c) r"
proof -
  have tl: "tl_ok (comms_ctx c)" and pl: "pl_ok (comms_ctx c)"
    using ok tl_ok_pl by (simp_all add: stack_ok_def)
  have none: "\<exists>r. Some c = map_option (\<lambda>ctx. set_ctx ctx c) r \<and> ctx_goes (comms_ctx c) r"
    using tl by (intro exI [of _ "Some (comms_ctx c)"]) (simp add: ctx_goes_def set_ctx_def)
  show ?thesis
  proof (cases ev)
    case (BusRead bs)
    then show ?thesis
      using bus_read_goes [OF tl, of bs] by (auto simp: stack_step_def Let_def)
  next
    case (BusEvent e)
    then show ?thesis
      using pl_step_goes [OF tl pal_event_goes(1) [OF pl]] by (auto simp: stack_step_def Let_def)
  next
    case (Timer t)
    have "ctx_goes (comms_ctx c) (timer_fires t (comms_ctx c))"
      by (rule timer_goes [OF tl]) (use ev Timer in \<open>simp add: stack_event_ok_def\<close>)
    then show ?thesis
      using Timer by (auto simp: stack_step_def Let_def)
  next
    case DeliverPl
    then show ?thesis
      using pl none dl_step_goes [of "(comms_ctx c)\<lparr>pl_up := None\<rparr>"] tl
      by (auto simp: stack_step_def Let_def pl_ok_def pl_up_ok_def split: option.split)
  next
    case DeliverDl
    then show ?thesis
      using ev none deliver_dl_goes [OF tl]
      by (auto simp: stack_step_def stack_event_ok_def stack_roomy_def Let_def split: option.split)
  qed (use e in auto)
qed

lemma ctx_event_step:
  assumes "stack_ok c" "stack_event_ok ev c"
    and "ev \<in> {DeliverPl, DeliverDl} \<or> (\<exists>bs. ev = BusRead bs) \<or> (\<exists>x. ev = BusEvent x) \<or> (\<exists>t. ev = Timer t)"
  shows "step_goes b c (stack_step upper ev c)"
  using ctx_event_goes [OF assms, of upper] by (auto simp: back_goes)

text \<open>
  C1: the composition of the four layers and the gate. From a state that satisfies the invariant, every
  event of the platform (with any bytes from the bus), every timer, every delivery between two layers
  and every call of the application returns and keeps the invariant, so no access leaves a buffer and
  no layer is entered in a state it does not expect, under what \<open>stack_event_ok\<close> names: a command
  passes objects as large as it says, an (re)initialisation finds a frame size of at least six, the slave does
  not send its chaining error code while a response is received, and the last fragment of a response
  fits the receive buffer. The last condition is void for callers that hold 294 bytes more than they
  announce: that room, once given, is kept by every event, and then responses of any length are
  safe. The code checks none of the four (\<open>tl_last_fragment_overflows\<close> and
  \<open>tl_chaining_code_out_of_bounds\<close> in \<open>Ifx_Fragments\<close> and the last section of \<open>Ifx_Api\<close> show what
  happens without them). The application's handler has to return and keep the invariant itself.
\<close>

theorem stack_step_safe:
  assumes ok: "stack_ok c" and ev: "stack_event_ok ev c" and upper: "app_ok upper"
  shows "\<exists>c'. stack_step upper ev c = Some c' \<and> stack_ok c' \<and> (roomy_call ev \<and> stack_roomy c \<longrightarrow> stack_roomy c')"
proof -
  have call: "step_goes (roomy_call ev) c (stack_step upper ev c)" if "\<exists>b r. stack_step upper ev c = map_option snd r \<and>
      comms_goes b c r \<and> (roomy_call ev \<longrightarrow> b)"
    using that call_goes by (fastforce simp: step_goes_def)
  note ctx = ctx_event_step [OF ok ev]
  have "step_goes (roomy_call ev) c (stack_step upper ev c)"
  proof (cases ev)
    case DeliverTl
    then show ?thesis
      using ok tl_event_goes [OF upper, of "set_ctx ((comms_ctx c)\<lparr>tl_up := None\<rparr>) c" "roomy_call ev"]
      by (auto simp: stack_step_def Let_def step_goes_def stack_ok_def stack_roomy_def split: option.split)
  next
    case (Clock t)
    then show ?thesis
      using ok by (simp add: stack_step_def Let_def step_goes_def) (simp add: stack_ok_def stack_roomy_def)
  next
    case CallOpen
    then show ?thesis
      using comms_open_goes [OF ok, of True] ev by (intro call) (auto simp: stack_step_def Let_def)
  next
    case (CallReset t)
    then show ?thesis
      using comms_reset_goes [OF ok, of t True] ev by (intro call) (auto simp: stack_step_def Let_def)
  next
    case (CallTransceive p n r m)
    then show ?thesis
      using comms_transceive_goes [OF ok, of p n r m] ev by (intro call) (auto simp: stack_step_def Let_def)
  next
    case CallClose
    then show ?thesis
      using comms_close_goes [OF ok upper, of True] by (intro call) (auto simp: stack_step_def Let_def)
  qed (use ctx in auto)
  then show ?thesis
    by (simp add: step_goes_def)
qed

text \<open>The stack as it is after start-up, and an application that only takes note of the result.\<close>

definition comms_0 :: optiga_comms where
  "comms_0 = \<lparr>comms_state = OPTIGA_COMMS_FREE, comms_ctx = ifx_i2c_context_0 400 calm_platform\<rparr>"

definition silent_app :: app_handler where
  "silent_app e c = Some c"

lemma comms_0_ok: "stack_ok comms_0" "frame_size (comms_ctx comms_0) = 0x115"
  by (simp_all add: stack_ok_def comms_0_def tl_ok_def dl_ok_def pl_ok_def ifx_i2c_context_0_def dl_core_def dl_up_ok_def tl_up_ok_def
      pl_up_ok_def dl_resting_def tl_core_def DL_MAX_FRAME_SIZE_def)

lemma comms_0_roomy: "stack_roomy comms_0"
  by (simp add: stack_roomy_def comms_0_def ifx_i2c_context_0_def tl_roomy_def)

lemma silent_app_ok: "app_ok silent_app"
  by (simp add: app_ok_def silent_app_def)

lemma stack_step_safe_witness:
  "\<exists>c'. stack_step silent_app CallOpen comms_0 = Some c' \<and> stack_ok c' \<and> (roomy_call CallOpen \<and> stack_roomy comms_0 \<longrightarrow> stack_roomy c')"
  by (rule stack_step_safe) (simp_all add: comms_0_ok stack_event_ok_def silent_app_ok)

end
