(* ===== verification/Ifx_Api.thy ===== *)
theory Ifx_Api
  imports Ifx_Stack
begin

text \<open>
  Properties of the interface of the stack: one command at a time, the end of a command, the reset
  sequence, and what initialisation and negotiation do to the layers above.
\<close>

section \<open>One command at a time\<close>

text \<open>
  While a command is in progress, or the context below is busy, every operation of the interface
  is refused and changes nothing of the stack; the gate is left as it was found.
\<close>

theorem api_refused_while_busy:
  "(comms_state c = OPTIGA_COMMS_INUSE \<longrightarrow>
      optiga_comms_open c = Some (STACK_ERROR, c) \<and> optiga_comms_reset t c = Some (STACK_ERROR, c) \<and>
      optiga_comms_transceive p n r m c = Some (STACK_ERROR, c) \<and> optiga_comms_close upper c = Some (STACK_ERROR, c)) \<and>
   (ifx_status ctx = IFX_I2C_STATUS_BUSY \<longrightarrow>
      ifx_i2c_open ctx = Some (STACK_ERROR, ctx) \<and> ifx_i2c_reset ctx t = Some (STACK_ERROR, ctx) \<and>
      ifx_i2c_transceive ctx p n r m = Some (STACK_ERROR, ctx) \<and> ifx_i2c_close upper (set_ctx ctx c) = Some (STACK_ERROR, set_ctx ctx c))"
  by (simp add: optiga_comms_open_def optiga_comms_reset_def optiga_comms_transceive_def optiga_comms_close_def
      comms_call_def check_optiga_comms_state_def ifx_i2c_open_def ifx_i2c_reset_def ifx_i2c_transceive_def ifx_i2c_close_def)

lemma api_refused_while_busy_witness:
  "optiga_comms_open (comms_0\<lparr>comms_state := OPTIGA_COMMS_INUSE\<rparr>) = Some (STACK_ERROR, comms_0\<lparr>comms_state := OPTIGA_COMMS_INUSE\<rparr>) \<and>
   ifx_i2c_open ((transport_context TL_STATE_RX)\<lparr>ifx_status := IFX_I2C_STATUS_BUSY\<rparr>) =
     Some (STACK_ERROR, (transport_context TL_STATE_RX)\<lparr>ifx_status := IFX_I2C_STATUS_BUSY\<rparr>)"
  using api_refused_while_busy [of "comms_0\<lparr>comms_state := OPTIGA_COMMS_INUSE\<rparr>" IFX_I2C_COLD_RESET None 0 "[]" 0 silent_app
      "(transport_context TL_STATE_RX)\<lparr>ifx_status := IFX_I2C_STATUS_BUSY\<rparr>"] by simp

text \<open>A sequence of events, and what it has to bring while an answer is awaited: no answer is delivered yet.\<close>

fun stack_run :: "app_handler \<Rightarrow> stack_event list \<Rightarrow> optiga_comms \<Rightarrow> optiga_comms option" where
  "stack_run upper [] c = Some c"
| "stack_run upper (ev # evs) c = do { c \<leftarrow> stack_step upper ev c; stack_run upper evs c }"

fun awaiting :: "app_handler \<Rightarrow> stack_event list \<Rightarrow> optiga_comms \<Rightarrow> bool" where
  "awaiting upper [] c = True"
| "awaiting upper (ev # evs) c = (ev \<noteq> DeliverTl \<and> stack_event_ok ev c \<and>
     (case stack_step upper ev c of None \<Rightarrow> True | Some c' \<Rightarrow> awaiting upper evs c'))"

definition in_progress :: "optiga_comms \<Rightarrow> bool" where
  "in_progress c \<longleftrightarrow> comms_state c = OPTIGA_COMMS_INUSE \<and> ifx_status (comms_ctx c) = IFX_I2C_STATUS_BUSY \<and> ifx_upper_handler (comms_ctx c)"

lemma in_progress_calls:
  "in_progress c \<Longrightarrow> optiga_comms_open c = Some (STACK_ERROR, c)" "in_progress c \<Longrightarrow> optiga_comms_reset t c = Some (STACK_ERROR, c)"
  "in_progress c \<Longrightarrow> optiga_comms_transceive p n r m c = Some (STACK_ERROR, c)" "in_progress c \<Longrightarrow> optiga_comms_close upper c = Some (STACK_ERROR, c)"
  by (simp_all add: in_progress_def optiga_comms_open_def optiga_comms_reset_def optiga_comms_transceive_def optiga_comms_close_def
      comms_call_def check_optiga_comms_state_def)

lemma in_progress_step:
  assumes ok: "stack_ok c" "in_progress c" and ev: "stack_event_ok ev c" "ev \<noteq> DeliverTl"
  shows "\<exists>c'. stack_step upper ev c = Some c' \<and> stack_ok c' \<and> in_progress c'"
proof -
  have ctx: ?thesis if "ev \<in> {DeliverPl, DeliverDl} \<or> (\<exists>bs. ev = BusRead bs) \<or> (\<exists>x. ev = BusEvent x) \<or> (\<exists>t. ev = Timer t)"
    using ctx_event_goes [OF ok(1) ev(1) that, of upper] ok(2)
    by (auto simp: ctx_goes_def keeps_ifx_def in_progress_def)
  show ?thesis
  proof (cases ev)
    case (Clock t)
    then show ?thesis
      using ok by (simp add: stack_step_def Let_def in_progress_def) (simp add: stack_ok_def)
  qed (use ok ev(2) ctx in_progress_calls [OF ok(2)] in \<open>simp_all add: stack_step_def Let_def\<close>)
qed

lemma in_progress_run:
  "stack_ok c \<Longrightarrow> in_progress c \<Longrightarrow> awaiting upper evs c \<Longrightarrow> \<exists>c'. stack_run upper evs c = Some c' \<and> in_progress c'"
proof (induction evs arbitrary: c)
  case (Cons ev evs)
  obtain c' where "stack_step upper ev c = Some c'" "stack_ok c'" "in_progress c'"
    using in_progress_step [of c ev upper] Cons.prems by auto
  then show ?case
    using Cons by simp
qed simp

lemma accepted_in_progress:
  assumes ok: "stack_ok c" "transceive_args p n r m"
    and acc: "optiga_comms_transceive p n r m c = Some (STACK_SUCCESS, c1)"
  shows "stack_ok c1 \<and> in_progress c1"
proof -
  have free: "comms_state c \<noteq> OPTIGA_COMMS_INUSE"
    using acc by (auto simp: optiga_comms_transceive_def comms_call_def check_optiga_comms_state_def)
  define c0 where "c0 = set_ctx ((comms_ctx c)\<lparr>ifx_upper_handler := True\<rparr>) (c\<lparr>comms_state := OPTIGA_COMMS_INUSE\<rparr>)"
  obtain ctx where t: "ifx_i2c_transceive (comms_ctx c0) p n r m = Some (STACK_SUCCESS, ctx)" "c1 = set_ctx ctx c0"
    using acc free by (auto simp: optiga_comms_transceive_def comms_call_def check_optiga_comms_state_def on_ctx_def c0_def
        bind_eq_Some_conv split: if_splits)
  then obtain ctx' where t': "ifx_i2c_tl_transceive (comms_ctx c0) p n r m = Some (STACK_SUCCESS, ctx')"
      "ctx = ctx'\<lparr>ifx_status := IFX_I2C_STATUS_BUSY\<rparr>"
    by (auto simp: ifx_i2c_transceive_def bind_eq_Some_conv split: if_splits)
  have c0: "tl_ok (comms_ctx c0)" "ifx_upper_handler (comms_ctx c0)" "comms_state c0 = OPTIGA_COMMS_INUSE"
    using ok(1) by (simp_all add: c0_def stack_ok_def)
  then have "ifx_upper_handler ctx'" "tl_ok ctx'"
    using tl_transceive.kept [OF t'(1) _ ok(2)] tl_transceive.runs [OF c0(1) ok(2)] t'(1) by (auto simp: keeps_ifx_def)
  then show ?thesis
    using t(2) t'(2) c0(3) by (simp add: in_progress_def)
qed

text \<open>
  C37: a command that is accepted holds the gate and the context until it is answered. Whatever happens
  after its acceptance (events of the platform, timers, deliveries between the layers below, calls of
  the application, in any order and number, within the conditions of \<open>stack_event_ok\<close>), as long as
  the answer of the transport layer has not been delivered, the stack goes on, the gate stays closed and
  every further call of the application is refused and changes nothing. When the answer is
  delivered and the application's handler returns, gate and context are free, whatever the answer was
  and whatever the handler did.
\<close>

theorem command_completes:
  assumes ok: "stack_ok c" "transceive_args p n r m"
    and acc: "optiga_comms_transceive p n r m c = Some (STACK_SUCCESS, c1)" and run: "awaiting upper evs c1"
  shows "\<exists>c2. stack_run upper evs c1 = Some c2 \<and>
    comms_state c2 = OPTIGA_COMMS_INUSE \<and> ifx_status (comms_ctx c2) = IFX_I2C_STATUS_BUSY \<and>
    (\<forall>ev \<in> {CallOpen, CallReset t, CallTransceive p' n' r' m', CallClose}. stack_step upper ev c2 = Some c2) \<and>
    (\<forall>e d k c3. tl_up (comms_ctx c2) = Some (e, d, k) \<and> upper e (set_ctx ((comms_ctx c2)\<lparr>tl_up := None\<rparr>) c2) = Some c3 \<longrightarrow>
      (\<exists>c4. stack_step upper DeliverTl c2 = Some c4 \<and> comms_state c4 = OPTIGA_COMMS_FREE \<and>
        ifx_status (comms_ctx c4) = IFX_I2C_STATUS_NOT_BUSY))"
proof -
  obtain c2 where c2: "stack_run upper evs c1 = Some c2" "in_progress c2"
    using in_progress_run accepted_in_progress [OF ok acc] run by blast
  moreover have "\<exists>c4. stack_step upper DeliverTl c2 = Some c4 \<and> comms_state c4 = OPTIGA_COMMS_FREE \<and>
      ifx_status (comms_ctx c4) = IFX_I2C_STATUS_NOT_BUSY"
    if "tl_up (comms_ctx c2) = Some (e, d, k)" "upper e (set_ctx ((comms_ctx c2)\<lparr>tl_up := None\<rparr>) c2) = Some c3" for e d k c3
    using that c2(2) by (simp add: stack_step_def Let_def ifx_i2c_tl_event_handler_def ifx_i2c_event_handler_def in_progress_def)
  moreover have "\<forall>ev \<in> {CallOpen, CallReset t, CallTransceive p' n' r' m', CallClose}. stack_step upper ev c2 = Some c2"
    using in_progress_calls [OF c2(2)] by (simp add: stack_step_def Let_def)
  ultimately show ?thesis
    by (intro exI [of _ c2]) (auto simp: in_progress_def)
qed

text \<open>The gate over the example transport layer, opened and waiting for a command, and with an answer.\<close>

definition idle_comms :: optiga_comms where
  "idle_comms = set_ctx ((transport_context TL_STATE_IDLE)\<lparr>ifx_state := IFX_I2C_STATE_IDLE\<rparr>) comms_0"

definition answered_comms :: optiga_comms where
  "answered_comms = set_ctx ((transport_context TL_STATE_IDLE)\<lparr>ifx_upper_handler := True, tl_up := Some (STACK_SUCCESS, None, 0)\<rparr>)
     (comms_0\<lparr>comms_state := OPTIGA_COMMS_INUSE\<rparr>)"

lemma idle_comms_ok: "stack_ok idle_comms"
  by (simp add: idle_comms_def transport_context_ok)

lemma idle_comms_accepts: "\<exists>c1. optiga_comms_transceive (Some [1, 2, 3]) 3 [] 0 idle_comms = Some (STACK_SUCCESS, c1)"
proof -
  let ?ctx = "(transport_context TL_STATE_IDLE)\<lparr>ifx_state := IFX_I2C_STATE_IDLE, ifx_upper_handler := True\<rparr>"
  have ctx: "tl_ok ?ctx" "tl_state (tl ?ctx) = TL_STATE_IDLE" "dl_state (dl ?ctx) = DL_STATE_IDLE" "pl_frame_state (pl ?ctx) = PL_STATE_READY"
    by (simp_all add: transport_context_ok transport_context_tl)
  have "ifx_status ?ctx \<noteq> IFX_I2C_STATUS_BUSY"
    by (simp add: transport_context_def link_context_def ready_context_def ifx_i2c_context_0_def tl_set_def dl_set_def set_pl_state_def pl_set_def)
  moreover obtain ctx1 where "ifx_i2c_tl_transceive ?ctx (Some [1, 2, 3]) 3 [] 0 = Some (STACK_SUCCESS, ctx1)"
    using transceive_accepted [OF ctx, of 3 "[1, 2, 3]" "[]" 0] by (auto simp: transceive_args_def)
  ultimately show ?thesis
    by (auto simp: optiga_comms_transceive_def comms_call_def check_optiga_comms_state_def on_ctx_def idle_comms_def comms_0_def
        ifx_i2c_transceive_def set_ctx_def)
qed

lemma command_completes_witness:
  "\<exists>c1. optiga_comms_transceive (Some [1, 2, 3]) 3 [] 0 idle_comms = Some (STACK_SUCCESS, c1) \<and>
    (\<exists>c2. stack_run silent_app [Clock 5, CallTransceive None 0 [] 0, BusEvent PAL_I2C_EVENT_SUCCESS] c1 = Some c2 \<and>
      comms_state c2 = OPTIGA_COMMS_INUSE \<and> ifx_status (comms_ctx c2) = IFX_I2C_STATUS_BUSY \<and>
      (\<forall>ev \<in> {CallOpen, CallReset IFX_I2C_COLD_RESET, CallTransceive None 0 [] 0, CallClose}. stack_step silent_app ev c2 = Some c2) \<and>
      (\<forall>e d k c3. tl_up (comms_ctx c2) = Some (e, d, k) \<and>
          silent_app e (set_ctx ((comms_ctx c2)\<lparr>tl_up := None\<rparr>) c2) = Some c3 \<longrightarrow>
        (\<exists>c4. stack_step silent_app DeliverTl c2 = Some c4 \<and> comms_state c4 = OPTIGA_COMMS_FREE \<and>
          ifx_status (comms_ctx c4) = IFX_I2C_STATUS_NOT_BUSY)))"
proof -
  obtain c1 where c1: "optiga_comms_transceive (Some [1, 2, 3]) 3 [] 0 idle_comms = Some (STACK_SUCCESS, c1)"
    using idle_comms_accepts by blast
  have args: "transceive_args (Some [1, 2, 3]) 3 [] 0"
    by (simp add: transceive_args_def)
  have busy: "in_progress c1"
    using accepted_in_progress [OF idle_comms_ok args c1] by simp
  have "awaiting silent_app [Clock 5, CallTransceive None 0 [] 0, BusEvent PAL_I2C_EVENT_SUCCESS] c1"
    using in_progress_calls(3) [of "set_ctx ((comms_ctx c1)\<lparr>env := (env (comms_ctx c1))\<lparr>env_now := 5\<rparr>\<rparr>) c1" None 0 "[]" 0] busy
    by (simp add: stack_event_ok_def stack_step_def Let_def transceive_args_def in_progress_def split: option.split)
  from command_completes [OF idle_comms_ok args c1 this] c1 show ?thesis
    by blast
qed

text \<open>
  The application is told before the gate and the context are free. A command that the handler of
  the application issues itself is therefore refused and lost: the outcome is the same as if the
  handler had done nothing.
\<close>

theorem command_from_handler_lost:
  assumes "comms_state c = OPTIGA_COMMS_INUSE"
  shows "stack_step (\<lambda>e c. map_option snd (optiga_comms_transceive p n r m c)) DeliverTl c = stack_step silent_app DeliverTl c"
proof -
  have "optiga_comms_transceive p n r m (set_ctx ctx c) = Some (STACK_ERROR, set_ctx ctx c)" for ctx
    using assms by (simp add: optiga_comms_transceive_def comms_call_def check_optiga_comms_state_def)
  then show ?thesis
    by (simp add: stack_step_def Let_def ifx_i2c_tl_event_handler_def ifx_i2c_event_handler_def silent_app_def split: option.split)
qed

lemma command_from_handler_lost_witness:
  "stack_step (\<lambda>e c. map_option snd (optiga_comms_transceive (Some [1]) 1 [] 0 c)) DeliverTl answered_comms =
    stack_step silent_app DeliverTl answered_comms"
  by (rule command_from_handler_lost) (simp add: answered_comms_def)

section \<open>Initialisation and reset\<close>

text \<open>
  Opening the stack powers the device down and up again: both pins low, the low time, both pins high,
  the start-up time, and only then is the bus initialised. Until then nothing but the two timers is
  asked of the platform.
\<close>

theorem open_reset_sequence:
  assumes "comms_state c = OPTIGA_COMMS_FREE" "ifx_status (comms_ctx c) \<noteq> IFX_I2C_STATUS_BUSY"
  shows "\<exists>c1 ctx2. optiga_comms_open c = Some (STACK_SUCCESS, c1) \<and> comms_state c1 = OPTIGA_COMMS_INUSE \<and>
    timer_fires TimerIfxInit (comms_ctx c1) = Some ctx2 \<and> ifx_status ctx2 = IFX_I2C_STATUS_BUSY \<and> do_pal_init ctx2 \<and>
    trace ctx2 = trace (comms_ctx c) @
      [GpioLow VddPin, GpioLow ResetPin, RegisterTimer TimerIfxInit RESET_LOW_TIME_MSEC,
       GpioHigh VddPin, GpioHigh ResetPin, RegisterTimer TimerIfxInit STARTUP_TIME_MSEC] \<and>
    timer_fires TimerIfxInit ctx2 = map_option snd (ifx_i2c_tl_init ctx2)"
proof -
  let ?ctx = "comms_ctx c"
  define ctx1 where "ctx1 = ?ctx\<lparr>ifx_upper_handler := True, ifx_reset_type := IFX_I2C_COLD_RESET, do_pal_init := True,
    ifx_state := IFX_I2C_STATE_UNINIT, ifx_reset_state := IFX_I2C_STATE_RESET_PIN_HIGH, ifx_status := IFX_I2C_STATUS_BUSY,
    trace := trace ?ctx @ [GpioLow VddPin, GpioLow ResetPin, RegisterTimer TimerIfxInit RESET_LOW_TIME_MSEC]\<rparr>"
  define ctx2 where "ctx2 = ctx1\<lparr>ifx_reset_state := IFX_I2C_STATE_RESET_INIT,
    trace := trace ctx1 @ [GpioHigh VddPin, GpioHigh ResetPin, RegisterTimer TimerIfxInit STARTUP_TIME_MSEC]\<rparr>"
  have "optiga_comms_open c = Some (STACK_SUCCESS, set_ctx ctx1 (c\<lparr>comms_state := OPTIGA_COMMS_INUSE\<rparr>))"
    using assms by (simp add: optiga_comms_open_def comms_call_def check_optiga_comms_state_def on_ctx_def ifx_i2c_open_def
        ifx_i2c_init_def Let_def pal_call_def ctx1_def set_ctx_def)
  moreover have "timer_fires TimerIfxInit ctx1 = Some ctx2"
    by (simp add: timer_fires_def ifx_i2c_init_def Let_def pal_call_def ctx2_def ctx1_def)
  moreover have "timer_fires TimerIfxInit ctx2 = map_option snd (ifx_i2c_tl_init ctx2)"
    by (simp add: timer_fires_def ifx_i2c_init_def ctx2_def ctx1_def)
  ultimately show ?thesis
    by (intro exI [of _ "set_ctx ctx1 (c\<lparr>comms_state := OPTIGA_COMMS_INUSE\<rparr>)"] exI [of _ ctx2]) (simp add: ctx1_def ctx2_def)
qed

lemma open_reset_sequence_witness:
  "\<exists>c1 ctx2. optiga_comms_open comms_0 = Some (STACK_SUCCESS, c1) \<and> comms_state c1 = OPTIGA_COMMS_INUSE \<and>
    timer_fires TimerIfxInit (comms_ctx c1) = Some ctx2 \<and> ifx_status ctx2 = IFX_I2C_STATUS_BUSY \<and> do_pal_init ctx2 \<and>
    trace ctx2 = trace (comms_ctx comms_0) @
      [GpioLow VddPin, GpioLow ResetPin, RegisterTimer TimerIfxInit RESET_LOW_TIME_MSEC,
       GpioHigh VddPin, GpioHigh ResetPin, RegisterTimer TimerIfxInit STARTUP_TIME_MSEC] \<and>
    timer_fires TimerIfxInit ctx2 = map_option snd (ifx_i2c_tl_init ctx2)"
  by (rule open_reset_sequence) (simp_all add: comms_0_def ifx_i2c_context_0_def)

text \<open>
  A bus that cannot be initialised: the third step of the reset sequence runs in a timer callback,
  whose result nobody reads. The context stays busy, no further timer is asked for and no answer is
  on its way: the application, which was told that opening has started, never hears of it again.
\<close>

theorem failed_init_is_silent:
  assumes st: "ifx_reset_type ctx = IFX_I2C_COLD_RESET" "ifx_reset_state ctx = IFX_I2C_STATE_RESET_INIT" "ifx_status ctx = IFX_I2C_STATUS_BUSY"
    and bad: "do_pal_init ctx" "\<not> env_pal_init_ok (env ctx)"
  shows "\<exists>ctx'. timer_fires TimerIfxInit ctx = Some ctx' \<and> ifx_status ctx' = IFX_I2C_STATUS_BUSY \<and> trace ctx' = trace ctx @ [PalInit] \<and>
    pl_up ctx' = pl_up ctx \<and> dl_up ctx' = dl_up ctx \<and> tl_up ctx' = tl_up ctx"
proof -
  define ctx1 where "ctx1 = set_dl_state DL_STATE_UNINIT (set_tl_state TL_STATE_UNINIT ctx)"
  define ctx2 where "ctx2 = pal_call PalInit ((pl_set (\<lambda>p. p\<lparr>pl_frame_state := PL_STATE_UNINIT,
            pl_negotiate_state := PL_INIT_SET_FREQ_DEFAULT, pl_retry_counter := PL_POLLING_MAX_CNT\<rparr>) ctx1)\<lparr>pal_slave_address := slave_address ctx1\<rparr>)"
  have "do_pal_init ctx1" "env ctx1 = env ctx"
    using bad(1) by (simp_all add: ctx1_def set_dl_state_def dl_set_def set_tl_state_def tl_set_def)
  then have "ifx_i2c_pl_init ctx1 = Some (STACK_ERROR, ctx2)"
    using bad(2) by (simp add: ifx_i2c_pl_init_def Let_def ctx2_def)
  then have "ifx_i2c_tl_init ctx = Some (STACK_ERROR, ctx2)"
    by (simp add: ifx_i2c_tl_init_def ifx_i2c_dl_init_def ctx1_def [symmetric])
  then have "timer_fires TimerIfxInit ctx = Some ctx2"
    using st(1,2) by (simp add: timer_fires_def ifx_i2c_init_def)
  moreover have "ifx_status ctx2 = IFX_I2C_STATUS_BUSY \<and> trace ctx2 = trace ctx @ [PalInit] \<and>
      pl_up ctx2 = pl_up ctx \<and> dl_up ctx2 = dl_up ctx \<and> tl_up ctx2 = tl_up ctx"
    using st(3) by (simp add: ctx2_def ctx1_def pal_call_def pl_set_def set_dl_state_def dl_set_def set_tl_state_def tl_set_def)
  ultimately show ?thesis
    by blast
qed

lemma failed_init_is_silent_witness:
  "\<exists>ctx'. timer_fires TimerIfxInit
      ((ifx_i2c_context_0 400 (calm_platform\<lparr>env_pal_init_ok := False\<rparr>))\<lparr>ifx_reset_state := IFX_I2C_STATE_RESET_INIT,
        ifx_status := IFX_I2C_STATUS_BUSY, do_pal_init := True\<rparr>) = Some ctx' \<and>
    ifx_status ctx' = IFX_I2C_STATUS_BUSY \<and> trace ctx' = [] @ [PalInit] \<and> pl_up ctx' = None \<and> dl_up ctx' = None \<and> tl_up ctx' = None"
  using failed_init_is_silent [of "(ifx_i2c_context_0 400 (calm_platform\<lparr>env_pal_init_ok := False\<rparr>))\<lparr>
      ifx_reset_state := IFX_I2C_STATE_RESET_INIT, ifx_status := IFX_I2C_STATUS_BUSY, do_pal_init := True\<rparr>"]
  by (simp add: ifx_i2c_context_0_def calm_platform_def)

section \<open>The negotiated frame size\<close>

text \<open>
  The fragments are sized before the frame size is negotiated. The initialisation of the transport
  layer returns when the negotiation has only begun; when the slave later answers with a smaller frame
  size, the layer keeps the old size, and a full fragment makes a frame longer than was agreed.
\<close>

theorem fragment_size_ignores_negotiation:
  assumes ok: "tl_ok ctx" and init: "ifx_i2c_tl_init ctx = Some (STACK_SUCCESS, ctx1)"
    and later: "tl ctx2 = tl ctx1" "frame_size ctx2 = frame_size ctx1" "be16_at (pl_buffer (pl ctx2)) 0 = Some s"
    and s: "6 \<le> s" "s < frame_size ctx"
  shows "\<exists>e' ctx3. negotiate_verify_len e ctx2 = Some (e', ctx3) \<and> frame_size ctx3 = s \<and>
    unat (tl_max_packet_length (tl ctx3)) + 6 = unat (frame_size ctx) \<and>
    unat s < unat (tl_max_packet_length (tl ctx3)) + TL_HEADER_SIZE + DL_HEADER_SIZE"
proof -
  have "dl_ok (set_tl_state TL_STATE_UNINIT ctx)"
    using ok by (simp add: tl_ok_def)
  then obtain c1 st where c1: "ifx_i2c_dl_init (set_tl_state TL_STATE_UNINIT ctx) = Some (st, c1)" "frame_size c1 = frame_size ctx"
    using dl_init_goes [of "set_tl_state TL_STATE_UNINIT ctx"] by auto
  then have ctx1: "frame_size ctx1 = frame_size ctx" "tl_max_packet_length (tl ctx1) = frame_size ctx - 6"
    using init by (auto simp: ifx_i2c_tl_init_def DL_HEADER_SIZE_def TL_HEADER_SIZE_def split: if_splits)
  have size: "6 \<le> unat (frame_size ctx)" "unat s < unat (frame_size ctx)"
    using s by (simp_all add: word_le_nat_alt word_less_nat_alt)
  then have "unat (frame_size ctx - 6) + 6 = unat (frame_size ctx)"
    by (simp add: unat_sub_if' split: if_splits)
  moreover have "negotiate_verify_len e ctx2 = Some (STACK_SUCCESS, (set_negotiate_state PL_INIT_DONE ctx2)\<lparr>frame_size := s\<rparr>)"
    using later order.strict_implies_order [OF s(2)] ctx1(1) by (simp add: negotiate_verify_len_def Let_def)
  moreover have "tl (set_negotiate_state PL_INIT_DONE ctx2) = tl ctx1"
    using later(1) by (simp add: set_negotiate_state_def pl_set_def)
  ultimately show ?thesis
    using ctx1(2) size(2) by (simp add: TL_HEADER_SIZE_def DL_HEADER_SIZE_def)
qed

lemma tl_init_succeeds:
  assumes ok: "tl_ok ctx" and pal: "\<not> do_pal_init ctx"
  shows "\<exists>ctx1. ifx_i2c_tl_init ctx = Some (STACK_SUCCESS, ctx1)"
proof -
  let ?ctx = "set_dl_state DL_STATE_UNINIT (set_tl_state TL_STATE_UNINIT ctx)"
  obtain s c where c: "ifx_i2c_pl_init ?ctx = Some (s, c)"
    using pl_init_goes [of ?ctx] tl_ok_pl [of "set_tl_state TL_STATE_UNINIT ctx"] ok by auto
  have "\<not> do_pal_init ?ctx"
    using pal by (simp add: set_dl_state_def dl_set_def set_tl_state_def tl_set_def)
  then have "s = STACK_SUCCESS"
    using c by (auto simp: ifx_i2c_pl_init_def Let_def bind_eq_Some_conv)
  then show ?thesis
    using c by (simp add: ifx_i2c_tl_init_def ifx_i2c_dl_init_def)
qed

text \<open>The initialisation over the context of the start-up, with the length \<open>0x0040\<close> read from the slave.\<close>

lemma fragment_size_ignores_negotiation_witness:
  "\<exists>ctx2 e' ctx3. negotiate_verify_len STACK_ERROR ctx2 = Some (e', ctx3) \<and> frame_size ctx3 = 0x40 \<and>
    unat (tl_max_packet_length (tl ctx3)) + 6 = unat (frame_size (comms_ctx comms_0)) \<and>
    unat (0x40 :: u16) < unat (tl_max_packet_length (tl ctx3)) + TL_HEADER_SIZE + DL_HEADER_SIZE"
proof -
  have tl: "tl_ok (comms_ctx comms_0)" "\<not> do_pal_init (comms_ctx comms_0)"
    using comms_0_ok by (simp add: stack_ok_def) (simp add: comms_0_def ifx_i2c_context_0_def)
  obtain ctx1 where ctx1: "ifx_i2c_tl_init (comms_ctx comms_0) = Some (STACK_SUCCESS, ctx1)"
    using tl_init_succeeds [OF tl] by blast
  define ctx2 where "ctx2 = pl_set (\<lambda>p. p\<lparr>pl_buffer := [0, 0x40]\<rparr>) ctx1"
  have ctx2: "tl ctx2 = tl ctx1" "frame_size ctx2 = frame_size ctx1" "be16_at (pl_buffer (pl ctx2)) 0 = Some 0x40"
    by (simp_all add: ctx2_def be16_at_def rd_def) (simp add: pl_set_def)
  have "(6 :: u16) \<le> 0x40" "0x40 < frame_size (comms_ctx comms_0)"
    by (simp_all add: comms_0_ok(2))
  from fragment_size_ignores_negotiation [OF tl(1) ctx1 ctx2 this, of STACK_ERROR] show ?thesis
    by blast
qed

text \<open>
  C39: a slave that names a frame size below the two headers disables the bounds of the layer: at the
  next initialisation the size of a fragment wraps around to more than 65000 bytes, and a command that
  does not fit the frame buffer is copied over its end.
\<close>

theorem small_frame_size_overflows:
  assumes ok: "tl_ok ctx" and small: "unat (frame_size ctx) < 6" and init: "ifx_i2c_tl_init ctx = Some (STACK_SUCCESS, ctx1)"
    and later: "tl ctx2 = tl ctx1" "length (tx_frame_buffer ctx2) = DL_MAX_FRAME_SIZE"
    and big: "297 \<le> unat n" "unat n \<le> length packet" "unat n \<le> 65000"
  shows "65530 \<le> unat (tl_max_packet_length (tl ctx1)) \<and> ifx_i2c_tl_transceive ctx2 (Some packet) n recv m = None"
proof -
  have "dl_ok (set_tl_state TL_STATE_UNINIT ctx)"
    using ok by (simp add: tl_ok_def)
  then obtain c1 st where c1: "ifx_i2c_dl_init (set_tl_state TL_STATE_UNINIT ctx) = Some (st, c1)" "frame_size c1 = frame_size ctx"
    using dl_init_goes [of "set_tl_state TL_STATE_UNINIT ctx"] by auto
  then have ctx1: "tl_state (tl ctx1) = TL_STATE_IDLE" "tl_max_packet_length (tl ctx1) = frame_size ctx - 6"
    using init by (auto simp: ifx_i2c_tl_init_def DL_HEADER_SIZE_def TL_HEADER_SIZE_def split: if_splits)
  have max: "65530 \<le> unat (tl_max_packet_length (tl ctx1))"
    using small by (simp add: ctx1(2) unat_sub_if')
  define c2 where "c2 = tl_request packet n recv m ctx2"
  have c2: "tl_packet_offset (tl c2) = 0" "tl_actual_packet_length (tl c2) = n" "tl_actual_packet (tl c2) = packet"
      "tl_max_packet_length (tl c2) = tl_max_packet_length (tl ctx1)" "tx_frame_buffer c2 = tx_frame_buffer ctx2"
    using later(1) by (simp_all add: c2_def tl_request_def)
  have "unat n < unat (tl_max_packet_length (tl ctx1))"
    using max big(3) by linarith
  then have less: "uint n - uint (0 :: u16) < uint (tl_max_packet_length (tl ctx1))"
    by (simp add: word_less_def [symmetric] word_less_nat_alt)
  have "length (tx_frame_buffer ctx2) = 300"
    using later(2) by (simp add: DL_MAX_FRAME_SIZE_def)
  moreover have "rd_bytes packet (unat n) = Some (take (unat n) packet)"
    using big(2) by (simp add: rd_bytes_def)
  moreover have "wr_bytes buf 4 (take (unat n) packet) = None" if "length buf = 300" for buf
    using that big(1,2) by (simp add: wr_bytes_def)
  ultimately have "ifx_i2c_tl_send_next_fragment c2 = None"
    unfolding ifx_i2c_tl_send_next_fragment_def Let_def c2 if_P [OF less] IFX_I2C_TL_HEADER_OFFSET_def by simp
  moreover have "n \<noteq> 0"
    using big(1) by auto
  ultimately show ?thesis
    using max ctx1(1) later(1) by (simp add: ifx_i2c_tl_transceive_def c2_def)
qed

lemma small_frame_size_overflows_witness:
  "\<exists>ctx1 :: ifx_i2c_context. 65530 \<le> unat (tl_max_packet_length (tl ctx1)) \<and>
    ifx_i2c_tl_transceive (ctx1\<lparr>tx_frame_buffer := replicate 300 0\<rparr>) (Some (replicate 300 0)) 300 [] 0 = None"
proof -
  let ?ctx = "(comms_ctx comms_0)\<lparr>frame_size := 2\<rparr>"
  have tl: "tl_ok ?ctx" "\<not> do_pal_init ?ctx"
    using comms_0_ok by (simp_all add: stack_ok_def tl_ok_def dl_ok_def pl_ok_def dl_resting_def DL_MAX_FRAME_SIZE_def)
      (simp add: comms_0_def ifx_i2c_context_0_def)
  obtain ctx1 where ctx1: "ifx_i2c_tl_init ?ctx = Some (STACK_SUCCESS, ctx1)"
    using tl_init_succeeds [OF tl] by blast
  have "65530 \<le> unat (tl_max_packet_length (tl ctx1)) \<and>
    ifx_i2c_tl_transceive (ctx1\<lparr>tx_frame_buffer := replicate 300 0\<rparr>) (Some (replicate 300 0)) 300 [] 0 = None"
    by (rule small_frame_size_overflows [OF tl(1) _ ctx1]) (simp_all add: DL_MAX_FRAME_SIZE_def)
  then show ?thesis
    by blast
qed

end
