(* ===== verification/App_Convert.thy ===== *)
theory App_Convert
  imports Complex_Main "HOL-Library.Word"
begin

text \<open>
  \<open>src/DatastructConversion/conversions.cpp\<close>, \<open>src/TimeEngine/time_engine.cpp\<close> and
  \<open>src/DeviceUID/device_uid.cpp\<close>: how the application writes and reads numbers, times and its own name.
  A C++ string is a \<open>string\<close>, an \<open>int\<close> or \<open>time_t\<close> is an \<open>int\<close> in the range of its type.
\<close>

section \<open>Integers as text\<close>

definition int_min :: int where "int_min = - (2 ^ 31)"
definition int_max :: int where "int_max = 2 ^ 31 - 1"

definition digit_char :: "nat \<Rightarrow> char" where
  "digit_char d = ''0123456789abcdef'' ! d"

text \<open>What a stream in base \<open>b\<close> prints, and the C locale.\<close>

function show_nat :: "nat \<Rightarrow> nat \<Rightarrow> string" where
  "show_nat b n = (if n < b \<or> b < 2 then [digit_char (n mod 16)] else show_nat b (n div b) @ [digit_char (n mod b)])"
  by pat_completeness auto
termination
  by (relation "measure snd") (auto intro!: div_less_dividend)

declare show_nat.simps [simp del]

definition is_digit :: "char \<Rightarrow> bool" where
  "is_digit c \<longleftrightarrow> (48 :: nat) \<le> of_char c \<and> of_char c \<le> (57 :: nat)"

definition digit_val :: "char \<Rightarrow> nat" where
  "digit_val c = of_char c - 48"

definition isspace :: "char \<Rightarrow> bool" where
  "isspace c \<longleftrightarrow> of_char c \<in> {9 :: nat, 10, 11, 12, 13, 32}"

definition read_nat :: "string \<Rightarrow> nat" where
  "read_nat ds = foldl (\<lambda>n c. 10 * n + digit_val c) 0 ds"

definition IntToHex :: "32 word \<Rightarrow> string" where
  "IntToHex i = show_nat 16 (unat i)"

definition IntToString :: "int \<Rightarrow> string" where
  "IntToString v = (if v < 0 then CHR 0x2D # show_nat 10 (nat (- v)) else show_nat 10 (nat v))"

definition MsPaddingIntToString :: "int \<Rightarrow> string" where
  "MsPaddingIntToString v = IntToString v @ ''000''"

definition TimeToString :: "int \<Rightarrow> string" where
  "TimeToString time = IntToString time"

text \<open>
  Reading an integer from a stream: white space is skipped, a sign may follow, then digits. A value outside the
  type gives its nearest bound, no digit gives 0. A stream with nothing but white space leaves the variable as it
  was, which here is uninitialised: \<open>None\<close>.
\<close>

definition stream_read :: "int \<Rightarrow> int \<Rightarrow> string \<Rightarrow> int option" where
  "stream_read lo hi str =
     (case dropWhile isspace str of
        [] \<Rightarrow> None
      | c # cs \<Rightarrow>
          (let (neg, rest) = (if c = CHR 0x2D then (True, cs) else if c = CHR 0x2B then (False, cs) else (False, c # cs));
               n = int (read_nat (takeWhile is_digit rest))
           in Some (max lo (min hi (if neg then - n else n)))))"

definition StringToInt :: "string \<Rightarrow> int option" where
  "StringToInt str = stream_read int_min int_max str"

text \<open>\<open>time_t\<close> has 64 bits.\<close>

definition StringToTime :: "string \<Rightarrow> int option" where
  "StringToTime str = stream_read (- (2 ^ 63)) (2 ^ 63 - 1) str"

definition StringToChar :: "string \<Rightarrow> string" where
  "StringToChar str = takeWhile (\<lambda>c. c \<noteq> CHR 0x00) str"

definition to_upper :: "char \<Rightarrow> char" where
  "to_upper c = (if (97 :: nat) \<le> of_char c \<and> of_char c \<le> (122 :: nat) then char_of (of_char c - 32 :: nat) else c)"

definition to_lower :: "char \<Rightarrow> char" where
  "to_lower c = (if (65 :: nat) \<le> of_char c \<and> of_char c \<le> (90 :: nat) then char_of (of_char c + 32 :: nat) else c)"

definition ToUpperCase :: "string \<Rightarrow> string" where
  "ToUpperCase s = map to_upper s"

definition ToLowerCase :: "string \<Rightarrow> string" where
  "ToLowerCase s = map to_lower s"

text \<open>
  A double is the rational it stands for. The conversion to \<open>int\<close> truncates; the subtraction of the integer
  part is exact; \<open>rnd\<close> is what the multiplication does to the exact product. The loop that fills in zeros
  is \<open>leading_zeros\<close>.
\<close>

definition truncate_rat :: "rat \<Rightarrow> int" where
  "truncate_rat v = (if v < 0 then - \<lfloor>- v\<rfloor> else \<lfloor>v\<rfloor>)"

function leading_zeros :: "int \<Rightarrow> int \<Rightarrow> string" where
  "leading_zeros i fract_part =
     (if i > 1 then if fract_part \<ge> i then [] else CHR 0x30 # leading_zeros (i div 10) fract_part else [])"
  by pat_completeness auto
termination
  by (relation "measure (\<lambda>(i, _). nat i)") auto

declare leading_zeros.simps [simp del]

definition DoubleToChar :: "(rat \<Rightarrow> rat) \<Rightarrow> rat \<Rightarrow> nat \<Rightarrow> string" where
  "DoubleToChar rnd v decimal_digits =
     (let i = 10 ^ decimal_digits;
          int_part = truncate_rat v;
          v = \<bar>v\<bar>;
          fract_part = truncate_rat (rnd ((v - of_int (truncate_rat v)) * of_int i))
      in IntToString int_part @ ''.'' @ leading_zeros (i div 10) fract_part @ IntToString fract_part)"

section \<open>Times\<close>

definition FormatTime :: "string \<Rightarrow> string" where
  "FormatTime time_component = (if length time_component < 2 then ''0'' @ time_component else time_component)"

text \<open>The fields of \<open>struct tm\<close>; \<open>localtime\<close> is a parameter, and so are the NTP client and the clock.\<close>

record tm =
  tm_year :: int
  tm_mon :: int
  tm_mday :: int
  tm_hour :: int
  tm_min :: int
  tm_sec :: int

definition ConvertRawTimeToIso8601Time :: "(int \<Rightarrow> tm) \<Rightarrow> int \<Rightarrow> string" where
  "ConvertRawTimeToIso8601Time localtime raw_time =
     (let ptm = localtime raw_time;
          year = IntToString (tm_year ptm + 1900);
          month = FormatTime (IntToString (tm_mon ptm + 1));
          day = FormatTime (IntToString (tm_mday ptm));
          hour = FormatTime (IntToString (tm_hour ptm));
          min = FormatTime (IntToString (tm_min ptm));
          sec = FormatTime (IntToString (tm_sec ptm))
      in year @ ''-'' @ month @ ''-'' @ day @ ''T'' @ hour @ '':'' @ min @ '':'' @ sec @ ''Z'')"

text \<open>\<open>UpdateRtc\<close>: the time that is set, if any, and whether the call succeeded.\<close>

definition UpdateRtc :: "int \<Rightarrow> int option \<times> bool" where
  "UpdateRtc raw_time = (if raw_time < 0 then (None, False) else (Some raw_time, True))"

section \<open>The name of the device\<close>

text \<open>\<open>setw\<close> holds for the next insertion only, so only the first of the three words is padded.\<close>

definition pad_left :: "nat \<Rightarrow> string \<Rightarrow> string" where
  "pad_left n s = replicate (n - length s) (CHR 0x30) @ s"

definition GetDeviceUid :: "32 word \<Rightarrow> 32 word \<Rightarrow> 32 word \<Rightarrow> string" where
  "GetDeviceUid w0 w4 w8 = pad_left 8 (IntToHex w0) @ IntToHex w4 @ IntToHex w8"

section \<open>Reading what was written\<close>

lemma digit_char_10:
  assumes "d < 10"
  shows "digit_char d = char_of (48 + d)"
proof -
  have "d = 0 \<or> d = 1 \<or> d = 2 \<or> d = 3 \<or> d = 4 \<or> d = 5 \<or> d = 6 \<or> d = 7 \<or> d = 8 \<or> d = 9"
    using assms by arith
  then show ?thesis
    by (elim disjE) (simp_all add: digit_char_def char_of_def bit_0)
qed

lemma digit_char_is_digit:
  assumes "d < 10"
  shows "is_digit (digit_char d)" "digit_val (digit_char d) = d"
  using assms by (simp_all add: digit_char_10 is_digit_def digit_val_def of_char_of)

lemma show_nat_digits: "c \<in> set (show_nat 10 n) \<Longrightarrow> is_digit c"
proof (induction "10 :: nat" n rule: show_nat.induct)
  case (1 n)
  show ?case
    using 1 by (subst (asm) (2) show_nat.simps) (auto simp: digit_char_is_digit split: if_splits)
qed

lemma show_nat_nonempty [simp]: "show_nat b n \<noteq> []"
  by (subst show_nat.simps) simp

lemma read_nat_append [simp]: "read_nat (xs @ [c]) = 10 * read_nat xs + digit_val c"
  by (simp add: read_nat_def)

lemma read_show_nat [simp]: "read_nat (show_nat 10 n) = n"
proof (induction "10 :: nat" n rule: show_nat.induct)
  case (1 n)
  show ?case
  proof (cases "n < 10")
    case True
    then show ?thesis
      by (simp add: show_nat.simps [of 10 n] read_nat_def digit_char_is_digit)
  next
    case False
    then show ?thesis
      using 1 by (simp add: show_nat.simps [of 10 n] digit_char_is_digit)
  qed
qed

lemma not_space_digit: "is_digit c \<Longrightarrow> \<not> isspace c"
  by (auto simp: is_digit_def isspace_def)

lemma show_nat_Cons: "\<exists>c cs. show_nat 10 n = c # cs \<and> is_digit c"
  using show_nat_digits [of _ n] show_nat_nonempty [of 10 n] by (cases "show_nat 10 n") auto

lemma stream_read_nat:
  "stream_read lo hi (show_nat 10 n) = Some (max lo (min hi (int n)))"
  "stream_read lo hi (CHR 0x2D # show_nat 10 n) = Some (max lo (min hi (- int n)))"
proof -
  obtain c cs where c: "show_nat 10 n = c # cs" "is_digit c"
    using show_nat_Cons by blast
  have all: "takeWhile is_digit cs = cs"
    using show_nat_digits [of _ n] c(1) by (simp add: takeWhile_eq_all_conv)
  have "c \<noteq> CHR 0x2D" "c \<noteq> CHR 0x2B" "\<not> isspace c" "\<not> isspace (CHR 0x2D)"
    using c(2) not_space_digit by (auto simp: is_digit_def isspace_def)
  then show "stream_read lo hi (show_nat 10 n) = Some (max lo (min hi (int n)))"
    "stream_read lo hi (CHR 0x2D # show_nat 10 n) = Some (max lo (min hi (- int n)))"
    using c read_show_nat [of n] by (simp_all add: stream_read_def all)
qed

lemma stream_read_int: "stream_read lo hi (IntToString v) = Some (max lo (min hi v))"
  using stream_read_nat(1) [of lo hi "nat v"] stream_read_nat(2) [of lo hi "nat (- v)"]
  by (cases "v < 0") (simp_all add: IntToString_def)

text \<open>
  Every \<open>int\<close> survives being written as text and read back, and so does every \<open>time_t\<close>.
\<close>

theorem StringToInt_inverts_IntToString:
  assumes "int_min \<le> v" "v \<le> int_max" "- (2 ^ 63) \<le> t" "t < 2 ^ 63"
  shows "StringToInt (IntToString v) = Some v \<and> StringToTime (TimeToString t) = Some t"
  using assms by (simp add: StringToInt_def StringToTime_def TimeToString_def stream_read_int)

theorem StringToInt_inverts_IntToString_witness:
  "StringToInt (IntToString (- 305)) = Some (- 305) \<and> StringToTime (TimeToString 1600000000000) = Some 1600000000000"
  by (rule StringToInt_inverts_IntToString) (simp_all add: int_min_def int_max_def)

lemma StringToInt_blank: "(\<forall>c \<in> set s. isspace c) \<Longrightarrow> StringToInt s = None"
  by (simp add: StringToInt_def stream_read_def dropWhile_eq_Nil_conv [THEN iffD2])

lemma StringToInt_range: "StringToInt s = Some v \<Longrightarrow> int_min \<le> v \<and> v \<le> int_max"
  by (auto simp: StringToInt_def stream_read_def Let_def int_min_def int_max_def split: list.splits if_splits)

section \<open>What the others print\<close>

text \<open>The sign of a number between -1 and 0 is lost.\<close>

lemma DoubleToChar_loses_sign:
  assumes "-1 < v" "v < 0"
  shows "DoubleToChar rnd v n = DoubleToChar rnd (- v) n"
proof -
  have "\<lfloor>- v\<rfloor> = 0"
    using assms by (simp add: floor_unique)
  then show ?thesis
    using assms by (simp add: DoubleToChar_def truncate_rat_def)
qed

lemma length_FormatTime: "time_component \<noteq> [] \<Longrightarrow> 2 \<le> length (FormatTime time_component)"
  by (cases time_component) (auto simp: FormatTime_def Suc_le_eq)

lemma show_two:
  assumes "n < 100"
  shows "length (show_nat 10 n) \<le> 2"
proof -
  have "n div 10 < 10"
    using assms by arith
  then show ?thesis
    by (simp add: show_nat.simps [of 10 n] show_nat.simps [of 10 "n div 10"])
qed

lemma FormatTime_two: "0 \<le> v \<Longrightarrow> v < 100 \<Longrightarrow> length (FormatTime (IntToString v)) = 2"
  using length_FormatTime [of "IntToString v"] show_two [of "nat v"]
  by (auto simp: FormatTime_def IntToString_def split: if_splits)

lemma show_four:
  assumes "1000 \<le> n" "n < 10000"
  shows "length (show_nat 10 n) = 4"
proof -
  have "\<not> n < 10" "\<not> n div 10 < 10" "\<not> n div 10 div 10 < 10" "n div 10 div 10 div 10 < 10"
    using assms by arith+
  then show ?thesis
    by (simp add: show_nat.simps [of 10 n] show_nat.simps [of 10 "n div 10"] show_nat.simps [of 10 "n div 10 div 10"]
      show_nat.simps [of 10 "n div 10 div 10 div 10"])
qed

text \<open>Every time of a year with four digits has the twenty characters of the ISO format.\<close>

lemma Iso8601_length:
  assumes "localtime t = ptm" "-900 \<le> tm_year ptm" "tm_year ptm < 8100" "0 \<le> tm_mon ptm" "tm_mon ptm < 12"
    and "1 \<le> tm_mday ptm" "tm_mday ptm \<le> 31" "0 \<le> tm_hour ptm" "tm_hour ptm < 24"
    and "0 \<le> tm_min ptm" "tm_min ptm < 60" "0 \<le> tm_sec ptm" "tm_sec ptm \<le> 60"
  shows "length (ConvertRawTimeToIso8601Time localtime t) = 20"
proof -
  have "length (IntToString (tm_year ptm + 1900)) = 4"
    using assms(2,3) show_four [of "nat (tm_year ptm + 1900)"] by (simp add: IntToString_def)
  then show ?thesis
    using assms by (simp add: ConvertRawTimeToIso8601Time_def FormatTime_two)
qed

section \<open>Device names\<close>

text \<open>
  The name of a device is not its identity: the second and third word are printed without leading zeros,
  so different devices have the same name, and the name is shorter than the 24 characters it promises.
\<close>

theorem GetDeviceUid_ambiguous:
  "GetDeviceUid w 0x1 0x23 = GetDeviceUid w 0x12 0x3 \<and> length (GetDeviceUid w 0x1 0x23) < 24"
proof -
  have len: "length (pad_left 8 (IntToHex w)) = 8"
  proof -
    have "length (show_nat 16 n) \<le> Suc k" if "n < 16 ^ Suc k" for n k
      using that
    proof (induction k arbitrary: n)
      case 0
      then show ?case
        by (simp add: show_nat.simps [of 16 n])
    next
      case (Suc k)
      have "n div 16 < 16 ^ Suc k"
        using Suc.prems by (simp add: less_mult_imp_div_less mult.commute)
      then show ?case
        using Suc.IH [of "n div 16"] by (subst show_nat.simps) simp
    qed
    from this [of "unat w" 7] show ?thesis
      using unsigned_less [of w, where 'a = nat] by (simp add: pad_left_def IntToHex_def)
  qed
  have "IntToHex 1 = ''1''" "IntToHex 0x23 = ''23''" "IntToHex 0x12 = ''12''" "IntToHex 3 = ''3''"
    by (simp_all add: IntToHex_def show_nat.simps [of 16 _] digit_char_def)
  then show ?thesis
    using len by (simp add: GetDeviceUid_def)
qed

end
