(* ===== verification/App_Store.thy ===== *)
theory App_Store
  imports App_Convert
begin

text \<open>
  \<open>src/PersistStore/persist_store.cpp\<close>: the settings of the device. The key-value store of mbed is a parameter \<open>kv_env\<close>, functions
  on its state \<open>'k\<close>. The store is built without a secure element, so the private key is one of the settings.
\<close>

section \<open>The key-value store\<close>

text \<open>\<open>kv_get\<close> gives the bytes it stores into the caller's buffer; both reads leave the store as it is.\<close>

record 'k kv_env =
  kv_set :: "string \<Rightarrow> string \<Rightarrow> 'k \<Rightarrow> int \<times> 'k"
  kv_get_info :: "string \<Rightarrow> 'k \<Rightarrow> int \<times> nat"
  kv_get :: "string \<Rightarrow> nat \<Rightarrow> 'k \<Rightarrow> int \<times> string"

definition DUMMY_INT :: string where "DUMMY_INT = ''dummy_int''"
definition DUMMY_STR :: string where "DUMMY_STR = ''dummy_str''"
definition SW_VER :: string where "SW_VER = ''sw_ver''"
definition INIT_FLAG :: string where "INIT_FLAG = ''init_flag''"
definition TIME :: string where "TIME = ''time''"
definition WIFI_SSID :: string where "WIFI_SSID = ''wifi_ssid''"
definition WIFI_PASS :: string where "WIFI_PASS = ''wifi_pass''"
definition CYCLE_INTERVAL :: string where "CYCLE_INTERVAL = ''scheduler_cycle_interval''"
definition CLIENT_CERTIFICATE :: string where "CLIENT_CERTIFICATE = ''client_certificate''"
definition CLIENT_CERTIFICATE_SN :: string where "CLIENT_CERTIFICATE_SN = ''client_certificate_sn''"
definition CLIENT_PRIVATE_KEY :: string where "CLIENT_PRIVATE_KEY = ''client_private_key''"

lemmas key_names = DUMMY_INT_def DUMMY_STR_def SW_VER_def INIT_FLAG_def TIME_def WIFI_SSID_def WIFI_PASS_def
  CYCLE_INTERVAL_def CLIENT_CERTIFICATE_def CLIENT_CERTIFICATE_SN_def CLIENT_PRIVATE_KEY_def

definition WriteKey :: "'k kv_env \<Rightarrow> string \<Rightarrow> string \<Rightarrow> 'k \<Rightarrow> 'k" where
  "WriteKey env key val k = snd (kv_set env key (StringToChar val) k)"

definition ReadKey :: "'k kv_env \<Rightarrow> string \<Rightarrow> 'k \<Rightarrow> string" where
  "ReadKey env key k =
     (case kv_get_info env key k of (rc, sz) \<Rightarrow>
        if rc \<noteq> 0 then ''''
        else case kv_get env key sz k of (rc, bytes) \<Rightarrow>
          if rc \<noteq> 0 then ''''
          else StringToChar (bytes @ replicate (sz + 1 - length bytes) (CHR 0x00)))"

definition WriteKey_int :: "'k kv_env \<Rightarrow> string \<Rightarrow> int \<Rightarrow> 'k \<Rightarrow> 'k" where
  "WriteKey_int env key val k = WriteKey env key (IntToString val) k"

definition WriteKey_time :: "'k kv_env \<Rightarrow> string \<Rightarrow> int \<Rightarrow> 'k \<Rightarrow> 'k" where
  "WriteKey_time env key val k = WriteKey env key (TimeToString val) k"

section \<open>The settings\<close>

record PersistConfig =
  dummy_int :: int
  dummy_str :: string

definition WriteConfig :: "'k kv_env \<Rightarrow> PersistConfig \<Rightarrow> 'k \<Rightarrow> 'k" where
  "WriteConfig env pconf k =
     (let k = WriteKey_int env DUMMY_INT (dummy_int pconf) k in WriteKey env DUMMY_STR (dummy_str pconf) k)"

definition WriteSystemTime :: "'k kv_env \<Rightarrow> int \<Rightarrow> 'k \<Rightarrow> 'k" where
  "WriteSystemTime env time k = WriteKey_time env TIME time k"

definition WriteSwVer :: "'k kv_env \<Rightarrow> string \<Rightarrow> 'k \<Rightarrow> 'k" where
  "WriteSwVer env sw_ver k = WriteKey env SW_VER sw_ver k"

definition WriteInitFlag :: "'k kv_env \<Rightarrow> string \<Rightarrow> 'k \<Rightarrow> 'k" where
  "WriteInitFlag env flag k = WriteKey env INIT_FLAG flag k"

definition WriteWifiSsid :: "'k kv_env \<Rightarrow> string \<Rightarrow> 'k \<Rightarrow> 'k" where
  "WriteWifiSsid env ssid k = WriteKey env WIFI_SSID ssid k"

definition WriteWifiPass :: "'k kv_env \<Rightarrow> string \<Rightarrow> 'k \<Rightarrow> 'k" where
  "WriteWifiPass env pass k = WriteKey env WIFI_PASS pass k"

definition WriteCycleInterval :: "'k kv_env \<Rightarrow> string \<Rightarrow> 'k \<Rightarrow> 'k" where
  "WriteCycleInterval env interval k = WriteKey env CYCLE_INTERVAL interval k"

definition WriteClientCertificate :: "'k kv_env \<Rightarrow> string \<Rightarrow> 'k \<Rightarrow> 'k" where
  "WriteClientCertificate env cert k = WriteKey env CLIENT_CERTIFICATE cert k"

definition WriteClientCertificateSerialNumber :: "'k kv_env \<Rightarrow> string \<Rightarrow> 'k \<Rightarrow> 'k" where
  "WriteClientCertificateSerialNumber env cert_sn k = WriteKey env CLIENT_CERTIFICATE_SN cert_sn k"

definition WriteClientPrivateKey :: "'k kv_env \<Rightarrow> string \<Rightarrow> 'k \<Rightarrow> 'k" where
  "WriteClientPrivateKey env private_key k = WriteKey env CLIENT_PRIVATE_KEY private_key k"

text \<open>\<open>ReadConfig\<close> leaves \<open>dummy_int\<close> uninitialised, here \<open>None\<close>, when its key is empty.\<close>

definition ReadConfig :: "'k kv_env \<Rightarrow> 'k \<Rightarrow> PersistConfig option" where
  "ReadConfig env k =
     map_option (\<lambda>n. \<lparr>dummy_int = n, dummy_str = ReadKey env DUMMY_STR k\<rparr>) (StringToInt (ReadKey env DUMMY_INT k))"

definition ReadSystemTime :: "'k kv_env \<Rightarrow> 'k \<Rightarrow> int option" where
  "ReadSystemTime env k = StringToTime (ReadKey env TIME k)"

definition ReadSwVer :: "'k kv_env \<Rightarrow> 'k \<Rightarrow> string" where
  "ReadSwVer env k = ReadKey env SW_VER k"

definition ReadInitFlag :: "'k kv_env \<Rightarrow> 'k \<Rightarrow> string" where
  "ReadInitFlag env k = ReadKey env INIT_FLAG k"

definition ReadWifiSsid :: "'k kv_env \<Rightarrow> 'k \<Rightarrow> string" where
  "ReadWifiSsid env k = ReadKey env WIFI_SSID k"

definition ReadWifiPass :: "'k kv_env \<Rightarrow> 'k \<Rightarrow> string" where
  "ReadWifiPass env k = ReadKey env WIFI_PASS k"

definition ReadCycleInterval :: "'k kv_env \<Rightarrow> 'k \<Rightarrow> string" where
  "ReadCycleInterval env k = ReadKey env CYCLE_INTERVAL k"

definition ReadClientCertificate :: "'k kv_env \<Rightarrow> 'k \<Rightarrow> string" where
  "ReadClientCertificate env k = ReadKey env CLIENT_CERTIFICATE k"

definition ReadClientCertificateSerialNumber :: "'k kv_env \<Rightarrow> 'k \<Rightarrow> string" where
  "ReadClientCertificateSerialNumber env k = ReadKey env CLIENT_CERTIFICATE_SN k"

definition ReadClientPrivateKey :: "'k kv_env \<Rightarrow> 'k \<Rightarrow> string" where
  "ReadClientPrivateKey env k = ReadKey env CLIENT_PRIVATE_KEY k"

lemmas writers = WriteSystemTime_def WriteSwVer_def WriteInitFlag_def WriteWifiSsid_def WriteWifiPass_def
  WriteCycleInterval_def WriteClientCertificate_def WriteClientCertificateSerialNumber_def WriteClientPrivateKey_def
  WriteKey_int_def WriteKey_time_def

lemmas readers = ReadSwVer_def ReadInitFlag_def ReadWifiSsid_def ReadWifiPass_def ReadCycleInterval_def
  ReadClientCertificate_def ReadClientCertificateSerialNumber_def ReadClientPrivateKey_def

section \<open>A store that works\<close>

text \<open>
  What the documentation of the store promises of a call that succeeds, with \<open>content\<close> the map it keeps:
  a value set is the value got, and its size is reported; a missing key is an error. In \<open>reliable\<close> every
  write succeeds.
\<close>

definition kv_spec :: "'k kv_env \<Rightarrow> ('k \<Rightarrow> string \<rightharpoonup> string) \<Rightarrow> bool" where
  "kv_spec env content \<longleftrightarrow>
     (\<forall>key v k. fst (kv_set env key v k) = 0 \<longrightarrow> content (snd (kv_set env key v k)) = (content k)(key \<mapsto> v)) \<and>
     (\<forall>key v k. content k key = Some v \<longrightarrow>
        kv_get_info env key k = (0, length v) \<and> kv_get env key (length v) k = (0, v)) \<and>
     (\<forall>key k. content k key = None \<longrightarrow> fst (kv_get_info env key k) \<noteq> 0)"

definition reliable :: "'k kv_env \<Rightarrow> ('k \<Rightarrow> string \<rightharpoonup> string) \<Rightarrow> bool" where
  "reliable env content \<longleftrightarrow> kv_spec env content \<and> (\<forall>key v k. fst (kv_set env key v k) = 0)"

lemma StringToChar_idem [simp]: "StringToChar (StringToChar s) = StringToChar s"
  by (simp add: StringToChar_def)

lemma StringToChar_append_nul: "StringToChar (s @ CHR 0x00 # r) = StringToChar s"
  by (induction s) (simp_all add: StringToChar_def)

lemma StringToChar_id: "CHR 0x00 \<notin> set s \<Longrightarrow> StringToChar s = s"
  by (auto simp: StringToChar_def takeWhile_eq_all_conv)

lemma ReadKey_content:
  assumes "kv_spec env content"
  shows "ReadKey env key k = (case content k key of None \<Rightarrow> '''' | Some v \<Rightarrow> StringToChar v)"
proof (cases "content k key")
  case None
  then have "fst (kv_get_info env key k) \<noteq> 0"
    using assms unfolding kv_spec_def by blast
  then show ?thesis
    using None by (cases "kv_get_info env key k") (simp add: ReadKey_def)
next
  case (Some v)
  then have "kv_get_info env key k = (0, length v)" "kv_get env key (length v) k = (0, v)"
    using assms unfolding kv_spec_def by blast+
  then show ?thesis
    using Some by (simp add: ReadKey_def StringToChar_append_nul)
qed

lemma WriteKey_content:
  "reliable env content \<Longrightarrow> content (WriteKey env key val k) = (content k)(key \<mapsto> StringToChar val)"
  by (simp add: reliable_def kv_spec_def WriteKey_def)

lemma ReadKey_WriteKey:
  assumes "reliable env content"
  shows "ReadKey env key' (WriteKey env key val k) = (if key' = key then StringToChar val else ReadKey env key' k)"
  using assms by (simp add: ReadKey_content [of env content] WriteKey_content reliable_def)

text \<open>
  Settings survive: a string is read back up to its first NUL, the configuration and the time exactly, and
  writing one key leaves every other one alone.
\<close>

theorem settings_roundtrip:
  assumes "reliable env content"
    and "int_min \<le> dummy_int pconf" "dummy_int pconf \<le> int_max" "CHR 0x00 \<notin> set (dummy_str pconf)"
    and "- (2 ^ 63) \<le> time" "time < 2 ^ 63"
  shows "ReadConfig env (WriteConfig env pconf k) = Some pconf \<and>
    ReadSystemTime env (WriteSystemTime env time k) = Some time \<and>
    ReadWifiPass env (WriteWifiPass env s k) = StringToChar s \<and>
    (key \<noteq> WIFI_PASS \<longrightarrow> ReadKey env key (WriteWifiPass env s k) = ReadKey env key k)"
proof -
  note rw = ReadKey_WriteKey [OF assms(1)]
  have nul: "StringToChar (IntToString v) = IntToString v" for v
  proof (rule StringToChar_id)
    show "CHR 0x00 \<notin> set (IntToString v)"
      using show_nat_digits [of "CHR 0x00" "nat v"] show_nat_digits [of "CHR 0x00" "nat (- v)"]
      by (auto simp: IntToString_def is_digit_def)
  qed
  have "StringToInt (IntToString (dummy_int pconf)) = Some (dummy_int pconf)" "StringToTime (IntToString time) = Some time"
    using assms by (simp_all add: StringToInt_def StringToTime_def stream_read_int)
  then show ?thesis
    using assms(4)
    by (simp add: ReadConfig_def WriteConfig_def writers readers ReadSystemTime_def TimeToString_def rw nul StringToChar_id)
      (simp add: key_names)
qed

text \<open>A store in memory.\<close>

definition ram_store :: "(string \<rightharpoonup> string) kv_env" where
  "ram_store = \<lparr>kv_set = \<lambda>key v m. (0, m(key \<mapsto> v)),
     kv_get_info = \<lambda>key m. case m key of None \<Rightarrow> (-1, 0) | Some v \<Rightarrow> (0, length v),
     kv_get = \<lambda>key n m. case m key of None \<Rightarrow> (-1, '''') | Some v \<Rightarrow> (0, take n v)\<rparr>"

lemma ram_store_reliable: "reliable ram_store (\<lambda>m. m)"
  by (auto simp: reliable_def kv_spec_def ram_store_def)

theorem settings_roundtrip_witness:
  "ReadConfig ram_store (WriteConfig ram_store \<lparr>dummy_int = 200, dummy_str = ''test string''\<rparr> (\<lambda>_. None)) =
     Some \<lparr>dummy_int = 200, dummy_str = ''test string''\<rparr>"
  using settings_roundtrip [OF ram_store_reliable, of "\<lparr>dummy_int = 200, dummy_str = ''test string''\<rparr>" 0]
  by (simp add: int_min_def int_max_def)

end
