(* ===== verification/App_Boot.thy ===== *)
theory App_Boot
  imports App_Store
begin

text \<open>
  \<open>src/BootManager/boot_manager.cpp\<close> and the decision of \<open>main.cpp\<close>: the console program that edits the settings
  behind a passphrase. What the user types is a list of characters; what is printed is not modelled, except
  that printing the menu can end the program.
\<close>

section \<open>The program\<close>

definition sdk_ver :: string where "sdk_ver = ''3.1.0''"
definition max_login_attempts :: nat where "max_login_attempts = 3"
definition poll_rate_ms :: string where "poll_rate_ms = ''10000''"
definition boot_login_pw :: string where "boot_login_pw = ''stack2020''"

text \<open>
  How a run ends: the device restarts, locks up after too many attempts, waits for ever for the next character,
  or a string operation throws, which stops a program built without exceptions.
\<close>

datatype boot_end = Restart | Locked | Waiting | Thrown

text \<open>
  \<open>replace(1, n, n, '*')\<close> with \<open>n = length - 2\<close> of type \<open>size_t\<close>: position 1 must not be behind the end, and
  the number of stars must fit.
\<close>

definition PrintMenu :: "'k kv_env \<Rightarrow> 'k \<Rightarrow> string option" where
  "PrintMenu env k =
     (let s = ReadWifiPass env k; n = (int (length s) - 2) mod 2 ^ 32 in
      if length s < 1 then None
      else if n \<ge> 2 ^ 31 then None
      else Some (take 1 s @ replicate (nat n) (CHR 0x2A) @ drop (1 + nat n) s))"

text \<open>The polls of \<open>EnterBootManager\<close>: whether a character is there, and the microseconds gone by.\<close>

fun EnterBootManager :: "(bool \<times> nat) list \<Rightarrow> bool option" where
  "EnterBootManager [] = None"
| "EnterBootManager ((readable, elapsed) # polls) =
     (if readable then Some True else if elapsed > 5000000 then Some False else EnterBootManager polls)"

fun user_line :: "string \<Rightarrow> string \<Rightarrow> (string \<times> string) option" where
  "user_line input [] = None"
| "user_line input (c # cs) =
     (if c = CHR 0x0D \<or> c = CHR 0x0A then Some (input, cs)
      else if c = CHR 0x08 then user_line (take (length input - 1) input) cs
      else user_line (input @ [c]) cs)"

definition GetUserInputString :: "string \<Rightarrow> (string \<times> string) option" where
  "GetUserInputString inp = user_line '''' inp"

fun login_loop :: "nat \<Rightarrow> string \<Rightarrow> boot_end + string" where
  "login_loop 0 inp = Inl Locked"
| "login_loop (Suc i) inp =
     (case GetUserInputString inp of
        None \<Rightarrow> Inl Waiting
      | Some (user_input, inp) \<Rightarrow> if user_input = boot_login_pw then Inr inp else login_loop i inp)"

definition BootManagerLogin :: "string \<Rightarrow> boot_end + string" where
  "BootManagerLogin inp = login_loop max_login_attempts inp"

definition ClearClientSslData :: "'k kv_env \<Rightarrow> 'k \<Rightarrow> 'k" where
  "ClearClientSslData env k =
     (let k = WriteClientCertificate env '''' k;
          k = WriteClientCertificateSerialNumber env '''' k
      in WriteClientPrivateKey env '''' k)"

definition SetDefaultConfig :: "'k kv_env \<Rightarrow> 'k \<Rightarrow> 'k" where
  "SetDefaultConfig env k =
     (let k = WriteWifiSsid env ''WIFI_SSID'' k;
          k = WriteWifiPass env ''WIFI_PW'' k
      in ClearClientSslData env k)"

definition InitAfterLogin :: "'k kv_env \<Rightarrow> 'k \<Rightarrow> 'k" where
  "InitAfterLogin env k = (let k = WriteCycleInterval env poll_rate_ms k in WriteInitFlag env ''true'' k)"

lemma user_line_shorter: "user_line input inp = Some (line, rest) \<Longrightarrow> length rest < length inp"
  by (induction input inp rule: user_line.induct) (auto split: if_splits)

lemma GetUserInputString_shorter: "GetUserInputString inp = Some (line, rest) \<Longrightarrow> length rest < length inp"
  unfolding GetUserInputString_def by (rule user_line_shorter)

function menu_loop :: "'k kv_env \<Rightarrow> 'k \<Rightarrow> string \<Rightarrow> boot_end \<times> 'k" where
  "menu_loop env k inp =
     (if PrintMenu env k = None then (Thrown, k)
      else case GetUserInputString inp of
        None \<Rightarrow> (Waiting, k)
      | Some (user_input, inp1) \<Rightarrow>
          if user_input = ''-2'' then (Restart, k)
          else if user_input = ''-1'' then menu_loop env (SetDefaultConfig env k) inp1
          else if user_input = ''1'' then
            (case GetUserInputString inp1 of
               None \<Rightarrow> (Waiting, k)
             | Some (s, inp2) \<Rightarrow> menu_loop env (WriteWifiSsid env s k) inp2)
          else if user_input = ''2'' then
            (case GetUserInputString inp1 of
               None \<Rightarrow> (Waiting, k)
             | Some (s, inp2) \<Rightarrow> menu_loop env (WriteWifiPass env s k) inp2)
          else if user_input = ''3'' then menu_loop env (ClearClientSslData env k) inp1
          else menu_loop env k inp1)"
  by pat_completeness auto
termination
  by (relation "measure (\<lambda>(env, k, inp). length inp)") (auto dest!: GetUserInputString_shorter)

declare menu_loop.simps [simp del]

definition RunBootManager :: "'k kv_env \<Rightarrow> 'k \<Rightarrow> string \<Rightarrow> boot_end \<times> 'k" where
  "RunBootManager env k inp =
     (let k = (if ReadInitFlag env k \<noteq> ''true'' then SetDefaultConfig env k else k);
          k = WriteSwVer env sdk_ver k
      in case BootManagerLogin inp of
           Inl e \<Rightarrow> (e, k)
         | Inr inp \<Rightarrow> menu_loop env (InitAfterLogin env k) inp)"

text \<open>\<open>main\<close>: \<open>None\<close> starts the threads. The character that interrupts the start is taken off the input.\<close>

definition main_boot :: "'k kv_env \<Rightarrow> 'k \<Rightarrow> bool \<Rightarrow> string \<Rightarrow> (boot_end \<times> 'k) option" where
  "main_boot env k boot inp =
     (if ReadInitFlag env k \<noteq> ''true'' \<or> boot then Some (RunBootManager env k (if boot then drop 1 inp else inp)) else None)"

section \<open>Typing a line\<close>

definition plain :: "string \<Rightarrow> bool" where
  "plain s \<longleftrightarrow> CHR 0x0D \<notin> set s \<and> CHR 0x0A \<notin> set s \<and> CHR 0x08 \<notin> set s"

lemma user_line_plain: "plain s \<Longrightarrow> user_line input (s @ CHR 0x0D # rest) = Some (input @ s, rest)"
  by (induction s arbitrary: input) (auto simp: plain_def)

lemma GetUserInputString_plain: "plain s \<Longrightarrow> GetUserInputString (s @ CHR 0x0D # rest) = Some (s, rest)"
  by (simp add: GetUserInputString_def user_line_plain)

text \<open>Typing a character and taking it back changes nothing.\<close>

lemma user_line_backspace:
  "plain [c] \<Longrightarrow> user_line input (c # CHR 0x08 # cs) = user_line input cs"
  by (auto simp: plain_def)

section \<open>The passphrase\<close>

lemma login_loop_end: "login_loop n inp = Inl e \<Longrightarrow> e = Locked \<or> e = Waiting"
  by (induction n arbitrary: inp) (auto split: option.splits if_splits)

lemma menu_loop_end: "fst (menu_loop env k inp) \<noteq> Locked"
proof (induction env k inp rule: menu_loop.induct)
  case (1 env k inp)
  then show ?case
    by (subst menu_loop.simps) (auto split: option.splits)
qed

text \<open>
  Without the passphrase nothing is lost: a run that ends locked leaves every setting but the version of
  the software as it was, provided that the device had been set up.
\<close>

theorem locked_changes_nothing:
  assumes "reliable env content" "ReadInitFlag env k = ''true''" "RunBootManager env k inp = (Locked, k')"
    and "key \<noteq> SW_VER"
  shows "ReadKey env key k' = ReadKey env key k"
proof -
  have "k' = WriteSwVer env sdk_ver k"
    using assms(2,3) menu_loop_end [of env]
    by (auto simp: RunBootManager_def Let_def split: sum.splits) (metis fst_conv)
  then show ?thesis
    using assms(4) by (simp add: WriteSwVer_def ReadKey_WriteKey [OF assms(1)])
qed

text \<open>
  Three wrong lines lock the device, and the passphrase in one of the first three opens the menu.
\<close>

theorem login_three_attempts:
  assumes "plain a" "plain b" "plain c"
  shows "BootManagerLogin (a @ CHR 0x0D # b @ CHR 0x0D # c @ CHR 0x0D # rest) =
    (if a = boot_login_pw then Inr (b @ CHR 0x0D # c @ CHR 0x0D # rest)
     else if b = boot_login_pw then Inr (c @ CHR 0x0D # rest)
     else if c = boot_login_pw then Inr rest else Inl Locked)"
  using assms by (simp add: BootManagerLogin_def max_login_attempts_def numeral_3_eq_3 GetUserInputString_plain)

section \<open>The menu\<close>

lemma menu_thrown: "length (ReadWifiPass env k) < 2 \<Longrightarrow> menu_loop env k inp = (Thrown, k)"
proof -
  assume "length (ReadWifiPass env k) < 2"
  then have "length (ReadWifiPass env k) = 0 \<or> length (ReadWifiPass env k) = 1"
    by linarith
  then have "PrintMenu env k = None"
    by (auto simp: PrintMenu_def Let_def)
  then show ?thesis
    by (simp add: menu_loop.simps)
qed

lemma InitAfterLogin_keeps:
  "reliable env content \<Longrightarrow> key \<noteq> CYCLE_INTERVAL \<Longrightarrow> key \<noteq> INIT_FLAG \<Longrightarrow>
    ReadKey env key (InitAfterLogin env k) = ReadKey env key k"
  by (simp add: InitAfterLogin_def writers ReadKey_WriteKey Let_def)

text \<open>
  A password of fewer than two characters, which the menu accepts, makes the menu unusable for good: every
  later run of the boot manager that gets past the passphrase throws before the first choice, so the password
  cannot be changed any more.
\<close>

theorem short_password_bricks_menu:
  assumes "reliable env content" "ReadInitFlag env k = ''true''" "length (ReadWifiPass env k) < 2"
    and "RunBootManager env k inp = (e, k')"
  shows "e \<noteq> Restart \<and> ReadWifiPass env k' = ReadWifiPass env k"
proof -
  let ?k = "WriteSwVer env sdk_ver k"
  have pass: "ReadWifiPass env ?k = ReadWifiPass env k" "ReadWifiPass env (InitAfterLogin env ?k) = ReadWifiPass env k"
    using assms(1) InitAfterLogin_keeps [OF assms(1), of WIFI_PASS ?k]
    by (simp_all add: ReadWifiPass_def WriteSwVer_def ReadKey_WriteKey) (simp_all add: key_names)
  show ?thesis
  proof (cases "BootManagerLogin inp")
    case (Inl e')
    then show ?thesis
      using assms(2,4) pass(1) login_loop_end [of max_login_attempts inp e']
      by (auto simp: RunBootManager_def BootManagerLogin_def)
  next
    case (Inr rest)
    then show ?thesis
      using assms(2,3,4) pass(2) menu_thrown [of env "InitAfterLogin env ?k" rest]
      by (auto simp: RunBootManager_def)
  qed
qed

text \<open>
  C14: A whole session: the passphrase, a new network name, a new password of at least two characters and the
  choice to leave restart the device with exactly these settings, and the device is marked as set up.
\<close>

theorem session_stores_wifi:
  assumes env: "reliable env content" and init: "ReadInitFlag env k = ''true''" "2 \<le> length (ReadWifiPass env k)"
    and typed: "plain ssid" "plain pass" "CHR 0x00 \<notin> set ssid" "CHR 0x00 \<notin> set pass" "2 \<le> length pass"
      "length pass < 2 ^ 31" "length (ReadWifiPass env k) < 2 ^ 31"
    and inp: "inp =  boot_login_pw @ CHR 0x0D # ''1'' @ CHR 0x0D # ssid @ CHR 0x0D # ''2'' @ CHR 0x0D # pass @ CHR 0x0D # ''-2'' @ CHR 0x0D # rest"
  shows "\<exists>k'. RunBootManager env k inp = (Restart, k') \<and> ReadWifiSsid env k' = ssid \<and> ReadWifiPass env k' = pass \<and>
    ReadCycleInterval env k' = poll_rate_ms \<and> ReadInitFlag env k' = ''true'' \<and>
    ReadClientCertificate env k' = ReadClientCertificate env k"
proof -
  note rw = ReadKey_WriteKey [OF env]
  define k1 where "k1 = InitAfterLogin env (WriteSwVer env sdk_ver k)"
  define k2 where "k2 = WriteWifiSsid env ssid k1"
  define k3 where "k3 = WriteWifiPass env pass k2"
  have menu: "PrintMenu env k \<noteq> None" if "2 \<le> length (ReadWifiPass env k)" "length (ReadWifiPass env k) < 2 ^ 31" for k
    using that by (auto simp: PrintMenu_def Let_def)
  have pass: "ReadWifiPass env k1 = ReadWifiPass env k" "ReadWifiPass env k2 = ReadWifiPass env k" "ReadWifiPass env k3 = pass"
    using typed(4) unfolding k3_def k2_def k1_def
    by (simp_all add: ReadWifiPass_def InitAfterLogin_def Let_def writers rw StringToChar_id key_names)
  have lines: "plain boot_login_pw" "plain ''1''" "plain ''2''" "plain ''-2''"
    by (simp_all add: plain_def boot_login_pw_def)
  note gets = GetUserInputString_plain [OF lines(1)] GetUserInputString_plain [OF lines(2), simplified]
    GetUserInputString_plain [OF lines(3), simplified] GetUserInputString_plain [OF lines(4), simplified]
    GetUserInputString_plain [OF typed(1)] GetUserInputString_plain [OF typed(2)]
  have "BootManagerLogin inp = Inr (''1'' @ CHR 0x0D # ssid @ CHR 0x0D # ''2'' @ CHR 0x0D # pass @ CHR 0x0D # ''-2'' @ CHR 0x0D # rest)"
    by (simp add: BootManagerLogin_def max_login_attempts_def numeral_3_eq_3 inp gets)
  then have "RunBootManager env k inp = menu_loop env k1
      (''1'' @ CHR 0x0D # ssid @ CHR 0x0D # ''2'' @ CHR 0x0D # pass @ CHR 0x0D # ''-2'' @ CHR 0x0D # rest)"
    using init(1) by (simp add: RunBootManager_def k1_def)
  also have "\<dots> = menu_loop env k2 (''2'' @ CHR 0x0D # pass @ CHR 0x0D # ''-2'' @ CHR 0x0D # rest)"
    using menu [of k1] pass(1) init(2) typed(7) by (subst menu_loop.simps) (auto simp: gets k2_def)
  also have "\<dots> = menu_loop env k3 (''-2'' @ CHR 0x0D # rest)"
    using menu [of k2] pass(2) init(2) typed(7) by (subst menu_loop.simps) (auto simp: gets k3_def)
  also have "\<dots> = (Restart, k3)"
    using menu [of k3] pass(3) typed(5,6) by (subst menu_loop.simps) (auto simp: gets)
  finally have "RunBootManager env k inp = (Restart, k3)" .
  moreover have "ReadWifiSsid env k3 = ssid \<and> ReadCycleInterval env k3 = poll_rate_ms \<and> ReadInitFlag env k3 = ''true'' \<and>
      ReadClientCertificate env k3 = ReadClientCertificate env k"
    using typed(3) unfolding k3_def k2_def k1_def InitAfterLogin_def Let_def
    by (simp add: readers writers rw StringToChar_id) (simp add: key_names poll_rate_ms_def StringToChar_def)
  ultimately show ?thesis
    using pass(3) by blast
qed

section \<open>Witnesses\<close>

definition set_up :: "string \<rightharpoonup> string" where
  "set_up = [''init_flag'' \<mapsto> ''true'', ''wifi_pass'' \<mapsto> ''secret'']"

lemma set_up_reads: "ReadInitFlag ram_store set_up = ''true''" "ReadWifiPass ram_store set_up = ''secret''"
  by (simp_all add: readers ReadKey_def ram_store_def set_up_def key_names StringToChar_def)

theorem locked_changes_nothing_witness:
  "ReadWifiPass ram_store (snd (RunBootManager ram_store set_up (''a'' @ CHR 0x0D # ''b'' @ CHR 0x0D # ''c'' @ CHR 0x0D # []))) = ''secret''"
proof -
  have "BootManagerLogin (''a'' @ CHR 0x0D # ''b'' @ CHR 0x0D # ''c'' @ CHR 0x0D # []) = Inl Locked"
    by (simp add: BootManagerLogin_def max_login_attempts_def numeral_3_eq_3 GetUserInputString_def boot_login_pw_def)
  then have run: "RunBootManager ram_store set_up (''a'' @ CHR 0x0D # ''b'' @ CHR 0x0D # ''c'' @ CHR 0x0D # []) =
      (Locked, WriteSwVer ram_store sdk_ver set_up)"
    by (simp add: RunBootManager_def set_up_reads)
  from locked_changes_nothing [OF ram_store_reliable set_up_reads(1) this, of WIFI_PASS] show ?thesis
    using set_up_reads(2) run by (simp add: ReadWifiPass_def) (simp add: key_names)
qed

theorem login_three_attempts_witness:
  "BootManagerLogin (''x'' @ CHR 0x0D # boot_login_pw @ CHR 0x0D # ''y'' @ CHR 0x0D # ''1'') = Inr (''y'' @ CHR 0x0D # ''1'')"
  using login_three_attempts [of "''x''" boot_login_pw "''y''" "''1''"] by (simp add: plain_def boot_login_pw_def)

theorem short_password_bricks_menu_witness:
  "fst (RunBootManager ram_store (set_up(''wifi_pass'' \<mapsto> '''')) (boot_login_pw @ CHR 0x0D # ''2'' @ CHR 0x0D # [])) \<noteq> Restart"
proof -
  have "ReadInitFlag ram_store (set_up(''wifi_pass'' \<mapsto> '''')) = ''true''" "ReadWifiPass ram_store (set_up(''wifi_pass'' \<mapsto> '''')) = ''''"
    by (simp_all add: readers ReadKey_def ram_store_def set_up_def key_names StringToChar_def)
  then show ?thesis
    using short_password_bricks_menu [OF ram_store_reliable, of "set_up(''wifi_pass'' \<mapsto> '''')" _
      "fst (RunBootManager ram_store (set_up(''wifi_pass'' \<mapsto> '''')) (boot_login_pw @ CHR 0x0D # ''2'' @ CHR 0x0D # []))"
      "snd (RunBootManager ram_store (set_up(''wifi_pass'' \<mapsto> '''')) (boot_login_pw @ CHR 0x0D # ''2'' @ CHR 0x0D # []))"]
    by simp
qed

theorem session_stores_wifi_witness:
  "\<exists>k'. RunBootManager ram_store set_up (boot_login_pw @ CHR 0x0D # ''1'' @ CHR 0x0D # ''home'' @ CHR 0x0D # ''2'' @ CHR 0x0D #
      ''pw'' @ CHR 0x0D # ''-2'' @ CHR 0x0D # []) = (Restart, k') \<and> ReadWifiSsid ram_store k' = ''home''"
  using session_stores_wifi [OF ram_store_reliable set_up_reads(1), of "''home''" "''pw''" _ "[]", OF _ _ _ _ _ _ _ _ refl]
  by (auto simp: set_up_reads plain_def)

end
