(* ===== verification/Json_Value.thy ===== *)
theory Json_Value
  imports App_Convert "HOL-Library.Char_ord" "HOL-Library.List_Lexorder"
begin

text \<open>
  The JSON values of \<open>lib/JsonCpp/jsoncpp.cpp\<close> as the application uses them, and the two ways in which it
  prints them: \<open>FastWriter\<close>, and \<open>writeString\<close> with an empty indentation. Comments of values are not kept
  (the application parses without them).
\<close>

section \<open>Values\<close>

text \<open>
  Integers have 64 bits; a double is an element of a type \<open>'r\<close>, and what the library does to doubles with
  \<open>snprintf\<close> and streams is a parameter. The members of an object are sorted by their names, byte by byte,
  as the map of the library keeps them.
\<close>

datatype 'r Json =
    JNull
  | JInt int
  | JUint nat
  | JReal 'r
  | JString string
  | JBool bool
  | JArray "'r Json list"
  | JObject "(string \<times> 'r Json) list"

record 'r real_io =
  print_g :: "nat \<Rightarrow> 'r \<Rightarrow> string"
  is_nan :: "'r \<Rightarrow> bool"
  is_finite :: "'r \<Rightarrow> bool"
  is_negative :: "'r \<Rightarrow> bool"
  read_double :: "string \<Rightarrow> 'r option"

definition minLargestInt :: int where "minLargestInt = - (2 ^ 63)"
definition maxLargestInt :: int where "maxLargestInt = 2 ^ 63 - 1"
definition maxLargestUInt :: nat where "maxLargestUInt = 2 ^ 64 - 1"
definition maxInt :: int where "maxInt = 2 ^ 31 - 1"

text \<open>\<open>find\<close>, \<open>get\<close>, \<open>asString\<close> and \<open>getMemberNames\<close>; \<open>None\<close> is the exception they throw.\<close>

definition json_find :: "'r Json \<Rightarrow> string \<Rightarrow> 'r Json option option" where
  "json_find v key =
     (case v of JNull \<Rightarrow> Some None | JObject ms \<Rightarrow> Some (map_of ms key) | _ \<Rightarrow> None)"

definition json_get :: "'r Json \<Rightarrow> string \<Rightarrow> 'r Json \<Rightarrow> 'r Json option" where
  "json_get v key defaultValue =
     map_option (\<lambda>found. case found of None \<Rightarrow> defaultValue | Some x \<Rightarrow> x) (json_find v key)"

definition getMemberNames :: "'r Json \<Rightarrow> string list option" where
  "getMemberNames v = (case v of JNull \<Rightarrow> Some [] | JObject ms \<Rightarrow> Some (map fst ms) | _ \<Rightarrow> None)"

text \<open>\<open>operator[]\<close> on an object puts a null under a new name; assigning replaces what is there.\<close>

fun obj_put :: "string \<Rightarrow> 'a \<Rightarrow> (string \<times> 'a) list \<Rightarrow> (string \<times> 'a) list" where
  "obj_put key v [] = [(key, v)]"
| "obj_put key v ((k, x) # ms) =
     (if key = k then (key, v) # ms else if key < k then (key, v) # (k, x) # ms else (k, x) # obj_put key v ms)"

definition json_set :: "string \<Rightarrow> 'r Json \<Rightarrow> 'r Json \<Rightarrow> 'r Json option" where
  "json_set key x v =
     (case v of JNull \<Rightarrow> Some (JObject [(key, x)]) | JObject ms \<Rightarrow> Some (JObject (obj_put key x ms)) | _ \<Rightarrow> None)"

section \<open>Printing\<close>

text \<open>\<open>uintToString\<close> and \<open>valueToString\<close>\<close>

definition uintToString :: "nat \<Rightarrow> string" where
  "uintToString value = show_nat 10 value"

definition valueToString_int :: "int \<Rightarrow> string" where
  "valueToString_int value =
     (if value < 0 then CHR 0x2D # uintToString (nat (- value)) else uintToString (nat value))"

definition valueToString_bool :: "bool \<Rightarrow> string" where
  "valueToString_bool value = (if value then ''true'' else ''false'')"

definition fixNumericLocale :: "string \<Rightarrow> string" where
  "fixNumericLocale s = map (\<lambda>c. if c = CHR '','' then CHR ''.'' else c) s"

definition valueToString_real :: "'r real_io \<Rightarrow> nat \<Rightarrow> 'r \<Rightarrow> string" where
  "valueToString_real io precision value =
     (if \<not> is_finite io value then
        (if is_nan io value then ''null'' else if is_negative io value then ''-1e+9999'' else ''1e+9999'')
      else let buffer = fixNumericLocale (print_g io precision value) in
        if CHR ''.'' \<notin> set buffer \<and> CHR ''e'' \<notin> set buffer then buffer @ ''.0'' else buffer)"

text \<open>
  \<open>valueToQuotedStringN\<close>. \<open>utf8ToCodepoint\<close> gives the code point and how many more bytes it takes; a
  \<open>char\<close> is unsigned on the target.
\<close>

definition code :: "char \<Rightarrow> nat" where
  "code c = of_char c"

definition isAnyCharRequiredQuoting :: "string \<Rightarrow> bool" where
  "isAnyCharRequiredQuoting s \<longleftrightarrow>
     (\<exists>c \<in> set s. c = CHR 0x5C \<or> c = CHR 0x22 \<or> code c < 0x20 \<or> code c < 0x80)"

definition REPLACEMENT_CHARACTER :: nat where "REPLACEMENT_CHARACTER = 0xFFFD"

definition utf8ToCodepoint :: "char \<Rightarrow> string \<Rightarrow> nat \<times> nat" where
  "utf8ToCodepoint c s =
     (let firstByte = code c; b = (\<lambda>i. code (s ! i) mod 64) in
      if firstByte < 0x80 then (firstByte, 0)
      else if firstByte < 0xE0 then
        if length s < 1 then (REPLACEMENT_CHARACTER, 0)
        else let calculated = (firstByte mod 32) * 64 + b 0 in
          (if calculated < 0x80 then REPLACEMENT_CHARACTER else calculated, 1)
      else if firstByte < 0xF0 then
        if length s < 2 then (REPLACEMENT_CHARACTER, 0)
        else let calculated = (firstByte mod 16) * 4096 + b 0 * 64 + b 1 in
          (if 0xD800 \<le> calculated \<and> calculated \<le> 0xDFFF \<or> calculated < 0x800 then REPLACEMENT_CHARACTER
           else calculated, 2)
      else if firstByte < 0xF8 then
        if length s < 3 then (REPLACEMENT_CHARACTER, 0)
        else let calculated = (firstByte mod 8) * 262144 + b 0 * 4096 + b 1 * 64 + b 2 in
          (if calculated < 0x10000 then REPLACEMENT_CHARACTER else calculated, 3)
      else (REPLACEMENT_CHARACTER, 0))"

definition toHex16Bit :: "nat \<Rightarrow> string" where
  "toHex16Bit x =
     (let hi = (x div 256) mod 256; lo = x mod 256 in
      [digit_char (hi div 16), digit_char (hi mod 16), digit_char (lo div 16), digit_char (lo mod 16)])"

definition quote_char :: "nat \<Rightarrow> string" where
  "quote_char cp =
     (if cp < 0x80 \<and> cp \<ge> 0x20 then [char_of cp]
      else if cp < 0x10000 then [CHR 0x5C, CHR ''u''] @ toHex16Bit cp
      else let cp = cp - 0x10000 in
        [CHR 0x5C, CHR ''u''] @ toHex16Bit (cp div 1024 + 0xD800) @
        [CHR 0x5C, CHR ''u''] @ toHex16Bit (cp mod 1024 + 0xDC00))"

function quote_loop :: "string \<Rightarrow> string" where
  "quote_loop [] = []"
| "quote_loop (c # s) =
     (if c = CHR 0x22 then [CHR 0x5C, CHR 0x22] @ quote_loop s
      else if c = CHR 0x5C then [CHR 0x5C, CHR 0x5C] @ quote_loop s
      else if c = CHR 0x08 then [CHR 0x5C, CHR ''b''] @ quote_loop s
      else if c = CHR 0x0C then [CHR 0x5C, CHR ''f''] @ quote_loop s
      else if c = CHR 0x0A then [CHR 0x5C, CHR ''n''] @ quote_loop s
      else if c = CHR 0x0D then [CHR 0x5C, CHR ''r''] @ quote_loop s
      else if c = CHR 0x09 then [CHR 0x5C, CHR ''t''] @ quote_loop s
      else quote_char (fst (utf8ToCodepoint c s)) @ quote_loop (drop (snd (utf8ToCodepoint c s)) s))"
  by pat_completeness auto
termination
  by (relation "measure length") auto

definition valueToQuotedStringN :: "string \<Rightarrow> string" where
  "valueToQuotedStringN s =
     (if \<not> isAnyCharRequiredQuoting s then [CHR 0x22] @ s @ [CHR 0x22]
      else [CHR 0x22] @ quote_loop s @ [CHR 0x22])"

text \<open>The loop of \<open>FastWriter\<close> prints the separator before every element but the first.\<close>

primrec fast_loop :: "bool \<Rightarrow> string list \<Rightarrow> string" where
  "fast_loop first [] = []"
| "fast_loop first (x # xs) = (if first then [] else '','') @ x @ fast_loop False xs"

fun writeValue :: "'r real_io \<Rightarrow> 'r Json \<Rightarrow> string" where
  "writeValue io JNull = ''null''"
| "writeValue io (JInt n) = valueToString_int n"
| "writeValue io (JUint n) = uintToString n"
| "writeValue io (JReal r) = valueToString_real io 15 r"
| "writeValue io (JString s) = valueToQuotedStringN s"
| "writeValue io (JBool b) = valueToString_bool b"
| "writeValue io (JArray vs) = ''['' @ fast_loop True (map (writeValue io) vs) @ '']''"
| "writeValue io (JObject ms) =
     ''{'' @ fast_loop True (map (\<lambda>(name, v). valueToQuotedStringN name @ '':'' @ writeValue io v) ms) @ ''}''"

definition FastWriter_write :: "'r real_io \<Rightarrow> 'r Json \<Rightarrow> string" where
  "FastWriter_write io v = writeValue io v @ [CHR 0x0A]"

text \<open>
  \<open>BuiltStyledStreamWriter\<close> with the settings of the application: the default comment style \<open>All\<close>, which
  makes every array a multi-line one, and an empty indentation, which drops every line break. The loops over
  members and elements print the separator after each but the last.
\<close>

primrec styled_loop :: "string list \<Rightarrow> string" where
  "styled_loop [] = []"
| "styled_loop (x # xs) = x @ (if xs = [] then [] else '','' @ styled_loop xs)"

fun styled_writeValue :: "'r real_io \<Rightarrow> 'r Json \<Rightarrow> string" where
  "styled_writeValue io JNull = ''null''"
| "styled_writeValue io (JInt n) = valueToString_int n"
| "styled_writeValue io (JUint n) = uintToString n"
| "styled_writeValue io (JReal r) = valueToString_real io 17 r"
| "styled_writeValue io (JString s) = valueToQuotedStringN s"
| "styled_writeValue io (JBool b) = valueToString_bool b"
| "styled_writeValue io (JArray vs) =
     (if vs = [] then ''[]'' else ''['' @ styled_loop (map (styled_writeValue io) vs) @ '']'')"
| "styled_writeValue io (JObject ms) =
     (if ms = [] then ''{}''
      else ''{'' @ styled_loop (map (\<lambda>(name, v). valueToQuotedStringN name @ '':'' @ styled_writeValue io v) ms) @ ''}'')"

definition writeString :: "'r real_io \<Rightarrow> 'r Json \<Rightarrow> string" where
  "writeString io v = styled_writeValue io v"

section \<open>Text of a value\<close>

text \<open>\<open>asString\<close>: arrays and objects have none, which is the exception.\<close>

definition asString :: "'r real_io \<Rightarrow> 'r Json \<Rightarrow> string option" where
  "asString io v =
     (case v of
        JNull \<Rightarrow> Some []
      | JString s \<Rightarrow> Some s
      | JBool b \<Rightarrow> Some (valueToString_bool b)
      | JInt n \<Rightarrow> Some (valueToString_int n)
      | JUint n \<Rightarrow> Some (uintToString n)
      | JReal r \<Rightarrow> Some (valueToString_real io 17 r)
      | _ \<Rightarrow> None)"

section \<open>The two writers agree\<close>

fun no_reals :: "'r Json \<Rightarrow> bool" where
  "no_reals (JReal r) = False"
| "no_reals (JArray vs) = list_all no_reals vs"
| "no_reals (JObject ms) = list_all (\<lambda>(k, v). no_reals v) ms"
| "no_reals _ = True"

lemma fast_loop_styled: "fast_loop True xs = styled_loop xs"
proof -
  have "fast_loop False (x # xs) = '','' @ styled_loop (x # xs)" for x xs
    by (induction xs arbitrary: x) auto
  then show ?thesis
    by (cases xs; cases "tl xs") auto
qed

lemma styled_agrees: "no_reals v \<Longrightarrow> styled_writeValue io v = writeValue io v"
proof (induction v)
  case (JArray vs)
  then have eq: "map (styled_writeValue io) vs = map (writeValue io) vs"
    by (simp add: list_all_iff)
  show ?case
    by (simp add: fast_loop_styled eq del: map_eq_conv)
next
  case (JObject ms)
  have "styled_writeValue io (snd m) = writeValue io (snd m)" if "m \<in> set ms" for m
    using JObject that by (cases m) (auto simp: list_all_iff)
  then have eq: "map (\<lambda>(name, v). valueToQuotedStringN name @ '':'' @ styled_writeValue io v) ms =
      map (\<lambda>(name, v). valueToQuotedStringN name @ '':'' @ writeValue io v) ms"
    by auto
  show ?case
    using arg_cong [OF eq, of styled_loop] by (simp add: fast_loop_styled del: map_eq_conv)
qed auto

text \<open>
  C18: The two writers of the application print the same text, but for the line break at the end, whenever the
  value holds no doubles (which they print with 15 and 17 digits).
\<close>

theorem writers_agree:
  assumes "no_reals v"
  shows "FastWriter_write io v = writeString io v @ [CHR 0x0A]"
  using styled_agrees [OF assms] by (simp add: FastWriter_write_def writeString_def)

text \<open>Doubles as their texts.\<close>

definition text_io :: "string real_io" where
  "text_io = \<lparr>print_g = \<lambda>n s. s, is_nan = \<lambda>_. False, is_finite = \<lambda>_. True, is_negative = \<lambda>_. False,
     read_double = \<lambda>s. Some s\<rparr>"

theorem writers_agree_witness:
  "FastWriter_write text_io (JObject [(''a'', JArray [JInt (- 1), JNull]), (''b'', JObject [])]) =
    writeString text_io (JObject [(''a'', JArray [JInt (- 1), JNull]), (''b'', JObject [])]) @ [CHR 0x0A]"
  by (rule writers_agree) simp

end
