(* ===== verification/Json_Reader.thy ===== *)
theory Json_Reader
  imports Json_Value
begin

text \<open>
  \<open>Reader\<close> of \<open>lib/JsonCpp/jsoncpp.cpp\<close> with its default features, as the application calls it: it parses a
  document into a value, keeps what it has built when it meets an error, and goes on behind the next closing
  bracket. The position \<open>current_\<close> is the rest of the document. The list of error messages, which nobody
  reads, is not kept.
\<close>

section \<open>Tokens\<close>

datatype TokenType =
    tokenEndOfStream | tokenObjectBegin | tokenObjectEnd | tokenArrayBegin | tokenArrayEnd | tokenString
  | tokenNumber | tokenTrue | tokenFalse | tokenNull | tokenArraySeparator | tokenMemberSeparator
  | tokenComment | tokenError

definition getNextChar :: "string \<Rightarrow> char \<times> string" where
  "getNextChar s = (case s of [] \<Rightarrow> (CHR 0x00, []) | c # s \<Rightarrow> (c, s))"

definition skipSpaces :: "string \<Rightarrow> string" where
  "skipSpaces s = dropWhile (\<lambda>c. c = CHR 0x20 \<or> c = CHR 0x09 \<or> c = CHR 0x0D \<or> c = CHR 0x0A) s"

definition match_word :: "string \<Rightarrow> string \<Rightarrow> bool \<times> string" where
  "match_word pattern s =
     (if length s < length pattern then (False, s)
      else if take (length pattern) s \<noteq> pattern then (False, s)
      else (True, drop (length pattern) s))"

fun readCStyleComment :: "string \<Rightarrow> bool \<times> string" where
  "readCStyleComment (c # d # s) =
     (if c = CHR ''*'' \<and> d = CHR 0x2F then (True, s) else readCStyleComment (d # s))"
| "readCStyleComment s = (case getNextChar s of (c, s) \<Rightarrow> (c = CHR 0x2F, s))"

fun readCppStyleComment :: "string \<Rightarrow> string" where
  "readCppStyleComment [] = []"
| "readCppStyleComment (c # s) =
     (if c = CHR 0x0A then s
      else if c = CHR 0x0D then (case s of [] \<Rightarrow> [] | d # t \<Rightarrow> if d = CHR 0x0A then t else s)
      else readCppStyleComment s)"

definition readComment :: "string \<Rightarrow> bool \<times> string" where
  "readComment s =
     (case getNextChar s of (c, s) \<Rightarrow>
        if c = CHR ''*'' then readCStyleComment s
        else if c = CHR 0x2F then (True, readCppStyleComment s)
        else (False, s))"

text \<open>The first character, a digit or a minus sign, has been read.\<close>

definition readNumber :: "string \<Rightarrow> string" where
  "readNumber s =
     (let s = dropWhile is_digit s;
          s = (case s of c # t \<Rightarrow> if c = CHR ''.'' then dropWhile is_digit t else s | [] \<Rightarrow> [])
      in case s of
           [] \<Rightarrow> []
         | c # t \<Rightarrow>
             if c = CHR ''e'' \<or> c = CHR ''E'' then
               (case t of
                  [] \<Rightarrow> []
                | d # u \<Rightarrow> dropWhile is_digit (if d = CHR ''+'' \<or> d = CHR 0x2D then u else t))
             else s)"

fun readString :: "string \<Rightarrow> bool \<times> string" where
  "readString [] = (False, [])"
| "readString (c # s) =
     (if c = CHR 0x5C then (case s of [] \<Rightarrow> (False, []) | _ # t \<Rightarrow> readString t)
      else if c = CHR 0x22 then (True, s) else readString s)"

text \<open>\<open>readToken\<close> gives the type, the text from \<open>start_\<close> to \<open>end_\<close>, and the rest.\<close>

definition token_of :: "char \<Rightarrow> string \<Rightarrow> TokenType \<times> string" where
  "token_of c s =
     (let checked = (\<lambda>ty (ok, s). (if ok then ty else tokenError, s)) in
      if c = CHR ''{'' then (tokenObjectBegin, s)
      else if c = CHR ''}'' then (tokenObjectEnd, s)
      else if c = CHR ''['' then (tokenArrayBegin, s)
      else if c = CHR '']'' then (tokenArrayEnd, s)
      else if c = CHR 0x22 then checked tokenString (readString s)
      else if c = CHR 0x2F then checked tokenComment (readComment s)
      else if is_digit c \<or> c = CHR 0x2D then (tokenNumber, readNumber s)
      else if c = CHR ''t'' then checked tokenTrue (match_word ''rue'' s)
      else if c = CHR ''f'' then checked tokenFalse (match_word ''alse'' s)
      else if c = CHR ''n'' then checked tokenNull (match_word ''ull'' s)
      else if c = CHR '','' then (tokenArraySeparator, s)
      else if c = CHR '':'' then (tokenMemberSeparator, s)
      else if c = CHR 0x00 then (tokenEndOfStream, s)
      else (tokenError, s))"

definition readToken :: "string \<Rightarrow> TokenType \<times> string \<times> string" where
  "readToken s =
     (let start = skipSpaces s in
      case getNextChar start of (c, s) \<Rightarrow>
      case token_of c s of (ty, s) \<Rightarrow> (ty, take (length start - length s) start, s))"

subsection \<open>Tokens get shorter\<close>

lemma readCStyleComment_length: "readCStyleComment s = (ok, t) \<Longrightarrow> length t \<le> length s"
  by (induction s rule: readCStyleComment.induct) (auto simp: getNextChar_def split: if_splits)

lemma readCppStyleComment_length: "length (readCppStyleComment s) \<le> length s"
  by (induction s) (auto split: list.splits)

lemma readNumber_length: "length (readNumber s) \<le> length s"
proof -
  have d: "length (dropWhile is_digit t) \<le> length t" for t
    by (rule length_dropWhile_le)
  define s1 where "s1 = dropWhile is_digit s"
  define s2 where "s2 = (case s1 of c # t \<Rightarrow> if c = CHR ''.'' then dropWhile is_digit t else s1 | [] \<Rightarrow> [])"
  have 1: "length s1 \<le> length s"
    by (simp add: s1_def d)
  have 2: "length s2 \<le> length s1"
    using d by (auto simp: s2_def split: list.splits intro: le_SucI)
  have "length (readNumber s) \<le> length s2"
    unfolding readNumber_def Let_def s1_def [symmetric] s2_def [symmetric]
    using d by (auto split: list.splits intro: le_SucI)
  then show ?thesis
    using 1 2 by linarith
qed

lemma readString_length: "readString s = (ok, t) \<Longrightarrow> length t \<le> length s"
proof (induction s rule: readString.induct)
  case (2 c s)
  then show ?case
    by (auto split: if_splits list.splits)
qed simp

lemma readComment_length: "readComment s = (ok, t) \<Longrightarrow> length t \<le> length s"
  by (auto simp: readComment_def getNextChar_def intro: le_SucI readCppStyleComment_length
      dest!: readCStyleComment_length split: list.splits if_splits)

lemma match_word_length: "match_word p s = (ok, t) \<Longrightarrow> length t \<le> length s"
  by (auto simp: match_word_def split: if_splits)

lemma token_of_length: "token_of c s = (ty, t) \<Longrightarrow> length t \<le> length s"
  by (auto simp: token_of_def Let_def readNumber_length dest: readString_length readComment_length match_word_length
      split: if_splits prod.splits)

lemma readToken_length:
  assumes "readToken s = (ty, x, t)"
  shows "length t \<le> length s" "ty \<noteq> tokenEndOfStream \<Longrightarrow> length t < length s"
proof -
  obtain c u where c: "getNextChar (skipSpaces s) = (c, u)"
    by (cases "getNextChar (skipSpaces s)")
  have t: "token_of c u = (ty, t)"
    using assms c by (auto simp: readToken_def Let_def split: prod.splits)
  have s: "length (skipSpaces s) \<le> length s"
    unfolding skipSpaces_def by (rule length_dropWhile_le)
  have le: "length t \<le> length u"
    by (rule token_of_length [OF t])
  show "length t \<le> length s"
    using s le c by (auto simp: getNextChar_def split: list.splits)
  show "length t < length s" if "ty \<noteq> tokenEndOfStream"
  proof (cases "skipSpaces s")
    case Nil
    then have "c = CHR 0x00" "u = []"
      using c by (simp_all add: getNextChar_def)
    then have "ty = tokenEndOfStream"
      using t by (simp add: token_of_def is_digit_def)
    then show ?thesis
      using that by simp
  next
    case (Cons d v)
    then show ?thesis
      using s le c by (auto simp: getNextChar_def)
  qed
qed

text \<open>\<open>skipCommentTokens\<close>, and the same loop written out in \<open>readObject\<close> and \<open>readArray\<close>.\<close>

function skipCommentTokens :: "string \<Rightarrow> TokenType \<times> string \<times> string" where
  "skipCommentTokens s =
     (case readToken s of (ty, x, t) \<Rightarrow> if ty = tokenComment then skipCommentTokens t else (ty, x, t))"
  by pat_completeness auto
termination
  by (relation "measure length") (auto dest!: readToken_length(2) [OF sym])

declare skipCommentTokens.simps [simp del]

function recoverFromError :: "TokenType \<Rightarrow> string \<Rightarrow> string" where
  "recoverFromError skipUntilToken s =
     (case readToken s of (ty, x, t) \<Rightarrow>
        if ty = skipUntilToken \<or> ty = tokenEndOfStream then t else recoverFromError skipUntilToken t)"
  by pat_completeness auto
termination
  by (relation "measure (\<lambda>(_, s). length s)") (auto dest!: readToken_length(2) [OF sym])

declare recoverFromError.simps [simp del]

section \<open>Numbers and strings\<close>

text \<open>\<open>decodeNumber\<close>: the loop gives no value when the number has to be read as a double.\<close>

fun decode_digits :: "nat \<Rightarrow> nat \<Rightarrow> string \<Rightarrow> nat option" where
  "decode_digits maxIntegerValue value [] = Some value"
| "decode_digits maxIntegerValue value (c # cs) =
     (if \<not> is_digit c then None
      else let digit = digit_val c; threshold = maxIntegerValue div 10 in
        if value \<ge> threshold \<and> (value > threshold \<or> cs \<noteq> [] \<or> digit > maxIntegerValue mod 10) then None
        else decode_digits maxIntegerValue (value * 10 + digit) cs)"

definition decodeNumber :: "'r real_io \<Rightarrow> string \<Rightarrow> 'r Json option" where
  "decodeNumber io text =
     (let isNegative = (text \<noteq> [] \<and> hd text = CHR 0x2D);
          maxIntegerValue = (if isNegative then nat maxLargestInt + 1 else maxLargestUInt)
      in case decode_digits maxIntegerValue 0 (if isNegative then tl text else text) of
           None \<Rightarrow> map_option JReal (read_double io text)
         | Some value \<Rightarrow>
             Some (if isNegative then JInt (- int value)
               else if int value \<le> maxInt then JInt (int value) else JUint value))"

definition hex_val :: "char \<Rightarrow> nat option" where
  "hex_val c =
     (if is_digit c then Some (digit_val c)
      else if code (CHR ''a'') \<le> code c \<and> code c \<le> code (CHR ''f'') then Some (code c - code (CHR ''a'') + 10)
      else if code (CHR ''A'') \<le> code c \<and> code c \<le> code (CHR ''F'') then Some (code c - code (CHR ''A'') + 10)
      else None)"

fun decodeUnicodeEscapeSequence :: "string \<Rightarrow> (nat \<times> string) option" where
  "decodeUnicodeEscapeSequence (a # b # c # d # s) =
     (case (hex_val a, hex_val b, hex_val c, hex_val d) of
        (Some a, Some b, Some c, Some d) \<Rightarrow> Some (((a * 16 + b) * 16 + c) * 16 + d, s)
      | _ \<Rightarrow> None)"
| "decodeUnicodeEscapeSequence s = None"

definition decodeUnicodeCodePoint :: "string \<Rightarrow> (nat \<times> string) option" where
  "decodeUnicodeCodePoint s =
     (case decodeUnicodeEscapeSequence s of
        None \<Rightarrow> None
      | Some (unicode, s) \<Rightarrow>
          if 0xD800 \<le> unicode \<and> unicode \<le> 0xDBFF then
            (if length s < 6 then None
             else if s ! 0 = CHR 0x5C \<and> s ! 1 = CHR ''u'' then
               (case decodeUnicodeEscapeSequence (drop 2 s) of
                  None \<Rightarrow> None
                | Some (surrogatePair, s) \<Rightarrow> Some (0x10000 + (unicode mod 1024) * 1024 + surrogatePair mod 1024, s))
             else None)
          else Some (unicode, s))"

definition codePointToUTF8 :: "nat \<Rightarrow> string" where
  "codePointToUTF8 cp =
     (if cp \<le> 0x7F then [char_of cp]
      else if cp \<le> 0x7FF then [char_of (0xC0 + (cp div 64) mod 32), char_of (0x80 + cp mod 64)]
      else if cp \<le> 0xFFFF then
        [char_of (0xE0 + (cp div 4096) mod 16), char_of (0x80 + (cp div 64) mod 64), char_of (0x80 + cp mod 64)]
      else if cp \<le> 0x10FFFF then
        [char_of (0xF0 + (cp div 262144) mod 8), char_of (0x80 + (cp div 4096) mod 64),
         char_of (0x80 + (cp div 64) mod 64), char_of (0x80 + cp mod 64)]
      else [])"

definition simple_escape :: "char \<Rightarrow> char option" where
  "simple_escape c =
     (if c = CHR 0x22 then Some (CHR 0x22) else if c = CHR 0x2F then Some (CHR 0x2F)
      else if c = CHR 0x5C then Some (CHR 0x5C) else if c = CHR ''b'' then Some (CHR 0x08)
      else if c = CHR ''f'' then Some (CHR 0x0C) else if c = CHR ''n'' then Some (CHR 0x0A)
      else if c = CHR ''r'' then Some (CHR 0x0D) else if c = CHR ''t'' then Some (CHR 0x09) else None)"

lemma decodeUnicodeEscapeSequence_length:
  "decodeUnicodeEscapeSequence s = Some (u, t) \<Longrightarrow> length t < length s"
  by (induction s rule: decodeUnicodeEscapeSequence.induct) (auto split: option.splits)

lemma decodeUnicodeCodePoint_length: "decodeUnicodeCodePoint s = Some (u, t) \<Longrightarrow> length t < length s"
  by (auto simp: decodeUnicodeCodePoint_def dest!: decodeUnicodeEscapeSequence_length split: option.splits if_splits)

text \<open>\<open>decodeString\<close> on what is between the quotes.\<close>

function decode_string :: "string \<Rightarrow> string option" where
  "decode_string [] = Some []"
| "decode_string (c # s) =
     (if c = CHR 0x22 then Some []
      else if c = CHR 0x5C then
        (case s of
           [] \<Rightarrow> None
         | escape # t \<Rightarrow>
             if escape = CHR ''u'' then
               (case decodeUnicodeCodePoint t of
                  None \<Rightarrow> None
                | Some (unicode, t) \<Rightarrow> map_option (\<lambda>r. codePointToUTF8 unicode @ r) (decode_string t))
             else (case simple_escape escape of
                  None \<Rightarrow> None
                | Some d \<Rightarrow> map_option (\<lambda>r. d # r) (decode_string t)))
      else map_option (\<lambda>r. c # r) (decode_string s))"
  by pat_completeness auto
termination
  by (relation "measure length") (auto dest!: decodeUnicodeCodePoint_length)

definition decodeString :: "string \<Rightarrow> string option" where
  "decodeString text = decode_string (butlast (tl text))"

end
