(* ===== verification/Json_Parse.thy ===== *)
theory Json_Parse
  imports Json_Reader
begin

text \<open>
  \<open>readValue\<close>, \<open>readObject\<close>, \<open>readArray\<close> and \<open>parse\<close> of \<open>Reader\<close> (\<open>lib/JsonCpp/jsoncpp.cpp\<close>). A
  reader takes the value it writes into and the rest of the document and gives success, the value and the rest.
  \<open>readValue\<close> recurses on how deep the stack \<open>nodes_\<close> may still grow; \<open>None\<close> is the exception it throws when
  the limit is exceeded. The loops take one round per character at most, which is their fuel.
\<close>

section \<open>The reader\<close>

type_synonym 'r reader = "'r Json \<Rightarrow> string \<Rightarrow> (bool \<times> 'r Json \<times> string) option"

definition member :: "string \<Rightarrow> (string \<times> 'r Json) list \<Rightarrow> 'r Json" where
  "member name ms = (case map_of ms name of None \<Rightarrow> JNull | Some v \<Rightarrow> v)"

fun object_loop ::
    "'r reader \<Rightarrow> nat \<Rightarrow> string \<Rightarrow> (string \<times> 'r Json) list \<Rightarrow> string \<Rightarrow> (bool \<times> 'r Json \<times> string) option" where
  "object_loop rv 0 name ms s = None"
| "object_loop rv (Suc fuel) name ms s =
     (case skipCommentTokens s of (ty, text, s) \<Rightarrow>
        if ty = tokenObjectEnd \<and> name = [] then Some (True, JObject ms, s)
        else if ty = tokenString then
          (case decodeString text of
             None \<Rightarrow> Some (False, JObject ms, recoverFromError tokenObjectEnd s)
           | Some name \<Rightarrow>
               (case readToken s of (colon, _, s) \<Rightarrow>
                  if colon \<noteq> tokenMemberSeparator then Some (False, JObject ms, recoverFromError tokenObjectEnd s)
                  else (case rv (member name ms) s of
                      None \<Rightarrow> None
                    | Some (ok, v, s) \<Rightarrow>
                        let ms = obj_put name v ms in
                        if \<not> ok then Some (False, JObject ms, recoverFromError tokenObjectEnd s)
                        else (case readToken s of (comma, _, s) \<Rightarrow>
                          if comma \<noteq> tokenObjectEnd \<and> comma \<noteq> tokenArraySeparator \<and> comma \<noteq> tokenComment then
                            Some (False, JObject ms, recoverFromError tokenObjectEnd s)
                          else (case (if comma = tokenComment then skipCommentTokens s else (comma, [], s)) of
                              (comma, _, s) \<Rightarrow>
                                if comma = tokenObjectEnd then Some (True, JObject ms, s)
                                else object_loop rv fuel name ms s)))))
        else Some (False, JObject ms, recoverFromError tokenObjectEnd s))"

definition readObject :: "'r reader \<Rightarrow> 'r reader" where
  "readObject rv cur s = object_loop rv (Suc (length s)) [] [] s"

fun array_loop ::
    "'r reader \<Rightarrow> nat \<Rightarrow> 'r Json list \<Rightarrow> string \<Rightarrow> (bool \<times> 'r Json \<times> string) option" where
  "array_loop rv 0 vs s = None"
| "array_loop rv (Suc fuel) vs s =
     (case rv JNull s of
        None \<Rightarrow> None
      | Some (ok, v, s) \<Rightarrow>
          let vs = vs @ [v] in
          if \<not> ok then Some (False, JArray vs, recoverFromError tokenArrayEnd s)
          else (case skipCommentTokens s of (ty, _, s) \<Rightarrow>
            if ty \<noteq> tokenArraySeparator \<and> ty \<noteq> tokenArrayEnd then
              Some (False, JArray vs, recoverFromError tokenArrayEnd s)
            else if ty = tokenArrayEnd then Some (True, JArray vs, s)
            else array_loop rv fuel vs s))"

definition readArray :: "'r reader \<Rightarrow> 'r reader" where
  "readArray rv cur s =
     (case skipSpaces s of
        [] \<Rightarrow> array_loop rv (Suc (length s)) [] []
      | c # t \<Rightarrow>
          if c = CHR '']'' then Some (True, JArray [], snd (snd (readToken (c # t))))
          else array_loop rv (Suc (length s)) [] (c # t))"

primrec readValue :: "'r real_io \<Rightarrow> nat \<Rightarrow> 'r reader" where
  "readValue io 0 cur s = None"
| "readValue io (Suc depth) cur s =
     (case skipCommentTokens s of (ty, text, s) \<Rightarrow>
        (case ty of
           tokenObjectBegin \<Rightarrow> readObject (readValue io depth) cur s
         | tokenArrayBegin \<Rightarrow> readArray (readValue io depth) cur s
         | tokenNumber \<Rightarrow>
             Some (case decodeNumber io text of None \<Rightarrow> (False, cur, s) | Some v \<Rightarrow> (True, v, s))
         | tokenString \<Rightarrow>
             Some (case decodeString text of None \<Rightarrow> (False, cur, s) | Some v \<Rightarrow> (True, JString v, s))
         | tokenTrue \<Rightarrow> Some (True, JBool True, s)
         | tokenFalse \<Rightarrow> Some (True, JBool False, s)
         | tokenNull \<Rightarrow> Some (True, JNull, s)
         | _ \<Rightarrow> Some (False, cur, s)))"

definition stackLimit_g :: nat where "stackLimit_g = 1000"

text \<open>\<open>parse\<close> into a fresh root. What follows the value is not looked at.\<close>

definition parse :: "'r real_io \<Rightarrow> string \<Rightarrow> (bool \<times> 'r Json) option" where
  "parse io document = map_option (\<lambda>(ok, v, s). (ok, v)) (readValue io stackLimit_g JNull document)"

section \<open>Reading ends\<close>

lemma skipCommentTokens_length:
  assumes "skipCommentTokens s = (ty, x, t)"
  shows "length t \<le> length s \<and> (ty \<noteq> tokenEndOfStream \<longrightarrow> length t < length s)"
  using assms
proof (induction s arbitrary: ty x t rule: skipCommentTokens.induct)
  case (1 s)
  obtain ty1 x1 t1 where r: "readToken s = (ty1, x1, t1)"
    by (cases "readToken s")
  show ?case
  proof (cases "ty1 = tokenComment")
    case True
    then show ?thesis
      using 1 r readToken_length [OF r] by (fastforce simp: skipCommentTokens.simps [of s])
  next
    case False
    then show ?thesis
      using 1 r readToken_length [OF r] by (auto simp: skipCommentTokens.simps [of s])
  qed
qed

lemma recoverFromError_length: "length (recoverFromError u s) \<le> length s"
proof (induction u s rule: recoverFromError.induct)
  case (1 u s)
  obtain ty x t where r: "readToken s = (ty, x, t)"
    by (cases "readToken s")
  show ?case
    using 1 r readToken_length(1) [OF r] by (fastforce simp: recoverFromError.simps [of u s])
qed

lemma skipSpaces_length: "length (skipSpaces s) \<le> length s"
  unfolding skipSpaces_def by (rule length_dropWhile_le)

definition brackets :: "string \<Rightarrow> nat" where
  "brackets s = length (filter (\<lambda>c. c = CHR ''{'' \<or> c = CHR ''['') s)"

text \<open>What a reader promises: with fewer opening brackets than levels it returns, and gives back a suffix.\<close>

definition suffix_of :: "string \<Rightarrow> string \<Rightarrow> bool" where
  "suffix_of t s \<longleftrightarrow> (\<exists>u. s = u @ t)"

lemma suffix_refl [simp]: "suffix_of s s"
  by (simp add: suffix_of_def)

lemma suffix_trans: "suffix_of t s \<Longrightarrow> suffix_of s r \<Longrightarrow> suffix_of t r"
  by (auto simp: suffix_of_def)

lemma suffix_Cons: "suffix_of t s \<Longrightarrow> suffix_of t (c # s)"
  by (auto simp: suffix_of_def intro: exI [of _ "c # _"])

lemma suffix_Nil [simp]: "suffix_of [] s"
  by (simp add: suffix_of_def)

lemma suffix_of_Nil [simp]: "suffix_of t [] \<longleftrightarrow> t = []"
  by (auto simp: suffix_of_def)

lemma suffix_drop [simp]: "suffix_of (drop n s) s"
  unfolding suffix_of_def by (metis append_take_drop_id)

lemma suffix_dropWhile [simp]: "suffix_of (dropWhile P s) s"
  unfolding suffix_of_def by (metis takeWhile_dropWhile_id)

lemma suffix_brackets: "suffix_of t s \<Longrightarrow> brackets t \<le> brackets s"
  by (auto simp: suffix_of_def brackets_def)

lemma suffix_length: "suffix_of t s \<Longrightarrow> length t \<le> length s"
  by (auto simp: suffix_of_def)

lemma readCStyleComment_suffix: "readCStyleComment s = (ok, t) \<Longrightarrow> suffix_of t s"
  by (induction s rule: readCStyleComment.induct) (auto simp: getNextChar_def suffix_Cons split: if_splits)

lemma readCppStyleComment_suffix: "suffix_of (readCppStyleComment s) s"
  by (induction s) (auto simp: suffix_Cons split: list.splits)

lemma readString_suffix: "readString s = (ok, t) \<Longrightarrow> suffix_of t s"
proof (induction s rule: readString.induct)
  case (2 c s)
  then show ?case
    by (auto simp: suffix_Cons split: if_splits list.splits)
qed simp

lemma readNumber_suffix: "suffix_of (readNumber s) s"
proof -
  define s1 where "s1 = dropWhile is_digit s"
  define s2 where "s2 = (case s1 of c # t \<Rightarrow> if c = CHR ''.'' then dropWhile is_digit t else s1 | [] \<Rightarrow> [])"
  have 1: "suffix_of s1 s"
    by (simp add: s1_def)
  have 2: "suffix_of s2 s1"
    by (auto simp: s2_def suffix_Cons split: list.splits)
  have "suffix_of (readNumber s) s2"
    unfolding readNumber_def Let_def s1_def [symmetric] s2_def [symmetric]
    by (auto simp: suffix_Cons split: list.splits)
  then show ?thesis
    using 1 2 suffix_trans by blast
qed

lemma token_of_suffix: "token_of c s = (ty, t) \<Longrightarrow> suffix_of t s"
  by (auto simp: token_of_def Let_def readNumber_suffix readComment_def getNextChar_def match_word_def suffix_Cons
      dest: readString_suffix readCStyleComment_suffix
      split: if_splits prod.splits list.splits intro: suffix_trans [OF readCppStyleComment_suffix])

lemma readToken_suffix: "readToken s = (ty, x, t) \<Longrightarrow> suffix_of t s"
proof -
  assume a: "readToken s = (ty, x, t)"
  obtain c u where c: "getNextChar (skipSpaces s) = (c, u)"
    by (cases "getNextChar (skipSpaces s)")
  have t: "token_of c u = (ty, t)"
    using a c by (auto simp: readToken_def Let_def split: prod.splits)
  have "suffix_of u (skipSpaces s)" "suffix_of (skipSpaces s) s"
    using c by (auto simp: getNextChar_def skipSpaces_def suffix_Cons split: list.splits)
  then show ?thesis
    using token_of_suffix [OF t] suffix_trans by blast
qed

text \<open>An opening token takes its bracket with it.\<close>

lemma readToken_brackets:
  assumes "readToken s = (ty, x, t)" "ty = tokenObjectBegin \<or> ty = tokenArrayBegin"
  shows "brackets t < brackets s"
proof -
  obtain c u where c: "getNextChar (skipSpaces s) = (c, u)"
    by (cases "getNextChar (skipSpaces s)")
  have t: "token_of c u = (ty, t)"
    using assms(1) c by (auto simp: readToken_def Let_def split: prod.splits)
  have "t = u" "c = CHR ''{'' \<or> c = CHR ''[''"
    using t assms(2) by (auto simp: token_of_def Let_def split: if_splits prod.splits)
  moreover have "skipSpaces s = c # u"
    using c \<open>c = _ \<or> _\<close> by (auto simp: getNextChar_def split: list.splits)
  ultimately have "brackets t < brackets (skipSpaces s)"
    by (auto simp: brackets_def)
  also have "brackets (skipSpaces s) \<le> brackets s"
    by (rule suffix_brackets) (simp add: skipSpaces_def)
  finally show ?thesis .
qed

lemma skipCommentTokens_suffix: "skipCommentTokens s = (ty, x, t) \<Longrightarrow> suffix_of t s"
proof (induction s arbitrary: ty x t rule: skipCommentTokens.induct)
  case (1 s)
  obtain ty1 x1 t1 where r: "readToken s = (ty1, x1, t1)"
    by (cases "readToken s")
  show ?case
  proof (cases "ty1 = tokenComment")
    case True
    then have "suffix_of t t1"
      using 1 r by (simp add: skipCommentTokens.simps [of s])
    then show ?thesis
      using readToken_suffix [OF r] suffix_trans by blast
  next
    case False
    then show ?thesis
      using 1 r readToken_suffix [OF r] by (simp add: skipCommentTokens.simps [of s])
  qed
qed

lemma skipCommentTokens_brackets:
  "skipCommentTokens s = (ty, x, t) \<Longrightarrow> ty = tokenObjectBegin \<or> ty = tokenArrayBegin \<Longrightarrow> brackets t < brackets s"
proof (induction s arbitrary: ty x t rule: skipCommentTokens.induct)
  case (1 s)
  obtain ty1 x1 t1 where r: "readToken s = (ty1, x1, t1)"
    by (cases "readToken s")
  show ?case
  proof (cases "ty1 = tokenComment")
    case True
    then have "brackets t < brackets t1"
      using 1 r by (simp add: skipCommentTokens.simps [of s])
    then show ?thesis
      using suffix_brackets [OF readToken_suffix [OF r]] by simp
  next
    case False
    then show ?thesis
      using 1 r readToken_brackets [OF r] by (simp add: skipCommentTokens.simps [of s])
  qed
qed

lemma recoverFromError_suffix: "suffix_of (recoverFromError u s) s"
proof (induction u s rule: recoverFromError.induct)
  case (1 u s)
  obtain ty x t where r: "readToken s = (ty, x, t)"
    by (cases "readToken s")
  show ?case
  proof (cases "ty = u \<or> ty = tokenEndOfStream")
    case False
    then have "suffix_of (recoverFromError u t) t"
      using 1 r by simp
    then show ?thesis
      using r False readToken_suffix [OF r] suffix_trans by (auto simp: recoverFromError.simps [of u s])
  qed (use r readToken_suffix [OF r] in \<open>auto simp: recoverFromError.simps [of u s]\<close>)
qed

definition returns :: "nat \<Rightarrow> 'r reader \<Rightarrow> bool" where
  "returns n rv \<longleftrightarrow>
     (\<forall>cur s. brackets s < n \<longrightarrow> (\<exists>ok v t. rv cur s = Some (ok, v, t) \<and> suffix_of t s \<and> (ok \<longrightarrow> length t < length s)))"

lemma returnsD:
  "returns n rv \<Longrightarrow> brackets s < n \<Longrightarrow>
    \<exists>ok v t. rv cur s = Some (ok, v, t) \<and> suffix_of t s \<and> (ok \<longrightarrow> length t < length s)"
  by (simp add: returns_def)

lemma array_loop_returns:
  assumes "returns n rv"
  shows "brackets s < n \<Longrightarrow> length s < fuel \<Longrightarrow> \<exists>ok v t. array_loop rv fuel vs s = Some (ok, v, t) \<and> suffix_of t s"
proof (induction fuel arbitrary: vs s)
  case (Suc fuel)
  obtain ok v t where r: "rv JNull s = Some (ok, v, t)" "suffix_of t s" "ok \<Longrightarrow> length t < length s"
    using returnsD [OF assms Suc.prems(1), of JNull] by blast
  obtain ty x u where k: "skipCommentTokens t = (ty, x, u)"
    by (cases "skipCommentTokens t")
  have u: "suffix_of u t" "suffix_of u s"
    using skipCommentTokens_suffix [OF k] r(2) suffix_trans by blast+
  have rec: "suffix_of (recoverFromError e t) s" "suffix_of (recoverFromError e u) s" for e
    using recoverFromError_suffix [of e t] recoverFromError_suffix [of e u] r(2) u(2) suffix_trans by blast+
  show ?case
  proof (cases "ok \<and> ty = tokenArraySeparator")
    case True
    then have "length u < fuel" "brackets u < n"
      using r(3) u suffix_length [OF u(1)] suffix_brackets [OF u(2)] Suc.prems by auto
    then show ?thesis
      using Suc.IH [of u "vs @ [v]"] True r(1) k u(2) suffix_trans by (fastforce simp: Let_def)
  next
    case False
    then show ?thesis
      using r(1,2) k u rec by (cases ok; cases "ty = tokenArrayEnd") (auto simp: Let_def)
  qed
qed simp

lemma object_loop_returns:
  assumes "returns n rv"
  shows "brackets s < n \<Longrightarrow> length s < fuel \<Longrightarrow> \<exists>ok v t. object_loop rv fuel name ms s = Some (ok, v, t) \<and> suffix_of t s"
proof (induction fuel arbitrary: name ms s)
  case (Suc fuel)
  obtain ty tx s1 where 1: "skipCommentTokens s = (ty, tx, s1)"
    by (cases "skipCommentTokens s")
  have s1: "suffix_of s1 s"
    using skipCommentTokens_suffix [OF 1] .
  have rec: "suffix_of (recoverFromError e t) s" if "suffix_of t s" for e t
    using recoverFromError_suffix that suffix_trans by blast
  show ?case
  proof (cases "ty = tokenString")
    case False
    then show ?thesis
      using 1 s1 rec [OF s1] by auto
  next
    case True
    show ?thesis
    proof (cases "decodeString tx")
      case None
      then show ?thesis
        using 1 True rec [OF s1] by auto
    next
      case (Some nm)
      obtain colon y s2 where 2: "readToken s1 = (colon, y, s2)"
        by (cases "readToken s1")
      have s2: "suffix_of s2 s"
        using readToken_suffix [OF 2] s1 suffix_trans by blast
      show ?thesis
      proof (cases "colon = tokenMemberSeparator")
        case False
        then show ?thesis
          using 1 True Some 2 rec [OF s2] by auto
      next
        case colon: True
        have "brackets s2 < n"
          using suffix_brackets [OF s2] Suc.prems(1) by simp
        then obtain ok v s3 where 3: "rv (member nm ms) s2 = Some (ok, v, s3)" "suffix_of s3 s2" "ok \<Longrightarrow> length s3 < length s2"
          using returnsD [OF assms] by blast
        have s3: "suffix_of s3 s"
          using 3(2) s2 suffix_trans by blast
        obtain comma z s4 where 4: "readToken s3 = (comma, z, s4)"
          by (cases "readToken s3")
        have s4: "suffix_of s4 s3" "suffix_of s4 s"
          using readToken_suffix [OF 4] s3 suffix_trans by blast+
        obtain comma' z' s5 where 5: "(if comma = tokenComment then skipCommentTokens s4 else (comma, [], s4)) = (comma', z', s5)"
          by (cases "if comma = tokenComment then skipCommentTokens s4 else (comma, [], s4)")
        have s5: "suffix_of s5 s4" "suffix_of s5 s"
          using 5 skipCommentTokens_suffix s4(2) suffix_trans by (fastforce split: if_splits)+
        show ?thesis
        proof (cases "ok")
          case False
          then show ?thesis
            using 1 True Some 2 colon 3(1) rec [OF s3] by auto
        next
          case ok: True
          have "length s5 < fuel" "brackets s5 < n"
            using 3(3) [OF ok] suffix_length [OF s2] suffix_length [OF s4(1)] suffix_length [OF s5(1)] Suc.prems
              suffix_brackets [OF s5(2)] by auto
          then obtain ok' v' t where "object_loop rv fuel nm (obj_put nm v ms) s5 = Some (ok', v', t)" "suffix_of t s"
            using Suc.IH [of s5 nm "obj_put nm v ms"] s5(2) suffix_trans by blast
          then show ?thesis
            using 1 True Some 2 colon 3(1) ok 4 5 s5 rec [OF s4(2)] by (auto simp: Let_def split: if_splits)
        qed
      qed
    qed
  qed
qed simp

lemma readValue_returns: "returns n (readValue io n)"
proof (induction n)
  case 0
  then show ?case
    by (simp add: returns_def)
next
  case (Suc n)
  show ?case
    unfolding returns_def
  proof (intro allI impI)
    fix cur s
    assume o: "brackets s < Suc n"
    obtain ty tx t where k: "skipCommentTokens s = (ty, tx, t)"
      by (cases "skipCommentTokens s")
    have t: "suffix_of t s" "ty \<noteq> tokenEndOfStream \<Longrightarrow> length t < length s"
      using skipCommentTokens_suffix [OF k] skipCommentTokens_length [OF k] by simp_all
    show "\<exists>ok v u. readValue io (Suc n) cur s = Some (ok, v, u) \<and> suffix_of u s \<and> (ok \<longrightarrow> length u < length s)"
    proof (cases "ty = tokenObjectBegin \<or> ty = tokenArrayBegin")
      case False
      then show ?thesis
        using k t by (cases ty) (auto split: option.splits)
    next
      case True
      then have n: "brackets t < n" "length t < length s"
        using skipCommentTokens_brackets [OF k True] o t(2) by auto
      have sp: "suffix_of (skipSpaces t) t"
        by (simp add: skipSpaces_def)
      have "\<exists>ok v u. readArray (readValue io n) cur t = Some (ok, v, u) \<and> suffix_of u t"
      proof (cases "skipSpaces t")
        case Nil
        then show ?thesis
          using array_loop_returns [OF Suc, of "[]" "Suc (length t)" "[]"] n(1)
          by (auto simp: readArray_def brackets_def simp del: array_loop.simps)
      next
        case (Cons c v)
        obtain ty2 x2 u where r: "readToken (c # v) = (ty2, x2, u)"
          by (cases "readToken (c # v)")
        have "brackets (c # v) < n" "length (c # v) < Suc (length t)"
          using suffix_brackets [OF sp] suffix_length [OF sp] n(1) Cons by auto
        then show ?thesis
          using array_loop_returns [OF Suc, of "c # v" "Suc (length t)" "[]"] r readToken_suffix [OF r] sp Cons suffix_trans
          by (auto simp: readArray_def simp del: array_loop.simps)
      qed
      moreover have "\<exists>ok v u. readObject (readValue io n) cur t = Some (ok, v, u) \<and> suffix_of u t"
        unfolding readObject_def using object_loop_returns [OF Suc n(1), of "Suc (length t)"] by (simp del: object_loop.simps)
      ultimately show ?thesis
        using True k n(2) t(1) suffix_trans suffix_length by (fastforce simp: le_less_trans)
    qed
  qed
qed

text \<open>
  C7: Parsing ends, with a value and without an exception, on every document, well formed or not, that has
  fewer than 1000 opening brackets in all (of both kinds, nested or not, those inside texts counted).
\<close>

theorem parse_returns:
  assumes "brackets document < 1000"
  shows "\<exists>ok v. parse io document = Some (ok, v)"
  using returnsD [OF readValue_returns, of document stackLimit_g io JNull] assms
  by (auto simp: parse_def stackLimit_g_def)

theorem parse_returns_witness:
  "\<exists>ok v. parse text_io ''{\"a\":[1,}'' = Some (ok, v)"
  by (rule parse_returns) (simp add: brackets_def)

end
