(* ===== verification/Json_Roundtrip.thy ===== *)
theory Json_Roundtrip
  imports Json_Parse
begin

text \<open>
  What \<open>FastWriter\<close> prints is what \<open>Reader\<close> reads, and what \<open>Reader\<close> builds is well formed.
\<close>

section \<open>Strings\<close>

definition ascii :: "string \<Rightarrow> bool" where
  "ascii s \<longleftrightarrow> (\<forall>c \<in> set s. code c < 128)"

lemma code_char_of [simp]: "n < 256 \<Longrightarrow> code (char_of n) = n"
  by (simp add: code_def of_char_of)

lemma char_of_code [simp]: "char_of (code c) = c"
  by (simp add: code_def)

lemma code_eq_iff: "code c = code d \<longleftrightarrow> c = d"
  by (simp add: code_def)

lemma hex_val_digit: "d < 16 \<Longrightarrow> hex_val (digit_char d) = Some d"
proof -
  assume "d < 16"
  then have "d = 0 \<or> d = 1 \<or> d = 2 \<or> d = 3 \<or> d = 4 \<or> d = 5 \<or> d = 6 \<or> d = 7 \<or> d = 8 \<or> d = 9 \<or>
      d = 10 \<or> d = 11 \<or> d = 12 \<or> d = 13 \<or> d = 14 \<or> d = 15"
    by arith
  then show ?thesis
    by (elim disjE) (simp_all add: digit_char_def hex_val_def is_digit_def digit_val_def code_def)
qed

lemma digit_char_plain: "d < 16 \<Longrightarrow> digit_char d \<noteq> CHR 0x22 \<and> digit_char d \<noteq> CHR 0x5C"
  using hex_val_digit [of d] by (auto simp: hex_val_def is_digit_def code_def split: if_splits)

lemma utf8_ascii: "code c < 128 \<Longrightarrow> utf8ToCodepoint c s = (code c, 0)"
  by (simp add: utf8ToCodepoint_def)

text \<open>The cases of the loop of \<open>valueToQuotedStringN\<close> on one character.\<close>

lemma quote_cases:
  assumes "code c < 128"
  obtains (escape) d where "simple_escape d = Some c" "d \<noteq> CHR ''u''" "\<And>s. quote_loop (c # s) = CHR 0x5C # d # quote_loop s"
  | (plain) "c \<noteq> CHR 0x22" "c \<noteq> CHR 0x5C" "\<And>s. quote_loop (c # s) = c # quote_loop s"
  | (hex) "\<And>s. quote_loop (c # s) = CHR 0x5C # CHR ''u'' # toHex16Bit (code c) @ quote_loop s"
proof -
  have u: "fst (utf8ToCodepoint c s) = code c" "snd (utf8ToCodepoint c s) = 0" for s
    using assms by (simp_all add: utf8_ascii)
  consider "c = CHR 0x22" | "c = CHR 0x5C" | "c = CHR 0x08" | "c = CHR 0x0C" | "c = CHR 0x0A" | "c = CHR 0x0D" | "c = CHR 0x09"
    | "c \<noteq> CHR 0x22" "c \<noteq> CHR 0x5C" "c \<noteq> CHR 0x08" "c \<noteq> CHR 0x0C" "c \<noteq> CHR 0x0A" "c \<noteq> CHR 0x0D" "c \<noteq> CHR 0x09" "code c \<ge> 0x20"
    | "c \<noteq> CHR 0x22" "c \<noteq> CHR 0x5C" "c \<noteq> CHR 0x08" "c \<noteq> CHR 0x0C" "c \<noteq> CHR 0x0A" "c \<noteq> CHR 0x0D" "c \<noteq> CHR 0x09" "code c < 0x20"
    by linarith
  then show thesis
  proof cases
    case 1
    show thesis
      by (rule escape [of "CHR 0x22"]) (simp_all add: 1 simple_escape_def)
  next
    case 2
    show thesis
      by (rule escape [of "CHR 0x5C"]) (simp_all add: 2 simple_escape_def)
  next
    case 3
    show thesis
      by (rule escape [of "CHR ''b''"]) (simp_all add: 3 simple_escape_def)
  next
    case 4
    show thesis
      by (rule escape [of "CHR ''f''"]) (simp_all add: 4 simple_escape_def)
  next
    case 5
    show thesis
      by (rule escape [of "CHR ''n''"]) (simp_all add: 5 simple_escape_def)
  next
    case 6
    show thesis
      by (rule escape [of "CHR ''r''"]) (simp_all add: 6 simple_escape_def)
  next
    case 7
    show thesis
      by (rule escape [of "CHR ''t''"]) (simp_all add: 7 simple_escape_def)
  next
    case 8
    show thesis
      by (rule plain) (use 8 assms in \<open>simp_all add: u quote_char_def\<close>)
  next
    case 9
    show thesis
      by (rule hex) (use 9 assms in \<open>simp_all add: u quote_char_def\<close>)
  qed
qed

lemma hex_digits:
  assumes "n < 128"
  shows "toHex16Bit n = [digit_char 0, digit_char 0, digit_char (n div 16), digit_char (n mod 16)]" "n div 16 < 16"
  using assms by (simp_all add: toHex16Bit_def)

lemma hex_value: "((0 * 16 + 0) * 16 + n div 16) * 16 + n mod 16 = (n :: nat)"
  by simp

lemma decode_quote: "ascii s \<Longrightarrow> decode_string (quote_loop s) = Some s"
proof (induction s)
  case (Cons c s)
  have c: "code c < 128" and s: "decode_string (quote_loop s) = Some s"
    using Cons by (auto simp: ascii_def)
  show ?case
  proof (cases rule: quote_cases [OF c])
    case (1 d)
    then show ?thesis
      using s by simp
  next
    case 2
    then show ?thesis
      using s by simp
  next
    case 3
    have "decodeUnicodeEscapeSequence (toHex16Bit (code c) @ quote_loop s) = Some (code c, quote_loop s)"
      using c hex_digits(2) [OF c] by (simp add: hex_digits(1) [OF c] hex_val_digit)
    then have "decodeUnicodeCodePoint (toHex16Bit (code c) @ quote_loop s) = Some (code c, quote_loop s)"
      using c by (simp add: decodeUnicodeCodePoint_def)
    then show ?thesis
      using 3 s c by (simp add: codePointToUTF8_def)
  qed
qed simp

lemma readString_quote: "ascii s \<Longrightarrow> readString (quote_loop s @ CHR 0x22 # rest) = (True, rest)"
proof (induction s)
  case (Cons c s)
  have c: "code c < 128" and s: "readString (quote_loop s @ CHR 0x22 # rest) = (True, rest)"
    using Cons by (auto simp: ascii_def)
  show ?case
  proof (cases rule: quote_cases [OF c])
    case 3
    have "code c div 16 < 16" "code c mod 16 < 16"
      using hex_digits(2) [OF c] by simp_all
    then show ?thesis
      using 3 s digit_char_plain [of 0] digit_char_plain [of "code c div 16"] digit_char_plain [of "code c mod 16"]
      by (simp add: hex_digits(1) [OF c])
  qed (use s in simp_all)
qed simp

lemma quoted_string: "ascii s \<Longrightarrow> valueToQuotedStringN s = CHR 0x22 # quote_loop s @ [CHR 0x22]"
  by (cases s) (auto simp: valueToQuotedStringN_def isAnyCharRequiredQuoting_def ascii_def)

section \<open>Tokens\<close>

lemma skip_token: "readToken s = (ty, x, t) \<Longrightarrow> ty \<noteq> tokenComment \<Longrightarrow> skipCommentTokens s = (ty, x, t)"
  by (simp add: skipCommentTokens.simps [of s])

lemma readToken_Cons:
  assumes "c \<notin> {CHR 0x20, CHR 0x09, CHR 0x0D, CHR 0x0A}" "token_of c s = (ty, t)"
  shows "readToken (c # s) = (ty, take (Suc (length s) - length t) (c # s), t)"
  using assms by (simp add: readToken_def skipSpaces_def getNextChar_def)

lemma token_chars:
  "readToken (CHR '','' # s) = (tokenArraySeparator, '','', s)"
  "readToken (CHR '':'' # s) = (tokenMemberSeparator, '':'', s)"
  "readToken (CHR '']'' # s) = (tokenArrayEnd, '']'', s)"
  "readToken (CHR ''['' # s) = (tokenArrayBegin, ''['', s)"
  "readToken (CHR ''{'' # s) = (tokenObjectBegin, ''{'', s)"
  "readToken (CHR ''}'' # s) = (tokenObjectEnd, ''}'', s)"
  by (simp_all add: readToken_def skipSpaces_def getNextChar_def token_of_def is_digit_def)

lemma token_words:
  "readToken (''true'' @ s) = (tokenTrue, ''true'', s)"
  "readToken (''false'' @ s) = (tokenFalse, ''false'', s)"
  "readToken (''null'' @ s) = (tokenNull, ''null'', s)"
  by (simp_all add: readToken_def skipSpaces_def getNextChar_def token_of_def match_word_def is_digit_def)

lemma token_string:
  assumes "ascii s"
  shows "readToken (valueToQuotedStringN s @ rest) = (tokenString, valueToQuotedStringN s, rest)"
    "decodeString (valueToQuotedStringN s) = Some s"
proof -
  have "token_of (CHR 0x22) (quote_loop s @ CHR 0x22 # rest) = (tokenString, rest)"
    using readString_quote [OF assms] by (simp add: token_of_def)
  from readToken_Cons [OF _ this]
  show "readToken (valueToQuotedStringN s @ rest) = (tokenString, valueToQuotedStringN s, rest)"
    by (simp add: quoted_string [OF assms])
  show "decodeString (valueToQuotedStringN s) = Some s"
    by (simp add: decodeString_def quoted_string [OF assms] decode_quote [OF assms])
qed

section \<open>Numbers\<close>

text \<open>What may stand behind a number.\<close>

definition delimits :: "string \<Rightarrow> bool" where
  "delimits s \<longleftrightarrow> s = [] \<or> hd s \<in> {CHR '','', CHR '']'', CHR ''}'', CHR 0x0A}"

lemma delimits_Cons:
  assumes "delimits (c # s)"
  shows "\<not> is_digit c" "c \<noteq> CHR ''.''" "c \<noteq> CHR ''e''" "c \<noteq> CHR ''E''"
  using assms by (auto simp: delimits_def is_digit_def)

lemma readNumber_digits:
  assumes "\<forall>c \<in> set ds. is_digit c" "delimits rest"
  shows "readNumber (ds @ rest) = rest"
proof -
  have dw: "dropWhile is_digit (ds @ rest) = rest"
    using assms delimits_Cons by (cases rest) (auto simp: dropWhile_append3)
  show ?thesis
    unfolding readNumber_def dw Let_def using assms(2) delimits_Cons by (cases rest) auto
qed

lemma readToken_number:
  assumes "is_digit c \<or> c = CHR 0x2D" "readNumber (cs @ rest) = rest"
  shows "readToken ((c # cs) @ rest) = (tokenNumber, c # cs, rest)"
proof -
  have c: "c \<notin> {CHR 0x20, CHR 0x09, CHR 0x0D, CHR 0x0A}" "c \<notin> {CHR ''{'', CHR ''}'', CHR ''['', CHR '']'', CHR 0x22, CHR 0x2F}"
    using assms(1) by (auto simp: is_digit_def)
  then have "token_of c (cs @ rest) = (tokenNumber, rest)"
    using assms by (auto simp: token_of_def)
  from readToken_Cons [OF c(1) this] show ?thesis
    by simp
qed

lemma foldl_digits_mono: "(v :: nat) \<le> foldl (\<lambda>n c. 10 * n + digit_val c) v cs"
proof (induction cs arbitrary: v)
  case (Cons c cs)
  show ?case
    using Cons [of "10 * v + digit_val c"] by simp
qed simp

lemma decode_digits_fits:
  assumes "10 \<le> M"
  shows "\<forall>c \<in> set ds. is_digit c \<Longrightarrow> foldl (\<lambda>n c. 10 * n + digit_val c) v ds \<le> M \<Longrightarrow>
    decode_digits M v ds = Some (foldl (\<lambda>n c. 10 * n + digit_val c) v ds)"
proof (induction ds arbitrary: v)
  case (Cons c cs)
  define d where "d = digit_val c"
  have le: "10 * v + d \<le> M"
    using Cons.prems(2) foldl_digits_mono [of "10 * v + d" cs] by (simp add: d_def)
  have "\<not> (v \<ge> M div 10 \<and> (v > M div 10 \<or> cs \<noteq> [] \<or> d > M mod 10))"
  proof (rule notI)
    assume a: "v \<ge> M div 10 \<and> (v > M div 10 \<or> cs \<noteq> [] \<or> d > M mod 10)"
    have "v \<le> M div 10"
      using le by arith
    with a have v: "v = M div 10"
      by linarith
    have "M = 10 * v + M mod 10"
      by (simp add: v)
    then have "d \<le> M mod 10"
      using le by linarith
    with a v obtain e es where cs: "cs = e # es"
      by (cases cs) auto
    have "100 * v + 10 * d \<le> M"
      using Cons.prems(2) foldl_digits_mono [of "10 * (10 * v + d) + digit_val e" es] by (simp add: cs d_def)
    moreover have "M < 10 * v + 10" "1 \<le> v"
      using v assms by arith+
    ultimately show False
      by linarith
  qed
  then show ?case
    using Cons by (simp add: Let_def d_def mult.commute)
qed simp

lemma decode_digits_show: "10 \<le> M \<Longrightarrow> n \<le> M \<Longrightarrow> decode_digits M 0 (show_nat 10 n) = Some n"
  using decode_digits_fits [of M "show_nat 10 n" 0] show_nat_digits [of _ n] read_show_nat [of n]
  by (auto simp: read_nat_def)

lemma number_text:
  assumes "delimits rest" "minLargestInt \<le> n" "n \<le> maxLargestInt"
  shows "readToken (valueToString_int n @ rest) = (tokenNumber, valueToString_int n, rest)"
    "decodeNumber io (valueToString_int n) = Some (if n \<le> maxInt then JInt n else JUint (nat n))"
proof -
  obtain c cs where c: "show_nat 10 (nat n) = c # cs" "is_digit c"
    using show_nat_Cons by blast
  have cs: "\<forall>c \<in> set cs. is_digit c" "\<forall>c \<in> set (show_nat 10 m). is_digit c" for m
    using show_nat_digits [of _ "nat n"] show_nat_digits [of _ m] c(1) by auto
  show "readToken (valueToString_int n @ rest) = (tokenNumber, valueToString_int n, rest)"
    using readToken_number [of c cs rest] readToken_number [of "CHR 0x2D" "show_nat 10 (nat (- n))" rest]
      readNumber_digits [OF cs(1) assms(1)] readNumber_digits [OF cs(2) assms(1)] c
    by (auto simp: valueToString_int_def uintToString_def)
  have "c \<noteq> CHR 0x2D"
    using c(2) by (auto simp: is_digit_def)
  then show "decodeNumber io (valueToString_int n) = Some (if n \<le> maxInt then JInt n else JUint (nat n))"
    using assms(2,3) decode_digits_show [of maxLargestUInt "nat n"] decode_digits_show [of "nat maxLargestInt + 1" "nat (- n)"] c(1)
    by (auto simp: decodeNumber_def valueToString_int_def uintToString_def Let_def maxLargestInt_def minLargestInt_def
        maxLargestUInt_def maxInt_def)
qed

lemma unsigned_text:
  assumes "delimits rest" "n \<le> maxLargestUInt"
  shows "readToken (uintToString n @ rest) = (tokenNumber, uintToString n, rest)"
    "decodeNumber io (uintToString n) = Some (if int n \<le> maxInt then JInt (int n) else JUint n)"
proof -
  obtain c cs where c: "show_nat 10 n = c # cs" "is_digit c"
    using show_nat_Cons by blast
  have cs: "\<forall>c \<in> set cs. is_digit c"
    using show_nat_digits [of _ n] c(1) by auto
  show "readToken (uintToString n @ rest) = (tokenNumber, uintToString n, rest)"
    using readToken_number [of c cs rest] readNumber_digits [OF cs assms(1)] c by (auto simp: uintToString_def)
  have "c \<noteq> CHR 0x2D"
    using c(2) by (auto simp: is_digit_def)
  then show "decodeNumber io (uintToString n) = Some (if int n \<le> maxInt then JInt (int n) else JUint n)"
    using assms(2) decode_digits_show [of maxLargestUInt n] c(1)
    by (auto simp: decodeNumber_def uintToString_def Let_def maxLargestUInt_def)
qed

section \<open>Values that survive\<close>

text \<open>A double survives if its text is a number that is read as this double.\<close>

definition real_ok :: "'r real_io \<Rightarrow> 'r \<Rightarrow> bool" where
  "real_ok io r \<longleftrightarrow>
     (case valueToString_real io 15 r of
        [] \<Rightarrow> False
      | c # cs \<Rightarrow> (is_digit c \<or> c = CHR 0x2D) \<and> (\<forall>rest. delimits rest \<longrightarrow> readNumber (cs @ rest) = rest) \<and>
          decodeNumber io (c # cs) = Some (JReal r))"

fun json_ok :: "'r real_io \<Rightarrow> 'r Json \<Rightarrow> bool" where
  "json_ok io (JInt n) \<longleftrightarrow> minLargestInt \<le> n \<and> n \<le> maxLargestInt"
| "json_ok io (JUint n) \<longleftrightarrow> n \<le> maxLargestUInt"
| "json_ok io (JReal r) \<longleftrightarrow> real_ok io r"
| "json_ok io (JString s) \<longleftrightarrow> ascii s"
| "json_ok io (JArray vs) \<longleftrightarrow> list_all (json_ok io) vs"
| "json_ok io (JObject ms) \<longleftrightarrow> sorted_wrt (<) (map fst ms) \<and> list_all (\<lambda>(k, v). ascii k \<and> json_ok io v) ms"
| "json_ok io _ \<longleftrightarrow> True"

fun depth :: "'r Json \<Rightarrow> nat" where
  "depth (JArray vs) = Suc (foldr (\<lambda>v n. max (depth v) n) vs 0)"
| "depth (JObject ms) = Suc (foldr (\<lambda>(k, v) n. max (depth v) n) ms 0)"
| "depth _ = 1"

text \<open>Small integers come back as signed, large ones as unsigned.\<close>

fun normal :: "'r Json \<Rightarrow> 'r Json" where
  "normal (JInt n) = (if n \<le> maxInt then JInt n else JUint (nat n))"
| "normal (JUint n) = (if int n \<le> maxInt then JInt (int n) else JUint n)"
| "normal (JArray vs) = JArray (map normal vs)"
| "normal (JObject ms) = JObject (map (\<lambda>(k, v). (k, normal v)) ms)"
| "normal v = v"

lemma depth_foldr: "v \<in> set vs \<Longrightarrow> depth v \<le> foldr (\<lambda>v n. max (depth v) n) vs 0"
  by (induction vs) auto

lemma depth_foldr_members: "(k, v) \<in> set ms \<Longrightarrow> depth v \<le> foldr (\<lambda>(k, v) n. max (depth v) n) ms 0"
  by (induction ms) auto

lemma fast_loop_concat: "fast_loop False (map f xs) = concat (map (\<lambda>y. CHR '','' # f y) xs)"
  by (induction xs) auto

lemma length_concat_commas: "length xs \<le> length (concat (map (\<lambda>y. CHR '','' # f y) xs))"
  by (induction xs) auto

definition reads :: "'r reader \<Rightarrow> string \<Rightarrow> 'r Json \<Rightarrow> bool" where
  "reads rv t v \<longleftrightarrow> (\<forall>cur rest. delimits rest \<longrightarrow> rv cur (t @ rest) = Some (True, v, rest))"

lemma readsD: "reads rv t v \<Longrightarrow> delimits rest \<Longrightarrow> rv cur (t @ rest) = Some (True, v, rest)"
  by (simp add: reads_def)

lemma delimits_simps [simp]: "delimits (CHR '','' # s)" "delimits (CHR '']'' # s)" "delimits (CHR ''}'' # s)"
  "delimits (CHR 0x0A # s)" "delimits []"
  by (simp_all add: delimits_def)

lemma array_loop_reads:
  assumes "\<forall>w \<in> set (v # vs). reads rv (write w) (nrm w)" "length vs < fuel"
  shows "array_loop rv fuel acc (write v @ concat (map (\<lambda>w. CHR '','' # write w) vs) @ CHR '']'' # rest) =
    Some (True, JArray (acc @ map nrm (v # vs)), rest)"
  using assms
proof (induction vs arbitrary: v acc fuel)
  case Nil
  then obtain f where "fuel = Suc f"
    by (cases fuel) auto
  then show ?case
    using Nil readsD [of rv "write v" "nrm v" "CHR '']'' # rest" JNull]
    by (simp add: skip_token [OF token_chars(3)])
next
  case (Cons w ws)
  obtain f where f: "fuel = Suc f" "length ws < f"
    using Cons.prems(2) by (cases fuel) auto
  have "rv JNull (write v @ CHR '','' # (write w @ concat (map (\<lambda>w. CHR '','' # write w) ws) @ CHR '']'' # rest)) =
      Some (True, nrm v, CHR '','' # (write w @ concat (map (\<lambda>w. CHR '','' # write w) ws) @ CHR '']'' # rest))"
    using Cons.prems(1) by (intro readsD) simp_all
  then show ?case
    using Cons.IH [of w f "acc @ [nrm v]"] Cons.prems(1) f
    by (simp add: skip_token [OF token_chars(1)])
qed

lemma obj_put_last: "\<forall>k \<in> fst ` set ms. k < key \<Longrightarrow> obj_put key v ms = ms @ [(key, v)]"
  by (induction ms) (auto simp: not_less_iff_gr_or_eq)

lemma object_loop_reads:
  assumes "\<forall>(k, w) \<in> set (m # ms). ascii k \<and> reads rv (write w) (nrm w)" "length ms < fuel"
    and "sorted_wrt (<) (map fst (acc @ m # ms))"
  shows "object_loop rv fuel name acc ((\<lambda>(k, w). valueToQuotedStringN k @ CHR '':'' # write w) m @
      concat (map (\<lambda>(k, w). CHR '','' # valueToQuotedStringN k @ CHR '':'' # write w) ms) @ CHR ''}'' # rest) =
    Some (True, JObject (acc @ map (\<lambda>(k, w). (k, nrm w)) (m # ms)), rest)"
  using assms
proof (induction ms arbitrary: m acc fuel name)
  case Nil
  obtain k w where m: "m = (k, w)"
    by (cases m)
  obtain f where f: "fuel = Suc f"
    using Nil.prems(2) by (cases fuel) auto
  have k: "ascii k" "rv cur (write w @ CHR ''}'' # rest) = Some (True, nrm w, CHR ''}'' # rest)" for cur
    using Nil.prems(1) m readsD by fastforce+
  have "obj_put k v acc = acc @ [(k, v)]" for v
    using Nil.prems(3) m by (intro obj_put_last) (auto simp: sorted_wrt_append)
  then show ?case
    using k token_string [OF k(1)] by (simp add: m f skip_token [OF token_string(1) [OF k(1)]] token_chars)
next
  case (Cons n ns)
  obtain k w where m: "m = (k, w)"
    by (cases m)
  obtain f where f: "fuel = Suc f" "length ns < f"
    using Cons.prems(2) by (cases fuel) auto
  define more where "more = (\<lambda>(k, w). valueToQuotedStringN k @ CHR '':'' # write w) n @
      concat (map (\<lambda>(k, w). CHR '','' # valueToQuotedStringN k @ CHR '':'' # write w) ns) @ CHR ''}'' # rest"
  have k: "ascii k" "rv cur (write w @ CHR '','' # more) = Some (True, nrm w, CHR '','' # more)" for cur
    using Cons.prems(1) m readsD by fastforce+
  have put: "obj_put k v acc = acc @ [(k, v)]" for v
    using Cons.prems(3) m by (intro obj_put_last) (auto simp: sorted_wrt_append)
  have "object_loop rv f k (acc @ [(k, nrm w)]) more =
      Some (True, JObject ((acc @ [(k, nrm w)]) @ map (\<lambda>(k, w). (k, nrm w)) (n # ns)), rest)"
    unfolding more_def by (rule Cons.IH) (use Cons.prems m f in \<open>auto simp: sorted_wrt_append\<close>)
  moreover have "(\<lambda>(k, w). valueToQuotedStringN k @ CHR '':'' # write w) m @
      concat (map (\<lambda>(k, w). CHR '','' # valueToQuotedStringN k @ CHR '':'' # write w) (n # ns)) @ CHR ''}'' # rest =
      valueToQuotedStringN k @ CHR '':'' # write w @ CHR '','' # more"
    by (cases n) (simp add: m more_def)
  ultimately show ?case
    using k put token_string [OF k(1)] f
    by (simp only:) (simp add: m skip_token [OF token_string(1) [OF k(1)]] token_chars)
qed

section \<open>What is written is read\<close>

lemma reads_token:
  assumes "\<And>rest. delimits rest \<Longrightarrow> readToken (t @ rest) = (ty, t, rest)" "ty \<noteq> tokenComment"
    and "\<And>cur rest. delimits rest \<Longrightarrow> readToken (t @ rest) = (ty, t, rest) \<Longrightarrow>
      skipCommentTokens (t @ rest) = (ty, t, rest) \<Longrightarrow> readValue io (Suc n) cur (t @ rest) = Some (True, v, rest)"
  shows "reads (readValue io (Suc n)) t v"
  using assms by (simp add: reads_def skip_token del: readValue.simps)

lemma reads_words:
  "reads (readValue io (Suc n)) ''null'' JNull"
  "reads (readValue io (Suc n)) ''true'' (JBool True)"
  "reads (readValue io (Suc n)) ''false'' (JBool False)"
  using skip_token [OF token_words(1)] skip_token [OF token_words(2)] skip_token [OF token_words(3)]
  by (simp_all add: reads_def)

lemma reads_number:
  assumes "\<And>rest. delimits rest \<Longrightarrow> readToken (t @ rest) = (tokenNumber, t, rest)" "decodeNumber io t = Some v"
  shows "reads (readValue io (Suc n)) t v"
  using assms by (auto simp: reads_def skip_token)

lemma reads_string: "ascii s \<Longrightarrow> reads (readValue io (Suc n)) (valueToQuotedStringN s) (JString s)"
  by (simp add: reads_def skip_token [OF token_string(1)] token_string(2))

lemma reads_real:
  assumes "real_ok io r"
  shows "reads (readValue io (Suc n)) (valueToString_real io 15 r) (JReal r)"
proof -
  obtain c cs where c: "valueToString_real io 15 r = c # cs" "is_digit c \<or> c = CHR 0x2D"
    "\<And>rest. delimits rest \<Longrightarrow> readNumber (cs @ rest) = rest" "decodeNumber io (c # cs) = Some (JReal r)"
    using assms by (auto simp: real_ok_def split: list.splits)
  show ?thesis
    unfolding c(1) by (rule reads_number [OF readToken_number [OF c(2,3)] c(4)])
qed

text \<open>No text of a value starts like white space or the end of an array.\<close>

definition starts :: "string \<Rightarrow> bool" where
  "starts t \<longleftrightarrow> t \<noteq> [] \<and> hd t \<notin> {CHR 0x20, CHR 0x09, CHR 0x0D, CHR 0x0A, CHR '']''}"

lemma starts_number: "is_digit c \<or> c = CHR 0x2D \<Longrightarrow> starts (c # cs)"
  by (auto simp: starts_def is_digit_def)

lemma starts_writeValue: "json_ok io v \<Longrightarrow> starts (writeValue io v)"
proof (cases v)
  case (JInt n)
  obtain c cs where "show_nat 10 (nat n) = c # cs" "is_digit c"
    using show_nat_Cons by blast
  then show ?thesis
    using JInt by (auto simp: valueToString_int_def uintToString_def starts_number)
next
  case (JUint n)
  obtain c cs where "show_nat 10 n = c # cs" "is_digit c"
    using show_nat_Cons by blast
  then show ?thesis
    using JUint by (auto simp: uintToString_def starts_number)
next
  case (JReal r)
  assume "json_ok io v"
  then show ?thesis
    using JReal by (auto simp: real_ok_def starts_number split: list.splits)
next
  case (JString s)
  assume "json_ok io v"
  then show ?thesis
    using JString by (simp add: quoted_string) (simp add: starts_def)
qed (auto simp: starts_def valueToString_bool_def)

lemma skipSpaces_starts: "starts t \<Longrightarrow> skipSpaces (t @ s) = t @ s"
  by (cases t) (auto simp: starts_def skipSpaces_def)

lemma reads_array:
  assumes "\<forall>v \<in> set vs. reads (readValue io n) (writeValue io v) (normal v) \<and> starts (writeValue io v)"
  shows "reads (readValue io (Suc n)) (writeValue io (JArray vs)) (normal (JArray vs))"
  unfolding reads_def
proof (intro allI impI)
  fix cur rest
  assume "delimits rest"
  define body where "body = fast_loop True (map (writeValue io) vs) @ CHR '']'' # rest"
  have "readArray (readValue io n) cur body = Some (True, JArray (map normal vs), rest)"
  proof (cases vs)
    case Nil
    then show ?thesis
      by (simp add: body_def readArray_def skipSpaces_def token_chars)
  next
    case (Cons v ws)
    have body: "body = writeValue io v @ concat (map (\<lambda>w. CHR '','' # writeValue io w) ws) @ CHR '']'' # rest"
      by (simp add: body_def Cons fast_loop_concat)
    have v: "starts (writeValue io v)"
      using assms Cons by simp
    then obtain c cs where c: "body = c # cs" "c \<noteq> CHR '']''"
      by (cases "writeValue io v") (auto simp: body starts_def)
    have "length ws < Suc (length body)"
      using length_concat_commas [of ws "writeValue io"] by (simp add: body)
    then have "array_loop (readValue io n) (Suc (length body)) [] body = Some (True, JArray (map normal vs), rest)"
      unfolding Cons using array_loop_reads [of v ws "readValue io n" "writeValue io" normal "Suc (length body)" "[]" rest] assms Cons
      by (simp add: body del: array_loop.simps)
    moreover have "skipSpaces body = body"
      unfolding body by (rule skipSpaces_starts [OF v])
    ultimately show ?thesis
      using c by (simp add: readArray_def del: array_loop.simps)
  qed
  then show "readValue io (Suc n) cur (writeValue io (JArray vs) @ rest) = Some (True, normal (JArray vs), rest)"
    by (simp add: skip_token [OF token_chars(4)] body_def)
qed

lemma reads_object:
  assumes "\<forall>(k, v) \<in> set ms. ascii k \<and> reads (readValue io n) (writeValue io v) (normal v)" "sorted_wrt (<) (map fst ms)"
  shows "reads (readValue io (Suc n)) (writeValue io (JObject ms)) (normal (JObject ms))"
  unfolding reads_def
proof (intro allI impI)
  fix cur rest
  assume "delimits rest"
  define mem where "mem = (\<lambda>(k, w). valueToQuotedStringN k @ CHR '':'' # writeValue io w)"
  define body where "body = fast_loop True (map mem ms) @ CHR ''}'' # rest"
  have "readObject (readValue io n) cur body = Some (True, JObject (map (\<lambda>(k, v). (k, normal v)) ms), rest)"
  proof (cases ms)
    case Nil
    then show ?thesis
      by (simp add: body_def readObject_def skip_token [OF token_chars(6)])
  next
    case (Cons m ns)
    have sep: "(\<lambda>(k, w). CHR '','' # valueToQuotedStringN k @ CHR '':'' # writeValue io w) = (\<lambda>m. CHR '','' # mem m)"
      by (auto simp: mem_def)
    have body: "body = mem m @ concat (map (\<lambda>m. CHR '','' # mem m) ns) @ CHR ''}'' # rest"
      by (simp add: body_def Cons fast_loop_concat)
    have "length ns < Suc (length body)"
      using length_concat_commas [of ns mem] by (simp add: body)
    then show ?thesis
      using object_loop_reads [of m ns "readValue io n" "writeValue io" normal "Suc (length body)" "[]" "[]" rest] assms Cons
      unfolding readObject_def sep mem_def [symmetric] body [symmetric] by simp
  qed
  then show "readValue io (Suc n) cur (writeValue io (JObject ms) @ rest) = Some (True, normal (JObject ms), rest)"
    by (simp add: skip_token [OF token_chars(5)] body_def mem_def split_def)
qed

lemma depth_pos: "0 < depth v"
  by (cases v) auto

lemma reads_writeValue: "json_ok io v \<Longrightarrow> depth v \<le> n \<Longrightarrow> reads (readValue io n) (writeValue io v) (normal v)"
proof (induction v arbitrary: n)
  case (JArray vs)
  obtain m where m: "n = Suc m"
    using JArray.prems(2) by (cases n) auto
  have "reads (readValue io m) (writeValue io v) (normal v) \<and> starts (writeValue io v)" if "v \<in> set vs" for v
    using JArray.IH [OF that, of m] JArray.prems depth_foldr [OF that] that m starts_writeValue [of io v]
    by (simp add: list_all_iff)
  then show ?case
    unfolding m by (intro reads_array) blast
next
  case (JObject ms)
  obtain m where m: "n = Suc m"
    using JObject.prems(2) by (cases n) auto
  have "ascii k \<and> reads (readValue io m) (writeValue io v) (normal v)" if "(k, v) \<in> set ms" for k v
    using JObject.IH [OF that, of v m] JObject.prems depth_foldr_members [OF that] that m
    by (auto simp: list_all_iff)
  then show ?case
    using JObject.prems(1) unfolding m by (intro reads_object) auto
next
  case (JInt k)
  then obtain m where m: "n = Suc m"
    by (cases n) auto
  show ?case
    using JInt number_text(1) [of _ k] number_text(2) [of "[]" k io] unfolding m by (intro reads_number) auto
next
  case (JUint k)
  then obtain m where m: "n = Suc m"
    by (cases n) auto
  show ?case
    using JUint unsigned_text(1) [of _ k] unsigned_text(2) [of "[]" k io] unfolding m by (intro reads_number) auto
next
  case (JReal r)
  then show ?case
    using reads_real by (cases n) (auto simp del: readValue.simps)
next
  case (JString s)
  then show ?case
    using reads_string by (cases n) (auto simp del: readValue.simps)
next
  case (JBool b)
  then show ?case
    using reads_words(2,3) by (cases n; cases b) (auto simp: valueToString_bool_def simp del: readValue.simps)
next
  case JNull
  then show ?case
    using reads_words(1) by (cases n) (auto simp del: readValue.simps)
qed

text \<open>
  C6: What \<open>FastWriter\<close> prints is read back: every value whose strings are ASCII, whose objects are sorted, whose
  integers have 64 bits, whose doubles survive printing and which is nested less than 1000 deep comes back as
  itself, but that integers above \<open>2 ^ 31 - 1\<close> have become unsigned and smaller ones signed.
\<close>

theorem parse_write:
  assumes "json_ok io v" "depth v \<le> 1000"
  shows "parse io (FastWriter_write io v) = Some (True, normal v)"
  using readsD [OF reads_writeValue [OF assms(1)], of stackLimit_g "[CHR 0x0A]" JNull] assms(2)
  by (simp add: parse_def FastWriter_write_def stackLimit_g_def del: readValue.simps)

theorem parse_write_witness:
  "parse text_io (FastWriter_write text_io (JObject [(''entity'', JString ''SCD30''), (''series'', JArray [JInt (-5), JUint 7])])) =
    Some (True, JObject [(''entity'', JString ''SCD30''), (''series'', JArray [JInt (-5), JInt 7])])"
proof -
  define v :: "string Json" where "v = JObject [(''entity'', JString ''SCD30''), (''series'', JArray [JInt (-5), JUint 7])]"
  have "json_ok text_io v" "depth v \<le> 1000"
    by (simp_all add: v_def ascii_def code_def minLargestInt_def maxLargestInt_def maxLargestUInt_def)
  from parse_write [OF this] show ?thesis
    by (simp add: v_def maxInt_def)
qed

end
