(* ===== verification/Json_Types.thy ===== *)
theory Json_Types
  imports Json_Roundtrip
begin

text \<open>
  What \<open>Reader\<close> builds is well formed, also where it meets an error.
\<close>

section \<open>What is read is well formed\<close>

fun json_wf :: "'r Json \<Rightarrow> bool" where
  "json_wf (JInt n) \<longleftrightarrow> minLargestInt \<le> n \<and> n \<le> maxInt"
| "json_wf (JUint n) \<longleftrightarrow> maxInt < int n \<and> n \<le> maxLargestUInt"
| "json_wf (JArray vs) \<longleftrightarrow> list_all json_wf vs"
| "json_wf (JObject ms) \<longleftrightarrow> sorted_wrt (<) (map fst ms) \<and> list_all (\<lambda>(k, v). json_wf v) ms"
| "json_wf _ \<longleftrightarrow> True"

lemma decode_digits_le: "decode_digits M v cs = Some n \<Longrightarrow> v \<le> M \<Longrightarrow> n \<le> M"
proof (induction M v cs rule: decode_digits.induct)
  case (2 M v c cs)
  define d where "d = digit_val c"
  have step: "is_digit c" "\<not> (v \<ge> M div 10 \<and> (v > M div 10 \<or> cs \<noteq> [] \<or> d > M mod 10))" "decode_digits M (v * 10 + d) cs = Some n"
    using 2(2) by (auto simp: Let_def d_def split: if_splits)
  have "d < 10"
    using step(1) by (auto simp: d_def is_digit_def digit_val_def)
  moreover have "M = 10 * (M div 10) + M mod 10"
    by simp
  ultimately have "v * 10 + d \<le> M"
    using step(2) by linarith
  then show ?case
    using 2(1) step by (simp add: d_def Let_def)
qed simp

lemma decodeNumber_wf: "decodeNumber io t = Some v \<Longrightarrow> json_wf v"
  by (auto simp: decodeNumber_def Let_def maxLargestInt_def minLargestInt_def maxLargestUInt_def maxInt_def
      dest!: decode_digits_le split: option.splits if_splits)

lemma obj_put_keys: "fst ` set (obj_put key v ms) = insert key (fst ` set ms)"
proof (induction ms)
  case (Cons m ms)
  show ?case
    by (cases m) (auto simp: Cons)
qed simp

lemma obj_put_sorted: "sorted_wrt (<) (map fst ms) \<Longrightarrow> sorted_wrt (<) (map fst (obj_put key v ms))"
proof (induction ms)
  case (Cons m ms)
  obtain k x where m: "m = (k, x)"
    by (cases m)
  have later: "\<forall>y \<in> fst ` set ms. k < y" and "sorted_wrt (<) (map fst (obj_put key v ms))"
    using Cons m by auto
  moreover have "\<forall>y \<in> fst ` set (obj_put key v ms). k < y" if "k < key"
    unfolding obj_put_keys using that later by blast
  moreover have "\<forall>y \<in> fst ` set ms. key < y" if "key < k"
    using that later by fastforce
  ultimately show ?case
    using Cons.prems m not_less_iff_gr_or_eq [of key k] by auto
qed simp

lemma obj_put_members: "list_all (\<lambda>(k, v). P v) ms \<Longrightarrow> P v \<Longrightarrow> list_all (\<lambda>(k, v). P v) (obj_put key v ms)"
  by (induction ms) auto

lemma obj_put_wf: "json_wf (JObject ms) \<Longrightarrow> json_wf v \<Longrightarrow> json_wf (JObject (obj_put key v ms))"
  by (simp add: obj_put_sorted obj_put_members)

lemma member_wf: "json_wf (JObject ms) \<Longrightarrow> json_wf (member name ms)"
  by (auto simp: member_def list_all_iff dest!: map_of_SomeD split: option.splits)

definition reads_wf :: "'r reader \<Rightarrow> bool" where
  "reads_wf rv \<longleftrightarrow> (\<forall>cur s ok v t. json_wf cur \<longrightarrow> rv cur s = Some (ok, v, t) \<longrightarrow> json_wf v)"

lemma array_loop_wf:
  assumes "reads_wf rv"
  shows "list_all json_wf vs \<Longrightarrow> array_loop rv fuel vs s = Some (ok, v, t) \<Longrightarrow> json_wf v"
proof (induction fuel arbitrary: vs s)
  case (Suc fuel)
  obtain ok1 v1 s1 where r: "rv JNull s = Some (ok1, v1, s1)"
    using Suc.prems(2) by (auto split: option.splits prod.splits)
  have "json_wf v1"
    using assms r unfolding reads_wf_def by (metis json_wf.simps(5))
  then have "list_all json_wf (vs @ [v1])"
    using Suc.prems(1) by simp
  then show ?case
    using Suc.prems(2) Suc.IH [of "vs @ [v1]"] r by (auto simp: Let_def split: prod.splits if_splits)
qed simp

lemma object_loop_wf:
  assumes "reads_wf rv"
  shows "json_wf (JObject ms) \<Longrightarrow> object_loop rv fuel name ms s = Some (ok, v, t) \<Longrightarrow> json_wf v"
proof (induction fuel arbitrary: name ms s)
  case (Suc fuel)
  have step: "json_wf (JObject (obj_put nm v1 ms))" if "rv (member nm ms) s1 = Some (ok1, v1, s2)" for nm s1 ok1 v1 s2
    using assms that member_wf [OF Suc.prems(1)] obj_put_wf [OF Suc.prems(1)] unfolding reads_wf_def by blast
  have more: "json_wf v" if "rv (member nm ms) s1 = Some (ok1, v1, s2)" "object_loop rv fuel nm (obj_put nm v1 ms) s3 = Some (ok, v, t)"
    for nm s1 ok1 v1 s2 s3
    using Suc.IH [OF step [OF that(1)] that(2)] .
  show ?case
    using Suc.prems step
    by (auto simp: Let_def simp del: json_wf.simps dest: more split: prod.splits if_splits option.splits)
qed simp

lemma readValue_wf: "reads_wf (readValue io n)"
proof (induction n)
  case (Suc n)
  show ?case
    unfolding reads_wf_def
  proof (intro allI impI)
    fix cur s ok v t
    assume cur: "json_wf cur" and r: "readValue io (Suc n) cur s = Some (ok, v, t)"
    obtain ty x u where k: "skipCommentTokens s = (ty, x, u)"
      by (cases "skipCommentTokens s")
    have "json_wf v" if "readArray (readValue io n) cur u = Some (ok, v, t)"
      using that array_loop_wf [OF Suc, of "[]"] by (auto simp: readArray_def simp del: array_loop.simps split: list.splits if_splits)
    moreover have "json_wf v" if "readObject (readValue io n) cur u = Some (ok, v, t)"
      using that object_loop_wf [OF Suc, of "[]"] by (simp add: readObject_def del: object_loop.simps)
    ultimately show "json_wf v"
      using r k cur decodeNumber_wf by (auto split: TokenType.splits option.splits)
  qed
qed (simp add: reads_wf_def)

text \<open>
  C8: Every value the reader gives back, whether it reports success or not, is well formed: the members of each
  object are sorted by name without repetition, and each integer is either signed and at most \<open>2 ^ 31 - 1\<close> or unsigned,
  above that and of 64 bits.
\<close>

theorem parse_well_formed:
  assumes "parse io document = Some (ok, v)"
  shows "json_wf v"
proof -
  obtain t where "readValue io stackLimit_g JNull document = Some (ok, v, t)"
    using assms by (auto simp: parse_def)
  then show ?thesis
    using readValue_wf [of io stackLimit_g] unfolding reads_wf_def by (metis json_wf.simps(5))
qed

theorem parse_well_formed_witness:
  "json_wf (JObject [(''entity'', JString ''SCD30''), (''series'', JArray [JInt (-5), JUint (2 ^ 31)])] :: string Json)"
proof (rule parse_well_formed)
  define v :: "string Json"
    where "v = JObject [(''entity'', JString ''SCD30''), (''series'', JArray [JInt (-5), JUint (2 ^ 31)])]"
  have "json_ok text_io v" "depth v \<le> stackLimit_g"
    by (simp_all add: v_def ascii_def code_def minLargestInt_def maxLargestInt_def maxLargestUInt_def stackLimit_g_def)
  from readsD [OF reads_writeValue [OF this], of "[]" JNull]
  have "parse text_io (writeValue text_io v) = Some (True, normal v)"
    by (simp add: parse_def del: readValue.simps)
  then show "parse text_io (writeValue text_io v) =
      Some (True, JObject [(''entity'', JString ''SCD30''), (''series'', JArray [JInt (-5), JUint (2 ^ 31)])])"
    by (simp add: v_def maxInt_def)
qed

end
