(* ===== verification/App_Cloud.thy ===== *)
theory App_Cloud
  imports App_Store Json_Roundtrip Mqtt_Client
begin

text \<open>
  \<open>src/DecadaManager/decada_manager.cpp\<close>, the part that talks to the REST interface of the cloud, and
  \<open>src/CryptoEngine/crypto_engine.cpp\<close>, which makes the key pair and the certificate request. The build is
  the one of \<open>mbed_app.json\<close>: no secure element, TLS, traces on.
\<close>

section \<open>The device and what it stands on\<close>

text \<open>
  \<open>https\<close> sends an HTTPS request and gives the body of the response, or nothing when \<open>send\<close> returns a null
  pointer. The MQTT client of network \<open>n\<close> reads and writes with \<open>mqtt n\<close>; the functions of mbed TLS and of
  the sockets give their return codes. \<open>memory\<close> is what the allocator returns for a client.
\<close>

datatype http_method = HTTP_GET | HTTP_POST

record http_call =
  call_method :: http_method
  call_url :: string
  call_headers :: "(string \<times> string) list"
  call_body :: string

record ('r, 'h, 'k, 'w) device_env =
  kv :: "'k kv_env"
  json_io :: "'r real_io"
  https :: "http_call \<Rightarrow> 'w \<Rightarrow> string option \<times> 'w"
  sha256 :: "string \<Rightarrow> string"
  time_now :: "'w \<Rightarrow> int"
  device_uuid :: string
  decada_product_key :: string
  decada_access_key :: string
  decada_access_secret :: string
  decada_ou_id :: string
  api_url :: string
  drbg_seed :: "'w \<Rightarrow> int \<times> 'w"
  rsa_gen_key :: "'w \<Rightarrow> int \<times> 'w"
  pk_write_key_pem :: "'w \<Rightarrow> int \<times> string"
  csr_set_subject_name :: "string \<Rightarrow> int"
  csr_pem :: "string \<Rightarrow> 'w \<Rightarrow> int \<times> string \<times> 'w"
  socket_open :: "nat \<Rightarrow> 'w \<Rightarrow> int \<times> 'w"
  gethostbyname :: "string \<Rightarrow> 'w \<Rightarrow> int \<times> 'w"
  socket_connect :: "nat \<Rightarrow> string \<Rightarrow> string \<Rightarrow> 'w \<Rightarrow> int \<times> 'w"
  socket_close :: "nat \<Rightarrow> 'w \<Rightarrow> int \<times> 'w"
  mqtt :: "nat \<Rightarrow> ('h, 'w) mqtt_env"
  memory :: "'w \<Rightarrow> 'h Client"
  arrival_callback :: 'h

text \<open>
  The pointers are numbers of networks: \<open>networks\<close> have been allocated, \<open>freed\<close> are deleted, and the client
  remembers which network it was made on. \<open>sub_topics\<close>, a set without order, is kept in the order of
  insertion.
\<close>

record ('h, 'k, 'w) device =
  store :: 'k
  world :: 'w
  device_secret :: string
  sub_topics :: "string list"
  mqtt_network :: "nat option"
  mqtt_client :: "(nat \<times> 'h Client) option"
  networks :: nat
  freed :: "nat list"
  mqtt_failed_reconnections :: "8 word"

text \<open>
  What stops the program: a method called through a null pointer, a JSON value used as what it is not (the
  exception has no handler), an uninitialised integer, an overflow of \<open>int\<close>, a text that \<open>stod\<close> cannot read (an
  exception as well), a deleted network in use, an MQTT call that does not
  return, and a reset, which leaves the store.
\<close>

datatype 'k stop =
    Null_pointer
  | Json_exception
  | Uninitialised
  | Int_overflow
  | Bad_double
  | Freed_network
  | Stuck
  | System_reset 'k

definition andThen :: "'e + 'a \<Rightarrow> ('a \<Rightarrow> 'e + 'b) \<Rightarrow> 'e + 'b" where
  "andThen x f = (case x of Inl e \<Rightarrow> Inl e | Inr a \<Rightarrow> f a)"

lemma andThen_simps [simp]: "andThen (Inl e) f = Inl e" "andThen (Inr a) f = f a"
  by (simp_all add: andThen_def)

lemma andThen_Inr_iff: "andThen x f = Inr b \<longleftrightarrow> (\<exists>a. x = Inr a \<and> f a = Inr b)"
  by (cases x) auto

definition need :: "'e \<Rightarrow> 'a option \<Rightarrow> 'e + 'a" where
  "need e x = (case x of None \<Rightarrow> Inl e | Some a \<Rightarrow> Inr a)"

lemma need_simps [simp]: "need e None = Inl e" "need e (Some a) = Inr a"
  by (simp_all add: need_def)

section \<open>Signatures\<close>

text \<open>\<open>time_t\<close> becomes an \<open>int\<close>.\<close>

definition RawRtcTimeNow :: "('r, 'h, 'k, 'w) device_env \<Rightarrow> 'w \<Rightarrow> int" where
  "RawRtcTimeNow env w = sint (word_of_int (time_now env w) :: 32 word)"

definition timestamp_ms :: "('r, 'h, 'k, 'w) device_env \<Rightarrow> 'w \<Rightarrow> string" where
  "timestamp_ms env w = MsPaddingIntToString (RawRtcTimeNow env w)"

definition upper_hex :: "char \<Rightarrow> string" where
  "upper_hex c = map to_upper [digit_char (code c div 16), digit_char (code c mod 16)]"

text \<open>
  The input is copied into a buffer of its own size, one byte less than the copy needs; the hash is that of the
  text up to its first NUL.
\<close>

definition GenericSHA256Generator :: "('r, 'h, 'k, 'w) device_env \<Rightarrow> string \<Rightarrow> string" where
  "GenericSHA256Generator env input = concat (map upper_hex (sha256 env (StringToChar input)))"

definition signature_of :: "('r, 'h, 'k, 'w) device_env \<Rightarrow> string \<Rightarrow> string" where
  "signature_of env signing_params = ToLowerCase (GenericSHA256Generator env signing_params)"

section \<open>Requests\<close>

definition json_object :: "(string \<times> 'r Json) list \<Rightarrow> 'r Json" where
  "json_object ms = JObject (fold (\<lambda>(name, v). obj_put name v) ms [])"

definition rest_call ::
    "('r, 'h, 'k, 'w) device_env \<Rightarrow> http_call \<Rightarrow> ('h, 'k, 'w) device \<Rightarrow> 'k stop + (string \<times> ('h, 'k, 'w) device)" where
  "rest_call env call d =
     (case https env call (world d) of (response, w) \<Rightarrow>
        map_sum (\<lambda>e. e) (\<lambda>body. (body, d\<lparr>world := w\<rparr>)) (need Null_pointer response))"

text \<open>\<open>root.get("data", "invalid")\<close>, and \<open>get(key, "invalid").asString()\<close> of that.\<close>

definition answer_data :: "'r real_io \<Rightarrow> string \<Rightarrow> 'k stop + 'r Json" where
  "answer_data io res_string =
     need Json_exception (case parse io res_string of
         None \<Rightarrow> None
       | Some (_, document) \<Rightarrow> json_get document ''data'' (JString ''invalid''))"

definition answer_field :: "'r real_io \<Rightarrow> 'r Json \<Rightarrow> string \<Rightarrow> 'k stop + string" where
  "answer_field io sub_root key =
     need Json_exception (Option.bind (json_get sub_root key (JString ''invalid'')) (asString io))"

definition post_headers :: "string \<Rightarrow> string \<Rightarrow> string \<Rightarrow> (string \<times> string) list" where
  "post_headers access_token signature timestamp =
     [(''Content-Type'', ''application/json;charset=UTF-8''), (''apim-accesstoken'', access_token),
      (''apim-signature'', signature), (''apim-timestamp'', timestamp)]"

definition token_call :: "('r, 'h, 'k, 'w) device_env \<Rightarrow> 'w \<Rightarrow> http_call" where
  "token_call env w =
     (let timestamp = timestamp_ms env w;
          signature = signature_of env (decada_access_key env @ timestamp @ decada_access_secret env);
          body = writeString (json_io env) (json_object [(''appKey'', JString (decada_access_key env)),
            (''encryption'', JString signature), (''timestamp'', JString timestamp)])
      in \<lparr>call_method = HTTP_POST, call_url = api_url env @ ''/apim-token-service/v2.0/token/get'',
          call_headers = [(''Content-Type'', ''application/json;charset=UTF-8'')], call_body = body\<rparr>)"

definition GetAccessToken ::
    "('r, 'h, 'k, 'w) device_env \<Rightarrow> ('h, 'k, 'w) device \<Rightarrow> 'k stop + (string \<times> ('h, 'k, 'w) device)" where
  "GetAccessToken env d =
     andThen (rest_call env (token_call env (world d)) d) (\<lambda>(res_string, d).
     andThen (answer_data (json_io env) res_string) (\<lambda>sub_root.
     andThen (answer_field (json_io env) sub_root ''accessToken'') (\<lambda>access_token. Inr (access_token, d))))"

definition GetDeviceSecret ::
    "('r, 'h, 'k, 'w) device_env \<Rightarrow> ('h, 'k, 'w) device \<Rightarrow> 'k stop + (string \<times> ('h, 'k, 'w) device)" where
  "GetDeviceSecret env d =
     (let timestamp = timestamp_ms env (world d) in
      andThen (GetAccessToken env d) (\<lambda>(access_token, d).
        let parameters = ''actionget'' @ ''deviceKey'' @ device_uuid env @ ''orgId'' @ decada_ou_id env @
              ''productKey'' @ decada_product_key env;
            signature = signature_of env (access_token @ parameters @ timestamp @ decada_access_secret env)
        in andThen (rest_call env \<lparr>call_method = HTTP_GET, call_url = api_url env @
               ''/connect-service/v2.1/devices?action=get&orgId='' @ decada_ou_id env @
               ''&productKey='' @ decada_product_key env @ ''&deviceKey='' @ device_uuid env,
               call_headers = tl (post_headers access_token signature timestamp), call_body = []\<rparr> d)
             (\<lambda>(res_string, d). andThen (answer_data (json_io env) res_string)
               (\<lambda>sub_root. andThen (answer_field (json_io env) sub_root ''deviceSecret'') (\<lambda>secret. Inr (secret, d))))))"

definition CreateDeviceInDecada ::
    "('r, 'h, 'k, 'w) device_env \<Rightarrow> string \<Rightarrow> ('h, 'k, 'w) device \<Rightarrow> 'k stop + (string \<times> ('h, 'k, 'w) device)" where
  "CreateDeviceInDecada env default_name d =
     (let timestamp = timestamp_ms env (world d) in
      andThen (GetAccessToken env d) (\<lambda>(access_token, d).
        let device_name = json_object [(''defaultValue'', JString default_name), (''i18nValue'', JNull)];
            body = writeString (json_io env) (json_object [(''productKey'', JString (decada_product_key env)),
              (''timezone'', JString ''+08:00''), (''deviceName'', device_name), (''deviceKey'', JString (device_uuid env))]);
            parameters = ''actioncreate'' @ ''orgId'' @ decada_ou_id env @ body;
            signature = signature_of env (access_token @ parameters @ timestamp @ decada_access_secret env)
        in andThen (rest_call env \<lparr>call_method = HTTP_POST, call_url = api_url env @
               ''/connect-service/v2.1/devices?action=create&orgId='' @ decada_ou_id env,
               call_headers = post_headers access_token signature timestamp, call_body = body\<rparr> d)
             (\<lambda>(res_string, d). andThen (answer_data (json_io env) res_string)
               (\<lambda>sub_root. andThen (answer_field (json_io env) sub_root ''deviceSecret'') (\<lambda>secret. Inr (secret, d))))))"

record csr_sign_resp =
  cert :: string
  cert_sn :: string

text \<open>What \<open>SignCertificateSigningRequest\<close> and \<open>RenewClientCertificate\<close> share: they differ in action and body.\<close>

definition certificate_call ::
    "('r, 'h, 'k, 'w) device_env \<Rightarrow> string \<Rightarrow> string \<Rightarrow> string \<Rightarrow> string \<Rightarrow> ('h, 'k, 'w) device \<Rightarrow>
     'k stop + (csr_sign_resp \<times> ('h, 'k, 'w) device)" where
  "certificate_call env action body timestamp access_token d =
     (let parameters = ''action'' @ action @ ''deviceKey'' @ device_uuid env @ ''orgId'' @ decada_ou_id env @
            ''productKey'' @ decada_product_key env @ body;
          signature = signature_of env (access_token @ parameters @ timestamp @ decada_access_secret env)
      in andThen (rest_call env \<lparr>call_method = HTTP_POST, call_url = api_url env @
             ''/connect-service/v2.0/certificates?action='' @ action @ ''&orgId='' @ decada_ou_id env @
             ''&productKey='' @ decada_product_key env @ ''&deviceKey='' @ device_uuid env,
             call_headers = post_headers access_token signature timestamp, call_body = body\<rparr> d)
           (\<lambda>(res_string, d). andThen (answer_data (json_io env) res_string)
             (\<lambda>sub_root. andThen (answer_field (json_io env) sub_root ''cert'')
               (\<lambda>c. andThen (answer_field (json_io env) sub_root ''certSN'') (\<lambda>sn. Inr (\<lparr>cert = c, cert_sn = sn\<rparr>, d))))))"

definition SignCertificateSigningRequest ::
    "('r, 'h, 'k, 'w) device_env \<Rightarrow> string \<Rightarrow> ('h, 'k, 'w) device \<Rightarrow> 'k stop + (csr_sign_resp \<times> ('h, 'k, 'w) device)" where
  "SignCertificateSigningRequest env csr d =
     (let timestamp = timestamp_ms env (world d) in
      andThen (GetAccessToken env d) (\<lambda>(access_token, d).
        certificate_call env ''apply'' (writeString (json_io env) (json_object [(''csr'', JString csr), (''validDay'', JInt 365)]))
          timestamp access_token d))"

definition RenewClientCertificate ::
    "('r, 'h, 'k, 'w) device_env \<Rightarrow> ('h, 'k, 'w) device \<Rightarrow> 'k stop + (csr_sign_resp \<times> ('h, 'k, 'w) device)" where
  "RenewClientCertificate env d =
     (let timestamp = timestamp_ms env (world d) in
      andThen (GetAccessToken env d) (\<lambda>(access_token, d).
      andThen (need Uninitialised (StringToInt (ReadClientCertificateSerialNumber (kv env) (store d)))) (\<lambda>sn.
        certificate_call env ''renew'' (writeString (json_io env) (json_object [(''certSn'', JInt sn), (''validDay'', JInt 365)]))
          timestamp access_token d)))"

definition store_certificate ::
    "('r, 'h, 'k, 'w) device_env \<Rightarrow> csr_sign_resp \<Rightarrow> 'k \<Rightarrow> 'k" where
  "store_certificate env resp k =
     WriteClientCertificateSerialNumber (kv env) (cert_sn resp) (WriteClientCertificate (kv env) (cert resp) k)"

definition resp_valid :: "csr_sign_resp \<Rightarrow> bool" where
  "resp_valid resp \<longleftrightarrow> cert resp \<noteq> ''invalid'' \<and> cert_sn resp \<noteq> ''invalid''"

definition RenewCertificate ::
    "('r, 'h, 'k, 'w) device_env \<Rightarrow> ('h, 'k, 'w) device \<Rightarrow> 'k stop + (bool \<times> ('h, 'k, 'w) device)" where
  "RenewCertificate env d =
     andThen (RenewClientCertificate env d) (\<lambda>(resp, d).
       if resp_valid resp then Inl (System_reset (store_certificate env resp (store d))) else Inr (False, d))"

text \<open>
  \<open>CheckDeviceCreation\<close> asks until the cloud gives a secret; \<open>None\<close> stands for asking for ever.
\<close>

partial_function (option) create_loop ::
    "('r, 'h, 'k, 'w) device_env \<Rightarrow> string \<Rightarrow> ('h, 'k, 'w) device \<Rightarrow> ('k stop + (string \<times> ('h, 'k, 'w) device)) option" where
  "create_loop env secret d =
     (if secret = ''invalid'' then
        (case CreateDeviceInDecada env (''core-'' @ device_uuid env) d of
           Inl e \<Rightarrow> Some (Inl e)
         | Inr (secret, d) \<Rightarrow>
             if secret \<noteq> ''invalid'' then Some (Inr (secret, d)) else create_loop env secret d)
      else Some (Inr (secret, d)))"

definition CheckDeviceCreation ::
    "('r, 'h, 'k, 'w) device_env \<Rightarrow> ('h, 'k, 'w) device \<Rightarrow> ('k stop + (string \<times> ('h, 'k, 'w) device)) option" where
  "CheckDeviceCreation env d =
     (case GetDeviceSecret env d of Inl e \<Rightarrow> Some (Inl e) | Inr (secret, d) \<Rightarrow> create_loop env secret d)"

section \<open>Keys and certificate requests\<close>

definition GetCertificateSubjectName :: "('r, 'h, 'k, 'w) device_env \<Rightarrow> 'w \<Rightarrow> string" where
  "GetCertificateSubjectName env w =
     ''C=SG, ST=Singapore, L=Singapore, O=DECADA, OU=DECADA CA, CN='' @ device_uuid env @ timestamp_ms env w"

definition GenerateKeypair ::
    "('r, 'h, 'k, 'w) device_env \<Rightarrow> ('h, 'k, 'w) device \<Rightarrow> bool \<times> ('h, 'k, 'w) device" where
  "GenerateKeypair env d =
     (case rsa_gen_key env (world d) of (rc, w) \<Rightarrow>
        let d = d\<lparr>world := w\<rparr> in
        if rc \<noteq> 0 then (False, d)
        else case pk_write_key_pem env (world d) of (rc, pem) \<Rightarrow>
          if rc \<noteq> 0 then (False, d) else (True, d\<lparr>store := WriteClientPrivateKey (kv env) pem (store d)\<rparr>))"

definition GenerateCertificateSigningRequest ::
    "('r, 'h, 'k, 'w) device_env \<Rightarrow> ('h, 'k, 'w) device \<Rightarrow> string \<times> ('h, 'k, 'w) device" where
  "GenerateCertificateSigningRequest env d =
     (let subject_name = GetCertificateSubjectName env (world d) in
      case GenerateKeypair env d of (ok, d) \<Rightarrow>
        if \<not> ok then ([], d)
        else if csr_set_subject_name env subject_name \<noteq> 0 then (''invalid'', d)
        else case csr_pem env subject_name (world d) of (rc, pem, w) \<Rightarrow>
          (if rc < 0 then ''invalid'' else pem, d\<lparr>world := w\<rparr>))"

text \<open>The constructors of \<open>CryptoEngine\<close>, which gives \<open>csr_\<close>, and of \<open>DecadaManager\<close>.\<close>

definition CryptoEngine_init ::
    "('r, 'h, 'k, 'w) device_env \<Rightarrow> ('h, 'k, 'w) device \<Rightarrow> string \<times> ('h, 'k, 'w) device" where
  "CryptoEngine_init env d =
     (case drbg_seed env (world d) of (rc, w) \<Rightarrow>
        let d = d\<lparr>world := w\<rparr> in
        if rc \<noteq> 0 then ([], d)
        else let client_cert = ReadClientCertificate (kv env) (store d) in
          if client_cert = [] \<or> client_cert = ''invalid'' then GenerateCertificateSigningRequest env d else ([], d))"

definition DecadaManager_init ::
    "('r, 'h, 'k, 'w) device_env \<Rightarrow> ('h, 'k, 'w) device \<Rightarrow> 'k stop + ('h, 'k, 'w) device" where
  "DecadaManager_init env d =
     (case CryptoEngine_init env d of (csr, d) \<Rightarrow>
        if csr \<noteq> [] then
          andThen (SignCertificateSigningRequest env csr d) (\<lambda>(resp, d).
            Inr (if resp_valid resp then d\<lparr>store := store_certificate env resp (store d)\<rparr> else d))
        else Inr d)"

section \<open>Answers\<close>

lemmas answer_fields = answer_field_def json_get_def json_find_def asString_def

text \<open>A reply document with an object \<open>data\<close>, whatever else stands in it.\<close>

definition replies_with :: "'r real_io \<Rightarrow> (string \<times> string) list \<Rightarrow> string \<Rightarrow> bool" where
  "replies_with io named s \<longleftrightarrow>
     (\<exists>ok ms data. parse io s = Some (ok, JObject ms) \<and> map_of ms ''data'' = Some (JObject data) \<and>
       list_all (\<lambda>(name, v). map_of data name = Some (JString v)) named)"

lemma replies_withE:
  assumes "replies_with io named s"
  obtains ok ms data where "parse io s = Some (ok, JObject ms)" "map_of ms ''data'' = Some (JObject data)"
    "list_all (\<lambda>(name, v). map_of data name = Some (JString v)) named"
  using assms by (auto simp: replies_with_def)

section \<open>The services of the cloud\<close>

text \<open>
  What the cloud documents: a request for a token names the application and a timestamp and is signed
  with the secret of the application; a request for a certificate carries the token, the timestamp and a
  signature over token, parameters, body, timestamp and secret in its headers, and the certificate
  request in its body. The bodies are JSON, read here with the reader of the program.
\<close>

definition token_request :: "('r, 'h, 'k, 'w) device_env \<Rightarrow> http_call \<Rightarrow> bool" where
  "token_request env call \<longleftrightarrow> call_method call = HTTP_POST \<and>
     call_url call = api_url env @ ''/apim-token-service/v2.0/token/get'' \<and>
     (\<exists>ts. parse (json_io env) (call_body call) = Some (True, JObject [(''appKey'', JString (decada_access_key env)),
        (''encryption'', JString (signature_of env (decada_access_key env @ ts @ decada_access_secret env))),
        (''timestamp'', JString ts)]))"

definition apply_request :: "('r, 'h, 'k, 'w) device_env \<Rightarrow> string \<Rightarrow> string \<Rightarrow> http_call \<Rightarrow> bool" where
  "apply_request env token csr call \<longleftrightarrow> call_method call = HTTP_POST \<and>
     call_url call = api_url env @ ''/connect-service/v2.0/certificates?action=apply&orgId='' @ decada_ou_id env @
       ''&productKey='' @ decada_product_key env @ ''&deviceKey='' @ device_uuid env \<and>
     (\<exists>ts. call_headers call = post_headers token (signature_of env (token @ ''actionapplydeviceKey'' @ device_uuid env @
        ''orgId'' @ decada_ou_id env @ ''productKey'' @ decada_product_key env @ call_body call @ ts @ decada_access_secret env)) ts) \<and>
     parse (json_io env) (call_body call) = Some (True, JObject [(''csr'', JString csr), (''validDay'', JInt 365)])"

text \<open>
  A cloud that serves these requests: it gives the token \<open>token\<close> and issues for the certificate request
  \<open>csr\<close> the certificate and serial number \<open>issue csr\<close>. It may answer anything to any other request. Talking to it does not
  touch the key of the device.
\<close>

definition text_ok :: "string \<Rightarrow> bool" where
  "text_ok s \<longleftrightarrow> ascii s \<and> CHR 0x00 \<notin> set s"

definition cloud_serves ::
    "('r, 'h, 'k, 'w) device_env \<Rightarrow> string \<Rightarrow> (string \<Rightarrow> string \<times> string) \<Rightarrow> bool" where
  "cloud_serves env token issue \<longleftrightarrow>
     (\<forall>call w. token_request env call \<longrightarrow>
        (\<exists>s w'. https env call w = (Some s, w') \<and> replies_with (json_io env) [(''accessToken'', token)] s)) \<and>
     (\<forall>call w csr. apply_request env token csr call \<longrightarrow>
        (\<exists>s w'. https env call w = (Some s, w') \<and>
           replies_with (json_io env) [(''cert'', fst (issue csr)), (''certSN'', snd (issue csr))] s)) \<and>
     (\<forall>csr. text_ok (fst (issue csr)) \<and> fst (issue csr) \<notin> {[], ''invalid''} \<and>
        text_ok (snd (issue csr)) \<and> snd (issue csr) \<noteq> ''invalid'')"

text \<open>
  What mbed TLS documents: the seed succeeds, key generation leaves a key pair (\<open>key\<close> tells the PEM text of the one
  that the context holds), which can then be written as PEM and from which a certificate request for a
  subject name can be made. Without a key pair nothing is promised.
\<close>

definition mbedtls_works ::
    "('r, 'h, 'k, 'w) device_env \<Rightarrow> ('w \<Rightarrow> string option) \<Rightarrow> (string \<Rightarrow> string \<Rightarrow> string) \<Rightarrow> bool" where
  "mbedtls_works env key csr_for \<longleftrightarrow>
     (\<forall>w. fst (drbg_seed env w) = 0) \<and>
     (\<forall>w. fst (rsa_gen_key env w) = 0 \<and> key (snd (rsa_gen_key env w)) \<noteq> None) \<and>
     (\<forall>w pem. key w = Some pem \<longrightarrow> pk_write_key_pem env w = (0, pem) \<and> text_ok pem) \<and>
     (\<forall>name. csr_set_subject_name env name = 0) \<and>
     (\<forall>name w pem. key w = Some pem \<longrightarrow> (\<exists>rc w'. csr_pem env name w = (rc, csr_for name pem, w') \<and> 0 \<le> rc)) \<and>
     (\<forall>name pem. csr_for name pem \<noteq> [] \<and> text_ok (csr_for name pem))"

text \<open>What the program puts into its requests are texts that survive.\<close>

lemma ascii_digits: "ascii (show_nat 10 n)"
  using show_nat_digits [of _ n] by (fastforce simp: ascii_def is_digit_def code_def)

lemma ascii_timestamp: "ascii (timestamp_ms env w)"
  using ascii_digits by (simp add: timestamp_ms_def MsPaddingIntToString_def IntToString_def ascii_def code_def)

lemma ascii_hex: "d < 16 \<Longrightarrow> code (to_lower (to_upper (digit_char d))) < 128"
proof -
  have "\<forall>y \<in> set ''0123456789abcdef''. code (to_lower (to_upper y)) < 128"
    by (simp add: code_def to_lower_def to_upper_def)
  moreover assume "d < 16"
  then have "digit_char d \<in> set ''0123456789abcdef''"
    unfolding digit_char_def by (intro nth_mem) simp
  ultimately show ?thesis
    by blast
qed

lemma ascii_signature: "ascii (signature_of env s)"
proof -
  have "code c div 16 < 16" "code c mod 16 < 16" for c
    using nat_of_char_less_256 [of c] unfolding code_def by linarith+
  then show ?thesis
    by (auto simp: signature_of_def GenericSHA256Generator_def ToLowerCase_def ascii_def upper_hex_def ascii_hex)
qed

text \<open>What is written into a body without doubles is what the other side reads.\<close>

lemma value_read:
  assumes "json_ok io v" "depth v \<le> 1000"
  shows "parse io (writeValue io v) = Some (True, normal v)"
proof -
  have "depth v \<le> stackLimit_g"
    using assms(2) by (simp add: stackLimit_g_def)
  from readsD [OF reads_writeValue [OF assms(1) this], of "[]" JNull] show ?thesis
    by (simp add: parse_def del: readValue.simps)
qed

lemma body_read:
  "json_ok io v \<Longrightarrow> depth v \<le> 1000 \<Longrightarrow> no_reals v \<Longrightarrow> parse io (writeString io v) = Some (True, normal v)"
  using value_read [of io v] by (simp add: writeString_def styled_agrees)

lemma token_call_request:
  assumes "ascii (decada_access_key env)"
  shows "token_request env (token_call env w)"
proof -
  let ?ts = "timestamp_ms env w"
  let ?v = "JObject [(''appKey'', JString (decada_access_key env)),
    (''encryption'', JString (signature_of env (decada_access_key env @ ?ts @ decada_access_secret env))),
    (''timestamp'', JString ?ts)]"
  have "parse (json_io env) (writeString (json_io env) ?v) = Some (True, normal ?v)"
    using assms ascii_timestamp [of env w] ascii_signature [of env] by (intro body_read) (simp_all add: ascii_def code_def)
  then show ?thesis
    by (auto simp: token_request_def token_call_def Let_def json_object_def)
qed

lemma GetAccessToken_served:
  assumes "cloud_serves env token issue" "ascii (decada_access_key env)"
  shows "\<exists>w. GetAccessToken env d = Inr (token, d\<lparr>world := w\<rparr>)"
proof -
  obtain s w where s: "https env (token_call env (world d)) (world d) = (Some s, w)"
      "replies_with (json_io env) [(''accessToken'', token)] s"
    using assms token_call_request [OF assms(2)] unfolding cloud_serves_def by metis
  from s(2) show ?thesis
    by (rule replies_withE) (auto simp: GetAccessToken_def rest_call_def s(1) answer_data_def answer_fields)
qed

lemma certificate_call_served:
  assumes cloud: "cloud_serves env token issue" and csr: "ascii csr"
  shows "\<exists>w. certificate_call env ''apply'' (writeString (json_io env) (json_object [(''csr'', JString csr), (''validDay'', JInt 365)]))
    ts token d = Inr (\<lparr>cert = fst (issue csr), cert_sn = snd (issue csr)\<rparr>, d\<lparr>world := w\<rparr>)"
proof -
  define body where "body = writeString (json_io env) (json_object [(''csr'', JString csr), (''validDay'', JInt 365)])"
  define call where "call = \<lparr>call_method = HTTP_POST, call_url = api_url env @
      ''/connect-service/v2.0/certificates?action='' @ ''apply'' @ ''&orgId='' @ decada_ou_id env @
      ''&productKey='' @ decada_product_key env @ ''&deviceKey='' @ device_uuid env,
    call_headers = post_headers token (signature_of env (token @ (''action'' @ ''apply'' @ ''deviceKey'' @ device_uuid env @
      ''orgId'' @ decada_ou_id env @ ''productKey'' @ decada_product_key env @ body) @ ts @ decada_access_secret env)) ts,
    call_body = body\<rparr>"
  let ?v = "JObject [(''csr'', JString csr), (''validDay'', JInt 365)]"
  have "parse (json_io env) (writeString (json_io env) ?v) = Some (True, normal ?v)"
    using csr by (intro body_read) (simp_all add: ascii_def code_def minLargestInt_def maxLargestInt_def)
  then have "apply_request env token csr call"
    by (auto simp: apply_request_def call_def body_def json_object_def maxInt_def)
  then obtain s w where s: "https env call (world d) = (Some s, w)"
      "replies_with (json_io env) [(''cert'', fst (issue csr)), (''certSN'', snd (issue csr))] s"
    using cloud unfolding cloud_serves_def by metis
  from s(2) show ?thesis
    unfolding certificate_call_def Let_def body_def [symmetric] call_def [symmetric]
    by (rule replies_withE) (auto simp: rest_call_def s(1) answer_data_def answer_fields)
qed

lemma SignCertificateSigningRequest_served:
  assumes "cloud_serves env token issue" "ascii (decada_access_key env)" "ascii csr"
  shows "\<exists>w. SignCertificateSigningRequest env csr d = Inr (\<lparr>cert = fst (issue csr), cert_sn = snd (issue csr)\<rparr>, d\<lparr>world := w\<rparr>)"
proof -
  obtain w where w: "GetAccessToken env d = Inr (token, d\<lparr>world := w\<rparr>)"
    using GetAccessToken_served [OF assms(1,2)] by blast
  show ?thesis
    using certificate_call_served [OF assms(1,3), of _ "d\<lparr>world := w\<rparr>"]
    by (simp add: SignCertificateSigningRequest_def Let_def w)
qed

section \<open>Provisioning\<close>

text \<open>The constructor of \<open>CryptoEngine\<close> on a device without a certificate: a new key, stored, and the request made from it.\<close>

lemma CryptoEngine_init_request:
  assumes tls: "mbedtls_works env key csr_for" and cert: "ReadClientCertificate (kv env) (store d) \<in> {[], ''invalid''}"
  defines "w \<equiv> snd (drbg_seed env (world d))"
  shows "\<exists>pem w2. key (snd (rsa_gen_key env w)) = Some pem \<and> CryptoEngine_init env d =
    (csr_for (GetCertificateSubjectName env w) pem, d\<lparr>world := w2, store := WriteClientPrivateKey (kv env) pem (store d)\<rparr>)"
proof -
  define w1 where "w1 = snd (rsa_gen_key env w)"
  have "key w1 \<noteq> None"
    using tls by (simp add: mbedtls_works_def w1_def)
  then obtain pem where pem: "key w1 = Some pem"
    by blast
  obtain rc w2 where csr: "csr_pem env (GetCertificateSubjectName env w) w1 = (rc, csr_for (GetCertificateSubjectName env w) pem, w2)" "0 \<le> rc"
    using tls pem unfolding mbedtls_works_def by blast
  have seed: "drbg_seed env (world d) = (0, w)"
    using tls by (auto simp: mbedtls_works_def w_def prod_eq_iff)
  have gen: "rsa_gen_key env w = (0, w1)"
    using tls by (auto simp: mbedtls_works_def w1_def prod_eq_iff)
  have pk: "pk_write_key_pem env w1 = (0, pem)" "csr_set_subject_name env name = 0" for name
    using tls pem by (auto simp: mbedtls_works_def)
  have "CryptoEngine_init env d =
    (csr_for (GetCertificateSubjectName env w) pem, d\<lparr>world := w2, store := WriteClientPrivateKey (kv env) pem (store d)\<rparr>)"
    using cert csr by (auto simp: CryptoEngine_init_def seed Let_def GenerateCertificateSigningRequest_def GenerateKeypair_def gen pk)
  then show ?thesis
    using pem by (auto simp: w1_def)
qed

text \<open>
  C5: A device without a certificate provisions itself. Over a store that keeps what is written, with a
  crypto library that works and a cloud that serves properly made requests, the constructor ends with
  the key pair that was generated in its store as the private key, and with the certificate and serial
  number that the cloud issues for exactly the certificate request made from this key and the subject
  name of the device; the next start makes no new request.
\<close>

theorem provisioning_stores_certificate:
  assumes store: "reliable (kv env) content" and tls: "mbedtls_works env key csr_for" and cloud: "cloud_serves env token issue"
    and cert: "ReadClientCertificate (kv env) (store d) \<in> {[], ''invalid''}" and ak: "ascii (decada_access_key env)"
  defines "w \<equiv> snd (drbg_seed env (world d))"
  shows "\<exists>d' pem csr. DecadaManager_init env d = Inr d' \<and>
    key (snd (rsa_gen_key env w)) = Some pem \<and> ReadClientPrivateKey (kv env) (store d') = pem \<and>
    csr = csr_for (''C=SG, ST=Singapore, L=Singapore, O=DECADA, OU=DECADA CA, CN='' @ device_uuid env @ timestamp_ms env w) pem \<and>
    (ReadClientCertificate (kv env) (store d'), ReadClientCertificateSerialNumber (kv env) (store d')) = issue csr \<and>
    fst (CryptoEngine_init env d') = []"
proof -
  note rw = ReadKey_WriteKey [OF store]
  define name where "name = GetCertificateSubjectName env w"
  obtain pem w2 where key: "key (snd (rsa_gen_key env w)) = Some pem"
      and init: "CryptoEngine_init env d = (csr_for name pem, d\<lparr>world := w2, store := WriteClientPrivateKey (kv env) pem (store d)\<rparr>)"
    using CryptoEngine_init_request [OF tls cert] unfolding w_def name_def by blast
  define csr where "csr = csr_for name pem"
  define d1 where "d1 = d\<lparr>world := w2, store := WriteClientPrivateKey (kv env) pem (store d)\<rparr>"
  have csr: "csr \<noteq> []" "ascii csr" and pem: "CHR 0x00 \<notin> set pem"
    using tls key by (auto simp: mbedtls_works_def csr_def text_ok_def)
  obtain c sn where i: "issue csr = (c, sn)"
    by (cases "issue csr")
  have ok: "CHR 0x00 \<notin> set c" "c \<notin> {[], ''invalid''}" "CHR 0x00 \<notin> set sn" "sn \<noteq> ''invalid''"
    using cloud i unfolding cloud_serves_def text_ok_def by (metis fst_conv snd_conv)+
  obtain w3 where sign: "SignCertificateSigningRequest env csr d1 = Inr (\<lparr>cert = c, cert_sn = sn\<rparr>, d1\<lparr>world := w3\<rparr>)"
    using SignCertificateSigningRequest_served [OF cloud ak csr(2)] i by fastforce
  define d2 where "d2 = d1\<lparr>world := w3, store := store_certificate env \<lparr>cert = c, cert_sn = sn\<rparr> (store d1)\<rparr>"
  have "DecadaManager_init env d = Inr d2"
    using ok(2,4) csr(1) init sign by (simp add: DecadaManager_init_def csr_def [symmetric] d1_def [symmetric] resp_valid_def)
      (simp add: d2_def)
  moreover have c: "ReadClientCertificate (kv env) (store d2) = c"
    using ok by (simp add: d2_def store_certificate_def readers writers rw key_names StringToChar_id)
  moreover have "ReadClientCertificateSerialNumber (kv env) (store d2) = sn" "ReadClientPrivateKey (kv env) (store d2) = pem"
    using ok pem by (simp_all add: d2_def d1_def store_certificate_def readers writers rw key_names StringToChar_id)
  moreover have "fst (CryptoEngine_init env d2) = []"
    using c ok(2) by (auto simp: CryptoEngine_init_def d2_def Let_def split: prod.splits)
  ultimately show ?thesis
    using key i by (intro exI [of _ d2] exI [of _ pem] exI [of _ csr]) (simp add: csr_def name_def GetCertificateSubjectName_def)
qed

text \<open>Talking to the cloud never resets the device and never writes to its store.\<close>

definition keeps_store :: "'k \<Rightarrow> 'k stop + ('a \<times> ('h, 'k, 'w) device) \<Rightarrow> bool" where
  "keeps_store k x = (case x of Inl e \<Rightarrow> (\<forall>k'. e \<noteq> System_reset k') | Inr (a, d) \<Rightarrow> store d = k)"

lemma keeps_store_simps [simp]:
  "keeps_store k (Inl e) = (\<forall>k'. e \<noteq> System_reset k')" "keeps_store k (Inr (a, d)) = (store d = k)"
  by (simp_all add: keeps_store_def)

lemma keeps_store_andThen:
  "keeps_store k x \<Longrightarrow> (\<And>a d. store d = k \<Longrightarrow> keeps_store k (f (a, d))) \<Longrightarrow> keeps_store k (andThen x f)"
  by (cases x) auto

lemma keeps_store_need:
  "\<forall>k'. e \<noteq> System_reset k' \<Longrightarrow> (\<And>a. keeps_store k (f a)) \<Longrightarrow> keeps_store k (andThen (need e x) f)"
  by (cases x) auto

lemma rest_call_keeps: "store d = k \<Longrightarrow> keeps_store k (rest_call env call d)"
  by (cases "https env call (world d)"; cases "fst (https env call (world d))") (auto simp: rest_call_def)

lemma answers_keep:
  "(\<And>a. keeps_store k (f a)) \<Longrightarrow> keeps_store k (andThen (answer_data io s) f)"
  "(\<And>a. keeps_store k (g a)) \<Longrightarrow> keeps_store k (andThen (answer_field io v key) g)"
  unfolding answer_data_def answer_field_def by (auto intro: keeps_store_need)

lemma GetAccessToken_keeps: "store d = k \<Longrightarrow> keeps_store k (GetAccessToken env d)"
  unfolding GetAccessToken_def by (auto intro!: keeps_store_andThen answers_keep rest_call_keeps)

lemma certificate_call_keeps: "store d = k \<Longrightarrow> keeps_store k (certificate_call env action body ts tok d)"
  unfolding certificate_call_def Let_def by (auto intro!: keeps_store_andThen answers_keep rest_call_keeps)

lemma RenewClientCertificate_keeps: "keeps_store (store d) (RenewClientCertificate env d)"
  unfolding RenewClientCertificate_def Let_def
  by (auto intro!: keeps_store_andThen GetAccessToken_keeps keeps_store_need certificate_call_keeps)

text \<open>
  A renewed certificate is stored with its serial number before the reset, and nothing is written when
  the cloud refuses.
\<close>

theorem renewal_stores_or_keeps:
  assumes "reliable (kv env) content"
  shows "(RenewCertificate env d = Inl (System_reset k) \<longrightarrow>
      (\<exists>resp d1. RenewClientCertificate env d = Inr (resp, d1) \<and> resp_valid resp \<and>
        ReadClientCertificate (kv env) k = StringToChar (cert resp) \<and>
        ReadClientCertificateSerialNumber (kv env) k = StringToChar (cert_sn resp))) \<and>
    (RenewCertificate env d = Inr (ok, d') \<longrightarrow> \<not> ok \<and> store d' = store d)"
proof (cases "RenewClientCertificate env d")
  case (Inl e)
  then show ?thesis
    using RenewClientCertificate_keeps [of d env] by (simp add: RenewCertificate_def)
next
  case (Inr r)
  then show ?thesis
    using RenewClientCertificate_keeps [of d env] ReadKey_WriteKey [OF assms]
    by (cases r) (auto intro!: exI [of _ "fst r"] simp: RenewCertificate_def store_certificate_def readers writers key_names)
qed

section \<open>No answer\<close>

text \<open>
  C17: When the request for a token gets no response, or an error reply, that is a JSON object without a member
  \<open>data\<close>, the program stops there: checking the device, having a certificate signed and renewing it all begin
  with this request and stop with the same error, before the word \<open>invalid\<close>, for which their callers look, can arise.
\<close>

theorem error_reply_stops:
  assumes "https env (token_call env (world d)) (world d) = (response, w)"
    and "case response of None \<Rightarrow> True
      | Some s \<Rightarrow> \<exists>ok ms. parse (json_io env) s = Some (ok, JObject ms) \<and> map_of ms ''data'' = None"
  shows "\<exists>e. e \<in> {Null_pointer, Json_exception} \<and> CheckDeviceCreation env d = Some (Inl e) \<and>
    SignCertificateSigningRequest env csr d = Inl e \<and> RenewCertificate env d = Inl e"
proof -
  have "\<exists>e. e \<in> {Null_pointer, Json_exception} \<and> GetAccessToken env d = Inl e"
    using assms by (auto simp: GetAccessToken_def rest_call_def answer_data_def answer_fields split: option.splits)
  then show ?thesis
    by (auto simp: CheckDeviceCreation_def GetDeviceSecret_def SignCertificateSigningRequest_def RenewCertificate_def
        RenewClientCertificate_def Let_def)
qed

section \<open>Examples\<close>

text \<open>A cloud and a board on which everything works, over a store in memory; and the same with another cloud.\<close>

definition sample_env ::
    "(http_call \<Rightarrow> string option) \<Rightarrow> ('h, 'w) mqtt_env \<Rightarrow> 'h \<Rightarrow> (string, 'h, string \<rightharpoonup> string, 'w) device_env" where
  "sample_env cloud link handler =
     \<lparr>kv = ram_store, json_io = text_io, https = \<lambda>call w. (cloud call, w), sha256 = \<lambda>s. replicate 32 (CHR 0x1F),
      time_now = \<lambda>w. 1600000000, device_uuid = ''0123'', decada_product_key = ''pk'', decada_access_key = ''ak'',
      decada_access_secret = ''as'', decada_ou_id = ''ou'', api_url = ''https://cloud'',
      drbg_seed = \<lambda>w. (0, w), rsa_gen_key = \<lambda>w. (0, w), pk_write_key_pem = \<lambda>w. (0, ''KEY''),
      csr_set_subject_name = \<lambda>name. 0, csr_pem = \<lambda>name w. (0, ''CSR'', w),
      socket_open = \<lambda>n w. (0, w), gethostbyname = \<lambda>host w. (0, w), socket_connect = \<lambda>n c k w. (0, w),
      socket_close = \<lambda>n w. (0, w),
      mqtt = \<lambda>n. link,
      memory = \<lambda>w. \<lparr>command_timeout_ms = 0, sendbuf = replicate 500 0, readbuf = replicate 500 0,
        last_sent = \<lparr>cd_start = None, interval_end_ms = 0\<rparr>, last_received = \<lparr>cd_start = None, interval_end_ms = 0\<rparr>,
        ping_sent = \<lparr>cd_start = None, interval_end_ms = 0\<rparr>, keepAliveInterval = 0, ping_outstanding = False,
        cleansession = True, packetid = 0, messageHandlers = replicate 10 \<lparr>topicFilter = None, fp = None\<rparr>,
        defaultMessageHandler = None, isconnected = False, pubbuf = replicate 500 0, inflightLen = 0, inflightMsgid = 0,
        inflightQoS = 0\<rparr>,
      arrival_callback = handler\<rparr>"

text \<open>
  The cloud of the examples answers a request for a token, and issues a certificate that holds the
  characters of the certificate request; a board whose world is the key pair it holds.
\<close>

definition plain_text :: "string \<Rightarrow> string" where
  "plain_text s = filter (\<lambda>c. 0 < code c \<and> code c < 128) s"

definition sample_issue :: "string \<Rightarrow> string \<times> string" where
  "sample_issue csr = (''CERT '' @ plain_text csr, ''42'')"

definition good_cloud :: "http_call \<Rightarrow> string option" where
  "good_cloud call =
     (if call_url call = ''https://cloud/apim-token-service/v2.0/token/get'' then
        Some (writeValue text_io (JObject [(''data'', JObject [(''accessToken'', JString ''TOKEN'')])]))
      else case parse text_io (call_body call) of
        Some (ok, JObject [(field, JString csr), validity]) \<Rightarrow>
          Some (writeValue text_io (JObject [(''data'', JObject [(''cert'', JString (fst (sample_issue csr))),
            (''certSN'', JString (snd (sample_issue csr)))])]))
      | _ \<Rightarrow> None)"

definition no_link :: "(unit, 'w) mqtt_env" where
  "no_link = \<lparr>ipstack_read = \<lambda>w n t. (0, [], w), ipstack_write = \<lambda>w bs t. (-1, w), clock_ms = \<lambda>w. 0,
     run_handler = \<lambda>h topic m w. w\<rparr>"

definition cloud_env :: "(http_call \<Rightarrow> string option) \<Rightarrow> (string, unit, string \<rightharpoonup> string, unit) device_env" where
  "cloud_env cloud = sample_env cloud no_link ()"

definition sample_csr :: "string \<Rightarrow> string \<Rightarrow> string" where
  "sample_csr name pem = ''CSR '' @ plain_text name @ plain_text pem"

definition key_env :: "(string, unit, string \<rightharpoonup> string, string option) device_env" where
  "key_env = (sample_env good_cloud no_link ())\<lparr>rsa_gen_key := \<lambda>w. (0, Some ''KEY''),
     pk_write_key_pem := \<lambda>w. (case w of None \<Rightarrow> (-1, []) | Some pem \<Rightarrow> (0, plain_text pem)),
     csr_pem := \<lambda>name w. (case w of None \<Rightarrow> (-1, [], w) | Some pem \<Rightarrow> (0, sample_csr name (plain_text pem), w))\<rparr>"

definition new_device :: "'w \<Rightarrow> ('h, string \<rightharpoonup> string, 'w) device" where
  "new_device w = \<lparr>store = (\<lambda>_. None), world = w, device_secret = [], sub_topics = [], mqtt_network = None,
     mqtt_client = None, networks = 0, freed = [], mqtt_failed_reconnections = 0\<rparr>"

lemma sample_store [simp]: "kv (sample_env cloud link handler) = ram_store" "kv (cloud_env cloud) = ram_store" "kv key_env = ram_store"
  by (simp_all add: cloud_env_def sample_env_def key_env_def)

lemma plain_text_ok [simp]: "text_ok (plain_text s)"
  by (auto simp: text_ok_def plain_text_def ascii_def code_def)

lemma text_ok_constants [simp]: "text_ok ''CERT ''" "text_ok ''CSR ''" "text_ok ''42''" "ascii ''TOKEN''" "plain_text ''KEY'' = ''KEY''"
  by (simp_all add: text_ok_def ascii_def plain_text_def code_def)

lemma text_ok_append [simp]: "text_ok (s @ t) \<longleftrightarrow> text_ok s \<and> text_ok t"
  by (auto simp: text_ok_def ascii_def)

lemma sample_reply:
  assumes "sorted_wrt (<) (map fst named)" "list_all (\<lambda>(name, v). ascii name \<and> ascii v) named"
  shows "replies_with text_io named (writeValue text_io (JObject [(''data'', JObject (map (\<lambda>(name, v). (name, JString v)) named))]))"
proof -
  let ?data = "map (\<lambda>(name, v). (name, JString v :: string Json)) named"
  let ?v = "JObject [(''data'', JObject ?data)]"
  have names: "map fst ?data = map fst named"
    by (simp add: case_prod_unfold comp_def)
  have d: "foldr (\<lambda>(k, v) n. max (depth v) n) ?data 0 \<le> 1"
    by (induction named) auto
  have "json_ok text_io ?v" "normal ?v = ?v" "depth ?v \<le> 1000"
    using assms d by (auto simp: names list_all_iff ascii_def code_def case_prod_unfold comp_def)
  then have "parse text_io (writeValue text_io ?v) = Some (True, ?v)"
    using value_read [of text_io ?v] by simp
  moreover have "list_all (\<lambda>(name, v). map_of ?data name = Some (JString v)) named"
  proof -
    have "map_of named name = Some v" if "(name, v) \<in> set named" for name v
      using assms(1) that by (intro map_of_is_SomeI) (simp_all add: strict_sorted_iff)
    then show ?thesis
      by (auto simp: list_all_iff map_of_map)
  qed
  ultimately show ?thesis
    by (auto simp: replies_with_def)
qed

lemma key_env_serves: "cloud_serves key_env ''TOKEN'' sample_issue"
proof -
  have base: "json_io key_env = text_io" "https key_env = (\<lambda>call w. (good_cloud call, w))" "api_url key_env = ''https://cloud''"
    by (simp_all add: key_env_def sample_env_def)
  have "good_cloud call = Some (writeValue text_io (JObject [(''data'', JObject [(''accessToken'', JString ''TOKEN'')])]))"
    if "token_request key_env call" for call
    using that by (simp add: good_cloud_def token_request_def base)
  moreover have "good_cloud call = Some (writeValue text_io (JObject [(''data'', JObject [(''cert'', JString (fst (sample_issue csr))),
      (''certSN'', JString (snd (sample_issue csr)))])]))" if "apply_request key_env ''TOKEN'' csr call" for call csr
    using that by (simp add: good_cloud_def apply_request_def base)
  moreover have issued: "text_ok (fst (sample_issue csr))" "text_ok (snd (sample_issue csr))" for csr
    by (simp_all add: sample_issue_def del: append_Cons)
  moreover have "replies_with text_io [(''accessToken'', ''TOKEN'')] (writeValue text_io (JObject [(''data'', JObject [(''accessToken'', JString ''TOKEN'')])]))"
    using sample_reply [of "[(''accessToken'', ''TOKEN'')]"] by (simp add: ascii_def code_def)
  moreover have "replies_with text_io [(''cert'', fst (sample_issue csr)), (''certSN'', snd (sample_issue csr))]
      (writeValue text_io (JObject [(''data'', JObject [(''cert'', JString (fst (sample_issue csr))),
      (''certSN'', JString (snd (sample_issue csr)))])]))" for csr
    using sample_reply [of "[(''cert'', fst (sample_issue csr)), (''certSN'', snd (sample_issue csr))]"] issued [of csr]
    by (simp add: text_ok_def) (simp add: ascii_def code_def)
  ultimately show ?thesis
    unfolding cloud_serves_def base by (simp add: sample_issue_def)
qed

lemma key_env_works: "mbedtls_works key_env (map_option plain_text) sample_csr"
  by (auto simp: mbedtls_works_def key_env_def sample_env_def sample_csr_def simp del: append_Cons)

theorem provisioning_stores_certificate_witness:
  "\<exists>d'. DecadaManager_init key_env (new_device None) = Inr d' \<and> ReadClientPrivateKey ram_store (store d') = ''KEY'' \<and>
    (ReadClientCertificate ram_store (store d'), ReadClientCertificateSerialNumber ram_store (store d')) =
      sample_issue (sample_csr (''C=SG, ST=Singapore, L=Singapore, O=DECADA, OU=DECADA CA, CN='' @ ''0123'' @ timestamp_ms key_env None) ''KEY'') \<and>
    fst (CryptoEngine_init key_env d') = []"
proof -
  have env: "drbg_seed key_env = (\<lambda>w. (0, w))" "rsa_gen_key key_env = (\<lambda>w. (0, Some ''KEY''))" "device_uuid key_env = ''0123''"
      "decada_access_key key_env = ''ak''"
    by (simp_all add: key_env_def sample_env_def)
  have "ReadClientCertificate (kv key_env) (store (new_device None)) \<in> {[], ''invalid''}" "ascii (decada_access_key key_env)"
    by (simp_all add: new_device_def readers ReadKey_def ram_store_def env ascii_def code_def)
  from provisioning_stores_certificate [OF _ key_env_works key_env_serves this] show ?thesis
    using ram_store_reliable by (simp add: env new_device_def del: append_Cons)
qed

theorem error_reply_stops_witness:
  "\<exists>e. e \<in> {Null_pointer, Json_exception} \<and> CheckDeviceCreation (cloud_env (\<lambda>call. None)) (new_device ()) = Some (Inl e)"
  using error_reply_stops [of "cloud_env (\<lambda>call. None)" "new_device ()" None "()"] by (auto simp: cloud_env_def sample_env_def)

end
