(* ===== verification/App_Link.thy ===== *)
theory App_Link
  imports App_Cloud Mqtt_Broker Mqtt_Faults
begin

text \<open>
  \<open>src/DecadaManager/decada_manager.cpp\<close>, the part that keeps the MQTT connection, with \<open>MQTTNetwork.h\<close>:
  connecting, publishing, subscribing, and the reconnection with its deletions. The client of
  \<open>MQTTClient.h\<close> is the one of the theory \<open>Mqtt_Client\<close>.
\<close>

section \<open>The client behind the pointer\<close>

definition mqtt_bytes :: "string \<Rightarrow> byte list" where
  "mqtt_bytes s = map (\<lambda>c. word_of_nat (code c)) s"

definition c_str :: "string \<Rightarrow> byte list" where
  "c_str s = mqtt_bytes (StringToChar s)"

text \<open>
  A client made on a network that has been deleted still holds a reference to it. The flag in the state tells
  whether it was used.
\<close>

definition network_env :: "bool \<Rightarrow> ('h, 'w) mqtt_env \<Rightarrow> ('h, 'w \<times> bool) mqtt_env" where
  "network_env dead env =
     \<lparr>ipstack_read = (\<lambda>(w, used) n t. if dead then (-1, [], (w, True))
        else case ipstack_read env w n t of (rc, bs, w) \<Rightarrow> (rc, bs, (w, used))),
      ipstack_write = (\<lambda>(w, used) bs t. if dead then (-1, (w, True))
        else case ipstack_write env w bs t of (rc, w) \<Rightarrow> (rc, (w, used))),
      clock_ms = (\<lambda>(w, used). clock_ms env w),
      run_handler = (\<lambda>h topic m (w, used). (run_handler env h topic m w, used))\<rparr>"

type_synonym ('h, 'w) client_op =
  "('h, 'w \<times> bool) mqtt_env \<Rightarrow> 'h Client \<Rightarrow> 'w \<times> bool \<Rightarrow> (int \<times> 'h Client \<times> 'w \<times> bool) option"

definition on_client ::
    "('r, 'h, 'k, 'w) device_env \<Rightarrow> ('h, 'w) client_op \<Rightarrow> ('h, 'k, 'w) device \<Rightarrow> 'k stop + (int \<times> ('h, 'k, 'w) device)" where
  "on_client env f d =
     (case mqtt_client d of
        None \<Rightarrow> Inl Null_pointer
      | Some (n, c) \<Rightarrow>
          (case f (network_env (n \<in> set (freed d)) (mqtt env n)) c (world d, False) of
             None \<Rightarrow> Inl Stuck
           | Some (rc, c, w, used) \<Rightarrow>
               if n \<in> set (freed d) \<and> used then Inl Freed_network else Inr (rc, d\<lparr>mqtt_client := Some (n, c), world := w\<rparr>)))"

definition Publish ::
    "('r, 'h, 'k, 'w) device_env \<Rightarrow> string \<Rightarrow> string \<Rightarrow> ('h, 'k, 'w) device \<Rightarrow> 'k stop + (bool \<times> ('h, 'k, 'w) device)" where
  "Publish env topic payload d =
     andThen (on_client env (\<lambda>e. publish_message e (c_str topic) (mqtt_bytes payload) (word_of_nat (length payload)) 0 False) d)
       (\<lambda>(rc, d). Inr (rc = SUCCESS, d))"

definition Subscribe ::
    "('r, 'h, 'k, 'w) device_env \<Rightarrow> string \<Rightarrow> ('h, 'k, 'w) device \<Rightarrow> 'k stop + (bool \<times> ('h, 'k, 'w) device)" where
  "Subscribe env topic d =
     (let d = d\<lparr>sub_topics := List.insert topic (sub_topics d)\<rparr> in
      andThen (on_client env (\<lambda>e. subscribe_plain e (c_str topic) 1 (Some (arrival_callback env))) d)
        (\<lambda>(rc, d). Inr (rc = SUCCESS, d)))"

section \<open>Connecting\<close>

text \<open>The new network is stored before it is connected; \<open>MQTTNetwork::connect\<close> is written out.\<close>

definition ConnectMqttNetwork ::
    "('r, 'h, 'k, 'w) device_env \<Rightarrow> ('h, 'k, 'w) device \<Rightarrow> bool \<times> ('h, 'k, 'w) device" where
  "ConnectMqttNetwork env d =
     (let n = networks d; d = d\<lparr>mqtt_network := Some n, networks := Suc n\<rparr> in
      case socket_open env n (world d) of (rc, w) \<Rightarrow>
        if rc \<noteq> 0 then (False, d\<lparr>world := w\<rparr>)
        else case gethostbyname env ''mqtt.decada.gov.sg'' w of (rc, w) \<Rightarrow>
          if rc \<noteq> 0 then (False, d\<lparr>world := w\<rparr>)
          else case socket_connect env n (ReadClientCertificate (kv env) (store d)) (ReadClientPrivateKey (kv env) (store d)) w of
            (rc, w) \<Rightarrow> (rc = 0, d\<lparr>world := w\<rparr>))"

definition plain_string :: "string \<Rightarrow> MQTTString" where
  "plain_string s = MQTTString_initializer\<lparr>cstring := Some (c_str s)\<rparr>"

definition client_options :: "('r, 'h, 'k, 'w) device_env \<Rightarrow> ('h, 'k, 'w) device \<Rightarrow> MQTTPacket_connectData" where
  "client_options env d =
     (let time_now_milli_sec = timestamp_ms env (world d);
          sha256_input = ''clientId'' @ device_uuid env @ ''deviceKey'' @ device_uuid env @ ''productKey'' @
            decada_product_key env @ ''timestamp'' @ time_now_milli_sec @ device_secret d;
          sha256_output = GenericSHA256Generator env sha256_input;
          client_id = device_uuid env @ ''|securemode=2,signmethod=sha256,timestamp='' @ time_now_milli_sec @ ''|'';
          username = device_uuid env @ ''&'' @ decada_product_key env
      in MQTTPacket_connectData_initializer\<lparr>cd_MQTTVersion := 3, cd_clientID := plain_string client_id,
           cd_username := plain_string username, cd_password := plain_string (ToLowerCase sha256_output),
           cd_keepAliveInterval := 3600\<rparr>)"

definition ConnectMqttClient ::
    "('r, 'h, 'k, 'w) device_env \<Rightarrow> ('h, 'k, 'w) device \<Rightarrow> 'k stop + (bool \<times> ('h, 'k, 'w) device)" where
  "ConnectMqttClient env d =
     (case mqtt_network d of
        None \<Rightarrow> Inl Null_pointer
      | Some n \<Rightarrow>
          andThen (on_client env (\<lambda>e. connect_plain e (client_options env d))
              (d\<lparr>mqtt_client := Some (n, Client_init (memory env (world d)) 30000)\<rparr>))
            (\<lambda>(rc, d). Inr (rc = SUCCESS, d)))"

definition Connect ::
    "('r, 'h, 'k, 'w) device_env \<Rightarrow> ('h, 'k, 'w) device \<Rightarrow> ('k stop + (bool \<times> ('h, 'k, 'w) device)) option" where
  "Connect env d =
     map_option (\<lambda>checked. andThen checked (\<lambda>(secret, d).
       case ConnectMqttNetwork env (d\<lparr>device_secret := secret\<rparr>) of
         (ok, d) \<Rightarrow> if ok then ConnectMqttClient env d else Inr (False, d)))
     (CheckDeviceCreation env d)"

section \<open>Disconnecting\<close>

definition DisconnectMqttNetwork ::
    "('r, 'h, 'k, 'w) device_env \<Rightarrow> ('h, 'k, 'w) device \<Rightarrow> 'k stop + ('h, 'k, 'w) device" where
  "DisconnectMqttNetwork env d =
     (case mqtt_network d of
        None \<Rightarrow> Inl Null_pointer
      | Some n \<Rightarrow> Inr (d\<lparr>world := snd (socket_close env n (world d)), freed := n # freed d, mqtt_network := None\<rparr>))"

primrec drop_topics ::
    "('r, 'h, 'k, 'w) device_env \<Rightarrow> string list \<Rightarrow> ('h, 'k, 'w) device \<Rightarrow> 'k stop + ('h, 'k, 'w) device" where
  "drop_topics env [] d = Inr d"
| "drop_topics env (sub_topic # ts) d =
     andThen (on_client env (\<lambda>e. unsubscribe e (c_str sub_topic)) d) (\<lambda>(rc, d).
     andThen (on_client env (\<lambda>e c w. case setMessageHandler (c_str sub_topic) None c of (rc, c) \<Rightarrow> Some (rc, c, w)) d)
       (\<lambda>(rc, d). drop_topics env ts d))"

definition client_connected :: "('h, 'k, 'w) device \<Rightarrow> bool" where
  "client_connected d = (case mqtt_client d of None \<Rightarrow> False | Some (n, c) \<Rightarrow> isconnected c)"

definition DisconnectMqttClient ::
    "('r, 'h, 'k, 'w) device_env \<Rightarrow> ('h, 'k, 'w) device \<Rightarrow> 'k stop + ('h, 'k, 'w) device" where
  "DisconnectMqttClient env d =
     andThen (drop_topics env (sub_topics d) d) (\<lambda>d.
       if mqtt_client d = None then Inl Null_pointer
       else andThen (if client_connected d then map_sum (\<lambda>e. e) snd (on_client env disconnect d) else Inr d)
         (\<lambda>d. Inr (d\<lparr>mqtt_client := None\<rparr>)))"

section \<open>Reconnecting\<close>

definition ReconnectMqttNetwork ::
    "('r, 'h, 'k, 'w) device_env \<Rightarrow> ('h, 'k, 'w) device \<Rightarrow> bool \<times> ('h, 'k, 'w) device" where
  "ReconnectMqttNetwork env d = ConnectMqttNetwork env d"

primrec subscribe_all ::
    "('r, 'h, 'k, 'w) device_env \<Rightarrow> string list \<Rightarrow> bool \<Rightarrow> ('h, 'k, 'w) device \<Rightarrow> 'k stop + (bool \<times> ('h, 'k, 'w) device)" where
  "subscribe_all env [] subscribed d = Inr (subscribed, d)"
| "subscribe_all env (sub_topic # ts) subscribed d =
     andThen (Subscribe env sub_topic d) (\<lambda>(ok, d). subscribe_all env ts (subscribed \<and> ok) d)"

definition ReconnectMqttClient ::
    "('r, 'h, 'k, 'w) device_env \<Rightarrow> ('h, 'k, 'w) device \<Rightarrow> 'k stop + (bool \<times> ('h, 'k, 'w) device)" where
  "ReconnectMqttClient env d =
     andThen (ConnectMqttClient env d) (\<lambda>(connected, d).
     andThen (subscribe_all env (sub_topics d) True d) (\<lambda>(subscribed, d). Inr (connected \<and> subscribed, d)))"

definition reconnect_once ::
    "('r, 'h, 'k, 'w) device_env \<Rightarrow> ('h, 'k, 'w) device \<Rightarrow> 'k stop + (bool \<times> ('h, 'k, 'w) device)" where
  "reconnect_once env d =
     (case ReconnectMqttNetwork env d of (network_is_connected, d) \<Rightarrow>
        andThen (ReconnectMqttClient env d) (\<lambda>(client_is_connected, d). Inr (network_is_connected \<and> client_is_connected, d)))"

text \<open>The counter is a byte; \<open>failed\<close> is its value.\<close>

definition max_mqtt_failed_reconnections :: "8 word" where "max_mqtt_failed_reconnections = 5"

lemma counter_decreases:
  "failed + 1 \<noteq> max_mqtt_failed_reconnections \<Longrightarrow> unat (3 - failed) < unat (4 - failed)"
proof -
  assume "failed + 1 \<noteq> max_mqtt_failed_reconnections"
  then have "4 - failed \<noteq> 0"
    by (auto simp: max_mqtt_failed_reconnections_def)
  then have "unat (4 - failed - 1) < unat (4 - failed)"
    by (metis measure_unat)
  then show ?thesis
    by (simp add: algebra_simps)
qed

function reconnect_loop ::
    "('r, 'h, 'k, 'w) device_env \<Rightarrow> 8 word \<Rightarrow> bool \<Rightarrow> ('h, 'k, 'w) device \<Rightarrow> 'k stop + ('h, 'k, 'w) device" where
  "reconnect_loop env failed ok d =
     (if ok then Inr (d\<lparr>mqtt_failed_reconnections := 0\<rparr>)
      else case reconnect_once env d of
        Inl e \<Rightarrow> Inl e
      | Inr (ok, d) \<Rightarrow>
          if failed + 1 = max_mqtt_failed_reconnections then Inl (System_reset (store d))
          else reconnect_loop env (failed + 1) ok d)"
  by pat_completeness auto
termination
  by (relation "measure (\<lambda>(env, failed, ok, d). unat (4 - failed))") (simp_all add: counter_decreases)

declare reconnect_loop.simps [simp del]

definition ReconnectMqttService ::
    "('r, 'h, 'k, 'w) device_env \<Rightarrow> ('h, 'k, 'w) device \<Rightarrow> 'k stop + (bool \<times> ('h, 'k, 'w) device)" where
  "ReconnectMqttService env d =
     andThen (DisconnectMqttNetwork env d) (\<lambda>d.
     andThen (DisconnectMqttClient env d) (\<lambda>d.
     andThen (reconnect_once env d) (\<lambda>(ok, d).
     andThen (reconnect_loop env (mqtt_failed_reconnections d) ok d) (\<lambda>d. Inr (True, d)))))"

definition Reconnect ::
    "('r, 'h, 'k, 'w) device_env \<Rightarrow> ('h, 'k, 'w) device \<Rightarrow> 'k stop + (bool \<times> ('h, 'k, 'w) device)" where
  "Reconnect env d = ReconnectMqttService env d"

text \<open>One round of \<open>subscription_manager_thread\<close>: \<open>yield\<close> for a second, reconnect if that closed the session.\<close>

definition subscription_round ::
    "('r, 'h, 'k, 'w) device_env \<Rightarrow> ('h, 'k, 'w) device \<Rightarrow> 'k stop + ('h, 'k, 'w) device" where
  "subscription_round env d =
     (if mqtt_client d = None then Inr d
      else andThen (on_client env (\<lambda>e. yield e 1000) d) (\<lambda>(rc, d).
        if client_connected d then Inr d else map_sum (\<lambda>e. e) snd (Reconnect env d)))"

section \<open>What the operations touch\<close>

lemma on_client_Inr:
  assumes "on_client env f d = Inr (rc, d')"
  obtains n c c' w where "mqtt_client d = Some (n, c)" "d' = d\<lparr>mqtt_client := Some (n, c'), world := w\<rparr>"
  using assms by (auto simp: on_client_def split: option.splits prod.splits if_splits)

text \<open>A device whose client was made on its present network, which is not deleted, \<open>k\<close> networks later.\<close>

definition linked :: "nat \<Rightarrow> ('h, 'k, 'w) device \<Rightarrow> ('h, 'k, 'w) device \<Rightarrow> bool" where
  "linked k d d' \<longleftrightarrow> networks d' = networks d + k \<and> freed d' = freed d \<and> store d' = store d \<and>
     mqtt_failed_reconnections d' = mqtt_failed_reconnections d \<and>
     (\<exists>n c. mqtt_client d' = Some (n, c) \<and> mqtt_network d' = Some n \<and> networks d' = Suc n)"

definition no_reset :: "'k stop \<Rightarrow> bool" where
  "no_reset e \<longleftrightarrow> (\<forall>k. e \<noteq> System_reset k)"

lemma on_client_linked: "linked k d0 d \<Longrightarrow> on_client env f d = Inr (rc, d') \<Longrightarrow> linked k d0 d'"
  by (erule on_client_Inr) (auto simp add: linked_def)

lemma on_client_stop: "on_client env f d = Inl e \<Longrightarrow> no_reset e"
  by (auto simp: on_client_def no_reset_def split: option.splits prod.splits if_splits)

lemma Subscribe_linked:
  assumes "linked k d0 d" "Subscribe env topic d = Inr (ok, d')"
  shows "linked k d0 d'"
proof -
  obtain rc where "on_client env (\<lambda>e. subscribe_plain e (c_str topic) 1 (Some (arrival_callback env)))
      (d\<lparr>sub_topics := List.insert topic (sub_topics d)\<rparr>) = Inr (rc, d')"
    using assms(2) by (auto simp: Subscribe_def Let_def andThen_Inr_iff)
  moreover have "linked k d0 (d\<lparr>sub_topics := List.insert topic (sub_topics d)\<rparr>)"
    using assms(1) by (auto simp: linked_def)
  ultimately show ?thesis
    by (rule on_client_linked [rotated])
qed

lemma subscribe_all_linked: "linked k d0 d \<Longrightarrow> subscribe_all env ts ok d = Inr (ok', d') \<Longrightarrow> linked k d0 d'"
  by (induction ts arbitrary: ok d) (auto simp: andThen_Inr_iff dest: Subscribe_linked)

lemma ConnectMqttNetwork_effect:
  "ConnectMqttNetwork env d = (ok, d') \<Longrightarrow>
    \<exists>w. d' = d\<lparr>mqtt_network := Some (networks d), networks := Suc (networks d), world := w\<rparr>"
  by (auto simp: ConnectMqttNetwork_def Let_def split: prod.splits if_splits)

lemma reconnect_once_linked:
  assumes "reconnect_once env d = Inr (ok, d')"
  shows "linked 1 d d'"
proof -
  obtain up d1 where 1: "ConnectMqttNetwork env d = (up, d1)"
    by (cases "ConnectMqttNetwork env d")
  define d2 where "d2 = d1\<lparr>mqtt_client := Some (networks d, Client_init (memory env (world d1)) 30000)\<rparr>"
  have net: "mqtt_network d1 = Some (networks d)" and l: "linked 1 d d2"
    using ConnectMqttNetwork_effect [OF 1] by (auto simp: linked_def d2_def)
  obtain rc d3 where 3: "on_client env (\<lambda>e. connect_plain e (client_options env d1)) d2 = Inr (rc, d3)"
    and sub: "\<exists>ok. subscribe_all env (sub_topics d3) True d3 = Inr (ok, d')"
    using assms net
    by (auto simp: reconnect_once_def ReconnectMqttNetwork_def ReconnectMqttClient_def 1 andThen_Inr_iff ConnectMqttClient_def d2_def)
  have "linked 1 d d3"
    using l 3 by (rule on_client_linked)
  then show ?thesis
    using sub subscribe_all_linked by blast
qed

lemma linked_trans: "linked k d d' \<Longrightarrow> linked m d' d'' \<Longrightarrow> linked (k + m) d d''"
  by (auto simp: linked_def)

lemma counter_steps:
  fixes failed :: "8 word"
  assumes "failed \<le> 4" "failed + 1 \<noteq> max_mqtt_failed_reconnections"
  shows "unat (failed + 1) = unat failed + 1" "unat failed < 4" "failed + 1 \<le> 4"
proof -
  have "unat failed \<le> 4"
    using assms(1) by (simp add: word_le_nat_alt)
  then have "unat failed = 0 \<or> unat failed = 1 \<or> unat failed = 2 \<or> unat failed = 3 \<or> unat failed = 4"
    by arith
  then have "failed = 0 \<or> failed = 1 \<or> failed = 2 \<or> failed = 3 \<or> failed = 4"
    by (auto simp: word_unat_eq_iff)
  then show "unat (failed + 1) = unat failed + 1" "unat failed < 4" "failed + 1 \<le> 4"
    using assms(2) by (auto simp: max_mqtt_failed_reconnections_def)
qed

lemma reconnect_loop_linked:
  assumes "reconnect_loop env failed ok d = Inr d'" "linked k d0 d" "failed \<le> 4"
  shows "\<exists>j d1. j \<le> 4 - unat failed \<and> linked (k + j) d0 d1 \<and> d' = d1\<lparr>mqtt_failed_reconnections := 0\<rparr>"
  using assms
proof (induction env failed ok d arbitrary: k rule: reconnect_loop.induct)
  case (1 env failed ok d)
  show ?case
  proof (cases ok)
    case True
    then have "d' = d\<lparr>mqtt_failed_reconnections := 0\<rparr>"
      using 1(2) by (simp add: reconnect_loop.simps)
    then show ?thesis
      using 1(3) by (intro exI [of _ 0] exI [of _ d]) simp
  next
    case False
    obtain ok1 d1 where r: "reconnect_once env d = Inr (ok1, d1)"
      using 1(2) False by (cases "reconnect_once env d") (auto simp: reconnect_loop.simps)
    have more: "failed + 1 \<noteq> max_mqtt_failed_reconnections" "reconnect_loop env (failed + 1) ok1 d1 = Inr d'"
      using 1(2) False r by (auto simp: reconnect_loop.simps [of env failed] split: if_splits)
    have l: "linked (k + 1) d0 d1"
      using linked_trans [OF 1(3) reconnect_once_linked [OF r]] .
    have u: "unat (failed + 1) = unat failed + 1" "unat failed < 4" "failed + 1 \<le> 4"
      using counter_steps [OF 1(4) more(1)] by simp_all
    then obtain j d2 where "j \<le> 4 - unat (failed + 1)" "linked (k + 1 + j) d0 d2" "d' = d2\<lparr>mqtt_failed_reconnections := 0\<rparr>"
      using 1(1) [OF False r _ more(1) more(2) l] by blast
    then show ?thesis
      using u by (intro exI [of _ "Suc j"] exI [of _ d2]) auto
  qed
qed

lemma drop_topics_keeps:
  "drop_topics env ts d = Inr d' \<Longrightarrow>
    networks d' = networks d \<and> freed d' = freed d \<and> store d' = store d \<and>
    mqtt_failed_reconnections d' = mqtt_failed_reconnections d"
  by (induction ts arbitrary: d) (auto simp: andThen_Inr_iff elim!: on_client_Inr)

lemma DisconnectMqttClient_keeps:
  assumes "DisconnectMqttClient env d = Inr d'"
  shows "networks d' = networks d \<and> freed d' = freed d \<and> store d' = store d \<and>
    mqtt_failed_reconnections d' = mqtt_failed_reconnections d"
proof -
  obtain d1 where 1: "drop_topics env (sub_topics d) d = Inr d1"
    and more: "andThen (if client_connected d1 then map_sum (\<lambda>e. e) snd (on_client env disconnect d1) else Inr d1)
         (\<lambda>d. Inr (d\<lparr>mqtt_client := None\<rparr>)) = Inr d'"
    using assms by (auto simp: DisconnectMqttClient_def andThen_Inr_iff split: if_splits)
  have "networks d' = networks d1 \<and> freed d' = freed d1 \<and> store d' = store d1 \<and>
      mqtt_failed_reconnections d' = mqtt_failed_reconnections d1"
  proof (cases "client_connected d1")
    case True
    then obtain rc d2 where "on_client env disconnect d1 = Inr (rc, d2)" "d' = d2\<lparr>mqtt_client := None\<rparr>"
      using more by (cases "on_client env disconnect d1") auto
    then show ?thesis
      by (auto elim!: on_client_Inr)
  qed (use more in auto)
  then show ?thesis
    using drop_topics_keeps [OF 1] by simp
qed

section \<open>What a reconnection achieves\<close>

text \<open>
  C9: A reconnection that returns has succeeded: it returns true, it has made one to five networks, the client belongs
  to the last of them, which is the present network, the old network is the only one deleted, and the settings
  are untouched; otherwise the device has been reset or stopped.
\<close>

theorem reconnect_outcome:
  assumes "Reconnect env d = Inr (b, d')" "mqtt_failed_reconnections d = 0"
    and "mqtt_network d = Some old" "old < networks d" "\<forall>m \<in> set (freed d). m < networks d"
  shows "b \<and> (\<exists>n c. mqtt_client d' = Some (n, c) \<and> mqtt_network d' = Some n \<and> networks d' = Suc n \<and> n \<notin> set (freed d')) \<and>
    freed d' = old # freed d \<and> store d' = store d \<and>
    networks d < networks d' \<and> networks d' \<le> networks d + 5"
proof -
  obtain d1 d2 d3 ok where 1: "DisconnectMqttNetwork env d = Inr d1" and 2: "DisconnectMqttClient env d1 = Inr d2"
    and 3: "reconnect_once env d2 = Inr (ok, d3)" and 4: "reconnect_loop env (mqtt_failed_reconnections d3) ok d3 = Inr d'" and b: b
    using assms(1) by (auto simp: Reconnect_def ReconnectMqttService_def andThen_Inr_iff)
  have d1: "freed d1 = old # freed d" "networks d1 = networks d" "store d1 = store d" "mqtt_failed_reconnections d1 = 0"
    using 1 assms(2,3) by (auto simp: DisconnectMqttNetwork_def)
  have zero: "mqtt_failed_reconnections d3 = 0"
    using reconnect_once_linked [OF 3] DisconnectMqttClient_keeps [OF 2] d1 by (simp add: linked_def)
  obtain j d4 where "j \<le> 4" "linked (1 + j) d2 d4" "d' = d4\<lparr>mqtt_failed_reconnections := 0\<rparr>"
    using reconnect_loop_linked [OF 4 reconnect_once_linked [OF 3]] zero by auto
  then have "networks d' = networks d + 1 + j" "freed d' = old # freed d" "store d' = store d"
    "\<exists>n c. mqtt_client d' = Some (n, c) \<and> mqtt_network d' = Some n \<and> networks d' = Suc n"
    using DisconnectMqttClient_keeps [OF 2] d1 by (auto simp: linked_def)
  then show ?thesis
    using b assms(4,5) \<open>j \<le> 4\<close> by fastforce
qed

section \<open>A deleted network\<close>

lemma unsubscribe_text:
  assumes "length buf = 500" "length s \<le> 480"
  shows "\<exists>k b. MQTTSerialize_unsubscribe buf MAX_MQTT_PACKET_SIZE 0 pid 1 [string_topic s] = Some (int k, b) \<and>
    0 < k \<and> k \<le> 500 \<and> length b = 500"
proof -
  define n where "n = 4 + length s"
  have len: "MQTTSerialize_unsubscribeLength 1 [string_topic s] = Some (int n)"
    by (simp add: MQTTSerialize_unsubscribeLength_def nth_opt_def string_topic_def MQTTstrlen_def n_def)
  have ok: "str_ok (string_topic s)" "str_bytes (string_topic s) = s"
    by (simp_all add: str_ok_def string_topic_def str_bytes_def)
  have fit1: "MQTTPacket_len (int n) \<le> 500"
    using assms(2) by (simp add: n_def MQTTPacket_len_def Let_def)
  moreover have "int (1 + length (enc_len n) + n) \<le> MQTTPacket_len (int n)"
    by (rule MQTTPacket_len_enough) (use assms(2) in \<open>simp add: n_def\<close>)
  ultimately have fit: "MQTTPacket_len (int n) \<le> 500" "1 + length (enc_len n) + n \<le> 500"
    by linarith+
  define e where "e = header_byte \<lparr>hdr_retain = 0, hdr_qos = 1, hdr_dup = 0, hdr_type = 10\<rparr> #
    enc_len n @ be16 (unat pid) @ enc_str s"
  have e: "length e \<le> 500" "0 < length e"
    using fit(2) by (simp_all add: e_def n_def enc_str_def)
  have "MQTTSerialize_unsubscribe buf MAX_MQTT_PACKET_SIZE 0 pid 1 [string_topic s] =
      map_option (\<lambda>ptr. (int (snd ptr), fst ptr)) (put e (buf, 0))"
    using fit(1) ok by (simp add: MQTTSerialize_unsubscribe_def len MAX_MQTT_PACKET_SIZE_def nth_opt_def put_simps bind_map_out
        e_def header_zero_def)
  then show ?thesis
    using e assms(1) by (auto simp: put_0)
qed

lemma send_dead:
  assumes "0 < k" "k \<le> length (sendbuf c)"
  shows "sendPacket (network_env True e) (int k) timer c (w, used) = Some (FAILURE, c, (w, True))"
  using assms by (simp add: sendPacket_def send_loop.simps [of _ _ timer "int k" 0] network_env_def)

lemma unsubscribe_dead:
  assumes "isconnected c" "length (sendbuf c) = 500" "length s \<le> 480"
  shows "\<exists>c'. unsubscribe (network_env True e) s c (w, used) = Some (FAILURE, c', (w, True))"
proof -
  obtain k b where b: "MQTTSerialize_unsubscribe (sendbuf c) MAX_MQTT_PACKET_SIZE 0 (next_id c) 1 [string_topic s] = Some (int k, b)"
    "0 < k" "k \<le> 500" "length b = 500"
    using unsubscribe_text [OF assms(2,3)] by blast
  show ?thesis
    using assms(1) b unfolding unsubscribe_def Let_def
    by (subst getNext_simps) (simp add: next_id_def [symmetric] send_dead return_codes)
qed

lemma freed_network_used:
  assumes "mqtt_network d = Some n" "mqtt_client d = Some (n, c)" "isconnected c" "length (sendbuf c) = 500"
    and "sub_topics d = topic # ts" "length topic \<le> 480"
  shows "Reconnect env d = Inl Freed_network"
proof -
  have len: "length (c_str topic) \<le> 480"
    using assms(6) length_takeWhile_le [of "\<lambda>c. c \<noteq> CHR 0x00" topic] by (simp add: c_str_def mqtt_bytes_def StringToChar_def)
  define w where "w = snd (socket_close env n (world d))"
  obtain c' where "unsubscribe (network_env True (mqtt env n)) (c_str topic) c (w, False) = Some (FAILURE, c', (w, True))"
    using unsubscribe_dead [OF assms(3,4) len, of "mqtt env n" w False] by blast
  then show ?thesis
    using assms by (simp add: Reconnect_def ReconnectMqttService_def DisconnectMqttNetwork_def DisconnectMqttClient_def
        on_client_def w_def)
qed

text \<open>
  C15: \<open>ReconnectMqttService\<close> deletes the network before it disconnects the client: with a connected client
  and a subscribed topic, the first unsubscription writes to the deleted object.
\<close>

theorem reconnect_uses_freed_network:
  assumes "mqtt_network d = Some n" "mqtt_client d = Some (n, c)" "isconnected c" "length (sendbuf c) = 500"
    and "sub_topics d = topic # ts" "length topic \<le> 480"
  shows "Reconnect env d = Inl Freed_network"
  using assms by (rule freed_network_used)

section \<open>Payloads that do not fit\<close>

lemma oversize_refused:
  assumes "mqtt_client d = Some (n, c)" "isconnected c" "500 \<le> length payload" "length payload < 2 ^ 31"
  shows "Publish env topic payload d = Inr (False, d)"
proof -
  have "sint (word_of_nat (length payload) :: 32 word) = int (length payload)"
    using assms(4) take_bit_nat_eq_self [of "length payload" 32]
    by (simp add: sint_uint unsigned_of_nat signed_take_bit_int_eq_self)
  then have "MQTTSerialize_publish (sendbuf c) MAX_MQTT_PACKET_SIZE 0 0 0 0 (MQTTString_initializer\<lparr>cstring := Some (c_str topic)\<rparr>)
      (mqtt_bytes payload) (sint (word_of_nat (length payload) :: 32 word)) = Some (MQTTPACKET_BUFFER_TOO_SHORT, sendbuf c)"
    using assms(3) by (simp add: MQTTSerialize_publish_def MQTTSerialize_publishLength_def MQTTstrlen_def MQTTString_initializer_def
        MQTTPacket_len_def MAX_MQTT_PACKET_SIZE_def Let_def)
  then show ?thesis
    using assms(1,2) by (simp add: Publish_def on_client_def publish_message_def publish_def Let_def MQTTPACKET_BUFFER_TOO_SHORT_def
        return_codes)
qed

section \<open>A session with the broker\<close>

lemma network_env_prompt:
  fixes env :: "('h, 'w) mqtt_env"
  assumes "prompt env inp outp dlv T0 T"
  shows "prompt (network_env False env) (inp \<circ> fst) (outp \<circ> fst) (dlv \<circ> fst) T0 T"
proof -
  have r: "ipstack_read (network_env False env) (w, u) n t =
      (case ipstack_read env w n t of (rc, bs, w) \<Rightarrow> (rc, bs, (w, u)))"
    "ipstack_write (network_env False env) (w, u) bs t = (case ipstack_write env w bs t of (rc, w) \<Rightarrow> (rc, (w, u)))"
    "run_handler (network_env False env) h topic m (w, u) = (run_handler env h topic m w, u)"
    "clock_ms (network_env False env) (w, u) = clock_ms env w" for w u n t bs h topic m
    by (simp_all add: network_env_def)
  show ?thesis
    unfolding prompt_def split_paired_all
  proof (intro conjI allI impI)
    fix w :: "'w \<times> bool" and n t :: int
    assume "0 < n" "n \<le> int (length ((inp \<circ> fst) w))"
    then obtain w' where "ipstack_read env (fst w) n t = (n, take (nat n) (inp (fst w)), w')" "inp w' = drop (nat n) (inp (fst w))"
      using prompt_readE [OF assms, of n "fst w" t] by auto
    then show "\<exists>w'. ipstack_read (network_env False env) w n t = (n, take (nat n) ((inp \<circ> fst) w), w') \<and>
        (inp \<circ> fst) w' = drop (nat n) ((inp \<circ> fst) w)"
      by (cases w) (auto simp: r)
  next
    fix w :: "'w \<times> bool" and n t rc :: int and bs w'
    assume "ipstack_read (network_env False env) w n t = (rc, bs, w')"
    then show "(outp \<circ> fst) w' = (outp \<circ> fst) w" "(dlv \<circ> fst) w' = (dlv \<circ> fst) w"
      using prompt_read_same [OF assms] by (cases w; auto simp: r split: prod.splits)+
  next
    fix w :: "'w \<times> bool" and bs and t :: int
    obtain w' where "ipstack_write env (fst w) bs t = (int (length bs), w')" "inp w' = inp (fst w)"
        "outp w' = outp (fst w) @ bs" "dlv w' = dlv (fst w)"
      using prompt_writeE [OF assms] by blast
    then show "\<exists>w'. ipstack_write (network_env False env) w bs t = (int (length bs), w') \<and> (inp \<circ> fst) w' = (inp \<circ> fst) w \<and>
        (outp \<circ> fst) w' = (outp \<circ> fst) w @ bs \<and> (dlv \<circ> fst) w' = (dlv \<circ> fst) w"
      by (cases w) (auto simp: r)
  qed (use assms in \<open>auto simp: r prompt_def network_env_def split: prod.splits\<close>)
qed

lemma Client_init_idle:
  fixes mem :: "'h Client"
  defines "c \<equiv> Client_init mem 30000"
  shows "\<not> isconnected c" "\<not> ping_outstanding c" "sendbuf c = sendbuf mem" "readbuf c = readbuf mem"
    "filters_ok (messageHandlers c)" "inflightMsgid c = 0" "command_timeout_ms c = 30000"
  by (simp_all add: c_def Client_init_def closeSession_def cleanSession_def filters_ok_def Let_def)

lemma client_options_strings:
  "\<forall>s \<in> connect_strings (client_options env d). str_ok s" "cd_MQTTVersion (client_options env d) = 3"
  "cd_keepAliveInterval (client_options env d) = 3600"
  by (auto simp: client_options_def Let_def connect_strings_def plain_string_def str_ok_def MQTTString_initializer_def
      MQTTPacket_connectData_initializer_def)

definition connect_fits :: "('r, 'h, 'k, 'w) device_env \<Rightarrow> ('h, 'k, 'w) device \<Rightarrow> bool" where
  "connect_fits env d \<longleftrightarrow> MQTTPacket_len (MQTTSerialize_connectLength (client_options env d)) \<le> 500 \<and>
     length (sendbuf (memory env (world d))) = 500 \<and> length (readbuf (memory env (world d))) = 500"

lemma connect_follows_broker:
  assumes env: "prompt (mqtt env n) inp outp dlv T0 T" "T - T0 < 30000"
    and d: "mqtt_network d = Some n" "n \<notin> set (freed d)" "connect_fits env d"
    and answer: "inp (world d) = [0x20, 2, fl, ret] @ inp1"
  shows "\<exists>c w. ConnectMqttClient env d = Inr (ret = 0, d\<lparr>mqtt_client := Some (n, c), world := w\<rparr>) \<and>
    (isconnected c \<longleftrightarrow> ret = 0) \<and> inp w = inp1 \<and> outp w = outp (world d) @ enc_connect (client_options env d)"
proof -
  let ?c = "Client_init (memory env (world d)) 30000"
  note idle = Client_init_idle [of "memory env (world d)"]
  have pk: "packet 0x20 [fl, ret] = [0x20, 2, fl, ret]" "ucast (hdr_type (header_bits 0x20)) = msg_code CONNACK"
    by (simp_all add: packet_def enc_len_small header_bits_def)
  have "\<exists>c w. connect (network_env False (mqtt env n)) (client_options env d) \<lparr>cnd_rc = 0, sessionPresent = False\<rparr> ?c
      (world d, False) = Some (uint ret, \<lparr>cnd_rc = uint ret, sessionPresent = bit fl 0\<rparr>, c, w) \<and>
    (isconnected c \<longleftrightarrow> ret = 0) \<and> inp (fst w) = inp1 \<and> outp (fst w) = outp (world d) @ enc_connect (client_options env d)"
    using connect_connack [OF network_env_prompt [OF env(1)] idle(1,2), of "client_options env d" "(world d, False)" "[]" "0x20" fl ret inp1
        "\<lparr>cnd_rc = 0, sessionPresent = False\<rparr>"] idle client_options_strings [of env d] d(3) env(2) answer pk
    by (auto simp: connect_fits_def)
  then obtain c w used where "connect (network_env False (mqtt env n)) (client_options env d) \<lparr>cnd_rc = 0, sessionPresent = False\<rparr> ?c
      (world d, False) = Some (uint ret, \<lparr>cnd_rc = uint ret, sessionPresent = bit fl 0\<rparr>, c, (w, used))"
    "isconnected c \<longleftrightarrow> ret = 0" "inp w = inp1" "outp w = outp (world d) @ enc_connect (client_options env d)"
    by auto
  then show ?thesis
    using d(1,2) by (intro exI [of _ c] exI [of _ w])
      (simp add: ConnectMqttClient_def on_client_def connect_plain_def SUCCESS_def unsigned_eq_0_iff)
qed

text \<open>
  C10: Over a network that delivers, the device sends the CONNECT packet with its own identifier, user name and
  the hash as password, in version 3.1, and is connected just when the broker answers with code 0.
\<close>

theorem client_connects:
  assumes "prompt (mqtt env n) inp outp dlv T0 T" "T - T0 < 30000"
    and "mqtt_network d = Some n" "n \<notin> set (freed d)" "connect_fits env d"
    and "inp (world d) = [0x20, 2, fl, ret] @ inp1"
  shows "\<exists>d'. ConnectMqttClient env d = Inr (ret = 0, d') \<and> client_connected d' = (ret = 0) \<and>
    outp (world d') = outp (world d) @ enc_connect (client_options env d) \<and>
    cd_MQTTVersion (client_options env d) = 3"
  using connect_follows_broker [OF assms] client_options_strings(2) [of env d] by (auto simp: client_connected_def)

section \<open>Examples\<close>

text \<open>A device whose session has been closed, and a broker that accepts the next one.\<close>

definition script_device_env :: "(string, nat, string \<rightharpoonup> string, nat script) device_env" where
  "script_device_env = (sample_env good_cloud script_env 7)\<lparr>memory := \<lambda>w. blank_memory\<rparr>"

definition accepted :: "nat script" where
  "accepted = ([0x20, 2, 0, 0], [], [])"

definition closed_device :: "(nat, string \<rightharpoonup> string, nat script) device" where
  "closed_device = (new_device accepted)\<lparr>mqtt_network := Some 0, mqtt_client := Some (0, sample_idle), networks := 1\<rparr>"

lemma script_device_mqtt [simp]: "mqtt script_device_env n = script_env"
  by (simp add: script_device_env_def sample_env_def)

lemma sha_text: "sha256 script_device_env s = replicate 32 (CHR 0x1F)" "device_uuid script_device_env = ''0123''"
  "decada_product_key script_device_env = ''pk''" "time_now script_device_env w = 1600000000"
  "memory script_device_env w = blank_memory"
  by (simp_all add: script_device_env_def sample_env_def)

lemma length_c_str: "length (c_str s) \<le> length s"
  using length_takeWhile_le [of "\<lambda>c. c \<noteq> CHR 0x00" s] by (simp add: c_str_def mqtt_bytes_def StringToChar_def)

lemma client_options_length:
  "MQTTSerialize_connectLength (client_options env d) =
    int (18 + length (c_str (device_uuid env @ ''|securemode=2,signmethod=sha256,timestamp='' @ timestamp_ms env (world d) @ ''|'')) +
      length (c_str (device_uuid env @ ''&'' @ decada_product_key env)) +
      length (c_str (ToLowerCase (GenericSHA256Generator env (''clientId'' @ device_uuid env @ ''deviceKey'' @ device_uuid env @
        ''productKey'' @ decada_product_key env @ ''timestamp'' @ timestamp_ms env (world d) @ device_secret d)))))"
  by (simp add: client_options_def Let_def MQTTSerialize_connectLength_def MQTTPacket_connectData_initializer_def plain_string_def
      MQTTString_initializer_def MQTTstrlen_def str_present_def)

lemma script_device_fits: "connect_fits script_device_env d"
proof -
  define t where "t = timestamp_ms script_device_env (world d)"
  have "length (GenericSHA256Generator script_device_env s) = 64" for s
    by (simp add: GenericSHA256Generator_def sha_text upper_hex_def length_concat sum_list_replicate)
  moreover have "length t = 13"
    by (simp add: t_def timestamp_ms_def RawRtcTimeNow_def sha_text MsPaddingIntToString_def IntToString_def show_nat.simps)
  ultimately have "MQTTSerialize_connectLength (client_options script_device_env d) \<le> 18 + 60 + 10 + 64"
    unfolding client_options_length t_def [symmetric]
    using length_c_str [of "device_uuid script_device_env @ ''|securemode=2,signmethod=sha256,timestamp='' @ t @ ''|''"]
      length_c_str [of "device_uuid script_device_env @ ''&'' @ decada_product_key script_device_env"]
      length_c_str [of "ToLowerCase (GenericSHA256Generator script_device_env (''clientId'' @ device_uuid script_device_env @ ''deviceKey'' @
        device_uuid script_device_env @ ''productKey'' @ decada_product_key script_device_env @ ''timestamp'' @ t @ device_secret d))"]
    by (simp add: sha_text ToLowerCase_def)
  then show ?thesis
    by (simp add: connect_fits_def sha_text blank_memory_def sample_client_def MQTTPacket_len_def Let_def)
qed

theorem client_connects_witness:
  "\<exists>d'. ConnectMqttClient script_device_env (closed_device\<lparr>freed := []\<rparr>) = Inr (True, d') \<and> client_connected d'"
  using client_connects [of script_device_env 0 fst "fst \<circ> snd" "snd \<circ> snd" 0 0 "closed_device\<lparr>freed := []\<rparr>" 0 0 "[]"]
    script_device_fits
  by (auto simp: script_prompt closed_device_def new_device_def accepted_def)

lemma closed_device_reconnects:
  "\<exists>d'. Reconnect script_device_env closed_device = Inr (True, d')"
proof -
  define d1 where "d1 = closed_device\<lparr>freed := [0], mqtt_network := None, mqtt_client := None\<rparr>"
  define d2 where "d2 = d1\<lparr>mqtt_network := Some 1, networks := 2\<rparr>"
  have "ConnectMqttNetwork script_device_env d1 = (True, d2)"
    by (simp add: ConnectMqttNetwork_def d1_def d2_def closed_device_def new_device_def script_device_env_def sample_env_def Let_def
        eval_nat_numeral)
  moreover have "\<exists>c w. ConnectMqttClient script_device_env d2 = Inr (True, d2\<lparr>mqtt_client := Some (1, c), world := w\<rparr>)"
    using connect_follows_broker [of script_device_env 1 fst "fst \<circ> snd" "snd \<circ> snd" 0 0 d2 0 0 "[]"]
      script_device_fits
    by (auto simp: script_prompt d2_def d1_def closed_device_def new_device_def accepted_def)
  ultimately have "\<exists>d3. reconnect_once script_device_env d1 = Inr (True, d3)"
    by (auto simp: reconnect_once_def ReconnectMqttNetwork_def ReconnectMqttClient_def d2_def d1_def closed_device_def new_device_def)
  moreover have "DisconnectMqttNetwork script_device_env closed_device = Inr (closed_device\<lparr>freed := [0], mqtt_network := None\<rparr>)"
    by (simp add: DisconnectMqttNetwork_def closed_device_def new_device_def script_device_env_def sample_env_def)
  moreover have "DisconnectMqttClient script_device_env (closed_device\<lparr>freed := [0], mqtt_network := None\<rparr>) = Inr d1"
    by (simp add: DisconnectMqttClient_def d1_def closed_device_def new_device_def client_connected_def sample_idle_def)
  ultimately show ?thesis
    by (auto simp: Reconnect_def ReconnectMqttService_def reconnect_loop.simps)
qed

theorem reconnect_outcome_witness:
  "\<exists>d'. Reconnect script_device_env closed_device = Inr (True, d') \<and> freed d' = [0]"
proof -
  obtain d' where r: "Reconnect script_device_env closed_device = Inr (True, d')"
    using closed_device_reconnects by blast
  from reconnect_outcome [OF this, of 0] show ?thesis
    using r by (simp add: closed_device_def new_device_def)
qed

theorem reconnect_uses_freed_network_witness:
  "Reconnect script_device_env (closed_device\<lparr>mqtt_client := Some (0, sample_client), sub_topics := [''a'']\<rparr>) = Inl Freed_network"
  by (rule reconnect_uses_freed_network [where n = 0 and c = sample_client and topic = "''a''" and ts = "[]"])
    (simp_all add: closed_device_def sample_client_def)

end
