(* ===== verification/App_Mail.thy ===== *)
theory App_Mail
  imports App_Link "HOL-Library.AList"
begin

text \<open>
  What goes through the mailboxes of \<open>src/global_params.h\<close> and what is done with it: the callback of
  \<open>subscription_callback.cpp\<close>, \<open>param_control.cpp\<close>, \<open>trace_manager.cpp\<close>, \<open>sensor_profile.cpp\<close>, and
  the handlers of the four threads under \<open>threads/\<close>. Strings put into a mail are cut at a NUL by
  \<open>StringToChar\<close>.
\<close>

section \<open>Mails\<close>

record llp_sensor_mail =
  sensor_type :: string
  sensor_value :: string
  raw_time_stamp :: int

record service_response_mail =
  response :: string
  service_id :: string

record mqtt_arrived_mail =
  endpoint_id :: string
  msg_id :: string
  param_name :: string
  param_value :: string

record sensor_control_mail =
  control_param :: string
  control_value :: int
  control_msg_id :: string
  control_endpoint_id :: string

section \<open>Substrings\<close>

text \<open>\<open>find\<close> and \<open>erase\<close> of a C++ string.\<close>

fun find_string :: "string \<Rightarrow> string \<Rightarrow> nat option" where
  "find_string pat [] = (if pat = [] then Some 0 else None)"
| "find_string pat (c # s) =
     (if take (length pat) (c # s) = pat then Some 0 else map_option Suc (find_string pat s))"

definition erase_string :: "nat \<Rightarrow> nat \<Rightarrow> string \<Rightarrow> string" where
  "erase_string pos len s = take pos s @ drop (pos + len) s"

section \<open>A message arrives\<close>

text \<open>
  \<open>payload\<close> is what lies behind the payload pointer up to the end of the receive buffer: the text is read up
  to a NUL, and only then cut to the length of the message.
\<close>

definition service_identifier :: string where "service_identifier = ''thing.service.''"

definition get_text :: "'r real_io \<Rightarrow> 'r Json \<Rightarrow> string \<Rightarrow> 'k stop + string" where
  "get_text io v key = answer_field io v key"

primrec param_list :: "'r real_io \<Rightarrow> 'r Json \<Rightarrow> string list \<Rightarrow> 'k stop + (string \<times> string) list" where
  "param_list io params [] = Inr []"
| "param_list io params (name # names) =
     andThen (need Json_exception (Option.bind (json_get params name JNull) (asString io))) (\<lambda>v.
     andThen (param_list io params names) (\<lambda>ps. Inr ((name, v) # ps)))"

definition SubscriptionMessageArrivalCallback ::
    "'r real_io \<Rightarrow> string \<Rightarrow> nat \<Rightarrow> 'k stop + mqtt_arrived_mail list" where
  "SubscriptionMessageArrivalCallback io payload payloadlen =
     (let incoming_payload = take payloadlen (StringToChar payload) in
      andThen (need Json_exception (parse io incoming_payload)) (\<lambda>(ok, document).
      andThen (get_text io document ''id'') (\<lambda>msg.
      andThen (get_text io document ''method'') (\<lambda>endpoint.
        let endpoint = (case find_string service_identifier endpoint of
              None \<Rightarrow> endpoint
            | Some found \<Rightarrow> erase_string found (found + length service_identifier) endpoint)
        in andThen (need Json_exception (json_get document ''params'' (JString ''invalid''))) (\<lambda>params.
           andThen (if params = JString ''invalid'' then Inr []
             else andThen (need Json_exception (getMemberNames params)) (param_list io params)) (\<lambda>ps.
           Inr (map (\<lambda>(name, v). \<lparr>endpoint_id = StringToChar endpoint, msg_id = StringToChar msg,
             param_name = StringToChar name, param_value = StringToChar v\<rparr>) ps)))))))"

section \<open>Control messages\<close>

definition DistributeControlMessage :: "string \<Rightarrow> int \<Rightarrow> string \<Rightarrow> string \<Rightarrow> sensor_control_mail list" where
  "DistributeControlMessage param v msg endpoint =
     (if find_string ''sensor'' param \<noteq> None then
        [\<lparr>control_param = StringToChar param, control_value = v, control_msg_id = StringToChar msg,
          control_endpoint_id = StringToChar endpoint\<rparr>]
      else [])"

text \<open>What \<open>event_manager_thread\<close> does with one mail.\<close>

definition event_manager_mail :: "mqtt_arrived_mail \<Rightarrow> 'k stop + sensor_control_mail list" where
  "event_manager_mail m =
     andThen (need Uninitialised (StringToInt (param_value m))) (\<lambda>v.
       Inr (DistributeControlMessage (param_name m) v (msg_id m) (endpoint_id m)))"

definition CreateDecadaResponse :: "'r real_io \<Rightarrow> string \<Rightarrow> string \<Rightarrow> string" where
  "CreateDecadaResponse io msg mid =
     (let details = json_object [(msg, JString ''true'')];
          message_content = json_object [(''id'', JString mid), (''code'', JInt 200), (''data'', details)]
      in filter (\<lambda>c. c \<noteq> CHR 0x0A) (FastWriter_write io message_content))"

definition DecadaServiceResponse :: "'r real_io \<Rightarrow> string \<Rightarrow> string \<Rightarrow> string \<Rightarrow> service_response_mail" where
  "DecadaServiceResponse io service mid msg =
     \<lparr>response = StringToChar (CreateDecadaResponse io msg mid), service_id = StringToChar service\<rparr>"

definition POLL_RATE_UPDATE :: string where "POLL_RATE_UPDATE = ''poll_rate_updated''"

text \<open>
  \<open>execute_sensor_control\<close> on one mail: the response it posts, if any, the settings, the interval, and how often
  it gives the block of the mail back to its pool: the branch that sets the rate frees the mail, and so does the
  statement after it. The product is an \<open>int\<close>.
\<close>

definition execute_sensor_control ::
    "'k kv_env \<Rightarrow> 'r real_io \<Rightarrow> sensor_control_mail \<Rightarrow> 'k \<Rightarrow> int \<Rightarrow> 'k stop + (service_response_mail list \<times> 'k \<times> int \<times> nat)" where
  "execute_sensor_control settings io m k current_cycle_interval =
     (if control_param m = ''sensor_poll_rate'' \<and> control_value m \<ge> 10 then
        let ms = control_value m * 1000 in
        if ms > int_max then Inl Int_overflow
        else Inr ([DecadaServiceResponse io (control_endpoint_id m) (control_msg_id m) POLL_RATE_UPDATE],
          WriteCycleInterval settings (IntToString ms) k, ms, 2)
      else Inr ([], k, current_cycle_interval, 1))"

section \<open>The profile of the sensors\<close>

text \<open>The map \<open>entity_value_pairs_\<close>, whose order is not used.\<close>

type_synonym profile = "(string \<times> string \<times> int) list"

definition CheckEntityAvailability :: "profile \<Rightarrow> bool" where
  "CheckEntityAvailability p \<longleftrightarrow> p \<noteq> []"

definition UpdateValue :: "string \<Rightarrow> string \<Rightarrow> int \<Rightarrow> profile \<Rightarrow> profile" where
  "UpdateValue entity_name v time_stamp p = AList.update entity_name (v, time_stamp) p"

definition ClearEntityList :: "profile \<Rightarrow> profile" where
  "ClearEntityList p = []"

text \<open>\<open>UpdateEntityList\<close> erases inside its loop, which is only defined when nothing is erased.\<close>

definition UpdateEntityList :: "int \<Rightarrow> profile \<Rightarrow> profile option" where
  "UpdateEntityList time_stamp p = (if \<exists>(name, v, t) \<in> set p. t < time_stamp then None else Some p)"

primrec measure_points ::
    "(string \<Rightarrow> 'r option) \<Rightarrow> profile \<Rightarrow> (string \<times> 'r Json) list \<Rightarrow> 'k stop + (string \<times> 'r Json) list" where
  "measure_points stod [] ms = Inr ms"
| "measure_points stod (e # p) ms =
     (case e of (entity_name, entity_value, _) \<Rightarrow>
        andThen (need Bad_double (stod entity_value)) (\<lambda>r. measure_points stod p (obj_put entity_name (JReal r) ms)))"

definition CreateDecadaPacket ::
    "'r real_io \<Rightarrow> (string \<Rightarrow> 'r option) \<Rightarrow> string \<Rightarrow> profile \<Rightarrow> 'k stop + string" where
  "CreateDecadaPacket io stod uuid p =
     andThen (measure_points stod p []) (\<lambda>ms.
       let points = (if p = [] then JNull else JObject ms);
           params = json_object [(''measurepoints'', points)];
           message_content = json_object [(''id'', JString uuid), (''version'', JString ''1.0''), (''params'', params),
             (''method'', JString ''thing.measurepoint.post'')]
       in Inr (filter (\<lambda>c. c \<noteq> CHR 0x0A) (FastWriter_write io message_content)))"

definition GetNewDecadaPacket ::
    "'r real_io \<Rightarrow> (string \<Rightarrow> 'r option) \<Rightarrow> string \<Rightarrow> profile \<Rightarrow> 'k stop + string" where
  "GetNewDecadaPacket io stod uuid p = CreateDecadaPacket io stod uuid p"

text \<open>What \<open>behavior_coordinator_thread\<close> does with one mail: the profile, and whether a packet is to be sent.\<close>

definition behavior_mail :: "llp_sensor_mail \<Rightarrow> profile \<times> bool \<Rightarrow> profile \<times> bool" where
  "behavior_mail m = (\<lambda>(p, send_packets).
     if sensor_type m = ''header'' then
       (if sensor_value m = ''start'' then (ClearEntityList p, send_packets) else (p, True))
     else (UpdateValue (sensor_type m) (sensor_value m) (raw_time_stamp m) p, send_packets))"

text \<open>What \<open>sensor_thread\<close> posts in a round in which it reads its sensor.\<close>

definition sensor_stream :: "int \<Rightarrow> (string \<times> string) option \<Rightarrow> llp_sensor_mail list" where
  "sensor_stream now s_data =
     \<lparr>sensor_type = ''header'', sensor_value = ''start'', raw_time_stamp = now\<rparr> #
     (case s_data of None \<Rightarrow> []
      | Some (name, v) \<Rightarrow> [\<lparr>sensor_type = StringToChar name, sensor_value = StringToChar v, raw_time_stamp = now\<rparr>]) @
     [\<lparr>sensor_type = ''header'', sensor_value = ''end'', raw_time_stamp = now\<rparr>]"

text \<open>The poll counter: how many seconds between two readings.\<close>

definition next_poll_counter :: "int \<Rightarrow> int \<Rightarrow> int" where
  "next_poll_counter current_cycle_interval poll_counter =
     (let current_poll_count = current_cycle_interval sdiv 1000; poll_counter = poll_counter + 1
      in if poll_counter \<ge> current_poll_count then 0 else poll_counter)"

section \<open>Publishing\<close>

record ('h, 'k, 'w) comms =
  decada :: "('h, 'k, 'w) device"
  pub_ok :: bool
  ntp_counter :: "32 word"
  initial_ntp_update :: bool

definition ntp_counter_max :: "32 word" where "ntp_counter_max = 14400000"

definition ntp_round :: "bool \<Rightarrow> ('h, 'k, 'w) comms \<Rightarrow> ('h, 'k, 'w) comms" where
  "ntp_round success c =
     (if ntp_counter c = ntp_counter_max then
        (if success \<or> initial_ntp_update c then c\<lparr>ntp_counter := 0, initial_ntp_update := True\<rparr> else c)
      else c\<lparr>ntp_counter := ntp_counter c + 1\<rparr>)"

definition DECADA_SERVICE_TOPIC :: "('r, 'h, 'k, 'w) device_env \<Rightarrow> string" where
  "DECADA_SERVICE_TOPIC env = ''/sys/'' @ decada_product_key env @ ''/'' @ device_uuid env @ ''/thing/service/''"

definition SENSOR_PUB_TOPIC :: "('r, 'h, 'k, 'w) device_env \<Rightarrow> string" where
  "SENSOR_PUB_TOPIC env = ''/sys/'' @ decada_product_key env @ ''/'' @ device_uuid env @ ''/thing/measurepoint/post''"

definition SENSOR_POLL_RATE_TOPIC :: "('r, 'h, 'k, 'w) device_env \<Rightarrow> string" where
  "SENSOR_POLL_RATE_TOPIC env = DECADA_SERVICE_TOPIC env @ ''sensorpollrate''"

definition publish_mail ::
    "('r, 'h, 'k, 'w) device_env \<Rightarrow> (string \<times> string) option \<Rightarrow> ('h, 'k, 'w) comms \<Rightarrow> 'k stop + ('h, 'k, 'w) comms" where
  "publish_mail env mail c =
     (case mail of
        None \<Rightarrow> Inr c
      | Some (topic, payload) \<Rightarrow>
          andThen (Publish env topic payload (decada c)) (\<lambda>(ok, d). Inr (c\<lparr>decada := d, pub_ok := ok\<rparr>)))"

text \<open>
  One round of \<open>communications_controller_thread\<close>, given what it finds in its two mailboxes and whether an
  update of the clock succeeds.
\<close>

definition communications_round ::
    "('r, 'h, 'k, 'w) device_env \<Rightarrow> bool \<Rightarrow> string option \<Rightarrow> service_response_mail option \<Rightarrow> ('h, 'k, 'w) comms \<Rightarrow>
     'k stop + ('h, 'k, 'w) comms" where
  "communications_round env ntp_success upstream reply c =
     andThen (publish_mail env (map_option (\<lambda>payload. (SENSOR_PUB_TOPIC env, payload)) upstream) (ntp_round ntp_success c)) (\<lambda>c.
     andThen (publish_mail env (map_option (\<lambda>m. (DECADA_SERVICE_TOPIC env @ service_id m @ ''_reply'', response m)) reply) c) (\<lambda>c.
       if pub_ok c = False then andThen (Reconnect env (decada c)) (\<lambda>(ok, d). Inr (c\<lparr>decada := d\<rparr>))
       else Inr c))"

text \<open>The start of the thread: connect (the result is not looked at), then subscribe.\<close>

definition communications_start ::
    "('r, 'h, 'k, 'w) device_env \<Rightarrow> ('h, 'k, 'w) device \<Rightarrow> ('k stop + ('h, 'k, 'w) comms) option" where
  "communications_start env d =
     (case DecadaManager_init env d of
        Inl e \<Rightarrow> Some (Inl e)
      | Inr d \<Rightarrow>
          map_option (\<lambda>connected. andThen connected (\<lambda>(ok, d).
            andThen (Subscribe env (SENSOR_POLL_RATE_TOPIC env) d) (\<lambda>(ok, d).
              Inr \<lparr>decada = d, pub_ok = True, ntp_counter = ntp_counter_max, initial_ntp_update = False\<rparr>)))
          (Connect env d))"

section \<open>From the cloud to the sensor\<close>

lemma StringToChar_append: "CHR 0x00 \<notin> set s \<Longrightarrow> StringToChar (s @ t) = s @ StringToChar t"
  by (induction s) (auto simp: StringToChar_def)

text \<open>What is printed between quotes is printable.\<close>

definition printable :: "string \<Rightarrow> bool" where
  "printable s \<longleftrightarrow> (\<forall>c \<in> set s. 0x20 \<le> code c)"

lemma printable_simps [simp]:
  "printable []" "printable (c # s) \<longleftrightarrow> 0x20 \<le> code c \<and> printable s" "printable (s @ t) \<longleftrightarrow> printable s \<and> printable t"
  by (auto simp: printable_def)

lemma printable_no: "printable s \<Longrightarrow> CHR 0x00 \<notin> set s \<and> CHR 0x0A \<notin> set s"
  by (auto simp: printable_def code_def)

lemma digits_printable: "(\<And>c. c \<in> set s \<Longrightarrow> is_digit c) \<Longrightarrow> printable s"
  by (fastforce simp: printable_def is_digit_def code_def)

lemma digit_char_printable: "d < 16 \<Longrightarrow> 0x20 \<le> code (digit_char d)"
  using hex_val_digit [of d] by (auto simp: hex_val_def is_digit_def code_def split: if_splits)

lemma quote_loop_printable: "ascii s \<Longrightarrow> printable (quote_loop s)"
proof (induction s)
  case (Cons c s)
  have c: "code c < 128" and s: "printable (quote_loop s)"
    using Cons by (auto simp: ascii_def)
  have u: "fst (utf8ToCodepoint c s) = code c" "snd (utf8ToCodepoint c s) = 0"
    using c by (simp_all add: utf8_ascii)
  have "printable (quote_char (code c))"
    using c hex_digits [OF c] digit_char_printable [of 0] digit_char_printable [of "code c div 16"] digit_char_printable [of "code c mod 16"]
    by (auto simp: quote_char_def) (simp_all add: code_def)
  then show ?case
    using s by (simp add: u) (simp add: code_def)
qed simp

lemma quoted_printable: "ascii s \<Longrightarrow> printable (valueToQuotedStringN s)"
  using quote_loop_printable by (simp add: quoted_string) (simp add: code_def)

lemma int_text_printable: "printable (valueToString_int v)"
  using digits_printable [of "show_nat 10 (nat v)"] digits_printable [of "show_nat 10 (nat (- v))"] show_nat_digits
  by (auto simp: valueToString_int_def uintToString_def) (simp add: code_def)

lemma IntToString_valueToString: "valueToString_int v = IntToString v"
  by (simp add: valueToString_int_def IntToString_def uintToString_def)

lemma StringToChar_int [simp]: "StringToChar (IntToString v) = IntToString v"
proof (rule StringToChar_id)
  show "CHR 0x00 \<notin> set (IntToString v)"
    using printable_no [OF int_text_printable, of v] by (simp add: IntToString_valueToString)
qed

text \<open>The command that sets the polling rate, as the cloud sends it.\<close>

definition poll_rate_command :: "string \<Rightarrow> int \<Rightarrow> 'r Json" where
  "poll_rate_command i v =
     JObject [(''id'', JString i), (''method'', JString ''thing.service.sensorpollrate''),
       (''params'', JObject [(''sensor_poll_rate'', JInt v)])]"

lemma callback_written:
  assumes "json_ok io v" "depth v \<le> 1000" "printable (writeValue io v)"
  shows "take (length (writeValue io v)) (StringToChar (writeValue io v @ tail)) = writeValue io v"
    "parse io (writeValue io v) = Some (True, normal v)"
  using assms readsD [OF reads_writeValue [OF assms(1)], of stackLimit_g "[]" JNull] printable_no
  by (simp_all add: StringToChar_append parse_def stackLimit_g_def del: readValue.simps)

lemma poll_rate_arrives:
  fixes io :: "'r real_io"
  assumes "ascii i" "CHR 0x00 \<notin> set i" "int_min \<le> v" "v \<le> int_max"
  shows "SubscriptionMessageArrivalCallback io (writeValue io (poll_rate_command i v) @ tail)
      (length (writeValue io (poll_rate_command i v))) =
    Inr [\<lparr>endpoint_id = ''sensorpollrate'', msg_id = i, param_name = ''sensor_poll_rate'', param_value = IntToString v\<rparr>]"
proof -
  define d :: "'r Json" where "d = poll_rate_command i v"
  have ok: "json_ok io d" "depth d \<le> 1000" "normal d = d"
    using assms by (simp_all add: d_def poll_rate_command_def ascii_def code_def minLargestInt_def maxLargestInt_def maxInt_def
        int_min_def int_max_def)
  have asc: "ascii ''id''" "ascii ''method''" "ascii ''thing.service.sensorpollrate''" "ascii ''params''" "ascii ''sensor_poll_rate''"
    by (simp_all add: ascii_def code_def)
  have "printable (writeValue io d)"
    using asc assms(1) by (simp add: d_def poll_rate_command_def quoted_printable int_text_printable) (simp add: code_def)
  note w = callback_written [OF ok(1,2) this]
  have nul: "StringToChar i = i"
    using assms(2) by (rule StringToChar_id)
  show ?thesis
    unfolding SubscriptionMessageArrivalCallback_def Let_def d_def [symmetric] w
    by (simp add: w ok(3)) (simp add: d_def poll_rate_command_def get_text_def answer_fields getMemberNames_def nul
        service_identifier_def erase_string_def IntToString_valueToString StringToChar_id)
qed

definition poll_rate_control :: "string \<Rightarrow> int \<Rightarrow> sensor_control_mail" where
  "poll_rate_control i v = \<lparr>control_param = ''sensor_poll_rate'', control_value = v, control_msg_id = i,
     control_endpoint_id = ''sensorpollrate''\<rparr>"

definition poll_rate_mail :: "string \<Rightarrow> int \<Rightarrow> mqtt_arrived_mail" where
  "poll_rate_mail i v =
     \<lparr>endpoint_id = ''sensorpollrate'', msg_id = i, param_name = ''sensor_poll_rate'', param_value = IntToString v\<rparr>"

lemma StringToInt_IntToString: "int_min \<le> n \<Longrightarrow> n \<le> int_max \<Longrightarrow> StringToInt (IntToString n) = Some n"
  by (simp add: StringToInt_def stream_read_int)

lemma poll_rate_distributed:
  "CHR 0x00 \<notin> set i \<Longrightarrow> int_min \<le> v \<Longrightarrow> v \<le> int_max \<Longrightarrow> event_manager_mail (poll_rate_mail i v) = Inr [poll_rate_control i v]"
  by (simp add: event_manager_mail_def poll_rate_mail_def poll_rate_control_def StringToInt_IntToString DistributeControlMessage_def
      StringToChar_id)

lemma interval_written:
  "reliable settings content \<Longrightarrow> 10 \<le> v \<Longrightarrow> v \<le> 2147483 \<Longrightarrow>
   StringToInt (ReadCycleInterval settings (WriteCycleInterval settings (IntToString (v * 1000)) k)) = Some (v * 1000)"
  by (simp add: readers writers ReadKey_WriteKey StringToInt_IntToString int_min_def int_max_def)

text \<open>
  C12: A command of the cloud sets the polling rate: it passes the callback, the event manager and the sensor
  thread, and a rate of 10 to 2147483 seconds becomes the interval, in the store as well, and is answered on the
  topic of the service, but the block of its mail is freed twice; smaller rates change nothing and free it once,
  and larger ones overflow an \<open>int\<close>.
\<close>

theorem poll_rate_command_effect:
  assumes "reliable settings content" "ascii i" "CHR 0x00 \<notin> set i" "int_min \<le> v" "v \<le> int_max"
  shows "\<exists>m c. SubscriptionMessageArrivalCallback io (writeValue io (poll_rate_command i v) @ tail)
        (length (writeValue io (poll_rate_command i v))) = Inr [m] \<and>
    event_manager_mail m = Inr [c] \<and>
    (v < 10 \<longrightarrow> execute_sensor_control settings io c k old = Inr ([], k, old, 1)) \<and>
    (2147483 < v \<longrightarrow> execute_sensor_control settings io c k old = Inl Int_overflow) \<and>
    (10 \<le> v \<and> v \<le> 2147483 \<longrightarrow> (\<exists>r k'. execute_sensor_control settings io c k old = Inr ([r], k', v * 1000, 2) \<and>
      service_id r = ''sensorpollrate'' \<and> StringToInt (ReadCycleInterval settings k') = Some (v * 1000)))"
  using poll_rate_arrives [OF assms(2-5), of io tail] poll_rate_distributed [OF assms(3-5)] interval_written [OF assms(1), of v k]
  by (intro exI [of _ "poll_rate_mail i v"] exI [of _ "poll_rate_control i v"])
    (auto simp: poll_rate_mail_def poll_rate_control_def execute_sensor_control_def DecadaServiceResponse_def int_max_def
      StringToChar_id Let_def)

text \<open>A method with something before the identifier loses as many characters behind it.\<close>

lemma erase_takes_too_much:
  "erase_string (length x) (length x + length service_identifier) (x @ service_identifier @ name) = x @ drop (length x) name"
  by (simp add: erase_string_def)

text \<open>A parameter without a value reaches an uninitialised integer.\<close>

lemma blank_parameter: "\<forall>c \<in> set (param_value m). isspace c \<Longrightarrow> event_manager_mail m = Inl Uninitialised"
  by (simp add: event_manager_mail_def StringToInt_blank)

section \<open>From the sensor to the cloud\<close>

text \<open>The text of a double that a packet can carry: it survives printing and holds no control characters.\<close>

definition real_plain :: "'r real_io \<Rightarrow> 'r \<Rightarrow> bool" where
  "real_plain io r \<longleftrightarrow> real_ok io r \<and> printable (valueToString_real io 15 r)"

definition measurement_message :: "string \<Rightarrow> string \<Rightarrow> 'r \<Rightarrow> 'r Json" where
  "measurement_message uuid name r =
     JObject [(''id'', JString uuid), (''method'', JString ''thing.measurepoint.post''),
       (''params'', JObject [(''measurepoints'', JObject [(name, JReal r)])]), (''version'', JString ''1.0'')]"

lemma filter_printable: "printable s \<Longrightarrow> filter (\<lambda>c. c \<noteq> CHR 0x0A) s = s"
  using printable_no by (auto simp: filter_id_conv)

lemma CreateDecadaPacket_one:
  "CreateDecadaPacket io stod uuid [(name, v, t)] =
    andThen (need Bad_double (stod v)) (\<lambda>r. Inr (filter (\<lambda>c. c \<noteq> CHR 0x0A) (FastWriter_write io (measurement_message uuid name r))))"
  by (cases "stod v") (simp_all add: CreateDecadaPacket_def json_object_def measurement_message_def)

text \<open>
  A reading of the sensor reaches the cloud: the packet that the coordinator makes of the mails of one round
  is the text of a message which is read back as the identifier of the device and this one measurement, whatever
  the profile held before.
\<close>

theorem measurement_reaches_cloud:
  fixes io :: "'r real_io"
  assumes "stod v = Some r" "real_plain io r" "ascii uuid" "ascii name" "name \<noteq> ''header''"
    and "CHR 0x00 \<notin> set (name @ v)"
  shows "\<exists>packet. GetNewDecadaPacket io stod uuid (fst (fold behavior_mail (sensor_stream now (Some (name, v))) (old, False))) = Inr packet \<and>
    snd (fold behavior_mail (sensor_stream now (Some (name, v))) (old, False)) \<and>
    StringToChar packet = packet \<and> parse io packet = Some (True, measurement_message uuid name r)"
proof -
  define d :: "'r Json" where "d = measurement_message uuid name r"
  define packet where "packet = filter (\<lambda>c. c \<noteq> CHR 0x0A) (FastWriter_write io d)"
  have asc: "ascii ''id''" "ascii ''method''" "ascii ''thing.measurepoint.post''" "ascii ''params''" "ascii ''measurepoints''"
    "ascii ''version''" "ascii ''1.0''"
    by (simp_all add: ascii_def code_def)
  have ok: "json_ok io d" "depth d \<le> 1000" "normal d = d"
    using assms asc by (simp_all add: d_def measurement_message_def real_plain_def)
  have pr: "printable (writeValue io d)"
    using asc assms(2-4) by (simp add: d_def measurement_message_def quoted_printable real_plain_def) (simp add: code_def)
  then have packet: "packet = writeValue io d"
    by (simp add: packet_def FastWriter_write_def filter_printable)
  have plain: "StringToChar name = name" "StringToChar v = v"
    using assms(6) by (simp_all add: StringToChar_id)
  have "fold behavior_mail (sensor_stream now (Some (name, v))) (old, False) = ([(name, v, now)], True)"
    using assms(5) by (simp add: sensor_stream_def behavior_mail_def ClearEntityList_def UpdateValue_def plain)
  moreover have "GetNewDecadaPacket io stod uuid [(name, v, now)] = Inr packet"
    by (simp add: GetNewDecadaPacket_def CreateDecadaPacket_one assms(1) packet_def d_def)
  moreover have "StringToChar packet = packet" "parse io packet = Some (True, d)"
    using printable_no [OF pr] callback_written [OF ok(1,2) pr] by (simp_all add: packet StringToChar_id ok(3))
  ultimately show ?thesis
    by (intro exI [of _ packet]) (simp add: d_def)
qed

section \<open>Rounds\<close>

text \<open>
  The sensor is read once in as many rounds, of a second each, as the interval has seconds, and in every
  round when the interval is shorter than two seconds.
\<close>

theorem poll_period:
  assumes "0 \<le> interval" "k \<le> max 1 (nat (interval div 1000))"
  shows "(next_poll_counter interval ^^ k) 0 = (if k = max 1 (nat (interval div 1000)) then 0 else int k)"
proof -
  have step: "next_poll_counter interval a = (if interval div 1000 \<le> a + 1 then 0 else a + 1)" for a
    using assms(1) by (simp add: next_poll_counter_def signed_divide_int_def sgn_if)
  show ?thesis
    using assms(2)
  proof (induction k)
    case (Suc k)
    then have "(next_poll_counter interval ^^ k) 0 = int k"
      by auto
    then show ?case
      using Suc.prems unfolding funpow.simps o_apply step by (auto simp: max_def split: if_splits)
  qed simp
qed

text \<open>The clock is set once in 14400001 rounds, of half a second each.\<close>

lemma ntp_waits:
  "k \<le> 14400000 \<Longrightarrow> ntp_counter c = 0 \<Longrightarrow> ntp_counter ((ntp_round success ^^ k) c) = word_of_nat k"
proof (induction k)
  case (Suc k)
  have "(word_of_nat k :: 32 word) \<noteq> ntp_counter_max"
  proof
    assume "(word_of_nat k :: 32 word) = ntp_counter_max"
    then have "unat (word_of_nat k :: 32 word) = 14400000"
      by (simp add: ntp_counter_max_def)
    then show False
      using Suc.prems(1) by (simp add: unsigned_of_nat take_bit_nat_eq_self)
  qed
  then show ?case
    using Suc by (simp add: ntp_round_def add.commute)
qed simp

text \<open>
  C16: One packet of 500 bytes or more ends the program: the publication fails while the client stays
  connected, the reconnection that follows deletes the network under it.
\<close>

theorem oversize_packet_is_fatal:
  assumes "mqtt_network (decada c) = Some n" "mqtt_client (decada c) = Some (n, cl)" "isconnected cl"
    and "length (sendbuf cl) = 500" "sub_topics (decada c) = [SENSOR_POLL_RATE_TOPIC env]"
    and "length (SENSOR_POLL_RATE_TOPIC env) \<le> 480" "500 \<le> length payload" "length payload < 2 ^ 31"
  shows "communications_round env ntp (Some payload) None c = Inl Freed_network"
proof -
  have same: "decada (ntp_round ntp c) = decada c"
    by (simp add: ntp_round_def)
  have "Publish env (SENSOR_PUB_TOPIC env) payload (decada c) = Inr (False, decada c)"
    by (rule oversize_refused [OF assms(2,3,7,8)])
  moreover have "Reconnect env (decada c) = Inl Freed_network"
    by (rule freed_network_used [OF assms(1-6)])
  ultimately show ?thesis
    by (simp add: communications_round_def publish_mail_def same)
qed

text \<open>
  \<open>pub_ok\<close> is never set back by a reconnection: with empty mailboxes every further round reconnects again,
  and the first one that finds the new client connected uses the network it has deleted.
\<close>

lemma failed_publish_never_forgotten:
  assumes "pub_ok c = False" "communications_round env ntp None None c = Inr c'"
    and "mqtt_client (decada c') = Some (n, cl)" "mqtt_network (decada c') = Some n" "isconnected cl" "length (sendbuf cl) = 500"
    and "sub_topics (decada c') = topic # ts" "length topic \<le> 480"
  shows "pub_ok c' = False \<and> communications_round env ntp' None None c' = Inl Freed_network"
proof -
  have ntp: "decada (ntp_round b x) = decada x" "pub_ok (ntp_round b x) = pub_ok x" for b x
    by (simp_all add: ntp_round_def)
  have "pub_ok c' = False"
    using assms(1,2) by (auto simp: communications_round_def publish_mail_def ntp andThen_Inr_iff)
  moreover have "Reconnect env (decada c') = Inl Freed_network"
    by (rule freed_network_used [OF assms(4,3,5-8)])
  ultimately show ?thesis
    by (simp add: communications_round_def publish_mail_def ntp)
qed

section \<open>Examples\<close>

theorem poll_rate_command_effect_witness:
  "\<exists>m c r k'. SubscriptionMessageArrivalCallback text_io (writeValue text_io (poll_rate_command ''17'' 60) @ [])
      (length (writeValue text_io (poll_rate_command ''17'' 60))) = Inr [m] \<and>
    event_manager_mail m = Inr [c] \<and> execute_sensor_control ram_store text_io c (\<lambda>_. None) 10000 = Inr ([r], k', 60000, 2) \<and>
    StringToInt (ReadCycleInterval ram_store k') = Some 60000"
proof -
  from poll_rate_command_effect [OF ram_store_reliable, of "''17''" 60 text_io "[]" "\<lambda>_. None" 10000]
  show ?thesis
    by (force simp: ascii_def code_def int_min_def int_max_def)
qed

lemma sample_real: "real_plain text_io ''21.5''"
proof -
  have t: "valueToString_real text_io 15 ''21.5'' = ''21.5''"
    by (simp add: valueToString_real_def text_io_def fixNumericLocale_def)
  have "readNumber (''1.5'' @ rest) = rest" if "delimits rest" for rest
    using that delimits_Cons by (cases rest) (auto simp: readNumber_def is_digit_def)
  moreover have "decodeNumber text_io ''21.5'' = Some (JReal ''21.5'')"
    by (simp add: decodeNumber_def is_digit_def text_io_def maxLargestUInt_def digit_val_def)
  ultimately have "real_ok text_io ''21.5''"
    unfolding real_ok_def t by (simp add: is_digit_def)
  then show ?thesis
    by (simp add: real_plain_def t) (simp add: code_def)
qed

theorem measurement_reaches_cloud_witness:
  "\<exists>packet. GetNewDecadaPacket text_io Some ''0123''
      (fst (fold behavior_mail (sensor_stream 1600000000 (Some (''temperature'', ''21.5''))) ([(''co2'', ''400'', 5)], False))) = Inr packet \<and>
    StringToChar packet = packet \<and> parse text_io packet = Some (True, measurement_message ''0123'' ''temperature'' ''21.5'')"
  using measurement_reaches_cloud [of Some "''21.5''" "''21.5''" text_io "''0123''" "''temperature''" 1600000000 "[(''co2'', ''400'', 5)]"]
    sample_real by (auto simp: ascii_def code_def)

theorem poll_period_witness: "(next_poll_counter 10000 ^^ 10) 0 = 0 \<and> (next_poll_counter 500 ^^ 1) 0 = 0"
  using poll_period [of 10000 10] poll_period [of 500 1] by simp

theorem oversize_packet_is_fatal_witness:
  "communications_round script_device_env True (Some (replicate 500 (CHR ''a''))) None
     \<lparr>decada = closed_device\<lparr>mqtt_client := Some (0, sample_client), sub_topics := [SENSOR_POLL_RATE_TOPIC script_device_env]\<rparr>,
      pub_ok = True, ntp_counter = 0, initial_ntp_update = True\<rparr> = Inl Freed_network"
  by (rule oversize_packet_is_fatal [where n = 0 and cl = sample_client])
    (simp_all add: closed_device_def sample_client_def SENSOR_POLL_RATE_TOPIC_def DECADA_SERVICE_TOPIC_def sha_text)

end
