(* ===== verification/App_Threads.thy ===== *)
theory App_Threads
  imports App_Mail
begin

text \<open>
  The four threads under \<open>src/threads/\<close> with the subscription manager, as a step relation. A thread that waits
  (for a block of a mailbox or for \<open>stdio_mutex\<close>) has no step. A mail keeps its block until its reader frees it,
  so the mail that the controller is publishing still counts. A control mail that sets the polling rate is freed
  twice (\<open>control_damaged\<close>); mbed OS gives this no meaning, so from then on the mailbox of the control
  mails may hold any mails, any number of them, at any time. What the strings of a mail that is handed out twice do to the heap
  is not modelled.
\<close>

section \<open>The state of the system\<close>

datatype controller_pc =
    Waiting
  | Publishing "string option"
  | Answering
  | Replying "service_response_mail option"
  | Checking

text \<open>
  \<open>stdio_held\<close> tells that the behaviour coordinator owns \<open>stdio_mutex\<close>; \<open>Publish\<close>, the only other owner, is one
  step. \<open>arrived_todo\<close> and \<open>llp_todo\<close> are what a callback and the sensor thread still have to post.
\<close>

record ('h, 'k, 'w) system =
  controller :: "('h, 'k, 'w) comms"
  controller_at :: controller_pc
  stdio_held :: bool
  arrived_todo :: "mqtt_arrived_mail list"
  arrived :: "mqtt_arrived_mail list"
  control :: "sensor_control_mail list"
  control_damaged :: bool
  polling :: bool
  poll_counter :: int
  cycle_interval :: int
  llp_todo :: "llp_sensor_mail list"
  llp :: "llp_sensor_mail list"
  sensors_profile :: profile
  send_packets :: bool
  upstream :: "string list"
  replies_box :: "service_response_mail list"
  stopped :: "'k stop option"

abbreviation system_store :: "('h, 'k, 'w) system \<Rightarrow> 'k" where
  "system_store s \<equiv> store (decada (controller s))"

definition upstream_used :: "('h, 'k, 'w) system \<Rightarrow> nat" where
  "upstream_used s = length (upstream s) + (case controller_at s of Publishing (Some p) \<Rightarrow> 1 | _ \<Rightarrow> 0)"

definition replies_used :: "('h, 'k, 'w) system \<Rightarrow> nat" where
  "replies_used s = length (replies_box s) + (case controller_at s of Replying (Some m) \<Rightarrow> 1 | _ \<Rightarrow> 0)"

definition first_mail :: "'a list \<Rightarrow> 'a option" where
  "first_mail q = (case q of [] \<Rightarrow> None | m # ms \<Rightarrow> Some m)"

section \<open>The threads\<close>

text \<open>\<open>communications_controller_thread\<close>: a round is five steps.\<close>

definition controller_ready :: "('h, 'k, 'w) system \<Rightarrow> bool" where
  "controller_ready s \<longleftrightarrow>
     (case controller_at s of Publishing (Some p) \<Rightarrow> \<not> stdio_held s | Replying (Some m) \<Rightarrow> \<not> stdio_held s | _ \<Rightarrow> True)"

definition controller_step ::
    "('r, 'h, 'k, 'w) device_env \<Rightarrow> bool \<Rightarrow> ('h, 'k, 'w) system \<Rightarrow> 'k stop + ('h, 'k, 'w) system" where
  "controller_step env ntp_success s =
     (case controller_at s of
        Waiting \<Rightarrow> Inr (s\<lparr>controller := ntp_round ntp_success (controller s),
          controller_at := Publishing (first_mail (upstream s)), upstream := tl (upstream s)\<rparr>)
      | Publishing mail \<Rightarrow>
          andThen (publish_mail env (map_option (\<lambda>payload. (SENSOR_PUB_TOPIC env, payload)) mail) (controller s))
            (\<lambda>c. Inr (s\<lparr>controller := c, controller_at := Answering\<rparr>))
      | Answering \<Rightarrow> Inr (s\<lparr>controller_at := Replying (first_mail (replies_box s)), replies_box := tl (replies_box s)\<rparr>)
      | Replying mail \<Rightarrow>
          andThen (publish_mail env (map_option (\<lambda>m. (DECADA_SERVICE_TOPIC env @ service_id m @ ''_reply'', response m)) mail)
              (controller s))
            (\<lambda>c. Inr (s\<lparr>controller := c, controller_at := Checking\<rparr>))
      | Checking \<Rightarrow>
          (if pub_ok (controller s) = False then
             andThen (Reconnect env (decada (controller s))) (\<lambda>(ok, d).
               Inr (s\<lparr>controller := (controller s)\<lparr>decada := d\<rparr>, controller_at := Waiting\<rparr>))
           else Inr (s\<lparr>controller_at := Waiting\<rparr>)))"

text \<open>\<open>subscription_manager_thread\<close>, which does not use the mutexes, and the callback it runs.\<close>

definition subscription_step ::
    "('r, 'h, 'k, 'w) device_env \<Rightarrow> ('h, 'k, 'w) system \<Rightarrow> 'k stop + ('h, 'k, 'w) system" where
  "subscription_step env s =
     andThen (subscription_round env (decada (controller s))) (\<lambda>d. Inr (s\<lparr>controller := (controller s)\<lparr>decada := d\<rparr>\<rparr>))"

definition callback_step :: "'r real_io \<Rightarrow> string \<Rightarrow> nat \<Rightarrow> ('h, 'k, 'w) system \<Rightarrow> 'k stop + ('h, 'k, 'w) system" where
  "callback_step io payload payloadlen s =
     andThen (SubscriptionMessageArrivalCallback io payload payloadlen) (\<lambda>ms. Inr (s\<lparr>arrived_todo := arrived_todo s @ ms\<rparr>))"

definition callback_post :: "('h, 'k, 'w) system \<Rightarrow> ('h, 'k, 'w) system" where
  "callback_post s = s\<lparr>arrived_todo := tl (arrived_todo s), arrived := arrived s @ [hd (arrived_todo s)]\<rparr>"

text \<open>\<open>event_manager_thread\<close>.\<close>

definition event_step :: "('h, 'k, 'w) system \<Rightarrow> 'k stop + ('h, 'k, 'w) system" where
  "event_step s = andThen (event_manager_mail (hd (arrived s))) (\<lambda>cs. Inr (s\<lparr>arrived := tl (arrived s), control := control s @ cs\<rparr>))"

text \<open>\<open>sensor_thread\<close>: reading, posting, and the end of the round.\<close>

definition sensor_read :: "int \<Rightarrow> (string \<times> string) option \<Rightarrow> ('h, 'k, 'w) system \<Rightarrow> ('h, 'k, 'w) system" where
  "sensor_read now s_data s =
     s\<lparr>polling := True, llp_todo := (if poll_counter s = 0 then sensor_stream now s_data else [])\<rparr>"

definition sensor_post :: "('h, 'k, 'w) system \<Rightarrow> ('h, 'k, 'w) system" where
  "sensor_post s = s\<lparr>llp_todo := tl (llp_todo s), llp := llp s @ [hd (llp_todo s)]\<rparr>"

definition sensor_end ::
    "('r, 'h, 'k, 'w) device_env \<Rightarrow> ('h, 'k, 'w) system \<Rightarrow> 'k stop + ('h, 'k, 'w) system" where
  "sensor_end env s =
     (let s = s\<lparr>polling := False, poll_counter := next_poll_counter (cycle_interval s) (poll_counter s)\<rparr> in
      case control s of
        [] \<Rightarrow> Inr s
      | m # ms \<Rightarrow>
          andThen (execute_sensor_control (kv env) (json_io env) m (system_store s) (cycle_interval s)) (\<lambda>(rs, k, interval, frees).
            Inr (s\<lparr>control := ms, control_damaged := (control_damaged s \<or> 1 < frees), replies_box := replies_box s @ rs, cycle_interval := interval,
              controller := (controller s)\<lparr>decada := (decada (controller s))\<lparr>store := k\<rparr>\<rparr>\<rparr>)))"

text \<open>\<open>behavior_coordinator_thread\<close>: a mail, then the mutex, then the packet.\<close>

definition behavior_step :: "('h, 'k, 'w) system \<Rightarrow> ('h, 'k, 'w) system" where
  "behavior_step s =
     (case behavior_mail (hd (llp s)) (sensors_profile s, False) of
        (p, send) \<Rightarrow> s\<lparr>llp := tl (llp s), sensors_profile := p, send_packets := send\<rparr>)"

definition behavior_post ::
    "('r, 'h, 'k, 'w) device_env \<Rightarrow> (string \<Rightarrow> 'r option) \<Rightarrow> ('h, 'k, 'w) system \<Rightarrow> 'k stop + ('h, 'k, 'w) system" where
  "behavior_post env stod s =
     andThen (GetNewDecadaPacket (json_io env) stod (device_uuid env) (sensors_profile s)) (\<lambda>packet.
       Inr (s\<lparr>upstream := upstream s @ [StringToChar packet], stdio_held := False, send_packets := False\<rparr>))"

section \<open>The steps\<close>

definition settle :: "('h, 'k, 'w) system \<Rightarrow> 'k stop + ('h, 'k, 'w) system \<Rightarrow> ('h, 'k, 'w) system" where
  "settle s r = (case r of Inl e \<Rightarrow> s\<lparr>stopped := Some e\<rparr> | Inr s' \<Rightarrow> s')"

inductive system_step ::
    "('r, 'h, 'k, 'w) device_env \<Rightarrow> (string \<Rightarrow> 'r option) \<Rightarrow> ('h, 'k, 'w) system \<Rightarrow> ('h, 'k, 'w) system \<Rightarrow> bool"
  for env stod where
  controls: "stopped s = None \<Longrightarrow> controller_ready s \<Longrightarrow>
    system_step env stod s (settle s (controller_step env ntp_success s))"
| subscribes: "stopped s = None \<Longrightarrow> system_step env stod s (settle s (subscription_step env s))"
| arrives: "stopped s = None \<Longrightarrow> system_step env stod s (settle s (callback_step (json_io env) payload payloadlen s))"
| posts_arrived: "stopped s = None \<Longrightarrow> arrived_todo s \<noteq> [] \<Longrightarrow> length (arrived s) < 128 \<Longrightarrow>
    system_step env stod s (callback_post s)"
| distributes: "stopped s = None \<Longrightarrow> arrived s \<noteq> [] \<Longrightarrow> length (control s) < 64 \<or> control_damaged s \<Longrightarrow>
    system_step env stod s (settle s (event_step s))"
| garbles: "stopped s = None \<Longrightarrow> control_damaged s \<Longrightarrow> system_step env stod s (s\<lparr>control := ms\<rparr>)"
| reads: "stopped s = None \<Longrightarrow> \<not> polling s \<Longrightarrow> system_step env stod s (sensor_read now s_data s)"
| posts_llp: "stopped s = None \<Longrightarrow> llp_todo s \<noteq> [] \<Longrightarrow> length (llp s) < 256 \<Longrightarrow> system_step env stod s (sensor_post s)"
| ends: "stopped s = None \<Longrightarrow> polling s \<Longrightarrow> llp_todo s = [] \<Longrightarrow> replies_used s < 256 \<Longrightarrow>
    system_step env stod s (settle s (sensor_end env s))"
| behaves: "stopped s = None \<Longrightarrow> llp s \<noteq> [] \<Longrightarrow> \<not> send_packets s \<Longrightarrow> system_step env stod s (behavior_step s)"
| locks: "stopped s = None \<Longrightarrow> send_packets s \<Longrightarrow> \<not> stdio_held s \<Longrightarrow> system_step env stod s (s\<lparr>stdio_held := True\<rparr>)"
| posts_packet: "stopped s = None \<Longrightarrow> stdio_held s \<Longrightarrow> upstream_used s < 256 \<Longrightarrow>
    system_step env stod s (settle s (behavior_post env stod s))"

text \<open>The system when the threads have started, the sensor thread with the interval of the store.\<close>

definition system_start :: "('h, 'k, 'w) comms \<Rightarrow> int \<Rightarrow> ('h, 'k, 'w) system" where
  "system_start c interval =
     \<lparr>controller = c, controller_at = Waiting, stdio_held = False, arrived_todo = [], arrived = [], control = [],
      control_damaged = False,      polling = False, poll_counter = 0, cycle_interval = interval, llp_todo = [], llp = [], sensors_profile = [],
      send_packets = False, upstream = [], replies_box = [], stopped = None\<rparr>"

abbreviation system_runs where
  "system_runs env stod \<equiv> (system_step env stod)\<^sup>*\<^sup>*"

section \<open>The store and the interval\<close>

lemma on_client_store: "on_client env f d = Inr (rc, d') \<Longrightarrow> store d' = store d"
  by (erule on_client_Inr) simp

lemma Publish_store: "Publish env topic payload d = Inr (ok, d') \<Longrightarrow> store d' = store d"
  by (auto simp: Publish_def andThen_Inr_iff dest: on_client_store)

lemma reconnect_loop_store: "reconnect_loop env failed ok d = Inr d' \<Longrightarrow> store d' = store d"
proof (induction env failed ok d rule: reconnect_loop.induct)
  case (1 env failed ok d)
  show ?case
  proof (cases ok)
    case False
    then obtain ok1 d1 where r: "reconnect_once env d = Inr (ok1, d1)"
      using 1(2) by (cases "reconnect_once env d") (auto simp: reconnect_loop.simps)
    then have "failed + 1 \<noteq> max_mqtt_failed_reconnections" "reconnect_loop env (failed + 1) ok1 d1 = Inr d'"
      using 1(2) False by (auto simp: reconnect_loop.simps [of env failed] split: if_splits)
    then show ?thesis
      using 1(1) [OF False r] reconnect_once_linked [OF r] by (simp add: linked_def)
  qed (use 1(2) in \<open>auto simp: reconnect_loop.simps\<close>)
qed

lemma Reconnect_store:
  assumes "Reconnect env d = Inr (ok, d')"
  shows "store d' = store d"
proof -
  obtain d1 d2 ok1 d3 where "DisconnectMqttNetwork env d = Inr d1" "DisconnectMqttClient env d1 = Inr d2"
      "reconnect_once env d2 = Inr (ok1, d3)" "reconnect_loop env (mqtt_failed_reconnections d3) ok1 d3 = Inr d'"
    using assms by (auto simp: Reconnect_def ReconnectMqttService_def andThen_Inr_iff)
  then show ?thesis
    using DisconnectMqttClient_keeps [of env d1 d2] reconnect_once_linked [of env d2 ok1 d3] reconnect_loop_store [of env _ ok1 d3 d']
    by (auto simp: DisconnectMqttNetwork_def linked_def split: option.splits)
qed

lemma map_snd_Inr_iff: "map_sum (\<lambda>e. e) snd x = Inr d \<longleftrightarrow> (\<exists>ok. x = Inr (ok, d))"
  by (cases x) auto

lemma subscription_round_store: "subscription_round env d = Inr d' \<Longrightarrow> store d' = store d"
  by (auto simp: subscription_round_def andThen_Inr_iff map_snd_Inr_iff dest!: on_client_store Reconnect_store split: if_splits)

lemma publish_mail_store: "publish_mail env mail c = Inr c' \<Longrightarrow> store (decada c') = store (decada c)"
  by (auto simp: publish_mail_def andThen_Inr_iff dest: Publish_store split: option.splits prod.splits)

lemma controller_step_store: "controller_step env ntp_success s = Inr s' \<Longrightarrow> system_store s' = system_store s"
  by (auto simp: controller_step_def andThen_Inr_iff ntp_round_def dest: publish_mail_store Reconnect_store
      split: controller_pc.splits if_splits)

text \<open>
  What every reachable state keeps: no mailbox holds more mails than it has blocks, that of the control mails as long as
  none of its blocks has been freed twice; the interval of the sensor thread is the one in the store, and it is
  either the first one or was set by a command of at least ten seconds, which has then damaged that mailbox; the
  mutex is held only for a packet.
\<close>

definition interval_ok :: "int \<Rightarrow> int \<Rightarrow> bool" where
  "interval_ok first i \<longleftrightarrow> i = first \<or> (10000 \<le> i \<and> i \<le> int_max \<and> i mod 1000 = 0)"

definition mailboxes_ok :: "('h, 'k, 'w) system \<Rightarrow> bool" where
  "mailboxes_ok s \<longleftrightarrow> length (arrived s) \<le> 128 \<and> (control_damaged s \<or> length (control s) \<le> 64) \<and> length (llp s) \<le> 256 \<and>
     upstream_used s \<le> 256 \<and> replies_used s \<le> 256"

definition system_ok :: "('r, 'h, 'k, 'w) device_env \<Rightarrow> int \<Rightarrow> ('h, 'k, 'w) system \<Rightarrow> bool" where
  "system_ok env first s \<longleftrightarrow> mailboxes_ok s \<and> interval_ok first (cycle_interval s) \<and>
     StringToInt (ReadCycleInterval (kv env) (system_store s)) = Some (cycle_interval s) \<and>
     (cycle_interval s \<noteq> first \<longrightarrow> control_damaged s) \<and> (stdio_held s \<longrightarrow> send_packets s)"

lemma stop_mailboxes [simp]: "mailboxes_ok (s\<lparr>stopped := e\<rparr>) = mailboxes_ok s"
  by (simp add: mailboxes_ok_def upstream_used_def replies_used_def)

lemma system_ok_settle:
  "system_ok env first s \<Longrightarrow> (\<And>s'. r = Inr s' \<Longrightarrow> system_ok env first s') \<Longrightarrow> system_ok env first (settle s r)"
  by (cases r) (simp_all add: settle_def system_ok_def)

lemma first_mail_length: "length (tl q) + (case first_mail q of None \<Rightarrow> 0 | Some m \<Rightarrow> 1) = length q"
  by (cases q) (simp_all add: first_mail_def)

lemma controller_step_mailboxes:
  assumes "controller_step env ntp_success s = Inr s'" "mailboxes_ok s"
  shows "mailboxes_ok s'"
proof (cases "controller_at s")
  case Waiting
  then show ?thesis
    using assms first_mail_length [of "upstream s"]
    by (auto simp: controller_step_def mailboxes_ok_def upstream_used_def replies_used_def split: option.splits)
next
  case Answering
  then show ?thesis
    using assms first_mail_length [of "replies_box s"]
    by (auto simp: controller_step_def mailboxes_ok_def upstream_used_def replies_used_def split: option.splits)
qed (use assms in \<open>auto simp: controller_step_def mailboxes_ok_def upstream_used_def replies_used_def andThen_Inr_iff
  split: option.splits if_splits\<close>)

lemma controller_step_rest:
  "controller_step env ntp_success s = Inr s' \<Longrightarrow>
    cycle_interval s' = cycle_interval s \<and> control_damaged s' = control_damaged s \<and> stdio_held s' = stdio_held s \<and> send_packets s' = send_packets s"
  by (auto simp: controller_step_def andThen_Inr_iff split: controller_pc.splits if_splits)

lemma execute_sensor_control_interval:
  assumes "reliable settings content" "execute_sensor_control settings io m k old = Inr (rs, k', new, frees)"
    and "StringToInt (ReadCycleInterval settings k) = Some old"
  shows "length rs \<le> 1" "StringToInt (ReadCycleInterval settings k') = Some new" "interval_ok old new" "new \<noteq> old \<longrightarrow> 1 < frees"
proof -
  have read: "StringToInt (IntToString n) = Some n" if "int_min \<le> n" "n \<le> int_max" for n
    using that by (simp add: StringToInt_def stream_read_int)
  show "length rs \<le> 1" "StringToInt (ReadCycleInterval settings k') = Some new" "interval_ok old new" "new \<noteq> old \<longrightarrow> 1 < frees"
    using assms by (auto simp: execute_sensor_control_def Let_def interval_ok_def readers writers ReadKey_WriteKey [OF assms(1)] read
        int_min_def split: if_splits)
qed

lemma sensor_end_ok:
  assumes "reliable (kv env) content" "sensor_end env s = Inr s'" "replies_used s < 256" "system_ok env first s"
  shows "system_ok env first s'"
proof (cases "control s")
  case Nil
  then show ?thesis
    using assms(2,4)
    by (auto simp: sensor_end_def Let_def system_ok_def mailboxes_ok_def upstream_used_def replies_used_def)
next
  case (Cons m ms)
  then obtain rs k i f where e: "execute_sensor_control (kv env) (json_io env) m (system_store s) (cycle_interval s) = Inr (rs, k, i, f)"
    using assms(2) by (auto simp: sensor_end_def Let_def andThen_Inr_iff)
  have "StringToInt (ReadCycleInterval (kv env) (system_store s)) = Some (cycle_interval s)"
    using assms(4) by (simp add: system_ok_def)
  note i = execute_sensor_control_interval [OF assms(1) e this]
  then have "interval_ok first i"
    using assms(4) by (auto simp: system_ok_def interval_ok_def)
  then show ?thesis
    using assms(2-4) Cons i e
    by (auto simp: sensor_end_def Let_def system_ok_def mailboxes_ok_def upstream_used_def replies_used_def)
qed

lemma system_step_ok:
  assumes "reliable (kv env) content" "system_step env stod s s'" "system_ok env first s"
  shows "system_ok env first s'"
  using assms(2)
proof cases
  case (controls ntp_success)
  have "system_ok env first s1" if "controller_step env ntp_success s = Inr s1" for s1
    using assms(3) controller_step_mailboxes [OF that] controller_step_rest [OF that] controller_step_store [OF that]
    by (simp add: system_ok_def)
  then show ?thesis
    unfolding controls(1) using assms(3) by (rule system_ok_settle [rotated])
next
  case subscribes
  have "system_ok env first s1" if "subscription_step env s = Inr s1" for s1
    using that assms(3)
    by (auto simp: subscription_step_def andThen_Inr_iff system_ok_def mailboxes_ok_def upstream_used_def replies_used_def
        dest!: subscription_round_store)
  then show ?thesis
    unfolding subscribes(1) using assms(3) by (rule system_ok_settle [rotated])
next
  case (arrives payload payloadlen)
  have "system_ok env first s1" if "callback_step (json_io env) payload payloadlen s = Inr s1" for s1
    using that assms(3)
    by (auto simp: callback_step_def andThen_Inr_iff system_ok_def mailboxes_ok_def upstream_used_def replies_used_def)
  then show ?thesis
    unfolding arrives(1) using assms(3) by (rule system_ok_settle [rotated])
next
  case distributes
  have "length cs \<le> 1" if "event_manager_mail m = Inr cs" for m :: mqtt_arrived_mail and cs
    using that by (auto simp: event_manager_mail_def DistributeControlMessage_def andThen_Inr_iff split: if_splits)
  then have "system_ok env first s1" if "event_step s = Inr s1" for s1
    using that assms(3) distributes(4)
    by (fastforce simp: event_step_def andThen_Inr_iff system_ok_def mailboxes_ok_def upstream_used_def replies_used_def)
  then show ?thesis
    unfolding distributes(1) using assms(3) by (rule system_ok_settle [rotated])
next
  case ends
  show ?thesis
    unfolding ends(1) using assms(3) sensor_end_ok [OF assms(1) _ ends(5) assms(3)] by (rule system_ok_settle)
next
  case posts_packet
  have "system_ok env first s1" if "behavior_post env stod s = Inr s1" for s1
    using that assms(3) posts_packet(4)
    by (auto simp: behavior_post_def andThen_Inr_iff system_ok_def mailboxes_ok_def upstream_used_def replies_used_def)
  then show ?thesis
    unfolding posts_packet(1) using assms(3) by (rule system_ok_settle [rotated])
qed (use assms(3) in \<open>auto simp: callback_post_def sensor_read_def sensor_post_def behavior_step_def system_ok_def mailboxes_ok_def
  upstream_used_def replies_used_def split: prod.splits\<close>)

text \<open>
  C3: From the start of the threads, over a store that keeps what is written and holds a number as the interval,
  whatever arrives from the cloud and in whatever order the threads run: the mailboxes of arrived messages,
  sensor data, packets and replies never hold more mails than they have blocks, and the interval of the sensor
  thread is the one kept in the store. As long as no command has set the rate, this holds for the control mails too and
  the interval is the first one. A command sets it to whole seconds, at least ten, and frees its block twice,
  so nothing is known of the mailbox of the control mails from then on; the rest still holds, whatever mails
  are found there.
\<close>

theorem system_invariant:
  assumes "reliable (kv env) content" "StringToInt (ReadCycleInterval (kv env) (store (decada c))) = Some first"
    and "system_runs env stod (system_start c first) s"
  shows "length (arrived s) \<le> 128 \<and> length (llp s) \<le> 256 \<and> upstream_used s \<le> 256 \<and> replies_used s \<le> 256 \<and>
    (\<not> control_damaged s \<longrightarrow> length (control s) \<le> 64 \<and> cycle_interval s = first) \<and>
    StringToInt (ReadCycleInterval (kv env) (system_store s)) = Some (cycle_interval s) \<and>
    interval_ok first (cycle_interval s)"
proof -
  have start: "system_ok env first (system_start c first)"
    using assms(2)
    by (simp add: system_ok_def mailboxes_ok_def interval_ok_def system_start_def upstream_used_def replies_used_def)
  from assms(3) have "system_ok env first s"
    by (induction rule: rtranclp_induct) (auto intro: start system_step_ok [OF assms(1)])
  then show ?thesis
    by (auto simp: system_ok_def mailboxes_ok_def)
qed

section \<open>A deadlock\<close>

text \<open>
  The behaviour coordinator waits for a block of the upstream mailbox with \<open>stdio_mutex\<close> locked; the controller,
  which alone frees such blocks, waits in \<open>Publish\<close> for the mutex with a block in its hands.
\<close>

definition deadlocked :: "('h, 'k, 'w) system \<Rightarrow> bool" where
  "deadlocked s \<longleftrightarrow> stdio_held s \<and> send_packets s \<and> (\<exists>p. controller_at s = Publishing (Some p)) \<and> upstream_used s = 256"

definition still_waits :: "('h, 'k, 'w) system \<Rightarrow> ('h, 'k, 'w) system \<Rightarrow> bool" where
  "still_waits s s' \<longleftrightarrow> stdio_held s' = stdio_held s \<and> send_packets s' = send_packets s \<and> controller_at s' = controller_at s \<and>
     upstream s' = upstream s"

lemma settle_waits: "(\<And>s'. r = Inr s' \<Longrightarrow> still_waits s s') \<Longrightarrow> still_waits s (settle s r)"
  by (cases r) (simp_all add: settle_def still_waits_def)

lemma deadlocked_step:
  assumes "system_step env stod s s'" "deadlocked s"
  shows "still_waits s s'"
  using assms(1)
proof cases
  case (controls ntp_success)
  then show ?thesis
    using assms(2) by (auto simp: deadlocked_def controller_ready_def)
next
  case posts_packet
  then show ?thesis
    using assms(2) by (simp add: deadlocked_def)
next
  case ends
  show ?thesis
    unfolding ends(1)
    by (rule settle_waits) (auto simp: sensor_end_def Let_def andThen_Inr_iff still_waits_def split: list.splits)
next
  case subscribes
  show ?thesis
    unfolding subscribes(1) by (rule settle_waits) (auto simp: subscription_step_def andThen_Inr_iff still_waits_def)
next
  case (arrives payload payloadlen)
  show ?thesis
    unfolding arrives(1) by (rule settle_waits) (auto simp: callback_step_def andThen_Inr_iff still_waits_def)
next
  case distributes
  show ?thesis
    unfolding distributes(1) by (rule settle_waits) (auto simp: event_step_def andThen_Inr_iff still_waits_def)
qed (use assms(2) in \<open>auto simp: callback_post_def sensor_read_def sensor_post_def behavior_step_def deadlocked_def still_waits_def
  split: prod.splits\<close>)

lemma still_waits_deadlocked: "deadlocked s \<Longrightarrow> still_waits s s' \<Longrightarrow> deadlocked s'"
  by (simp add: deadlocked_def still_waits_def upstream_used_def)

lemma deadlock_is_final:
  assumes "system_runs env stod s s'" "deadlocked s"
  shows "still_waits s s'"
  using assms(1)
proof (induction rule: rtranclp_induct)
  case (step t u)
  then show ?case
    using deadlocked_step [OF step(2) still_waits_deadlocked [OF assms(2) step(3)]] by (simp add: still_waits_def)
qed (simp add: still_waits_def)

text \<open>How it comes about: the sensor reads, the controller does not run.\<close>

definition empty_packet :: "('r, 'h, 'k, 'w) device_env \<Rightarrow> string" where
  "empty_packet env = filter (\<lambda>c. c \<noteq> CHR 0x0A) (FastWriter_write (json_io env) (json_object [(''id'', JString (device_uuid env)),
     (''version'', JString ''1.0''), (''params'', json_object [(''measurepoints'', JNull)]), (''method'', JString ''thing.measurepoint.post'')]))"

lemma empty_profile_packet: "GetNewDecadaPacket (json_io env) stod (device_uuid env) [] = Inr (empty_packet env)"
  by (simp add: GetNewDecadaPacket_def CreateDecadaPacket_def empty_packet_def)

definition silent :: "('h, 'k, 'w) comms \<Rightarrow> controller_pc \<Rightarrow> int \<Rightarrow> string list \<Rightarrow> int \<Rightarrow> ('h, 'k, 'w) system" where
  "silent c pc interval packets counter =
     (system_start c interval)\<lparr>controller_at := pc, upstream := packets, poll_counter := counter\<rparr>"

lemma runs_step: "system_runs env stod s t \<Longrightarrow> system_step env stod t u \<Longrightarrow> system_runs env stod s u"
  by (rule rtranclp.rtrancl_into_rtrancl)

lemma reading_fills:
  "system_runs env stod (silent c pc interval packets 0)
    ((silent c pc interval packets (next_poll_counter interval 0))\<lparr>send_packets := True\<rparr>)"
proof -
  define s0 where "s0 = silent c pc interval packets 0"
  define s1 where "s1 = sensor_read 0 None s0"
  define s2 where "s2 = sensor_post (sensor_post s1)"
  define s3 where "s3 = settle s2 (sensor_end env s2)"
  define s4 where "s4 = behavior_step (behavior_step s3)"
  note d = s0_def s1_def s2_def s3_def s4_def silent_def system_start_def sensor_read_def sensor_post_def sensor_stream_def
    sensor_end_def settle_def Let_def replies_used_def
  have "system_step env stod s0 s1"
    unfolding s1_def by (rule reads) (simp_all add: d)
  moreover have "system_step env stod s1 (sensor_post s1)"
    by (rule posts_llp) (simp_all add: d)
  moreover have "system_step env stod (sensor_post s1) s2"
    unfolding s2_def by (rule posts_llp) (simp_all add: d)
  moreover have "system_step env stod s2 s3"
    unfolding s3_def by (rule ends) (simp_all add: d split: controller_pc.splits option.splits)
  moreover have "system_step env stod s3 (behavior_step s3)"
    by (rule behaves) (simp_all add: d)
  moreover have "system_step env stod (behavior_step s3) s4"
    unfolding s4_def by (rule behaves) (simp_all add: d behavior_step_def behavior_mail_def)
  moreover have "s4 = (silent c pc interval packets (next_poll_counter interval 0))\<lparr>send_packets := True\<rparr>"
    by (simp add: d behavior_step_def behavior_mail_def ClearEntityList_def)
  ultimately show ?thesis
    unfolding s0_def by (metis (no_types) rtranclp.rtrancl_refl runs_step)
qed

lemma lock_and_post:
  assumes "upstream_used (silent c pc interval packets counter) < 256"
  shows "system_runs env stod ((silent c pc interval packets counter)\<lparr>send_packets := True\<rparr>)
    (silent c pc interval (packets @ [StringToChar (empty_packet env)]) counter)"
proof -
  define s where "s = (silent c pc interval packets counter)\<lparr>send_packets := True\<rparr>"
  define t where "t = s\<lparr>stdio_held := True\<rparr>"
  have "system_step env stod s t"
    unfolding t_def by (rule locks) (simp_all add: s_def silent_def system_start_def)
  moreover have "system_step env stod t (settle t (behavior_post env stod t))"
    using assms by (intro posts_packet) (simp_all add: t_def s_def silent_def system_start_def upstream_used_def)
  moreover have "settle t (behavior_post env stod t) = silent c pc interval (packets @ [StringToChar (empty_packet env)]) counter"
    by (simp add: settle_def behavior_post_def t_def s_def silent_def system_start_def empty_profile_packet)
  ultimately show ?thesis
    unfolding s_def by (metis (no_types) rtranclp.rtrancl_refl runs_step)
qed

text \<open>A round without a reading.\<close>

lemma idle_round:
  assumes "counter \<noteq> 0"
  shows "system_runs env stod (silent c pc interval packets counter) (silent c pc interval packets (next_poll_counter interval counter))"
proof -
  define s0 where "s0 = silent c pc interval packets counter"
  define s1 where "s1 = sensor_read 0 None s0"
  note d = s0_def s1_def silent_def system_start_def sensor_read_def sensor_end_def settle_def Let_def replies_used_def assms
  have "system_step env stod s0 s1"
    unfolding s1_def by (rule reads) (simp_all add: d)
  moreover have "system_step env stod s1 (settle s1 (sensor_end env s1))"
    by (rule ends) (simp_all add: d split: controller_pc.splits option.splits)
  moreover have "settle s1 (sensor_end env s1) = silent c pc interval packets (next_poll_counter interval counter)"
    by (simp add: d)
  ultimately show ?thesis
    unfolding s0_def by (metis (no_types) rtranclp.rtrancl_refl runs_step)
qed

lemma counter_comes_round:
  "system_runs env stod (silent c pc interval packets counter) (silent c pc interval packets 0)" if "0 \<le> counter"
  using that
proof (induction "nat (interval sdiv 1000 - counter)" arbitrary: counter rule: less_induct)
  case less
  show ?case
  proof (cases "counter = 0")
    case False
    show ?thesis
    proof (cases "next_poll_counter interval counter = 0")
      case True
      then show ?thesis
        using idle_round [OF False, of env stod c pc interval packets] by simp
    next
      case more: False
      then have n: "next_poll_counter interval counter = counter + 1" "counter + 1 < interval sdiv 1000"
        by (auto simp: next_poll_counter_def Let_def split: if_splits)
      then have "system_runs env stod (silent c pc interval packets (counter + 1)) (silent c pc interval packets 0)"
        using less by simp
      then show ?thesis
        using idle_round [OF False, of env stod c pc interval packets] n(1) by (simp add: rtranclp_trans)
    qed
  qed simp
qed

lemma next_poll_counter_nonneg: "0 \<le> counter \<Longrightarrow> 0 \<le> next_poll_counter interval counter"
  by (simp add: next_poll_counter_def Let_def)

lemma packets_fill:
  "n \<le> 256 \<Longrightarrow> system_runs env stod (system_start c interval)
    (silent c Waiting interval (replicate n (StringToChar (empty_packet env))) 0)"
proof (induction n)
  case 0
  have "silent c Waiting interval [] 0 = system_start c interval"
    by (simp add: silent_def system_start_def)
  then show ?case
    by simp
next
  case (Suc n)
  define p where "p = StringToChar (empty_packet env)"
  let ?counter = "next_poll_counter interval 0"
  have "system_runs env stod (silent c Waiting interval (replicate n p) 0)
      (silent c Waiting interval (replicate n p @ [p]) ?counter)"
    using rtranclp_trans [OF reading_fills lock_and_post, of c Waiting interval "replicate n p" env stod] Suc.prems
    by (simp add: upstream_used_def silent_def p_def)
  moreover have "system_runs env stod (silent c Waiting interval (replicate n p @ [p]) ?counter)
      (silent c Waiting interval (replicate n p @ [p]) 0)"
    by (rule counter_comes_round) (simp add: next_poll_counter_nonneg)
  ultimately show ?case
    using Suc by (simp add: p_def replicate_append_same)
qed

lemma deadlock_arises:
  "\<exists>s. system_runs env stod (system_start c interval) s \<and> stopped s = None \<and> deadlocked s"
proof -
  define p where "p = StringToChar (empty_packet env)"
  define c' where "c' = ntp_round True c"
  define s where "s = silent c Waiting interval (replicate 256 p) 0"
  define t where "t = (silent c' (Publishing (Some p)) interval (replicate 255 p) (next_poll_counter interval 0))\<lparr>send_packets := True\<rparr>"
  have "system_runs env stod (system_start c interval) s"
    unfolding s_def p_def by (rule packets_fill) simp
  moreover have "system_step env stod s (silent c' (Publishing (Some p)) interval (replicate 255 p) 0)"
  proof -
    have "replicate 256 p = p # replicate 255 p"
      using replicate_Suc [of 255 p] by simp
    then have "settle s (controller_step env True s) = silent c' (Publishing (Some p)) interval (replicate 255 p) 0"
      by (simp add: settle_def controller_step_def s_def c'_def silent_def system_start_def first_mail_def)
    moreover have "system_step env stod s (settle s (controller_step env True s))"
      by (rule controls) (simp_all add: s_def silent_def system_start_def controller_ready_def)
    ultimately show ?thesis
      by simp
  qed
  moreover have "system_runs env stod (silent c' (Publishing (Some p)) interval (replicate 255 p) 0) t"
    unfolding t_def by (rule reading_fills)
  moreover have "system_step env stod t (t\<lparr>stdio_held := True\<rparr>)"
    by (rule locks) (simp_all add: t_def silent_def system_start_def)
  moreover have "deadlocked (t\<lparr>stdio_held := True\<rparr>)" "stopped (t\<lparr>stdio_held := True\<rparr>) = None"
    by (simp_all add: t_def deadlocked_def upstream_used_def silent_def system_start_def)
  ultimately show ?thesis
    by (metis (no_types) rtranclp_trans runs_step)
qed

text \<open>
  C4: From the start of the threads, with any environment and any interval, a schedule leads to a state in which
  the controller waits for \<open>stdio_mutex\<close> and the behaviour coordinator, which holds it, for a block that only the
  controller frees; whatever happens after, this remains and nothing is published any more.
\<close>

theorem deadlock_reachable:
  "\<exists>s. system_runs env stod (system_start c interval) s \<and> stopped s = None \<and> deadlocked s \<and>
    (\<forall>s'. system_runs env stod s s' \<longrightarrow> deadlocked s' \<and> controller_at s' = controller_at s \<and> upstream s' = upstream s)"
proof -
  obtain s where s: "system_runs env stod (system_start c interval) s" "stopped s = None" "deadlocked s"
    using deadlock_arises by blast
  have "deadlocked s' \<and> controller_at s' = controller_at s \<and> upstream s' = upstream s" if "system_runs env stod s s'" for s'
    using deadlock_is_final [OF that s(3)] still_waits_deadlocked [OF s(3), of s'] by (simp add: still_waits_def)
  then show ?thesis
    using s by blast
qed

section \<open>A block freed twice\<close>

lemma sensor_end_rate:
  assumes "control s = [poll_rate_control i v]" "10 \<le> v" "v \<le> 2147483"
  shows "\<exists>s'. sensor_end env s = Inr s' \<and> stopped s' = stopped s \<and> control_damaged s' \<and> control s' = [] \<and>
    cycle_interval s' = v * 1000 \<and> length (replies_box s') = Suc (length (replies_box s)) \<and>
    system_store s' = WriteCycleInterval (kv env) (IntToString (v * 1000)) (system_store s)"
  using assms by (auto simp: sensor_end_def Let_def execute_sensor_control_def poll_rate_control_def int_max_def)

text \<open>
  C13: One command of the cloud is enough: from the start of the threads, over a store that keeps what is written, a
  schedule in which a message with a rate of 10 to 2147483 seconds arrives, is distributed and
  is executed by the sensor thread ends with the interval set and stored, one reply to publish, and the block of the mail
  freed twice.
\<close>

theorem double_free_reachable:
  assumes "reliable (kv env) content" "10 \<le> v" "v \<le> 2147483"
  shows "\<exists>s. system_runs env stod (system_start c first) s \<and> stopped s = None \<and> control_damaged s \<and>
    cycle_interval s = v * 1000 \<and> StringToInt (ReadCycleInterval (kv env) (system_store s)) = Some (v * 1000) \<and>
    length (replies_box s) = 1"
proof -
  define io where "io = json_io env"
  define msg where "msg = writeValue io (poll_rate_command ''1'' v)"
  define s0 where "s0 = system_start c first"
  define s1 where "s1 = s0\<lparr>arrived_todo := [poll_rate_mail ''1'' v]\<rparr>"
  define s2 where "s2 = callback_post s1"
  define s3 where "s3 = s2\<lparr>arrived := [], control := [poll_rate_control ''1'' v]\<rparr>"
  define s4 where "s4 = sensor_post (sensor_post (sensor_read 0 None s3))"
  have v: "int_min \<le> v" "v \<le> int_max" "ascii ''1''" "CHR 0x00 \<notin> set ''1''"
    using assms(2,3) by (simp_all add: int_min_def int_max_def ascii_def code_def)
  note d = s0_def s1_def s2_def s3_def s4_def system_start_def callback_post_def sensor_read_def sensor_post_def sensor_stream_def
  have "callback_step io msg (length msg) s0 = Inr s1"
    by (simp add: callback_step_def msg_def poll_rate_mail_def d poll_rate_arrives [OF v(3,4,1,2), of io "[]", unfolded append_Nil2])
  moreover have "system_step env stod s0 (settle s0 (callback_step io msg (length msg) s0))"
    unfolding io_def by (rule arrives) (simp add: d)
  ultimately have "system_runs env stod s0 s1"
    by (simp add: settle_def)
  moreover have "system_step env stod s1 s2"
    unfolding s2_def by (rule posts_arrived) (simp_all add: d)
  moreover have "system_step env stod s2 s3"
  proof -
    have "event_step s2 = Inr s3"
      by (simp add: event_step_def d poll_rate_distributed [OF v(4,1,2)])
    moreover have "system_step env stod s2 (settle s2 (event_step s2))"
      by (rule distributes) (simp_all add: d)
    ultimately show ?thesis
      by (simp add: settle_def)
  qed
  moreover have "system_step env stod s3 (sensor_read 0 None s3)"
    by (rule reads) (simp_all add: d)
  moreover have "system_step env stod (sensor_read 0 None s3) (sensor_post (sensor_read 0 None s3))"
    by (rule posts_llp) (simp_all add: d)
  moreover have "system_step env stod (sensor_post (sensor_read 0 None s3)) s4"
    unfolding s4_def by (rule posts_llp) (simp_all add: d)
  moreover obtain s5 where s5: "sensor_end env s4 = Inr s5" "stopped s5 = stopped s4" "control_damaged s5"
      "cycle_interval s5 = v * 1000" "length (replies_box s5) = Suc (length (replies_box s4))"
      "system_store s5 = WriteCycleInterval (kv env) (IntToString (v * 1000)) (system_store s4)"
    using sensor_end_rate [of s4 "''1''" v env] assms(2,3) by (auto simp: d)
  moreover have "system_step env stod s4 s5"
  proof -
    have "system_step env stod s4 (settle s4 (sensor_end env s4))"
      by (rule ends) (simp_all add: d replies_used_def)
    then show ?thesis
      by (simp add: settle_def s5(1))
  qed
  ultimately have "system_runs env stod (system_start c first) s5"
    unfolding s0_def by (meson runs_step)
  moreover have "StringToInt (ReadCycleInterval (kv env) (system_store s5)) = Some (v * 1000)"
    unfolding s5(6) by (rule interval_written [OF assms])
  moreover have "stopped s4 = None" "replies_box s4 = []"
    by (simp_all add: d)
  ultimately show ?thesis
    using s5(2-5) by auto
qed

section \<open>Examples\<close>

definition sample_comms :: "(nat, string \<rightharpoonup> string, nat script) comms" where
  "sample_comms = \<lparr>decada = closed_device\<lparr>store := WriteCycleInterval ram_store (IntToString 10000) (\<lambda>_. None)\<rparr>, pub_ok = True,
     ntp_counter = ntp_counter_max, initial_ntp_update = False\<rparr>"

lemma sample_kv: "kv script_device_env = ram_store"
  by (simp add: script_device_env_def sample_env_def)

theorem system_invariant_witness:
  "let s = sensor_read 5 None (system_start sample_comms 10000) in
    length (llp s) \<le> 256 \<and> length (control s) \<le> 64 \<and> interval_ok 10000 (cycle_interval s)"
proof -
  have interval: "StringToInt (ReadCycleInterval (kv script_device_env) (store (decada sample_comms))) = Some 10000"
    by (simp add: sample_comms_def sample_kv readers writers ReadKey_WriteKey [OF ram_store_reliable] StringToInt_IntToString
        int_min_def int_max_def)
  have "system_step script_device_env Some (system_start sample_comms 10000) (sensor_read 5 None (system_start sample_comms 10000))"
    by (rule reads) (simp_all add: system_start_def)
  then have "system_runs script_device_env Some (system_start sample_comms 10000) (sensor_read 5 None (system_start sample_comms 10000))"
    by simp
  from system_invariant [OF _ interval this] show ?thesis
    using ram_store_reliable by (simp add: sample_kv Let_def) (simp add: system_start_def sensor_read_def)
qed

theorem double_free_reachable_witness:
  "\<exists>s. system_runs script_device_env Some (system_start sample_comms 10000) s \<and> control_damaged s \<and> cycle_interval s = 60000"
  using double_free_reachable [of script_device_env _ 60 Some sample_comms 10000] ram_store_reliable sample_kv by auto

theorem deadlock_reachable_witness:
  "\<exists>s. system_runs script_device_env Some (system_start sample_comms 10000) s \<and> deadlocked s"
  using deadlock_reachable [of script_device_env Some sample_comms 10000] by blast

end
