(* ===== verification/Sensor_Base.thy ===== *)
theory Sensor_Base
  imports Prelude App_Convert
begin

text \<open>
  What the drivers under \<open>src/sensors-lib\<close> share: the I2C bus, the base class of \<open>sensor_type.cpp\<close>, and the
  words with a check byte that both Sensirion sensors send. A \<open>char\<close> of the buffers is unsigned on the target.
\<close>

unbundle bit_operations_syntax

section \<open>The bus\<close>

text \<open>
  A transfer gives 0 when the device acknowledges. A read places the bytes it got at the start of the buffer.
\<close>

record 'w i2c_env =
  i2c_write :: "byte \<Rightarrow> byte list \<Rightarrow> 'w \<Rightarrow> int \<times> 'w"
  i2c_read :: "byte \<Rightarrow> nat \<Rightarrow> 'w \<Rightarrow> int \<times> byte list \<times> 'w"

definition into_buffer :: "nat \<Rightarrow> byte list \<Rightarrow> byte list \<Rightarrow> byte list" where
  "into_buffer n bs buf = take n bs @ drop (length (take n bs)) buf"

definition high_byte :: "u16 \<Rightarrow> byte" where "high_byte w = ucast (drop_bit 8 w)"
definition low_byte :: "u16 \<Rightarrow> byte" where "low_byte w = ucast (w AND 255)"

definition word_of :: "byte \<Rightarrow> byte \<Rightarrow> u16" where
  "word_of h l = push_bit 8 (ucast h) OR ucast l"

definition long_of :: "u16 \<Rightarrow> u16 \<Rightarrow> u32" where
  "long_of m l = push_bit 16 (ucast m) OR ucast l"

section \<open>The base class\<close>

datatype SensorStatus = DISCONNECT | CONNECT | DATA_OK | DATA_CRC_ERR | DATA_NOT_RDY | DATA_OUT_OF_RANGE

text \<open>
  The value of a \<open>float\<close> by its bits (IEEE 754); infinities and NaNs have none. \<open>DoubleToChar\<close> converts the
  value to an \<open>int\<close>, which is only defined when it fits.
\<close>

definition float_value :: "u32 \<Rightarrow> rat option" where
  "float_value b =
     (let e = unat (drop_bit 23 b AND 0xFF); f = unat (b AND 0x7FFFFF); s = (if bit b 31 then - 1 else 1) in
      if e = 255 then None
      else if e = 0 then Some (s * of_nat f / 2 ^ 149)
      else if e < 150 then Some (s * of_nat (2 ^ 23 + f) / 2 ^ (150 - e))
      else Some (s * of_nat ((2 ^ 23 + f) * 2 ^ (e - 150))))"

definition ConvertDataToString :: "(rat \<Rightarrow> rat) \<Rightarrow> rat \<Rightarrow> string option" where
  "ConvertDataToString rnd v =
     (if truncate_rat v < int_min \<or> int_max < truncate_rat v then None else Some (DoubleToChar rnd v 2))"

definition ValidateData :: "rat \<Rightarrow> rat \<Rightarrow> rat \<Rightarrow> SensorStatus" where
  "ValidateData v data_min data_max = (if v > data_max \<or> v < data_min then DATA_OUT_OF_RANGE else DATA_OK)"

text \<open>A number that was read, with its text, and the message about one that is out of range.\<close>

definition float_text :: "(rat \<Rightarrow> rat) \<Rightarrow> u32 \<Rightarrow> (rat \<times> string) option" where
  "float_text rnd b = Option.bind (float_value b) (\<lambda>v. map_option (Pair v) (ConvertDataToString rnd v))"

definition oor_message :: "string \<Rightarrow> rat \<Rightarrow> rat \<Rightarrow> rat \<times> string \<Rightarrow> string list" where
  "oor_message name lo hi d = (if ValidateData (fst d) lo hi = DATA_OUT_OF_RANGE then [name @ snd d] else [])"

section \<open>Words with a check byte\<close>

text \<open>The loop of \<open>CalcCrc2b\<close> over the bits of one byte.\<close>

definition crc_step :: "byte \<Rightarrow> byte \<Rightarrow> byte" where
  "crc_step polynomial crc = (if crc AND 0x80 \<noteq> 0 then push_bit 1 crc XOR polynomial else push_bit 1 crc)"

definition crc_bits :: "byte \<Rightarrow> byte \<Rightarrow> byte" where
  "crc_bits polynomial crc = (crc_step polynomial ^^ 8) crc"

text \<open>
  The words that a measurement reads out of the buffer, each followed by its check byte: the word is stored, and
  the first wrong check ends the reading.
\<close>

fun read_words :: "(u16 \<Rightarrow> byte) \<Rightarrow> byte list \<Rightarrow> nat \<Rightarrow> nat \<Rightarrow> u16 list \<Rightarrow> bool \<times> u16 list" where
  "read_words crc buf k 0 ws = (True, ws)"
| "read_words crc buf k (Suc n) ws =
     (let stat = word_of (buf ! (3 * k)) (buf ! (3 * k + 1)); ws = ws[k := stat] in
      if crc stat \<noteq> buf ! (3 * k + 2) then (False, ws) else read_words crc buf (Suc k) n ws)"

text \<open>\<open>GetSerialNumber\<close>: \<open>i = 3 * t\<close> in its loop, which ends at a wrong check byte or an empty word.\<close>

fun serial_loop :: "(u16 \<Rightarrow> byte) \<Rightarrow> byte list \<Rightarrow> nat \<Rightarrow> nat \<Rightarrow> byte list \<Rightarrow> bool \<times> byte list" where
  "serial_loop crc buf t 0 sn = (True, sn)"
| "serial_loop crc buf t (Suc n) sn =
     (let stat = word_of (buf ! (3 * t)) (buf ! (3 * t + 1));
          sn = sn[2 * t := high_byte stat, 2 * t + 1 := low_byte stat]
      in if crc stat \<noteq> buf ! (3 * t + 2) then (False, sn)
         else if stat = 0 then (True, sn) else serial_loop crc buf (Suc t) n sn)"

section \<open>The check byte\<close>

lemma low_byte_mask: "low_byte w = ucast (w AND mask 8)"
  by (simp add: low_byte_def mask_eq_exp_minus_1)

lemma word_of_bytes [simp]: "word_of (high_byte w) (low_byte w) = w"
proof (rule bit_word_eqI)
  fix n
  assume "n < LENGTH(16)"
  then show "bit (word_of (high_byte w) (low_byte w)) n = bit w n"
    by (cases "n < 8") (auto simp: word_of_def high_byte_def low_byte_mask bit_simps)
qed

lemma bytes_word_of [simp]: "high_byte (word_of h l) = h" "low_byte (word_of h l) = l"
proof -
  show "high_byte (word_of h l) = h"
    by (rule bit_word_eqI) (auto simp: word_of_def high_byte_def bit_simps dest: bit_imp_le_length)
  show "low_byte (word_of h l) = l"
    by (rule bit_word_eqI) (auto simp: word_of_def low_byte_mask bit_simps)
qed

definition crc_back :: "byte \<Rightarrow> byte \<Rightarrow> byte" where
  "crc_back polynomial r = (if bit r 0 then drop_bit 1 (r XOR polynomial) OR 0x80 else drop_bit 1 r)"

lemma crc_step_back:
  assumes "bit polynomial 0"
  shows "crc_back polynomial (crc_step polynomial c) = c"
proof -
  have msb: "c AND 0x80 \<noteq> 0 \<longleftrightarrow> bit c 7"
    using and_exp_eq_0_iff_not_bit [of c 7] by simp
  have bits: "bit (2 * c) n \<longleftrightarrow> 0 < n \<and> n < 8 \<and> bit c (n - 1)" "bit (128 :: int) n \<longleftrightarrow> n = 7" for n
    using bit_exp_iff [where 'a = int, of 7 n] by (auto simp: bit_double_iff)
  show ?thesis
  proof (cases "bit c 7")
    case True
    then show ?thesis
      using assms
      by (intro bit_word_eqI) (auto simp: crc_back_def crc_step_def msb bit_simps bits mult.commute [of c 2])
  next
    case False
    then have "n < 7" if "n < 8" "bit c n" for n
      using that by (cases "n = 7") auto
    then show ?thesis
      using False by (intro bit_word_eqI) (auto simp: crc_back_def crc_step_def msb bit_simps bits mult.commute [of c 2] less_Suc_eq)
  qed
qed

lemma crc_bits_inject:
  assumes "bit polynomial 0"
  shows "crc_bits polynomial c = crc_bits polynomial d \<longleftrightarrow> c = d"
proof -
  have "inj (crc_step polynomial)"
    using crc_step_back [OF assms] by (rule inj_on_inverseI)
  then have "inj (crc_step polynomial ^^ 8)"
    by (rule inj_fn)
  then show ?thesis
    by (simp add: crc_bits_def inj_eq)
qed

section \<open>Frames of words\<close>

definition frame_of_word :: "(u16 \<Rightarrow> byte) \<Rightarrow> u16 \<Rightarrow> byte list" where
  "frame_of_word crc w = [high_byte w, low_byte w, crc w]"

definition sensor_frame :: "(u16 \<Rightarrow> byte) \<Rightarrow> u16 list \<Rightarrow> byte list" where
  "sensor_frame crc ws = concat (map (frame_of_word crc) ws)"

lemma sensor_frame_simps [simp]:
  "sensor_frame crc [] = []"
  "sensor_frame crc (w # ws) = high_byte w # low_byte w # crc w # sensor_frame crc ws"
  by (simp_all add: sensor_frame_def frame_of_word_def)

lemma length_sensor_frame [simp]: "length (sensor_frame crc ws) = 3 * length ws"
  by (induction ws) simp_all

lemma buffer_word:
  assumes "length p = 3 * k"
  shows "(p @ h # l # c # rest) ! (3 * k) = h" "(p @ h # l # c # rest) ! (3 * k + 1) = l" "(p @ h # l # c # rest) ! (3 * k + 2) = c"
  using assms by (simp_all add: nth_append)

text \<open>A frame as it was sent is read completely.\<close>

lemma read_words_frame:
  assumes "length p = 3 * k" "length acc = k" "length old = length ws"
  shows "read_words crc (p @ sensor_frame crc ws @ rest) k (length ws) (acc @ old) = (True, acc @ ws)"
  using assms
proof (induction ws arbitrary: p k acc old)
  case (Cons w ws)
  obtain v old' where old: "old = v # old'" "length old' = length ws"
    using Cons.prems(3) by (cases old) auto
  note word = buffer_word [OF Cons.prems(1), of "high_byte w" "low_byte w" "crc w" "sensor_frame crc ws @ rest"]
  have "read_words crc ((p @ [high_byte w, low_byte w, crc w]) @ sensor_frame crc ws @ rest) (Suc k) (length ws) ((acc @ [w]) @ old') =
      (True, (acc @ [w]) @ ws)"
    using Cons.prems old by (intro Cons.IH) simp_all
  then show ?case
    using Cons.prems old by (simp add: word word [simplified] Let_def list_update_append)
qed simp

locale crc_check =
  fixes crc :: "u16 \<Rightarrow> byte"
  assumes high_noticed: "h \<noteq> h' \<Longrightarrow> crc (word_of h l) \<noteq> crc (word_of h' l)"
    and low_noticed: "l \<noteq> l' \<Longrightarrow> crc (word_of h l) \<noteq> crc (word_of h l')"
begin

text \<open>One damaged byte anywhere in the frame ends the reading.\<close>

lemma damaged_frame:
  assumes "length p = 3 * k" "i < 3 * length ws" "b \<noteq> sensor_frame crc ws ! i"
  shows "\<not> fst (read_words crc (p @ (sensor_frame crc ws)[i := b] @ rest) k (length ws) acc)"
  using assms
proof (induction ws arbitrary: p k i acc)
  case (Cons w ws)
  consider "i = 0" | "i = 1" | "i = 2" | j where "i = j + 3"
    using le_Suc_ex [of 3 i] by (cases "i < 3") (auto simp: less_Suc_eq numeral_3_eq_3)
  then show ?case
  proof cases
    case 1
    note word = buffer_word [OF Cons.prems(1), of b "low_byte w" "crc w" "sensor_frame crc ws @ rest"]
    have "crc (word_of b (low_byte w)) \<noteq> crc w"
      using high_noticed [of b "high_byte w" "low_byte w"] Cons.prems(3) 1 by simp
    then show ?thesis
      using 1 by (simp add: word word [simplified] Let_def)
  next
    case 2
    note word = buffer_word [OF Cons.prems(1), of "high_byte w" b "crc w" "sensor_frame crc ws @ rest"]
    have "crc (word_of (high_byte w) b) \<noteq> crc w"
      using low_noticed [of b "low_byte w" "high_byte w"] Cons.prems(3) 2 by simp
    then show ?thesis
      using 2 by (simp add: word word [simplified] Let_def)
  next
    case 3
    note word = buffer_word [OF Cons.prems(1), of "high_byte w" "low_byte w" b "sensor_frame crc ws @ rest"]
    have "crc w \<noteq> b"
      using Cons.prems(3) 3 by simp
    then show ?thesis
      using 3 by (simp add: word word [simplified] Let_def numeral_2_eq_2)
  next
    case (4 j)
    note word = buffer_word [OF Cons.prems(1), of "high_byte w" "low_byte w" "crc w" "(sensor_frame crc ws)[j := b] @ rest"]
    have "\<not> fst (read_words crc ((p @ [high_byte w, low_byte w, crc w]) @ (sensor_frame crc ws)[j := b] @ rest) (Suc k) (length ws)
        (acc[k := w]))"
      using Cons.prems 4 by (intro Cons.IH) (simp_all add: eval_nat_numeral)
    moreover have "(sensor_frame crc (w # ws))[i := b] = high_byte w # low_byte w # crc w # (sensor_frame crc ws)[j := b]"
      using 4 by (simp add: eval_nat_numeral)
    ultimately show ?thesis
      by (simp add: word word [simplified] Let_def)
  qed
qed simp

end

declare read_words.simps [simp del]

text \<open>The check byte of both drivers, for any polynomial whose last bit is set.\<close>

lemma crc_check_words:
  assumes "bit polynomial 0"
  shows "crc_check (\<lambda>seed. crc_bits polynomial (crc_bits polynomial (init XOR high_byte seed) XOR low_byte seed))"
proof
  have "a XOR b = a XOR c \<longleftrightarrow> b = c" "b XOR a = c XOR a \<longleftrightarrow> b = c" for a b c :: byte
    by (metis xor.assoc xor.commute xor_self_eq xor.left_neutral)+
  note inject = crc_bits_inject [OF assms] this
  fix h h' l l' :: byte
  let ?crc = "\<lambda>seed. crc_bits polynomial (crc_bits polynomial (init XOR high_byte seed) XOR low_byte seed)"
  show "h \<noteq> h' \<Longrightarrow> ?crc (word_of h l) \<noteq> ?crc (word_of h' l)"
    "l \<noteq> l' \<Longrightarrow> ?crc (word_of h l) \<noteq> ?crc (word_of h l')"
    by (simp_all add: inject)
qed

end
