(* ===== verification/Sensor_Scd30.thy ===== *)
theory Sensor_Scd30
  imports Sensor_Base
begin

text \<open>\<open>src/sensors-lib/scd30\<close>: the driver of the SCD30, which measures carbon dioxide, temperature and humidity.\<close>

section \<open>The driver\<close>

datatype SCDError = SCDNOERROR | SCDISREADY | SCDNOACKERROR | SCDCRCERROR

text \<open>
  \<open>scd_words\<close> holds \<open>co2m\<close>, \<open>co2l\<close>, \<open>tempm\<close>, \<open>templ\<close>, \<open>humm\<close>, \<open>huml\<close>; the three \<open>float\<close>s are kept by their
  bits.
\<close>

record scd30 =
  scd_buf :: "byte list"
  scd_sn :: "byte list"
  scd_ready :: u16
  scd_interval :: u16
  scd_words :: "u16 list"
  co2f :: u32
  tempf :: u32
  humf :: u32
  scd_oor_list :: "string list"

definition SCD30_I2C_ADDR :: byte where "SCD30_I2C_ADDR = 0xc2"
definition SCD30_CMMD_STRT_CONT_MEAS :: u16 where "SCD30_CMMD_STRT_CONT_MEAS = 0x0010"
definition SCD30_CMMD_STOP_CONT_MEAS :: u16 where "SCD30_CMMD_STOP_CONT_MEAS = 0x0104"
definition SCD30_CMMD_SET_MEAS_INTVL :: u16 where "SCD30_CMMD_SET_MEAS_INTVL = 0x4600"
definition SCD30_CMMD_GET_READY_STAT :: u16 where "SCD30_CMMD_GET_READY_STAT = 0x0202"
definition SCD30_CMMD_READ_MEAS :: u16 where "SCD30_CMMD_READ_MEAS = 0x0300"
definition SCD30_CMMD_SET_TEMP_OFFS :: u16 where "SCD30_CMMD_SET_TEMP_OFFS = 0x5403"
definition SCD30_CMMD_SET_ALT_COMP :: u16 where "SCD30_CMMD_SET_ALT_COMP = 0x5102"
definition SCD30_CMMD_SOFT_RESET :: u16 where "SCD30_CMMD_SOFT_RESET = 0xd304"
definition SCD30_CMMD_ASC :: u16 where "SCD30_CMMD_ASC = 0x5306"
definition SCD30_CMMD_FRC :: u16 where "SCD30_CMMD_FRC = 0x5204"
definition SCD30_CMMD_READ_SERIALNBR :: u16 where "SCD30_CMMD_READ_SERIALNBR = 0xD033"
definition SCD30_POLYNOMIAL :: byte where "SCD30_POLYNOMIAL = 0x31"
definition SCD30_CRC_INIT :: byte where "SCD30_CRC_INIT = 0xff"
definition SCD30_SN_SIZE :: nat where "SCD30_SN_SIZE = 33"

lemmas scd30_constants =
  SCD30_I2C_ADDR_def SCD30_CMMD_STRT_CONT_MEAS_def SCD30_CMMD_STOP_CONT_MEAS_def SCD30_CMMD_SET_MEAS_INTVL_def
  SCD30_CMMD_GET_READY_STAT_def SCD30_CMMD_READ_MEAS_def SCD30_CMMD_SET_TEMP_OFFS_def SCD30_CMMD_SET_ALT_COMP_def
  SCD30_CMMD_SOFT_RESET_def SCD30_CMMD_ASC_def SCD30_CMMD_FRC_def SCD30_CMMD_READ_SERIALNBR_def SCD30_SN_SIZE_def

definition Scd30_CalcCrc2b :: "u16 \<Rightarrow> byte" where
  "Scd30_CalcCrc2b seed =
     crc_bits SCD30_POLYNOMIAL (crc_bits SCD30_POLYNOMIAL (SCD30_CRC_INIT XOR high_byte seed) XOR low_byte seed)"

definition Scd30_CheckCrc2b :: "u16 \<Rightarrow> byte \<Rightarrow> SCDError" where
  "Scd30_CheckCrc2b seed crcIn = (if Scd30_CalcCrc2b seed \<noteq> crcIn then SCDCRCERROR else SCDNOERROR)"

text \<open>Storing bytes from the start of the buffer, and writing its first \<open>n\<close> bytes.\<close>

definition scd_fill :: "byte list \<Rightarrow> scd30 \<Rightarrow> scd30" where
  "scd_fill bs s = s\<lparr>scd_buf := bs @ drop (length bs) (scd_buf s)\<rparr>"

definition scd_write :: "'w i2c_env \<Rightarrow> nat \<Rightarrow> scd30 \<Rightarrow> 'w \<Rightarrow> SCDError \<times> 'w" where
  "scd_write env n s w =
     (case i2c_write env SCD30_I2C_ADDR (take n (scd_buf s)) w of
        (res, w) \<Rightarrow> (if res \<noteq> 0 then SCDNOACKERROR else SCDNOERROR, w))"

definition scd_command :: "'w i2c_env \<Rightarrow> u16 \<Rightarrow> scd30 \<Rightarrow> 'w \<Rightarrow> SCDError \<times> scd30 \<times> 'w" where
  "scd_command env cmd s w =
     (let s = scd_fill [high_byte cmd, low_byte cmd] s in case scd_write env 2 s w of (e, w) \<Rightarrow> (e, s, w))"

definition scd_argument :: "'w i2c_env \<Rightarrow> u16 \<Rightarrow> u16 \<Rightarrow> nat \<Rightarrow> scd30 \<Rightarrow> 'w \<Rightarrow> SCDError \<times> scd30 \<times> 'w" where
  "scd_argument env cmd arg n s w =
     (let s = scd_fill [high_byte cmd, low_byte cmd, high_byte arg, low_byte arg, Scd30_CalcCrc2b arg] s
      in case scd_write env n s w of (e, w) \<Rightarrow> (e, s, w))"

definition scd_read :: "'w i2c_env \<Rightarrow> nat \<Rightarrow> scd30 \<Rightarrow> 'w \<Rightarrow> scd30 \<times> 'w" where
  "scd_read env n s w =
     (case i2c_read env (SCD30_I2C_ADDR OR 1) n w of (rc, bs, w) \<Rightarrow> (s\<lparr>scd_buf := into_buffer n bs (scd_buf s)\<rparr>, w))"

definition Scd30_StartMeasurement :: "'w i2c_env \<Rightarrow> u16 \<Rightarrow> scd30 \<Rightarrow> 'w \<Rightarrow> SCDError \<times> scd30 \<times> 'w" where
  "Scd30_StartMeasurement env baro = scd_argument env SCD30_CMMD_STRT_CONT_MEAS baro 5"

definition Scd30_StopMeasurement :: "'w i2c_env \<Rightarrow> scd30 \<Rightarrow> 'w \<Rightarrow> SCDError \<times> scd30 \<times> 'w" where
  "Scd30_StopMeasurement env = scd_command env SCD30_CMMD_STOP_CONT_MEAS"

definition Scd30_SetMeasInterval :: "'w i2c_env \<Rightarrow> u16 \<Rightarrow> scd30 \<Rightarrow> 'w \<Rightarrow> SCDError \<times> scd30 \<times> 'w" where
  "Scd30_SetMeasInterval env interval = scd_argument env SCD30_CMMD_SET_MEAS_INTVL interval 5"

definition Scd30_SetTemperatureOffs :: "'w i2c_env \<Rightarrow> u16 \<Rightarrow> scd30 \<Rightarrow> 'w \<Rightarrow> SCDError \<times> scd30 \<times> 'w" where
  "Scd30_SetTemperatureOffs env temp = scd_argument env SCD30_CMMD_SET_TEMP_OFFS temp 5"

definition Scd30_SetAltitudeComp :: "'w i2c_env \<Rightarrow> u16 \<Rightarrow> scd30 \<Rightarrow> 'w \<Rightarrow> SCDError \<times> scd30 \<times> 'w" where
  "Scd30_SetAltitudeComp env alt = scd_argument env SCD30_CMMD_SET_ALT_COMP alt 5"

text \<open>These two write two bytes of the five.\<close>

definition Scd30_ActivateASC :: "'w i2c_env \<Rightarrow> u16 \<Rightarrow> scd30 \<Rightarrow> 'w \<Rightarrow> SCDError \<times> scd30 \<times> 'w" where
  "Scd30_ActivateASC env activate = scd_argument env SCD30_CMMD_ASC activate 2"

definition Scd30_SetFRCvalue :: "'w i2c_env \<Rightarrow> u16 \<Rightarrow> scd30 \<Rightarrow> 'w \<Rightarrow> SCDError \<times> scd30 \<times> 'w" where
  "Scd30_SetFRCvalue env conc = scd_argument env SCD30_CMMD_FRC conc 2"

definition Scd30_SoftReset :: "'w i2c_env \<Rightarrow> scd30 \<Rightarrow> 'w \<Rightarrow> SCDError \<times> scd30 \<times> 'w" where
  "Scd30_SoftReset env = scd_command env SCD30_CMMD_SOFT_RESET"

definition Scd30_ReadMeasInterval :: "'w i2c_env \<Rightarrow> scd30 \<Rightarrow> 'w \<Rightarrow> SCDError \<times> scd30 \<times> 'w" where
  "Scd30_ReadMeasInterval env s w =
     (case scd_command env SCD30_CMMD_SET_MEAS_INTVL s w of (e, s, w) \<Rightarrow>
        if e \<noteq> SCDNOERROR then (SCDNOACKERROR, s, w)
        else case scd_read env 3 s w of (s, w) \<Rightarrow>
          let stat = word_of (scd_buf s ! 0) (scd_buf s ! 1) in
          (Scd30_CheckCrc2b stat (scd_buf s ! 2), s\<lparr>scd_interval := stat\<rparr>, w))"

definition Scd30_GetReadyStatus :: "'w i2c_env \<Rightarrow> scd30 \<Rightarrow> 'w \<Rightarrow> SCDError \<times> scd30 \<times> 'w" where
  "Scd30_GetReadyStatus env s w =
     (case scd_command env SCD30_CMMD_GET_READY_STAT s w of (e, s, w) \<Rightarrow>
        if e \<noteq> SCDNOERROR then (SCDNOACKERROR, s, w)
        else case scd_read env 3 s w of (s, w) \<Rightarrow>
          let stat = word_of (scd_buf s ! 0) (scd_buf s ! 1) in
          (Scd30_CheckCrc2b stat (scd_buf s ! 2), s\<lparr>scd_ready := stat\<rparr>, w))"

definition Scd30_GetSerialNumber :: "'w i2c_env \<Rightarrow> scd30 \<Rightarrow> 'w \<Rightarrow> SCDError \<times> scd30 \<times> 'w" where
  "Scd30_GetSerialNumber env s w =
     (case scd_command env SCD30_CMMD_READ_SERIALNBR s w of (e, s, w) \<Rightarrow>
        if e \<noteq> SCDNOERROR then (SCDNOACKERROR, s, w)
        else case scd_read env SCD30_SN_SIZE (s\<lparr>scd_sn := replicate 24 0, scd_buf := replicate 34 0\<rparr>) w of (s, w) \<Rightarrow>
          case serial_loop Scd30_CalcCrc2b (scd_buf s) 0 (SCD30_SN_SIZE div 3) (scd_sn s) of (ok, sn) \<Rightarrow>
            (if ok then SCDNOERROR else SCDCRCERROR, s\<lparr>scd_sn := sn\<rparr>, w))"

definition Scd30_ReadMeasurement :: "'w i2c_env \<Rightarrow> scd30 \<Rightarrow> 'w \<Rightarrow> SCDError \<times> scd30 \<times> 'w" where
  "Scd30_ReadMeasurement env s w =
     (case scd_command env SCD30_CMMD_READ_MEAS s w of (e, s, w) \<Rightarrow>
        if e \<noteq> SCDNOERROR then (SCDNOACKERROR, s, w)
        else case scd_read env 18 s w of (s, w) \<Rightarrow>
          case read_words Scd30_CalcCrc2b (scd_buf s) 0 6 (scd_words s) of (ok, ws) \<Rightarrow>
            let s = s\<lparr>scd_words := ws\<rparr> in
            if \<not> ok then (SCDCRCERROR, s, w)
            else (SCDNOERROR, s\<lparr>co2f := long_of (ws ! 0) (ws ! 1), tempf := long_of (ws ! 2) (ws ! 3),
              humf := long_of (ws ! 4) (ws ! 5)\<rparr>, w))"

definition Scd30_GetName :: string where "Scd30_GetName = ''scd30''"

text \<open>\<open>None\<close> when a value has no text.\<close>

definition Scd30_GetData ::
    "(rat \<Rightarrow> rat) \<Rightarrow> 'w i2c_env \<Rightarrow> (string \<times> string) list \<Rightarrow> scd30 \<Rightarrow> 'w \<Rightarrow>
     (SensorStatus \<times> (string \<times> string) list \<times> scd30 \<times> 'w) option" where
  "Scd30_GetData rnd env data_list s w =
     (case Scd30_GetReadyStatus env s w of (dat, s, w) \<Rightarrow>
        if dat = SCDNOACKERROR then Some (DISCONNECT, data_list, s, w)
        else if scd_ready s = 1 then
          (case Scd30_ReadMeasurement env s w of (crcc, s, w) \<Rightarrow>
             if crcc = SCDNOERROR then
               Option.bind (float_text rnd (co2f s)) (\<lambda>co2.
               Option.bind (float_text rnd (tempf s)) (\<lambda>temp.
               Option.bind (float_text rnd (humf s)) (\<lambda>hum.
                 Some (DATA_OK, data_list @ [(''co2'', snd co2), (''temperature'', snd temp), (''humidity'', snd hum)],
                   s\<lparr>scd_oor_list := oor_message ''_co2_out_of_range_'' 0 10000 co2 @
                     oor_message ''_temperature_out_of_range_'' (- 40) 70 temp @
                     oor_message ''_humidity_out_of_range_'' 0 100 hum\<rparr>, w))))
             else if crcc = SCDNOACKERROR then Some (DISCONNECT, data_list, s, w)
             else Some (DATA_CRC_ERR, data_list, s, w))
        else Some (DATA_NOT_RDY, data_list, s, w))"

definition Scd30_Enable :: "'w i2c_env \<Rightarrow> scd30 \<Rightarrow> 'w \<Rightarrow> scd30 \<times> 'w" where
  "Scd30_Enable env s w = snd (Scd30_StartMeasurement env 0 s w)"

definition Scd30_Disable :: "'w i2c_env \<Rightarrow> scd30 \<Rightarrow> 'w \<Rightarrow> scd30 \<times> 'w" where
  "Scd30_Disable env s w = snd (Scd30_StopMeasurement env s w)"

definition Scd30_Reset :: "'w i2c_env \<Rightarrow> scd30 \<Rightarrow> 'w \<Rightarrow> scd30 \<times> 'w" where
  "Scd30_Reset env s w = snd (Scd30_SoftReset env s w)"

section \<open>What the check byte notices\<close>

interpretation scd: crc_check Scd30_CalcCrc2b
  unfolding Scd30_CalcCrc2b_def by (rule crc_check_words) (simp add: SCD30_POLYNOMIAL_def)

section \<open>Exchanges\<close>

text \<open>The device acknowledges a command of two bytes and answers the read that follows with \<open>bs\<close>.\<close>

definition answers :: "'w i2c_env \<Rightarrow> u16 \<Rightarrow> nat \<Rightarrow> byte list \<Rightarrow> 'w \<Rightarrow> 'w \<Rightarrow> bool" where
  "answers env cmd n bs w w' \<longleftrightarrow>
     (\<exists>w1 rc. i2c_write env SCD30_I2C_ADDR [high_byte cmd, low_byte cmd] w = (0, w1) \<and>
       i2c_read env (SCD30_I2C_ADDR OR 1) n w1 = (rc, bs, w'))"

definition scd_ok :: "scd30 \<Rightarrow> bool" where
  "scd_ok s \<longleftrightarrow> length (scd_buf s) = 34 \<and> length (scd_words s) = 6"

lemma command_answered:
  assumes "answers env cmd n bs w w'" "length bs = n" "scd_ok s" "n \<le> 34"
  shows "\<exists>w1 s1 buf. scd_command env cmd s w = (SCDNOERROR, s1, w1) \<and>
    scd_read env n s1 w1 = (s\<lparr>scd_buf := bs @ buf\<rparr>, w') \<and> length buf = 34 - n"
proof -
  have "take 2 ([high_byte cmd, low_byte cmd] @ drop 2 (scd_buf s)) = [high_byte cmd, low_byte cmd]"
    by simp
  then show ?thesis
    using assms by (fastforce simp: answers_def scd_command_def scd_write_def scd_fill_def scd_read_def into_buffer_def Let_def scd_ok_def)
qed

lemma ready_answered:
  assumes "answers env SCD30_CMMD_GET_READY_STAT 3 [high_byte r, low_byte r, c] w w'" "scd_ok s"
  shows "\<exists>s'. Scd30_GetReadyStatus env s w = (Scd30_CheckCrc2b r c, s', w') \<and> scd_ok s' \<and> scd_ready s' = r"
proof -
  obtain w1 s1 buf where "scd_command env SCD30_CMMD_GET_READY_STAT s w = (SCDNOERROR, s1, w1)"
      "scd_read env 3 s1 w1 = (s\<lparr>scd_buf := [high_byte r, low_byte r, c] @ buf\<rparr>, w')" "length buf = 34 - 3"
    using command_answered [OF assms(1) _ assms(2)] by auto
  then show ?thesis
    using assms(2) by (simp add: Scd30_GetReadyStatus_def Let_def scd_ok_def)
qed

lemma measurement_answered:
  assumes "answers env SCD30_CMMD_READ_MEAS 18 bs w w'" "length bs = 18" "scd_ok s"
  obtains buf where "\<And>ok ws. read_words Scd30_CalcCrc2b (bs @ buf) 0 6 (scd_words s) = (ok, ws) \<Longrightarrow>
    Scd30_ReadMeasurement env s w =
      (if \<not> ok then (SCDCRCERROR, s\<lparr>scd_buf := bs @ buf, scd_words := ws\<rparr>, w')
       else (SCDNOERROR, s\<lparr>scd_buf := bs @ buf, scd_words := ws, co2f := long_of (ws ! 0) (ws ! 1),
         tempf := long_of (ws ! 2) (ws ! 3), humf := long_of (ws ! 4) (ws ! 5)\<rparr>, w'))"
proof -
  obtain w1 s1 buf where "scd_command env SCD30_CMMD_READ_MEAS s w = (SCDNOERROR, s1, w1)"
      "scd_read env 18 s1 w1 = (s\<lparr>scd_buf := bs @ buf\<rparr>, w')"
    using command_answered [OF assms] by auto
  then show thesis
    by (intro that [of buf]) (simp add: Scd30_ReadMeasurement_def Let_def)
qed

text \<open>
  A sensor that is ready and answers with the words of three numbers and their check bytes is read without
  loss: the data are the texts of these numbers, whatever was in the buffers before.
\<close>

theorem scd30_reads_measurement:
  assumes "answers env SCD30_CMMD_GET_READY_STAT 3 (sensor_frame Scd30_CalcCrc2b [1]) w w1"
    and "answers env SCD30_CMMD_READ_MEAS 18 (sensor_frame Scd30_CalcCrc2b [c1, c0, t1, t0, h1, h0]) w1 w2"
    and "scd_ok s" "float_text rnd (long_of c1 c0) = Some co2" "float_text rnd (long_of t1 t0) = Some temp"
      "float_text rnd (long_of h1 h0) = Some hum"
  shows "\<exists>s'. Scd30_GetData rnd env data_list s w =
    Some (DATA_OK, data_list @ [(''co2'', snd co2), (''temperature'', snd temp), (''humidity'', snd hum)], s', w2)"
proof -
  obtain s1 where r: "Scd30_GetReadyStatus env s w = (SCDNOERROR, s1, w1)" "scd_ok s1" "scd_ready s1 = 1"
    using ready_answered [of env 1 "Scd30_CalcCrc2b 1" w w1 s] assms(1,3) by (auto simp: Scd30_CheckCrc2b_def)
  let ?ws = "[c1, c0, t1, t0, h1, h0]"
  have len: "length ?ws = 6" "length (sensor_frame Scd30_CalcCrc2b ?ws) = 18"
    by simp_all
  obtain s2 where "Scd30_ReadMeasurement env s1 w1 = (SCDNOERROR, s2, w2)" "co2f s2 = long_of c1 c0"
    "tempf s2 = long_of t1 t0" "humf s2 = long_of h1 h0"
  proof (rule measurement_answered [OF assms(2) len(2) r(2)])
    fix buf
    assume m: "\<And>ok ws. read_words Scd30_CalcCrc2b (sensor_frame Scd30_CalcCrc2b ?ws @ buf) 0 6 (scd_words s1) = (ok, ws) \<Longrightarrow>
      Scd30_ReadMeasurement env s1 w1 =
        (if \<not> ok then (SCDCRCERROR, s1\<lparr>scd_buf := sensor_frame Scd30_CalcCrc2b ?ws @ buf, scd_words := ws\<rparr>, w2)
         else (SCDNOERROR, s1\<lparr>scd_buf := sensor_frame Scd30_CalcCrc2b ?ws @ buf, scd_words := ws, co2f := long_of (ws ! 0) (ws ! 1),
           tempf := long_of (ws ! 2) (ws ! 3), humf := long_of (ws ! 4) (ws ! 5)\<rparr>, w2))"
    have "read_words Scd30_CalcCrc2b (sensor_frame Scd30_CalcCrc2b ?ws @ buf) 0 6 (scd_words s1) = (True, ?ws)"
      using read_words_frame [of "[]" 0 "[]" "scd_words s1" ?ws Scd30_CalcCrc2b buf] r(2)
      unfolding len by (simp add: scd_ok_def del: sensor_frame_simps)
    note m = m [OF this]
    have "?ws ! 0 = c1" "?ws ! 1 = c0" "?ws ! 2 = t1" "?ws ! 3 = t0" "?ws ! 4 = h1" "?ws ! 5 = h0"
      by simp_all
    note m = m [unfolded this not_True_eq_False if_False]
    show thesis
      by (rule that [OF m]) simp_all
  qed
  then show ?thesis
    using r assms(4-6) by (auto simp: Scd30_GetData_def)
qed

text \<open>
  C19: one damaged byte anywhere in the measurement, be it a data or a check byte, is noticed: nothing is reported.
\<close>

theorem scd30_damage_noticed:
  assumes "answers env SCD30_CMMD_GET_READY_STAT 3 (sensor_frame Scd30_CalcCrc2b [1]) w w1" "length ws = 6" "i < 18"
    and "answers env SCD30_CMMD_READ_MEAS 18 ((sensor_frame Scd30_CalcCrc2b ws)[i := b]) w1 w2"
    and "b \<noteq> sensor_frame Scd30_CalcCrc2b ws ! i" "scd_ok s"
  shows "\<exists>s'. Scd30_GetData rnd env data_list s w = Some (DATA_CRC_ERR, data_list, s', w2)"
proof -
  obtain s1 where r: "Scd30_GetReadyStatus env s w = (SCDNOERROR, s1, w1)" "scd_ok s1" "scd_ready s1 = 1"
    using ready_answered [of env 1 "Scd30_CalcCrc2b 1" w w1 s] assms(1,6) by (auto simp: Scd30_CheckCrc2b_def)
  have "length ((sensor_frame Scd30_CalcCrc2b ws)[i := b]) = 18"
    using assms(2) by simp
  from assms(4) this r(2) obtain s2 where "Scd30_ReadMeasurement env s1 w1 = (SCDCRCERROR, s2, w2)"
  proof (rule measurement_answered, goal_cases)
    case prems: (1 buf)
    have "\<not> fst (read_words Scd30_CalcCrc2b ((sensor_frame Scd30_CalcCrc2b ws)[i := b] @ buf) 0 6 (scd_words s1))"
      using scd.damaged_frame [of "[]" 0 i ws b buf "scd_words s1"] assms(2,3,5) by simp
    then obtain acc where "read_words Scd30_CalcCrc2b ((sensor_frame Scd30_CalcCrc2b ws)[i := b] @ buf) 0 6 (scd_words s1) = (False, acc)"
      by (metis prod.collapse)
    from prems(2) [OF this] show ?thesis
      by (intro prems(1)) simp
  qed
  then show ?thesis
    using r by (auto simp: Scd30_GetData_def)
qed

text \<open>The check of the ready flag is not looked at: a flag that arrives damaged still starts a measurement.\<close>

lemma scd30_ready_unchecked:
  assumes "answers env SCD30_CMMD_GET_READY_STAT 3 [0, 1, c] w w1" "c \<noteq> Scd30_CalcCrc2b 1" "scd_ok s"
  shows "\<exists>s1. Scd30_GetReadyStatus env s w = (SCDCRCERROR, s1, w1) \<and> scd_ready s1 = 1 \<and>
    Scd30_GetData rnd env data_list s w \<noteq> Some (DATA_NOT_RDY, rest)"
proof -
  have one: "high_byte 1 = 0" "low_byte 1 = 1"
    by (simp_all add: high_byte_def low_byte_def)
  obtain s1 where r: "Scd30_GetReadyStatus env s w = (SCDCRCERROR, s1, w1)" "scd_ready s1 = 1"
    using ready_answered [of env 1 c w w1 s] assms by (auto simp: Scd30_CheckCrc2b_def one)
  then show ?thesis
    by (auto simp: Scd30_GetData_def split: prod.splits Option.bind_split)
qed

text \<open>Two of the commands that carry an argument put none of it on the bus.\<close>

lemma scd30_calibration_ignored:
  assumes "length (scd_buf s) = 34"
  shows "fst (Scd30_ActivateASC env a s w) = fst (Scd30_ActivateASC env b s w) \<and>
    snd (snd (Scd30_ActivateASC env a s w)) = snd (snd (Scd30_ActivateASC env b s w)) \<and>
    fst (Scd30_SetFRCvalue env a s w) = fst (Scd30_SetFRCvalue env b s w) \<and>
    snd (snd (Scd30_SetFRCvalue env a s w)) = snd (snd (Scd30_SetFRCvalue env b s w))"
  by (simp add: Scd30_ActivateASC_def Scd30_SetFRCvalue_def scd_argument_def scd_write_def scd_fill_def Let_def split: prod.splits)

section \<open>Examples\<close>

text \<open>A device that says it is ready and then sends 400 ppm, 25 degrees and 50 percent, with one byte changed or not.\<close>

definition sample_words :: "u16 list" where "sample_words = [0x43C8, 0, 0x41C8, 0, 0x4248, 0]"

definition sample_device :: "(byte list \<Rightarrow> byte list) \<Rightarrow> nat i2c_env" where
  "sample_device damage =
     \<lparr>i2c_write = \<lambda>address bs w. (0, w),
      i2c_read = \<lambda>address n w. (0, if n = 3 then sensor_frame Scd30_CalcCrc2b [1] else damage (sensor_frame Scd30_CalcCrc2b sample_words), Suc w)\<rparr>"

definition sample_scd30 :: scd30 where
  "sample_scd30 = \<lparr>scd_buf = replicate 34 0, scd_sn = replicate 24 0, scd_ready = 0, scd_interval = 0, scd_words = replicate 6 0,
     co2f = 0, tempf = 0, humf = 0, scd_oor_list = []\<rparr>"

lemma sample_device_answers:
  "answers (sample_device damage) SCD30_CMMD_GET_READY_STAT 3 (sensor_frame Scd30_CalcCrc2b [1]) 0 1"
  "answers (sample_device damage) SCD30_CMMD_READ_MEAS 18 (damage (sensor_frame Scd30_CalcCrc2b sample_words)) 1 2"
  "scd_ok sample_scd30"
  by (simp_all add: answers_def sample_device_def scd_ok_def sample_scd30_def)

theorem scd30_reads_measurement_witness:
  "\<exists>s'. Scd30_GetData (\<lambda>v. v) (sample_device (\<lambda>bs. bs)) [] sample_scd30 0 =
    Some (DATA_OK, [(''co2'', ''400.00''), (''temperature'', ''25.00''), (''humidity'', ''50.00'')], s', 2)"
proof -
  have "float_value (long_of 0x43C8 0) = Some 400" "float_value (long_of 0x41C8 0) = Some 25"
      "float_value (long_of 0x4248 0) = Some 50"
    by (simp_all add: float_value_def long_of_def Let_def)
  moreover have "ConvertDataToString (\<lambda>v. v) 400 = Some ''400.00''" "ConvertDataToString (\<lambda>v. v) 25 = Some ''25.00''"
      "ConvertDataToString (\<lambda>v. v) 50 = Some ''50.00''"
    by code_simp+
  ultimately have "float_text (\<lambda>v. v) (long_of 0x43C8 0) = Some (400, ''400.00'')"
      "float_text (\<lambda>v. v) (long_of 0x41C8 0) = Some (25, ''25.00'')" "float_text (\<lambda>v. v) (long_of 0x4248 0) = Some (50, ''50.00'')"
    by (simp_all add: float_text_def)
  then show ?thesis
    using scd30_reads_measurement [where env = "sample_device (\<lambda>bs. bs)" and w = 0 and ?w1.0 = 1 and ?c1.0 = "0x43C8" and ?c0.0 = 0 and
        ?t1.0 = "0x41C8" and ?t0.0 = 0 and ?h1.0 = "0x4248" and ?h0.0 = 0 and ?w2.0 = 2 and s = sample_scd30 and rnd = "\<lambda>v. v" and data_list = "[]" and
        ?co2.0 = "(400, ''400.00'')" and temp = "(25, ''25.00'')" and hum = "(50, ''50.00'')"]
      sample_device_answers(1,2) [of "\<lambda>bs. bs"] sample_device_answers(3) by (simp add: sample_words_def del: sensor_frame_simps)
qed

theorem scd30_damage_noticed_witness:
  "\<exists>s'. Scd30_GetData (\<lambda>v. v) (sample_device (\<lambda>bs. bs[4 := 7])) [] sample_scd30 0 = Some (DATA_CRC_ERR, [], s', 2)"
  using scd30_damage_noticed [where env = "sample_device (\<lambda>bs. bs[4 := 7])" and w = 0 and ?w1.0 = 1 and ws = sample_words and
      i = 4 and b = 7 and ?w2.0 = 2 and s = sample_scd30]
    sample_device_answers(1,2) [of "\<lambda>bs. bs[4 := 7]"] sample_device_answers(3) by (simp add: sample_words_def low_byte_def)

end
