(* ===== verification/Sensor_Sps30.thy ===== *)
theory Sensor_Sps30
  imports Sensor_Base
begin

text \<open>\<open>src/sensors-lib/sps30\<close>: the driver of the SPS30, which measures particulate matter.\<close>

section \<open>The driver\<close>

datatype SPSError = SPSNOERROR | SPSISREADY | SPSNOACKERROR | SPSCRCERROR

text \<open>
  \<open>sps_words\<close> holds the twenty words of a measurement in the order of the reading, \<open>sps_values\<close> the bits of the
  ten numbers: four masses, five counts and the typical size. \<open>clean_words\<close> holds \<open>clean_interval_m\<close> and
  \<open>clean_interval_l\<close>.
\<close>

record sps30 =
  sps_buf :: "byte list"
  sps_sn :: "byte list"
  sps_ready :: u16
  clean_words :: "u16 list"
  clean_interval :: u32
  sps_words :: "u16 list"
  sps_values :: "u32 list"
  sps_oor_list :: "string list"

definition SPS30_I2C_ADDR :: byte where "SPS30_I2C_ADDR = 0xd2"
definition SPS30_CMMD_STRT_MEAS :: u16 where "SPS30_CMMD_STRT_MEAS = 0x0010"
definition SPS30_CMMD_STOP_MEAS :: u16 where "SPS30_CMMD_STOP_MEAS = 0x0104"
definition SPS30_CMMD_GET_READY_STAT :: u16 where "SPS30_CMMD_GET_READY_STAT = 0x0202"
definition SPS30_CMMD_READ_MEAS :: u16 where "SPS30_CMMD_READ_MEAS = 0x0300"
definition SPS30_CMMD_AUTO_CLEAN_INTV :: u16 where "SPS30_CMMD_AUTO_CLEAN_INTV = 0x8004"
definition SPS30_CMMD_START_FAN_CLEAN :: u16 where "SPS30_CMMD_START_FAN_CLEAN = 0x5607"
definition SPS30_CMMD_SOFT_RESET :: u16 where "SPS30_CMMD_SOFT_RESET = 0xD304"
definition SPS30_CMMD_READ_SERIALNBR :: u16 where "SPS30_CMMD_READ_SERIALNBR = 0xD033"
definition SPS30_STRT_MEAS_WRITE_DATA :: u16 where "SPS30_STRT_MEAS_WRITE_DATA = 0x0300"
definition SPS30_POLYNOMIAL :: byte where "SPS30_POLYNOMIAL = 0x31"
definition SPS30_CRC_INIT :: byte where "SPS30_CRC_INIT = 0xff"
definition SPS30_SN_SIZE :: nat where "SPS30_SN_SIZE = 33"

definition Sps30_CalcCrc2b :: "u16 \<Rightarrow> byte" where
  "Sps30_CalcCrc2b seed =
     crc_bits SPS30_POLYNOMIAL (crc_bits SPS30_POLYNOMIAL (SPS30_CRC_INIT XOR high_byte seed) XOR low_byte seed)"

definition Sps30_CheckCrc2b :: "u16 \<Rightarrow> byte \<Rightarrow> SPSError" where
  "Sps30_CheckCrc2b seed crc_in = (if Sps30_CalcCrc2b seed \<noteq> crc_in then SPSCRCERROR else SPSNOERROR)"

text \<open>Storing the bytes of a message at the start of the buffer and writing them.\<close>

definition sps_write :: "'w i2c_env \<Rightarrow> byte list \<Rightarrow> sps30 \<Rightarrow> 'w \<Rightarrow> SPSError \<times> sps30 \<times> 'w" where
  "sps_write env bs s w =
     (let s = s\<lparr>sps_buf := bs @ drop (length bs) (sps_buf s)\<rparr> in
      case i2c_write env SPS30_I2C_ADDR (take (length bs) (sps_buf s)) w of
        (res, w) \<Rightarrow> (if res \<noteq> 0 then SPSNOACKERROR else SPSNOERROR, s, w))"

definition sps_command :: "'w i2c_env \<Rightarrow> u16 \<Rightarrow> sps30 \<Rightarrow> 'w \<Rightarrow> SPSError \<times> sps30 \<times> 'w" where
  "sps_command env cmd = sps_write env [high_byte cmd, low_byte cmd]"

definition sps_read :: "'w i2c_env \<Rightarrow> nat \<Rightarrow> sps30 \<Rightarrow> 'w \<Rightarrow> sps30 \<times> 'w" where
  "sps_read env n s w =
     (case i2c_read env (SPS30_I2C_ADDR OR 1) n w of (rc, bs, w) \<Rightarrow> (s\<lparr>sps_buf := into_buffer n bs (sps_buf s)\<rparr>, w))"

definition Sps30_StartMeasurement :: "'w i2c_env \<Rightarrow> sps30 \<Rightarrow> 'w \<Rightarrow> SPSError \<times> sps30 \<times> 'w" where
  "Sps30_StartMeasurement env =
     sps_write env [high_byte SPS30_CMMD_STRT_MEAS, low_byte SPS30_CMMD_STRT_MEAS, high_byte SPS30_STRT_MEAS_WRITE_DATA,
       low_byte SPS30_STRT_MEAS_WRITE_DATA, Sps30_CalcCrc2b SPS30_STRT_MEAS_WRITE_DATA]"

definition Sps30_StopMeasurement :: "'w i2c_env \<Rightarrow> sps30 \<Rightarrow> 'w \<Rightarrow> SPSError \<times> sps30 \<times> 'w" where
  "Sps30_StopMeasurement env = sps_command env SPS30_CMMD_STOP_MEAS"

definition Sps30_StartFanClean :: "'w i2c_env \<Rightarrow> sps30 \<Rightarrow> 'w \<Rightarrow> SPSError \<times> sps30 \<times> 'w" where
  "Sps30_StartFanClean env = sps_command env SPS30_CMMD_START_FAN_CLEAN"

definition Sps30_SoftReset :: "'w i2c_env \<Rightarrow> sps30 \<Rightarrow> 'w \<Rightarrow> SPSError \<times> sps30 \<times> 'w" where
  "Sps30_SoftReset env = sps_command env SPS30_CMMD_SOFT_RESET"

definition Sps30_GetSerialNumber :: "'w i2c_env \<Rightarrow> sps30 \<Rightarrow> 'w \<Rightarrow> SPSError \<times> sps30 \<times> 'w" where
  "Sps30_GetSerialNumber env s w =
     (case sps_command env SPS30_CMMD_READ_SERIALNBR s w of (e, s, w) \<Rightarrow>
        if e \<noteq> SPSNOERROR then (SPSNOACKERROR, s, w)
        else case sps_read env SPS30_SN_SIZE (s\<lparr>sps_sn := replicate 33 0, sps_buf := replicate 60 0\<rparr>) w of (s, w) \<Rightarrow>
          case serial_loop Sps30_CalcCrc2b (sps_buf s) 0 (SPS30_SN_SIZE div 3) (sps_sn s) of (ok, sn) \<Rightarrow>
            (if ok then SPSNOERROR else SPSCRCERROR, s\<lparr>sps_sn := sn\<rparr>, w))"

definition Sps30_GetReadyStatus :: "'w i2c_env \<Rightarrow> sps30 \<Rightarrow> 'w \<Rightarrow> SPSError \<times> sps30 \<times> 'w" where
  "Sps30_GetReadyStatus env s w =
     (case sps_command env SPS30_CMMD_GET_READY_STAT s w of (e, s, w) \<Rightarrow>
        if e \<noteq> SPSNOERROR then (SPSNOACKERROR, s, w)
        else case sps_read env 3 s w of (s, w) \<Rightarrow>
          let stat = word_of (sps_buf s ! 0) (sps_buf s ! 1) in
          (Sps30_CheckCrc2b stat (sps_buf s ! 2), s\<lparr>sps_ready := stat\<rparr>, w))"

text \<open>The numbers made of the words, the high word of each first.\<close>

definition values_of_words :: "nat \<Rightarrow> u16 list \<Rightarrow> u32 list" where
  "values_of_words n ws = map (\<lambda>i. long_of (ws ! (2 * i)) (ws ! (2 * i + 1))) [0..<n]"

definition Sps30_ReadMeasurement :: "'w i2c_env \<Rightarrow> sps30 \<Rightarrow> 'w \<Rightarrow> SPSError \<times> sps30 \<times> 'w" where
  "Sps30_ReadMeasurement env s w =
     (case sps_command env SPS30_CMMD_READ_MEAS s w of (e, s, w) \<Rightarrow>
        if e \<noteq> SPSNOERROR then (SPSNOACKERROR, s, w)
        else case sps_read env 60 s w of (s, w) \<Rightarrow>
          case read_words Sps30_CalcCrc2b (sps_buf s) 0 20 (sps_words s) of (ok, ws) \<Rightarrow>
            if \<not> ok then (SPSCRCERROR, s\<lparr>sps_words := ws\<rparr>, w)
            else (SPSNOERROR, s\<lparr>sps_words := ws, sps_values := values_of_words 10 ws\<rparr>, w))"

text \<open>The six bytes that both interval operations read back.\<close>

definition read_clean_interval :: "'w i2c_env \<Rightarrow> sps30 \<Rightarrow> 'w \<Rightarrow> SPSError \<times> sps30 \<times> 'w" where
  "read_clean_interval env s w =
     (case sps_read env 6 s w of (s, w) \<Rightarrow>
        case read_words Sps30_CalcCrc2b (sps_buf s) 0 2 (clean_words s) of (ok, ws) \<Rightarrow>
          if \<not> ok then (SPSCRCERROR, s\<lparr>clean_words := ws\<rparr>, w)
          else (SPSNOERROR, s\<lparr>clean_words := ws, clean_interval := long_of (ws ! 0) (ws ! 1)\<rparr>, w))"

definition Sps30_ReadAutoCleanInterval :: "'w i2c_env \<Rightarrow> sps30 \<Rightarrow> 'w \<Rightarrow> SPSError \<times> sps30 \<times> 'w" where
  "Sps30_ReadAutoCleanInterval env s w =
     (case sps_command env SPS30_CMMD_AUTO_CLEAN_INTV s w of (e, s, w) \<Rightarrow>
        if e \<noteq> SPSNOERROR then (SPSNOACKERROR, s, w) else read_clean_interval env s w)"

definition Sps30_SetAutoCleanInterval :: "'w i2c_env \<Rightarrow> u32 \<Rightarrow> sps30 \<Rightarrow> 'w \<Rightarrow> SPSError \<times> sps30 \<times> 'w" where
  "Sps30_SetAutoCleanInterval env set_interval s w =
     (let m = ucast (drop_bit 16 set_interval) :: u16; l = ucast (set_interval AND 65535) :: u16 in
      case sps_write env [high_byte SPS30_CMMD_AUTO_CLEAN_INTV, low_byte SPS30_CMMD_AUTO_CLEAN_INTV,
          high_byte m, low_byte m, Sps30_CalcCrc2b m, high_byte l, low_byte l, Sps30_CalcCrc2b l] s w of (e, s, w) \<Rightarrow>
        if e \<noteq> SPSNOERROR then (SPSNOACKERROR, s, w) else read_clean_interval env s w)"

definition Sps30_GetName :: string where "Sps30_GetName = ''sps30''"

text \<open>\<open>None\<close> when a value has no text. The masses are the second and the fourth number of the reading.\<close>

definition Sps30_GetData ::
    "(rat \<Rightarrow> rat) \<Rightarrow> 'w i2c_env \<Rightarrow> (string \<times> string) list \<Rightarrow> sps30 \<Rightarrow> 'w \<Rightarrow>
     (SensorStatus \<times> (string \<times> string) list \<times> sps30 \<times> 'w) option" where
  "Sps30_GetData rnd env data_list s w =
     (case Sps30_GetReadyStatus env s w of (dat, s, w) \<Rightarrow>
        if dat = SPSNOACKERROR then Some (DISCONNECT, data_list, s, w)
        else if sps_ready s = 1 then
          (case Sps30_ReadMeasurement env s w of (crcc, s, w) \<Rightarrow>
             if crcc = SPSNOERROR then
               Option.bind (float_text rnd (sps_values s ! 1)) (\<lambda>mass_2p5.
               Option.bind (float_text rnd (sps_values s ! 3)) (\<lambda>mass_10p0.
                 Some (DATA_OK, data_list @ [(''PM2.5_mass'', snd mass_2p5), (''PM10_mass'', snd mass_10p0)],
                   s\<lparr>sps_oor_list := oor_message ''_PM2.5_mass_out_of_range_'' 0 1000 mass_2p5 @
                     oor_message ''_PM10_mass_out_of_range_'' 0 1000 mass_10p0\<rparr>, w)))
             else if crcc = SPSNOACKERROR then Some (DISCONNECT, data_list, s, w)
             else Some (DATA_CRC_ERR, data_list, s, w))
        else Some (DATA_NOT_RDY, data_list, s, w))"

definition Sps30_Enable :: "'w i2c_env \<Rightarrow> sps30 \<Rightarrow> 'w \<Rightarrow> sps30 \<times> 'w" where
  "Sps30_Enable env s w = snd (Sps30_StartMeasurement env s w)"

definition Sps30_Disable :: "'w i2c_env \<Rightarrow> sps30 \<Rightarrow> 'w \<Rightarrow> sps30 \<times> 'w" where
  "Sps30_Disable env s w = snd (Sps30_StopMeasurement env s w)"

definition Sps30_Reset :: "'w i2c_env \<Rightarrow> sps30 \<Rightarrow> 'w \<Rightarrow> sps30 \<times> 'w" where
  "Sps30_Reset env s w = snd (Sps30_SoftReset env s w)"

section \<open>What the check byte notices\<close>

interpretation sps: crc_check Sps30_CalcCrc2b
  unfolding Sps30_CalcCrc2b_def by (rule crc_check_words) (simp add: SPS30_POLYNOMIAL_def)

section \<open>Exchanges\<close>

text \<open>The device acknowledges a message and answers the read that follows with \<open>bs\<close>.\<close>

definition sps_answers :: "'w i2c_env \<Rightarrow> byte list \<Rightarrow> nat \<Rightarrow> byte list \<Rightarrow> 'w \<Rightarrow> 'w \<Rightarrow> bool" where
  "sps_answers env msg n bs w w' \<longleftrightarrow>
     (\<exists>w1 rc. i2c_write env SPS30_I2C_ADDR msg w = (0, w1) \<and> i2c_read env (SPS30_I2C_ADDR OR 1) n w1 = (rc, bs, w'))"

lemma sps_message_answered:
  assumes "sps_answers env msg n bs w w'" "length bs = n"
  obtains w1 s1 buf where "sps_write env msg s w = (SPSNOERROR, s1, w1)" "sps_read env n s1 w1 = (s\<lparr>sps_buf := bs @ buf\<rparr>, w')"
  using assms by (fastforce simp: sps_answers_def sps_write_def sps_read_def into_buffer_def Let_def)

lemma sps_interval_answered:
  assumes "sps_read env 6 s1 w1 = (s\<lparr>sps_buf := sensor_frame Sps30_CalcCrc2b [m, l] @ buf\<rparr>, w')" "length (clean_words s) = 2"
  shows "\<exists>s'. read_clean_interval env s1 w1 = (SPSNOERROR, s', w') \<and> clean_interval s' = long_of m l"
proof -
  have two: "length [m, l] = 2"
    by simp
  have "read_words Sps30_CalcCrc2b (sensor_frame Sps30_CalcCrc2b [m, l] @ buf) 0 2 (clean_words s) = (True, [m, l])"
    using read_words_frame [of "[]" 0 "[]" "clean_words s" "[m, l]" Sps30_CalcCrc2b buf] assms(2) unfolding two
    by (simp del: sensor_frame_simps)
  then show ?thesis
    using assms(1) by (simp add: read_clean_interval_def del: sensor_frame_simps)
qed

definition words_of_interval :: "u32 \<Rightarrow> u16 list" where
  "words_of_interval i = [ucast (drop_bit 16 i), ucast (i AND 65535)]"

lemma words_of_interval: "long_of (ucast (drop_bit 16 i)) (ucast (i AND 65535)) = i"
proof -
  have mask: "(65535 :: u32) = mask 16"
    by (simp add: mask_eq_exp_minus_1)
  show ?thesis
    unfolding mask by (intro bit_word_eqI) (auto simp: long_of_def bit_simps dest: bit_imp_le_length)
qed

text \<open>
  C21: an interval of any 32 bits that the sensor confirms by sending it back, after the order to set it or when it
  is asked later, is the interval that the driver then holds.
\<close>

theorem sps30_interval_roundtrip:
  assumes "sps_answers env ([0x80, 0x04] @ sensor_frame Sps30_CalcCrc2b (words_of_interval interval)) 6
      (sensor_frame Sps30_CalcCrc2b (words_of_interval interval)) w w1"
    and "sps_answers env [0x80, 0x04] 6 (sensor_frame Sps30_CalcCrc2b (words_of_interval interval)) w1 w2"
    and "length (clean_words s) = 2" "length (clean_words t) = 2"
  shows "(\<exists>s'. Sps30_SetAutoCleanInterval env interval s w = (SPSNOERROR, s', w1) \<and> clean_interval s' = interval) \<and>
    (\<exists>t'. Sps30_ReadAutoCleanInterval env t w1 = (SPSNOERROR, t', w2) \<and> clean_interval t' = interval)"
proof -
  let ?frame = "sensor_frame Sps30_CalcCrc2b (words_of_interval interval)"
  have msg: "[0x80, 0x04] = [high_byte SPS30_CMMD_AUTO_CLEAN_INTV, low_byte SPS30_CMMD_AUTO_CLEAN_INTV]"
    by (simp add: high_byte_def low_byte_def SPS30_CMMD_AUTO_CLEAN_INTV_def)
  have six: "length ?frame = 6"
    by (simp add: words_of_interval_def)
  note answered = sps_interval_answered [where m = "ucast (drop_bit 16 interval)" and l = "ucast (interval AND 65535)",
      folded words_of_interval_def, unfolded words_of_interval]
  obtain v1 s1 buf where w: "sps_write env ([0x80, 0x04] @ ?frame) s w = (SPSNOERROR, s1, v1)"
      and r: "sps_read env 6 s1 v1 = (s\<lparr>sps_buf := ?frame @ buf\<rparr>, w1)"
    using assms(1) six by (rule sps_message_answered)
  have "\<exists>s'. Sps30_SetAutoCleanInterval env interval s w = (SPSNOERROR, s', w1) \<and> clean_interval s' = interval"
    using answered [OF r assms(3)] w by (simp add: Sps30_SetAutoCleanInterval_def Let_def msg words_of_interval_def)
  moreover obtain v1 s1 buf where w: "sps_write env [0x80, 0x04] t w1 = (SPSNOERROR, s1, v1)"
      and r: "sps_read env 6 s1 v1 = (t\<lparr>sps_buf := ?frame @ buf\<rparr>, w2)"
    using assms(2) six by (rule sps_message_answered)
  have "\<exists>t'. Sps30_ReadAutoCleanInterval env t w1 = (SPSNOERROR, t', w2) \<and> clean_interval t' = interval"
    using answered [OF r assms(4)] w by (simp add: Sps30_ReadAutoCleanInterval_def sps_command_def msg)
  ultimately show ?thesis
    by (rule conjI)
qed

lemma sps_measurement_answered:
  assumes "sps_answers env [0x02, 0x02] 3 (sensor_frame Sps30_CalcCrc2b [1]) w w1"
    and "sps_answers env [0x03, 0x00] 60 bs w1 w2" "length bs = 60"
  obtains s1 buf where "Sps30_GetReadyStatus env s w = (SPSNOERROR, s1, w1)" "sps_ready s1 = 1" "sps_words s1 = sps_words s"
    "\<forall>ok ws. read_words Sps30_CalcCrc2b (bs @ buf) 0 20 (sps_words s) = (ok, ws) \<longrightarrow>
      (\<exists>s2. Sps30_ReadMeasurement env s1 w1 = (if ok then SPSNOERROR else SPSCRCERROR, s2, w2) \<and>
        (ok \<longrightarrow> sps_values s2 = values_of_words 10 ws))"
proof -
  have msg: "[0x02, 0x02] = [high_byte SPS30_CMMD_GET_READY_STAT, low_byte SPS30_CMMD_GET_READY_STAT]"
      "[0x03, 0x00] = [high_byte SPS30_CMMD_READ_MEAS, low_byte SPS30_CMMD_READ_MEAS]"
    by (simp_all add: high_byte_def low_byte_def SPS30_CMMD_GET_READY_STAT_def SPS30_CMMD_READ_MEAS_def)
  have three: "length (sensor_frame Sps30_CalcCrc2b [1]) = 3"
    by simp
  obtain v1 t1 buf where "sps_write env [0x02, 0x02] s w = (SPSNOERROR, t1, v1)"
      "sps_read env 3 t1 v1 = (s\<lparr>sps_buf := sensor_frame Sps30_CalcCrc2b [1] @ buf\<rparr>, w1)"
    using assms(1) three by (rule sps_message_answered)
  then obtain s1 where r: "Sps30_GetReadyStatus env s w = (SPSNOERROR, s1, w1)" "sps_ready s1 = 1" "sps_words s1 = sps_words s"
    by (simp add: Sps30_GetReadyStatus_def sps_command_def msg Let_def Sps30_CheckCrc2b_def)
  obtain v2 t2 buf2 where "sps_write env [0x03, 0x00] s1 w1 = (SPSNOERROR, t2, v2)"
      "sps_read env 60 t2 v2 = (s1\<lparr>sps_buf := bs @ buf2\<rparr>, w2)"
    using assms(2,3) by (rule sps_message_answered)
  then show thesis
    using r by (intro that [of s1 buf2]) (simp_all add: Sps30_ReadMeasurement_def sps_command_def msg)
qed

text \<open>
  C20: when the sensor is ready and the twenty words of a measurement arrive, the masses of the second and the
  fourth number are reported.
\<close>

theorem sps30_reads_measurement:
  assumes "sps_answers env [0x02, 0x02] 3 (sensor_frame Sps30_CalcCrc2b [1]) w w1" "length ws = 20"
    and "sps_answers env [0x03, 0x00] 60 (sensor_frame Sps30_CalcCrc2b ws) w1 w2" "length (sps_words s) = 20"
    and "float_text rnd (long_of (ws ! 2) (ws ! 3)) = Some mass_2p5" "float_text rnd (long_of (ws ! 6) (ws ! 7)) = Some mass_10p0"
  shows "\<exists>s'. Sps30_GetData rnd env data_list s w =
    Some (DATA_OK, data_list @ [(''PM2.5_mass'', snd mass_2p5), (''PM10_mass'', snd mass_10p0)], s', w2)"
proof -
  have sixty: "length (sensor_frame Sps30_CalcCrc2b ws) = 60"
    using assms(2) by simp
  obtain s1 buf where r: "Sps30_GetReadyStatus env s w = (SPSNOERROR, s1, w1)" "sps_ready s1 = 1" "sps_words s1 = sps_words s"
      and m: "\<forall>ok acc. read_words Sps30_CalcCrc2b (sensor_frame Sps30_CalcCrc2b ws @ buf) 0 20 (sps_words s) = (ok, acc) \<longrightarrow>
        (\<exists>s2. Sps30_ReadMeasurement env s1 w1 = (if ok then SPSNOERROR else SPSCRCERROR, s2, w2) \<and>
          (ok \<longrightarrow> sps_values s2 = values_of_words 10 acc))"
    by (rule sps_measurement_answered [OF assms(1,3) sixty, where s = s])
  have "read_words Sps30_CalcCrc2b (sensor_frame Sps30_CalcCrc2b ws @ buf) 0 20 (sps_words s) = (True, ws)"
    using read_words_frame [of "[]" 0 "[]" "sps_words s" ws Sps30_CalcCrc2b buf] assms(2,4) by simp
  from m [rule_format, OF this] obtain s2 where s2: "Sps30_ReadMeasurement env s1 w1 = (SPSNOERROR, s2, w2)"
      "sps_values s2 = values_of_words 10 ws"
    by auto
  have "values_of_words 10 ws ! 1 = long_of (ws ! 2) (ws ! 3)" "values_of_words 10 ws ! 3 = long_of (ws ! 6) (ws ! 7)"
    by (simp_all add: values_of_words_def)
  then show ?thesis
    using r s2 assms(5,6) by (simp add: Sps30_GetData_def)
qed

text \<open>One damaged byte of the sixty is noticed, and nothing is reported.\<close>

lemma sps30_damage_noticed:
  assumes "sps_answers env [0x02, 0x02] 3 (sensor_frame Sps30_CalcCrc2b [1]) w w1" "length ws = 20" "i < 60"
    and "sps_answers env [0x03, 0x00] 60 ((sensor_frame Sps30_CalcCrc2b ws)[i := b]) w1 w2"
    and "b \<noteq> sensor_frame Sps30_CalcCrc2b ws ! i"
  shows "\<exists>s'. Sps30_GetData rnd env data_list s w = Some (DATA_CRC_ERR, data_list, s', w2)"
proof -
  have sixty: "length ((sensor_frame Sps30_CalcCrc2b ws)[i := b]) = 60"
    using assms(2) by simp
  obtain s1 buf where r: "Sps30_GetReadyStatus env s w = (SPSNOERROR, s1, w1)" "sps_ready s1 = 1" "sps_words s1 = sps_words s"
      and m: "\<forall>ok acc. read_words Sps30_CalcCrc2b ((sensor_frame Sps30_CalcCrc2b ws)[i := b] @ buf) 0 20 (sps_words s) = (ok, acc) \<longrightarrow>
        (\<exists>s2. Sps30_ReadMeasurement env s1 w1 = (if ok then SPSNOERROR else SPSCRCERROR, s2, w2) \<and>
          (ok \<longrightarrow> sps_values s2 = values_of_words 10 acc))"
    by (rule sps_measurement_answered [OF assms(1,4) sixty, where s = s])
  have "\<not> fst (read_words Sps30_CalcCrc2b ((sensor_frame Sps30_CalcCrc2b ws)[i := b] @ buf) 0 20 (sps_words s))"
    using sps.damaged_frame [of "[]" 0 i ws b buf "sps_words s"] assms(2,3,5) by simp
  then obtain acc where "read_words Sps30_CalcCrc2b ((sensor_frame Sps30_CalcCrc2b ws)[i := b] @ buf) 0 20 (sps_words s) = (False, acc)"
    by (metis prod.collapse)
  from m [rule_format, OF this] obtain s2 where "Sps30_ReadMeasurement env s1 w1 = (SPSCRCERROR, s2, w2)"
    by auto
  then show ?thesis
    using r by (simp add: Sps30_GetData_def)
qed

section \<open>Example\<close>

text \<open>A device that is ready, sends 10 and 25 micrograms, and cleans its fan once a week.\<close>

definition sample_masses :: "u16 list" where
  "sample_masses = [0, 0, 0x4120, 0, 0, 0, 0x41C8, 0] @ replicate 12 0"

definition sps30_sample_device :: "nat i2c_env" where
  "sps30_sample_device =
     \<lparr>i2c_write = \<lambda>address bs w. (0, w),
      i2c_read = \<lambda>address n w. (0, sensor_frame Sps30_CalcCrc2b (if n = 3 then [1] else if n = 6 then words_of_interval 604800 else sample_masses), Suc w)\<rparr>"

definition sample_sps30 :: sps30 where
  "sample_sps30 = \<lparr>sps_buf = replicate 60 0, sps_sn = replicate 33 0, sps_ready = 0, clean_words = [0, 0], clean_interval = 0,
     sps_words = replicate 20 0, sps_values = replicate 10 0, sps_oor_list = []\<rparr>"

theorem sps30_reads_measurement_witness:
  "\<exists>s'. Sps30_GetData (\<lambda>v. v) sps30_sample_device [] sample_sps30 0 =
    Some (DATA_OK, [(''PM2.5_mass'', ''10.00''), (''PM10_mass'', ''25.00'')], s', 2)"
proof -
  have "float_value (long_of 0x4120 0) = Some 10" "float_value (long_of 0x41C8 0) = Some 25"
    by (simp_all add: float_value_def long_of_def Let_def)
  moreover have "ConvertDataToString (\<lambda>v. v) 10 = Some ''10.00''" "ConvertDataToString (\<lambda>v. v) 25 = Some ''25.00''"
    by code_simp+
  ultimately have texts: "float_text (\<lambda>v. v) (long_of 0x4120 0) = Some (10, ''10.00'')"
      "float_text (\<lambda>v. v) (long_of 0x41C8 0) = Some (25, ''25.00'')"
    by (simp_all add: float_text_def)
  have answers: "sps_answers sps30_sample_device [0x02, 0x02] 3 (sensor_frame Sps30_CalcCrc2b [1]) 0 1"
      "sps_answers sps30_sample_device [0x03, 0x00] 60 (sensor_frame Sps30_CalcCrc2b sample_masses) 1 2"
    by (simp_all add: sps_answers_def sps30_sample_device_def del: sensor_frame_simps)
  have words: "length sample_masses = 20" "length (sps_words sample_sps30) = 20" "sample_masses ! 2 = 0x4120"
      "sample_masses ! 3 = 0" "sample_masses ! 6 = 0x41C8" "sample_masses ! 7 = 0"
    by (simp_all add: sample_masses_def sample_sps30_def)
  show ?thesis
    using sps30_reads_measurement [OF answers(1) words(1) answers(2) words(2), unfolded words, OF texts, of "[]"] by simp
qed

theorem sps30_interval_roundtrip_witness:
  "(\<exists>s'. Sps30_SetAutoCleanInterval sps30_sample_device 604800 sample_sps30 0 = (SPSNOERROR, s', 1) \<and> clean_interval s' = 604800) \<and>
    (\<exists>t'. Sps30_ReadAutoCleanInterval sps30_sample_device sample_sps30 1 = (SPSNOERROR, t', 2) \<and> clean_interval t' = 604800)"
proof (rule sps30_interval_roundtrip)
  show "sps_answers sps30_sample_device ([0x80, 0x04] @ sensor_frame Sps30_CalcCrc2b (words_of_interval 604800)) 6
      (sensor_frame Sps30_CalcCrc2b (words_of_interval 604800)) 0 1"
    "sps_answers sps30_sample_device [0x80, 0x04] 6 (sensor_frame Sps30_CalcCrc2b (words_of_interval 604800)) 1 2"
    by (simp_all add: sps_answers_def sps30_sample_device_def)
qed (simp_all add: sample_sps30_def)

end
