(* ===== verification/Sensor_Tmp75.thy ===== *)
theory Sensor_Tmp75
  imports Sensor_Base
begin

text \<open>\<open>src/sensors-lib/tmp75\<close>: the driver of the temperature sensor on the board.\<close>

section \<open>The driver\<close>

datatype TmpStatus = TMPNOACK | TMPACK | TMPOK | TMPALERT | TMPCONFIGFAIL

record tmp_config =
  oneshot :: bool
  pol :: bool
  tmode :: bool
  shutdown :: bool
  fqueue :: int
  cvrate :: int

text \<open>The temperatures are multiples of the resolution, or what the caller gives, all exact as \<open>float\<close>s.\<close>

record tmp75 =
  tmp_buf :: "byte list"
  tmp_active :: bool
  temp_high :: rat
  temp_low :: rat
  temp_data :: rat
  tmp_config_t :: tmp_config

definition TMP75_I2C_ADDR :: byte where "TMP75_I2C_ADDR = 0x96"
definition TMP75_CMMD_READ_TEMP_REG :: byte where "TMP75_CMMD_READ_TEMP_REG = 0x00"
definition TMP75_CMMD_CONFIG_REG :: byte where "TMP75_CMMD_CONFIG_REG = 0x01"
definition TMP75_CMMD_TEMP_LOW_REG :: byte where "TMP75_CMMD_TEMP_LOW_REG = 0x02"
definition TMP75_CMMD_TEMP_HIGH_REG :: byte where "TMP75_CMMD_TEMP_HIGH_REG = 0x03"
definition TMP75_CONF_ONE_SHOT :: byte where "TMP75_CONF_ONE_SHOT = 0x80"
definition TMP75_CONF_CONV_RATE :: byte where "TMP75_CONF_CONV_RATE = 0x60"
definition TMP75_CONF_FAULT_Q :: byte where "TMP75_CONF_FAULT_Q = 0x18"
definition TMP75_CONF_ALRT_POL :: byte where "TMP75_CONF_ALRT_POL = 0x04"
definition TMP75_CONF_ALRT_MODE :: byte where "TMP75_CONF_ALRT_MODE = 0x02"
definition TMP75_CONF_SD_MODE :: byte where "TMP75_CONF_SD_MODE = 0x01"
definition TMP75_CONF_RESERVED :: byte where "TMP75_CONF_RESERVED = 0xFF"
definition TMP75_UPPER_LIMIT :: rat where "TMP75_UPPER_LIMIT = 125"
definition TMP75_LOWER_LIMIT :: rat where "TMP75_LOWER_LIMIT = - 40"
definition TMP75_RESOLUTION :: rat where "TMP75_RESOLUTION = 1 / 16"

lemmas tmp75_constants =
  TMP75_I2C_ADDR_def TMP75_CMMD_READ_TEMP_REG_def TMP75_CMMD_CONFIG_REG_def TMP75_CMMD_TEMP_LOW_REG_def
  TMP75_CMMD_TEMP_HIGH_REG_def TMP75_CONF_ONE_SHOT_def TMP75_CONF_CONV_RATE_def TMP75_CONF_FAULT_Q_def
  TMP75_CONF_ALRT_POL_def TMP75_CONF_ALRT_MODE_def TMP75_CONF_SD_MODE_def TMP75_CONF_RESERVED_def
  TMP75_UPPER_LIMIT_def TMP75_LOWER_LIMIT_def TMP75_RESOLUTION_def

definition tmp_fill :: "byte list \<Rightarrow> tmp75 \<Rightarrow> tmp75" where
  "tmp_fill bs s = s\<lparr>tmp_buf := bs @ drop (length bs) (tmp_buf s)\<rparr>"

definition tmp_write :: "'w i2c_env \<Rightarrow> byte list \<Rightarrow> tmp75 \<Rightarrow> 'w \<Rightarrow> bool \<times> tmp75 \<times> 'w" where
  "tmp_write env bs s w =
     (let s = tmp_fill bs s in
      case i2c_write env TMP75_I2C_ADDR (take (length bs) (tmp_buf s)) w of (res, w) \<Rightarrow> (res = 0, s, w))"

text \<open>Naming a register and reading two bytes of it.\<close>

definition tmp_read_register :: "'w i2c_env \<Rightarrow> byte \<Rightarrow> tmp75 \<Rightarrow> 'w \<Rightarrow> bool \<times> tmp75 \<times> 'w" where
  "tmp_read_register env reg s w =
     (case tmp_write env [reg] s w of (ok, s, w) \<Rightarrow>
        if \<not> ok then (False, s, w)
        else case i2c_read env TMP75_I2C_ADDR 2 w of (res, bs, w) \<Rightarrow>
          (res = 0, s\<lparr>tmp_buf := into_buffer 2 bs (tmp_buf s)\<rparr>, w))"

definition tmp_register_value :: "tmp75 \<Rightarrow> rat" where
  "tmp_register_value s = of_nat (unat (drop_bit 4 (word_of (tmp_buf s ! 0) (tmp_buf s ! 1)))) * TMP75_RESOLUTION"

definition config_byte :: "tmp_config \<Rightarrow> byte" where
  "config_byte c =
     push_bit 7 (of_bool (oneshot c)) OR push_bit 5 (word_of_int (cvrate c)) OR push_bit 3 (word_of_int (fqueue c)) OR
     push_bit 2 (of_bool (pol c)) OR push_bit 1 (of_bool (tmode c)) OR of_bool (shutdown c)"

definition SetConfigReg :: "'w i2c_env \<Rightarrow> tmp75 \<Rightarrow> 'w \<Rightarrow> TmpStatus \<times> tmp75 \<times> 'w" where
  "SetConfigReg env s w =
     (let c = tmp_config_t s;
          c = (if cvrate c < 0 \<or> cvrate c > 3 then c\<lparr>cvrate := 0\<rparr> else c);
          c = (if fqueue c < 0 \<or> fqueue c > 3 then c\<lparr>fqueue := 0\<rparr> else c)
      in case tmp_write env [TMP75_CMMD_CONFIG_REG, config_byte c, TMP75_CONF_RESERVED] (s\<lparr>tmp_config_t := c\<rparr>) w of
           (ok, s, w) \<Rightarrow> (if ok then TMPACK else TMPNOACK, s, w))"

text \<open>
  \<open>SetTempLow\<close> and \<open>SetTempHigh\<close>: the quotient is converted to \<open>uint16_t\<close>, which is undefined for a negative
  one.
\<close>

definition set_limit ::
    "'w i2c_env \<Rightarrow> byte \<Rightarrow> (tmp75 \<Rightarrow> tmp75) \<Rightarrow> rat \<Rightarrow> tmp75 \<Rightarrow> 'w \<Rightarrow> (TmpStatus \<times> tmp75 \<times> 'w) option" where
  "set_limit env reg store_val val s w =
     (if val > TMP75_UPPER_LIMIT \<or> val < TMP75_LOWER_LIMIT then Some (TMPCONFIGFAIL, s, w)
      else let q = truncate_rat (val / TMP75_RESOLUTION) in
        if q < 0 then None
        else let temp = push_bit 4 (word_of_int q :: u16) in
          case tmp_write env [reg, high_byte temp, low_byte temp] s w of
            (ok, s, w) \<Rightarrow> Some (if ok then (TMPACK, store_val s, w) else (TMPNOACK, s, w)))"

definition SetTempLow :: "'w i2c_env \<Rightarrow> rat \<Rightarrow> tmp75 \<Rightarrow> 'w \<Rightarrow> (TmpStatus \<times> tmp75 \<times> 'w) option" where
  "SetTempLow env val = set_limit env TMP75_CMMD_TEMP_LOW_REG (\<lambda>s. s\<lparr>temp_low := val\<rparr>) val"

definition SetTempHigh :: "'w i2c_env \<Rightarrow> rat \<Rightarrow> tmp75 \<Rightarrow> 'w \<Rightarrow> (TmpStatus \<times> tmp75 \<times> 'w) option" where
  "SetTempHigh env val = set_limit env TMP75_CMMD_TEMP_HIGH_REG (\<lambda>s. s\<lparr>temp_high := val\<rparr>) val"

definition ReadConfigReg :: "'w i2c_env \<Rightarrow> tmp75 \<Rightarrow> 'w \<Rightarrow> TmpStatus \<times> tmp75 \<times> 'w" where
  "ReadConfigReg env s w =
     (case tmp_read_register env TMP75_CMMD_CONFIG_REG s w of (ok, s, w) \<Rightarrow>
        if \<not> ok then (TMPNOACK, s, w)
        else let config_reg = tmp_buf s ! 0 in
          (TMPACK, s\<lparr>tmp_config_t :=
             \<lparr>oneshot = (drop_bit 7 (config_reg AND TMP75_CONF_ONE_SHOT) \<noteq> 0),
              pol = (drop_bit 2 (config_reg AND TMP75_CONF_ALRT_POL) \<noteq> 0),
              tmode = (drop_bit 1 (config_reg AND TMP75_CONF_ALRT_MODE) \<noteq> 0),
              shutdown = (config_reg AND TMP75_CONF_SD_MODE \<noteq> 0),
              fqueue = uint (drop_bit 3 (config_reg AND TMP75_CONF_FAULT_Q)),
              cvrate = uint (drop_bit 5 (config_reg AND TMP75_CONF_CONV_RATE))\<rparr>\<rparr>, w))"

definition ReadTempLow :: "'w i2c_env \<Rightarrow> tmp75 \<Rightarrow> 'w \<Rightarrow> TmpStatus \<times> tmp75 \<times> 'w" where
  "ReadTempLow env s w =
     (case tmp_read_register env TMP75_CMMD_TEMP_LOW_REG s w of (ok, s, w) \<Rightarrow>
        if ok then (TMPACK, s\<lparr>temp_low := tmp_register_value s\<rparr>, w) else (TMPNOACK, s, w))"

definition ReadTempHigh :: "'w i2c_env \<Rightarrow> tmp75 \<Rightarrow> 'w \<Rightarrow> TmpStatus \<times> tmp75 \<times> 'w" where
  "ReadTempHigh env s w =
     (case tmp_read_register env TMP75_CMMD_TEMP_HIGH_REG s w of (ok, s, w) \<Rightarrow>
        if ok then (TMPACK, s\<lparr>temp_high := tmp_register_value s\<rparr>, w) else (TMPNOACK, s, w))"

definition ReadTemp :: "'w i2c_env \<Rightarrow> tmp75 \<Rightarrow> 'w \<Rightarrow> TmpStatus \<times> tmp75 \<times> 'w" where
  "ReadTemp env s w =
     (case tmp_read_register env TMP75_CMMD_READ_TEMP_REG s w of (ok, s, w) \<Rightarrow>
        if ok then (TMPACK, s\<lparr>temp_data := tmp_register_value s\<rparr>, w) else (TMPNOACK, s, w))"

definition ReadAlert :: "bool \<Rightarrow> tmp75 \<Rightarrow> TmpStatus" where
  "ReadAlert alert_stat s = (if alert_stat = pol (tmp_config_t s) then TMPALERT else TMPOK)"

definition Tmp75_StartOneMeasurement :: "'w i2c_env \<Rightarrow> tmp75 \<Rightarrow> 'w \<Rightarrow> TmpStatus \<times> tmp75 \<times> 'w" where
  "Tmp75_StartOneMeasurement env s w =
     (case SetConfigReg env (s\<lparr>tmp_config_t := (tmp_config_t s)\<lparr>oneshot := True, shutdown := True\<rparr>\<rparr>) w of (ret, s, w) \<Rightarrow>
        if ret = TMPNOACK then (TMPNOACK, s, w) else ReadTemp env s w)"

definition Tmp75_StartMeasurement :: "'w i2c_env \<Rightarrow> tmp75 \<Rightarrow> 'w \<Rightarrow> TmpStatus \<times> tmp75 \<times> 'w" where
  "Tmp75_StartMeasurement env s = SetConfigReg env (s\<lparr>tmp_config_t := (tmp_config_t s)\<lparr>oneshot := False, shutdown := False\<rparr>\<rparr>)"

definition Tmp75_StopMeasurement :: "'w i2c_env \<Rightarrow> tmp75 \<Rightarrow> 'w \<Rightarrow> TmpStatus \<times> tmp75 \<times> 'w" where
  "Tmp75_StopMeasurement env s = SetConfigReg env (s\<lparr>tmp_config_t := (tmp_config_t s)\<lparr>shutdown := True\<rparr>\<rparr>)"

definition HardReset :: "'w i2c_env \<Rightarrow> tmp75 \<Rightarrow> 'w \<Rightarrow> tmp75 \<times> 'w" where
  "HardReset env s w = (let s = tmp_fill [0x06] s in (s, snd (i2c_write env 0x00 (take 1 (tmp_buf s)) w)))"

definition Tmp75_Enable :: "'w i2c_env \<Rightarrow> tmp75 \<Rightarrow> 'w \<Rightarrow> (tmp75 \<times> 'w) option" where
  "Tmp75_Enable env s w =
     (let s = s\<lparr>tmp_config_t := (tmp_config_t s)\<lparr>pol := True, tmode := False, fqueue := 2, cvrate := 3\<rparr>\<rparr> in
      Option.bind (SetTempHigh env 45 s w) (\<lambda>(_, s, w).
      Option.bind (SetTempLow env 40 s w) (\<lambda>(_, s, w).
        case Tmp75_StartMeasurement env s w of (_, s, w) \<Rightarrow> Some (s\<lparr>tmp_active := True\<rparr>, w))))"

definition Tmp75_Disable :: "'w i2c_env \<Rightarrow> tmp75 \<Rightarrow> 'w \<Rightarrow> (tmp75 \<times> 'w) option" where
  "Tmp75_Disable env s w = (case Tmp75_StopMeasurement env s w of (_, s, w) \<Rightarrow> Some (s\<lparr>tmp_active := False\<rparr>, w))"

definition Tmp75_Reset :: "'w i2c_env \<Rightarrow> tmp75 \<Rightarrow> 'w \<Rightarrow> (tmp75 \<times> 'w) option" where
  "Tmp75_Reset env s w =
     (case HardReset env s w of (s, w) \<Rightarrow> if tmp_active s then Tmp75_Enable env s w else Tmp75_Disable env s w)"

definition Tmp75_Configure :: "'w i2c_env \<Rightarrow> rat \<Rightarrow> rat \<Rightarrow> tmp75 \<Rightarrow> 'w \<Rightarrow> (TmpStatus \<times> tmp75 \<times> 'w) option" where
  "Tmp75_Configure env t_low t_high s w =
     Option.bind (SetTempLow env t_low s w) (\<lambda>(ret, s, w).
       if ret \<noteq> TMPACK then Some (TMPCONFIGFAIL, s, w)
       else Option.bind (SetTempHigh env t_high s w) (\<lambda>(ret, s, w).
         if ret \<noteq> TMPACK then Some (TMPCONFIGFAIL, s, w)
         else case ReadTempLow env s w of (ret, s, w) \<Rightarrow>
           if ret \<noteq> TMPACK then Some (TMPCONFIGFAIL, s, w)
           else case ReadTempHigh env s w of (ret, s, w) \<Rightarrow>
             Some (if ret \<noteq> TMPACK then TMPCONFIGFAIL
               else if temp_low s \<noteq> t_low then TMPCONFIGFAIL
               else if temp_high s \<noteq> t_high then TMPCONFIGFAIL
               else TMPOK, s, w)))"

definition Tmp75_GetData ::
    "(rat \<Rightarrow> rat) \<Rightarrow> 'w i2c_env \<Rightarrow> bool \<Rightarrow> (string \<times> string) list \<Rightarrow> tmp75 \<Rightarrow> 'w \<Rightarrow>
     (SensorStatus \<times> (string \<times> string) list \<times> tmp75 \<times> 'w) option" where
  "Tmp75_GetData rnd env alert_stat data_list s w =
     (if \<not> tmp_active s then Some (DISCONNECT, data_list, s, w)
      else case ReadTemp env s w of (ret, s, w) \<Rightarrow>
        if ret \<noteq> TMPACK then Some (DISCONNECT, data_list, s, w)
        else map_option (\<lambda>amb_temp. (DATA_OK, data_list @ [(''ambient_temp'', amb_temp)] @
            (if ReadAlert alert_stat s = TMPALERT then [(''ambient_temp_alert'', '''')] else []), s, w))
          (ConvertDataToString rnd (temp_data s)))"

section \<open>A sensor\<close>

text \<open>
  The registers of a TMP75 as its data sheet describes them: a write names a register and stores the two bytes
  that follow in it; the configuration has one byte. A read gives the register named last.
\<close>

record tmp75_chip =
  pointer :: byte
  registers :: "byte \<Rightarrow> byte list"

definition chip_env :: "tmp75_chip i2c_env" where
  "chip_env =
     \<lparr>i2c_write = (\<lambda>address bs chip.
        if address \<noteq> TMP75_I2C_ADDR then (0, chip)
        else case bs of
          [] \<Rightarrow> (0, chip)
        | [reg] \<Rightarrow> (0, chip\<lparr>pointer := reg\<rparr>)
        | reg # v \<Rightarrow> (0, chip\<lparr>pointer := reg, registers := (registers chip)(reg := v)\<rparr>)),
      i2c_read = (\<lambda>address n chip. (0, take n (registers chip (pointer chip)), chip))\<rparr>"

text \<open>What the temperature register of twelve bits holds, at the top of its sixteen.\<close>

definition temperature_register :: "int \<Rightarrow> byte list" where
  "temperature_register sixteenths = (let r = push_bit 4 (word_of_int sixteenths :: u16) in [high_byte r, low_byte r])"

section \<open>Reading registers\<close>

lemma register_value: "unat (drop_bit 4 (push_bit 4 (word_of_int k :: u16))) = nat (k mod 4096)"
proof -
  have "drop_bit 4 (push_bit 4 w) = take_bit 12 w" for w :: u16
    by (rule bit_word_eqI) (auto simp: bit_simps dest: bit_imp_le_length)
  then have "unat (drop_bit 4 (push_bit 4 (word_of_int k :: u16))) = take_bit 12 (unat (word_of_int k :: u16))"
    by (simp add: unsigned_take_bit_eq)
  also have "\<dots> = nat (take_bit 12 (take_bit 16 k))"
    by (subst nat_take_bit_eq) (simp_all add: unsigned_of_int)
  also have "\<dots> = nat (take_bit 12 k)"
    by simp
  finally show ?thesis
    by (simp add: take_bit_eq_mod)
qed

text \<open>A register of the chip is read into the buffer.\<close>

lemma chip_read:
  assumes "registers chip reg = h # l # rest"
  shows "\<exists>buf. tmp_read_register chip_env reg s chip = (True, s\<lparr>tmp_buf := h # l # buf\<rparr>, chip\<lparr>pointer := reg\<rparr>)"
  using assms
  by (simp add: tmp_read_register_def tmp_write_def tmp_fill_def chip_env_def into_buffer_def Let_def) (rule exI, rule refl)

lemma chip_temperature:
  assumes "registers chip reg = temperature_register k"
  shows "\<exists>buf. tmp_read_register chip_env reg s chip = (True, s\<lparr>tmp_buf := buf\<rparr>, chip\<lparr>pointer := reg\<rparr>) \<and>
    tmp_register_value (s\<lparr>tmp_buf := buf\<rparr>) = of_int (k mod 4096) / 16"
proof -
  obtain h l where r: "temperature_register k = [h, l]" "drop_bit 4 (word_of h l) = drop_bit 4 (push_bit 4 (word_of_int k))"
    by (simp add: temperature_register_def Let_def)
  obtain buf where "tmp_read_register chip_env reg s chip = (True, s\<lparr>tmp_buf := h # l # buf\<rparr>, chip\<lparr>pointer := reg\<rparr>)"
    using chip_read [of chip reg h l "[]" s] assms r(1) by auto
  moreover have "tmp_register_value (s\<lparr>tmp_buf := h # l # buf\<rparr>) = of_int (k mod 4096) / 16"
    by (simp add: tmp_register_value_def r(2) register_value TMP75_RESOLUTION_def of_nat_nat)
  ultimately show ?thesis
    by blast
qed

text \<open>
  The register holds the temperature in sixteenths of a degree as a number of twelve bits with a sign. From
  zero up the text of the temperature is reported, with the alert the pin shows; below zero the text of a
  temperature that is 256 degrees too high, since the sign is not extended.
\<close>

theorem temperature_reported:
  assumes "tmp_active s" "registers chip TMP75_CMMD_READ_TEMP_REG = temperature_register k" "- 2048 \<le> k" "k < 2048"
  shows "\<exists>s'. Tmp75_GetData rnd chip_env alert_stat data_list s chip =
    Some (DATA_OK, data_list @ [(''ambient_temp'', DoubleToChar rnd (of_int k / 16 + (if 0 \<le> k then 0 else 256)) 2)] @
      (if alert_stat = pol (tmp_config_t s) then [(''ambient_temp_alert'', '''')] else []), s', chip\<lparr>pointer := TMP75_CMMD_READ_TEMP_REG\<rparr>)"
proof -
  obtain buf where r: "tmp_read_register chip_env TMP75_CMMD_READ_TEMP_REG s chip =
      (True, s\<lparr>tmp_buf := buf\<rparr>, chip\<lparr>pointer := TMP75_CMMD_READ_TEMP_REG\<rparr>)"
      and v: "tmp_register_value (s\<lparr>tmp_buf := buf\<rparr>) = of_int (k mod 4096) / 16"
    using chip_temperature [OF assms(2)] by blast
  have "k mod 4096 = (if 0 \<le> k then k else k + 4096)"
    using assms(3,4) mod_pos_pos_trivial [of k 4096] mod_pos_pos_trivial [of "k + 4096" 4096] by simp
  then have val: "of_int (k mod 4096) / 16 = (of_int k / 16 + (if 0 \<le> k then 0 else 256) :: rat)"
    by (simp add: field_simps)
  have "0 \<le> (of_int (k mod 4096) / 16 :: rat)" "of_int (k mod 4096) / 16 < (256 :: rat)"
    by (simp_all add: pos_divide_less_eq)
  then have "0 \<le> truncate_rat (of_int (k mod 4096) / 16)" "truncate_rat (of_int (k mod 4096) / 16) < 256"
    by (simp_all add: truncate_rat_def floor_less_iff)
  then have "ConvertDataToString rnd (of_int (k mod 4096) / 16) = Some (DoubleToChar rnd (of_int (k mod 4096) / 16) 2)"
    by (simp add: ConvertDataToString_def int_min_def int_max_def)
  then show ?thesis
    using assms(1) by (simp add: Tmp75_GetData_def ReadTemp_def r v ReadAlert_def flip: val)
qed

section \<open>The configuration register\<close>

definition config_valid :: "tmp_config \<Rightarrow> bool" where
  "config_valid c \<longleftrightarrow> 0 \<le> cvrate c \<and> cvrate c \<le> 3 \<and> 0 \<le> fqueue c \<and> fqueue c \<le> 3"

text \<open>A valid configuration that was written to the chip is read back as it was.\<close>

lemma config_bits:
  assumes "config_valid c"
  shows "drop_bit 7 (config_byte c AND TMP75_CONF_ONE_SHOT) \<noteq> 0 \<longleftrightarrow> oneshot c"
    "drop_bit 2 (config_byte c AND TMP75_CONF_ALRT_POL) \<noteq> 0 \<longleftrightarrow> pol c"
    "drop_bit 1 (config_byte c AND TMP75_CONF_ALRT_MODE) \<noteq> 0 \<longleftrightarrow> tmode c"
    "config_byte c AND TMP75_CONF_SD_MODE \<noteq> 0 \<longleftrightarrow> shutdown c"
    "uint (drop_bit 3 (config_byte c AND TMP75_CONF_FAULT_Q)) = fqueue c"
    "uint (drop_bit 5 (config_byte c AND TMP75_CONF_CONV_RATE)) = cvrate c"
proof -
  have "fqueue c \<in> {0, 1, 2, 3}" "cvrate c \<in> {0, 1, 2, 3}"
    using assms by (auto simp: config_valid_def)
  then show "drop_bit 7 (config_byte c AND TMP75_CONF_ONE_SHOT) \<noteq> 0 \<longleftrightarrow> oneshot c"
    "drop_bit 2 (config_byte c AND TMP75_CONF_ALRT_POL) \<noteq> 0 \<longleftrightarrow> pol c"
    "drop_bit 1 (config_byte c AND TMP75_CONF_ALRT_MODE) \<noteq> 0 \<longleftrightarrow> tmode c"
    "config_byte c AND TMP75_CONF_SD_MODE \<noteq> 0 \<longleftrightarrow> shutdown c"
    "uint (drop_bit 3 (config_byte c AND TMP75_CONF_FAULT_Q)) = fqueue c"
    "uint (drop_bit 5 (config_byte c AND TMP75_CONF_CONV_RATE)) = cvrate c"
    by (cases "oneshot c"; cases "pol c"; cases "tmode c"; cases "shutdown c"; auto simp: config_byte_def tmp75_constants)+
qed

lemma config_roundtrip:
  assumes "config_valid (tmp_config_t s)"
  shows "\<exists>s1 chip1 s2 chip2. SetConfigReg chip_env s chip = (TMPACK, s1, chip1) \<and>
    ReadConfigReg chip_env s1 chip1 = (TMPACK, s2, chip2) \<and> tmp_config_t s2 = tmp_config_t s"
proof -
  let ?c = "tmp_config_t s"
  obtain s1 where w: "SetConfigReg chip_env s chip = (TMPACK, s1, chip\<lparr>pointer := TMP75_CMMD_CONFIG_REG,
      registers := (registers chip)(TMP75_CMMD_CONFIG_REG := [config_byte ?c, TMP75_CONF_RESERVED])\<rparr>)"
    using assms by (simp add: SetConfigReg_def config_valid_def Let_def tmp_write_def tmp_fill_def chip_env_def)
  let ?chip = "chip\<lparr>pointer := TMP75_CMMD_CONFIG_REG,
      registers := (registers chip)(TMP75_CMMD_CONFIG_REG := [config_byte ?c, TMP75_CONF_RESERVED])\<rparr>"
  obtain buf where "tmp_read_register chip_env TMP75_CMMD_CONFIG_REG s1 ?chip =
      (True, s1\<lparr>tmp_buf := config_byte ?c # TMP75_CONF_RESERVED # buf\<rparr>, ?chip\<lparr>pointer := TMP75_CMMD_CONFIG_REG\<rparr>)"
    using chip_read [of ?chip TMP75_CMMD_CONFIG_REG "config_byte ?c" TMP75_CONF_RESERVED "[]" s1] by auto
  then show ?thesis
    using w config_bits [OF assms] by (simp add: ReadConfigReg_def Let_def)
qed

section \<open>The limits\<close>

text \<open>Setting a limit below zero converts a negative \<open>float\<close> to \<open>uint16_t\<close>, though the check lets it through.\<close>

lemma negative_limit_undefined:
  assumes "TMP75_LOWER_LIMIT \<le> val" "val \<le> - TMP75_RESOLUTION"
  shows "set_limit env reg store_val val s w = None"
proof -
  have "val / TMP75_RESOLUTION \<le> - 1"
    using assms(2) by (simp add: TMP75_RESOLUTION_def)
  then have "truncate_rat (val / TMP75_RESOLUTION) < 0"
    by (simp add: truncate_rat_def)
  then show ?thesis
    using assms by (simp add: set_limit_def tmp75_constants Let_def)
qed

text \<open>A limit that the chip can hold is written to its register as it is read from there.\<close>

lemma set_limit_chip:
  assumes "0 \<le> k" "k \<le> 2000"
  shows "\<exists>buf. set_limit chip_env reg store_val (of_int k / 16) s chip =
    Some (TMPACK, store_val (s\<lparr>tmp_buf := buf\<rparr>), chip\<lparr>pointer := reg, registers := (registers chip)(reg := temperature_register k)\<rparr>)"
proof -
  have "\<not> (of_int k / 16 > TMP75_UPPER_LIMIT \<or> of_int k / 16 < TMP75_LOWER_LIMIT)"
    using assms by (simp add: tmp75_constants divide_le_eq le_divide_eq not_less)
  moreover have "truncate_rat (of_int k / 16 / TMP75_RESOLUTION) = k"
    using assms by (simp add: truncate_rat_def TMP75_RESOLUTION_def)
  ultimately show ?thesis
    using assms by (simp add: set_limit_def Let_def tmp_write_def tmp_fill_def chip_env_def temperature_register_def)
      (rule exI, rule refl)
qed

section \<open>Example\<close>

text \<open>Half a degree below zero is reported as 255.50.\<close>

definition sample_tmp75 :: tmp75 where
  "sample_tmp75 = \<lparr>tmp_buf = [0, 0, 0, 0], tmp_active = True, temp_high = 45, temp_low = 40, temp_data = 0,
     tmp_config_t = \<lparr>oneshot = False, pol = True, tmode = False, shutdown = False, fqueue = 2, cvrate = 3\<rparr>\<rparr>"

definition frost :: tmp75_chip where
  "frost = \<lparr>pointer = 0, registers = (\<lambda>reg. temperature_register (- 8))\<rparr>"

theorem temperature_reported_witness:
  "\<exists>s'. Tmp75_GetData (\<lambda>v. v) chip_env False [] sample_tmp75 frost = Some (DATA_OK, [(''ambient_temp'', ''255.50'')], s', frost)"
proof -
  have "DoubleToChar (\<lambda>v. v) (511 / 2) 2 = ''255.50''"
    by code_simp
  then show ?thesis
    using temperature_reported [of sample_tmp75 frost "- 8" "\<lambda>v. v" False "[]"] by (simp add: sample_tmp75_def frost_def TMP75_CMMD_READ_TEMP_REG_def)
qed

end
