(* ===== verification/App_Sensor.thy ===== *)
theory App_Sensor
  imports App_Mail Sensor_Tmp75
begin

text \<open>The sensor on the board and the thread that reads it: from a register of the chip to the message of the cloud.\<close>

text \<open>What \<open>sensor_thread\<close> takes of the data of \<open>GetData\<close>: the first pair, when the status is \<open>DATA_OK\<close>.\<close>

definition board_reading :: "(SensorStatus \<times> (string \<times> string) list \<times> 's) option \<Rightarrow> (string \<times> string) option" where
  "board_reading r =
     (case r of Some (stat, s_data, s) \<Rightarrow> if stat = DATA_OK then Some (s_data ! 0) else None | None \<Rightarrow> None)"

lemma IntToString_no_null: "CHR 0x00 \<notin> set (IntToString v)"
  using show_nat_digits [of "CHR 0x00"] by (auto simp: IntToString_def is_digit_def)

lemma leading_zeros_no_null: "CHR 0x00 \<notin> set (leading_zeros i f)"
  by (induction i f rule: leading_zeros.induct) (subst leading_zeros.simps, auto)

lemma DoubleToChar_no_null: "CHR 0x00 \<notin> set (DoubleToChar rnd v n)"
  by (simp add: DoubleToChar_def Let_def IntToString_no_null leading_zeros_no_null)

text \<open>
  C11: a temperature in the register of the chip reaches the cloud as the measure point of this device with the
  number that its text is read as, whatever the profile held before: the temperature itself from zero up, 256
  degrees more below.
\<close>

theorem board_temperature_reaches_cloud:
  fixes io :: "'r real_io"
  assumes "tmp_active s" "registers chip TMP75_CMMD_READ_TEMP_REG = temperature_register k" "- 2048 \<le> k" "k < 2048"
    and "stod (DoubleToChar rnd (of_int k / 16 + (if 0 \<le> k then 0 else 256)) 2) = Some r" "real_plain io r" "ascii uuid"
  shows "\<exists>packet. GetNewDecadaPacket io stod uuid (fst (fold behavior_mail
      (sensor_stream now (board_reading (Tmp75_GetData rnd chip_env alert_stat [] s chip))) (old, False))) = Inr packet \<and>
    parse io packet = Some (True, measurement_message uuid ''ambient_temp'' r)"
proof -
  let ?text = "DoubleToChar rnd (of_int k / 16 + (if 0 \<le> k then 0 else 256)) 2"
  have "board_reading (Tmp75_GetData rnd chip_env alert_stat [] s chip) = Some (''ambient_temp'', ?text)"
    using temperature_reported [OF assms(1-4), of rnd alert_stat "[]"] by (auto simp: board_reading_def)
  moreover have "ascii ''ambient_temp''" "CHR 0x00 \<notin> set (''ambient_temp'' @ ?text)"
    by (simp_all add: ascii_def code_def DoubleToChar_no_null)
  ultimately show ?thesis
    using measurement_reaches_cloud [of stod ?text, OF assms(5,6,7), of "''ambient_temp''" now old] by auto
qed

section \<open>Example\<close>

text \<open>A register of 344 sixteenths is 21.5 degrees.\<close>

definition mild :: tmp75_chip where
  "mild = \<lparr>pointer = 0, registers = (\<lambda>reg. temperature_register 344)\<rparr>"

theorem board_temperature_reaches_cloud_witness:
  "\<exists>packet. GetNewDecadaPacket text_io (\<lambda>v. if v = ''21.50'' then Some ''21.5'' else None) ''0123'' (fst (fold behavior_mail
      (sensor_stream 1600000000 (board_reading (Tmp75_GetData (\<lambda>v. v) chip_env False [] sample_tmp75 mild))) ([(''co2'', ''400'', 5)], False))) = Inr packet \<and>
    parse text_io packet = Some (True, measurement_message ''0123'' ''ambient_temp'' ''21.5'')"
proof -
  have "DoubleToChar (\<lambda>v. v) (43 / 2) 2 = ''21.50''"
    by code_simp
  then show ?thesis
    by (intro board_temperature_reaches_cloud [where k = 344])
      (simp_all add: sample_tmp75_def mild_def sample_real ascii_def code_def)
qed

end
