(* ===== verification/Spec2Isabelle.thy ===== *)
theory Spec2Isabelle
  imports Optiga_Util Dtls_Windowing Mqtt_Packet Mqtt_Read Mqtt_Publish Mqtt_Subscribe Mqtt_Connect
    Mqtt_Client Mqtt_Topics Mqtt_Session Mqtt_Handlers Mqtt_Broker Mqtt_Faults
    Ifx_Crc Ifx_Physical Ifx_DataLink Ifx_Link Ifx_Recovery Ifx_Transport Ifx_Fragments Ifx_Stack Ifx_Api
    App_Convert App_Store App_Boot Json_Value Json_Reader Json_Parse Json_Roundtrip Json_Types
    App_Cloud App_Link App_Mail App_Threads
    Sensor_Base Sensor_Scd30 Sensor_Sps30 Sensor_Tmp75 App_Sensor
begin

text \<open>
  A verification library for the firmware of this repository, an mbed OS device that talks MQTT to a
  cloud and keeps its keys in an Infineon OPTIGA secure element behind an I2C bus.

  \<^bold>\<open>The program.\<close> The application (\<open>src/src\<close>, \<open>src/threads\<close>, C++) provisions the device in a cloud over HTTPS,
  keeps its settings in a key-value store, reads sensors and talks MQTT. It rests on the MQTT client
  (\<open>lib/MQTT/MQTTClient.h\<close>) over the MQTT packet library (\<open>lib/MQTT/MQTTPacket\<close>), on JsonCpp, and on the OPTIGA
  library (\<open>lib/optiga\<close>), whose commands travel through the IFX I2C protocol stack (\<open>comms\<close>) and whose
  DTLS client (\<open>dtls\<close>) protects records with the element.

  \<^bold>\<open>Conventions.\<close> \<open>Prelude\<close> holds them. A C object is its list of bytes; reading or writing outside it is
  undefined in C and \<open>None\<close> here, so that \<open>Some\<close> is a proof of staying inside. Machine integers are words of
  their width (\<open>byte\<close>, \<open>u16\<close>, \<open>u32\<close>), with the promotions to \<open>int\<close> written out where the code compares
  promoted values. A C \<open>int\<close> of the MQTT library is an \<open>int\<close>, because all its values stay small. Errors are
  values: the C result, or a status. Function pointers and everything outside \<open>src/\<close> (the mbed drivers, the
  transport of MQTT, the record validation callback, the application's handler) are parameters of the
  definitions or fields of the state. Definitions have the names of the code; the branches of a
  \<open>switch\<close> in a long function are definitions of their own, named after the state.

  \<^bold>\<open>The theories.\<close>

  \<^item> \<open>Optiga_Util\<close> models \<open>common/Util.c\<close>: 64-bit counters kept as two 32-bit halves, byte order and
    \<open>memmove\<close>; every operation is shown to be the one on natural numbers.
  \<^item> \<open>Dtls_Windowing\<close> models \<open>dtls/DtlsWindowing.c\<close> and the initial window of \<open>DtlsRecordLayer.c\<close>. The
    abstract specification remembers every accepted sequence number; the window refines it, no number is
    accepted twice, and a fresh valid one is accepted.
  \<^item> \<open>Mqtt_Packet\<close>, \<open>Mqtt_Read\<close>, \<open>Mqtt_Publish\<close>, \<open>Mqtt_Subscribe\<close>, \<open>Mqtt_Connect\<close> model \<open>MQTTPacket.c\<close>,
    the blocking and the non-blocking reader (the transport is a parameter, in arbitrary pieces), and both
    sides of every packet: round trips, bounds of the remaining length, and the places where a buffer or an
    array is overrun.
  \<^item> \<open>Mqtt_Client\<close> models the client of \<open>lib/MQTT/MQTTClient.h\<close> with the timers of \<open>MQTTmbed.h\<close>. The platform
    (network, clock, message handlers) is a record of functions \<open>mqtt_env\<close> on a state of its own; an operation
    gives the C result, the client and the platform, or \<open>None\<close> for undefined behaviour or a loop without end.
    \<open>Mqtt_Topics\<close> compares the topic matcher with the rule of the standard, \<open>Mqtt_Handlers\<close> shows that the
    handler table is a finite map with bounded room, \<open>Mqtt_Session\<close> describes a prompt network (it has the
    answer ready, and time runs short of every timeout) and what a client does with the messages on it,
    \<open>Mqtt_Broker\<close> shows whole exchanges on such a network, and \<open>Mqtt_Faults\<close> the places where the client
    breaks and the invariant \<open>client_ok\<close> of arbitrary sequences of calls on an arbitrary network.
  \<^item> \<open>Ifx_Config\<close> models \<open>ifx_i2c_config.h\<close>: one context shared by four layers, with a trace of what the
    platform is asked to do. The call of the handler of the layer above, always the last thing a layer does
    with an event, is left in the fields \<open>pl_up\<close>, \<open>dl_up\<close>, \<open>tl_up\<close>. The locale \<open>layer_op\<close> is the contract
    between the layers: an operation returns, keeps the invariant, and leaves the state above alone. Each
    layer interprets it for its operations, and the layer above uses the facts of the interpretation.
  \<^item> \<open>Ifx_Crc\<close> and \<open>Ifx_Physical\<close> model the CRC and \<open>ifx_i2c_physical_layer.c\<close> (registers, negotiation, soft
    reset, polling, slave address); \<open>Ifx_DataLink\<close> models \<open>ifx_i2c_data_link_layer.c\<close>, \<open>Ifx_Transport\<close> models
    \<open>ifx_i2c_transport_layer.c\<close>, \<open>Ifx_Stack\<close> models \<open>ifx_i2c.c\<close> and \<open>optiga_comms.c\<close> and composes the layers.
  \<^item> \<open>Ifx_Link\<close>, \<open>Ifx_Recovery\<close>, \<open>Ifx_Fragments\<close> and \<open>Ifx_Api\<close> hold the properties of these layers: frames on the
    wire, delivery, duplicates and damage; retransmission and giving up; fragments in both directions and
    the errors of reassembly; one command at a time, the reset sequence, initialisation.

  \<^item> \<open>App_Convert\<close>, \<open>App_Store\<close> and \<open>App_Boot\<close> model the conversions and times, \<open>PersistStore\<close> over a key-value
    store as a parameter (\<open>reliable\<close> says what a working store does), and the boot manager with \<open>main\<close> as functions
    of the characters typed.
  \<^item> \<open>Json_Value\<close>, \<open>Json_Reader\<close> and \<open>Json_Parse\<close> model the part of \<open>lib/JsonCpp/jsoncpp.cpp\<close> that the application
    uses: values, the two writers, the scanner and the reader with its recovery from errors. Doubles are an
    abstract type with its printing and reading as parameters. \<open>Json_Roundtrip\<close> shows that what is written is read
    back, \<open>Json_Types\<close> that whatever is read is well formed; \<open>parse_returns\<close> is the termination of the reader.
  \<^item> \<open>App_Cloud\<close> models the requests of \<open>DecadaManager\<close> and the keys of \<open>CryptoEngine\<close>; what the cloud answers to
    properly made and signed requests (\<open>cloud_serves\<close>) and what mbed TLS promises of a generated key
    (\<open>mbedtls_works\<close>) are named contracts. \<open>App_Link\<close> models its MQTT connection with the deletions of a reconnection (a deleted network that is used is a stop of the program),
    \<open>App_Mail\<close> the subscription callback, the mailboxes and what each thread does with a mail, and \<open>App_Threads\<close> the
    interleaving of the threads as a step relation: the invariant of the mailboxes and of the polling interval, a
    block that is freed twice, after which the mailbox of the control mails may hold anything, and a deadlock. Every
    way in which the program stops is a constructor of \<open>stop\<close>.
  \<^item> \<open>Sensor_Base\<close>, \<open>Sensor_Scd30\<close>, \<open>Sensor_Sps30\<close> and \<open>Sensor_Tmp75\<close> model the drivers under \<open>src/sensors-lib\<close> over
    an I2C bus as a parameter (\<open>i2c_env\<close>). The locale \<open>crc_check\<close> says what the check byte of a word notices; both
    Sensirion drivers interpret it for their \<open>CalcCrc2b\<close>, and what follows for damaged frames is proved once in it.
    A \<open>float\<close> is the bits that were read, with their IEEE value. \<open>App_Sensor\<close> joins the driver of the board, the
    threads and the printed packet: what the register holds against what the cloud reads.

  \<^bold>\<open>The shape of the proofs about the stack.\<close> Each layer has an invariant (\<open>pl_ok\<close>, \<open>dl_ok\<close>, \<open>tl_ok\<close>,
  \<open>stack_ok\<close>, each containing the one below) that bounds every length and offset the layer keeps. Each event
  handler of the code is a loop over the states of its layer; it is a \<open>function\<close> whose termination is
  proved with a rank of the states (\<open>negotiation_rank\<close>, \<open>dl_rank\<close>, \<open>tl_rank\<close>), so no fuel is needed
  anywhere. \<open>stack_step_safe\<close> composes the layers over arbitrary sequences of platform events, timers,
  deliveries and calls; what the code relies on without a check (the objects and the room a caller
  provides, the frame size at an initialisation, the chaining codes of the slave) is \<open>stack_event_ok\<close>. Functional properties leave open what the lower layers do between two events
  (\<open>tl_settled\<close>, \<open>same_above\<close>).

  \<^bold>\<open>Bounds.\<close> The frame buffers have 300 bytes and a frame carries at most 295 bytes of payload; a fragment has at
  most 294. The buffers of a caller are shorter than 65536 bytes. The frame size must leave room for the
  headers when a layer is initialised; \<open>small_frame_size_overflows\<close> shows what happens otherwise.

  \<^bold>\<open>Not modelled.\<close> The rest of the DTLS client (record protection, handshake, flights, alerts), the command
  library, and the crypt and util interfaces are not called by the program in its default configuration, which
  switches the secure element off; they are left out, and so are the logger, \<open>MQTTAsync.h\<close> and the debug text of
  \<open>MQTTFormat.c\<close>. The PAL files and \<open>communications_network.cpp\<close> are thin wrappers of mbed drivers; what they
  return is a parameter. \<open>http_parser\<close> is a vendored copy of an external project; an HTTPS request is a parameter
  that gives a body or no response. Of JsonCpp, \<open>OurReader\<close>, iterators, paths and the styled writers with
  indentation are not used by the program. The watchdog, sleeping and the event flags are left out of the threads.
\<close>

end
